(* ===== verification/Prelude.thy ===== *)
theory Prelude
  imports Complex_Main
begin

text \<open>
  Shared vocabulary of the development.

  The service code is a sequence of awaited database statements and remote calls, any of which
  may throw. It is modelled by a state-and-exception monad \<open>('s, 'e, 'a) io\<close>: a statement that
  has been executed stays executed when a later one throws (every awaited statement commits on
  its own), and only \<open>transaction\<close> rolls back. The theory also holds the arithmetic helpers the
  source defines several times over (\<open>clamp\<close>, \<open>clamp01\<close>, \<open>round4\<close>, \<open>Math.round\<close>), the table
  primitives behind the query builder (select, update where, upsert), and the proof rules that
  carry the component proofs: the collection \<open>keeps\<close> of invariant-preservation rules and the
  collection \<open>runs\<close> of evaluation rules.

  JavaScript numbers are modelled as mathematical reals (scores, penalties, ratings), as \<open>nat\<close>
  or \<open>int\<close> where the code counts or keeps milliseconds; IEEE rounding and NaN are not modelled.
\<close>

section \<open>The monad of service calls\<close>

named_theorems keeps \<open>a statement keeps a state predicate\<close>
named_theorems runs \<open>evaluation of statements\<close>

type_synonym ('s, 'e, 'a) io = "'s \<Rightarrow> ('e + 'a) \<times> 's"

definition ret :: "'a \<Rightarrow> ('s, 'e, 'a) io" where
  "ret x = (\<lambda>s. (Inr x, s))"

definition throw :: "'e \<Rightarrow> ('s, 'e, 'a) io" where
  "throw e = (\<lambda>s. (Inl e, s))"

definition bnd :: "('s, 'e, 'a) io \<Rightarrow> ('a \<Rightarrow> ('s, 'e, 'b) io) \<Rightarrow> ('s, 'e, 'b) io" where
  "bnd m f = (\<lambda>s. case m s of (Inl e, s') \<Rightarrow> (Inl e, s') | (Inr x, s') \<Rightarrow> f x s')"

text \<open>A statement whose result is not used.\<close>

definition andthen :: "('s, 'e, 'a) io \<Rightarrow> ('s, 'e, 'b) io \<Rightarrow> ('s, 'e, 'b) io" where
  "andthen m k = bnd m (\<lambda>_. k)"

text \<open>A read of the database, and a single statement that writes it.\<close>

definition query :: "('s \<Rightarrow> 'a) \<Rightarrow> ('s, 'e, 'a) io" where
  "query f = (\<lambda>s. (Inr (f s), s))"

definition modify :: "('s \<Rightarrow> 's) \<Rightarrow> ('s, 'e, unit) io" where
  "modify f = (\<lambda>s. (Inr (), f s))"

text \<open>A remote call: its answer, or the exception it throws.\<close>

definition call :: "'e + 'a \<Rightarrow> ('s, 'e, 'a) io" where
  "call r = (\<lambda>s. (r, s))"

text \<open>\<open>try { m } catch (err) { h err }\<close>.\<close>

definition try_catch :: "('s, 'e, 'a) io \<Rightarrow> ('e \<Rightarrow> ('s, 'e, 'a) io) \<Rightarrow> ('s, 'e, 'a) io" where
  "try_catch m h = (\<lambda>s. case m s of (Inl e, s') \<Rightarrow> h e s' | (Inr x, s') \<Rightarrow> (Inr x, s'))"

text \<open>\<open>db.transaction().execute(m)\<close>: a throw undoes every write of \<open>m\<close>.\<close>

definition transaction :: "('s, 'e, 'a) io \<Rightarrow> ('s, 'e, 'a) io" where
  "transaction m = (\<lambda>s. case m s of (Inl e, _) \<Rightarrow> (Inl e, s) | (Inr x, s') \<Rightarrow> (Inr x, s'))"

definition when_io :: "bool \<Rightarrow> ('s, 'e, unit) io \<Rightarrow> ('s, 'e, unit) io" where
  "when_io b m = (if b then m else ret ())"

text \<open>\<open>for (const x of xs) await f(x)\<close>, with and without collected results.\<close>

fun for_each :: "'a list \<Rightarrow> ('a \<Rightarrow> ('s, 'e, unit) io) \<Rightarrow> ('s, 'e, unit) io" where
  "for_each [] f = ret ()"
| "for_each (x # xs) f = andthen (f x) (for_each xs f)"

fun map_io :: "('a \<Rightarrow> ('s, 'e, 'b) io) \<Rightarrow> 'a list \<Rightarrow> ('s, 'e, 'b list) io" where
  "map_io f [] = ret []"
| "map_io f (x # xs) = bnd (f x) (\<lambda>y. bnd (map_io f xs) (\<lambda>ys. ret (y # ys)))"

subsection \<open>Evaluation rules\<close>

lemma ret_run [runs, simp]: "ret x s = (Inr x, s)"
  by (simp add: ret_def)

lemma throw_run [runs, simp]: "throw e s = (Inl e, s)"
  by (simp add: throw_def)

lemma query_run [runs, simp]: "query f s = (Inr (f s), s)"
  by (simp add: query_def)

lemma modify_run [runs, simp]: "modify f s = (Inr (), f s)"
  by (simp add: modify_def)

lemma call_run [runs, simp]: "call r s = (r, s)"
  by (simp add: call_def)

lemma bnd_run [runs]:
  "bnd m f s = (case m s of (Inl e, s') \<Rightarrow> (Inl e, s') | (Inr x, s') \<Rightarrow> f x s')"
  by (simp add: bnd_def)

lemma bnd_Inr [simp]: "m s = (Inr x, s') \<Longrightarrow> bnd m f s = f x s'"
  by (simp add: bnd_def)

lemma bnd_Inl [simp]: "m s = (Inl e, s') \<Longrightarrow> bnd m f s = (Inl e, s')"
  by (simp add: bnd_def)

lemma andthen_Inr [simp]: "m s = (Inr x, s') \<Longrightarrow> andthen m k s = k s'"
  by (simp add: andthen_def)

lemma andthen_Inl [simp]: "m s = (Inl e, s') \<Longrightarrow> andthen m k s = (Inl e, s')"
  by (simp add: andthen_def)

lemma when_io_run [runs, simp]: "when_io b m s = (if b then m s else (Inr (), s))"
  by (simp add: when_io_def)

lemma transaction_Inr [simp]: "m s = (Inr x, s') \<Longrightarrow> transaction m s = (Inr x, s')"
  by (simp add: transaction_def)

lemma transaction_Inl [simp]: "m s = (Inl e, s') \<Longrightarrow> transaction m s = (Inl e, s)"
  by (simp add: transaction_def)

lemma try_catch_Inr [simp]: "m s = (Inr x, s') \<Longrightarrow> try_catch m h s = (Inr x, s')"
  by (simp add: try_catch_def)

lemma try_catch_Inl [simp]: "m s = (Inl e, s') \<Longrightarrow> try_catch m h s = h e s'"
  by (simp add: try_catch_def)

lemma bnd_cases [consumes 1, case_names err ok]:
  assumes "bnd m f s = (r, s')"
  obtains e where "m s = (Inl e, s')" and "r = Inl e"
    | x s1 where "m s = (Inr x, s1)" and "f x s1 = (r, s')"
  using assms by (auto simp: bnd_def split: prod.splits sum.splits)

lemma andthen_cases [consumes 1, case_names err ok]:
  assumes "andthen m k s = (r, s')"
  obtains e where "m s = (Inl e, s')" and "r = Inl e"
    | x s1 where "m s = (Inr x, s1)" and "k s1 = (r, s')"
  using assms by (auto simp: andthen_def elim: bnd_cases)

subsection \<open>What a statement keeps\<close>

definition preserves :: "('s \<Rightarrow> bool) \<Rightarrow> ('s, 'e, 'a) io \<Rightarrow> bool" where
  "preserves I m \<longleftrightarrow> (\<forall>s. I s \<longrightarrow> I (snd (m s)))"

lemma preservesI: "(\<And>s. I s \<Longrightarrow> I (snd (m s))) \<Longrightarrow> preserves I m"
  by (simp add: preserves_def)

lemma preservesD: "preserves I m \<Longrightarrow> I s \<Longrightarrow> m s = (r, s') \<Longrightarrow> I s'"
  by (metis preserves_def snd_conv)

lemma preserves_ret [keeps]: "preserves I (ret x)"
  and preserves_throw [keeps]: "preserves I (throw e)"
  and preserves_query [keeps]: "preserves I (query q)"
  and preserves_call [keeps]: "preserves I (call r)"
  by (simp_all add: preserves_def)

lemma preserves_bnd [keeps]:
  "preserves I m \<Longrightarrow> (\<And>x. preserves I (f x)) \<Longrightarrow> preserves I (bnd m f)"
  by (fastforce simp: preserves_def bnd_def split: prod.splits sum.splits)

lemma preserves_andthen [keeps]:
  "preserves I m \<Longrightarrow> preserves I k \<Longrightarrow> preserves I (andthen m k)"
  by (simp add: andthen_def preserves_bnd)

lemma preserves_try_catch [keeps]:
  "preserves I m \<Longrightarrow> (\<And>e. preserves I (h e)) \<Longrightarrow> preserves I (try_catch m h)"
  by (fastforce simp: preserves_def try_catch_def split: prod.splits sum.splits)

lemma preserves_transaction [keeps]: "preserves I m \<Longrightarrow> preserves I (transaction m)"
  by (fastforce simp: preserves_def transaction_def split: prod.splits sum.splits)

lemma preserves_when_io [keeps]: "(b \<Longrightarrow> preserves I m) \<Longrightarrow> preserves I (when_io b m)"
  by (simp add: preserves_def)

lemma preserves_for_each [keeps]:
  "(\<And>x. x \<in> set xs \<Longrightarrow> preserves I (f x)) \<Longrightarrow> preserves I (for_each xs f)"
  by (induction xs) (auto intro: keeps)

lemma preserves_map_io [keeps]:
  "(\<And>x. x \<in> set xs \<Longrightarrow> preserves I (f x)) \<Longrightarrow> preserves I (map_io f xs)"
  by (induction xs) (auto intro: keeps)

lemma preserves_if [keeps]:
  "(b \<Longrightarrow> preserves I m) \<Longrightarrow> (\<not> b \<Longrightarrow> preserves I k) \<Longrightarrow> preserves I (if b then m else k)"
  by simp

lemma preserves_case_option [keeps]:
  "preserves I m \<Longrightarrow> (\<And>x. preserves I (f x)) \<Longrightarrow>
   preserves I (case y of None \<Rightarrow> m | Some x \<Rightarrow> f x)"
  by (cases y) simp_all

text \<open>
  A state predicate that is a fact about one table is kept by every write to another: give the
  observation \<open>obs\<close> the predicate depends on, and the writes that leave it alone.
\<close>

definition frames :: "('s \<Rightarrow> 'o) \<Rightarrow> ('s, 'e, 'a) io \<Rightarrow> bool" where
  "frames obs m \<longleftrightarrow> (\<forall>s. obs (snd (m s)) = obs s)"

lemma framesD: "frames obs m \<Longrightarrow> m s = (r, s') \<Longrightarrow> obs s' = obs s"
  by (metis frames_def snd_conv)

lemma frames_iff_preserves: "frames obs m \<longleftrightarrow> (\<forall>v. preserves (\<lambda>s. obs s = v) m)"
  by (auto simp: frames_def preserves_def)

section \<open>Arithmetic helpers of the source\<close>

definition clamp :: "real \<Rightarrow> real \<Rightarrow> real \<Rightarrow> real" where
  "clamp x lo hi = min hi (max lo x)"

definition clamp01 :: "real \<Rightarrow> real" where
  "clamp01 n = min 1 (max 0 n)"

text \<open>\<open>Math.round\<close> rounds halves up.\<close>

definition js_round :: "real \<Rightarrow> int" where
  "js_round x = \<lfloor>x + 1/2\<rfloor>"

definition round4 :: "real \<Rightarrow> real" where
  "round4 n = of_int (js_round (n * 10000)) / 10000"

lemma clamp_bounds: "lo \<le> hi \<Longrightarrow> lo \<le> clamp x lo hi \<and> clamp x lo hi \<le> hi"
  by (auto simp: clamp_def)

lemma clamp_id: "lo \<le> x \<Longrightarrow> x \<le> hi \<Longrightarrow> clamp x lo hi = x"
  by (auto simp: clamp_def)

lemma clamp_mono: "x \<le> y \<Longrightarrow> clamp x lo hi \<le> clamp y lo hi"
  by (auto simp: clamp_def)

lemma clamp01_ge0 [simp]: "0 \<le> clamp01 x"
  and clamp01_le1 [simp]: "clamp01 x \<le> 1"
  by (auto simp: clamp01_def)

lemma clamp01_id [simp]: "0 \<le> x \<Longrightarrow> x \<le> 1 \<Longrightarrow> clamp01 x = x"
  by (simp add: clamp01_def)

lemma clamp01_mono: "x \<le> y \<Longrightarrow> clamp01 x \<le> clamp01 y"
  by (auto simp: clamp01_def)

lemma js_round_mono: "x \<le> y \<Longrightarrow> js_round x \<le> js_round y"
  by (simp add: js_round_def floor_mono)

lemma js_round_of_int [simp]: "js_round (of_int k) = k"
  by (simp add: js_round_def floor_unique)

lemma js_round_close: "\<bar>of_int (js_round x) - x\<bar> \<le> 1/2"
  unfolding js_round_def by linarith

lemma round4_mono: "x \<le> y \<Longrightarrow> round4 x \<le> round4 y"
  by (simp add: round4_def js_round_mono divide_right_mono)

lemma round4_0 [simp]: "round4 0 = 0"
  and round4_1 [simp]: "round4 1 = 1"
  using js_round_of_int [of 0] js_round_of_int [of 10000] by (simp_all add: round4_def)

lemma round4_bounds: "0 \<le> x \<Longrightarrow> x \<le> 1 \<Longrightarrow> 0 \<le> round4 x \<and> round4 x \<le> 1"
  using round4_mono [of 0 x] round4_mono [of x 1] by simp

lemma round4_close: "\<bar>round4 x - x\<bar> \<le> 1/20000"
proof -
  have "\<bar>of_int (js_round (x * 10000)) - x * 10000\<bar> \<le> 1/2"
    by (rule js_round_close)
  then show ?thesis by (simp add: round4_def abs_le_iff field_simps)
qed

section \<open>Tables as lists of rows\<close>

text \<open>
  A table is the list of its rows in insertion order. \<open>find_row\<close> is \<open>executeTakeFirst\<close> on a
  \<open>where\<close> clause, \<open>update_where\<close> an \<open>UPDATE\<close>, \<open>upsert\<close> an \<open>INSERT ... ON CONFLICT DO UPDATE\<close>.
\<close>

abbreviation find_row :: "('a \<Rightarrow> bool) \<Rightarrow> 'a list \<Rightarrow> 'a option" where
  "find_row \<equiv> List.find"

definition update_where :: "('a \<Rightarrow> bool) \<Rightarrow> ('a \<Rightarrow> 'a) \<Rightarrow> 'a list \<Rightarrow> 'a list" where
  "update_where p f = map (\<lambda>r. if p r then f r else r)"

definition upsert :: "('a \<Rightarrow> bool) \<Rightarrow> ('a \<Rightarrow> 'a) \<Rightarrow> 'a \<Rightarrow> 'a list \<Rightarrow> 'a list" where
  "upsert p f new rows = (if list_ex p rows then update_where p f rows else rows @ [new])"

lemma find_row_SomeD: "find_row p xs = Some x \<Longrightarrow> x \<in> set xs \<and> p x"
  by (induction xs) (auto split: if_splits)

lemma find_row_None_iff: "find_row p xs = None \<longleftrightarrow> (\<forall>x\<in>set xs. \<not> p x)"
  by (induction xs) auto

lemma find_row_append:
  "find_row p (xs @ ys) = (case find_row p xs of None \<Rightarrow> find_row p ys | Some x \<Rightarrow> Some x)"
  by (induction xs) auto

lemma find_row_cong: "(\<And>x. x \<in> set xs \<Longrightarrow> p x = q x) \<Longrightarrow> find_row p xs = find_row q xs"
  by (induction xs) auto

lemma length_update_where [simp]: "length (update_where p f xs) = length xs"
  by (simp add: update_where_def)

lemma update_where_Nil [simp]: "update_where p f [] = []"
  and update_where_Cons [simp]:
    "update_where p f (x # xs) = (if p x then f x else x) # update_where p f xs"
  by (simp_all add: update_where_def)

lemma update_where_append [simp]:
  "update_where p f (xs @ ys) = update_where p f xs @ update_where p f ys"
  by (simp add: update_where_def)

lemma set_update_where:
  "set (update_where p f xs) = f ` {x \<in> set xs. p x} \<union> {x \<in> set xs. \<not> p x}"
  by (auto simp: update_where_def)

lemma update_where_none: "(\<And>x. x \<in> set xs \<Longrightarrow> \<not> p x) \<Longrightarrow> update_where p f xs = xs"
  by (induction xs) auto

lemma map_update_where:
  "(\<And>x. p x \<Longrightarrow> g (f x) = g x) \<Longrightarrow> map g (update_where p f xs) = map g xs"
  by (induction xs) auto

lemma find_update_where_same:
  "(\<And>x. p x \<Longrightarrow> p (f x)) \<Longrightarrow> find_row p (update_where p f xs) = map_option f (find_row p xs)"
  by (induction xs) auto

lemma find_update_where_other:
  "(\<And>x. p x \<Longrightarrow> q (f x) = q x) \<Longrightarrow> (\<And>x. p x \<Longrightarrow> \<not> q x) \<Longrightarrow>
   find_row q (update_where p f xs) = find_row q xs"
  by (induction xs) auto

lemma find_upsert_same:
  assumes "\<And>x. p x \<Longrightarrow> p (f x)" and "p new"
  shows "find_row p (upsert p f new xs) =
         Some (case find_row p xs of None \<Rightarrow> new | Some x \<Rightarrow> f x)"
proof (cases "list_ex p xs")
  case True
  then obtain x where "find_row p xs = Some x"
    by (metis find_row_None_iff list_ex_iff not_Some_eq)
  with True assms(1) show ?thesis by (simp add: upsert_def find_update_where_same)
next
  case False
  then have "find_row p xs = None" by (simp add: find_row_None_iff list_ex_iff)
  with False assms(2) show ?thesis by (simp add: upsert_def find_row_append)
qed

lemma find_upsert_other:
  "(\<And>x. p x \<Longrightarrow> \<not> q x) \<Longrightarrow> (\<And>x. p x \<Longrightarrow> \<not> q (f x)) \<Longrightarrow> \<not> q new \<Longrightarrow>
   find_row q (upsert p f new xs) = find_row q xs"
  by (auto simp: upsert_def find_row_append find_update_where_other split: option.splits)

lemma distinct_find_unique:
  "distinct (map key xs) \<Longrightarrow> x \<in> set xs \<Longrightarrow> find_row (\<lambda>r. key r = key x) xs = Some x"
  by (induction xs) (auto simp: image_iff)

lemma filter_update_where:
  "(\<And>x. p x \<Longrightarrow> q (f x) = q x) \<Longrightarrow>
   filter q (update_where p f xs) = update_where p f (filter q xs)"
  by (induction xs) auto

section \<open>Association lists in insertion order (the JavaScript \<open>Map\<close>)\<close>

fun amap_set :: "'k \<Rightarrow> 'v \<Rightarrow> ('k \<times> 'v) list \<Rightarrow> ('k \<times> 'v) list" where
  "amap_set k v [] = [(k, v)]"
| "amap_set k v ((k', v') # m) = (if k' = k then (k, v) # m else (k', v') # amap_set k v m)"

lemma map_of_amap_set [simp]: "map_of (amap_set k v m) = (map_of m)(k \<mapsto> v)"
  by (induction k v m rule: amap_set.induct) auto

lemma distinct_amap_set: "distinct (map fst m) \<Longrightarrow> distinct (map fst (amap_set k v m))"
proof (induction k v m rule: amap_set.induct)
  case (2 k v k' v' m)
  have "fst ` set (amap_set k v m) = insert k (fst ` set m)"
    by (induction k v m rule: amap_set.induct) auto
  with 2 show ?case by auto
qed simp

section \<open>Strings\<close>

text \<open>\<open>s.startsWith(p)\<close> and \<open>s.includes(p)\<close>.\<close>

fun starts_with :: "string \<Rightarrow> string \<Rightarrow> bool" where
  "starts_with s [] = True"
| "starts_with [] (p # ps) = False"
| "starts_with (c # cs) (p # ps) = (c = p \<and> starts_with cs ps)"

fun str_includes :: "string \<Rightarrow> string \<Rightarrow> bool" where
  "str_includes [] p = starts_with [] p"
| "str_includes (c # cs) p = (starts_with (c # cs) p \<or> str_includes cs p)"

lemma starts_with_iff: "starts_with s p \<longleftrightarrow> (\<exists>t. s = p @ t)"
  by (induction s p rule: starts_with.induct) auto

lemma str_includes_iff: "str_includes s p \<longleftrightarrow> (\<exists>u t. s = u @ p @ t)"
proof (induction s p rule: str_includes.induct)
  case (1 p)
  then show ?case by (cases p) auto
next
  case (2 c cs p)
  have "(\<exists>u t. c # cs = u @ p @ t) \<longleftrightarrow> (\<exists>t. c # cs = p @ t) \<or> (\<exists>u t. cs = u @ p @ t)"
    by (metis append_Cons append_Nil list.inject neq_Nil_conv)
  with 2 show ?case by (simp add: starts_with_iff)
qed

section \<open>Strings\<close>

text \<open>
  A string is a list of 8-bit characters. \<open>truthy\<close> is the test \<open>if (x)\<close> of an optional string,
  \<open>js_space\<close> the white space of \<open>trim\<close> and \<open>\s\<close>, \<open>lower\<close> a character of \<open>toLowerCase\<close> (ASCII letters).
\<close>

definition truthy :: "string option \<Rightarrow> bool" where
  "truthy x = (case x of None \<Rightarrow> False | Some y \<Rightarrow> y \<noteq> [])"

definition char_code :: "char \<Rightarrow> nat" where
  "char_code c = of_char c"

definition lower :: "char \<Rightarrow> char" where
  "lower c = (if 65 \<le> char_code c \<and> char_code c \<le> 90 then char_of (char_code c + 32) else c)"

definition js_space :: "char \<Rightarrow> bool" where
  "js_space c \<longleftrightarrow> char_code c \<in> {9, 10, 11, 12, 13, 32, 160}"

text \<open>\<open>Array.from(new Set(xs))\<close>: the first occurrence of every element.\<close>

definition uniq :: "'a list \<Rightarrow> 'a list" where
  "uniq xs = rev (remdups (rev xs))"

lemma set_uniq [simp]: "set (uniq xs) = set xs"
  and distinct_uniq [simp]: "distinct (uniq xs)"
  by (simp_all add: uniq_def)

text \<open>\<open>String(n)\<close> of a natural number: its decimal digits.\<close>

fun show_nat :: "nat \<Rightarrow> string" where
  "show_nat n = (if n < 10 then [char_of (48 + n)] else show_nat (n div 10) @ [char_of (48 + n mod 10)])"

declare show_nat.simps [simp del]

text \<open>\<open>Array.join\<close>.\<close>

fun join :: "string \<Rightarrow> string list \<Rightarrow> string" where
  "join sep [] = []"
| "join sep [x] = x"
| "join sep (x # y # ys) = x @ sep @ join sep (y # ys)"

section \<open>Runs of a system\<close>

text \<open>A system whose every step is related to its start by a preorder that maintains an invariant:
  so is every run.\<close>

locale refining =
  fixes step :: "'s \<Rightarrow> 's \<Rightarrow> bool" and sim :: "'s \<Rightarrow> 's \<Rightarrow> bool" and ok :: "'s \<Rightarrow> bool"
  assumes sim_refl: "ok s \<Longrightarrow> sim s s"
    and sim_trans: "sim s t \<Longrightarrow> sim t u \<Longrightarrow> sim s u"
    and sim_ok: "sim s t \<Longrightarrow> ok t"
    and step_sim: "step s t \<Longrightarrow> ok s \<Longrightarrow> sim s t"
begin

lemma run_sim: "step\<^sup>*\<^sup>* s t \<Longrightarrow> ok s \<Longrightarrow> sim s t"
  by (induction rule: rtranclp_induct) (auto intro: sim_refl sim_trans step_sim dest: sim_ok)

lemma run_ok: "step\<^sup>*\<^sup>* s t \<Longrightarrow> ok s \<Longrightarrow> ok t"
  by (rule sim_ok [OF run_sim])

end

end
