(* ===== verification/Schema.thy ===== *)
theory Schema
  imports Prelude
begin

text \<open>
  The data model: the enumerations and rows of \<open>src/practice-core/src/db/schema.ts\<close>, the
  activity specification of \<open>catalog/activity-spec.ts\<close> as far as the services read it, and the
  database as a record of tables. A nullable column is an \<open>option\<close>, a timestamp an \<open>int\<close> (the
  milliseconds of \<open>Date.getTime()\<close>), a numeric column a real. Generated columns (\<open>id\<close>,
  \<open>created_at\<close>, \<open>now()\<close>) are arguments of the operations that insert. The rounding of
  \<open>numeric(p,s)\<close> columns is not modelled. Columns that none of the modelled operations reads are left
  out: descriptive ones (owners, descriptions, rescoring metadata), audit timestamps of rows
  that are only inserted, surrogate keys of tables that are never looked up by them, the reference
  to stored evidence, and the explanations beside criterion values.
\<close>

section \<open>JSON values and exceptions\<close>

type_synonym time = int

datatype json = JNull | JBool bool | JNum real | JStr string | JArr "json list"
  | JObj "(string \<times> json) list"

text \<open>Property access \<open>o.k\<close>; \<open>None\<close> is \<open>undefined\<close>.\<close>

fun jget :: "json \<Rightarrow> string \<Rightarrow> json option" where
  "jget (JObj fs) k = map_of fs k"
| "jget _ k = None"

datatype attempt_error_code = ACTIVITY_NOT_PUBLISHED | PREREQUISITE_NOT_MET | COOLDOWN_ACTIVE
  | CONCURRENT_QUOTA_EXCEEDED | INVALID_STATE_TRANSITION | ATTEMPT_NOT_FOUND | NO_ENVIRONMENT
  | ATTEMPT_VANISHED

record attempt_error_reason =
  er_code :: attempt_error_code
  er_message :: string

text \<open>
  What a service call can throw: \<open>NotFoundException\<close>, the structured \<open>BadRequestException\<close> of
  \<open>attempt-error.ts\<close> (its reasons), a plain \<open>BadRequestException\<close>, \<open>ConflictException\<close>, the
  coded error of \<open>project-error.ts\<close>, \<open>ForbiddenException\<close>, \<open>UnauthorizedException\<close>, \<open>executeTakeFirstOrThrow\<close> without a row,
  an \<open>Error\<close>, a database constraint, or a failure of a remote service. Messages keep the
  identifying part of the source's text; references to documents and rendered dates are left out,
  and so are the \<open>context\<close> objects beside a reason.
\<close>

datatype exn = NotFound string | AttemptErr "attempt_error_reason list" | BadRequest string
  | Conflict string | ProjectErr string string | NoResult | Err string | DbErr string
  | RemoteErr string | Forbidden string | Unauthorized string

section \<open>Enumerations\<close>

datatype attempt_status = CREATED | PROVISIONING | READY | IN_PROGRESS | SUBMITTED | EVALUATING
  | PASSED | FAILED | COMPLETED | PROVISION_FAILED | SUSPENDED | EVAL_FAILED | EXPIRED
  | ABANDONED | CACHED

fun status_str :: "attempt_status \<Rightarrow> string" where
  "status_str CREATED = ''CREATED''"
| "status_str PROVISIONING = ''PROVISIONING''"
| "status_str READY = ''READY''"
| "status_str IN_PROGRESS = ''IN_PROGRESS''"
| "status_str SUBMITTED = ''SUBMITTED''"
| "status_str EVALUATING = ''EVALUATING''"
| "status_str PASSED = ''PASSED''"
| "status_str FAILED = ''FAILED''"
| "status_str COMPLETED = ''COMPLETED''"
| "status_str PROVISION_FAILED = ''PROVISION_FAILED''"
| "status_str SUSPENDED = ''SUSPENDED''"
| "status_str EVAL_FAILED = ''EVAL_FAILED''"
| "status_str EXPIRED = ''EXPIRED''"
| "status_str ABANDONED = ''ABANDONED''"
| "status_str CACHED = ''CACHED''"

datatype activity_version_status = V_DRAFT | V_IN_REVIEW | V_APPROVED | V_PUBLISHED | V_CANARY
  | V_DEPRECATED | V_RETIRED | V_ROLLED_BACK

fun version_status_str :: "activity_version_status \<Rightarrow> string" where
  "version_status_str V_DRAFT = ''DRAFT''"
| "version_status_str V_IN_REVIEW = ''IN_REVIEW''"
| "version_status_str V_APPROVED = ''APPROVED''"
| "version_status_str V_PUBLISHED = ''PUBLISHED''"
| "version_status_str V_CANARY = ''CANARY''"
| "version_status_str V_DEPRECATED = ''DEPRECATED''"
| "version_status_str V_RETIRED = ''RETIRED''"
| "version_status_str V_ROLLED_BACK = ''ROLLED_BACK''"

datatype skill_edge_type = REQUIRES | BUILDS_ON | SIBLING | SPECIALIZES | SUPERSEDES

datatype event_actor = LEARNER | SYSTEM | VALIDATOR | AI | ADMIN

text \<open>\<open>ATTEMPT_EVENT_TYPES\<close> of \<open>event-store/attempt-event-type.ts\<close>.\<close>

datatype attempt_event_type = EV_ATTEMPT_CREATED | EV_ENV_REQUESTED | EV_ENV_READY | EV_ENV_FAILED
  | EV_ATTEMPT_STARTED | EV_SUSPENDED | EV_RESUMED | EV_SUBMITTED | EV_EVALUATED | EV_SEALED
  | EV_COMMAND_EXECUTED | EV_FILE_CHANGED | EV_EDITOR_SAVE | EV_TERMINAL_SESSION_OPEN
  | EV_TERMINAL_SESSION_CLOSE | EV_VALIDATION_REQUESTED | EV_VALIDATOR_RESULT | EV_TASK_PASSED
  | EV_TASK_FAILED | EV_TASK_SKIPPED | EV_HINT_REQUESTED | EV_AI_MESSAGE | EV_SOLUTION_VIEWED
  | EV_RESET | EV_FAULT_INJECTED | EV_IDLE_DETECTED | EV_TTL_WARNING | EV_ENV_DESTROYED
  | EV_SNAPSHOT_TAKEN | EV_TICKET_OPENED | EV_ESCALATION_FIRED | EV_MILESTONE_SUBMITTED
  | EV_MILESTONE_GATED | EV_DEFENCE_MESSAGE | EV_ACCOUNT_CLAIMED | EV_ACCOUNT_NUKED
  | EV_ACCOUNT_QUARANTINED

datatype validator_status = VPASS | VFAIL | VERROR | VSKIP

datatype severity = BLOCKING | WARN

datatype task_status = T_PENDING | T_PASSED | T_FAILED | T_SKIPPED

datatype mastery_band = Novice | Developing | Competent | Proficient | Mastered

datatype milestone_key = Design | Infra | Implementation | Hardening | Final

datatype milestone_status = LOCKED | OPEN | M_SUBMITTED | GATED_PASS | GATED_FAIL

datatype milestone_gate = ALL_VALIDATORS_PASS | RUBRIC_MIN_LEVEL | BOTH

section \<open>The activity specification\<close>

record validator_spec =
  vs_id :: string
  vs_type :: string
  vs_weight :: real
  vs_severity :: "severity option"
  vs_timeout_ms :: "nat option"

record hint_spec =
  h_level :: nat
  h_penalty :: real
  h_text :: string

record task_spec =
  tk_key :: string
  tk_title :: "string option"
  tk_required :: bool
  tk_validators :: "validator_spec list"
  tk_hints :: "hint_spec list option"

record environment_spec =
  es_tier :: "string option"
  es_ttl_minutes :: "nat option"
  es_idle_timeout_minutes :: "nat option"
  es_seed :: "string list option"

record fault_spec =
  f_id :: string
  f_params :: "(string \<times> string) list"
  f_apply_at :: string

record process_signals =
  ps_good_actions :: "string list option"
  ps_bad_actions :: "string list option"
  ps_forbidden :: "string list option"

record milestone_spec =
  ms_key :: milestone_key
  ms_title :: string
  ms_gate :: milestone_gate
  ms_blocking :: "bool option"
  ms_environment_required :: bool
  ms_task_keys :: "string list option"
  ms_rubric :: "string option"
  ms_min_level :: "int option"

record artifact_required =
  aq_key :: string
  aq_rubric :: "string option"

record activity_spec =
  as_environment :: "environment_spec option"
  as_health_gate :: "json list option"
  as_faults :: "fault_spec list option"
  as_process_signals :: "process_signals option"
  as_artifacts_required :: "artifact_required list option"
  as_milestones :: "milestone_spec list option"
  as_tasks :: "task_spec list option"
  as_scoring_profile :: "string option"

text \<open>The part of the specification that only the mentor reads; of a fault, its canonical diagnostic path.\<close>

record mentor_task =
  mt_key :: string
  mt_title :: "string option"
  mt_instructions_md :: "string option"

record mentor_spec =
  mp_objectives :: "string list option"
  mp_tasks :: "mentor_task list option"
  mp_disclosure_ceiling :: "int option"
  mp_concept_notes :: "string option"
  mp_faults :: "string option list option"

definition no_mentor :: mentor_spec where
  "no_mentor = \<lparr>mp_objectives = None, mp_tasks = None, mp_disclosure_ceiling = None, mp_concept_notes = None, mp_faults = None\<rparr>"

section \<open>Rows\<close>

record attempt_row =
  a_id :: string
  a_tenant_id :: string
  a_user_id :: string
  a_activity_id :: string
  a_activity_version_id :: string
  a_mode :: string
  a_status :: attempt_status
  a_retry_of_attempt_id :: "string option"
  a_retry_index :: nat
  a_assistance_flags :: "string list"
  a_environment_id :: "string option"
  a_idempotency_key :: "string option"
  a_created_at :: time
  a_started_at :: "time option"
  a_submitted_at :: "time option"
  a_completed_at :: "time option"
  a_expires_at :: "time option"
  a_last_activity_at :: time
  a_reset_count :: nat
  a_hint_penalty_total :: real
  a_version :: nat
  a_snapshot_id :: "string option"
  a_snapshot_taken_at :: "time option"
  a_active_seconds :: nat
  a_erased_at :: "time option"

record task_state_row =
  ts_attempt_id :: string
  ts_task_key :: string
  ts_status :: task_status
  ts_first_pass_at :: "time option"
  ts_attempts_count :: nat
  ts_hints_used_max_level :: nat
  ts_skipped :: bool
  ts_assisted :: bool

record event_row =
  e_attempt_id :: string
  e_seq :: nat
  e_occurred_at :: time
  e_actor :: event_actor
  e_type :: attempt_event_type
  e_payload :: json

record validation_run_row =
  vr_id :: string
  vr_attempt_id :: string
  vr_scope :: string
  vr_trigger :: string
  vr_started_at :: time
  vr_finished_at :: "time option"
  vr_status :: string

record validator_result_row =
  vres_run_id :: string
  vres_validator_id :: string
  vres_status :: validator_status
  vres_observed :: "json option"
  vres_expected :: "json option"
  vres_duration_ms :: nat

record signal_row =
  sg_attempt_id :: string
  sg_key :: string
  sg_value_num :: nat

record score_row =
  sc_attempt_id :: string
  sc_profile :: string
  sc_final_score :: real
  sc_passed :: bool
  sc_criterion_fn_versions :: json
  sc_breakdown :: json
  sc_penalties :: json

record activity_version_row =
  v_id :: string
  v_activity_id :: string
  v_mode :: string
  v_status :: activity_version_status
  v_spec :: activity_spec
  v_blueprint_id :: "string option"
  v_blueprint_version :: "string option"
  v_difficulty_elo :: "real option"
  v_estimated_minutes :: "real option"
  v_version :: nat
  v_difficulty_level :: "string option"
  v_cost_budget_usd :: "real option"
  v_published_at :: "time option"
  v_published_by :: "string option"
  v_mentor :: mentor_spec

record activity_row =
  ac_id :: string
  ac_tenant_id :: string
  ac_slug :: string
  ac_mode :: string

record course_row =
  co_id :: string
  co_tenant_id :: string
  co_slug :: string
  co_title :: string
  co_status :: string

record module_row =
  mo_id :: string
  mo_course_id :: string
  mo_title :: string
  mo_position :: nat
  mo_slug :: "string option"

record topic_row =
  tp_id :: string
  tp_module_id :: string
  tp_title :: string
  tp_position :: nat
  tp_slug :: "string option"

record subtopic_row =
  st_id :: string
  st_topic_id :: string
  st_title :: string
  st_position :: nat

record topic_skill_row =
  tsk_topic_id :: string
  tsk_skill_id :: string
  tsk_coverage_weight :: real
  tsk_bloom_level :: string

record activity_topic_row =
  at_activity_version_id :: string
  at_topic_id :: string
  at_relevance :: real

record activity_skill_row =
  ask_activity_version_id :: string
  ask_skill_id :: string
  ask_weight :: real
  ask_is_primary :: bool

record skill_row =
  sk_id :: string
  sk_bkt_p_init :: real
  sk_bkt_p_transit :: real
  sk_bkt_p_slip :: real
  sk_bkt_p_guess :: real
  sk_decay_half_life_days :: real
  sk_slug :: string
  sk_name :: string
  sk_domain :: string
  sk_status :: string
  sk_domain_order :: nat
  sk_sequence :: nat
  sk_course_slug :: string

record skill_edge_row =
  ed_from :: string
  ed_to :: string
  ed_type :: skill_edge_type

record skill_closure_row =
  cl_ancestor :: string
  cl_descendant :: string
  cl_depth :: nat
  cl_edge_types :: "skill_edge_type list"

record skill_mastery_row =
  sm_user_id :: string
  sm_skill_id :: string
  sm_p_mastery :: real
  sm_last_evidence_at :: "time option"
  sm_evidence_count :: nat
  sm_elo_rating :: "real option"
  sm_review_due_at :: "time option"
  sm_band :: "mastery_band option"

record mastery_evidence_row =
  me_user_id :: string
  me_skill_id :: string
  me_attempt_id :: string
  me_delta :: real
  me_p_before :: real
  me_p_after :: real
  me_weight :: real

record learner_activity_row =
  la_user_id :: string
  la_activity_id :: string
  la_best_score :: "real option"
  la_latest_score :: "real option"
  la_status :: string
  la_attempts_count :: nat
  la_last_attempt_at :: "time option"
  la_cooldown_until :: "time option"

record milestone_row =
  m_attempt_id :: string
  m_key :: milestone_key
  m_status :: milestone_status
  m_ordinal :: nat
  m_submitted_at :: "time option"
  m_gated_at :: "time option"
  m_score :: "real option"
  m_rubric_level :: "int option"
  m_attempt_count :: nat

record submission_row =
  s_attempt_id :: string
  s_key :: milestone_key
  s_repo_ref :: string
  s_commit_sha :: string
  s_attempt_number :: nat
  s_outcome :: "milestone_status option"
  s_score :: "real option"
  s_submitted_at :: time

record artifact_row =
  ar_attempt_id :: string
  ar_kind :: string
  ar_content :: "string option"
  ar_checksum :: string
  ar_bytes :: nat
  ar_created_at :: time
  ar_storage_uri :: string

record recommendation_row =
  rc_user_id :: string
  rc_activity_id :: string
  rc_score :: real
  rc_reason_code :: string
  rc_reason_params :: json
  rc_ranker_version :: string

record experiment_row =
  ex_key :: string
  ex_variants :: "(string \<times> real) list"
  ex_status :: string

record assignment_row =
  xa_experiment_key :: string
  xa_user_id :: string
  xa_variant :: string

record user_row =
  us_id :: string
  us_tenant_id :: string
  us_email :: string
  us_role :: string
  us_status :: string
  us_created_at :: time
  us_erased_at :: "time option"

text \<open>\<open>env.usage_meter\<close>, written by the environment orchestrator.\<close>

record usage_row =
  um_attempt_id :: string
  um_total_cost_usd :: real

section \<open>The database\<close>

record db =
  attempts :: "attempt_row list"
  task_states :: "task_state_row list"
  events :: "event_row list"
  validation_runs :: "validation_run_row list"
  validator_results :: "validator_result_row list"
  signals :: "signal_row list"
  scores :: "score_row list"
  versions :: "activity_version_row list"
  activity_skills :: "activity_skill_row list"
  skills :: "skill_row list"
  skill_edges :: "skill_edge_row list"
  skill_closure :: "skill_closure_row list"
  masteries :: "skill_mastery_row list"
  evidence :: "mastery_evidence_row list"
  learner_activities :: "learner_activity_row list"
  milestones :: "milestone_row list"
  submissions :: "submission_row list"
  artifacts :: "artifact_row list"
  activities :: "activity_row list"
  topics :: "topic_row list"
  activity_topics :: "activity_topic_row list"
  recommendations :: "recommendation_row list"
  experiments :: "experiment_row list"
  assignments :: "assignment_row list"
  courses :: "course_row list"
  course_modules :: "module_row list"
  subtopics :: "subtopic_row list"
  topic_skills :: "topic_skill_row list"
  users :: "user_row list"
  usage_meters :: "usage_row list"

type_synonym 'a prog = "(db, exn, 'a) io"

definition empty_db :: db where
  "empty_db = \<lparr>attempts = [], task_states = [], events = [], validation_runs = [],
     validator_results = [], signals = [], scores = [], versions = [], activity_skills = [],
     skills = [], skill_edges = [], skill_closure = [], masteries = [], evidence = [],
     learner_activities = [], milestones = [], submissions = [], artifacts = [],
     activities = [], topics = [], activity_topics = [], recommendations = [], experiments = [], assignments = [],
     courses = [], course_modules = [], subtopics = [], topic_skills = [], users = [], usage_meters = []\<rparr>"

section \<open>Shared lookups and status groups\<close>

text \<open>\<open>findOrThrow\<close> of \<open>common/find-or-throw.ts\<close>, on the row a query returned.\<close>

definition findOrThrow :: "'a option \<Rightarrow> string \<Rightarrow> 'a prog" where
  "findOrThrow row message = (case row of None \<Rightarrow> throw (NotFound message) | Some x \<Rightarrow> ret x)"

text \<open>Kysely's \<open>executeTakeFirstOrThrow\<close>.\<close>

definition takeFirstOrThrow :: "'a option \<Rightarrow> 'a prog" where
  "takeFirstOrThrow row = (case row of None \<Rightarrow> throw NoResult | Some x \<Rightarrow> ret x)"

lemma findOrThrow_run [simp]:
  "findOrThrow None msg s = (Inl (NotFound msg), s)"
  "findOrThrow (Some x) msg s = (Inr x, s)"
  by (simp_all add: findOrThrow_def)

lemma takeFirstOrThrow_run [simp]:
  "takeFirstOrThrow None s = (Inl NoResult, s)"
  "takeFirstOrThrow (Some x) s = (Inr x, s)"
  by (simp_all add: takeFirstOrThrow_def)

lemma preserves_findOrThrow [keeps]: "preserves I (findOrThrow r msg)"
  and preserves_takeFirstOrThrow [keeps]: "preserves I (takeFirstOrThrow r)"
  by (auto simp: preserves_def findOrThrow_def takeFirstOrThrow_def split: option.splits)

text \<open>\<open>ActivitySpecReader.getActivitySpec\<close> of \<open>common/activity-spec-reader.ts\<close>: the join of an attempt
  with its activity version.\<close>

definition getActivitySpec :: "string \<Rightarrow> db \<Rightarrow> activity_spec option" where
  "getActivitySpec attemptId s =
     (case find_row (\<lambda>a. a_id a = attemptId) (attempts s) of
        None \<Rightarrow> None
      | Some a \<Rightarrow> map_option v_spec (find_row (\<lambda>v. v_id v = a_activity_version_id a) (versions s)))"

text \<open>\<open>attemptError\<close> and \<open>singleAttemptError\<close> of \<open>attempt/attempt-error.ts\<close>.\<close>

definition attemptError :: "attempt_error_reason list \<Rightarrow> 'a prog" where
  "attemptError reasons =
     (if reasons = [] then throw (Err ''attemptError() requires at least one reason'')
      else throw (AttemptErr reasons))"

definition singleAttemptError :: "attempt_error_code \<Rightarrow> string \<Rightarrow> 'a prog" where
  "singleAttemptError code message = attemptError [\<lparr>er_code = code, er_message = message\<rparr>]"

lemma singleAttemptError_run [simp]:
  "singleAttemptError c msg s = (Inl (AttemptErr [\<lparr>er_code = c, er_message = msg\<rparr>]), s)"
  by (simp add: singleAttemptError_def attemptError_def)

lemma preserves_attemptError [keeps]: "preserves I (attemptError rs)"
  by (simp add: preserves_def attemptError_def)

lemma preserves_singleAttemptError [keeps]: "preserves I (singleAttemptError c msg)"
  by (simp add: singleAttemptError_def preserves_attemptError)

text \<open>\<open>AttemptStatusGroups\<close> of \<open>common/attempt-status-groups.ts\<close>.\<close>

definition TERMINAL :: "attempt_status list" where
  "TERMINAL = [PASSED, FAILED, COMPLETED, PROVISION_FAILED, EVAL_FAILED, EXPIRED, ABANDONED]"

definition RETRYABLE_FROM :: "attempt_status list" where
  "RETRYABLE_FROM = [FAILED, COMPLETED, PROVISION_FAILED, EVAL_FAILED, ABANDONED, EXPIRED]"

definition SUCCESS :: "attempt_status list" where
  "SUCCESS = [PASSED, COMPLETED]"

text \<open>The cross-group facts the source's comment promises.\<close>

lemma retryable_is_terminal_minus_passed: "set RETRYABLE_FROM = set TERMINAL - {PASSED}"
  by (auto simp: RETRYABLE_FROM_def TERMINAL_def)

lemma success_is_terminal: "set SUCCESS \<subseteq> set TERMINAL"
  by (simp add: SUCCESS_def TERMINAL_def)

end
