(* ===== verification/Bkt.thy ===== *)
theory Bkt
  imports Schema
begin

text \<open>
  The learner model: \<open>skill/bkt.service.ts\<close> (Bayesian knowledge tracing), \<open>skill/elo.service.ts\<close>
  and \<open>skill/spaced-repetition.ts\<close>, all pure. \<open>Math.pow\<close> is the real power \<open>powr\<close>. The mastery
  bands are ordered as the source's table lists them, so that monotonicity can be stated.
\<close>

section \<open>Model: bkt.service.ts\<close>

record bkt_params =
  pInit :: real
  pTransit :: real
  pSlip :: real
  pGuess :: real

record bkt_input =
  bi_priorP :: real
  bi_params :: bkt_params
  bi_score :: real
  bi_weight :: real
  bi_passThreshold :: real
  bi_difficultyAdjust :: real
  bi_wasGenuineAttempt :: bool

record bkt_result =
  br_pBefore :: real
  br_pAfter :: real
  br_delta :: real
  br_evidenceStrength :: real

text \<open>Steps 1 to 3 of \<open>update\<close>, in the order of the code.\<close>

definition evidence_strength :: "real \<Rightarrow> real \<Rightarrow> real \<Rightarrow> real" where
  "evidence_strength weight score passThreshold =
     (let denom = 1 - passThreshold;
          rawEvidence = (if denom > 0 then weight * (score - passThreshold) / denom else 0)
      in clamp rawEvidence (- 1) 1)"

definition adj_guess :: "real \<Rightarrow> real \<Rightarrow> real" where
  "adj_guess g d = (let m = clamp \<bar>d\<bar> 0 (1/2) in if d > 0 then g * (1 - m) else g * (1 + m))"

definition adj_slip :: "real \<Rightarrow> real \<Rightarrow> real" where
  "adj_slip sl d = (let m = clamp \<bar>d\<bar> 0 (1/2) in
     if d > 0 then min (sl * (1 + m)) (9/10) else sl * (1 - m))"

definition posterior :: "bool \<Rightarrow> real \<Rightarrow> real \<Rightarrow> real \<Rightarrow> real" where
  "posterior passed g sl p =
     (let likelihoodGivenMastery = (if passed then 1 - sl else sl);
          likelihoodGivenNoMastery = (if passed then g else 1 - g);
          numerator = p * likelihoodGivenMastery
      in numerator / (numerator + (1 - p) * likelihoodGivenNoMastery))"

definition eps :: real where "eps = 1 / 1000000"

definition bkt_update :: "bkt_input \<Rightarrow> bkt_result" where
  "bkt_update inp =
     (let evidenceStrength = evidence_strength (bi_weight inp) (bi_score inp) (bi_passThreshold inp);
          passed = evidenceStrength \<ge> 0;
          g = adj_guess (pGuess (bi_params inp)) (bi_difficultyAdjust inp);
          sl = adj_slip (pSlip (bi_params inp)) (bi_difficultyAdjust inp);
          pPrior = clamp (bi_priorP inp) eps (1 - eps);
          post = posterior passed g sl pPrior;
          strength = \<bar>evidenceStrength\<bar>;
          blended = pPrior + (post - pPrior) * strength;
          pAfter = (if bi_wasGenuineAttempt inp
                    then blended + (1 - blended) * pTransit (bi_params inp) else pPrior);
          clampedAfter = clamp pAfter eps (1 - eps)
      in \<lparr>br_pBefore = pPrior, br_pAfter = clampedAfter, br_delta = clampedAfter - pPrior,
          br_evidenceStrength = evidenceStrength\<rparr>)"

definition DAY_MS :: int where "DAY_MS = 24 * 60 * 60 * 1000"

definition decayedMastery :: "real \<Rightarrow> real \<Rightarrow> time \<Rightarrow> real \<Rightarrow> time \<Rightarrow> real" where
  "decayedMastery pMastery pI lastEvidenceAt halfLifeDays now =
     (let daysSince = real_of_int (now - lastEvidenceAt) / real_of_int DAY_MS in
      if daysSince \<le> 0 then pMastery
      else pI + (pMastery - pI) * (1/2) powr (daysSince / halfLifeDays))"

definition bandFor :: "real \<Rightarrow> mastery_band" where
  "bandFor p = (if p < 3/10 then Novice else if p < 55/100 then Developing
     else if p < 75/100 then Competent else if p < 9/10 then Proficient else Mastered)"

section \<open>Model: elo.service.ts\<close>

record elo_input =
  ei_learnerElo :: real
  ei_activityElo :: real
  ei_learnerMatchCount :: nat
  ei_activityAttemptCount :: nat
  ei_outcome :: real

record elo_result =
  eo_expectedPass :: real
  eo_learnerElo :: real
  eo_activityElo :: real
  eo_difficultyAdjust :: real

definition DEFAULT_RATING :: real where "DEFAULT_RATING = 1200"

definition kLearnerFor :: "nat \<Rightarrow> real" where
  "kLearnerFor matchCount = (let progress = min (real matchCount / 20) 1 in 32 - (32 - 12) * progress)"

definition elo_update :: "elo_input \<Rightarrow> elo_result" where
  "elo_update inp =
     (let l = ei_learnerElo inp; a = ei_activityElo inp;
          expectedPass = 1 / (1 + 10 powr ((a - l) / 400));
          surprise = ei_outcome inp - expectedPass;
          kLearner = kLearnerFor (ei_learnerMatchCount inp);
          kActivity = (if ei_activityAttemptCount inp > 500 then 0 else 4)
      in \<lparr>eo_expectedPass = expectedPass, eo_learnerElo = l + kLearner * surprise,
          eo_activityElo = a - kActivity * surprise, eo_difficultyAdjust = (a - l) / 400\<rparr>)"

section \<open>Model: spaced-repetition.ts\<close>

fun BASE_INTERVAL_DAYS :: "mastery_band \<Rightarrow> real option" where
  "BASE_INTERVAL_DAYS Novice = None"
| "BASE_INTERVAL_DAYS Developing = None"
| "BASE_INTERVAL_DAYS Competent = Some 7"
| "BASE_INTERVAL_DAYS Proficient = Some 14"
| "BASE_INTERVAL_DAYS Mastered = Some 30"

definition computeReviewDueAt :: "mastery_band \<Rightarrow> time \<Rightarrow> time option \<Rightarrow> time option" where
  "computeReviewDueAt band now prevReviewDueAt =
     (case BASE_INTERVAL_DAYS band of
        None \<Rightarrow> None
      | Some base \<Rightarrow>
          let intervalDays = (case prevReviewDueAt of
                None \<Rightarrow> base
              | Some prev \<Rightarrow> if now \<le> prev then min (max base base * (18/10)) 180 else base)
          in Some (now + js_round (intervalDays * real_of_int DAY_MS)))"

definition isReviewDue :: "time option \<Rightarrow> time \<Rightarrow> bool" where
  "isReviewDue reviewDueAt now = (case reviewDueAt of None \<Rightarrow> False | Some t \<Rightarrow> t \<le> now)"

section \<open>The order of the bands\<close>

fun band_rank :: "mastery_band \<Rightarrow> nat" where
  "band_rank Novice = 0"
| "band_rank Developing = 1"
| "band_rank Competent = 2"
| "band_rank Proficient = 3"
| "band_rank Mastered = 4"

lemma band_rank_inject: "band_rank x = band_rank y \<longleftrightarrow> x = y"
  by (cases x; cases y) simp_all

instantiation mastery_band :: linorder
begin

definition less_eq_mastery_band :: "mastery_band \<Rightarrow> mastery_band \<Rightarrow> bool" where
  "less_eq_mastery_band x y \<longleftrightarrow> band_rank x \<le> band_rank y"

definition less_mastery_band :: "mastery_band \<Rightarrow> mastery_band \<Rightarrow> bool" where
  "less_mastery_band x y \<longleftrightarrow> band_rank x < band_rank y"

instance
  by standard (auto simp: less_eq_mastery_band_def less_mastery_band_def band_rank_inject)

end

lemma bandFor_mono: "p \<le> q \<Longrightarrow> bandFor p \<le> bandFor q"
  by (auto simp: bandFor_def less_eq_mastery_band_def)

lemma bandFor_competent: "Competent \<le> bandFor p \<longleftrightarrow> 55/100 \<le> p"
  by (auto simp: bandFor_def less_eq_mastery_band_def)

section \<open>Bounds of the update's intermediate values\<close>

lemma eps_pos: "0 < eps" "eps < 1/2" "eps \<le> 1 - eps"
  by (simp_all add: eps_def)

lemma evidence_strength_bounds: "-1 \<le> evidence_strength w sc t" "evidence_strength w sc t \<le> 1"
  using clamp_bounds [of "- 1" 1] by (simp_all add: evidence_strength_def Let_def)

lemma evidence_strength_mono:
  assumes "0 \<le> w" and "sc \<le> sc'"
  shows "evidence_strength w sc t \<le> evidence_strength w sc' t"
  unfolding evidence_strength_def Let_def
  using assms by (intro clamp_mono) (simp add: divide_right_mono mult_left_mono)

lemma evidence_strength_pass:
  assumes "0 \<le> w" and "t \<le> sc"
  shows "0 \<le> evidence_strength w sc t"
proof -
  have "evidence_strength w t t = 0" by (simp add: evidence_strength_def clamp_def)
  then show ?thesis using evidence_strength_mono [OF assms, of t] by simp
qed

lemma adjust_bounds:
  assumes "0 \<le> g" and "0 \<le> sl" and "g + sl < 2/3"
  shows "0 \<le> adj_guess g d" "0 \<le> adj_slip sl d" "adj_guess g d + adj_slip sl d < 1"
    "adj_slip sl d < 1" "adj_guess g d < 1"
proof -
  define m where "m = clamp \<bar>d\<bar> 0 (1/2)"
  have m: "0 \<le> m" "m \<le> 1/2" using clamp_bounds [of 0 "1/2"] by (simp_all add: m_def)
  have up: "x * (1 + m) + y * (1 - m) < 1" if "0 \<le> x" "0 \<le> y" "x + y < 2/3" for x y :: real
  proof -
    have "x * (1 + m) + y * (1 - m) \<le> (x + y) * (1 + m)"
      using that m by (simp add: algebra_simps mult_left_mono)
    also have "\<dots> \<le> (x + y) * (3/2)" using that m by (intro mult_left_mono) auto
    also have "\<dots> < 1" using that by simp
    finally show ?thesis .
  qed
  show g0: "0 \<le> adj_guess g d" using assms m by (simp add: adj_guess_def Let_def flip: m_def)
  show s0: "0 \<le> adj_slip sl d" using assms m by (simp add: adj_slip_def Let_def flip: m_def)
  show "adj_guess g d + adj_slip sl d < 1"
    using up [of g sl] up [of sl g] assms
    by (auto simp: adj_guess_def adj_slip_def Let_def min_def simp flip: m_def)
  then show "adj_slip sl d < 1" "adj_guess g d < 1" using g0 s0 by linarith+
qed

lemma posterior_pass:
  assumes "0 < p" and "p < 1" and "0 \<le> g" and "g + sl < 1"
  shows "p \<le> posterior True g sl p" "posterior True g sl p \<le> 1"
proof -
  let ?n = "p * (1 - sl)" and ?d = "(1 - p) * g"
  have n: "0 < ?n" and d: "0 \<le> ?d" using assms by auto
  have "p * ?d \<le> (1 - p) * ?n"
    using assms by (simp add: mult.left_commute mult_left_mono)
  then have "p * (?n + ?d) \<le> ?n" by (simp add: algebra_simps)
  then show "p \<le> posterior True g sl p"
    using n d by (simp add: posterior_def Let_def pos_le_divide_eq)
  show "posterior True g sl p \<le> 1" using n d by (simp add: posterior_def Let_def)
qed

lemma posterior_fail:
  assumes "0 < p" and "p < 1" and "0 \<le> sl" and "g < 1" and "g + sl < 1"
  shows "posterior False g sl p \<le> p" "0 \<le> posterior False g sl p"
proof -
  let ?n = "p * sl" and ?d = "(1 - p) * (1 - g)"
  have n: "0 \<le> ?n" and d: "0 < ?d" using assms by auto
  have "(1 - p) * ?n \<le> p * ?d"
    using assms by (simp add: mult.left_commute mult_left_mono)
  then have "?n \<le> p * (?n + ?d)" by (simp add: algebra_simps)
  then show "posterior False g sl p \<le> p"
    using n d by (simp add: posterior_def Let_def pos_divide_le_eq)
  show "0 \<le> posterior False g sl p" using n d by (simp add: posterior_def Let_def)
qed

text \<open>The blended belief as a function of the signed evidence strength.\<close>

definition blend :: "real \<Rightarrow> real \<Rightarrow> real \<Rightarrow> real \<Rightarrow> real" where
  "blend g sl p e = p + (posterior (0 \<le> e) g sl p - p) * \<bar>e\<bar>"

lemma blend_mono:
  assumes "0 < p" "p < 1" "0 \<le> g" "0 \<le> sl" "g + sl < 1" "g < 1" and "e \<le> e'"
  shows "blend g sl p e \<le> blend g sl p e'"
proof -
  note up = posterior_pass(1) [OF assms(1,2,3,5)] and dn = posterior_fail(1) [OF assms(1,2,4,6,5)]
  have pos: "p \<le> blend g sl p x" if "0 \<le> x" for x
    using that up by (simp add: blend_def)
  have neg: "blend g sl p x \<le> p" if "x < 0" for x
    using that dn by (simp add: blend_def mult_nonpos_nonpos)
  consider "0 \<le> e" | "e < 0" "0 \<le> e'" | "e < 0" "e' < 0" by linarith
  then show ?thesis
  proof cases
    case 1
    then show ?thesis using assms(7) up by (simp add: blend_def mult_left_mono)
  next
    case 2
    then show ?thesis using pos neg by (meson order_trans)
  next
    case 3
    then show ?thesis using assms(7) dn
      by (simp add: blend_def mult_left_mono_neg)
  qed
qed

lemma bkt_pBefore: "br_pBefore (bkt_update inp) = clamp (bi_priorP inp) eps (1 - eps)"
  by (simp add: bkt_update_def Let_def)

lemma bkt_pAfter:
  "br_pAfter (bkt_update inp) =
    (let p = clamp (bi_priorP inp) eps (1 - eps);
         b = blend (adj_guess (pGuess (bi_params inp)) (bi_difficultyAdjust inp))
               (adj_slip (pSlip (bi_params inp)) (bi_difficultyAdjust inp)) p
               (evidence_strength (bi_weight inp) (bi_score inp) (bi_passThreshold inp))
     in clamp (if bi_wasGenuineAttempt inp then b + (1 - b) * pTransit (bi_params inp) else p)
          eps (1 - eps))"
  by (simp add: bkt_update_def blend_def Let_def)

lemma prior_bounds: "0 < clamp p eps (1 - eps)" "clamp p eps (1 - eps) < 1"
  using clamp_bounds [OF eps_pos(3), of p] eps_pos by linarith+

lemma bkt_pAfter_bounds: "eps \<le> br_pAfter (bkt_update inp)" "br_pAfter (bkt_update inp) \<le> 1 - eps"
  unfolding bkt_pAfter Let_def using clamp_bounds [OF eps_pos(3)] by auto

lemma bkt_delta: "br_delta (bkt_update inp) = br_pAfter (bkt_update inp) - br_pBefore (bkt_update inp)"
  by (simp add: bkt_update_def Let_def)

lemma bkt_prob: "0 < br_pAfter (bkt_update inp)" "br_pAfter (bkt_update inp) < 1"
  using bkt_pAfter_bounds [of inp] eps_pos by linarith+

lemma review_due_iff: "computeReviewDueAt (bandFor p) now prev \<noteq> None \<longleftrightarrow> 55/100 \<le> p"
proof -
  have "(BASE_INTERVAL_DAYS (bandFor p) \<noteq> None) = (55/100 \<le> p)" by (simp add: bandFor_def)
  then show ?thesis by (auto simp: computeReviewDueAt_def Let_def split: option.splits)
qed

text \<open>The parameters a skill may have for the update to be identifiable.\<close>

definition params_ok :: "bkt_params \<Rightarrow> bool" where
  "params_ok P \<longleftrightarrow> 0 \<le> pGuess P \<and> 0 \<le> pSlip P \<and> pGuess P + pSlip P < 2/3 \<and>
     0 \<le> pTransit P \<and> pTransit P \<le> 1"

section \<open>Properties\<close>


definition demo_params :: bkt_params where
  "demo_params = \<lparr>pInit = 15/100, pTransit = 25/100, pSlip = 10/100, pGuess = 8/100\<rparr>"

definition demo_bkt :: bkt_input where
  "demo_bkt = \<lparr>bi_priorP = 3/10, bi_params = demo_params, bi_score = 1/2, bi_weight = 1,
     bi_passThreshold = 7/10, bi_difficultyAdjust = 0, bi_wasGenuineAttempt = True\<rparr>"


text \<open>Property. Decay can be computed lazily: decaying to an intermediate time and from there to the final
  time gives the same value as decaying once, so the moment of reading does not matter; and the
  decayed mastery always lies between the population prior and the stored value.\<close>

theorem decay_lazy:
  assumes "t0 \<le> t1" and "t1 \<le> t2" and "0 < h"
  shows "decayedMastery (decayedMastery p pI t0 h t1) pI t1 h t2 = decayedMastery p pI t0 h t2
    \<and> min p pI \<le> decayedMastery p pI t0 h t2 \<and> decayedMastery p pI t0 h t2 \<le> max p pI"
proof -
  have D: "0 < real_of_int DAY_MS" by (simp add: DAY_MS_def)
  define f where "f = (\<lambda>a b :: int. (1/2::real) powr (real_of_int (b - a) / real_of_int DAY_MS / h))"
  have eq: "decayedMastery q pI a h b = pI + (q - pI) * f a b" if "a \<le> b" for q a b
    using that D by (cases "a = b") (auto simp: decayedMastery_def f_def Let_def divide_le_0_iff)
  have add: "f t0 t1 * f t1 t2 = f t0 t2"
    by (simp add: f_def flip: powr_add) (simp add: diff_divide_distrib)
  have f01: "0 \<le> f t0 t2" "f t0 t2 \<le> 1"
    using powr_mono' [of 0 "real_of_int (t2 - t0) / real_of_int DAY_MS / h" "1/2::real"] assms D
    by (simp_all add: f_def)
  have "min p pI \<le> pI + (p - pI) * f t0 t2 \<and> pI + (p - pI) * f t0 t2 \<le> max p pI"
  proof (cases "pI \<le> p")
    case True
    then show ?thesis using f01 mult_left_le [of "f t0 t2" "p - pI"] by simp
  next
    case False
    then show ?thesis
      using f01 mult_left_le [of "f t0 t2" "pI - p"] mult_nonpos_nonneg [of "p - pI" "f t0 t2"]
      by (simp add: algebra_simps)
  qed
  then show ?thesis using assms add by (simp add: eq mult.assoc)
qed

theorem decay_lazy_witness:
  "decayedMastery (decayedMastery (9/10) (1/10) 0 180 5) (1/10) 5 180 8 = decayedMastery (9/10) (1/10) 0 180 8"
  using decay_lazy [of 0 5 8 180 "9/10" "1/10"] by simp

text \<open>Property. Spaced repetition and gating use one line: a skill is in the review rotation exactly when
  its mastery is at least 0.55, the threshold of the prerequisite gate; the review date is then in
  the future by at least the band's base interval and at most 180 days, so a fresh review is never
  immediately due.\<close>

theorem review_rotation:
  "(computeReviewDueAt (bandFor p) now prev \<noteq> None \<longleftrightarrow> 55/100 \<le> p)
   \<and> (case computeReviewDueAt (bandFor p) now prev of None \<Rightarrow> True
      | Some t \<Rightarrow> now + 7 * DAY_MS \<le> t \<and> t \<le> now + 180 * DAY_MS)
   \<and> \<not> isReviewDue (computeReviewDueAt (bandFor p) now prev) now"
proof -
  have base: "(BASE_INTERVAL_DAYS (bandFor p) \<noteq> None) = (55/100 \<le> p)"
    by (simp add: bandFor_def)
  have b: "7 \<le> b \<and> b \<le> 30" if "BASE_INTERVAL_DAYS (bandFor p) = Some b" for b
    using that by (cases "bandFor p") auto
  have rnd: "7 * DAY_MS \<le> js_round (x * real_of_int DAY_MS) \<and>
      js_round (x * real_of_int DAY_MS) \<le> 180 * DAY_MS" if "7 \<le> x" "x \<le> 180" for x
  proof -
    have D: "0 \<le> real_of_int DAY_MS" by (simp add: DAY_MS_def)
    have "js_round (real_of_int (7 * DAY_MS)) \<le> js_round (x * real_of_int DAY_MS)"
      "js_round (x * real_of_int DAY_MS) \<le> js_round (real_of_int (180 * DAY_MS))"
      using mult_right_mono [OF that(1) D] mult_right_mono [OF that(2) D]
      by (auto intro!: js_round_mono)
    then show ?thesis by (simp only: js_round_of_int)
  qed
  have "0 < DAY_MS" by (simp add: DAY_MS_def)
  show ?thesis
  proof (cases "BASE_INTERVAL_DAYS (bandFor p)")
    case None
    then show ?thesis using base by (simp add: computeReviewDueAt_def isReviewDue_def)
  next
    case (Some bb)
    define x where "x = (case prev of None \<Rightarrow> bb
      | Some pr \<Rightarrow> if now \<le> pr then min (max bb bb * (18/10)) 180 else bb)"
    have "7 \<le> x" "x \<le> 180" using b [OF Some] by (auto simp: x_def split: option.splits)
    moreover have "computeReviewDueAt (bandFor p) now prev =
        Some (now + js_round (x * real_of_int DAY_MS))"
      using Some by (simp add: computeReviewDueAt_def x_def)
    ultimately show ?thesis using rnd [of x] base Some \<open>0 < DAY_MS\<close> by (auto simp: isReviewDue_def)
  qed
qed

text \<open>Property. One Elo match: the expected pass probability is proper and at least one half exactly when
  the learner is rated at least as high as the activity; a pass raises the learner's rating and a
  fail lowers it, by at most 32 points (at most 12 once 20 matches have been played); the
  activity moves the other way by at most 4 points, and not at all after 500 attempts.\<close>

theorem elo_match:
  assumes "ei_outcome inp \<in> {0, 1/2, 1}" and "out = elo_update inp"
  shows "0 < eo_expectedPass out \<and> eo_expectedPass out < 1
    \<and> (1/2 \<le> eo_expectedPass out \<longleftrightarrow> ei_activityElo inp \<le> ei_learnerElo inp)
    \<and> (ei_outcome inp = 1 \<longrightarrow> ei_learnerElo inp < eo_learnerElo out \<and> eo_activityElo out \<le> ei_activityElo inp)
    \<and> (ei_outcome inp = 0 \<longrightarrow> eo_learnerElo out < ei_learnerElo inp \<and> ei_activityElo inp \<le> eo_activityElo out)
    \<and> \<bar>eo_learnerElo out - ei_learnerElo inp\<bar> \<le> kLearnerFor (ei_learnerMatchCount inp)
    \<and> 12 \<le> kLearnerFor (ei_learnerMatchCount inp) \<and> kLearnerFor (ei_learnerMatchCount inp) \<le> 32
    \<and> (20 \<le> ei_learnerMatchCount inp \<longrightarrow> kLearnerFor (ei_learnerMatchCount inp) = 12)
    \<and> \<bar>eo_activityElo out - ei_activityElo inp\<bar> \<le> (if ei_activityAttemptCount inp > 500 then 0 else 4)"
proof -
  let ?x = "(ei_activityElo inp - ei_learnerElo inp) / 400"
  let ?K = "kLearnerFor (ei_learnerMatchCount inp)"
  have K: "12 \<le> ?K" "?K \<le> 32" by (simp_all add: kLearnerFor_def min_def)
  have K12: "20 \<le> ei_learnerMatchCount inp \<longrightarrow> ?K = 12" by (simp add: kLearnerFor_def min_def)
  define e where "e = eo_expectedPass out"
  define su where "su = ei_outcome inp - e"
  have pw: "0 < 10 powr ?x" by simp
  have e: "e = 1 / (1 + 10 powr ?x)" by (simp add: e_def assms(2) elo_update_def Let_def)
  have e01: "0 < e" "e < 1" using pw unfolding e by (simp_all add: add_pos_pos)
  have "(1/2 \<le> e) = (10 powr ?x \<le> 10 powr 0)"
    unfolding e using pw by (simp add: pos_le_divide_eq add_pos_pos)
  also have "\<dots> = (ei_activityElo inp \<le> ei_learnerElo inp)"
    by (subst powr_le_cancel_iff) (simp_all add: divide_le_0_iff)
  finally have half: "(1/2 \<le> e) = (ei_activityElo inp \<le> ei_learnerElo inp)" .
  have outs: "eo_learnerElo out = ei_learnerElo inp + ?K * su"
    "eo_activityElo out = ei_activityElo inp - (if ei_activityAttemptCount inp > 500 then 0 else 4) * su"
    by (simp_all add: assms(2) su_def e elo_update_def Let_def)
  have su: "\<bar>su\<bar> \<le> 1" "ei_outcome inp = 1 \<longrightarrow> 0 < su" "ei_outcome inp = 0 \<longrightarrow> su < 0"
    using assms(1) e01 by (auto simp: su_def)
  have "\<bar>?K * su\<bar> \<le> ?K"
    using su(1) K mult_left_le [of "\<bar>su\<bar>" ?K] by (simp add: abs_mult)
  moreover have "ei_outcome inp = 1 \<longrightarrow> 0 < ?K * su" "ei_outcome inp = 0 \<longrightarrow> ?K * su < 0"
    using su K by (auto simp: mult_pos_neg)
  moreover have "\<bar>4 * su\<bar> \<le> 4" "ei_outcome inp = 1 \<longrightarrow> 0 \<le> su" "ei_outcome inp = 0 \<longrightarrow> su \<le> 0"
    using su by auto
  ultimately show ?thesis
    using e01 half K K12 su outs by (simp flip: e_def)
qed

theorem elo_match_witness:
  "eo_learnerElo (elo_update \<lparr>ei_learnerElo = 1200, ei_activityElo = 1300, ei_learnerMatchCount = 3,
      ei_activityAttemptCount = 0, ei_outcome = 1\<rparr>) > 1200"
  using elo_match [of "\<lparr>ei_learnerElo = 1200, ei_activityElo = 1300, ei_learnerMatchCount = 3,
      ei_activityAttemptCount = 0, ei_outcome = 1\<rparr>", OF _ refl] by simp

text \<open>The comment of step 2 says the difficulty adjustment keeps the parameters inside (0,1). It
  bounds the slip, not the guess: a skill with a guess above two thirds leaves the interval.\<close>

lemma adjusted_guess_leaves_unit_interval: "adj_guess (8/10) (- 1) = 12/10"
  by (simp add: adj_guess_def clamp_def)

lemma on_time_review_does_not_compound:
  assumes "now \<le> due"
  shows "computeReviewDueAt Competent now (Some due) =
    Some (now + js_round (126/10 * real_of_int DAY_MS))"
  using assms by (simp add: computeReviewDueAt_def)

end
