(* ===== verification/SkillGraph.thy ===== *)
theory SkillGraph
  imports Schema
begin

text \<open>
  \<open>skill/skill.repository.ts\<close>: the skill graph and its materialised prerequisite closure. The
  recursive common table expression of \<open>rebuildClosure\<close> is the executable \<open>walk\<close> (one call
  per row the query derives, in a different order, which the aggregation does not see); the
  inductive predicate \<open>walks\<close> is the least fixed point the SQL statement denotes, and
  \<open>walks_iff\<close> says the two agree.
\<close>

section \<open>Model\<close>

definition addEdge :: "skill_edge_row \<Rightarrow> unit prog" where
  "addEdge e = modify (\<lambda>s. if list_ex (\<lambda>x. ed_from x = ed_from e \<and> ed_to x = ed_to e \<and> ed_type x = ed_type e)
       (skill_edges s) then s else s\<lparr>skill_edges := skill_edges s @ [e]\<rparr>)"

record walk_row =
  w_ancestor :: string
  w_descendant :: string
  w_depth :: nat
  w_edge_types :: "skill_edge_type list"
  w_path :: "string list"

definition prerequisite_edges :: "db \<Rightarrow> skill_edge_row list" where
  "prerequisite_edges s = filter (\<lambda>e. ed_type e \<in> {REQUIRES, BUILDS_ON}) (skill_edges s)"

definition walk_base :: "skill_edge_row \<Rightarrow> walk_row" where
  "walk_base e = \<lparr>w_ancestor = ed_from e, w_descendant = ed_to e, w_depth = 1,
     w_edge_types = [ed_type e], w_path = [ed_from e, ed_to e]\<rparr>"

definition walk_step :: "walk_row \<Rightarrow> skill_edge_row \<Rightarrow> walk_row" where
  "walk_step w e = \<lparr>w_ancestor = w_ancestor w, w_descendant = ed_to e, w_depth = w_depth w + 1,
     w_edge_types = w_edge_types w @ [ed_type e], w_path = w_path w @ [ed_to e]\<rparr>"

definition walk_next :: "skill_edge_row list \<Rightarrow> walk_row \<Rightarrow> walk_row list" where
  "walk_next es w = map (walk_step w)
     (filter (\<lambda>e. ed_from e = w_descendant w \<and> ed_to e \<notin> set (w_path w)) es)"

lemma walk_next_iff:
  "w' \<in> set (walk_next es w) \<longleftrightarrow> (\<exists>e \<in> set es. ed_from e = w_descendant w \<and>
     ed_to e \<notin> set (w_path w) \<and> w' = walk_step w e)"
  by (auto simp: walk_next_def)

lemma walk_next_decreases:
  assumes "w' \<in> set (walk_next es w)"
  shows "card (set (map ed_to es) - set (w_path w')) < card (set (map ed_to es) - set (w_path w))"
proof -
  from assms obtain e where e: "e \<in> set es" "ed_to e \<notin> set (w_path w)" "w' = walk_step w e"
    by (auto simp: walk_next_iff)
  show ?thesis
  proof (rule psubset_card_mono)
    show "finite (set (map ed_to es) - set (w_path w))" by simp
    show "set (map ed_to es) - set (w_path w') \<subset> set (map ed_to es) - set (w_path w)"
      using e by (auto simp: walk_step_def)
  qed
qed

function walk :: "skill_edge_row list \<Rightarrow> walk_row \<Rightarrow> walk_row list" where
  "walk es w = w # concat (map (walk es) (walk_next es w))"
  by pat_completeness auto
termination
  by (relation "measure (\<lambda>(es, w). card (set (map ed_to es) - set (w_path w)))")
    (use walk_next_decreases in auto)

declare walk.simps [simp del]

definition walk_rows :: "skill_edge_row list \<Rightarrow> walk_row list" where
  "walk_rows es = concat (map (walk es) (map walk_base es))"

text \<open>\<open>SELECT ancestor_id, descendant_id, MIN(depth), array_agg(DISTINCT et) ... GROUP BY\<close>.\<close>

definition closure_of :: "walk_row list \<Rightarrow> skill_closure_row list" where
  "closure_of rows = map (\<lambda>(a, d).
     let grp = filter (\<lambda>w. w_ancestor w = a \<and> w_descendant w = d) rows in
     \<lparr>cl_ancestor = a, cl_descendant = d, cl_depth = Min (set (map w_depth grp)),
      cl_edge_types = remdups (concat (map w_edge_types grp))\<rparr>)
     (remdups (map (\<lambda>w. (w_ancestor w, w_descendant w)) rows))"

definition rebuildClosure :: "unit prog" where
  "rebuildClosure = modify (\<lambda>s. s\<lparr>skill_closure := closure_of (walk_rows (prerequisite_edges s))\<rparr>)"

definition getRequiresAncestors :: "string \<Rightarrow> db \<Rightarrow> string list" where
  "getRequiresAncestors skillId s = map cl_ancestor
     (filter (\<lambda>r. cl_descendant r = skillId \<and> REQUIRES \<in> set (cl_edge_types r)) (skill_closure s))"

section \<open>The recursive query as a least fixed point\<close>

inductive walks :: "skill_edge_row list \<Rightarrow> walk_row \<Rightarrow> bool" for es where
  base: "e \<in> set es \<Longrightarrow> walks es (walk_base e)"
| step: "walks es w \<Longrightarrow> e \<in> set es \<Longrightarrow> ed_from e = w_descendant w \<Longrightarrow>
    ed_to e \<notin> set (w_path w) \<Longrightarrow> walks es (walk_step w e)"

lemma walk_sound: "w' \<in> set (walk es w) \<Longrightarrow> walks es w \<Longrightarrow> walks es w'"
proof (induction es w rule: walk.induct)
  case (1 es w)
  from "1.prems"(1) consider "w' = w" | x where "x \<in> set (walk_next es w)" "w' \<in> set (walk es x)"
    by (subst (asm) walk.simps) auto
  then show ?case
    using "1.IH" "1.prems"(2) by cases (auto simp: walk_next_iff intro: walks.step)
qed

lemma walk_self: "w \<in> set (walk es w)"
  by (subst walk.simps) simp

lemma walk_closed: "w \<in> set (walk es w0) \<Longrightarrow> w' \<in> set (walk_next es w) \<Longrightarrow> w' \<in> set (walk es w0)"
proof (induction es w0 rule: walk.induct)
  case (1 es w0)
  from "1.prems"(1) consider "w = w0" | x where "x \<in> set (walk_next es w0)" "w \<in> set (walk es x)"
    by (subst (asm) walk.simps) auto
  then show ?case
  proof cases
    case 1
    then show ?thesis using "1.prems"(2) walk_self by (subst walk.simps) auto
  next
    case 2
    then show ?thesis using "1.IH" "1.prems"(2) by (subst walk.simps) auto
  qed
qed

lemma walks_iff: "w \<in> set (walk_rows es) \<longleftrightarrow> walks es w"
proof
  show "w \<in> set (walk_rows es) \<Longrightarrow> walks es w"
    by (auto simp: walk_rows_def dest: walk_sound intro: walks.base)
  show "walks es w \<Longrightarrow> w \<in> set (walk_rows es)"
  proof (induction rule: walks.induct)
    case (base e)
    then show ?case using walk_self by (auto simp: walk_rows_def)
  next
    case (step w e)
    then show ?case using walk_closed [of w es _ "walk_step w e"]
      by (auto simp: walk_rows_def walk_next_iff)
  qed
qed

lemma closure_row_iff:
  "(\<exists>r \<in> set (closure_of rows). cl_ancestor r = a \<and> cl_descendant r = d \<and> Q r) \<longleftrightarrow>
   (\<exists>w \<in> set rows. w_ancestor w = a \<and> w_descendant w = d) \<and>
   (let grp = filter (\<lambda>w. w_ancestor w = a \<and> w_descendant w = d) rows in
    Q \<lparr>cl_ancestor = a, cl_descendant = d, cl_depth = Min (set (map w_depth grp)),
      cl_edge_types = remdups (concat (map w_edge_types grp))\<rparr>)"
  by (auto simp: closure_of_def Let_def)

section \<open>The closure against the graph\<close>

definition prereq :: "skill_edge_row list \<Rightarrow> (string \<times> string) set" where
  "prereq es = {(ed_from e, ed_to e) | e. e \<in> set es}"

lemma prereqI: "e \<in> set es \<Longrightarrow> ed_from e = a \<Longrightarrow> (a, ed_to e) \<in> prereq es"
  by (auto simp: prereq_def)

lemma walk_sel [simp]:
  "w_ancestor (walk_base e) = ed_from e" "w_descendant (walk_base e) = ed_to e"
  "w_depth (walk_base e) = 1" "w_edge_types (walk_base e) = [ed_type e]"
  "w_path (walk_base e) = [ed_from e, ed_to e]"
  "w_ancestor (walk_step w e) = w_ancestor w" "w_descendant (walk_step w e) = ed_to e"
  "w_depth (walk_step w e) = w_depth w + 1" "w_edge_types (walk_step w e) = w_edge_types w @ [ed_type e]"
  "w_path (walk_step w e) = w_path w @ [ed_to e]"
  by (simp_all add: walk_base_def walk_step_def)

lemma walks_relpow: "walks es w \<Longrightarrow> (w_ancestor w, w_descendant w) \<in> prereq es ^^ w_depth w \<and> 1 \<le> w_depth w"
  by (induction rule: walks.induct) (auto intro: prereqI)

text \<open>Every node of a derived path but its first is itself reached by a row no deeper.\<close>

lemma walks_prefix:
  "walks es w \<Longrightarrow> y \<in> set (w_path w) \<Longrightarrow> y \<noteq> w_ancestor w \<Longrightarrow>
   \<exists>w'. walks es w' \<and> w_ancestor w' = w_ancestor w \<and> w_descendant w' = y \<and> w_depth w' \<le> w_depth w"
proof (induction arbitrary: y rule: walks.induct)
  case (base e)
  then show ?case by (auto intro!: exI [of _ "walk_base e"] walks.base)
next
  case (step w e)
  show ?case
  proof (cases "y \<in> set (w_path w)")
    case True
    then show ?thesis using step.IH [OF True] step.prems by force
  next
    case False
    then have "y = ed_to e" using step.prems by simp
    then show ?thesis using walks.step [OF step.hyps] by (auto intro!: exI [of _ "walk_step w e"])
  qed
qed

lemma walks_complete:
  "(a, d) \<in> prereq es ^^ n \<Longrightarrow> a \<noteq> d \<Longrightarrow>
   \<exists>w. walks es w \<and> w_ancestor w = a \<and> w_descendant w = d \<and> w_depth w \<le> n"
proof (induction n arbitrary: d)
  case (Suc n)
  from Suc.prems(1) obtain x where x: "(a, x) \<in> prereq es ^^ n" "(x, d) \<in> prereq es" by auto
  then obtain e where e: "e \<in> set es" "ed_from e = x" "ed_to e = d" by (auto simp: prereq_def)
  show ?case
  proof (cases "a = x")
    case True
    then show ?thesis using e walks.base [OF e(1)] by (intro exI [of _ "walk_base e"]) auto
  next
    case False
    with Suc.IH x obtain w where w: "walks es w" "w_ancestor w = a" "w_descendant w = x" "w_depth w \<le> n"
      by blast
    show ?thesis
    proof (cases "d \<in> set (w_path w)")
      case True
      then show ?thesis using walks_prefix [OF w(1) True] w Suc.prems(2) by force
    next
      case False
      then show ?thesis using w e walks.step [OF w(1) e(1)] by (intro exI [of _ "walk_step w e"]) auto
    qed
  qed
qed simp

text \<open>In an acyclic graph the cycle guard of the query never fires.\<close>

lemma walks_path_reaches:
  "walks es w \<Longrightarrow> y \<in> set (w_path w) \<Longrightarrow> (y, w_descendant w) \<in> (prereq es)\<^sup>*"
proof (induction arbitrary: y rule: walks.induct)
  case (base e)
  then show ?case by (auto simp: prereq_def)
next
  case (step w e)
  have "(w_descendant w, ed_to e) \<in> prereq es" using step.hyps by (blast intro: prereqI)
  then show ?case using step by (auto intro: rtrancl_into_rtrancl)
qed

lemma walks_extend:
  assumes "acyclic (prereq es)" and "walks es w" and "e \<in> set es" and "ed_from e = w_descendant w"
  shows "walks es (walk_step w e)"
proof (rule walks.step [OF assms(2-4)])
  have "(w_descendant w, ed_to e) \<in> prereq es" using assms by (blast intro: prereqI)
  then show "ed_to e \<notin> set (w_path w)"
    using walks_path_reaches [OF assms(2)] assms(1) by (metis acyclic_def rtrancl_into_trancl1)
qed

lemma walks_continue:
  assumes "acyclic (prereq es)" and "(x, d) \<in> (prereq es)\<^sup>*" and "walks es w" and "w_descendant w = x"
  shows "\<exists>w'. walks es w' \<and> w_ancestor w' = w_ancestor w \<and> w_descendant w' = d
    \<and> set (w_edge_types w) \<subseteq> set (w_edge_types w')"
  using assms(2-4)
proof (induction rule: rtrancl_induct)
  case (step y z)
  then obtain w' where w': "walks es w'" "w_ancestor w' = w_ancestor w" "w_descendant w' = y"
    "set (w_edge_types w) \<subseteq> set (w_edge_types w')" by blast
  from step.hyps obtain e where "e \<in> set es" "ed_from e = y" "ed_to e = z" by (auto simp: prereq_def)
  then show ?case using walks_extend [OF assms(1) w'(1)] w' by (intro exI [of _ "walk_step w' e"]) auto
qed auto

lemma walks_requires:
  "walks es w \<Longrightarrow> REQUIRES \<in> set (w_edge_types w) \<Longrightarrow>
   \<exists>e \<in> set es. ed_type e = REQUIRES \<and> (w_ancestor w, ed_from e) \<in> (prereq es)\<^sup>* \<and>
     (ed_to e, w_descendant w) \<in> (prereq es)\<^sup>*"
proof (induction rule: walks.induct)
  case (step w e)
  have pe: "(w_descendant w, ed_to e) \<in> prereq es" using step.hyps by (blast intro: prereqI)
  have "(w_ancestor w, w_descendant w) \<in> (prereq es)\<^sup>*"
    using walks_relpow [OF step.hyps(1)] relpow_imp_rtrancl by blast
  then show ?case using step pe by (cases "ed_type e = REQUIRES") (auto intro: rtrancl_into_rtrancl)
next
  case (base e)
  then show ?case by (intro bexI [of _ e]) auto
qed

section \<open>Properties\<close>

text \<open>C31. The materialised closure is the transitive closure: after \<open>rebuildClosure\<close> there is a row
  for two different skills exactly when one is reachable from the other along REQUIRES and
  BUILDS_ON edges, even in a graph with cycles, and its depth is the length of a shortest such
  path.\<close>

theorem closure_correct:
  assumes "es = prerequisite_edges s" and "s' = snd (rebuildClosure s)" and "a \<noteq> d"
  shows "((\<exists>r \<in> set (skill_closure s'). cl_ancestor r = a \<and> cl_descendant r = d)
      \<longleftrightarrow> (a, d) \<in> (prereq es)\<^sup>+)
    \<and> (\<forall>r \<in> set (skill_closure s'). cl_ancestor r = a \<and> cl_descendant r = d \<longrightarrow>
        (a, d) \<in> prereq es ^^ cl_depth r \<and> (\<forall>n. (a, d) \<in> prereq es ^^ n \<longrightarrow> cl_depth r \<le> n))"
proof -
  have cl: "skill_closure s' = closure_of (walk_rows es)"
    using assms by (simp add: rebuildClosure_def)
  have reach: "(\<exists>w. walks es w \<and> w_ancestor w = a \<and> w_descendant w = d) \<longleftrightarrow> (a, d) \<in> (prereq es)\<^sup>+"
    using walks_relpow walks_complete assms(3)
    by (metis less_eq_Suc_le One_nat_def trancl_power)
  define grp where "grp = {w. walks es w \<and> w_ancestor w = a \<and> w_descendant w = d}"
  have fin: "finite grp"
    by (rule finite_subset [of grp "set (walk_rows es)"]) (auto simp: grp_def walks_iff)
  have row: "cl_depth r = Min (w_depth ` grp) \<and> grp \<noteq> {}"
    if "r \<in> set (closure_of (walk_rows es))" "cl_ancestor r = a" "cl_descendant r = d" for r
  proof -
    have "w_depth ` {w \<in> set (walk_rows es). w_ancestor w = a \<and> w_descendant w = d} = w_depth ` grp"
      by (simp add: grp_def walks_iff)
    moreover have "grp \<noteq> {}"
      using that by (auto simp: closure_of_def Let_def grp_def walks_iff)
    ultimately show ?thesis using that by (auto simp: closure_of_def Let_def)
  qed
  have "(a, d) \<in> prereq es ^^ cl_depth r \<and> (\<forall>n. (a, d) \<in> prereq es ^^ n \<longrightarrow> cl_depth r \<le> n)"
    if "r \<in> set (closure_of (walk_rows es))" "cl_ancestor r = a" "cl_descendant r = d" for r
  proof -
    have "cl_depth r \<in> w_depth ` grp" using row [OF that] fin by (metis Min_in finite_imageI image_is_empty)
    then have "(a, d) \<in> prereq es ^^ cl_depth r" using walks_relpow by (auto simp: grp_def)
    moreover have "cl_depth r \<le> n" if n: "(a, d) \<in> prereq es ^^ n" for n
    proof -
      obtain w where "w \<in> grp" "w_depth w \<le> n"
        using walks_complete [OF n assms(3)] by (auto simp: grp_def)
      then show ?thesis
        using row \<open>r \<in> _\<close> \<open>cl_ancestor r = a\<close> \<open>cl_descendant r = d\<close> fin
        by (metis Min_le finite_imageI image_eqI order_trans)
    qed
    ultimately show ?thesis by blast
  qed
  moreover have "(\<exists>r \<in> set (closure_of (walk_rows es)). cl_ancestor r = a \<and> cl_descendant r = d)
      \<longleftrightarrow> (\<exists>w. walks es w \<and> w_ancestor w = a \<and> w_descendant w = d)"
    using closure_row_iff [of "walk_rows es" a d "\<lambda>_. True"] by (auto simp: walks_iff)
  ultimately show ?thesis using cl reach by auto
qed

definition demo_graph :: db where
  "demo_graph = empty_db\<lparr>skill_edges := [
     \<lparr>ed_from = ''linux'', ed_to = ''docker'', ed_type = REQUIRES\<rparr>,
     \<lparr>ed_from = ''docker'', ed_to = ''k8s'', ed_type = BUILDS_ON\<rparr>,
     \<lparr>ed_from = ''k8s'', ed_to = ''helm'', ed_type = SIBLING\<rparr>]\<rparr>"

lemma demo_prereq: "prereq (prerequisite_edges demo_graph) = {(''linux'', ''docker''), (''docker'', ''k8s'')}"
proof -
  have "prereq es = (\<lambda>e. (ed_from e, ed_to e)) ` set es" for es by (auto simp: prereq_def)
  then show ?thesis by (simp add: prerequisite_edges_def demo_graph_def)
qed

theorem closure_correct_witness:
  "\<exists>r \<in> set (skill_closure (snd (rebuildClosure demo_graph))).
     cl_ancestor r = ''linux'' \<and> cl_descendant r = ''k8s''"
proof -
  have "(''linux'', ''k8s'') \<in> (prereq (prerequisite_edges demo_graph))\<^sup>+"
    unfolding demo_prereq by (rule trancl_into_trancl [of _ "''docker''"]) auto
  then show ?thesis
    using closure_correct [OF refl refl, of "''linux''" "''k8s''" demo_graph] by simp
qed

text \<open>Property. The prerequisite gate's input: in an acyclic skill graph, \<open>getRequiresAncestors\<close> returns
  exactly the skills from which the given skill is reached along prerequisite edges with at least
  one REQUIRES edge on the way.\<close>

theorem requires_ancestors_correct:
  assumes "acyclic (prereq (prerequisite_edges s))"
  shows "a \<in> set (getRequiresAncestors d (snd (rebuildClosure s))) \<longleftrightarrow>
    (\<exists>e \<in> set (prerequisite_edges s). ed_type e = REQUIRES \<and>
       (a, ed_from e) \<in> (prereq (prerequisite_edges s))\<^sup>* \<and>
       (ed_to e, d) \<in> (prereq (prerequisite_edges s))\<^sup>*)"
proof -
  define es where "es = prerequisite_edges s"
  have "a \<in> set (getRequiresAncestors d (snd (rebuildClosure s))) \<longleftrightarrow>
    (\<exists>r \<in> set (closure_of (walk_rows es)). cl_ancestor r = a \<and> cl_descendant r = d \<and>
       REQUIRES \<in> set (cl_edge_types r))"
    by (auto simp: getRequiresAncestors_def rebuildClosure_def es_def)
  also have "\<dots> \<longleftrightarrow> (\<exists>w. walks es w \<and> w_ancestor w = a \<and> w_descendant w = d \<and>
      REQUIRES \<in> set (w_edge_types w))"
    by (subst closure_row_iff) (auto simp: walks_iff)
  also have "\<dots> \<longleftrightarrow> (\<exists>e \<in> set es. ed_type e = REQUIRES \<and> (a, ed_from e) \<in> (prereq es)\<^sup>* \<and>
      (ed_to e, d) \<in> (prereq es)\<^sup>*)"
  proof
    show "\<exists>w. walks es w \<and> w_ancestor w = a \<and> w_descendant w = d \<and> REQUIRES \<in> set (w_edge_types w) \<Longrightarrow>
      \<exists>e \<in> set es. ed_type e = REQUIRES \<and> (a, ed_from e) \<in> (prereq es)\<^sup>* \<and> (ed_to e, d) \<in> (prereq es)\<^sup>*"
      using walks_requires by blast
  next
    assume "\<exists>e \<in> set es. ed_type e = REQUIRES \<and> (a, ed_from e) \<in> (prereq es)\<^sup>* \<and> (ed_to e, d) \<in> (prereq es)\<^sup>*"
    then obtain e where e: "e \<in> set es" "ed_type e = REQUIRES" "(a, ed_from e) \<in> (prereq es)\<^sup>*"
      "(ed_to e, d) \<in> (prereq es)\<^sup>*" by blast
    have ac: "acyclic (prereq es)" using assms by (simp add: es_def)
    have "\<exists>w. walks es w \<and> w_ancestor w = a \<and> w_descendant w = ed_to e \<and> REQUIRES \<in> set (w_edge_types w)"
    proof (cases "a = ed_from e")
      case True
      then show ?thesis using walks.base [OF e(1)] e(2) by (intro exI [of _ "walk_base e"]) auto
    next
      case False
      then obtain n where "(a, ed_from e) \<in> prereq es ^^ n" using e(3) rtrancl_imp_relpow by blast
      from walks_complete [OF this False] obtain w
        where "walks es w" "w_ancestor w = a" "w_descendant w = ed_from e" by blast
      then show ?thesis using walks_extend [OF ac _ e(1)] e(2) by (intro exI [of _ "walk_step w e"]) auto
    qed
    then show "\<exists>w. walks es w \<and> w_ancestor w = a \<and> w_descendant w = d \<and> REQUIRES \<in> set (w_edge_types w)"
      using walks_continue [OF ac e(4)] by blast
  qed
  finally show ?thesis unfolding es_def .
qed

theorem requires_ancestors_correct_witness:
  "''linux'' \<in> set (getRequiresAncestors ''k8s'' (snd (rebuildClosure demo_graph)))"
proof -
  have "(x, y) \<in> (prereq (prerequisite_edges demo_graph))\<^sup>+ \<Longrightarrow>
      (x, y) \<in> {(''linux'', ''docker''), (''docker'', ''k8s''), (''linux'', ''k8s'')}" for x y
    unfolding demo_prereq by (induction rule: trancl_induct) auto
  then have ac: "acyclic (prereq (prerequisite_edges demo_graph))" by (force simp: acyclic_def)
  have "\<lparr>ed_from = ''linux'', ed_to = ''docker'', ed_type = REQUIRES\<rparr> \<in> set (prerequisite_edges demo_graph)"
    by (simp add: prerequisite_edges_def demo_graph_def)
  moreover have "(''docker'', ''k8s'') \<in> (prereq (prerequisite_edges demo_graph))\<^sup>*"
    unfolding demo_prereq by auto
  ultimately show ?thesis
    unfolding requires_ancestors_correct [OF ac]
    by (intro bexI [of _ "\<lparr>ed_from = ''linux'', ed_to = ''docker'', ed_type = REQUIRES\<rparr>"]) simp_all
qed

end
