(* ===== verification/Mastery.thy ===== *)
theory Mastery
  imports Bkt SkillGraph
begin

text \<open>
  \<open>skill/mastery.service.ts\<close>: the two transactions that update the learner model, and the
  prerequisite gate. The row locks of \<open>recordEloMatch\<close> make each transaction atomic, which is how
  it is modelled. The invariant \<open>mastery_ok\<close> is the promise of the service's comments:
  \<open>mastery_evidence\<close> explains every mastery value and the two tables never drift apart.
\<close>

section \<open>Model\<close>

record record_evidence_input =
  re_userId :: string
  re_skillId :: string
  re_attemptId :: string
  re_score :: real
  re_weight :: real
  re_passThreshold :: real
  re_difficultyAdjust :: real
  re_wasGenuineAttempt :: bool

definition mastery_key :: "string \<Rightarrow> string \<Rightarrow> skill_mastery_row \<Rightarrow> bool" where
  "mastery_key u k r \<longleftrightarrow> sm_user_id r = u \<and> sm_skill_id r = k"

definition evidence_of :: "string \<Rightarrow> string \<Rightarrow> db \<Rightarrow> mastery_evidence_row list" where
  "evidence_of u k s = filter (\<lambda>r. me_user_id r = u \<and> me_skill_id r = k) (evidence s)"

definition getMastery :: "string \<Rightarrow> string \<Rightarrow> db \<Rightarrow> skill_mastery_row option" where
  "getMastery userId skillId s = find_row (mastery_key userId skillId) (masteries s)"

definition number_or :: "real option \<Rightarrow> real \<Rightarrow> real" where
  "number_or x d = (case x of None \<Rightarrow> d | Some v \<Rightarrow> v)"

definition recordEloMatch :: "string \<Rightarrow> string \<Rightarrow> string \<Rightarrow> real \<Rightarrow> real prog" where
  "recordEloMatch userId skillId activityVersionId outcome = transaction (
     bnd (query (getMastery userId skillId)) (\<lambda>learnerRow.
     let learnerElo = number_or (case learnerRow of None \<Rightarrow> None | Some r \<Rightarrow> sm_elo_rating r) DEFAULT_RATING in
     bnd (bnd (query (\<lambda>s. find_row (\<lambda>v. v_id v = activityVersionId) (versions s))) takeFirstOrThrow) (\<lambda>activityRow.
     let activityElo = number_or (v_difficulty_elo activityRow) DEFAULT_RATING in
     bnd (query (\<lambda>s. length (evidence_of userId skillId s))) (\<lambda>learnerMatchCount.
     bnd (query (\<lambda>s. length (filter (\<lambda>a. a_activity_version_id a = activityVersionId) (attempts s)))) (\<lambda>activityAttemptCount.
     let result = elo_update \<lparr>ei_learnerElo = learnerElo, ei_activityElo = activityElo,
           ei_learnerMatchCount = learnerMatchCount, ei_activityAttemptCount = activityAttemptCount,
           ei_outcome = outcome\<rparr> in
     andthen
       (case learnerRow of
          None \<Rightarrow>
            bnd (bnd (query (\<lambda>s. find_row (\<lambda>k. sk_id k = skillId) (skills s))) takeFirstOrThrow) (\<lambda>skillDefaults.
            modify (\<lambda>s. s\<lparr>masteries := upsert (mastery_key userId skillId)
                (\<lambda>r. r\<lparr>sm_elo_rating := Some (eo_learnerElo result)\<rparr>)
                \<lparr>sm_user_id = userId, sm_skill_id = skillId, sm_p_mastery = sk_bkt_p_init skillDefaults,
                 sm_last_evidence_at = None, sm_evidence_count = 0,
                 sm_elo_rating = Some (eo_learnerElo result), sm_review_due_at = None, sm_band = None\<rparr>
                (masteries s)\<rparr>))
        | Some _ \<Rightarrow>
            modify (\<lambda>s. s\<lparr>masteries := update_where (mastery_key userId skillId)
                (\<lambda>r. r\<lparr>sm_elo_rating := Some (eo_learnerElo result)\<rparr>) (masteries s)\<rparr>))
     (andthen
       (modify (\<lambda>s. s\<lparr>versions := update_where (\<lambda>v. v_id v = activityVersionId)
          (\<lambda>v. v\<lparr>v_difficulty_elo := Some (eo_activityElo result)\<rparr>) (versions s)\<rparr>))
       (ret (eo_difficultyAdjust result))))))))"

definition params_of :: "skill_row \<Rightarrow> bkt_params" where
  "params_of k = \<lparr>pInit = sk_bkt_p_init k, pTransit = sk_bkt_p_transit k,
     pSlip = sk_bkt_p_slip k, pGuess = sk_bkt_p_guess k\<rparr>"

definition prior_of :: "skill_row \<Rightarrow> skill_mastery_row option \<Rightarrow> time \<Rightarrow> real" where
  "prior_of k existing now =
     (case existing of
        None \<Rightarrow> sk_bkt_p_init k
      | Some r \<Rightarrow> decayedMastery (sm_p_mastery r) (sk_bkt_p_init k)
          (case sm_last_evidence_at r of None \<Rightarrow> now | Some t \<Rightarrow> t) (sk_decay_half_life_days k) now)"

definition recordEvidence :: "record_evidence_input \<Rightarrow> time \<Rightarrow> (real \<times> real) prog" where
  "recordEvidence inp now = transaction (
     bnd (bnd (query (\<lambda>s. find_row (\<lambda>k. sk_id k = re_skillId inp) (skills s))) takeFirstOrThrow) (\<lambda>skill.
     bnd (query (getMastery (re_userId inp) (re_skillId inp))) (\<lambda>existing.
     let result = bkt_update \<lparr>bi_priorP = prior_of skill existing now, bi_params = params_of skill,
           bi_score = re_score inp, bi_weight = re_weight inp, bi_passThreshold = re_passThreshold inp,
           bi_difficultyAdjust = re_difficultyAdjust inp,
           bi_wasGenuineAttempt = re_wasGenuineAttempt inp\<rparr>;
         band = bandFor (br_pAfter result);
         reviewDueAt = computeReviewDueAt band now
           (case existing of None \<Rightarrow> None | Some r \<Rightarrow> sm_review_due_at r) in
     andthen
       (modify (\<lambda>s. s\<lparr>masteries := upsert (mastery_key (re_userId inp) (re_skillId inp))
          (\<lambda>r. r\<lparr>sm_p_mastery := br_pAfter result, sm_last_evidence_at := Some now,
             sm_evidence_count := sm_evidence_count r + 1, sm_band := Some band,
             sm_review_due_at := reviewDueAt\<rparr>)
          \<lparr>sm_user_id = re_userId inp, sm_skill_id = re_skillId inp, sm_p_mastery = br_pAfter result,
           sm_last_evidence_at = Some now, sm_evidence_count = 1, sm_elo_rating = None,
           sm_review_due_at = reviewDueAt, sm_band = Some band\<rparr> (masteries s)\<rparr>))
     (andthen
       (modify (\<lambda>s. s\<lparr>evidence := evidence s @ [\<lparr>me_user_id = re_userId inp, me_skill_id = re_skillId inp,
          me_attempt_id = re_attemptId inp, me_delta = br_delta result, me_p_before = br_pBefore result,
          me_p_after = br_pAfter result, me_weight = re_weight inp\<rparr>]\<rparr>))
       (ret (br_pBefore result, br_pAfter result))))))"

definition REQUIRES_GATE_THRESHOLD :: real where "REQUIRES_GATE_THRESHOLD = 55/100"

text \<open>The \<open>Map\<close> built from the rows: a later row for the same skill would win, and there is at most
  one; a missing skill counts as 0.\<close>

definition meetsRequiresGate :: "string \<Rightarrow> string list \<Rightarrow> db \<Rightarrow> bool" where
  "meetsRequiresGate userId ids s =
     (if length ids = 0 then True
      else let rows = filter (\<lambda>r. sm_user_id r = userId \<and> sm_skill_id r \<in> set ids) (masteries s);
               masteryBySkill = map_of (rev (map (\<lambda>r. (sm_skill_id r, sm_p_mastery r)) rows))
           in list_all (\<lambda>i. REQUIRES_GATE_THRESHOLD \<le> number_or (masteryBySkill i) 0) ids)"

section \<open>Invariant\<close>

definition mastery_row_ok :: "db \<Rightarrow> skill_mastery_row \<Rightarrow> bool" where
  "mastery_row_ok s r \<longleftrightarrow>
     (let ev = evidence_of (sm_user_id r) (sm_skill_id r) s in
      sm_evidence_count r = length ev \<and>
      (ev \<noteq> [] \<longrightarrow> sm_p_mastery r = me_p_after (last ev) \<and> sm_band r = Some (bandFor (sm_p_mastery r)) \<and>
        (sm_review_due_at r \<noteq> None \<longleftrightarrow> REQUIRES_GATE_THRESHOLD \<le> sm_p_mastery r)))"

definition evidence_row_ok :: "db \<Rightarrow> mastery_evidence_row \<Rightarrow> bool" where
  "evidence_row_ok s e \<longleftrightarrow> me_delta e = me_p_after e - me_p_before e \<and> 0 < me_p_after e \<and> me_p_after e < 1 \<and>
     getMastery (me_user_id e) (me_skill_id e) s \<noteq> None"

definition mkey :: "skill_mastery_row \<Rightarrow> string \<times> string" where
  "mkey r = (sm_user_id r, sm_skill_id r)"

definition mastery_ok :: "db \<Rightarrow> bool" where
  "mastery_ok s \<longleftrightarrow> distinct (map mkey (masteries s)) \<and>
     (\<forall>r \<in> set (masteries s). mastery_row_ok s r) \<and> (\<forall>e \<in> set (evidence s). evidence_row_ok s e)"

lemma getMastery_None_iff: "getMastery u k s = None \<longleftrightarrow> (u, k) \<notin> set (map mkey (masteries s))"
  by (auto simp: getMastery_def find_row_None_iff mastery_key_def mkey_def)

lemma getMastery_None_all: "getMastery u k s = None \<longleftrightarrow> (\<forall>r \<in> set (masteries s). mkey r \<noteq> (u, k))"
  by (auto simp: getMastery_None_iff image_iff)

lemma mkey_iff: "mastery_key u k r \<longleftrightarrow> mkey r = (u, k)"
  by (auto simp: mastery_key_def mkey_def)

text \<open>What the invariant sees of a row.\<close>

definition mcore :: "skill_mastery_row \<Rightarrow> (string \<times> string) \<times> nat \<times> real \<times> mastery_band option \<times> time option" where
  "mcore r = (mkey r, sm_evidence_count r, sm_p_mastery r, sm_band r, sm_review_due_at r)"

lemma mcore_mkey: "mcore r = mcore r' \<Longrightarrow> mkey r = mkey r'"
  by (simp add: mcore_def)

lemma mastery_row_ok_cong:
  "mcore r' = mcore r \<Longrightarrow> evidence s' = evidence s \<Longrightarrow> mastery_row_ok s' r' = mastery_row_ok s r"
  by (simp add: mastery_row_ok_def mcore_def mkey_def evidence_of_def)

lemma mastery_ok_core:
  assumes "mastery_ok s" and "map mcore (masteries s') = map mcore (masteries s)"
    and "evidence s' = evidence s"
  shows "mastery_ok s'"
proof -
  have "map mkey (masteries s') = map mkey (masteries s)"
  proof -
    have "map mkey rs = map fst (map mcore rs)" for rs by (simp add: mcore_def)
    then show ?thesis using assms(2) by metis
  qed
  moreover have "mastery_row_ok s' r'" if r': "r' \<in> set (masteries s')" for r'
  proof -
    have "mcore r' \<in> set (map mcore (masteries s))" using r' assms(2) by (metis imageI list.set_map)
    then obtain r where "r \<in> set (masteries s)" "mcore r' = mcore r" by auto
    then show ?thesis using assms(1,3) mastery_row_ok_cong [of r' r s' s] by (simp add: mastery_ok_def)
  qed
  ultimately show ?thesis
    using assms(1,3) by (auto simp: mastery_ok_def evidence_row_ok_def getMastery_None_iff simp del: set_map)
qed

lemma no_evidence_without_mastery:
  "mastery_ok s \<Longrightarrow> getMastery u k s = None \<Longrightarrow> evidence_of u k s = []"
  by (auto simp: mastery_ok_def evidence_row_ok_def evidence_of_def filter_empty_conv)

lemma mastery_ok_seed:
  assumes "mastery_ok s" and "getMastery u k s = None"
    and "mkey r = (u, k)" and "sm_evidence_count r = 0"
    and "masteries s' = masteries s @ [r]" and "evidence s' = evidence s"
  shows "mastery_ok s'"
proof -
  have "mastery_row_ok s' r"
    using no_evidence_without_mastery [OF assms(1,2)] assms
    by (simp add: mastery_row_ok_def mkey_def evidence_of_def)
  moreover have "mastery_row_ok s' x" if "x \<in> set (masteries s)" for x
    using that assms(1,6) mastery_row_ok_cong [of x x s' s] by (simp add: mastery_ok_def)
  moreover have "evidence_row_ok s' e" if "e \<in> set (evidence s)" for e
    using that assms by (auto simp: mastery_ok_def evidence_row_ok_def getMastery_None_iff)
  ultimately show ?thesis
    using assms by (auto simp: mastery_ok_def getMastery_None_iff)
qed

text \<open>The row is what the evidence says.\<close>

definition explained :: "mastery_evidence_row \<Rightarrow> skill_mastery_row \<Rightarrow> bool" where
  "explained e r \<longleftrightarrow> sm_p_mastery r = me_p_after e \<and> sm_band r = Some (bandFor (me_p_after e)) \<and>
     (sm_review_due_at r \<noteq> None \<longleftrightarrow> REQUIRES_GATE_THRESHOLD \<le> me_p_after e)"

lemma mastery_row_ok_snoc:
  "evidence_of (sm_user_id r) (sm_skill_id r) s = xs @ [e] \<Longrightarrow> sm_evidence_count r = length xs + 1 \<Longrightarrow>
   explained e r \<Longrightarrow> mastery_row_ok s r"
  by (simp add: mastery_row_ok_def explained_def)

lemma mastery_row_ok_count:
  "mastery_row_ok s r \<Longrightarrow> sm_evidence_count r = length (evidence_of (sm_user_id r) (sm_skill_id r) s)"
  by (simp add: mastery_row_ok_def Let_def)

lemma mastery_ok_evidence:
  assumes ok: "mastery_ok s"
    and ms: "masteries s' = upsert (mastery_key u k) f new (masteries s)"
    and ev: "evidence s' = evidence s @ [e]"
    and e: "me_user_id e = u" "me_skill_id e = k" "me_delta e = me_p_after e - me_p_before e"
      "0 < me_p_after e" "me_p_after e < 1"
    and f: "\<And>r. mkey (f r) = mkey r" "\<And>r. sm_evidence_count (f r) = sm_evidence_count r + 1"
    and new: "mkey new = (u, k)" "sm_evidence_count new = 1"
    and upd: "explained e new" "\<And>r. explained e (f r)"
  shows "mastery_ok s'"
proof -
  have evo: "evidence_of u' k' s' = evidence_of u' k' s @ (if (u', k') = (u, k) then [e] else [])" for u' k'
    using e ev by (simp add: evidence_of_def)
  have row: "mastery_row_ok s' r'" if r': "r' \<in> set (masteries s')" for r'
  proof -
    consider r where "r \<in> set (masteries s)" "mkey r = (u, k)" "r' = f r"
      | "r' = new" "getMastery u k s = None" | "r' \<in> set (masteries s)" "mkey r' \<noteq> (u, k)"
      using r' unfolding ms upsert_def mkey_iff
      by (auto simp: set_update_where list_ex_iff getMastery_None_all split: if_splits)
    then show ?thesis
    proof cases
      case 1
      then have "mastery_row_ok s r" using ok by (simp add: mastery_ok_def)
      then show ?thesis
        using 1 f [of r] upd(2) [of r] mastery_row_ok_count [of s r]
        by (intro mastery_row_ok_snoc [where e = e and xs = "evidence_of u k s"]) (simp_all add: evo mkey_def)
    next
      case 2
      then show ?thesis using new upd(1) no_evidence_without_mastery [OF ok 2(2)]
        by (intro mastery_row_ok_snoc [where e = e and xs = "[]"]) (simp_all add: evo mkey_def)
    next
      case 3
      then have "mastery_row_ok s r'" using ok by (simp add: mastery_ok_def)
      moreover have "evidence_of (sm_user_id r') (sm_skill_id r') s' = evidence_of (sm_user_id r') (sm_skill_id r') s"
        using 3 by (simp add: evo mkey_def)
      ultimately show ?thesis by (simp add: mastery_row_ok_def)
    qed
  qed
  have keys: "map mkey (masteries s') = map mkey (masteries s) @ (if getMastery u k s = None then [(u, k)] else [])"
    using new f unfolding ms upsert_def mkey_iff
    by (auto simp: map_update_where list_ex_iff getMastery_None_all)
  then have dist: "distinct (map mkey (masteries s'))"
    using ok by (auto simp: mastery_ok_def getMastery_None_iff)
  have uk: "(u, k) \<in> set (map mkey (masteries s'))"
    unfolding keys by (auto simp: getMastery_None_iff)
  have "evidence_row_ok s' x" if x: "x \<in> set (evidence s')" for x
  proof (cases "x = e")
    case True
    then show ?thesis using e uk by (simp add: evidence_row_ok_def getMastery_None_iff)
  next
    case False
    then have "evidence_row_ok s x" using x ev ok by (simp add: mastery_ok_def)
    then show ?thesis using keys by (auto simp: evidence_row_ok_def getMastery_None_iff simp del: set_map)
  qed
  then show ?thesis using row dist by (simp add: mastery_ok_def)
qed

section \<open>The transactions\<close>

lemma mastery_ok_recordEvidence [keeps]: "preserves mastery_ok (recordEvidence inp now)"
proof (rule preservesI)
  fix s assume ok: "mastery_ok s"
  let ?u = "re_userId inp" and ?k = "re_skillId inp"
  show "mastery_ok (snd (recordEvidence inp now s))"
  proof (cases "find_row (\<lambda>k. sk_id k = ?k) (skills s)")
    case None
    then show ?thesis using ok by (simp add: recordEvidence_def transaction_def bnd_run)
  next
    case (Some skill)
    define out where "out = bkt_update \<lparr>bi_priorP = prior_of skill (getMastery ?u ?k s) now,
        bi_params = params_of skill, bi_score = re_score inp, bi_weight = re_weight inp,
        bi_passThreshold = re_passThreshold inp, bi_difficultyAdjust = re_difficultyAdjust inp,
        bi_wasGenuineAttempt = re_wasGenuineAttempt inp\<rparr>"
    have out: "br_delta out = br_pAfter out - br_pBefore out" "0 < br_pAfter out" "br_pAfter out < 1"
      unfolding out_def using bkt_delta bkt_prob by auto
    have due: "(computeReviewDueAt (bandFor (br_pAfter out)) now prev \<noteq> None)
        = (REQUIRES_GATE_THRESHOLD \<le> br_pAfter out)" for prev
      unfolding REQUIRES_GATE_THRESHOLD_def by (rule review_due_iff)
    show ?thesis
      unfolding recordEvidence_def transaction_def using Some out
      by (simp add: bnd_run andthen_def Let_def flip: out_def)
        (rule mastery_ok_evidence [OF ok], simp, simp, auto simp: explained_def mkey_def due [unfolded not_None_eq])
  qed
qed

text \<open>What one match does: nothing, or a row whose audit columns are untouched, or a seeded row.\<close>

lemma recordEloMatch_cases:
  obtains "snd (recordEloMatch u k av outc s) = s"
  | x V where "snd (recordEloMatch u k av outc s) =
      s\<lparr>masteries := update_where (mastery_key u k) (\<lambda>r. r\<lparr>sm_elo_rating := x\<rparr>) (masteries s), versions := V\<rparr>"
  | r V where "getMastery u k s = None" "mkey r = (u, k)" "sm_evidence_count r = 0"
      "snd (recordEloMatch u k av outc s) = s\<lparr>masteries := masteries s @ [r], versions := V\<rparr>"
proof -
  have noex: "\<not> list_ex (mastery_key u k) (masteries s)" if "getMastery u k s = None"
    using that by (auto simp: getMastery_None_all mkey_iff list_ex_iff)
  show thesis
  proof (cases "find_row (\<lambda>v. v_id v = av) (versions s)")
    case None
    then show thesis using that(1) by (simp add: recordEloMatch_def transaction_def bnd_run)
  next
    case (Some v)
    show thesis
    proof (cases "getMastery u k s")
      case (Some r)
      then show thesis using that(2) \<open>find_row _ _ = Some v\<close>
        by (simp add: recordEloMatch_def transaction_def bnd_run andthen_def Let_def)
    next
      case None
      show thesis
      proof (cases "find_row (\<lambda>q. sk_id q = k) (skills s)")
        case None
        then show thesis using that(1) \<open>find_row _ (versions s) = Some v\<close> \<open>getMastery u k s = None\<close>
          by (simp add: recordEloMatch_def transaction_def bnd_run andthen_def Let_def)
      next
        case (Some q)
        then obtain x V where "snd (recordEloMatch u k av outc s) = s\<lparr>masteries := masteries s @
            [\<lparr>sm_user_id = u, sm_skill_id = k, sm_p_mastery = sk_bkt_p_init q, sm_last_evidence_at = None,
              sm_evidence_count = 0, sm_elo_rating = x, sm_review_due_at = None, sm_band = None\<rparr>], versions := V\<rparr>"
          using \<open>find_row _ (versions s) = Some v\<close> None noex [OF None]
          by (simp add: recordEloMatch_def transaction_def bnd_run andthen_def Let_def upsert_def)
        then show thesis by (rule that(3) [OF None, rotated 2]) (simp_all add: mkey_def)
      qed
    qed
  qed
qed

lemma mastery_ok_recordEloMatch [keeps]: "preserves mastery_ok (recordEloMatch u k av outc)"
proof (rule preservesI)
  fix s assume ok: "mastery_ok s"
  show "mastery_ok (snd (recordEloMatch u k av outc s))"
  proof (cases rule: recordEloMatch_cases [of u k av outc s])
    case 1
    then show ?thesis using ok by simp
  next
    case (2 x V)
    show ?thesis unfolding 2
      by (rule mastery_ok_core [OF ok]) (auto intro!: map_update_where simp: mcore_def mkey_def)
  next
    case (3 r V)
    then show ?thesis using mastery_ok_seed [OF ok, of u k r] by simp
  qed
qed

lemma mastery_ok_modify [keeps]:
  "(\<And>s. masteries (f s) = masteries s \<and> evidence (f s) = evidence s) \<Longrightarrow> preserves mastery_ok (modify f)"
  by (rule preservesI) (auto intro: mastery_ok_core)

lemma gate_iff:
  assumes "mastery_ok s"
  shows "meetsRequiresGate u ids s \<longleftrightarrow>
    (\<forall>i \<in> set ids. \<exists>r. getMastery u i s = Some r \<and> REQUIRES_GATE_THRESHOLD \<le> sm_p_mastery r)"
proof -
  let ?rows = "filter (\<lambda>r. sm_user_id r = u \<and> sm_skill_id r \<in> set ids) (masteries s)"
  let ?m = "map_of (rev (map (\<lambda>r. (sm_skill_id r, sm_p_mastery r)) ?rows))"
  have lookup: "?m i = map_option sm_p_mastery (getMastery u i s)" if i: "i \<in> set ids" for i
  proof (cases "getMastery u i s")
    case None
    then have "i \<notin> fst ` set (rev (map (\<lambda>r. (sm_skill_id r, sm_p_mastery r)) ?rows))"
      by (auto simp: getMastery_None_all mkey_def)
    then show ?thesis using None by (simp add: map_of_eq_None_iff)
  next
    case (Some r)
    then have r: "r \<in> set ?rows" "sm_skill_id r = i"
      using i by (auto simp: getMastery_def mastery_key_def dest: find_row_SomeD)
    have "distinct (map mkey ?rows)" using assms by (auto simp: mastery_ok_def intro: distinct_map_filter)
    then have "distinct (map sm_skill_id ?rows)"
      by (auto simp: distinct_map inj_on_def mkey_def)
    then have "?m i = Some (sm_p_mastery r)"
      using r by (intro map_of_is_SomeI) (auto simp: comp_def rev_map distinct_map)
    then show ?thesis using Some by simp
  qed
  have zero: "\<not> REQUIRES_GATE_THRESHOLD \<le> 0" by (simp add: REQUIRES_GATE_THRESHOLD_def)
  have "REQUIRES_GATE_THRESHOLD \<le> number_or (?m i) 0 \<longleftrightarrow>
      (\<exists>r. getMastery u i s = Some r \<and> REQUIRES_GATE_THRESHOLD \<le> sm_p_mastery r)" if "i \<in> set ids" for i
    unfolding lookup [OF that] using zero by (auto simp: number_or_def split: option.splits)
  then show ?thesis by (auto simp: meetsRequiresGate_def Let_def list_all_iff)
qed

section \<open>Properties\<close>

datatype mastery_call = EloMatch string string string real | Evidence record_evidence_input time

fun run_call :: "mastery_call \<Rightarrow> db \<Rightarrow> db" where
  "run_call (EloMatch u k av outc) s = snd (recordEloMatch u k av outc s)"
| "run_call (Evidence inp now) s = snd (recordEvidence inp now s)"

lemma mastery_ok_run_call: "mastery_ok s \<Longrightarrow> mastery_ok (run_call c s)"
  using mastery_ok_recordEloMatch mastery_ok_recordEvidence
  by (cases c) (auto simp: preserves_def)


definition demo_skill :: skill_row where
  "demo_skill = \<lparr>sk_id = ''k'', sk_bkt_p_init = 15/100, sk_bkt_p_transit = 25/100,
     sk_bkt_p_slip = 10/100, sk_bkt_p_guess = 8/100, sk_decay_half_life_days = 180, sk_slug = ''s'',
     sk_name = ''S'', sk_domain = ''d'', sk_status = ''active'', sk_domain_order = 1, sk_sequence = 1, sk_course_slug = ''devops-with-ai''\<rparr>"

definition demo_evidence :: record_evidence_input where
  "demo_evidence = \<lparr>re_userId = ''u'', re_skillId = ''k'', re_attemptId = ''a'', re_score = 9/10,
     re_weight = 1, re_passThreshold = 7/10, re_difficultyAdjust = 0, re_wasGenuineAttempt = True\<rparr>"

lemma mastery_ok_initial: "mastery_ok (empty_db\<lparr>skills := ks\<rparr>)"
  by (simp add: mastery_ok_def empty_db_def)


lemma getMastery_recordEvidence_other:
  assumes "re_userId inp \<noteq> u"
  shows "getMastery u k (snd (recordEvidence inp now s)) = getMastery u k s"
proof -
  have "find_row (mastery_key u k) (upsert (mastery_key (re_userId inp) k') (\<lambda>r. r\<lparr>sm_p_mastery := a,
      sm_last_evidence_at := b, sm_evidence_count := sm_evidence_count r + 1, sm_band := c,
      sm_review_due_at := d\<rparr>) new ms) = find_row (mastery_key u k) ms"
    if "sm_user_id new = re_userId inp" for k' a b c d new ms
    using that assms by (intro find_upsert_other) (auto simp: mastery_key_def)
  then show ?thesis
    by (cases "find_row (\<lambda>q. sk_id q = re_skillId inp) (skills s)")
      (simp_all add: recordEvidence_def transaction_def bnd_run andthen_def Let_def getMastery_def)
qed

text \<open>Property. The prerequisite gate and the audit: the gate passes exactly when the learner has a
  mastery row at or above 0.55 for each prerequisite (a skill never practised blocks); an evidence
  update for another learner never changes the outcome.\<close>

theorem requires_gate:
  assumes "mastery_ok s" and "re_userId inp \<noteq> u"
  shows "(meetsRequiresGate u ids s \<longleftrightarrow>
      (\<forall>i \<in> set ids. \<exists>r. getMastery u i s = Some r \<and> 55/100 \<le> sm_p_mastery r))
    \<and> meetsRequiresGate u ids (snd (recordEvidence inp now s)) = meetsRequiresGate u ids s"
proof -
  have "mastery_ok (snd (recordEvidence inp now s))"
    using mastery_ok_recordEvidence assms(1) by (auto simp: preserves_def)
  then show ?thesis
    using gate_iff assms getMastery_recordEvidence_other [OF assms(2)]
    by (simp add: REQUIRES_GATE_THRESHOLD_def)
qed

theorem requires_gate_witness: "\<not> meetsRequiresGate ''v'' [''k''] (empty_db\<lparr>skills := [demo_skill]\<rparr>)"
  using requires_gate [OF mastery_ok_initial, of demo_evidence "''v''" "[''k'']" "[demo_skill]"]
  by (simp add: demo_evidence_def getMastery_def empty_db_def)

end
