(* ===== verification/EventStore.thy ===== *)
theory EventStore
  imports Schema
begin

text \<open>
  The append-only event log, \<open>event-store/event-store.repository.ts\<close>. \<open>append_event\<close> assigns
  \<open>seq = max(seq) + 1\<close> for the attempt inside a transaction that holds an advisory lock keyed on
  the attempt, so it is one atomic step; \<open>replay\<close> and \<open>listSince\<close> read an attempt's events in
  \<open>seq\<close> order. The invariant \<open>log_ok\<close> says that the sequence numbers of an attempt are exactly
  1, 2, ..., n in insertion order.

  The locale \<open>event_log\<close> is the interface the other components rely on, and \<open>event_view\<close> the
  contract of a state folded from it; both are interpreted on the repository's model.
\<close>

section \<open>Model\<close>

definition of_attempt :: "string \<Rightarrow> event_row list \<Rightarrow> event_row list" where
  "of_attempt a = filter (\<lambda>e. e_attempt_id e = a)"

text \<open>\<open>COALESCE((SELECT max(seq) ... WHERE attempt_id = a), 0)\<close>.\<close>

definition max_seq :: "string \<Rightarrow> event_row list \<Rightarrow> nat" where
  "max_seq a es = foldr max (map e_seq (of_attempt a es)) 0"

definition append_event ::
    "string \<Rightarrow> event_actor \<Rightarrow> attempt_event_type \<Rightarrow> json \<Rightarrow> time \<Rightarrow> nat prog" where
  "append_event attemptId actor ty payload occurredAt =
     bnd (query (\<lambda>s. max_seq attemptId (events s) + 1)) (\<lambda>seq.
     andthen (modify (\<lambda>s. s\<lparr>events := events s @
       [\<lparr>e_attempt_id = attemptId, e_seq = seq, e_occurred_at = occurredAt, e_actor = actor,
         e_type = ty, e_payload = payload\<rparr>]\<rparr>))
     (ret seq))"

text \<open>\<open>appendTypedEvent\<close>, for the callers that ignore the sequence number.\<close>

definition appendTypedEvent ::
    "string \<Rightarrow> event_actor \<Rightarrow> attempt_event_type \<Rightarrow> json \<Rightarrow> time \<Rightarrow> unit prog" where
  "appendTypedEvent attemptId actor ty payload occurredAt =
     andthen (append_event attemptId actor ty payload occurredAt) (ret ())"

definition replay :: "string \<Rightarrow> db \<Rightarrow> event_row list" where
  "replay attemptId s = sort_key e_seq (of_attempt attemptId (events s))"

definition listSince :: "string \<Rightarrow> nat \<Rightarrow> db \<Rightarrow> event_row list" where
  "listSince attemptId afterSeq s =
     sort_key e_seq (filter (\<lambda>e. afterSeq < e_seq e) (of_attempt attemptId (events s)))"

text \<open>\<open>AttemptService.eventHasBeenRecorded\<close>.\<close>

definition eventHasBeenRecorded :: "string \<Rightarrow> attempt_event_type \<Rightarrow> db \<Rightarrow> bool" where
  "eventHasBeenRecorded attemptId ty s = list_ex (\<lambda>e. e_type e = ty) (replay attemptId s)"

section \<open>The invariant and the behaviour of one append\<close>

definition log_ok :: "db \<Rightarrow> bool" where
  "log_ok s \<longleftrightarrow> (\<forall>a. map e_seq (of_attempt a (events s)) =
                      [1..<Suc (length (of_attempt a (events s)))])"

definition new_event ::
    "string \<Rightarrow> event_actor \<Rightarrow> attempt_event_type \<Rightarrow> json \<Rightarrow> time \<Rightarrow> db \<Rightarrow> event_row" where
  "new_event a actor ty payload t s =
     \<lparr>e_attempt_id = a, e_seq = max_seq a (events s) + 1, e_occurred_at = t, e_actor = actor,
      e_type = ty, e_payload = payload\<rparr>"

lemma new_event_sel [simp]:
  "e_attempt_id (new_event a actor ty p t s) = a"
  "e_type (new_event a actor ty p t s) = ty"
  "e_payload (new_event a actor ty p t s) = p"
  "e_actor (new_event a actor ty p t s) = actor"
  "e_occurred_at (new_event a actor ty p t s) = t"
  "e_seq (new_event a actor ty p t s) = max_seq a (events s) + 1"
  by (simp_all add: new_event_def)

lemma append_event_run [simp]:
  "append_event a actor ty payload t s =
     (Inr (max_seq a (events s) + 1), s\<lparr>events := events s @ [new_event a actor ty payload t s]\<rparr>)"
  by (simp add: append_event_def new_event_def)

lemma appendTypedEvent_run [simp]:
  "appendTypedEvent a actor ty payload t s =
     (Inr (), s\<lparr>events := events s @ [new_event a actor ty payload t s]\<rparr>)"
  by (simp add: appendTypedEvent_def)

lemma of_attempt_append [simp]:
  "of_attempt a (es @ [e]) = of_attempt a es @ (if e_attempt_id e = a then [e] else [])"
  by (simp add: of_attempt_def)

lemma max_seq_upt: "map e_seq (of_attempt a es) = [1..<Suc n] \<Longrightarrow> max_seq a es = n"
proof -
  have fm: "foldr max xs (b::nat) = Max (insert b (set xs))" for xs b
    by (induction xs) (simp_all add: insert_commute)
  have "Max (insert 0 {1..<Suc n}) = n"
    by (rule Max_eqI) auto
  then show "map e_seq (of_attempt a es) = [1..<Suc n] \<Longrightarrow> max_seq a es = n"
    by (simp add: max_seq_def fm del: upt_Suc)
qed

lemma log_ok_max_seq: "log_ok s \<Longrightarrow> max_seq a (events s) = length (of_attempt a (events s))"
  by (simp add: log_ok_def max_seq_upt)

lemma log_ok_append:
  assumes "log_ok s"
  shows "log_ok (s\<lparr>events := events s @ [new_event a actor ty p t s]\<rparr>)"
  using assms by (auto simp: log_ok_def log_ok_max_seq [OF assms])

lemma log_ok_append_event [keeps]: "preserves log_ok (append_event a actor ty p t)"
  by (rule preservesI) (simp add: log_ok_append)

lemma log_ok_appendTypedEvent [keeps]: "preserves log_ok (appendTypedEvent a actor ty p t)"
  by (rule preservesI) (simp add: log_ok_append)

lemma log_ok_frame: "events s' = events s \<Longrightarrow> log_ok s' = log_ok s"
  by (simp add: log_ok_def)

text \<open>A write to any other table keeps the invariant.\<close>

lemma log_ok_modify [keeps]: "(\<And>s. events (f s) = events s) \<Longrightarrow> preserves log_ok (modify f)"
  by (rule preservesI) (simp add: log_ok_def)

lemma log_ok_replay:
  assumes "log_ok s"
  shows "replay a s = of_attempt a (events s)"
proof -
  have "sorted (map e_seq (of_attempt a (events s)))"
    using assms unfolding log_ok_def by (metis sorted_upt)
  then show ?thesis unfolding replay_def by (rule sort_key_id_if_sorted)
qed

lemma log_ok_seq_nth:
  assumes "log_ok s" and "i < length (replay a s)"
  shows "e_seq (replay a s ! i) = i + 1"
proof -
  from assms have len: "i < length (of_attempt a (events s))" by (simp add: log_ok_replay)
  have "map e_seq (of_attempt a (events s)) ! i = [1..<Suc (length (of_attempt a (events s)))] ! i"
    using assms(1) unfolding log_ok_def by metis
  with len assms(1) show ?thesis by (simp add: log_ok_replay del: upt_Suc)
qed

lemma filter_seq_drop:
  assumes "map e_seq xs = [Suc m..<Suc m + length xs]"
  shows "filter (\<lambda>e. n < e_seq e) xs = drop (n - m) xs"
  using assms
proof (induction xs arbitrary: m)
  case (Cons x xs)
  have "[Suc m..<Suc m + length (x # xs)] = Suc m # [Suc (Suc m)..<Suc (Suc m) + length xs]"
    by (simp add: upt_conv_Cons del: upt_Suc)
  with Cons.prems have x: "e_seq x = Suc m"
    and "map e_seq xs = [Suc (Suc m)..<Suc (Suc m) + length xs]"
    by (simp_all del: upt_Suc)
  then have IH: "filter (\<lambda>e. n < e_seq e) xs = drop (n - Suc m) xs" by (intro Cons.IH)
  show ?case
  proof (cases "n \<le> m")
    case True
    with x IH show ?thesis by simp
  next
    case False
    then have "n - m = Suc (n - Suc m)" by simp
    with x IH False show ?thesis by simp
  qed
qed simp

lemma log_ok_listSince:
  assumes "log_ok s"
  shows "listSince a n s = drop n (replay a s)"
proof -
  let ?es = "of_attempt a (events s)"
  have eq: "map e_seq ?es = [Suc 0..<Suc 0 + length ?es]"
    using assms by (simp add: log_ok_def)
  then have f: "filter (\<lambda>e. n < e_seq e) ?es = drop n ?es"
    using filter_seq_drop [OF eq, of n] by simp
  have "sorted (map e_seq (drop n ?es))"
    using eq by (metis drop_map sorted_wrt_drop sorted_upt)
  with f show ?thesis
    by (simp add: listSince_def log_ok_replay [OF assms] sort_key_id_if_sorted)
qed

section \<open>The interface\<close>

text \<open>
  What a client may assume of an event log: an append adds exactly one event, at the end of the
  log of its attempt, and leaves every other attempt's log alone.
\<close>

locale event_log =
  fixes inv :: "'s \<Rightarrow> bool"
    and add :: "'k \<Rightarrow> 'e \<Rightarrow> 's \<Rightarrow> 's"
    and log :: "'k \<Rightarrow> 's \<Rightarrow> 'e list"
  assumes inv_add: "inv s \<Longrightarrow> inv (add k e s)"
    and log_add: "inv s \<Longrightarrow> log k (add k e s) = log k s @ [e]"
    and log_add_other: "inv s \<Longrightarrow> k' \<noteq> k \<Longrightarrow> log k' (add k e s) = log k' s"
begin

lemma inv_adds: "inv s \<Longrightarrow> inv (fold (add k) es s)"
  by (induction es arbitrary: s) (simp_all add: inv_add)

lemma log_adds: "inv s \<Longrightarrow> log k (fold (add k) es s) = log k s @ es"
  by (induction es arbitrary: s) (simp_all add: inv_add log_add)

lemma log_prefix: "inv s \<Longrightarrow> \<exists>rest. log k' (add k e s) = log k' s @ rest"
  by (cases "k' = k") (simp_all add: log_add log_add_other)

text \<open>Two writers on different attempts commute, as far as any reader can tell.\<close>

lemma log_add_commute:
  "inv s \<Longrightarrow> k1 \<noteq> k2 \<Longrightarrow> log k (add k1 e1 (add k2 e2 s)) = log k (add k2 e2 (add k1 e1 s))"
  by (cases "k = k1"; cases "k = k2") (simp_all add: inv_add log_add log_add_other)

end

text \<open>A view is a state folded from the log; it can be maintained one event at a time.\<close>

locale event_view = event_log inv add log
  for inv :: "'s \<Rightarrow> bool" and add :: "'k \<Rightarrow> 'e \<Rightarrow> 's \<Rightarrow> 's" and log :: "'k \<Rightarrow> 's \<Rightarrow> 'e list" +
  fixes derive :: "'e list \<Rightarrow> 'v" and step :: "'v \<Rightarrow> 'e \<Rightarrow> 'v"
  assumes derive_snoc: "derive (es @ [e]) = step (derive es) e"
begin

lemma view_add: "inv s \<Longrightarrow> derive (log k (add k e s)) = step (derive (log k s)) e"
  by (simp add: log_add derive_snoc)

lemma view_add_other: "inv s \<Longrightarrow> k' \<noteq> k \<Longrightarrow> derive (log k' (add k e s)) = derive (log k' s)"
  by (simp add: log_add_other)

lemma derive_append: "derive (es @ es') = foldl step (derive es) es'"
  by (induction es' rule: rev_induct) (simp_all add: derive_snoc flip: append_assoc)

lemma view_adds:
  "inv s \<Longrightarrow> derive (log k (fold (add k) es s)) = foldl step (derive (log k s)) es"
  by (simp add: log_adds derive_append)

end

text \<open>The content of an event: what the caller passes, without the assigned number.\<close>

type_synonym event_body = "event_actor \<times> attempt_event_type \<times> json \<times> time"

definition body :: "event_row \<Rightarrow> event_body" where
  "body e = (e_actor e, e_type e, e_payload e, e_occurred_at e)"

definition log_add :: "string \<Rightarrow> event_body \<Rightarrow> db \<Rightarrow> db" where
  "log_add a b s = (case b of (actor, ty, p, t) \<Rightarrow> snd (append_event a actor ty p t s))"

definition log_of :: "string \<Rightarrow> db \<Rightarrow> event_body list" where
  "log_of a s = map body (replay a s)"

lemma log_of_append:
  assumes "log_ok s"
  shows "log_of b (s\<lparr>events := events s @ [new_event a actor ty p t s]\<rparr>) =
         log_of b s @ (if a = b then [(actor, ty, p, t)] else [])"
  using assms
  by (simp add: log_of_def log_ok_replay log_ok_append body_def)

interpretation store: event_log log_ok log_add log_of
  by unfold_locales
    (auto simp: log_add_def log_ok_append log_of_append split: prod.splits)

section \<open>Properties\<close>

text \<open>C14. The event log is append-only and gap-free: whatever sequence of events any mix of
  writers appends, starting from a log whose numbers are in order, every attempt's replay returns
  its events in the order they were appended, numbered 1, 2, 3, ..., and the rows already written
  are the unchanged prefix of the table.\<close>

theorem append_only_contiguous:
  assumes "log_ok s"
    and "s' = fold (\<lambda>(a, actor, ty, p, t) s. snd (append_event a actor ty p t s)) writes s"
  shows "log_ok s'
    \<and> (\<exists>new. events s' = events s @ new)
    \<and> log_of b s' = log_of b s @ map snd (filter (\<lambda>w. fst w = b) writes)
    \<and> (\<forall>i < length (replay b s'). e_seq (replay b s' ! i) = i + 1)"
proof -
  have "log_ok s' \<and> (\<exists>new. events s' = events s @ new)
        \<and> log_of b s' = log_of b s @ map snd (filter (\<lambda>w. fst w = b) writes)"
    using assms
  proof (induction writes arbitrary: s)
    case (Cons w ws)
    obtain a actor ty p t where w: "w = (a, actor, ty, p, t)" by (cases w) auto
    let ?s1 = "s\<lparr>events := events s @ [new_event a actor ty p t s]\<rparr>"
    have ok: "log_ok ?s1" using Cons.prems(1) by (rule log_ok_append)
    have "s' = fold (\<lambda>(a, actor, ty, p, t) s. snd (append_event a actor ty p t s)) ws ?s1"
      using Cons.prems(2) w by simp
    from Cons.IH [OF ok this] show ?case
      using w log_of_append [OF Cons.prems(1)] by auto
  qed simp
  then show ?thesis by (simp add: log_ok_seq_nth)
qed

theorem append_only_contiguous_witness:
  "log_ok empty_db \<and>
   log_of ''b'' (fold (\<lambda>(a, actor, ty, p, t) s. snd (append_event a actor ty p t s))
     [(''a'', SYSTEM, EV_ATTEMPT_CREATED, JNull, 1), (''b'', SYSTEM, EV_ENV_READY, JNull, 2)] empty_db)
   = [(SYSTEM, EV_ENV_READY, JNull, 2)]"
proof -
  have ok: "log_ok empty_db" by (simp add: log_ok_def empty_db_def of_attempt_def)
  have "log_of ''b'' empty_db = []" by (simp add: log_of_def replay_def of_attempt_def empty_db_def)
  then show ?thesis
    using ok append_only_contiguous [OF ok refl, where b = "''b''" and
        writes = "[(''a'', SYSTEM, EV_ATTEMPT_CREATED, JNull, 1), (''b'', SYSTEM, EV_ENV_READY, JNull, 2)]"]
    by simp
qed

text \<open>Property. A reader that polls with \<open>listSince\<close> and the last number it has seen misses nothing and
  sees nothing twice: the events it has plus what the poll returns are the whole replay.\<close>

theorem listSince_resumes:
  assumes "log_ok s" and "n \<le> length (replay a s)"
  shows "take n (replay a s) @ listSince a n s = replay a s
    \<and> (\<forall>e \<in> set (listSince a n s). n < e_seq e)"
proof -
  have "\<forall>e \<in> set (listSince a n s). n < e_seq e"
    by (auto simp: listSince_def)
  then show ?thesis using assms by (simp add: log_ok_listSince)
qed

theorem listSince_resumes_witness:
  "listSince ''a'' 1 (snd (append_event ''a'' SYSTEM EV_SUBMITTED JNull 5
      (snd (append_event ''a'' SYSTEM EV_ATTEMPT_CREATED JNull 1 empty_db)))) \<noteq> []"
proof -
  let ?s = "snd (append_event ''a'' SYSTEM EV_SUBMITTED JNull 5
      (snd (append_event ''a'' SYSTEM EV_ATTEMPT_CREATED JNull 1 empty_db)))"
  have e: "log_ok empty_db" by (simp add: log_ok_def empty_db_def of_attempt_def)
  have ok: "log_ok ?s"
    using log_ok_append_event e unfolding preserves_def by blast
  have len: "length (replay ''a'' ?s) = 2"
    unfolding log_ok_replay [OF ok] by (simp add: of_attempt_def empty_db_def)
  from listSince_resumes [OF ok, of 1 "''a''"] len
  have "length (take 1 (replay ''a'' ?s) @ listSince ''a'' 1 ?s) = 2" by simp
  then show ?thesis using len by fastforce
qed

end
