(* ===== verification/AttemptRepository.thy ===== *)
theory AttemptRepository
  imports EventStore
begin

text \<open>
  \<open>attempt/attempt.repository.ts\<close>: the \<open>attempt\<close> table and its optimistic concurrency control.
  \<open>transition\<close> is the single statement \<open>UPDATE ... WHERE id = a AND version = v\<close>; no row
  updated is a \<open>ConflictException\<close>. The invariant \<open>attempts_ok\<close> holds the two uniqueness
  constraints of the table (primary key, idempotency index).

  The locale \<open>versioned\<close> is the contract of a version column: a write either leaves the version and
  the guarded observation alone or increases the version. Its lemma says what the services rely
  on: a writer whose version check succeeds writes over the very value it read, whatever
  happened in between. It is interpreted on every write the services make to an attempt row.
\<close>

section \<open>Model\<close>

record create_attempt_input =
  ci_tenantId :: string
  ci_userId :: string
  ci_activityId :: string
  ci_activityVersionId :: string
  ci_mode :: string
  ci_idempotencyKey :: "string option"
  ci_retryOfAttemptId :: "string option"
  ci_retryIndex :: "nat option"

text \<open>The partial update record; a nullable column that is absent is \<open>None\<close>, set to null
  \<open>Some None\<close>.\<close>

record attempt_updates =
  u_status :: "attempt_status option"
  u_environmentId :: "string option option"
  u_startedAt :: "time option"
  u_submittedAt :: "time option"
  u_completedAt :: "time option"
  u_snapshotId :: "string option option"
  u_snapshotTakenAt :: "time option option"

definition no_updates :: attempt_updates where
  "no_updates = \<lparr>u_status = None, u_environmentId = None, u_startedAt = None, u_submittedAt = None,
     u_completedAt = None, u_snapshotId = None, u_snapshotTakenAt = None\<rparr>"

definition findById :: "string \<Rightarrow> db \<Rightarrow> attempt_row option" where
  "findById i s = find_row (\<lambda>r. a_id r = i) (attempts s)"

definition same_idempotency :: "attempt_row \<Rightarrow> attempt_row \<Rightarrow> bool" where
  "same_idempotency r r' \<longleftrightarrow> a_idempotency_key r \<noteq> None \<and>
     a_user_id r = a_user_id r' \<and> a_activity_version_id r = a_activity_version_id r' \<and>
     a_idempotency_key r = a_idempotency_key r'"

text \<open>\<open>INSERT INTO attempt.attempt\<close> under the primary key and \<open>uq_attempt_idempotency\<close>.\<close>

definition insert_attempt :: "attempt_row \<Rightarrow> attempt_row prog" where
  "insert_attempt r =
     bnd (query (\<lambda>s. list_ex (\<lambda>x. a_id x = a_id r \<or> same_idempotency r x) (attempts s))) (\<lambda>dup.
     if dup then throw (DbErr ''duplicate key'')
     else andthen (modify (\<lambda>s. s\<lparr>attempts := attempts s @ [r]\<rparr>)) (ret r))"

definition new_attempt :: "create_attempt_input \<Rightarrow> string \<Rightarrow> time \<Rightarrow> attempt_row" where
  "new_attempt inp newId now =
     \<lparr>a_id = newId, a_tenant_id = ci_tenantId inp, a_user_id = ci_userId inp,
      a_activity_id = ci_activityId inp, a_activity_version_id = ci_activityVersionId inp,
      a_mode = ci_mode inp, a_status = CREATED,
      a_retry_of_attempt_id = ci_retryOfAttemptId inp,
      a_retry_index = (case ci_retryIndex inp of None \<Rightarrow> 0 | Some i \<Rightarrow> i),
      a_assistance_flags = [], a_environment_id = None,
      a_idempotency_key = ci_idempotencyKey inp, a_created_at = now,
      a_started_at = None, a_submitted_at = None, a_completed_at = None, a_expires_at = None,
      a_last_activity_at = now, a_reset_count = 0, a_hint_penalty_total = 0, a_version = 1,
      a_snapshot_id = None, a_snapshot_taken_at = None, a_active_seconds = 0, a_erased_at = None\<rparr>"

definition create :: "create_attempt_input \<Rightarrow> string \<Rightarrow> time \<Rightarrow> attempt_row prog" where
  "create inp newId now =
     (case ci_idempotencyKey inp of
        None \<Rightarrow> insert_attempt (new_attempt inp newId now)
      | Some key \<Rightarrow>
          bnd (query (\<lambda>s. find_row (\<lambda>r. a_user_id r = ci_userId inp \<and>
                 a_activity_version_id r = ci_activityVersionId inp \<and>
                 a_idempotency_key r = Some key) (attempts s))) (\<lambda>existing.
          case existing of Some r \<Rightarrow> ret r
          | None \<Rightarrow> insert_attempt (new_attempt inp newId now)))"

definition findMostRecentCompletedAttempt :: "string \<Rightarrow> string \<Rightarrow> db \<Rightarrow> attempt_row option" where
  "findMostRecentCompletedAttempt userId activityId s =
     (case sort_key (\<lambda>r. - a_created_at r)
        (filter (\<lambda>r. a_user_id r = userId \<and> a_activity_id r = activityId \<and>
                     a_status r \<in> set RETRYABLE_FROM) (attempts s)) of
        [] \<Rightarrow> None | r # _ \<Rightarrow> Some r)"

definition or_old :: "'a option \<Rightarrow> 'a \<Rightarrow> 'a" where
  "or_old u old = (case u of None \<Rightarrow> old | Some x \<Rightarrow> x)"

definition apply_updates ::
    "attempt_updates \<Rightarrow> nat \<Rightarrow> time \<Rightarrow> attempt_row \<Rightarrow> attempt_row" where
  "apply_updates u expectedVersion now r = r\<lparr>
     a_status := or_old (u_status u) (a_status r),
     a_environment_id := or_old (u_environmentId u) (a_environment_id r),
     a_started_at := (case u_startedAt u of None \<Rightarrow> a_started_at r | t \<Rightarrow> t),
     a_submitted_at := (case u_submittedAt u of None \<Rightarrow> a_submitted_at r | t \<Rightarrow> t),
     a_completed_at := (case u_completedAt u of None \<Rightarrow> a_completed_at r | t \<Rightarrow> t),
     a_snapshot_id := or_old (u_snapshotId u) (a_snapshot_id r),
     a_snapshot_taken_at := or_old (u_snapshotTakenAt u) (a_snapshot_taken_at r),
     a_last_activity_at := now,
     a_version := expectedVersion + 1\<rparr>"

definition transition ::
    "string \<Rightarrow> nat \<Rightarrow> attempt_updates \<Rightarrow> time \<Rightarrow> attempt_row prog" where
  "transition attemptId expectedVersion u now =
     bnd (query (\<lambda>s. find_row (\<lambda>r. a_id r = attemptId \<and> a_version r = expectedVersion) (attempts s)))
     (\<lambda>row. case row of
        None \<Rightarrow> throw (Conflict (''attempt '' @ attemptId @ '' was modified concurrently''))
      | Some r \<Rightarrow>
          andthen (modify (\<lambda>s. s\<lparr>attempts :=
              update_where (\<lambda>r. a_id r = attemptId \<and> a_version r = expectedVersion)
                (apply_updates u expectedVersion now) (attempts s)\<rparr>))
            (ret (apply_updates u expectedVersion now r)))"

definition touch :: "string \<Rightarrow> time \<Rightarrow> unit prog" where
  "touch attemptId now = modify (\<lambda>s. s\<lparr>attempts :=
     update_where (\<lambda>r. a_id r = attemptId) (\<lambda>r. r\<lparr>a_last_activity_at := now\<rparr>) (attempts s)\<rparr>)"

definition LIVE_CACHEABLE_STATUSES :: "attempt_status list" where
  "LIVE_CACHEABLE_STATUSES = [CREATED, PROVISIONING, READY, IN_PROGRESS]"

definition findStaleSuspendedAttempts :: "time \<Rightarrow> db \<Rightarrow> attempt_row list" where
  "findStaleSuspendedAttempts olderThan s =
     filter (\<lambda>r. a_status r = SUSPENDED \<and> a_last_activity_at r < olderThan) (attempts s)"

definition listForUser :: "string \<Rightarrow> attempt_status list option \<Rightarrow> db \<Rightarrow> attempt_row list" where
  "listForUser userId status s =
     (let rows = sort_key (\<lambda>r. - a_created_at r) (filter (\<lambda>r. a_user_id r = userId) (attempts s)) in
      case status of
        None \<Rightarrow> rows
      | Some st \<Rightarrow> if 0 < length st then filter (\<lambda>r. a_status r \<in> set st) rows else rows)"

definition getTaskStates :: "string \<Rightarrow> db \<Rightarrow> task_state_row list" where
  "getTaskStates attemptId s = filter (\<lambda>r. ts_attempt_id r = attemptId) (task_states s)"

section \<open>The table's invariant\<close>

definition idem_of :: "attempt_row \<Rightarrow> string \<times> string \<times> string option" where
  "idem_of r = (a_user_id r, a_activity_version_id r, a_idempotency_key r)"

definition attempts_ok :: "db \<Rightarrow> bool" where
  "attempts_ok s \<longleftrightarrow> distinct (map a_id (attempts s)) \<and>
     distinct (filter (\<lambda>k. snd (snd k) \<noteq> None) (map idem_of (attempts s))) \<and>
     (\<forall>r \<in> set (attempts s). 1 \<le> a_version r)"

lemma apply_updates_sel [simp]:
  "a_id (apply_updates u v now r) = a_id r"
  "a_user_id (apply_updates u v now r) = a_user_id r"
  "a_tenant_id (apply_updates u v now r) = a_tenant_id r"
  "a_activity_id (apply_updates u v now r) = a_activity_id r"
  "a_activity_version_id (apply_updates u v now r) = a_activity_version_id r"
  "a_idempotency_key (apply_updates u v now r) = a_idempotency_key r"
  "a_mode (apply_updates u v now r) = a_mode r"
  "a_retry_index (apply_updates u v now r) = a_retry_index r"
  "a_assistance_flags (apply_updates u v now r) = a_assistance_flags r"
  "a_hint_penalty_total (apply_updates u v now r) = a_hint_penalty_total r"
  "a_reset_count (apply_updates u v now r) = a_reset_count r"
  "a_version (apply_updates u v now r) = v + 1"
  "a_last_activity_at (apply_updates u v now r) = now"
  "a_status (apply_updates u v now r) = or_old (u_status u) (a_status r)"
  "a_environment_id (apply_updates u v now r) = or_old (u_environmentId u) (a_environment_id r)"
  by (simp_all add: apply_updates_def)

lemma apply_updates_times [simp]:
  "a_started_at (apply_updates u v now r) =
     (case u_startedAt u of None \<Rightarrow> a_started_at r | t \<Rightarrow> t)"
  "a_submitted_at (apply_updates u v now r) =
     (case u_submittedAt u of None \<Rightarrow> a_submitted_at r | t \<Rightarrow> t)"
  "a_completed_at (apply_updates u v now r) =
     (case u_completedAt u of None \<Rightarrow> a_completed_at r | t \<Rightarrow> t)"
  by (simp_all add: apply_updates_def)

lemma or_old_simps [simp]: "or_old None x = x" "or_old (Some y) x = y"
  by (simp_all add: or_old_def)

lemma new_attempt_sel [simp]:
  "a_id (new_attempt inp i now) = i"
  "a_status (new_attempt inp i now) = CREATED"
  "a_version (new_attempt inp i now) = 1"
  "a_user_id (new_attempt inp i now) = ci_userId inp"
  "a_tenant_id (new_attempt inp i now) = ci_tenantId inp"
  "a_activity_id (new_attempt inp i now) = ci_activityId inp"
  "a_activity_version_id (new_attempt inp i now) = ci_activityVersionId inp"
  "a_idempotency_key (new_attempt inp i now) = ci_idempotencyKey inp"
  "a_retry_index (new_attempt inp i now) = (case ci_retryIndex inp of None \<Rightarrow> 0 | Some j \<Rightarrow> j)"
  "a_retry_of_attempt_id (new_attempt inp i now) = ci_retryOfAttemptId inp"
  "a_environment_id (new_attempt inp i now) = None"
  "a_assistance_flags (new_attempt inp i now) = []"
  "a_hint_penalty_total (new_attempt inp i now) = 0"
  by (simp_all add: new_attempt_def)

text \<open>An update that keeps the key columns of the rows it touches keeps the invariant.\<close>

definition key_of :: "attempt_row \<Rightarrow> string \<times> string \<times> string \<times> string option" where
  "key_of r = (a_id r, idem_of r)"

lemma attempts_ok_update:
  assumes "attempts_ok s" and "\<And>r. p r \<Longrightarrow> key_of (f r) = key_of r"
    and "\<And>r. p r \<Longrightarrow> 1 \<le> a_version r \<Longrightarrow> 1 \<le> a_version (f r)"
  shows "attempts_ok (s\<lparr>attempts := update_where p f (attempts s)\<rparr>)"
proof -
  have "map a_id (update_where p f xs) = map a_id xs"
    and "map idem_of (update_where p f xs) = map idem_of xs" for xs
    using assms(2) by (auto intro!: map_update_where simp: key_of_def)
  then show ?thesis
    using assms(1,3) by (auto simp: attempts_ok_def set_update_where)
qed

lemma attempts_ok_frame: "attempts s' = attempts s \<Longrightarrow> attempts_ok s \<Longrightarrow> attempts_ok s'"
  by (simp add: attempts_ok_def)

lemma attempts_ok_modify [keeps]:
  "(\<And>s. attempts (f s) = attempts s) \<Longrightarrow> preserves attempts_ok (modify f)"
  by (rule preservesI) (simp add: attempts_ok_def)

lemma attempts_ok_append_event [keeps]: "preserves attempts_ok (append_event a actor ty p t)"
  and attempts_ok_appendTypedEvent [keeps]: "preserves attempts_ok (appendTypedEvent a actor ty p t)"
  by (auto intro!: preservesI simp: attempts_ok_def)

lemma attempts_ok_insert [keeps]:
  assumes "1 \<le> a_version r"
  shows "preserves attempts_ok (insert_attempt r)"
proof (rule preservesI)
  fix s assume ok: "attempts_ok s"
  show "attempts_ok (snd (insert_attempt r s))"
  proof (cases "list_ex (\<lambda>x. a_id x = a_id r \<or> same_idempotency r x) (attempts s)")
    case True
    then show ?thesis using ok by (simp add: insert_attempt_def)
  next
    case False
    then have "a_id r \<notin> a_id ` set (attempts s)"
      and "a_idempotency_key r \<noteq> None \<Longrightarrow> idem_of r \<notin> idem_of ` set (attempts s)"
      by (auto simp: list_ex_iff same_idempotency_def idem_of_def)
    then have "attempts_ok (s\<lparr>attempts := attempts s @ [r]\<rparr>)"
      using ok assms by (auto simp: attempts_ok_def idem_of_def)
    then show ?thesis using False by (simp add: insert_attempt_def)
  qed
qed

lemma attempts_ok_create [keeps]: "preserves attempts_ok (create inp i now)"
  unfolding create_def by (auto intro!: keeps split: option.split)

lemma attempts_ok_transition [keeps]: "preserves attempts_ok (transition a v u now)"
  by (rule preservesI)
    (auto simp: transition_def key_of_def idem_of_def split: option.split intro!: attempts_ok_update)

lemma attempts_ok_touch [keeps]: "preserves attempts_ok (touch a now)"
  by (rule preservesI) (auto simp: touch_def key_of_def idem_of_def intro!: attempts_ok_update)

lemma log_ok_attempt_writes [keeps]:
  "preserves log_ok (insert_attempt r)"
  "preserves log_ok (create inp i now)"
  "preserves log_ok (transition a v u now)"
  "preserves log_ok (touch a now)"
  unfolding insert_attempt_def create_def transition_def touch_def
  by (auto intro!: keeps split: option.split)

section \<open>What the operations do\<close>

lemma findById_SomeD: "findById i s = Some r \<Longrightarrow> a_id r = i \<and> r \<in> set (attempts s)"
  by (auto simp: findById_def dest: find_row_SomeD)

lemma findById_iff:
  "attempts_ok s \<Longrightarrow> findById i s = Some r \<longleftrightarrow> r \<in> set (attempts s) \<and> a_id r = i"
  unfolding attempts_ok_def
  by (metis distinct_find_unique findById_SomeD findById_def)

lemma find_versioned:
  assumes "attempts_ok s"
  shows "find_row (\<lambda>r. a_id r = a \<and> a_version r = v) (attempts s) =
    (case findById a s of None \<Rightarrow> None | Some r \<Rightarrow> if a_version r = v then Some r else None)"
proof (cases "findById a s")
  case None
  then have "find_row (\<lambda>r. a_id r = a \<and> a_version r = v) (attempts s) = None"
    by (simp add: findById_def find_row_None_iff)
  with None show ?thesis by simp
next
  case (Some r)
  have only: "x = r" if "x \<in> set (attempts s)" "a_id x = a" for x
    using that Some findById_iff [OF assms, of a] by (metis option.inject)
  show ?thesis
  proof (cases "a_version r = v")
    case True
    have "find_row (\<lambda>x. a_id x = a \<and> a_version x = v) (attempts s) = find_row (\<lambda>x. a_id x = a) (attempts s)"
      using only True by (intro find_row_cong) auto
    then show ?thesis using Some True by (simp add: findById_def)
  next
    case False
    then have "find_row (\<lambda>x. a_id x = a \<and> a_version x = v) (attempts s) = None"
      using only by (auto simp: find_row_None_iff)
    then show ?thesis using Some False by simp
  qed
qed

text \<open>The database after a successful transition of the row \<open>r\<close>.\<close>

definition transitioned :: "attempt_row \<Rightarrow> attempt_updates \<Rightarrow> time \<Rightarrow> db \<Rightarrow> db" where
  "transitioned r u now s = s\<lparr>attempts :=
     update_where (\<lambda>x. a_id x = a_id r \<and> a_version x = a_version r)
       (apply_updates u (a_version r) now) (attempts s)\<rparr>"

lemma transition_ok:
  assumes "attempts_ok s" and "findById a s = Some r" and "a_version r = v"
  shows "transition a v u now s = (Inr (apply_updates u v now r), transitioned r u now s)"
  using assms find_versioned [OF assms(1), of a v] findById_SomeD [OF assms(2)]
  by (simp add: transition_def transitioned_def)

lemma transition_conflict:
  assumes "attempts_ok s" and "\<forall>r. findById a s = Some r \<longrightarrow> a_version r \<noteq> v"
  shows "transition a v u now s =
    (Inl (Conflict (''attempt '' @ a @ '' was modified concurrently'')), s)"
  using assms find_versioned [OF assms(1), of a v]
  by (auto simp: transition_def split: option.splits)

lemma transitioned_frame [simp]:
  "events (transitioned r u now s) = events s"
  "task_states (transitioned r u now s) = task_states s"
  "versions (transitioned r u now s) = versions s"
  "activity_skills (transitioned r u now s) = activity_skills s"
  "learner_activities (transitioned r u now s) = learner_activities s"
  "milestones (transitioned r u now s) = milestones s"
  by (simp_all add: transitioned_def)

lemma attempts_ok_transitioned: "attempts_ok s \<Longrightarrow> attempts_ok (transitioned r u now s)"
  unfolding transitioned_def by (rule attempts_ok_update) (auto simp: key_of_def idem_of_def)

lemma findById_transitioned:
  assumes "attempts_ok s" and "findById a s = Some r"
  shows "findById b (transitioned r u now s) =
    (if b = a then Some (apply_updates u (a_version r) now r) else findById b s)"
proof (cases "b = a")
  case True
  have "r \<in> set (attempts s)" "a_id r = a" using findById_SomeD [OF assms(2)] by auto
  then have "apply_updates u (a_version r) now r \<in> set (attempts (transitioned r u now s))"
    by (auto simp: transitioned_def set_update_where)
  then show ?thesis
    using True \<open>a_id r = a\<close> findById_iff [OF attempts_ok_transitioned [OF assms(1)]] by simp
next
  case False
  have "a_id r = a" using findById_SomeD [OF assms(2)] by auto
  with False show ?thesis
    unfolding findById_def transitioned_def by (simp, intro find_update_where_other) auto
qed

lemma findById_events [simp]: "findById a (s\<lparr>events := es\<rparr>) = findById a s"
  and attempts_ok_events [simp]: "attempts_ok (s\<lparr>events := es\<rparr>) = attempts_ok s"
  by (simp_all add: findById_def attempts_ok_def)

lemma findById_touch:
  "findById b (snd (touch a now s)) =
     map_option (\<lambda>r. if a_id r = a then r\<lparr>a_last_activity_at := now\<rparr> else r) (findById b s)"
proof -
  have "find_row (\<lambda>r. a_id r = b)
      (update_where (\<lambda>r. a_id r = a) (\<lambda>r. r\<lparr>a_last_activity_at := now\<rparr>) xs) =
      map_option (\<lambda>r. if a_id r = a then r\<lparr>a_last_activity_at := now\<rparr> else r)
        (find_row (\<lambda>r. a_id r = b) xs)" for xs
    by (induction xs) auto
  then show ?thesis by (simp add: touch_def findById_def)
qed

section \<open>The contract of a version column\<close>

locale versioned =
  fixes ver :: "'s \<Rightarrow> nat" and obs :: "'s \<Rightarrow> 'o" and wr :: "'s \<Rightarrow> 's \<Rightarrow> bool"
  assumes write_cases: "wr s t \<Longrightarrow> ver t = ver s \<and> obs t = obs s \<or> ver s < ver t"
begin

lemma ver_mono: "wr\<^sup>*\<^sup>* s t \<Longrightarrow> ver s \<le> ver t"
  by (induction rule: rtranclp_induct) (auto dest: write_cases)

lemma same_version_same_obs: "wr\<^sup>*\<^sup>* s t \<Longrightarrow> ver t = ver s \<Longrightarrow> obs t = obs s"
proof (induction rule: rtranclp_induct)
  case (step t u)
  from ver_mono [OF step.hyps(1)] write_cases [OF step.hyps(2)] step.prems
  have "ver t = ver s" "obs u = obs t" by auto
  with step.IH show ?case by simp
qed simp

end

text \<open>Every write the services make to the attempt table. \<open>w_column\<close> covers the statements that
  update other columns of a row without the version check (the hint penalty, the assistance
  flags, the environment of a project attempt, \<open>touch\<close>); \<open>w_other\<close> every write elsewhere.\<close>

inductive attempt_write :: "db \<Rightarrow> db \<Rightarrow> bool" where
  w_create: "attempts_ok s \<Longrightarrow> create inp i now s = (res, t) \<Longrightarrow> attempt_write s t"
| w_transition: "attempts_ok s \<Longrightarrow> transition a v u now s = (res, t) \<Longrightarrow> attempt_write s t"
| w_column: "attempts_ok s \<Longrightarrow>
     (\<And>r. key_of (f r) = key_of r \<and> a_status (f r) = a_status r \<and> a_version (f r) = a_version r) \<Longrightarrow>
     attempt_write s (s\<lparr>attempts := update_where p f (attempts s)\<rparr>)"
| w_other: "attempts_ok s \<Longrightarrow> attempts t = attempts s \<Longrightarrow> attempt_write s t"

definition version_at :: "string \<Rightarrow> db \<Rightarrow> nat" where
  "version_at a s = (case findById a s of None \<Rightarrow> 0 | Some r \<Rightarrow> a_version r)"

definition status_at :: "string \<Rightarrow> db \<Rightarrow> attempt_status option" where
  "status_at a s = map_option a_status (findById a s)"

lemma attempt_write_ok: "attempt_write s t \<Longrightarrow> attempts_ok t"
proof (induction rule: attempt_write.induct)
  case (w_column s f p)
  then show ?case by (intro attempts_ok_update) auto
qed (auto intro: preservesD [OF attempts_ok_create] preservesD [OF attempts_ok_transition]
    attempts_ok_frame)

lemma insert_attempt_run:
  "insert_attempt r s =
     (if list_ex (\<lambda>x. a_id x = a_id r \<or> same_idempotency r x) (attempts s)
      then (Inl (DbErr ''duplicate key''), s) else (Inr r, s\<lparr>attempts := attempts s @ [r]\<rparr>))"
  by (simp add: insert_attempt_def)

lemma insert_attempt_cases:
  assumes "insert_attempt r s = (res, t)"
  obtains "t = s" | "t = s\<lparr>attempts := attempts s @ [r]\<rparr>" "findById (a_id r) s = None" "res = Inr r"
  using assms
  by (auto simp: insert_attempt_run findById_def find_row_None_iff list_ex_iff split: if_splits)

lemma create_cases:
  assumes "create inp i now s = (res, t)"
  obtains "t = s" | "t = s\<lparr>attempts := attempts s @ [new_attempt inp i now]\<rparr>"
    and "findById i s = None" and "res = Inr (new_attempt inp i now)"
proof -
  have "t = s \<or> insert_attempt (new_attempt inp i now) s = (res, t)"
    using assms by (auto simp: create_def split: option.splits)
  then show thesis using that by (auto elim!: insert_attempt_cases)
qed

lemma attempt_write_versioned:
  assumes "attempt_write s t"
  shows "version_at a t = version_at a s \<and> status_at a t = status_at a s
    \<or> version_at a s < version_at a t"
  using assms
proof (induction rule: attempt_write.induct)
  case (w_create s inp i now res t)
  from w_create.hyps(2) show ?case
  proof (cases rule: create_cases)
    case 2
    then have "findById a t = (case findById a s of None \<Rightarrow>
        if a = i then Some (new_attempt inp i now) else None | Some r \<Rightarrow> Some r)"
      by (auto simp: findById_def find_row_append split: option.split)
    then show ?thesis using 2(2)
      by (auto simp: version_at_def status_at_def split: option.splits if_splits)
  qed simp
next
  case (w_transition s b v u now res t)
  show ?case
  proof (cases "\<exists>r. findById b s = Some r \<and> a_version r = v")
    case True
    then obtain r where r: "findById b s = Some r" "a_version r = v" by auto
    then have t: "t = transitioned r u now s"
      using w_transition transition_ok by fastforce
    show ?thesis using findById_transitioned [OF w_transition.hyps(1) r(1), of a u now] r
      by (cases "a = b") (simp_all add: t version_at_def status_at_def)
  next
    case False
    then have "t = s" using w_transition transition_conflict [OF w_transition.hyps(1)] by fastforce
    then show ?thesis by simp
  qed
next
  case (w_column s f p)
  have "find_row (\<lambda>r. a_id r = a) (update_where p f xs) =
      map_option (\<lambda>r. if p r then f r else r) (find_row (\<lambda>r. a_id r = a) xs)" for xs
    using w_column.hyps(2) by (induction xs) (auto simp: key_of_def idem_of_def)
  then show ?case using w_column.hyps(2)
    by (auto simp: version_at_def status_at_def findById_def split: option.splits)
next
  case (w_other s t)
  then show ?case by (simp add: version_at_def status_at_def findById_def)
qed

interpretation row_version: versioned "version_at a" "status_at a" attempt_write for a
  by unfold_locales (rule attempt_write_versioned)

lemma transition_cases:
  assumes "attempts_ok s"
  shows "(\<exists>r. findById a s = Some r \<and> a_version r = v \<and>
      transition a v u now s = (Inr (apply_updates u v now r), transitioned r u now s) \<and>
      findById a (transitioned r u now s) = Some (apply_updates u v now r) \<and>
      a_version (apply_updates u v now r) = a_version r + 1 \<and>
      (\<forall>b. b \<noteq> a \<longrightarrow> findById b (transitioned r u now s) = findById b s))
    \<or> (version_at a s \<noteq> v \<or> findById a s = None) \<and>
      transition a v u now s =
        (Inl (Conflict (''attempt '' @ a @ '' was modified concurrently'')), s)"
proof (cases "\<exists>r. findById a s = Some r \<and> a_version r = v")
  case True
  then obtain r where "findById a s = Some r" "a_version r = v" by auto
  then show ?thesis using transition_ok [OF assms] findById_transitioned [OF assms] by auto
next
  case False
  then show ?thesis using transition_conflict [OF assms]
    by (auto simp: version_at_def split: option.splits)
qed

section \<open>Properties\<close>

text \<open>Property. Optimistic concurrency: a transition either finds the version it expects, and then
  updates exactly that row, increments its version and returns the updated row, or it finds
  another version (or no row) and throws \<open>ConflictException\<close> without writing anything.\<close>

theorem transition_compare_and_swap:
  assumes "attempts_ok s"
  shows "(\<exists>r. findById a s = Some r \<and> a_version r = v \<and>
      transition a v u now s = (Inr (apply_updates u v now r), transitioned r u now s) \<and>
      findById a (transitioned r u now s) = Some (apply_updates u v now r) \<and>
      a_version (apply_updates u v now r) = a_version r + 1 \<and>
      (\<forall>b. b \<noteq> a \<longrightarrow> findById b (transitioned r u now s) = findById b s))
    \<or> (version_at a s \<noteq> v \<or> findById a s = None) \<and>
      transition a v u now s =
        (Inl (Conflict (''attempt '' @ a @ '' was modified concurrently'')), s)"
  by (rule transition_cases [OF assms])

definition demo_attempt :: attempt_row where
  "demo_attempt = new_attempt \<lparr>ci_tenantId = ''t'', ci_userId = ''u'', ci_activityId = ''act'',
     ci_activityVersionId = ''av'', ci_mode = ''GUIDED_LAB'', ci_idempotencyKey = None,
     ci_retryOfAttemptId = None, ci_retryIndex = None\<rparr> ''a'' 0"

lemma demo_ok: "attempts_ok (empty_db\<lparr>attempts := [demo_attempt]\<rparr>)"
  by (simp add: attempts_ok_def demo_attempt_def same_idempotency_def)

lemma demo_find: "findById ''a'' (empty_db\<lparr>attempts := [demo_attempt]\<rparr>) = Some demo_attempt"
  by (simp add: findById_def demo_attempt_def)

theorem transition_compare_and_swap_witness:
  "attempts_ok (empty_db\<lparr>attempts := [demo_attempt]\<rparr>) \<and>
   transition ''a'' 7 no_updates 5 (empty_db\<lparr>attempts := [demo_attempt]\<rparr>) =
     (Inl (Conflict ''attempt a was modified concurrently''), empty_db\<lparr>attempts := [demo_attempt]\<rparr>)"
proof -
  have "a_version demo_attempt = 1" by (simp add: demo_attempt_def)
  then show ?thesis
    using transition_compare_and_swap [OF demo_ok, where a = "''a''" and v = 7 and u = no_updates and now = 5]
      demo_ok demo_find by auto
qed

text \<open>Property. No lost update: let a service read an attempt, let any number of writes of any of the
  services happen in between (other transitions, hint penalties, touches, creations), and let its
  transition with the version it read succeed. Then the status it writes over is still the status
  it read, and no second transition with that version can succeed afterwards.\<close>

theorem no_lost_update:
  assumes "attempts_ok s" and "findById a s = Some r"
    and "attempt_write\<^sup>*\<^sup>* s t"
    and "transition a (a_version r) u now t = (Inr r', t')"
  shows "(\<exists>cur. findById a t = Some cur \<and> a_status cur = a_status r \<and> a_version cur = a_version r)
    \<and> (\<forall>u2 now2 t2. attempt_write\<^sup>*\<^sup>* t' t2 \<longrightarrow>
        (\<exists>e. transition a (a_version r) u2 now2 t2 = (Inl e, t2)))"
proof -
  have ok_star: "attempts_ok y" if "attempt_write\<^sup>*\<^sup>* x y" "attempts_ok x" for x y
    using that by (rule rtranclp_induct) (rule attempt_write_ok)
  have okt: "attempts_ok t" using assms ok_star by blast
  from assms(4) obtain cur where cur: "findById a t = Some cur" "a_version cur = a_version r"
      and t': "t' = transitioned cur u now t"
    using transition_cases [OF okt, of a "a_version r" u now] by auto
  have "version_at a t = version_at a s" using cur assms(2) by (simp add: version_at_def)
  from row_version.same_version_same_obs [OF assms(3) this]
  have st: "a_status cur = a_status r" using cur assms(2) by (simp add: status_at_def)
  have okt': "attempts_ok t'" using t' attempts_ok_transitioned okt by simp
  have v': "version_at a t' = a_version r + 1"
    using findById_transitioned [OF okt cur(1)] cur t' by (simp add: version_at_def)
  have "\<exists>e. transition a (a_version r) u2 now2 t2 = (Inl e, t2)"
    if w: "attempt_write\<^sup>*\<^sup>* t' t2" for u2 now2 t2
  proof -
    have "version_at a t2 \<noteq> a_version r" using row_version.ver_mono [OF w, of a] v' by simp
    then have "\<forall>x. findById a t2 = Some x \<longrightarrow> a_version x \<noteq> a_version r"
      by (auto simp: version_at_def)
    from transition_conflict [OF ok_star [OF w okt'] this] show ?thesis by blast
  qed
  then show ?thesis using cur st by auto
qed

theorem no_lost_update_witness:
  "\<exists>cur. findById ''a'' (empty_db\<lparr>attempts := [demo_attempt]\<rparr>) = Some cur \<and> a_status cur = CREATED"
proof -
  let ?s = "empty_db\<lparr>attempts := [demo_attempt]\<rparr>"
  have tr: "transition ''a'' (a_version demo_attempt) no_updates 5 ?s =
    (Inr (apply_updates no_updates (a_version demo_attempt) 5 demo_attempt),
     transitioned demo_attempt no_updates 5 ?s)"
    by (rule transition_ok [OF demo_ok demo_find refl])
  have "a_status demo_attempt = CREATED" by (simp add: demo_attempt_def)
  then show ?thesis
    using no_lost_update [OF demo_ok demo_find rtranclp.rtrancl_refl tr] by auto
qed

text \<open>Property. Attempt creation is idempotent: after a call with an idempotency key returned a row, a
  repeated call with the same key returns that same row and writes nothing, even after arbitrary
  status transitions, as long as the row keeps its key columns.\<close>

theorem create_idempotent:
  assumes "attempts_ok s" and "ci_idempotencyKey inp = Some k"
    and "create inp i now s = (Inr r, s')"
    and "ci_userId inp' = ci_userId inp" and "ci_activityVersionId inp' = ci_activityVersionId inp"
    and "ci_idempotencyKey inp' = Some k"
  shows "create inp' i' now' s' = (Inr r, s')"
proof -
  let ?p = "\<lambda>x. a_user_id x = ci_userId inp \<and> a_activity_version_id x = ci_activityVersionId inp \<and>
    a_idempotency_key x = Some k"
  have "find_row ?p (attempts s') = Some r"
  proof (cases "find_row ?p (attempts s)")
    case (Some x)
    with assms(2,3) show ?thesis by (auto simp: create_def)
  next
    case None
    with assms(2,3) have "insert_attempt (new_attempt inp i now) s = (Inr r, s')"
      by (simp add: create_def)
    then have "r = new_attempt inp i now" "attempts s' = attempts s @ [r]"
      by (auto simp: insert_attempt_def split: if_splits)
    with None assms(2) show ?thesis by (simp add: find_row_append)
  qed
  then show ?thesis using assms(4-6) by (simp add: create_def)
qed

theorem create_idempotent_witness:
  "\<exists>r s'. create \<lparr>ci_tenantId = ''t'', ci_userId = ''u'', ci_activityId = ''act'',
      ci_activityVersionId = ''av'', ci_mode = ''GUIDED_LAB'', ci_idempotencyKey = Some ''k'',
      ci_retryOfAttemptId = None, ci_retryIndex = None\<rparr> ''x'' 9 s' = (Inr r, s')"
proof -
  let ?inp = "\<lparr>ci_tenantId = ''t'', ci_userId = ''u'', ci_activityId = ''act'',
      ci_activityVersionId = ''av'', ci_mode = ''GUIDED_LAB'', ci_idempotencyKey = Some ''k'',
      ci_retryOfAttemptId = None, ci_retryIndex = None\<rparr>"
  have ok: "attempts_ok empty_db" by (simp add: attempts_ok_def empty_db_def)
  have c: "create ?inp ''i'' 0 empty_db = (Inr (new_attempt ?inp ''i'' 0),
      empty_db\<lparr>attempts := [new_attempt ?inp ''i'' 0]\<rparr>)"
    by (simp add: create_def insert_attempt_def empty_db_def andthen_def bnd_run)
  have "create ?inp ''x'' 9 (empty_db\<lparr>attempts := [new_attempt ?inp ''i'' 0]\<rparr>) =
      (Inr (new_attempt ?inp ''i'' 0), empty_db\<lparr>attempts := [new_attempt ?inp ''i'' 0]\<rparr>)"
    by (rule create_idempotent [OF ok _ c]) simp_all
  then show ?thesis by blast
qed

end
