(* ===== verification/Eligibility.thy ===== *)
theory Eligibility
  imports Mastery AttemptRepository
begin

text \<open>
  \<open>attempt/eligibility.service.ts\<close> and the ownership decision of \<open>attempt/attempt-ownership.ts\<close>
  with its guard. The check reads and never writes; it collects every reason it finds instead of
  stopping at the first. Whether the quota is disabled is the configuration value
  \<open>DISABLE_LAB_QUOTA\<close>, an argument.
\<close>

section \<open>Model\<close>

record eligibility_result =
  el_eligible :: bool
  el_reasons :: "attempt_error_reason list"

definition MAX_CONCURRENT_ENVIRONMENTS_PER_LEARNER :: nat where
  "MAX_CONCURRENT_ENVIRONMENTS_PER_LEARNER = 1"

definition QUOTA_STATUSES :: "attempt_status list" where
  "QUOTA_STATUSES = [PROVISIONING, READY, IN_PROGRESS, SUBMITTED, EVALUATING]"

definition active_count :: "string \<Rightarrow> db \<Rightarrow> nat" where
  "active_count userId s = length (filter (\<lambda>a. a_user_id a = userId \<and> a_status a \<in> set QUOTA_STATUSES) (attempts s))"

definition reason :: "attempt_error_code \<Rightarrow> string \<Rightarrow> attempt_error_reason" where
  "reason c m = \<lparr>er_code = c, er_message = m\<rparr>"

definition prerequisite_reasons :: "string \<Rightarrow> string \<Rightarrow> db \<Rightarrow> attempt_error_reason list" where
  "prerequisite_reasons userId activityVersionId s =
     concat (map (\<lambda>ask.
       if meetsRequiresGate userId (getRequiresAncestors (ask_skill_id ask) s) s then []
       else [reason PREREQUISITE_NOT_MET (''prerequisite mastery gate not met for skill '' @ ask_skill_id ask)])
       (filter (\<lambda>ask. ask_activity_version_id ask = activityVersionId \<and> ask_is_primary ask) (activity_skills s)))"

definition cooldown_reasons :: "string \<Rightarrow> string \<Rightarrow> time \<Rightarrow> db \<Rightarrow> attempt_error_reason list" where
  "cooldown_reasons userId activityId now s =
     (case find_row (\<lambda>r. la_user_id r = userId \<and> la_activity_id r = activityId) (learner_activities s) of
        None \<Rightarrow> []
      | Some r \<Rightarrow> (case la_cooldown_until r of
          None \<Rightarrow> []
        | Some t \<Rightarrow> if t > now then [reason COOLDOWN_ACTIVE ''retry cooldown active''] else []))"

definition check :: "bool \<Rightarrow> string \<Rightarrow> string \<Rightarrow> time \<Rightarrow> db \<Rightarrow> eligibility_result" where
  "check quotaDisabled userId activityVersionId now s =
     (case find_row (\<lambda>v. v_id v = activityVersionId) (versions s) of
        None \<Rightarrow> \<lparr>el_eligible = False, el_reasons = [reason ACTIVITY_NOT_PUBLISHED ''activity version not found'']\<rparr>
      | Some version \<Rightarrow>
          let reasons =
            (if v_status version \<noteq> V_PUBLISHED \<and> v_status version \<noteq> V_CANARY
             then [reason ACTIVITY_NOT_PUBLISHED (''activity version is '' @ version_status_str (v_status version) @ '', not PUBLISHED'')] else []) @
            prerequisite_reasons userId activityVersionId s @
            cooldown_reasons userId (v_activity_id version) now s @
            (if \<not> quotaDisabled \<and> active_count userId s \<ge> MAX_CONCURRENT_ENVIRONMENTS_PER_LEARNER
             then [reason CONCURRENT_QUOTA_EXCEEDED ''concurrent-environment quota exceeded (1 active environment per learner)''] else [])
          in \<lparr>el_eligible = (length reasons = 0), el_reasons = reasons\<rparr>)"

record caller_claims =
  cc_userId :: string
  cc_tenantId :: string

definition isOwnedByCaller :: "attempt_row option \<Rightarrow> caller_claims option \<Rightarrow> bool" where
  "isOwnedByCaller attempt caller = (case (attempt, caller) of
     (Some a, Some c) \<Rightarrow> a_user_id a = cc_userId c \<and> a_tenant_id a = cc_tenantId c
   | _ \<Rightarrow> False)"

text \<open>\<open>AttemptOwnershipGuard.canActivate\<close>; \<open>None\<close> is a route parameter that is not a single string.\<close>

definition canActivate :: "string option \<Rightarrow> caller_claims option \<Rightarrow> bool prog" where
  "canActivate attemptId auth = (case attemptId of
     None \<Rightarrow> throw (Forbidden ''attempt does not belong to caller'')
   | Some i \<Rightarrow> bnd (query (findById i)) (\<lambda>attempt.
       if isOwnedByCaller attempt auth then ret True
       else throw (Forbidden ''attempt does not belong to caller'')))"

section \<open>Properties\<close>

lemma prerequisite_reasons_Nil:
  assumes "mastery_ok s"
  shows "prerequisite_reasons u av s = [] \<longleftrightarrow>
      (\<forall>ask \<in> set (activity_skills s). ask_activity_version_id ask = av \<and> ask_is_primary ask \<longrightarrow>
        (\<forall>k \<in> set (getRequiresAncestors (ask_skill_id ask) s).
           \<exists>m. getMastery u k s = Some m \<and> REQUIRES_GATE_THRESHOLD \<le> sm_p_mastery m))"
proof -
  have "prerequisite_reasons u av s = [] \<longleftrightarrow>
      (\<forall>ask \<in> set (activity_skills s). ask_activity_version_id ask = av \<and> ask_is_primary ask \<longrightarrow>
        meetsRequiresGate u (getRequiresAncestors (ask_skill_id ask) s) s)"
    by (auto simp: prerequisite_reasons_def)
  then show ?thesis by (simp only: gate_iff [OF assms])
qed

lemma cooldown_reasons_Nil:
  "cooldown_reasons u act now s = [] \<longleftrightarrow>
      (\<forall>r t. find_row (\<lambda>r. la_user_id r = u \<and> la_activity_id r = act) (learner_activities s) = Some r
              \<and> la_cooldown_until r = Some t \<longrightarrow> t \<le> now)"
  by (auto simp: cooldown_reasons_def split: option.splits)

lemma quota_free:
  "\<not> active_count u s \<ge> MAX_CONCURRENT_ENVIRONMENTS_PER_LEARNER \<longleftrightarrow>
      (\<forall>a \<in> set (attempts s). a_user_id a = u \<longrightarrow> a_status a \<notin> set QUOTA_STATUSES)"
  by (auto simp: active_count_def MAX_CONCURRENT_ENVIRONMENTS_PER_LEARNER_def not_le filter_empty_conv)

lemma check_iff:
  "el_eligible (check off u av now s) \<longleftrightarrow>
     (\<exists>v. find_row (\<lambda>v. v_id v = av) (versions s) = Some v \<and> v_status v \<in> {V_PUBLISHED, V_CANARY} \<and>
        prerequisite_reasons u av s = [] \<and> cooldown_reasons u (v_activity_id v) now s = [] \<and>
        (off \<or> \<not> active_count u s \<ge> MAX_CONCURRENT_ENVIRONMENTS_PER_LEARNER))"
  "el_eligible (check off u av now s) \<longleftrightarrow> el_reasons (check off u av now s) = []"
  by (auto simp: check_def Let_def split: option.splits)

text \<open>Property. Eligibility decides exactly the documented conditions: a learner may start an activity
  version if and only if it exists and is PUBLISHED or CANARY, every REQUIRES-type ancestor of each
  of its primary skills is mastered at 0.55 or more, no cooldown of the activity lies in the
  future, and (unless the quota is switched off) the learner holds no active environment; and a
  rejection always carries at least one reason.\<close>

theorem eligibility_exact:
  assumes "mastery_ok s"
  shows "(el_eligible (check off u av now s) \<longleftrightarrow>
      (\<exists>v. find_row (\<lambda>v. v_id v = av) (versions s) = Some v \<and> v_status v \<in> {V_PUBLISHED, V_CANARY}
        \<and> (\<forall>ask \<in> set (activity_skills s). ask_activity_version_id ask = av \<and> ask_is_primary ask \<longrightarrow>
            (\<forall>k \<in> set (getRequiresAncestors (ask_skill_id ask) s).
               \<exists>m. getMastery u k s = Some m \<and> REQUIRES_GATE_THRESHOLD \<le> sm_p_mastery m))
        \<and> (\<forall>r t. find_row (\<lambda>r. la_user_id r = u \<and> la_activity_id r = v_activity_id v) (learner_activities s) = Some r
              \<and> la_cooldown_until r = Some t \<longrightarrow> t \<le> now)
        \<and> (off \<or> (\<forall>a \<in> set (attempts s). a_user_id a = u \<longrightarrow> a_status a \<notin> set QUOTA_STATUSES))))
    \<and> (el_eligible (check off u av now s) \<longleftrightarrow> el_reasons (check off u av now s) = [])"
  unfolding prerequisite_reasons_Nil [OF assms, symmetric] cooldown_reasons_Nil [symmetric] quota_free [symmetric]
  using check_iff by blast

theorem eligibility_exact_witness:
  "\<not> el_eligible (check False ''u'' ''av'' 0 empty_db) \<and> el_reasons (check False ''u'' ''av'' 0 empty_db) \<noteq> []"
proof -
  have ok: "mastery_ok empty_db" by (simp add: mastery_ok_def empty_db_def)
  have "versions empty_db = []" by (simp add: empty_db_def)
  then show ?thesis using eligibility_exact [OF ok, of False "''u''" "''av''" 0] by auto
qed

text \<open>Property. An attempt route opens for its owner only: the guard lets a request through exactly when
  the attempt exists and both its user and its tenant are the caller's; in every other case, a
  missing attempt or somebody else's, it throws the same exception and nothing is written.\<close>

theorem ownership_guard:
  "canActivate i auth s =
     (if \<exists>k a c. i = Some k \<and> findById k s = Some a \<and> auth = Some c \<and>
           a_user_id a = cc_userId c \<and> a_tenant_id a = cc_tenantId c
      then (Inr True, s) else (Inl (Forbidden ''attempt does not belong to caller''), s))"
  by (auto simp: canActivate_def isOwnedByCaller_def bnd_run split: option.splits)

end
