(* ===== verification/Replay.thy ===== *)
theory Replay
  imports EventStore
begin

text \<open>
  \<open>event-store/replay.service.ts\<close>: the per-task state is folded from the event log
  (\<open>deriveTaskState\<close>) and written back over \<open>attempt_task_state\<close> (\<open>rebuildForAttempt\<close>, a
  transaction that deletes the attempt's rows and inserts the derived ones). The derived state is
  the source's \<open>Map\<close>, an association list in insertion order; a payload without a string
  \<open>task\<close> is keyed by \<open>undefined\<close> (\<open>None\<close>), and inserting such a row violates \<open>NOT NULL\<close>.
\<close>

section \<open>Model\<close>

record derived_task =
  d_status :: task_status
  d_firstPassAt :: "time option"
  d_attemptsCount :: nat
  d_hintsUsedMaxLevel :: nat
  d_skipped :: bool
  d_assisted :: bool

type_synonym task_map = "(string option \<times> derived_task) list"

definition task_of :: "json \<Rightarrow> string option" where
  "task_of p = (case jget p ''task'' of Some (JStr t) \<Rightarrow> Some t | _ \<Rightarrow> None)"

definition level_of :: "json \<Rightarrow> nat" where
  "level_of p = (case jget p ''level'' of Some (JNum n) \<Rightarrow> nat \<lfloor>n\<rfloor> | _ \<Rightarrow> 0)"

definition fresh_task :: derived_task where
  "fresh_task = \<lparr>d_status = T_PENDING, d_firstPassAt = None, d_attemptsCount = 0,
     d_hintsUsedMaxLevel = 0, d_skipped = False, d_assisted = False\<rparr>"

text \<open>\<open>ensure(task)\<close>: the entry, created if it is not there yet.\<close>

definition ensure :: "string option \<Rightarrow> task_map \<Rightarrow> derived_task" where
  "ensure k m = (case map_of m k of None \<Rightarrow> fresh_task | Some d \<Rightarrow> d)"

fun apply_task_event :: "attempt_event_type \<Rightarrow> json \<Rightarrow> time \<Rightarrow> derived_task \<Rightarrow> derived_task" where
  "apply_task_event EV_TASK_PASSED p t d =
     (let d = d\<lparr>d_attemptsCount := d_attemptsCount d + 1\<rparr> in
      if d_status d \<noteq> T_PASSED then d\<lparr>d_status := T_PASSED, d_firstPassAt := Some t\<rparr> else d)"
| "apply_task_event EV_TASK_FAILED p t d =
     (let d = d\<lparr>d_attemptsCount := d_attemptsCount d + 1\<rparr> in
      if d_status d \<noteq> T_PASSED then d\<lparr>d_status := T_FAILED\<rparr> else d)"
| "apply_task_event EV_TASK_SKIPPED p t d =
     d\<lparr>d_status := T_SKIPPED, d_skipped := True, d_assisted := True\<rparr>"
| "apply_task_event EV_HINT_REQUESTED p t d =
     d\<lparr>d_hintsUsedMaxLevel := max (d_hintsUsedMaxLevel d) (level_of p)\<rparr>"
| "apply_task_event ty p t d = d"

definition task_event_types :: "attempt_event_type list" where
  "task_event_types = [EV_TASK_PASSED, EV_TASK_FAILED, EV_TASK_SKIPPED, EV_HINT_REQUESTED]"

definition derive_step :: "task_map \<Rightarrow> event_body \<Rightarrow> task_map" where
  "derive_step m b = (case b of (actor, ty, p, t) \<Rightarrow>
     if ty \<in> set task_event_types
     then amap_set (task_of p) (apply_task_event ty p t (ensure (task_of p) m)) m
     else m)"

definition deriveTaskState :: "event_body list \<Rightarrow> task_map" where
  "deriveTaskState es = foldl derive_step [] es"

definition task_row :: "string \<Rightarrow> string \<Rightarrow> derived_task \<Rightarrow> task_state_row" where
  "task_row a k d = \<lparr>ts_attempt_id = a, ts_task_key = k, ts_status = d_status d,
     ts_first_pass_at = d_firstPassAt d, ts_attempts_count = d_attemptsCount d,
     ts_hints_used_max_level = d_hintsUsedMaxLevel d, ts_skipped = d_skipped d,
     ts_assisted = d_assisted d\<rparr>"

text \<open>\<open>INSERT\<close>: \<open>task_key\<close> is \<open>NOT NULL\<close> and \<open>(attempt_id, task_key)\<close> the primary key.\<close>

definition insert_task_state :: "string \<Rightarrow> string option \<times> derived_task \<Rightarrow> unit prog" where
  "insert_task_state a kd = (case fst kd of
     None \<Rightarrow> throw (DbErr ''null value in column task_key'')
   | Some k \<Rightarrow> bnd (query (\<lambda>s. list_ex (\<lambda>r. ts_attempt_id r = a \<and> ts_task_key r = k) (task_states s)))
       (\<lambda>dup. if dup then throw (DbErr ''duplicate key'')
              else modify (\<lambda>s. s\<lparr>task_states := task_states s @ [task_row a k (snd kd)]\<rparr>)))"

definition rebuildForAttempt :: "string \<Rightarrow> nat prog" where
  "rebuildForAttempt attemptId =
     bnd (query (replay attemptId)) (\<lambda>es.
     let derived = deriveTaskState (map body es) in
     andthen (transaction (
       andthen (modify (\<lambda>s. s\<lparr>task_states := filter (\<lambda>r. ts_attempt_id r \<noteq> attemptId) (task_states s)\<rparr>))
               (for_each derived (insert_task_state attemptId))))
     (ret (length derived)))"

section \<open>The fold\<close>

lemma deriveTaskState_snoc: "deriveTaskState (es @ [e]) = derive_step (deriveTaskState es) e"
  by (simp add: deriveTaskState_def)

interpretation tasks: event_view log_ok log_add log_of deriveTaskState derive_step
  by unfold_locales (rule deriveTaskState_snoc)

lemma derive_step_distinct: "distinct (map fst m) \<Longrightarrow> distinct (map fst (derive_step m b))"
  by (cases b) (simp add: derive_step_def distinct_amap_set)

lemma deriveTaskState_distinct: "distinct (map fst (deriveTaskState es))"
  by (induction es rule: rev_induct)
    (simp_all add: deriveTaskState_snoc derive_step_distinct, simp add: deriveTaskState_def)

text \<open>The events that touch one task, and the state they give it.\<close>

definition events_of_task :: "string option \<Rightarrow> event_body list \<Rightarrow> event_body list" where
  "events_of_task k = filter (\<lambda>(actor, ty, p, t). ty \<in> set task_event_types \<and> task_of p = k)"

definition task_view :: "string option \<Rightarrow> event_body list \<Rightarrow> derived_task" where
  "task_view k es = foldl (\<lambda>d (actor, ty, p, t). apply_task_event ty p t d) fresh_task
     (events_of_task k es)"

text \<open>The map is the per-task fold: tasks do not influence each other.\<close>

lemma deriveTaskState_lookup:
  "map_of (deriveTaskState es) k =
     (if events_of_task k es = [] then None else Some (task_view k es))"
proof (induction es rule: rev_induct)
  case Nil
  then show ?case by (simp add: deriveTaskState_def events_of_task_def)
next
  case (snoc e es)
  obtain actor ty p t where e: "e = (actor, ty, p, t)" by (cases e) auto
  show ?case
  proof (cases "ty \<in> set task_event_types \<and> task_of p = k")
    case True
    have "ensure k (deriveTaskState es) = task_view k es"
      using snoc.IH by (auto simp: ensure_def task_view_def)
    then show ?thesis using True e
      by (simp add: deriveTaskState_snoc derive_step_def events_of_task_def task_view_def)
  next
    case False
    then have "map_of (derive_step (deriveTaskState es) e) k = map_of (deriveTaskState es) k"
      using e by (auto simp: derive_step_def)
    then show ?thesis using False e snoc.IH
      by (auto simp: deriveTaskState_snoc events_of_task_def task_view_def)
  qed
qed

lemma task_view_snoc:
  "task_view k (es @ [(actor, ty, p, t)]) =
     (if ty \<in> set task_event_types \<and> task_of p = k
      then apply_task_event ty p t (task_view k es) else task_view k es)"
  by (simp add: task_view_def events_of_task_def)

lemma task_view_Nil [simp]: "task_view k [] = fresh_task"
  by (simp add: task_view_def events_of_task_def)

text \<open>A pass stays a pass until the task is skipped.\<close>

lemma passed_stays:
  assumes "d_status (task_view k es) = T_PASSED"
    and "\<forall>(actor, ty, p, t) \<in> set later. ty = EV_TASK_SKIPPED \<longrightarrow> task_of p \<noteq> k"
  shows "d_status (task_view k (es @ later)) = T_PASSED
    \<and> d_firstPassAt (task_view k (es @ later)) = d_firstPassAt (task_view k es)"
  using assms(2)
proof (induction later rule: rev_induct)
  case Nil
  then show ?case using assms(1) by simp
next
  case (snoc e later)
  obtain actor ty p t where e: "e = (actor, ty, p, t)" by (cases e) auto
  from snoc have IH: "d_status (task_view k (es @ later)) = T_PASSED"
      "d_firstPassAt (task_view k (es @ later)) = d_firstPassAt (task_view k es)" by auto
  have ns: "ty = EV_TASK_SKIPPED \<longrightarrow> task_of p \<noteq> k" using snoc.prems e by simp
  have "task_view k (es @ later @ [e]) = (if ty \<in> set task_event_types \<and> task_of p = k
      then apply_task_event ty p t (task_view k (es @ later)) else task_view k (es @ later))"
    using task_view_snoc [of k "es @ later"] e by simp
  then show ?case using IH ns by (cases ty) (auto simp: Let_def)
qed

section \<open>Rebuilding\<close>

lemma insert_task_states_run:
  assumes "distinct (map fst d)" and "\<And>k x. (k, x) \<in> set d \<Longrightarrow> k \<noteq> None"
    and "\<And>k r. Some k \<in> fst ` set d \<Longrightarrow> r \<in> set (task_states s) \<Longrightarrow>
           \<not> (ts_attempt_id r = a \<and> ts_task_key r = k)"
  shows "for_each d (insert_task_state a) s =
    (Inr (), s\<lparr>task_states := task_states s @ map (\<lambda>(k, x). task_row a (the k) x) d\<rparr>)"
  using assms
proof (induction d arbitrary: s)
  case Nil
  then show ?case by simp
next
  case (Cons kx d)
  obtain k x where kx: "kx = (Some k, x)" using Cons.prems(2) by (cases kx) auto
  let ?s1 = "s\<lparr>task_states := task_states s @ [task_row a k x]\<rparr>"
  have "\<not> list_ex (\<lambda>r. ts_attempt_id r = a \<and> ts_task_key r = k) (task_states s)"
    using Cons.prems(3) [of k] kx by (auto simp: list_ex_iff)
  then have step: "insert_task_state a kx s = (Inr (), ?s1)"
    by (simp add: insert_task_state_def kx)
  have "for_each d (insert_task_state a) ?s1 =
    (Inr (), ?s1\<lparr>task_states := task_states ?s1 @ map (\<lambda>(k, x). task_row a (the k) x) d\<rparr>)"
  proof (rule Cons.IH)
    show "distinct (map fst d)" using Cons.prems(1) by simp
    show "k' \<noteq> None" if "(k', y) \<in> set d" for k' y using Cons.prems(2) [of k' y] that by simp
    show "\<not> (ts_attempt_id r = a \<and> ts_task_key r = k')"
      if "Some k' \<in> fst ` set d" "r \<in> set (task_states ?s1)" for k' r
    proof (cases "r \<in> set (task_states s)")
      case True
      with that(1) kx show ?thesis using Cons.prems(3) [of k' r] by auto
    next
      case False
      with that(2) have "ts_task_key r = k" by (auto simp: task_row_def)
      moreover have "k \<noteq> k'" using that(1) Cons.prems(1) kx by auto
      ultimately show ?thesis by simp
    qed
  qed
  then show ?case using step kx by simp
qed

text \<open>What a rebuild writes: the attempt's rows are exactly the derived ones.\<close>

definition rebuilt :: "string \<Rightarrow> db \<Rightarrow> db" where
  "rebuilt a s = s\<lparr>task_states := filter (\<lambda>r. ts_attempt_id r \<noteq> a) (task_states s) @
     map (\<lambda>(k, x). task_row a (the k) x) (deriveTaskState (log_of a s))\<rparr>"

text \<open>Every task event of the attempt names its task.\<close>

definition named_tasks :: "string \<Rightarrow> db \<Rightarrow> bool" where
  "named_tasks a s \<longleftrightarrow> (\<forall>(actor, ty, p, t) \<in> set (log_of a s).
     ty \<in> set task_event_types \<longrightarrow> task_of p \<noteq> None)"

lemma derived_keys_named:
  assumes "named_tasks a s" and "(k, x) \<in> set (deriveTaskState (log_of a s))"
  shows "k \<noteq> None"
proof
  assume "k = None"
  with assms(2) have "map_of (deriveTaskState (log_of a s)) None \<noteq> None"
    by (metis fst_conv image_eqI map_of_eq_None_iff)
  then have "events_of_task None (log_of a s) \<noteq> []"
    by (simp add: deriveTaskState_lookup split: if_splits)
  then show False using assms(1)
    by (fastforce simp: events_of_task_def named_tasks_def filter_empty_conv)
qed

lemma rebuildForAttempt_run:
  assumes "named_tasks a s"
  shows "rebuildForAttempt a s = (Inr (length (deriveTaskState (log_of a s))), rebuilt a s)"
proof -
  let ?s1 = "s\<lparr>task_states := filter (\<lambda>r. ts_attempt_id r \<noteq> a) (task_states s)\<rparr>"
  have "for_each (deriveTaskState (log_of a s)) (insert_task_state a) ?s1 =
    (Inr (), ?s1\<lparr>task_states := task_states ?s1 @
       map (\<lambda>(k, x). task_row a (the k) x) (deriveTaskState (log_of a s))\<rparr>)"
    using derived_keys_named [OF assms]
    by (intro insert_task_states_run) (auto simp: deriveTaskState_distinct)
  then show ?thesis
    by (simp add: rebuildForAttempt_def log_of_def rebuilt_def Let_def)
qed

lemma events_rebuilt [simp]: "events (rebuilt a s) = events s"
  and log_of_rebuilt [simp]: "log_of b (rebuilt a s) = log_of b s"
  and named_tasks_rebuilt [simp]: "named_tasks b (rebuilt a s) = named_tasks b s"
  by (simp_all add: rebuilt_def log_of_def replay_def named_tasks_def)

lemma log_ok_insert_task_state [keeps]: "preserves log_ok (insert_task_state a kd)"
  by (auto simp: insert_task_state_def intro!: keeps split: option.split)

lemma log_ok_rebuild [keeps]: "preserves log_ok (rebuildForAttempt a)"
  by (auto simp: rebuildForAttempt_def Let_def intro!: keeps)

lemma rebuilt_row:
  "find_row (\<lambda>r. ts_attempt_id r = a \<and> ts_task_key r = k) (task_states (rebuilt a s)) =
     map_option (task_row a k) (map_of (filter (\<lambda>(k, _). k \<noteq> None) (deriveTaskState (log_of a s))) (Some k))"
  if "named_tasks a s" for a k s
proof -
  have gen: "find_row (\<lambda>r. ts_attempt_id r = a \<and> ts_task_key r = k)
      (map (\<lambda>(k, x). task_row a (the k) x) d) =
      map_option (task_row a k) (map_of (filter (\<lambda>(k, _). k \<noteq> None) d) (Some k))"
    if "\<And>k x. (k, x) \<in> set d \<Longrightarrow> k \<noteq> None" for d
    using that
  proof (induction d)
    case (Cons kx d)
    then obtain k' x where "kx = (Some k', x)" by (cases kx) auto
    then show ?case using Cons by (auto simp: task_row_def)
  qed simp
  have "find_row (\<lambda>r. ts_attempt_id r = a \<and> ts_task_key r = k)
          (filter (\<lambda>r. ts_attempt_id r \<noteq> a) (task_states s)) = None"
    by (auto simp: find_row_None_iff)
  then show ?thesis
    using gen [OF derived_keys_named [OF that]] by (simp add: rebuilt_def find_row_append)
qed

lemma rebuilt_task:
  assumes "named_tasks a s"
  shows "find_row (\<lambda>r. ts_attempt_id r = a \<and> ts_task_key r = k) (task_states (rebuilt a s)) =
     map_option (task_row a k) (map_of (deriveTaskState (log_of a s)) (Some k))"
proof -
  have "map_of (filter (\<lambda>(k, _). k \<noteq> None) d) (Some k) = map_of d (Some k)" for d :: task_map
    by (induction d) auto
  then show ?thesis using rebuilt_row [OF assms] by simp
qed

section \<open>Properties\<close>



text \<open>Property. A pass is sticky: once an event passed a task, the derived status stays \<open>PASSED\<close> and the
  recorded first-pass time stays what it was, however many failures, hints and further passes
  follow, as long as the task is not skipped.\<close>

theorem pass_is_sticky:
  assumes "d_status (task_view k es) = T_PASSED"
    and "\<forall>(actor, ty, p, t) \<in> set later. ty = EV_TASK_SKIPPED \<longrightarrow> task_of p \<noteq> k"
  shows "d_status (task_view k (es @ later)) = T_PASSED
    \<and> d_firstPassAt (task_view k (es @ later)) = d_firstPassAt (task_view k es)"
  by (rule passed_stays [OF assms])

theorem pass_is_sticky_witness:
  "d_status (task_view (Some ''t'') ([(SYSTEM, EV_TASK_PASSED, JObj [(''task'', JStr ''t'')], 3)] @
     [(SYSTEM, EV_TASK_FAILED, JObj [(''task'', JStr ''t'')], 9)])) = T_PASSED
   \<and> d_firstPassAt (task_view (Some ''t'') ([(SYSTEM, EV_TASK_PASSED, JObj [(''task'', JStr ''t'')], 3)] @
     [(SYSTEM, EV_TASK_FAILED, JObj [(''task'', JStr ''t'')], 9)])) = Some 3"
  using pass_is_sticky [of "Some ''t''" "[(SYSTEM, EV_TASK_PASSED, JObj [(''task'', JStr ''t'')], 3)]"
      "[(SYSTEM, EV_TASK_FAILED, JObj [(''task'', JStr ''t'')], 9)]"]
  by (simp add: task_view_def events_of_task_def task_event_types_def task_of_def fresh_task_def Let_def)

text \<open>Property. The counters are exact: the attempts count of a task is the number of its pass and fail
  events, its hint level is the highest level requested, and it is marked skipped (and assisted)
  exactly when it was skipped.\<close>

theorem derived_counters_exact:
  shows "d_attemptsCount (task_view k es) =
      length (filter (\<lambda>(actor, ty, p, t). ty \<in> {EV_TASK_PASSED, EV_TASK_FAILED} \<and> task_of p = k) es)
    \<and> d_hintsUsedMaxLevel (task_view k es) =
      foldr max (map (\<lambda>(actor, ty, p, t). level_of p)
        (filter (\<lambda>(actor, ty, p, t). ty = EV_HINT_REQUESTED \<and> task_of p = k) es)) 0
    \<and> (d_skipped (task_view k es) \<longleftrightarrow>
        (\<exists>actor p t. (actor, EV_TASK_SKIPPED, p, t) \<in> set es \<and> task_of p = k))
    \<and> d_assisted (task_view k es) = d_skipped (task_view k es)"
proof (induction es rule: rev_induct)
  case Nil
  then show ?case by (simp add: fresh_task_def)
next
  case (snoc e es)
  obtain actor ty p t where e: "e = (actor, ty, p, t)" by (cases e) auto
  have fm: "foldr max xs (b::nat) = max (foldr max xs 0) b" for xs b
    by (induction xs) auto
  show ?case using snoc.IH
    by (cases ty) (auto simp: e task_view_snoc task_event_types_def Let_def fm [of _ "max _ _"]
        fm [of _ "level_of _"])
qed

end
