(* ===== verification/HintService.thy ===== *)
theory HintService
  imports Replay AttemptRepository
begin

text \<open>
  \<open>attempt/hint.service.ts\<close>: the authored hint ladder. \<open>preview\<close> only reads; \<open>reveal\<close> records the
  event and then, in one transaction, the used level and the accrued penalty; \<open>guidedFallback\<close> is
  reachable when the ladder is exhausted and flags the attempt as assisted.
\<close>

section \<open>Model\<close>

record hint_preview =
  hp_taskKey :: string
  hp_nextLevel :: nat
  hp_penalty :: real
  hp_hasMoreAfterThis :: bool

record hint_reveal =
  hr_preview :: hint_preview
  hr_text :: string

definition GUIDED_FALLBACK_FLAG :: string where "GUIDED_FALLBACK_FLAG = ''guided_fallback''"

definition getTaskSpec :: "string \<Rightarrow> string \<Rightarrow> task_spec prog" where
  "getTaskSpec attemptId taskKey =
     bnd (bnd (query (getActivitySpec attemptId)) (\<lambda>sp. findOrThrow sp (''attempt '' @ attemptId @ '' not found''))) (\<lambda>spec.
     case find_row (\<lambda>t. tk_key t = taskKey) (case as_tasks spec of None \<Rightarrow> [] | Some ts \<Rightarrow> ts) of
       None \<Rightarrow> throw (BadRequest (''task '' @ taskKey @ '' not found on this activity''))
     | Some t \<Rightarrow> ret t)"

definition hint_row :: "string \<Rightarrow> string \<Rightarrow> db \<Rightarrow> task_state_row option" where
  "hint_row attemptId taskKey s = find_row (\<lambda>r. ts_attempt_id r = attemptId \<and> ts_task_key r = taskKey) (task_states s)"

definition getUsedMaxLevel :: "string \<Rightarrow> string \<Rightarrow> db \<Rightarrow> nat" where
  "getUsedMaxLevel attemptId taskKey s =
     (case hint_row attemptId taskKey s of None \<Rightarrow> 0 | Some r \<Rightarrow> ts_hints_used_max_level r)"

definition ladder :: "task_spec \<Rightarrow> hint_spec list" where
  "ladder task = sort_key h_level (case tk_hints task of None \<Rightarrow> [] | Some hs \<Rightarrow> hs)"

definition preview_of :: "string \<Rightarrow> hint_spec list \<Rightarrow> hint_spec \<Rightarrow> hint_preview" where
  "preview_of taskKey hints next = \<lparr>hp_taskKey = taskKey, hp_nextLevel = h_level next, hp_penalty = h_penalty next,
     hp_hasMoreAfterThis = list_ex (\<lambda>h. h_level h > h_level next) hints\<rparr>"

definition preview :: "string \<Rightarrow> string \<Rightarrow> hint_preview option prog" where
  "preview attemptId taskKey =
     bnd (getTaskSpec attemptId taskKey) (\<lambda>task.
     bnd (query (getUsedMaxLevel attemptId taskKey)) (\<lambda>usedMaxLevel.
     ret (map_option (preview_of taskKey (ladder task)) (find_row (\<lambda>h. h_level h > usedMaxLevel) (ladder task)))))"

definition blank_task_state :: "string \<Rightarrow> string \<Rightarrow> task_state_row" where
  "blank_task_state attemptId taskKey = \<lparr>ts_attempt_id = attemptId, ts_task_key = taskKey, ts_status = T_PENDING,
     ts_first_pass_at = None, ts_attempts_count = 0, ts_hints_used_max_level = 0, ts_skipped = False,
     ts_assisted = False\<rparr>"

definition upsert_task_state :: "string \<Rightarrow> string \<Rightarrow> (task_state_row \<Rightarrow> task_state_row) \<Rightarrow> unit prog" where
  "upsert_task_state attemptId taskKey f = modify (\<lambda>s. s\<lparr>task_states :=
     upsert (\<lambda>r. ts_attempt_id r = attemptId \<and> ts_task_key r = taskKey) f
       (f (blank_task_state attemptId taskKey)) (task_states s)\<rparr>)"

definition hint_payload :: "string \<Rightarrow> nat \<Rightarrow> json" where
  "hint_payload taskKey level = JObj [(''task'', JStr taskKey), (''level'', JNum (real level))]"

definition reveal :: "string \<Rightarrow> string \<Rightarrow> time \<Rightarrow> hint_reveal prog" where
  "reveal attemptId taskKey now =
     bnd (getTaskSpec attemptId taskKey) (\<lambda>task.
     bnd (query (getUsedMaxLevel attemptId taskKey)) (\<lambda>usedMaxLevel.
     case find_row (\<lambda>h. h_level h > usedMaxLevel) (ladder task) of
       None \<Rightarrow> throw (BadRequest (''hint ladder exhausted for task '' @ taskKey))
     | Some next \<Rightarrow>
         andthen (appendTypedEvent attemptId LEARNER EV_HINT_REQUESTED (hint_payload taskKey (h_level next)) now)
         (andthen (transaction (andthen
            (upsert_task_state attemptId taskKey (\<lambda>r. r\<lparr>ts_hints_used_max_level := h_level next\<rparr>))
            (modify (\<lambda>s. s\<lparr>attempts := update_where (\<lambda>a. a_id a = attemptId)
               (\<lambda>a. a\<lparr>a_hint_penalty_total := a_hint_penalty_total a + h_penalty next\<rparr>) (attempts s)\<rparr>))))
         (ret \<lparr>hr_preview = preview_of taskKey (ladder task) next, hr_text = h_text next\<rparr>))))"

definition fallback_text :: "task_spec \<Rightarrow> string \<Rightarrow> string" where
  "fallback_text task taskKey = (let hints = ladder task in
     if length hints > 0 then h_text (hints ! (length hints - 1))
     else ''See the reference approach for task '' @ [CHR 0x22] @ (case tk_title task of None \<Rightarrow> taskKey | Some t \<Rightarrow> t) @ [CHR 0x22] @ ''.'')"

definition guidedFallback :: "string \<Rightarrow> string \<Rightarrow> time \<Rightarrow> string prog" where
  "guidedFallback attemptId taskKey now =
     bnd (getTaskSpec attemptId taskKey) (\<lambda>task.
     bnd (query (getUsedMaxLevel attemptId taskKey)) (\<lambda>usedMaxLevel.
     if length (ladder task) > 0 \<and> list_ex (\<lambda>h. h_level h > usedMaxLevel) (ladder task)
     then throw (BadRequest (''hint ladder for task '' @ taskKey @ '' is not yet exhausted''))
     else
     bnd (bnd (query (findById attemptId)) (\<lambda>r. findOrThrow r (''attempt '' @ attemptId @ '' not found''))) (\<lambda>attempt.
     let alreadyFlagged = GUIDED_FALLBACK_FLAG \<in> set (a_assistance_flags attempt) in
     andthen (when_io (\<not> alreadyFlagged)
       (andthen (appendTypedEvent attemptId LEARNER EV_SOLUTION_VIEWED
          (JObj [(''task'', JStr taskKey), (''via'', JStr ''guided_fallback'')]) now)
        (transaction (andthen
          (modify (\<lambda>s. s\<lparr>attempts := update_where (\<lambda>a. a_id a = attemptId)
             (\<lambda>a. a\<lparr>a_assistance_flags := a_assistance_flags a @ [GUIDED_FALLBACK_FLAG]\<rparr>) (attempts s)\<rparr>))
          (upsert_task_state attemptId taskKey (\<lambda>r. r\<lparr>ts_assisted := True\<rparr>))))))
     (ret (fallback_text task taskKey)))))"

section \<open>What the operations do\<close>

lemma getTaskSpec_run:
  "getTaskSpec a k s = (case getActivitySpec a s of
     None \<Rightarrow> (Inl (NotFound (''attempt '' @ a @ '' not found'')), s)
   | Some spec \<Rightarrow> (case find_row (\<lambda>t. tk_key t = k) (case as_tasks spec of None \<Rightarrow> [] | Some ts \<Rightarrow> ts) of
       None \<Rightarrow> (Inl (BadRequest (''task '' @ k @ '' not found on this activity'')), s)
     | Some t \<Rightarrow> (Inr t, s)))"
  by (auto simp: getTaskSpec_def bnd_run split: option.split)

lemma getTaskSpec_cases:
  obtains e where "getTaskSpec a k s = (Inl e, s)" | task where "getTaskSpec a k s = (Inr task, s)"
  by (cases "getTaskSpec a k s") (auto simp: getTaskSpec_run split: option.splits)

lemma preview_run:
  "preview a k s = (case getTaskSpec a k s of
     (Inl e, _) \<Rightarrow> (Inl e, s)
   | (Inr task, _) \<Rightarrow> (Inr (map_option (preview_of k (ladder task))
        (find_row (\<lambda>h. h_level h > getUsedMaxLevel a k s) (ladder task))), s))"
  by (cases rule: getTaskSpec_cases [of a k s]) (auto simp: preview_def)

text \<open>The database after a hint was revealed.\<close>

definition revealed :: "string \<Rightarrow> string \<Rightarrow> hint_spec \<Rightarrow> time \<Rightarrow> db \<Rightarrow> db" where
  "revealed a k h now s = s\<lparr>
     events := events s @ [new_event a LEARNER EV_HINT_REQUESTED (hint_payload k (h_level h)) now s],
     task_states := upsert (\<lambda>r. ts_attempt_id r = a \<and> ts_task_key r = k)
       (\<lambda>r. r\<lparr>ts_hints_used_max_level := h_level h\<rparr>)
       ((blank_task_state a k)\<lparr>ts_hints_used_max_level := h_level h\<rparr>) (task_states s),
     attempts := update_where (\<lambda>x. a_id x = a)
       (\<lambda>x. x\<lparr>a_hint_penalty_total := a_hint_penalty_total x + h_penalty h\<rparr>) (attempts s)\<rparr>"

lemma reveal_run:
  "reveal a k now s = (case getTaskSpec a k s of
     (Inl e, _) \<Rightarrow> (Inl e, s)
   | (Inr task, _) \<Rightarrow> (case find_row (\<lambda>h. h_level h > getUsedMaxLevel a k s) (ladder task) of
       None \<Rightarrow> (Inl (BadRequest (''hint ladder exhausted for task '' @ k)), s)
     | Some h \<Rightarrow> (Inr \<lparr>hr_preview = preview_of k (ladder task) h, hr_text = h_text h\<rparr>, revealed a k h now s)))"
  by (cases rule: getTaskSpec_cases [of a k s])
    (auto simp: reveal_def upsert_task_state_def revealed_def split: option.split)

lemma getUsedMaxLevel_revealed: "getUsedMaxLevel a k (revealed a k h now s) = h_level h"
proof -
  have "hint_row a k (revealed a k h now s) = Some (case hint_row a k s of
      None \<Rightarrow> (blank_task_state a k)\<lparr>ts_hints_used_max_level := h_level h\<rparr>
    | Some r \<Rightarrow> r\<lparr>ts_hints_used_max_level := h_level h\<rparr>)"
    unfolding hint_row_def revealed_def by (simp add: blank_task_state_def find_upsert_same split: option.split)
  then show ?thesis by (simp add: getUsedMaxLevel_def split: option.splits)
qed

lemma findById_revealed:
  "findById b (revealed a k h now s) =
     map_option (\<lambda>x. if a_id x = a then x\<lparr>a_hint_penalty_total := a_hint_penalty_total x + h_penalty h\<rparr> else x) (findById b s)"
proof -
  have "find_row (\<lambda>x. a_id x = b) (update_where (\<lambda>x. a_id x = a)
      (\<lambda>x. x\<lparr>a_hint_penalty_total := a_hint_penalty_total x + h_penalty h\<rparr>) xs) =
    map_option (\<lambda>x. if a_id x = a then x\<lparr>a_hint_penalty_total := a_hint_penalty_total x + h_penalty h\<rparr> else x)
      (find_row (\<lambda>x. a_id x = b) xs)" for xs :: "attempt_row list"
    by (induction xs) auto
  then show ?thesis by (simp add: findById_def revealed_def)
qed

lemma getActivitySpec_attempt:
  "getActivitySpec a s = Some spec \<Longrightarrow> findById a s \<noteq> None"
  by (auto simp: getActivitySpec_def findById_def split: option.splits)

lemma getTaskSpec_attempt: "getTaskSpec a k s = (Inr task, s) \<Longrightarrow> \<exists>r. findById a s = Some r"
  by (auto simp: getTaskSpec_run dest: getActivitySpec_attempt split: option.splits)

lemma log_of_revealed:
  "log_ok s \<Longrightarrow> log_of b (revealed a k h now s) =
     log_of b s @ (if a = b then [(LEARNER, EV_HINT_REQUESTED, hint_payload k (h_level h), now)] else [])"
  using log_of_append [of s b a LEARNER EV_HINT_REQUESTED "hint_payload k (h_level h)" now]
  by (simp add: revealed_def log_of_def replay_def)

section \<open>Properties\<close>

text \<open>Property. The quoted price is the price: \<open>preview\<close> writes nothing; when it quotes a level and a
  penalty, an immediately following \<open>reveal\<close> succeeds, delivers exactly that level, adds exactly
  that penalty to the attempt and raises the used level, so the next quote is for a later level;
  when it quotes nothing, \<open>reveal\<close> is refused and writes nothing.\<close>

theorem hint_quote_honoured:
  assumes "preview a k s = (Inr q, s1)"
  shows "s1 = s \<and> (case q of
      None \<Rightarrow> (\<exists>msg. reveal a k now s = (Inl (BadRequest msg), s))
    | Some hp \<Rightarrow> \<exists>hr s' r. reveal a k now s = (Inr hr, s') \<and> hr_preview hr = hp
        \<and> getUsedMaxLevel a k s < hp_nextLevel hp \<and> getUsedMaxLevel a k s' = hp_nextLevel hp
        \<and> findById a s = Some r
        \<and> findById a s' = Some (r\<lparr>a_hint_penalty_total := a_hint_penalty_total r + hp_penalty hp\<rparr>)
        \<and> (\<forall>b. b \<noteq> a \<longrightarrow> findById b s' = findById b s))"
proof (cases rule: getTaskSpec_cases [of a k s])
  case (1 e)
  then show ?thesis using assms by (simp add: preview_run)
next
  case (2 task)
  let ?f = "find_row (\<lambda>h. h_level h > getUsedMaxLevel a k s) (ladder task)"
  have q: "q = map_option (preview_of k (ladder task)) ?f" "s1 = s" using assms 2 by (auto simp: preview_run)
  show ?thesis
  proof (cases ?f)
    case None
    then show ?thesis using q 2 by (simp add: reveal_run)
  next
    case (Some h)
    obtain r where r: "findById a s = Some r" using getTaskSpec_attempt [OF 2] by blast
    have "getUsedMaxLevel a k s < h_level h" using find_row_SomeD [OF Some] by simp
    moreover have "b \<noteq> a \<Longrightarrow> findById b (revealed a k h now s) = findById b s" for b
      using findById_SomeD by (fastforce simp: findById_revealed option.map_id0 map_option_case split: option.splits)
    moreover have "a_id r = a" using findById_SomeD [OF r] by simp
    ultimately show ?thesis
      using Some q 2 r by (simp add: reveal_run preview_of_def getUsedMaxLevel_revealed findById_revealed)
  qed
qed

definition demo_hinted :: db where
  "demo_hinted = empty_db\<lparr>attempts := [demo_attempt], versions := [
     \<lparr>v_id = ''av'', v_activity_id = ''act'', v_mode = ''GUIDED_LAB'', v_status = V_PUBLISHED,
      v_spec = \<lparr>as_environment = None, as_health_gate = None, as_faults = None, as_process_signals = None,
       as_artifacts_required = None, as_milestones = None,
       as_tasks = Some [\<lparr>tk_key = ''t'', tk_title = None, tk_required = True, tk_validators = [],
         tk_hints = Some [\<lparr>h_level = 1, h_penalty = 1/100, h_text = ''look''\<rparr>]\<rparr>], as_scoring_profile = None\<rparr>,
      v_blueprint_id = None, v_blueprint_version = None, v_difficulty_elo = None, v_estimated_minutes = None, v_version = 1, v_difficulty_level = None,
     v_cost_budget_usd = None, v_published_at = None, v_published_by = None, v_mentor = no_mentor\<rparr>]\<rparr>"

lemma demo_preview: "preview ''a'' ''t'' demo_hinted =
    (Inr (Some \<lparr>hp_taskKey = ''t'', hp_nextLevel = 1, hp_penalty = 1/100, hp_hasMoreAfterThis = False\<rparr>), demo_hinted)"
  by (simp add: preview_run getTaskSpec_run getActivitySpec_def demo_hinted_def demo_attempt_def ladder_def
      getUsedMaxLevel_def hint_row_def preview_of_def empty_db_def)

theorem hint_quote_honoured_witness:
  "\<exists>hr s'. reveal ''a'' ''t'' 5 demo_hinted = (Inr hr, s') \<and> hp_penalty (hr_preview hr) = 1/100"
  using hint_quote_honoured [OF demo_preview, of 5] by auto

text \<open>Property. Hint levels survive a rebuild: \<open>reveal\<close> writes the used level both as an event and,
  directly, into the materialised row. If the row agreed with the log before, it agrees after, so
  replaying the log reproduces the level on which the next hint's price depends.\<close>

theorem hint_level_replayable:
  assumes "log_ok s" and "getUsedMaxLevel a k s = d_hintsUsedMaxLevel (task_view (Some k) (log_of a s))"
    and "reveal a k now s = (res, s')"
  shows "getUsedMaxLevel a k s' = d_hintsUsedMaxLevel (task_view (Some k) (log_of a s'))"
proof (cases rule: getTaskSpec_cases [of a k s])
  case (1 e)
  then show ?thesis using assms by (simp add: reveal_run)
next
  case (2 task)
  show ?thesis
  proof (cases "find_row (\<lambda>h. h_level h > getUsedMaxLevel a k s) (ladder task)")
    case None
    then show ?thesis using assms 2 by (simp add: reveal_run)
  next
    case (Some h)
    then have s': "s' = revealed a k h now s" using assms(3) 2 by (simp add: reveal_run)
    have lt: "getUsedMaxLevel a k s < h_level h" using find_row_SomeD [OF Some] by simp
    have "level_of (hint_payload k (h_level h)) = h_level h" "task_of (hint_payload k (h_level h)) = Some k"
      by (simp_all add: level_of_def task_of_def hint_payload_def)
    then show ?thesis using lt assms(2)
      by (simp add: s' getUsedMaxLevel_revealed log_of_revealed [OF assms(1)] task_view_snoc task_event_types_def)
  qed
qed

lemma demo_reveal: "\<exists>res. reveal ''a'' ''t'' 5 demo_hinted = (res, snd (reveal ''a'' ''t'' 5 demo_hinted))"
  by (metis prod.collapse)

theorem hint_level_replayable_witness:
  "getUsedMaxLevel ''a'' ''t'' (snd (reveal ''a'' ''t'' 5 demo_hinted)) =
   d_hintsUsedMaxLevel (task_view (Some ''t'') (log_of ''a'' (snd (reveal ''a'' ''t'' 5 demo_hinted))))"
proof -
  have 1: "log_ok demo_hinted" by (simp add: log_ok_def demo_hinted_def empty_db_def of_attempt_def)
  have 2: "getUsedMaxLevel ''a'' ''t'' demo_hinted = d_hintsUsedMaxLevel (task_view (Some ''t'') (log_of ''a'' demo_hinted))"
    by (simp add: getUsedMaxLevel_def hint_row_def demo_hinted_def empty_db_def log_of_def replay_def of_attempt_def fresh_task_def)
  show ?thesis using hint_level_replayable [OF 1 2] demo_reveal by blast
qed

lemma findById_flagged:
  "findById b (s\<lparr>attempts := update_where (\<lambda>x. a_id x = a) (\<lambda>x. x\<lparr>a_assistance_flags := a_assistance_flags x @ [g]\<rparr>) (attempts s),
      task_states := T\<rparr>) =
   map_option (\<lambda>x. if a_id x = a then x\<lparr>a_assistance_flags := a_assistance_flags x @ [g]\<rparr> else x) (findById b s)"
proof -
  have "find_row (\<lambda>x. a_id x = b) (update_where (\<lambda>x. a_id x = a)
      (\<lambda>x. x\<lparr>a_assistance_flags := a_assistance_flags x @ [g]\<rparr>) xs) =
    map_option (\<lambda>x. if a_id x = a then x\<lparr>a_assistance_flags := a_assistance_flags x @ [g]\<rparr> else x)
      (find_row (\<lambda>x. a_id x = b) xs)" for xs :: "attempt_row list"
    by (induction xs) auto
  then show ?thesis by (simp add: findById_def)
qed

text \<open>The database after a first fallback.\<close>

definition fallen_back :: "string \<Rightarrow> string \<Rightarrow> time \<Rightarrow> db \<Rightarrow> db" where
  "fallen_back a k now s = s\<lparr>
     events := events s @ [new_event a LEARNER EV_SOLUTION_VIEWED (JObj [(''task'', JStr k), (''via'', JStr ''guided_fallback'')]) now s],
     attempts := update_where (\<lambda>x. a_id x = a)
       (\<lambda>x. x\<lparr>a_assistance_flags := a_assistance_flags x @ [GUIDED_FALLBACK_FLAG]\<rparr>) (attempts s),
     task_states := upsert (\<lambda>r. ts_attempt_id r = a \<and> ts_task_key r = k) (\<lambda>r. r\<lparr>ts_assisted := True\<rparr>)
       ((blank_task_state a k)\<lparr>ts_assisted := True\<rparr>) (task_states s)\<rparr>"

lemma guidedFallback_run:
  assumes "getTaskSpec a k s = (Inr task, s)" and "findById a s = Some r"
  shows "guidedFallback a k now s =
    (if list_ex (\<lambda>h. h_level h > getUsedMaxLevel a k s) (ladder task)
     then (Inl (BadRequest (''hint ladder for task '' @ k @ '' is not yet exhausted'')), s)
     else (Inr (fallback_text task k),
       if GUIDED_FALLBACK_FLAG \<in> set (a_assistance_flags r) then s else fallen_back a k now s))"
  using assms
  by (cases "ladder task = []") (auto simp: guidedFallback_def upsert_task_state_def fallen_back_def Let_def)

lemma getTaskSpec_fallen_back:
  assumes "getTaskSpec a k s = (Inr task, s)"
  shows "getTaskSpec a k (fallen_back a k now s) = (Inr task, fallen_back a k now s)"
proof -
  have "getActivitySpec a (fallen_back a k now s) = getActivitySpec a s"
    using findById_flagged [where b = a and a = a and s = s and g = GUIDED_FALLBACK_FLAG]
    by (auto simp: getActivitySpec_def fallen_back_def findById_def split: option.splits if_splits)
  then show ?thesis using assms by (auto simp: getTaskSpec_run split: option.splits)
qed

lemma getUsedMaxLevel_fallen_back: "getUsedMaxLevel a k (fallen_back a k now s) = getUsedMaxLevel a k s"
proof -
  have "hint_row a k (fallen_back a k now s) = Some (case hint_row a k s of
      None \<Rightarrow> (blank_task_state a k)\<lparr>ts_assisted := True\<rparr> | Some r \<Rightarrow> r\<lparr>ts_assisted := True\<rparr>)"
    unfolding hint_row_def fallen_back_def by (simp add: blank_task_state_def find_upsert_same split: option.split)
  then show ?thesis by (auto simp: getUsedMaxLevel_def blank_task_state_def split: option.splits)
qed

text \<open>Property. The guided fallback is the last resort and is remembered: it succeeds only when no hint
  level above the used one is left; a success leaves the attempt flagged as assisted; and calling
  it again for the same task returns the same text and writes nothing at all.\<close>

theorem fallback_last_resort:
  assumes "guidedFallback a k now s = (Inr txt, s')"
  shows "(\<exists>task. getTaskSpec a k s = (Inr task, s) \<and> (\<forall>h \<in> set (ladder task). h_level h \<le> getUsedMaxLevel a k s))
    \<and> (\<exists>r'. findById a s' = Some r' \<and> GUIDED_FALLBACK_FLAG \<in> set (a_assistance_flags r'))
    \<and> guidedFallback a k later s' = (Inr txt, s')"
proof (cases rule: getTaskSpec_cases [of a k s])
  case (1 e)
  then show ?thesis using assms by (simp add: guidedFallback_def)
next
  case (2 task)
  obtain r where r: "findById a s = Some r" using getTaskSpec_attempt [OF 2] by blast
  have aid: "a_id r = a" using findById_SomeD [OF r] by simp
  note run = guidedFallback_run [OF 2 r]
  have exh: "\<not> list_ex (\<lambda>h. h_level h > getUsedMaxLevel a k s) (ladder task)" and tx: "txt = fallback_text task k"
    and s': "s' = (if GUIDED_FALLBACK_FLAG \<in> set (a_assistance_flags r) then s else fallen_back a k now s)"
    using assms run [of now] by (auto split: if_splits)
  have "\<forall>h \<in> set (ladder task). h_level h \<le> getUsedMaxLevel a k s" using exh by (auto simp: list_ex_iff)
  moreover have "(\<exists>r'. findById a s' = Some r' \<and> GUIDED_FALLBACK_FLAG \<in> set (a_assistance_flags r'))
    \<and> guidedFallback a k later s' = (Inr txt, s')"
  proof (cases "GUIDED_FALLBACK_FLAG \<in> set (a_assistance_flags r)")
    case True
    then show ?thesis using s' r run [of later] exh tx by simp
  next
    case False
    let ?r' = "r\<lparr>a_assistance_flags := a_assistance_flags r @ [GUIDED_FALLBACK_FLAG]\<rparr>"
    have r': "findById a s' = Some ?r'"
      using False s' r aid findById_flagged [where b = a and a = a and s = s and g = GUIDED_FALLBACK_FLAG]
      by (simp add: fallen_back_def findById_def)
    have t': "getTaskSpec a k s' = (Inr task, s')" using False s' getTaskSpec_fallen_back [OF 2] by simp
    show ?thesis
      using guidedFallback_run [OF t' r', of later] r' exh tx False s' getUsedMaxLevel_fallen_back by simp
  qed
  ultimately show ?thesis using 2 by blast
qed

theorem fallback_last_resort_witness:
  "\<exists>txt s'. guidedFallback ''a'' ''t'' 6 (snd (reveal ''a'' ''t'' 5 demo_hinted)) = (Inr txt, s')
    \<and> guidedFallback ''a'' ''t'' 7 s' = (Inr txt, s')"
proof -
  let ?s = "snd (reveal ''a'' ''t'' 5 demo_hinted)"
  have "\<exists>txt s'. guidedFallback ''a'' ''t'' 6 ?s = (Inr txt, s')"
    by (simp add: guidedFallback_def reveal_run getTaskSpec_run getActivitySpec_def demo_hinted_def demo_attempt_def
        ladder_def getUsedMaxLevel_def hint_row_def empty_db_def revealed_def upsert_def blank_task_state_def
        findById_def bnd_run andthen_def Let_def upsert_task_state_def transaction_def)
  then show ?thesis using fallback_last_resort by blast
qed

text \<open>The row-level mark does not survive a replay: \<open>deriveTaskState\<close> ignores SOLUTION_VIEWED, so
  the rebuild that every check and every evaluation runs drops \<open>assisted\<close> again unless the task was
  skipped.\<close>

lemma rebuild_drops_assisted:
  assumes "named_tasks a s" and "\<forall>(actor, ty, p, t) \<in> set (log_of a s). ty \<noteq> EV_TASK_SKIPPED"
    and "hint_row a k (rebuilt a s) = Some row"
  shows "\<not> ts_assisted row"
proof -
  have "d_assisted (task_view (Some k) es) = False"
    if "\<forall>(actor, ty, p, t) \<in> set es. ty \<noteq> EV_TASK_SKIPPED" for es
    using that
  proof (induction es rule: rev_induct)
    case Nil
    then show ?case by (simp add: fresh_task_def)
  next
    case (snoc e es)
    obtain actor ty p t where "e = (actor, ty, p, t)" by (cases e) auto
    then show ?case using snoc by (cases ty) (auto simp: task_view_snoc Let_def)
  qed
  then show ?thesis
    using assms rebuilt_task [OF assms(1), of k]
    by (auto simp: hint_row_def deriveTaskState_lookup task_row_def split: if_splits)
qed

end
