(* ===== verification/Scoring.thy ===== *)
theory Scoring
  imports Schema
begin

text \<open>
  The deterministic scoring pipeline: \<open>evaluation/criteria.ts\<close> (the criterion functions and their
  registry), \<open>evaluation/scoring-profile.ts\<close> (the two shipped profiles),
  \<open>evaluation/scoring-engine.service.ts\<close> and \<open>evaluation/cooldown.ts\<close>. All of it is pure. The
  explanation objects are not modelled, only the values.
\<close>

section \<open>Model: criteria.ts\<close>

record validator_outcome =
  vo_validatorId :: string
  vo_status :: validator_status
  vo_severity :: severity
  vo_weight :: real

record task_summary =
  su_taskKey :: string
  su_required :: bool
  su_passed :: bool
  su_results :: "validator_outcome list"

record criterion_input =
  cr_taskResults :: "task_summary list"
  cr_hintPenaltyTotal :: real
  cr_resetCount :: nat
  cr_retryIndex :: nat
  cr_activeMinutes :: real
  cr_estimatedMinutes :: real
  cr_preSubmitValidationRunCount :: nat
  cr_blastRadiusViolations :: nat
  cr_diagnosticEfficiencyGoodCount :: nat
  cr_diagnosticEfficiencyBadCount :: nat
  cr_commandSequence :: "string list"
  cr_canonicalDiagnosticPaths :: "string list list"

definition technicalCorrectnessV1 :: "criterion_input \<Rightarrow> real" where
  "technicalCorrectnessV1 inp =
     (let allValidators = concat (map su_results (cr_taskResults inp));
          scorable = filter (\<lambda>v. vo_status v \<noteq> VERROR) allValidators
      in if length scorable = 0 then 0
         else let totalWeight = sum_list (map vo_weight scorable);
                  passedWeight = sum_list (map vo_weight (filter (\<lambda>v. vo_status v = VPASS) scorable));
                  value = (if totalWeight > 0 then passedWeight / totalWeight else 0)
              in clamp01 value)"

definition taskCompletionV1 :: "criterion_input \<Rightarrow> real" where
  "taskCompletionV1 inp =
     (let required = filter su_required (cr_taskResults inp) in
      if length required = 0 then 1
      else clamp01 (real (length (filter su_passed required)) / real (length required)))"

definition efficiencyV1 :: "criterion_input \<Rightarrow> real" where
  "efficiencyV1 inp =
     (let anyTaskPassed = list_ex su_passed (cr_taskResults inp);
          hasEvidence = (anyTaskPassed \<or> cr_preSubmitValidationRunCount inp > 0 \<or>
                         cr_activeMinutes inp \<ge> 17/100)
      in if \<not> hasEvidence then 0
         else if cr_estimatedMinutes inp \<le> 0 then 1
         else let ratio = cr_activeMinutes inp / cr_estimatedMinutes inp in
              if ratio \<le> 1 then 1 else clamp01 (1 - (ratio - 1) / 2))"

definition diagnosticEfficiencyV1 :: "criterion_input \<Rightarrow> real" where
  "diagnosticEfficiencyV1 inp =
     (let good = cr_diagnosticEfficiencyGoodCount inp; bad = cr_diagnosticEfficiencyBadCount inp;
          total = good + bad
      in if total = 0 then 1 else clamp01 (real good / real total))"

text \<open>\<open>Array.prototype.findIndex\<close>.\<close>

fun findIndex :: "('a \<Rightarrow> bool) \<Rightarrow> 'a list \<Rightarrow> int" where
  "findIndex p [] = - 1"
| "findIndex p (x # xs) = (if p x then 0 else if findIndex p xs = - 1 then - 1 else findIndex p xs + 1)"

text \<open>The two nested loops of \<open>orderingScoreForPath\<close>: all pairs \<open>i < j\<close>, as the pair of counters
  (correctly ordered, comparable).\<close>

fun count_pairs :: "int list \<Rightarrow> nat \<times> nat" where
  "count_pairs [] = (0, 0)"
| "count_pairs (x # xs) =
     (let (correct, comparable) = count_pairs xs;
          others = (if x = - 1 then [] else filter (\<lambda>y. y \<noteq> - 1) xs)
      in (correct + length (filter (\<lambda>y. x < y) others), comparable + length others))"

definition orderingScoreForPath :: "string list \<Rightarrow> string list \<Rightarrow> real \<times> nat" where
  "orderingScoreForPath canonicalPath commandSequence =
     (let firstSeenIndex = map (\<lambda>step. findIndex (\<lambda>cmd. starts_with cmd step) commandSequence) canonicalPath;
          (correctlyOrderedPairs, comparablePairs) = count_pairs firstSeenIndex
      in (if comparablePairs > 0 then real correctlyOrderedPairs / real comparablePairs else 0,
          comparablePairs))"

definition hypothesisOrderingV1 :: "criterion_input \<Rightarrow> real" where
  "hypothesisOrderingV1 inp =
     (if length (cr_canonicalDiagnosticPaths inp) = 0 then 1
      else let results = map (\<lambda>path. orderingScoreForPath path (cr_commandSequence inp))
                 (cr_canonicalDiagnosticPaths inp);
               scored = filter (\<lambda>r. snd r > 0) results
           in if length scored = 0 then 1
              else clamp01 (sum_list (map fst scored) / real (length scored)))"

definition troubleshootingV1 :: "criterion_input \<Rightarrow> real" where
  "troubleshootingV1 inp = clamp01 ((diagnosticEfficiencyV1 inp + hypothesisOrderingV1 inp) / 2)"

definition CRITERION_REGISTRY :: "(string \<times> (string \<times> (criterion_input \<Rightarrow> real))) list" where
  "CRITERION_REGISTRY =
     [(''technical_correctness'', ''fn.technical_correctness.v1'', technicalCorrectnessV1),
      (''task_completion'', ''fn.task_completion.v1'', taskCompletionV1),
      (''efficiency'', ''fn.efficiency.v2'', efficiencyV1),
      (''diagnostic_efficiency'', ''fn.diagnostic_efficiency.v1'', diagnosticEfficiencyV1),
      (''hypothesis_ordering'', ''fn.hypothesis_ordering.v1'', hypothesisOrderingV1),
      (''troubleshooting'', ''fn.troubleshooting.v1'', troubleshootingV1),
      (''technical_implementation'', ''fn.technical_correctness.v1'', technicalCorrectnessV1),
      (''reliability'', ''fn.technical_correctness.v1'', technicalCorrectnessV1)]"

section \<open>Model: scoring-profile.ts\<close>

record scoring_profile =
  pf_id :: string
  pf_passThreshold :: real
  pf_weights :: "(string \<times> real) list"
  pf_hints_cap :: "real option"
  pf_resets :: "(real \<times> real) option"
  pf_retries :: "(real \<times> real) option"
  pf_blastRadius :: "(real \<times> real) option"
  pf_overtime :: "(real \<times> real) option"
  pf_firstTryPass :: "real option"
  pf_minAfterPenalties :: "real option"

definition GUIDED_LAB_DEFAULT_PROFILE :: scoring_profile where
  "GUIDED_LAB_DEFAULT_PROFILE = \<lparr>pf_id = ''sp.guided-lab.default'', pf_passThreshold = 7/10,
     pf_weights = [(''technical_correctness'', 7/10), (''task_completion'', 2/10), (''efficiency'', 1/10)],
     pf_hints_cap = Some (2/10), pf_resets = Some (2/100, 6/100), pf_retries = Some (5/100, 15/100),
     pf_blastRadius = None, pf_overtime = None, pf_firstTryPass = Some (2/100),
     pf_minAfterPenalties = Some (3/10)\<rparr>"

definition PRODUCTION_SIM_DEFAULT_PROFILE :: scoring_profile where
  "PRODUCTION_SIM_DEFAULT_PROFILE = \<lparr>pf_id = ''sp.production-sim.default'', pf_passThreshold = 7/10,
     pf_weights = [(''troubleshooting'', 55/100), (''technical_implementation'', 3/10), (''reliability'', 15/100)],
     pf_hints_cap = None, pf_resets = Some (2/100, 6/100), pf_retries = Some (5/100, 15/100),
     pf_blastRadius = Some (15/100, 3/10), pf_overtime = Some (2/100, 1/10),
     pf_firstTryPass = Some (2/100), pf_minAfterPenalties = Some (3/10)\<rparr>"

section \<open>Model: scoring-engine.service.ts\<close>

record score_breakdown =
  sb_finalScore :: real
  sb_passed :: bool
  sb_criteria :: "(string \<times> real \<times> real) list"
  sb_penalties :: "(string \<times> real) list"
  sb_bonuses :: "(string \<times> real) list"
  sb_criterionFnVersions :: "(string \<times> string) list"

fun score_criteria ::
    "string \<Rightarrow> criterion_input \<Rightarrow> (string \<times> real) list \<Rightarrow> exn + (string \<times> string \<times> real \<times> real) list" where
  "score_criteria profileId inp [] = Inr []"
| "score_criteria profileId inp ((criterionKey, weight) # rest) =
     (case map_of CRITERION_REGISTRY criterionKey of
        None \<Rightarrow> Inl (Err (''unknown criterion '' @ [CHR 0x22] @ criterionKey @ [CHR 0x22] @ '' in profile '' @ profileId @ '' -- not in CRITERION_REGISTRY''))
      | Some (version, fn) \<Rightarrow>
          (case score_criteria profileId inp rest of
             Inl e \<Rightarrow> Inl e
           | Inr cs \<Rightarrow> Inr ((criterionKey, version, fn inp, weight) # cs)))"

definition capped :: "string \<Rightarrow> real \<Rightarrow> (real \<times> real) option \<Rightarrow> (string \<times> real) list" where
  "capped name count cfg = (case cfg of None \<Rightarrow> [] | Some (per, cap) \<Rightarrow> [(name, min (count * per) cap)])"

definition penalties_of :: "criterion_input \<Rightarrow> scoring_profile \<Rightarrow> (string \<times> real) list" where
  "penalties_of inp profile =
     (case pf_hints_cap profile of None \<Rightarrow> [] | Some cap \<Rightarrow> [(''hints'', min (cr_hintPenaltyTotal inp) cap)]) @
     capped ''resets'' (real (cr_resetCount inp)) (pf_resets profile) @
     capped ''retries'' (real (cr_retryIndex inp)) (pf_retries profile) @
     capped ''blast_radius'' (real (cr_blastRadiusViolations inp)) (pf_blastRadius profile) @
     (let overMinutes = max 0 (cr_activeMinutes inp - cr_estimatedMinutes inp) in
      capped ''overtime'' (real_of_int \<lfloor>overMinutes / 10\<rfloor>) (pf_overtime profile))"

definition bonuses_of :: "scoring_profile \<Rightarrow> bool \<Rightarrow> (string \<times> real) list" where
  "bonuses_of profile wasFirstTryPass =
     (case pf_firstTryPass profile of
        None \<Rightarrow> []
      | Some b \<Rightarrow> if b \<noteq> 0 \<and> wasFirstTryPass then [(''first_try_pass'', b)] else [])"

definition final_score :: "real \<Rightarrow> real \<Rightarrow> real \<Rightarrow> scoring_profile \<Rightarrow> real" where
  "final_score weightedSum totalPenalty totalBonus profile =
     (let raw = weightedSum - totalPenalty + totalBonus;
          guarded = (case pf_minAfterPenalties profile of
              None \<Rightarrow> raw
            | Some guard \<Rightarrow> if weightedSum \<ge> pf_passThreshold profile \<and> raw < guard then guard else raw)
      in min 1 (max 0 guarded))"

definition score :: "criterion_input \<Rightarrow> scoring_profile \<Rightarrow> bool \<Rightarrow> exn + score_breakdown" where
  "score inp profile wasFirstTryPass =
     (case score_criteria (pf_id profile) inp (pf_weights profile) of
        Inl e \<Rightarrow> Inl e
      | Inr cs \<Rightarrow>
          let weightedSum = sum_list (map (\<lambda>(k, ver, v, w). v * w) cs);
              penalties = penalties_of inp profile;
              bonuses = bonuses_of profile wasFirstTryPass;
              finalScore = final_score weightedSum (sum_list (map snd penalties))
                (sum_list (map snd bonuses)) profile
          in Inr \<lparr>sb_finalScore = finalScore, sb_passed = (finalScore \<ge> pf_passThreshold profile),
               sb_criteria = map (\<lambda>(k, ver, v, w). (k, v, w)) cs, sb_penalties = penalties,
               sb_bonuses = bonuses, sb_criterionFnVersions = map (\<lambda>(k, ver, v, w). (k, ver)) cs\<rparr>)"

section \<open>Model: cooldown.ts\<close>

definition BASE_COOLDOWN_MS :: int where "BASE_COOLDOWN_MS = 24 * 60 * 60 * 1000"
definition MAX_COOLDOWN_MS :: int where "MAX_COOLDOWN_MS = 7 * 24 * 60 * 60 * 1000"

definition computeCooldownUntil :: "nat \<Rightarrow> time \<Rightarrow> time" where
  "computeCooldownUntil failedAttemptRetryIndex now =
     (let retryCount = failedAttemptRetryIndex + 1;
          ms = min (BASE_COOLDOWN_MS * 2 ^ (retryCount - 1)) MAX_COOLDOWN_MS
      in now + ms)"

section \<open>Criteria are fractions\<close>

definition criterion :: "string \<Rightarrow> criterion_input \<Rightarrow> real" where
  "criterion k inp = (case map_of CRITERION_REGISTRY k of None \<Rightarrow> 0 | Some (ver, fn) \<Rightarrow> fn inp)"

definition registered :: "string \<Rightarrow> bool" where
  "registered k \<longleftrightarrow> map_of CRITERION_REGISTRY k \<noteq> None"

lemma criterion_fn_bounds:
  "0 \<le> technicalCorrectnessV1 inp \<and> technicalCorrectnessV1 inp \<le> 1"
  "0 \<le> taskCompletionV1 inp \<and> taskCompletionV1 inp \<le> 1"
  "0 \<le> efficiencyV1 inp \<and> efficiencyV1 inp \<le> 1"
  "0 \<le> diagnosticEfficiencyV1 inp \<and> diagnosticEfficiencyV1 inp \<le> 1"
  "0 \<le> hypothesisOrderingV1 inp \<and> hypothesisOrderingV1 inp \<le> 1"
  "0 \<le> troubleshootingV1 inp \<and> troubleshootingV1 inp \<le> 1"
  by (simp_all add: technicalCorrectnessV1_def taskCompletionV1_def efficiencyV1_def
      diagnosticEfficiencyV1_def hypothesisOrderingV1_def troubleshootingV1_def Let_def)

lemma criterion_bounds: "0 \<le> criterion k inp" "criterion k inp \<le> 1"
  using criterion_fn_bounds [of inp] by (simp_all add: criterion_def CRITERION_REGISTRY_def)

text \<open>No criterion reads the penalty counters.\<close>

definition with_penalties :: "real \<Rightarrow> nat \<Rightarrow> nat \<Rightarrow> nat \<Rightarrow> criterion_input \<Rightarrow> criterion_input" where
  "with_penalties h rs rt br inp = inp\<lparr>cr_hintPenaltyTotal := h, cr_resetCount := rs,
     cr_retryIndex := rt, cr_blastRadiusViolations := br\<rparr>"

lemma criterion_with_penalties [simp]: "criterion k (with_penalties h rs rt br inp) = criterion k inp"
  by (simp add: criterion_def CRITERION_REGISTRY_def with_penalties_def technicalCorrectnessV1_def
      taskCompletionV1_def efficiencyV1_def diagnosticEfficiencyV1_def hypothesisOrderingV1_def
      troubleshootingV1_def)

section \<open>The engine\<close>

definition weighted_sum :: "criterion_input \<Rightarrow> scoring_profile \<Rightarrow> real" where
  "weighted_sum inp profile = sum_list (map (\<lambda>(k, w). criterion k inp * w) (pf_weights profile))"

definition cfg_ok :: "(real \<times> real) option \<Rightarrow> bool" where
  "cfg_ok c = (case c of None \<Rightarrow> True | Some (per, cap) \<Rightarrow> 0 \<le> per \<and> 0 \<le> cap)"

definition profile_ok :: "scoring_profile \<Rightarrow> bool" where
  "profile_ok p \<longleftrightarrow> list_all (\<lambda>(k, w). registered k \<and> 0 \<le> w) (pf_weights p) \<and>
     sum_list (map snd (pf_weights p)) = 1 \<and>
     cfg_ok (pf_resets p) \<and> cfg_ok (pf_retries p) \<and> cfg_ok (pf_blastRadius p) \<and> cfg_ok (pf_overtime p) \<and>
     (case pf_hints_cap p of None \<Rightarrow> True | Some cap \<Rightarrow> 0 \<le> cap) \<and>
     (case pf_firstTryPass p of None \<Rightarrow> True | Some b \<Rightarrow> 0 \<le> b) \<and>
     (case pf_minAfterPenalties p of None \<Rightarrow> True | Some g \<Rightarrow> 0 \<le> g \<and> g \<le> 1)"

lemma shipped_profiles_ok: "profile_ok GUIDED_LAB_DEFAULT_PROFILE" "profile_ok PRODUCTION_SIM_DEFAULT_PROFILE"
  by (simp_all add: profile_ok_def cfg_ok_def registered_def CRITERION_REGISTRY_def
      GUIDED_LAB_DEFAULT_PROFILE_def PRODUCTION_SIM_DEFAULT_PROFILE_def)

lemma score_criteria_ok:
  assumes "list_all (\<lambda>(k, w). registered k \<and> 0 \<le> w) ws"
  shows "\<exists>cs. score_criteria i inp ws = Inr cs \<and>
    map (\<lambda>(k, ver, v, w). (k, v, w)) cs = map (\<lambda>(k, w). (k, criterion k inp, w)) ws"
  using assms
proof (induction ws)
  case (Cons kw ws)
  obtain k w where kw: "kw = (k, w)" by force
  from Cons obtain cs where cs: "score_criteria i inp ws = Inr cs"
    "map (\<lambda>(k, ver, v, w). (k, v, w)) cs = map (\<lambda>(k, w). (k, criterion k inp, w)) ws" by auto
  from Cons.prems kw obtain ver fn where "map_of CRITERION_REGISTRY k = Some (ver, fn)"
    by (auto simp: registered_def)
  then show ?case using cs kw by (simp add: criterion_def)
qed simp

lemma score_ok:
  assumes "profile_ok p"
  obtains b where "score inp p first = Inr b"
    and "sb_finalScore b = final_score (weighted_sum inp p) (sum_list (map snd (penalties_of inp p)))
      (sum_list (map snd (bonuses_of p first))) p"
    and "sb_passed b = (sb_finalScore b \<ge> pf_passThreshold p)"
    and "sb_criteria b = map (\<lambda>(k, w). (k, criterion k inp, w)) (pf_weights p)"
    and "sb_penalties b = penalties_of inp p"
proof -
  from assms obtain cs where cs: "score_criteria (pf_id p) inp (pf_weights p) = Inr cs"
    "map (\<lambda>(k, ver, v, w). (k, v, w)) cs = map (\<lambda>(k, w). (k, criterion k inp, w)) (pf_weights p)"
    using score_criteria_ok unfolding profile_ok_def by blast
  have "sum_list (map (\<lambda>(k, ver, v, w). v * w) cs) =
      sum_list (map (\<lambda>(k, v, w). v * w) (map (\<lambda>(k, ver, v, w). (k, v, w)) cs))"
    by (simp add: comp_def case_prod_unfold)
  also have "\<dots> = weighted_sum inp p"
    unfolding cs(2) weighted_sum_def by (simp add: comp_def case_prod_unfold)
  finally show thesis using that cs by (simp add: score_def Let_def)
qed

lemma weighted_sum_bounds:
  assumes "profile_ok p"
  shows "0 \<le> weighted_sum inp p" "weighted_sum inp p \<le> 1"
proof -
  have *: "0 \<le> sum_list (map (\<lambda>(k, w). criterion k inp * w) ws) \<and>
      sum_list (map (\<lambda>(k, w). criterion k inp * w) ws) \<le> sum_list (map snd ws)"
    if "list_all (\<lambda>(k, w). registered k \<and> 0 \<le> w) ws" for ws
    using that
  proof (induction ws)
    case (Cons kw ws)
    obtain k w where kw: "kw = (k, w)" by force
    have "0 \<le> criterion k inp * w" "criterion k inp * w \<le> w"
      using Cons.prems kw criterion_bounds mult_right_mono [of "criterion k inp" 1 w] by auto
    then show ?case using Cons kw by auto
  qed simp
  show "0 \<le> weighted_sum inp p" "weighted_sum inp p \<le> 1"
    using * [of "pf_weights p"] assms by (simp_all add: weighted_sum_def profile_ok_def)
qed

lemma capped_mono:
  "cfg_ok c \<Longrightarrow> 0 \<le> x \<Longrightarrow> x \<le> y \<Longrightarrow> 0 \<le> sum_list (map snd (capped n x c)) \<and>
   sum_list (map snd (capped n x c)) \<le> sum_list (map snd (capped n y c))"
  by (auto simp: cfg_ok_def capped_def min_def mult_right_mono split: option.splits)
    (meson mult_right_mono order_trans)

lemma penalties_mono:
  assumes "profile_ok p" and "0 \<le> cr_hintPenaltyTotal inp" and "cr_hintPenaltyTotal inp \<le> h"
    and "cr_resetCount inp \<le> rs" and "cr_retryIndex inp \<le> rt" and "cr_blastRadiusViolations inp \<le> br"
  shows "sum_list (map snd (penalties_of inp p)) \<le>
      sum_list (map snd (penalties_of (with_penalties h rs rt br inp) p))"
    and "0 \<le> sum_list (map snd (penalties_of inp p))"
proof -
  have cfg: "cfg_ok (pf_resets p)" "cfg_ok (pf_retries p)" "cfg_ok (pf_blastRadius p)" "cfg_ok (pf_overtime p)"
    using assms(1) by (simp_all add: profile_ok_def)
  let ?o = "real_of_int \<lfloor>max 0 (cr_activeMinutes inp - cr_estimatedMinutes inp) / 10\<rfloor>"
  note m = capped_mono [OF cfg(1), of "real (cr_resetCount inp)" "real rs"]
    capped_mono [OF cfg(2), of "real (cr_retryIndex inp)" "real rt"]
    capped_mono [OF cfg(3), of "real (cr_blastRadiusViolations inp)" "real br"]
    capped_mono [OF cfg(4), of ?o ?o]
  have hint: "0 \<le> min (cr_hintPenaltyTotal inp) cap \<and> min (cr_hintPenaltyTotal inp) cap \<le> min h cap"
    if "pf_hints_cap p = Some cap" for cap
    using that assms(1-3) by (auto simp: profile_ok_def)
  show "sum_list (map snd (penalties_of inp p)) \<le> sum_list (map snd (penalties_of (with_penalties h rs rt br inp) p))"
    and "0 \<le> sum_list (map snd (penalties_of inp p))"
    using m assms hint
    by (auto simp: penalties_of_def with_penalties_def Let_def split: option.splits intro!: add_mono add_nonneg_nonneg)
qed

lemma bonus_nonneg: "profile_ok p \<Longrightarrow> 0 \<le> sum_list (map snd (bonuses_of p f))"
  by (auto simp: bonuses_of_def profile_ok_def split: option.splits)

lemma final_score_range: "0 \<le> final_score ws pen bon p" "final_score ws pen bon p \<le> 1"
  by (simp_all add: final_score_def Let_def)

lemma score_total:
  assumes "profile_ok p"
  shows "\<exists>b. score inp p f = Inr b \<and> sb_passed b = (sb_finalScore b \<ge> pf_passThreshold p) \<and>
    0 \<le> sb_finalScore b \<and> sb_finalScore b \<le> 1"
proof (rule score_ok [OF assms])
  fix b assume "score inp p f = Inr b" "sb_passed b = (sb_finalScore b \<ge> pf_passThreshold p)"
    "sb_finalScore b = final_score (weighted_sum inp p) (sum_list (map snd (penalties_of inp p)))
      (sum_list (map snd (bonuses_of p f))) p"
  then show ?thesis using final_score_range by (intro exI [of _ b]) simp
qed

lemma final_score_antimono:
  "pen \<le> pen' \<Longrightarrow> final_score ws pen' bon p \<le> final_score ws pen bon p"
  by (auto simp: final_score_def Let_def split: option.splits)

lemma final_score_upper:
  "pf_minAfterPenalties p = Some g \<Longrightarrow> g \<le> ws \<Longrightarrow> 0 \<le> pen \<Longrightarrow> 0 \<le> bon \<Longrightarrow> 0 \<le> ws \<Longrightarrow>
   final_score ws pen bon p \<le> ws + bon"
  by (auto simp: final_score_def Let_def)

section \<open>Properties\<close>

text \<open>C22. Scoring is total and sound: for every well-formed profile (the two shipped ones are) the
  engine returns a score in [0,1]; the attempt passes exactly when that score reaches the pass
  threshold; a working solution, one whose criteria alone reach the threshold, keeps at least the
  guard value however large its penalties; and penalties never make a solution pass that its
  criteria and bonus would not.\<close>

theorem score_sound:
  assumes "profile_ok p" and "0 \<le> cr_hintPenaltyTotal inp"
  shows "\<exists>b. score inp p first = Inr b
    \<and> 0 \<le> sb_finalScore b \<and> sb_finalScore b \<le> 1
    \<and> (sb_passed b \<longleftrightarrow> pf_passThreshold p \<le> sb_finalScore b)
    \<and> (\<forall>g. pf_minAfterPenalties p = Some g \<and> pf_passThreshold p \<le> weighted_sum inp p \<longrightarrow> g \<le> sb_finalScore b)
    \<and> (weighted_sum inp p < pf_passThreshold p \<longrightarrow>
        sb_finalScore b \<le> weighted_sum inp p + sum_list (map snd (bonuses_of p first)))"
proof -
  obtain b where b: "score inp p first = Inr b"
    "sb_finalScore b = final_score (weighted_sum inp p) (sum_list (map snd (penalties_of inp p)))
      (sum_list (map snd (bonuses_of p first))) p" "sb_passed b = (sb_finalScore b \<ge> pf_passThreshold p)"
    using score_ok [OF assms(1)] by blast
  have pen: "0 \<le> sum_list (map snd (penalties_of inp p))"
    using penalties_mono(2) [OF assms(1,2) order_refl order_refl order_refl order_refl] .
  have g: "g \<le> 1" if "pf_minAfterPenalties p = Some g" for g
    using that assms(1) by (simp add: profile_ok_def)
  show ?thesis
    using b pen bonus_nonneg [OF assms(1), of first] weighted_sum_bounds(1) [OF assms(1), of inp] g
    by (intro exI [of _ b]) (auto simp: final_score_def Let_def split: option.splits)
qed

definition demo_outcome :: "validator_status \<Rightarrow> severity \<Rightarrow> real \<Rightarrow> validator_outcome" where
  "demo_outcome st sev w = \<lparr>vo_validatorId = ''v'', vo_status = st, vo_severity = sev, vo_weight = w\<rparr>"

definition demo_input :: "validator_outcome list \<Rightarrow> bool \<Rightarrow> criterion_input" where
  "demo_input vs passed = \<lparr>cr_taskResults = [\<lparr>su_taskKey = ''t'', su_required = True, su_passed = passed, su_results = vs\<rparr>],
     cr_hintPenaltyTotal = 0, cr_resetCount = 0, cr_retryIndex = 0, cr_activeMinutes = 5,
     cr_estimatedMinutes = 30, cr_preSubmitValidationRunCount = 1, cr_blastRadiusViolations = 0,
     cr_diagnosticEfficiencyGoodCount = 0, cr_diagnosticEfficiencyBadCount = 0,
     cr_commandSequence = [], cr_canonicalDiagnosticPaths = []\<rparr>"

theorem score_sound_witness:
  "profile_ok GUIDED_LAB_DEFAULT_PROFILE \<and>
   (\<exists>b. score (demo_input [demo_outcome VPASS BLOCKING 1] True) GUIDED_LAB_DEFAULT_PROFILE True = Inr b
     \<and> sb_finalScore b \<le> 1)"
  using score_sound [OF shipped_profiles_ok(1), of "demo_input [demo_outcome VPASS BLOCKING 1] True" True]
    shipped_profiles_ok(1)
  by (auto simp: demo_input_def)

text \<open>Property. Penalties are monotone: with the same work, more hint penalty, more resets, a later retry
  or more blast-radius violations never give a higher score, and can never turn a failed attempt
  into a passed one.\<close>

theorem penalties_antitone:
  assumes "profile_ok p" and "0 \<le> cr_hintPenaltyTotal inp" and "cr_hintPenaltyTotal inp \<le> h"
    and "cr_resetCount inp \<le> rs" and "cr_retryIndex inp \<le> rt" and "cr_blastRadiusViolations inp \<le> br"
  shows "\<exists>b b'. score inp p first = Inr b \<and> score (with_penalties h rs rt br inp) p first = Inr b'
    \<and> sb_finalScore b' \<le> sb_finalScore b \<and> (sb_passed b' \<longrightarrow> sb_passed b)"
proof -
  have ws: "weighted_sum (with_penalties h rs rt br inp) p = weighted_sum inp p"
    by (simp add: weighted_sum_def)
  obtain b where b: "score inp p first = Inr b"
    "sb_finalScore b = final_score (weighted_sum inp p) (sum_list (map snd (penalties_of inp p)))
      (sum_list (map snd (bonuses_of p first))) p" "sb_passed b = (sb_finalScore b \<ge> pf_passThreshold p)"
    using score_ok [OF assms(1)] by blast
  obtain b' where b': "score (with_penalties h rs rt br inp) p first = Inr b'"
    "sb_finalScore b' = final_score (weighted_sum inp p)
      (sum_list (map snd (penalties_of (with_penalties h rs rt br inp) p)))
      (sum_list (map snd (bonuses_of p first))) p" "sb_passed b' = (sb_finalScore b' \<ge> pf_passThreshold p)"
    using score_ok [OF assms(1), of "with_penalties h rs rt br inp" first] ws by metis
  have "sb_finalScore b' \<le> sb_finalScore b"
    unfolding b b' by (rule final_score_antimono) (rule penalties_mono(1) [OF assms])
  then show ?thesis using b b' by auto
qed

theorem penalties_antitone_witness:
  "\<exists>b b'. score (demo_input [demo_outcome VPASS BLOCKING 1] True) GUIDED_LAB_DEFAULT_PROFILE True = Inr b
    \<and> score (with_penalties (1/10) 1 0 0 (demo_input [demo_outcome VPASS BLOCKING 1] True))
        GUIDED_LAB_DEFAULT_PROFILE True = Inr b'
    \<and> sb_finalScore b' \<le> sb_finalScore b"
  using penalties_antitone [OF shipped_profiles_ok(1), of "demo_input [demo_outcome VPASS BLOCKING 1] True" "1/10" 1 0 0 True]
  by (force simp: demo_input_def)

lemma no_pass_correctness:
  assumes "\<forall>t \<in> set (cr_taskResults inp). \<forall>v \<in> set (su_results t). vo_status v \<noteq> VPASS"
  shows "technicalCorrectnessV1 inp = 0"
proof -
  have "filter (\<lambda>v. vo_status v = VPASS) (filter (\<lambda>v. vo_status v \<noteq> VERROR)
      (concat (map su_results (cr_taskResults inp)))) = []"
    using assms by (auto simp: filter_empty_conv)
  then show ?thesis by (simp add: technicalCorrectnessV1_def Let_def)
qed

text \<open>Property. No free pass: under either shipped profile an attempt in which no validator passed is
  not passed, whatever its speed, its command history and its retry bonus.\<close>

theorem no_free_pass:
  assumes "\<forall>t \<in> set (cr_taskResults inp). \<forall>v \<in> set (su_results t). vo_status v \<noteq> VPASS"
    and "0 \<le> cr_hintPenaltyTotal inp"
    and "p \<in> {GUIDED_LAB_DEFAULT_PROFILE, PRODUCTION_SIM_DEFAULT_PROFILE}"
  shows "\<exists>b. score inp p first = Inr b \<and> \<not> sb_passed b"
proof -
  have ok: "profile_ok p" using assms(3) shipped_profiles_ok by auto
  obtain b where b: "score inp p first = Inr b"
    "sb_finalScore b = final_score (weighted_sum inp p) (sum_list (map snd (penalties_of inp p)))
      (sum_list (map snd (bonuses_of p first))) p" "sb_passed b = (sb_finalScore b \<ge> pf_passThreshold p)"
    using score_ok [OF ok] by blast
  have ws: "weighted_sum inp p \<le> 55/100"
    using assms(3) no_pass_correctness [OF assms(1)] criterion_fn_bounds [of inp]
    by (auto simp: weighted_sum_def criterion_def CRITERION_REGISTRY_def GUIDED_LAB_DEFAULT_PROFILE_def
        PRODUCTION_SIM_DEFAULT_PROFILE_def)
  have bon: "sum_list (map snd (bonuses_of p first)) \<le> 2/100" and thr: "pf_passThreshold p = 7/10"
    using assms(3) by (auto simp: bonuses_of_def GUIDED_LAB_DEFAULT_PROFILE_def PRODUCTION_SIM_DEFAULT_PROFILE_def)
  have "sb_finalScore b < 7/10"
    using ws bon thr penalties_mono(2) [OF ok assms(2) order_refl order_refl order_refl order_refl]
    unfolding b by (auto simp: final_score_def Let_def max_def split: option.splits)
  then show ?thesis using b thr by (intro exI [of _ b]) simp
qed

theorem no_free_pass_witness:
  "\<exists>b. score (demo_input [demo_outcome VFAIL BLOCKING 1] False) GUIDED_LAB_DEFAULT_PROFILE True = Inr b
     \<and> \<not> sb_passed b"
  using no_free_pass [of "demo_input [demo_outcome VFAIL BLOCKING 1] False" GUIDED_LAB_DEFAULT_PROFILE True]
  by (simp add: demo_input_def demo_outcome_def)

text \<open>Property. The retry cooldown is between one and seven days after the failure, doubles with each
  consecutive failure until the cap, and never shrinks.\<close>

theorem cooldown_schedule:
  "now + BASE_COOLDOWN_MS \<le> computeCooldownUntil i now
   \<and> computeCooldownUntil i now \<le> now + MAX_COOLDOWN_MS
   \<and> computeCooldownUntil i now \<le> computeCooldownUntil (i + 1) now
   \<and> computeCooldownUntil (i + 1) now = now + min (2 * (computeCooldownUntil i now - now)) MAX_COOLDOWN_MS
   \<and> computeCooldownUntil (i + 3) now = now + MAX_COOLDOWN_MS"
proof -
  have one: "(1::int) \<le> 2 ^ i" by simp
  then have "\<not> 8 * (2::int) ^ i \<le> 7" by linarith
  moreover have "(2::int) ^ (3 + i) = 8 * 2 ^ i" by (simp add: power_add)
  ultimately show ?thesis
    by (simp add: add.commute [of i] computeCooldownUntil_def Let_def BASE_COOLDOWN_MS_def MAX_COOLDOWN_MS_def min_def)
qed

text \<open>Two observations on the shipped numbers. The first-try bonus is paid on a first attempt
  whether or not it passes, so it decides attempts just below the threshold; and the capped
  blast-radius penalty alone leaves an otherwise clean first attempt above the threshold.\<close>

lemma first_try_bonus_decides:
  "\<exists>b. score (demo_input [demo_outcome VPASS BLOCKING 39, demo_outcome VFAIL WARN 31] True)
      GUIDED_LAB_DEFAULT_PROFILE True = Inr b \<and> sb_passed b \<and>
    weighted_sum (demo_input [demo_outcome VPASS BLOCKING 39, demo_outcome VFAIL WARN 31] True)
      GUIDED_LAB_DEFAULT_PROFILE < pf_passThreshold GUIDED_LAB_DEFAULT_PROFILE"
  by (simp add: score_def Let_def weighted_sum_def criterion_def CRITERION_REGISTRY_def demo_input_def demo_outcome_def
      GUIDED_LAB_DEFAULT_PROFILE_def penalties_of_def capped_def bonuses_of_def final_score_def
      technicalCorrectnessV1_def taskCompletionV1_def efficiencyV1_def)

lemma blast_radius_cap_still_passes:
  "\<exists>b. score ((demo_input [demo_outcome VPASS BLOCKING 1] True)\<lparr>cr_blastRadiusViolations := n + 2\<rparr>)
      PRODUCTION_SIM_DEFAULT_PROFILE True = Inr b \<and> sb_finalScore b = 72/100 \<and> sb_passed b"
  by (simp add: score_def Let_def criterion_def CRITERION_REGISTRY_def demo_input_def demo_outcome_def
      PRODUCTION_SIM_DEFAULT_PROFILE_def penalties_of_def capped_def bonuses_of_def final_score_def
      technicalCorrectnessV1_def troubleshootingV1_def diagnosticEfficiencyV1_def hypothesisOrderingV1_def
      min_def max_def)

end
