(* ===== verification/ValidatorRunner.thy ===== *)
theory ValidatorRunner
  imports Replay Scoring AttemptRepository
begin

text \<open>
  \<open>evaluation/validator-runner.service.ts\<close>. The executor is not part of the repository's
  deterministic code (a gRPC call into a live environment), so it is an argument: what it answers
  to the \<open>n\<close>-th try of a validator of a task, and after how many milliseconds it settles, if
  ever. The timeout race, the retry loop, the event and result rows, and the task verdict are the
  service's.
\<close>

section \<open>Model\<close>

record exec_result =
  xr_validatorId :: string
  xr_status :: validator_status
  xr_observed :: "json option"
  xr_expected :: "json option"
  xr_durationMs :: nat

record exec_answer =
  xa_result :: "exn + exec_result"
  xa_settles :: "nat option"

text \<open>Task key, environment, attempt, validator, number of the try.\<close>

type_synonym executor = "string \<Rightarrow> string \<Rightarrow> string \<Rightarrow> validator_spec \<Rightarrow> nat \<Rightarrow> exec_answer"

text \<open>\<open>withTimeout\<close>: the race of the promise against the timer.\<close>

definition withTimeout :: "exec_answer \<Rightarrow> nat \<Rightarrow> exn + exec_result" where
  "withTimeout ans ms = (case xa_settles ans of
     None \<Rightarrow> Inl (Err ''validator timeout'')
   | Some t \<Rightarrow> if ms < t then Inl (Err ''validator timeout'') else xa_result ans)"

definition error_result :: "validator_spec \<Rightarrow> nat \<Rightarrow> exec_result" where
  "error_result spec d = \<lparr>xr_validatorId = vs_id spec, xr_status = VERROR, xr_observed = None,
     xr_expected = None, xr_durationMs = d\<rparr>"

definition maxAttempts :: nat where "maxAttempts = 3"

function try_from :: "(nat \<Rightarrow> exec_answer) \<Rightarrow> validator_spec \<Rightarrow> nat \<Rightarrow> nat \<Rightarrow> exec_result" where
  "try_from exec spec timeoutMs attempt =
     (if attempt > maxAttempts then error_result spec 0
      else case withTimeout (exec attempt) timeoutMs of
        Inr result \<Rightarrow>
          if xr_status result \<noteq> VERROR \<or> attempt = maxAttempts then result
          else try_from exec spec timeoutMs (attempt + 1)
      | Inl _ \<Rightarrow>
          if attempt = maxAttempts then error_result spec timeoutMs
          else try_from exec spec timeoutMs (attempt + 1))"
  by pat_completeness auto
termination by (relation "measure (\<lambda>(_, _, _, attempt). Suc maxAttempts - attempt)") auto

declare try_from.simps [simp del]

definition executeWithTimeoutAndRetry ::
    "executor \<Rightarrow> string \<Rightarrow> string \<Rightarrow> string \<Rightarrow> validator_spec \<Rightarrow> exec_result" where
  "executeWithTimeoutAndRetry ex taskKey environmentId attemptId spec =
     (let timeoutMs = (case vs_timeout_ms spec of None \<Rightarrow> 5000 | Some t \<Rightarrow> t)
      in try_from (ex taskKey environmentId attemptId spec) spec timeoutMs 1)"

text \<open>\<open>new Map(validators.map(v => [v.id, ...]))\<close>: the last entry of an id wins.\<close>

definition validatorMeta :: "task_spec \<Rightarrow> string \<Rightarrow> (severity \<times> real) option" where
  "validatorMeta task = map_of (rev (map (\<lambda>v.
     (vs_id v, case vs_severity v of None \<Rightarrow> BLOCKING | Some sv \<Rightarrow> sv, vs_weight v)) (tk_validators task)))"

definition severity_of :: "task_spec \<Rightarrow> string \<Rightarrow> severity" where
  "severity_of task i = (case validatorMeta task i of None \<Rightarrow> BLOCKING | Some (sv, w) \<Rightarrow> sv)"

definition weight_of :: "task_spec \<Rightarrow> string \<Rightarrow> real" where
  "weight_of task i = (case validatorMeta task i of None \<Rightarrow> 1 | Some (sv, w) \<Rightarrow> w)"

fun status_json :: "validator_status \<Rightarrow> json" where
  "status_json VPASS = JStr ''PASS''"
| "status_json VFAIL = JStr ''FAIL''"
| "status_json VERROR = JStr ''ERROR''"
| "status_json VSKIP = JStr ''SKIP''"

definition opt_field :: "string \<Rightarrow> json option \<Rightarrow> (string \<times> json) list" where
  "opt_field k x = (case x of None \<Rightarrow> [] | Some j \<Rightarrow> [(k, j)])"

definition result_payload :: "exec_result \<Rightarrow> json" where
  "result_payload r = JObj ([(''validator_id'', JStr (xr_validatorId r)), (''status'', status_json (xr_status r))]
     @ opt_field ''observed'' (xr_observed r) @ opt_field ''expected'' (xr_expected r))"

definition record_result :: "string \<Rightarrow> string \<Rightarrow> time \<Rightarrow> exec_result \<Rightarrow> unit prog" where
  "record_result attemptId runId now r =
     andthen (modify (\<lambda>s. s\<lparr>validator_results := validator_results s @
       [\<lparr>vres_run_id = runId, vres_validator_id = xr_validatorId r, vres_status = xr_status r,
        vres_observed = xr_observed r, vres_expected = xr_expected r, vres_duration_ms = xr_durationMs r\<rparr>]\<rparr>))
     (appendTypedEvent attemptId VALIDATOR EV_VALIDATOR_RESULT (result_payload r) now)"

definition task_results :: "executor \<Rightarrow> string \<Rightarrow> string \<Rightarrow> task_spec \<Rightarrow> exec_result list" where
  "task_results ex environmentId attemptId task =
     map (executeWithTimeoutAndRetry ex (tk_key task) environmentId attemptId) (tk_validators task)"

definition task_passed :: "task_spec \<Rightarrow> exec_result list \<Rightarrow> bool" where
  "task_passed task results =
     (let scorable = filter (\<lambda>r. xr_status r \<noteq> VERROR) results;
          blockingResults = filter (\<lambda>r. severity_of task (xr_validatorId r) = BLOCKING) scorable
      in length blockingResults > 0 \<and> list_all (\<lambda>r. xr_status r = VPASS) blockingResults)"

definition summary_of :: "task_spec \<Rightarrow> exec_result list \<Rightarrow> task_summary" where
  "summary_of task results = \<lparr>su_taskKey = tk_key task, su_required = tk_required task,
     su_passed = task_passed task results,
     su_results = map (\<lambda>r. \<lparr>vo_validatorId = xr_validatorId r, vo_status = xr_status r,
        vo_severity = severity_of task (xr_validatorId r), vo_weight = weight_of task (xr_validatorId r)\<rparr>) results\<rparr>"

definition task_payload :: "string \<Rightarrow> json" where
  "task_payload k = JObj [(''task'', JStr k)]"

definition run_task ::
    "executor \<Rightarrow> string \<Rightarrow> string \<Rightarrow> string \<Rightarrow> time \<Rightarrow> task_spec \<Rightarrow> task_summary prog" where
  "run_task ex environmentId attemptId runId now task =
     (let results = task_results ex environmentId attemptId task;
          taskPassed = task_passed task results in
      andthen (for_each results (record_result attemptId runId now))
      (andthen (appendTypedEvent attemptId SYSTEM (if taskPassed then EV_TASK_PASSED else EV_TASK_FAILED)
         (task_payload (tk_key task)) now)
      (ret (summary_of task results))))"

datatype run_scope = ScopeAll | ScopeTask string

definition tasks_in_scope :: "run_scope \<Rightarrow> task_spec list \<Rightarrow> task_spec list" where
  "tasks_in_scope sc tasks = (case sc of ScopeAll \<Rightarrow> tasks | ScopeTask k \<Rightarrow> filter (\<lambda>t. tk_key t = k) tasks)"

definition scope_str :: "run_scope \<Rightarrow> string" where
  "scope_str sc = (case sc of ScopeAll \<Rightarrow> ''all'' | ScopeTask k \<Rightarrow> ''task:'' @ k)"

definition run_validation ::
    "executor \<Rightarrow> string \<Rightarrow> string \<Rightarrow> run_scope \<Rightarrow> string \<Rightarrow> task_spec list \<Rightarrow> string \<Rightarrow> time \<Rightarrow> task_summary list prog" where
  "run_validation ex attemptId environmentId sc trigger tasks runId now =
     andthen (modify (\<lambda>s. s\<lparr>validation_runs := validation_runs s @
       [\<lparr>vr_id = runId, vr_attempt_id = attemptId, vr_scope = scope_str sc, vr_trigger = trigger,
        vr_started_at = now, vr_finished_at = None, vr_status = ''RUNNING''\<rparr>]\<rparr>))
     (andthen (appendTypedEvent attemptId SYSTEM EV_VALIDATION_REQUESTED
        (JObj [(''scope'', JStr (scope_str sc)), (''trigger'', JStr trigger)]) now)
     (bnd (map_io (run_task ex environmentId attemptId runId now) (tasks_in_scope sc tasks)) (\<lambda>summaries.
     andthen (modify (\<lambda>s. s\<lparr>validation_runs := update_where (\<lambda>r. vr_id r = runId)
        (\<lambda>r. r\<lparr>vr_status := ''COMPLETED'', vr_finished_at := Some now\<rparr>) (validation_runs s)\<rparr>))
     (ret summaries))))"

section \<open>What a run writes\<close>

definition result_event :: "time \<Rightarrow> exec_result \<Rightarrow> event_body" where
  "result_event now r = (VALIDATOR, EV_VALIDATOR_RESULT, result_payload r, now)"

definition task_events :: "executor \<Rightarrow> string \<Rightarrow> string \<Rightarrow> time \<Rightarrow> task_spec \<Rightarrow> event_body list" where
  "task_events ex env a now task =
     (let rs = task_results ex env a task in
      map (result_event now) rs @
      [(SYSTEM, if task_passed task rs then EV_TASK_PASSED else EV_TASK_FAILED, task_payload (tk_key task), now)])"

definition run_events ::
    "executor \<Rightarrow> string \<Rightarrow> string \<Rightarrow> run_scope \<Rightarrow> string \<Rightarrow> task_spec list \<Rightarrow> time \<Rightarrow> event_body list" where
  "run_events ex a env sc trigger tasks now =
     (SYSTEM, EV_VALIDATION_REQUESTED, JObj [(''scope'', JStr (scope_str sc)), (''trigger'', JStr trigger)], now)
     # concat (map (task_events ex env a now) (tasks_in_scope sc tasks))"

text \<open>The tables a run does not write.\<close>

definition rest :: "db \<Rightarrow> db" where
  "rest s = s\<lparr>events := [], validator_results := [], validation_runs := []\<rparr>"

lemma restD:
  assumes "rest s' = rest s"
  shows "attempts s' = attempts s" "task_states s' = task_states s" "signals s' = signals s"
    "scores s' = scores s" "versions s' = versions s" "activity_skills s' = activity_skills s"
    "skills s' = skills s" "masteries s' = masteries s" "evidence s' = evidence s"
    "learner_activities s' = learner_activities s" "milestones s' = milestones s"
    "submissions s' = submissions s" "skill_closure s' = skill_closure s"
  using assms [THEN arg_cong [where f = attempts]] assms [THEN arg_cong [where f = task_states]]
    assms [THEN arg_cong [where f = signals]] assms [THEN arg_cong [where f = scores]]
    assms [THEN arg_cong [where f = versions]] assms [THEN arg_cong [where f = activity_skills]]
    assms [THEN arg_cong [where f = skills]] assms [THEN arg_cong [where f = masteries]]
    assms [THEN arg_cong [where f = evidence]] assms [THEN arg_cong [where f = learner_activities]]
    assms [THEN arg_cong [where f = milestones]] assms [THEN arg_cong [where f = submissions]]
    assms [THEN arg_cong [where f = skill_closure]]
  by (simp_all add: rest_def)

definition adds :: "string \<Rightarrow> event_body list \<Rightarrow> db \<Rightarrow> db \<Rightarrow> bool" where
  "adds a es s s' \<longleftrightarrow> log_ok s' \<and> (\<forall>b. log_of b s' = log_of b s @ (if b = a then es else [])) \<and> rest s' = rest s"

lemma adds_trans: "adds a es s s' \<Longrightarrow> adds a es' s' s'' \<Longrightarrow> adds a (es @ es') s s''"
  by (auto simp: adds_def)

lemma adds_nil: "log_ok s \<Longrightarrow> events s' = events s \<Longrightarrow> rest s' = rest s \<Longrightarrow> adds a [] s s'"
  by (simp add: adds_def log_ok_def log_of_def replay_def)

lemma adds_event:
  "log_ok s \<Longrightarrow> adds a [(actor, ty, p, t)] s (s\<lparr>events := events s @ [new_event a actor ty p t s]\<rparr>)"
  by (simp add: adds_def log_ok_append log_of_append) (simp add: rest_def)

lemma adds_log_ok: "adds a es s s' \<Longrightarrow> log_ok s'"
  by (simp add: adds_def)

lemma record_result_adds:
  "log_ok s \<Longrightarrow> \<exists>s'. record_result a rid now r s = (Inr (), s') \<and> adds a [result_event now r] s s'"
proof -
  assume ok: "log_ok s"
  let ?s1 = "s\<lparr>validator_results := validator_results s @
       [\<lparr>vres_run_id = rid, vres_validator_id = xr_validatorId r, vres_status = xr_status r,
        vres_observed = xr_observed r, vres_expected = xr_expected r, vres_duration_ms = xr_durationMs r\<rparr>]\<rparr>"
  have "adds a [] s ?s1" by (rule adds_nil [OF ok]) (simp_all add: rest_def)
  from adds_trans [OF this adds_event [OF adds_log_ok [OF this]]] show ?thesis
    by (simp add: record_result_def result_event_def)
qed

lemma record_results_adds:
  "log_ok s \<Longrightarrow> \<exists>s'. for_each rs (record_result a rid now) s = (Inr (), s') \<and> adds a (map (result_event now) rs) s s'"
proof (induction rs arbitrary: s)
  case Nil
  then show ?case by (simp add: adds_nil)
next
  case (Cons r rs)
  obtain s1 where s1: "record_result a rid now r s = (Inr (), s1)" "adds a [result_event now r] s s1"
    using record_result_adds [OF Cons.prems] by blast
  obtain s2 where s2: "for_each rs (record_result a rid now) s1 = (Inr (), s2)"
      "adds a (map (result_event now) rs) s1 s2"
    using Cons.IH [OF adds_log_ok [OF s1(2)]] by blast
  show ?case using s1(1) s2(1) adds_trans [OF s1(2) s2(2)] by simp
qed

lemma run_task_adds:
  assumes "log_ok s"
  shows "\<exists>s'. run_task ex env a rid now task s = (Inr (summary_of task (task_results ex env a task)), s')
    \<and> adds a (task_events ex env a now task) s s'"
proof -
  obtain s1 where s1: "for_each (task_results ex env a task) (record_result a rid now) s = (Inr (), s1)"
      "adds a (map (result_event now) (task_results ex env a task)) s s1"
    using record_results_adds [OF assms] by blast
  show ?thesis
    using s1(1) adds_trans [OF s1(2) adds_event [OF adds_log_ok [OF s1(2)]]]
    by (simp add: run_task_def Let_def task_events_def)
qed

lemma run_tasks_adds:
  "log_ok s \<Longrightarrow> \<exists>s'. map_io (run_task ex env a rid now) ts s =
      (Inr (map (\<lambda>task. summary_of task (task_results ex env a task)) ts), s')
    \<and> adds a (concat (map (task_events ex env a now) ts)) s s'"
proof (induction ts arbitrary: s)
  case Nil
  then show ?case by (simp add: adds_nil)
next
  case (Cons t ts)
  obtain s1 where s1: "run_task ex env a rid now t s = (Inr (summary_of t (task_results ex env a t)), s1)"
      "adds a (task_events ex env a now t) s s1"
    using run_task_adds [OF Cons.prems] by blast
  from Cons.IH [OF adds_log_ok [OF s1(2)]] s1(1) adds_trans [OF s1(2)] show ?case by fastforce
qed

lemma run_validation_adds:
  assumes "log_ok s"
  shows "\<exists>s'. run_validation ex a env sc trigger tasks rid now s =
      (Inr (map (\<lambda>task. summary_of task (task_results ex env a task)) (tasks_in_scope sc tasks)), s')
    \<and> adds a (run_events ex a env sc trigger tasks now) s s'"
proof -
  let ?run = "\<lparr>vr_id = rid, vr_attempt_id = a, vr_scope = scope_str sc, vr_trigger = trigger,
        vr_started_at = now, vr_finished_at = None, vr_status = ''RUNNING''\<rparr>"
  let ?s0 = "s\<lparr>validation_runs := validation_runs s @ [?run]\<rparr>"
  have a0: "adds a [] s ?s0" by (rule adds_nil [OF assms]) (simp_all add: rest_def)
  note a1 = adds_trans [OF a0 adds_event [OF adds_log_ok [OF a0]]]
  let ?req = "JObj [(''scope'', JStr (scope_str sc)), (''trigger'', JStr trigger)]"
  let ?s1 = "?s0\<lparr>events := events ?s0 @ [new_event a SYSTEM EV_VALIDATION_REQUESTED ?req now ?s0]\<rparr>"
  have a1: "adds a [(SYSTEM, EV_VALIDATION_REQUESTED, ?req, now)] s ?s1"
    using a1 [of SYSTEM EV_VALIDATION_REQUESTED ?req now] by simp
  obtain s2 where s2: "map_io (run_task ex env a rid now) (tasks_in_scope sc tasks) ?s1 =
      (Inr (map (\<lambda>task. summary_of task (task_results ex env a task)) (tasks_in_scope sc tasks)), s2)"
    "adds a (concat (map (task_events ex env a now) (tasks_in_scope sc tasks))) ?s1 s2"
    using run_tasks_adds [OF adds_log_ok [OF a1]] by blast
  let ?s3 = "s2\<lparr>validation_runs := update_where (\<lambda>r. vr_id r = rid) (\<lambda>r. r\<lparr>vr_status := ''COMPLETED'', vr_finished_at := Some now\<rparr>) (validation_runs s2)\<rparr>"
  have a3: "adds a [] s2 ?s3" by (rule adds_nil [OF adds_log_ok [OF s2(2)]]) (simp_all add: rest_def)
  show ?thesis
    using s2(1) adds_trans [OF adds_trans [OF a1 s2(2)] a3]
    by (simp add: run_validation_def run_events_def)
qed

lemma task_of_payload [simp]: "task_of (task_payload k) = Some k"
  by (simp add: task_of_def task_payload_def)

lemma run_events_types:
  assumes "(actor, ty, p, t) \<in> set (run_events ex a env sc trigger tasks now)"
    and "ty \<in> set task_event_types"
  shows "ty \<in> {EV_TASK_PASSED, EV_TASK_FAILED} \<and> task_of p \<noteq> None"
  using assms
  by (auto simp: run_events_def task_events_def result_event_def task_event_types_def Let_def split: if_splits)

lemma named_tasks_adds:
  assumes "named_tasks a s" and "adds a (run_events ex a env sc trigger tasks now) s s'"
  shows "named_tasks a s'"
proof -
  have "log_of a s' = log_of a s @ run_events ex a env sc trigger tasks now"
    using assms(2) by (simp add: adds_def)
  then show ?thesis using assms(1) run_events_types
    by (fastforce simp: named_tasks_def)
qed

text \<open>A task that passes in the run ends up passed in the derived state.\<close>

lemma passed_in_run:
  assumes "task \<in> set (tasks_in_scope sc tasks)" and "task_passed task (task_results ex env a task)"
  shows "d_status (task_view (Some (tk_key task)) (es @ run_events ex a env sc trigger tasks now)) = T_PASSED"
proof -
  let ?k = "Some (tk_key task)"
  obtain pre post where split: "tasks_in_scope sc tasks = pre @ task # post"
    using assms(1) by (meson split_list)
  define before where "before = es @ (SYSTEM, EV_VALIDATION_REQUESTED,
      JObj [(''scope'', JStr (scope_str sc)), (''trigger'', JStr trigger)], now)
      # concat (map (task_events ex env a now) pre) @ map (result_event now) (task_results ex env a task)"
  define after where "after = concat (map (task_events ex env a now) post)"
  let ?pass = "(SYSTEM, EV_TASK_PASSED, task_payload (tk_key task), now)"
  have eq: "es @ run_events ex a env sc trigger tasks now = (before @ [?pass]) @ after"
    using assms(2) by (simp add: run_events_def split before_def after_def task_events_def Let_def)
  have "d_status (task_view ?k (before @ [?pass])) = T_PASSED"
    by (simp add: task_view_snoc task_event_types_def Let_def)
  then show ?thesis
    unfolding eq
    by (rule passed_stays [THEN conjunct1]) (auto simp: after_def task_events_def result_event_def Let_def)
qed

section \<open>Properties\<close>

definition settled :: "exec_answer \<Rightarrow> nat \<Rightarrow> bool" where
  "settled ans ms \<longleftrightarrow> (case withTimeout ans ms of Inr r \<Rightarrow> xr_status r \<noteq> VERROR | Inl _ \<Rightarrow> False)"

text \<open>Property. The retry loop hides transient platform failures: of three tries the first one that
  settles within the validator's timeout with a verdict other than ERROR is the result; only when
  all three time out, are rejected or answer ERROR is the result ERROR, under the validator's own
  id or the last answer's. The loop always ends.\<close>

theorem retry_first_verdict:
  assumes "t = (case vs_timeout_ms spec of None \<Rightarrow> 5000 | Some ms \<Rightarrow> ms)"
    and "exec = ex k env a spec"
  shows "(\<forall>n \<in> {1, 2, 3}. settled (exec n) t \<and> (\<forall>m \<in> {1..<n}. \<not> settled (exec m) t) \<longrightarrow>
        withTimeout (exec n) t = Inr (executeWithTimeoutAndRetry ex k env a spec))
    \<and> ((\<forall>n \<in> {1, 2, 3}. \<not> settled (exec n) t) \<longrightarrow>
        xr_status (executeWithTimeoutAndRetry ex k env a spec) = VERROR)"
proof -
  have run: "executeWithTimeoutAndRetry ex k env a spec = try_from exec spec t 1"
    by (simp add: executeWithTimeoutAndRetry_def assms)
  have u1: "try_from exec spec t 1 = (case withTimeout (exec 1) t of
      Inr r \<Rightarrow> if xr_status r \<noteq> VERROR then r else try_from exec spec t 2 | Inl _ \<Rightarrow> try_from exec spec t 2)"
    by (subst try_from.simps) (auto simp: maxAttempts_def numeral_2_eq_2 split: sum.split)
  have u2: "try_from exec spec t 2 = (case withTimeout (exec 2) t of
      Inr r \<Rightarrow> if xr_status r \<noteq> VERROR then r else try_from exec spec t 3 | Inl _ \<Rightarrow> try_from exec spec t 3)"
    by (subst try_from.simps) (auto simp: maxAttempts_def split: sum.split)
  have u3: "try_from exec spec t 3 = (case withTimeout (exec 3) t of Inr r \<Rightarrow> r | Inl _ \<Rightarrow> error_result spec t)"
    by (subst try_from.simps) (auto simp: maxAttempts_def split: sum.split)
  have "{1..<2::nat} = {1}" "{1..<3::nat} = {1, 2}" by auto
  then show ?thesis unfolding run
    by (auto simp: u1 u2 u3 settled_def error_result_def simp del: One_nat_def split: sum.splits)
qed

definition demo_validator :: validator_spec where
  "demo_validator = \<lparr>vs_id = ''v1'', vs_type = ''SHELL_ASSERT'', vs_weight = 1, vs_severity = None, vs_timeout_ms = None\<rparr>"

definition demo_exec :: executor where
  "demo_exec k env a spec n = \<lparr>xa_result = Inr \<lparr>xr_validatorId = vs_id spec,
     xr_status = (if n = 1 then VERROR else VPASS), xr_observed = None, xr_expected = None, xr_durationMs = 3\<rparr>,
     xa_settles = Some 3\<rparr>"

theorem retry_first_verdict_witness:
  "xr_status (executeWithTimeoutAndRetry demo_exec ''t'' ''env'' ''a'' demo_validator) = VPASS"
proof -
  have s: "settled (demo_exec ''t'' ''env'' ''a'' demo_validator 2) 5000"
    "\<not> settled (demo_exec ''t'' ''env'' ''a'' demo_validator 1) 5000"
    by (simp_all add: settled_def withTimeout_def demo_exec_def)
  have "{1..<2::nat} = {1}" by auto
  then have "withTimeout (demo_exec ''t'' ''env'' ''a'' demo_validator 2) 5000 =
      Inr (executeWithTimeoutAndRetry demo_exec ''t'' ''env'' ''a'' demo_validator)"
    using retry_first_verdict [of 5000 demo_validator "demo_exec ''t'' ''env'' ''a'' demo_validator" demo_exec
        "''t''" "''env''" "''a''"] s
    by (simp add: demo_validator_def)
  then have "executeWithTimeoutAndRetry demo_exec ''t'' ''env'' ''a'' demo_validator =
      \<lparr>xr_validatorId = vs_id demo_validator, xr_status = VPASS, xr_observed = None, xr_expected = None, xr_durationMs = 3\<rparr>"
    by (simp add: withTimeout_def demo_exec_def)
  then show ?thesis by simp
qed

text \<open>Property. A validation run never throws, whatever the executor does, and is fully recorded: it
  appends exactly one request event, then for each task in scope one event per validator result
  followed by the task's verdict, to this attempt's log and to no other; it returns one summary per
  task, in order; and it writes to no other table of the learner's state.\<close>

theorem run_recorded:
  assumes "log_ok s"
  shows "\<exists>s'. run_validation ex a env sc trigger tasks rid now s =
      (Inr (map (\<lambda>task. summary_of task (task_results ex env a task)) (tasks_in_scope sc tasks)), s')
    \<and> log_ok s'
    \<and> log_of a s' = log_of a s @ run_events ex a env sc trigger tasks now
    \<and> (\<forall>b. b \<noteq> a \<longrightarrow> log_of b s' = log_of b s)
    \<and> attempts s' = attempts s \<and> task_states s' = task_states s \<and> scores s' = scores s
    \<and> masteries s' = masteries s \<and> evidence s' = evidence s"
  using run_validation_adds [OF assms, of ex a env sc trigger tasks rid now]
  by (auto simp: adds_def dest: restD)

definition demo_task :: task_spec where
  "demo_task = \<lparr>tk_key = ''t'', tk_title = None, tk_required = True, tk_validators = [demo_validator], tk_hints = None\<rparr>"

lemma log_ok_empty: "log_ok empty_db"
  by (simp add: log_ok_def empty_db_def of_attempt_def)

theorem run_recorded_witness:
  "\<exists>s'. run_validation demo_exec ''a'' ''env'' ScopeAll ''manual'' [demo_task] ''r1'' 5 empty_db =
      (Inr [summary_of demo_task (task_results demo_exec ''env'' ''a'' demo_task)], s') \<and> log_ok s'"
proof -
  have "tasks_in_scope ScopeAll [demo_task] = [demo_task]" by (simp add: tasks_in_scope_def)
  then show ?thesis
    using run_recorded [OF log_ok_empty, of demo_exec "''a''" "''env''" ScopeAll "''manual''" "[demo_task]" "''r1''" 5]
    by auto
qed

text \<open>Property. What a check reports is what the task list shows: after a run and the rebuild that
  follows it, every task whose verdict was a pass has a stored row with status PASSED.\<close>

theorem check_is_visible:
  assumes "log_ok s" and "named_tasks a s"
    and "task \<in> set (tasks_in_scope sc tasks)" and "su_passed (summary_of task (task_results ex env a task))"
    and "run_validation ex a env sc trigger tasks rid now s = (res, s1)"
  shows "\<exists>n s2 row. rebuildForAttempt a s1 = (Inr n, s2)
    \<and> find_row (\<lambda>r. ts_attempt_id r = a \<and> ts_task_key r = tk_key task) (task_states s2) = Some row
    \<and> ts_status row = T_PASSED"
proof -
  let ?es = "log_of a s @ run_events ex a env sc trigger tasks now"
  have adds: "adds a (run_events ex a env sc trigger tasks now) s s1"
    using run_validation_adds [OF assms(1), of ex a env sc trigger tasks rid now] assms(5) by auto
  then have log: "log_of a s1 = ?es" by (simp add: adds_def)
  have named: "named_tasks a s1" by (rule named_tasks_adds [OF assms(2) adds])
  have tp: "task_passed task (task_results ex env a task)" using assms(4) by (simp add: summary_of_def)
  have passed: "d_status (task_view (Some (tk_key task)) ?es) = T_PASSED"
    by (rule passed_in_run [OF assms(3) tp])
  have "events_of_task (Some (tk_key task)) ?es \<noteq> []"
    using passed by (auto simp: task_view_def fresh_task_def)
  then have "map_of (deriveTaskState ?es) (Some (tk_key task)) = Some (task_view (Some (tk_key task)) ?es)"
    by (simp add: deriveTaskState_lookup)
  then show ?thesis
    using rebuildForAttempt_run [OF named] rebuilt_task [OF named, of "tk_key task"] log passed
    by (simp add: task_row_def)
qed

theorem check_is_visible_witness:
  "\<exists>n s2 row. rebuildForAttempt ''a'' (snd (run_validation demo_exec ''a'' ''env'' ScopeAll ''manual'' [demo_task] ''r1'' 5 empty_db))
      = (Inr n, s2)
    \<and> find_row (\<lambda>r. ts_attempt_id r = ''a'' \<and> ts_task_key r = tk_key demo_task) (task_states s2) = Some row
    \<and> ts_status row = T_PASSED"
proof -
  have n: "named_tasks ''a'' empty_db"
    by (simp add: named_tasks_def log_of_def replay_def of_attempt_def empty_db_def)
  have t: "demo_task \<in> set (tasks_in_scope ScopeAll [demo_task])" by (simp add: tasks_in_scope_def)
  have "executeWithTimeoutAndRetry demo_exec ''t'' ''env'' ''a'' demo_validator =
      \<lparr>xr_validatorId = ''v1'', xr_status = VPASS, xr_observed = None, xr_expected = None, xr_durationMs = 3\<rparr>"
    by (simp add: executeWithTimeoutAndRetry_def try_from.simps maxAttempts_def withTimeout_def demo_exec_def
        demo_validator_def)
  then have p: "su_passed (summary_of demo_task (task_results demo_exec ''env'' ''a'' demo_task))"
    by (simp add: summary_of_def task_passed_def task_results_def demo_task_def severity_of_def validatorMeta_def
        demo_validator_def)
  show ?thesis
    by (rule check_is_visible [OF log_ok_empty n t p, where res = "fst (run_validation demo_exec ''a'' ''env'' ScopeAll ''manual'' [demo_task] ''r1'' 5 empty_db)"]) simp
qed

end
