(* ===== verification/Evaluation.thy ===== *)
theory Evaluation
  imports ValidatorRunner Mastery
begin

text \<open>
  \<open>evaluation/evaluation.service.ts\<close> and the artifact pipeline it calls,
  \<open>evaluation/artifact.service.ts\<close>. \<open>evaluate\<close> is the whole handler: validate, rebuild, score,
  grade artifacts (best effort), update Elo and mastery, transition the attempt, write the
  learner's activity state and its cooldowns. Outside code enters as arguments: the validator
  executor, the fault files' diagnostic paths, the rubric files, the AI grader and the hash.
\<close>

section \<open>Model: artifact.service.ts\<close>

record grading_facts =
  gf_artifactText :: string
  gf_appliedFaultIds :: "string list"
  gf_resolutionValidatorResults :: "(string \<times> validator_status) list"
  gf_commandSequence :: "string list"

record criterion_grade =
  cg_criterion :: string
  cg_level :: int
  cg_confidence :: real
  cg_evidenceQuotes :: "string list"
  cg_justification :: string
  cg_flags :: "string list"

definition grade_json :: "criterion_grade \<Rightarrow> json" where
  "grade_json g = JObj [(''criterion'', JStr (cg_criterion g)), (''level'', JNum (of_int (cg_level g))),
     (''confidence'', JNum (cg_confidence g)), (''evidenceQuotes'', JArr (map JStr (cg_evidenceQuotes g))),
     (''justification'', JStr (cg_justification g)), (''flags'', JArr (map JStr (cg_flags g)))]"

record grading_result =
  gr_rubricId :: string
  gr_provisional :: bool
  gr_criterionGrades :: "criterion_grade list"

type_synonym rubrics = "string \<Rightarrow> json option"
type_synonym grader = "json \<Rightarrow> grading_facts \<Rightarrow> exn + grading_result"

definition submit_artifact :: "(string \<Rightarrow> string) \<Rightarrow> string \<Rightarrow> string \<Rightarrow> string \<Rightarrow> time \<Rightarrow> unit prog" where
  "submit_artifact sha256 attemptId key content now =
     bnd (bnd (query (getActivitySpec attemptId)) (\<lambda>sp. findOrThrow sp (''attempt '' @ attemptId @ '' not found''))) (\<lambda>spec.
     case find_row (\<lambda>a. aq_key a = key) (case as_artifacts_required spec of None \<Rightarrow> [] | Some xs \<Rightarrow> xs) of
       None \<Rightarrow> throw (BadRequest (''activity does not require an artifact with key '' @ [CHR 0x22] @ key @ [CHR 0x22]))
     | Some _ \<Rightarrow>
         andthen (modify (\<lambda>s. s\<lparr>artifacts := artifacts s @ [\<lparr>ar_attempt_id = attemptId, ar_kind = key,
            ar_content = Some content, ar_checksum = sha256 content, ar_bytes = length content,
            ar_created_at = now, ar_storage_uri = ''local://inline''\<rparr>]\<rparr>))
         (appendTypedEvent attemptId LEARNER EV_EDITOR_SAVE
            (JObj [(''artifact_key'', JStr key), (''bytes'', JNum (real (length content))),
                   (''checksum'', JStr (sha256 content))]) now))"

text \<open>The \<open>cmd\<close> texts of the attempt's \<open>COMMAND_EXECUTED\<close> events, in order, empty ones dropped.\<close>

definition cmd_of :: "event_row \<Rightarrow> string option" where
  "cmd_of e = (case jget (e_payload e) ''cmd'' of Some (JStr c) \<Rightarrow> if c = [] then None else Some c | _ \<Rightarrow> None)"

definition command_sequence :: "string \<Rightarrow> db \<Rightarrow> string list" where
  "command_sequence attemptId s =
     List.map_filter cmd_of (filter (\<lambda>e. e_type e = EV_COMMAND_EXECUTED) (replay attemptId s))"

definition resolution_results :: "string \<Rightarrow> db \<Rightarrow> (string \<times> validator_status) list" where
  "resolution_results attemptId s = concat (map (\<lambda>vr.
     map (\<lambda>run. (vres_validator_id vr, vres_status vr))
       (filter (\<lambda>run. vr_id run = vres_run_id vr \<and> vr_attempt_id run = attemptId) (validation_runs s)))
     (validator_results s))"

definition fault_ids :: "activity_spec \<Rightarrow> string list" where
  "fault_ids spec = map f_id (case as_faults spec of None \<Rightarrow> [] | Some fs \<Rightarrow> fs)"

definition gradeArtifact :: "rubrics \<Rightarrow> grader \<Rightarrow> string \<Rightarrow> string \<Rightarrow> time \<Rightarrow> grading_result option prog" where
  "gradeArtifact rubrics_of grade attemptId key now =
     bnd (query (\<lambda>s. sort_key (\<lambda>r. - ar_created_at r)
        (filter (\<lambda>r. ar_attempt_id r = attemptId \<and> ar_kind r = key) (artifacts s)))) (\<lambda>arts.
     case arts of [] \<Rightarrow> ret None | artifact # _ \<Rightarrow>
     (case ar_content artifact of None \<Rightarrow> ret None | Some content \<Rightarrow>
     bnd (bnd (query (getActivitySpec attemptId)) (\<lambda>sp. findOrThrow sp (''attempt '' @ attemptId @ '' not found''))) (\<lambda>spec.
     case find_row (\<lambda>a. aq_key a = key) (case as_artifacts_required spec of None \<Rightarrow> [] | Some xs \<Rightarrow> xs) of
       None \<Rightarrow> ret None
     | Some req \<Rightarrow>
     (case aq_rubric req of None \<Rightarrow> ret None | Some rid \<Rightarrow>
     (case rubrics_of rid of None \<Rightarrow> ret None | Some rubric \<Rightarrow>
     bnd (query (command_sequence attemptId)) (\<lambda>cmds.
     bnd (query (resolution_results attemptId)) (\<lambda>vrs.
     bnd (call (grade rubric \<lparr>gf_artifactText = content, gf_appliedFaultIds = fault_ids spec,
        gf_resolutionValidatorResults = vrs, gf_commandSequence = cmds\<rparr>)) (\<lambda>result.
     andthen (appendTypedEvent attemptId AI EV_AI_MESSAGE
        (JObj [(''rubric_id'', case jget rubric ''id'' of None \<Rightarrow> JNull | Some j \<Rightarrow> j),
               (''provisional'', JBool (gr_provisional result)), (''grades'', JArr (map grade_json (gr_criterionGrades result)))]) now)
     (ret (Some result))))))))))"

section \<open>Model: evaluation.service.ts\<close>

definition SCORING_PROFILE_REGISTRY :: "(string \<times> scoring_profile) list" where
  "SCORING_PROFILE_REGISTRY =
     [(pf_id GUIDED_LAB_DEFAULT_PROFILE, GUIDED_LAB_DEFAULT_PROFILE),
      (pf_id PRODUCTION_SIM_DEFAULT_PROFILE, PRODUCTION_SIM_DEFAULT_PROFILE)]"

definition profile_for :: "activity_spec \<Rightarrow> scoring_profile" where
  "profile_for spec = (case as_scoring_profile spec of
     None \<Rightarrow> GUIDED_LAB_DEFAULT_PROFILE
   | Some i \<Rightarrow> (case map_of SCORING_PROFILE_REGISTRY i of None \<Rightarrow> GUIDED_LAB_DEFAULT_PROFILE | Some p \<Rightarrow> p))"

definition signal_value :: "string \<Rightarrow> string \<Rightarrow> db \<Rightarrow> nat" where
  "signal_value attemptId key s =
     (case find_row (\<lambda>r. sg_attempt_id r = attemptId \<and> sg_key r = key) (signals s) of
        None \<Rightarrow> 0 | Some r \<Rightarrow> sg_value_num r)"

definition active_minutes :: "attempt_row \<Rightarrow> real" where
  "active_minutes a = (case (a_started_at a, a_submitted_at a) of
     (Some st, Some su) \<Rightarrow> real_of_int (su - st) / 60000 | _ \<Rightarrow> 0)"

definition criterion_input_of ::
    "(string \<Rightarrow> string list) \<Rightarrow> attempt_row \<Rightarrow> activity_version_row \<Rightarrow> task_summary list \<Rightarrow> db \<Rightarrow> criterion_input" where
  "criterion_input_of faultPath attempt version summaries s =
     \<lparr>cr_taskResults = summaries, cr_hintPenaltyTotal = a_hint_penalty_total attempt,
      cr_resetCount = a_reset_count attempt, cr_retryIndex = a_retry_index attempt,
      cr_activeMinutes = active_minutes attempt,
      cr_estimatedMinutes = number_or (v_estimated_minutes version) 0,
      cr_preSubmitValidationRunCount = length (filter (\<lambda>r. vr_attempt_id r = a_id attempt \<and>
         vr_trigger r \<noteq> ''submit'') (validation_runs s)),
      cr_blastRadiusViolations = signal_value (a_id attempt) ''blast_radius_violations'' s,
      cr_diagnosticEfficiencyGoodCount = signal_value (a_id attempt) ''diagnostic_efficiency_good_count'' s,
      cr_diagnosticEfficiencyBadCount = signal_value (a_id attempt) ''diagnostic_efficiency_bad_count'' s,
      cr_commandSequence = command_sequence (a_id attempt) s,
      cr_canonicalDiagnosticPaths = filter (\<lambda>path. path \<noteq> []) (map faultPath (fault_ids (v_spec version)))\<rparr>"

definition score_row_of :: "string \<Rightarrow> string \<Rightarrow> score_breakdown \<Rightarrow> score_row" where
  "score_row_of attemptId profileId sc = \<lparr>sc_attempt_id = attemptId, sc_profile = profileId,
     sc_final_score = sb_finalScore sc, sc_passed = sb_passed sc,
     sc_criterion_fn_versions = JObj (map (\<lambda>(k, ver). (k, JStr ver)) (sb_criterionFnVersions sc)),
     sc_breakdown = JObj (map (\<lambda>(k, v, w). (k, JObj [(''value'', JNum v), (''weight'', JNum w)])) (sb_criteria sc)),
     sc_penalties = JObj (map (\<lambda>(k, p). (k, JNum p)) (sb_penalties sc @ sb_bonuses sc))\<rparr>"

lemma score_row_of_sel [simp]:
  "sc_attempt_id (score_row_of a p sc) = a" "sc_profile (score_row_of a p sc) = p"
  "sc_final_score (score_row_of a p sc) = sb_finalScore sc" "sc_passed (score_row_of a p sc) = sb_passed sc"
  by (simp_all add: score_row_of_def)

definition persist_score :: "string \<Rightarrow> scoring_profile \<Rightarrow> score_breakdown \<Rightarrow> time \<Rightarrow> unit prog" where
  "persist_score attemptId profile sc now =
     andthen (modify (\<lambda>s. s\<lparr>scores := scores s @ [score_row_of attemptId (pf_id profile) sc]\<rparr>))
     (appendTypedEvent attemptId SYSTEM EV_EVALUATED
        (JObj [(''final_score'', JNum (sb_finalScore sc)), (''passed'', JBool (sb_passed sc))]) now)"

definition grade_artifacts :: "rubrics \<Rightarrow> grader \<Rightarrow> string \<Rightarrow> activity_spec \<Rightarrow> time \<Rightarrow> unit prog" where
  "grade_artifacts rubrics_of grade attemptId spec now =
     for_each (case as_artifacts_required spec of None \<Rightarrow> [] | Some xs \<Rightarrow> xs) (\<lambda>required.
       try_catch (andthen (gradeArtifact rubrics_of grade attemptId (aq_key required) now) (ret ())) (\<lambda>_. ret ()))"

definition update_mastery :: "attempt_row \<Rightarrow> score_breakdown \<Rightarrow> bool \<Rightarrow> time \<Rightarrow> unit prog" where
  "update_mastery attempt sc wasFirstTryPass now =
     bnd (query (\<lambda>s. map_option ask_skill_id (find_row (\<lambda>r. ask_activity_version_id r = a_activity_version_id attempt \<and>
        ask_is_primary r) (activity_skills s)))) (\<lambda>primarySkillId.
     bnd (case primarySkillId of
            None \<Rightarrow> ret 0
          | Some k \<Rightarrow> recordEloMatch (a_user_id attempt) k (a_activity_version_id attempt)
              (if sb_passed sc then (if wasFirstTryPass then 1 else 1/2) else 0)) (\<lambda>primarySkillDifficultyAdjust.
     bnd (query (\<lambda>s. filter (\<lambda>r. ask_activity_version_id r = a_activity_version_id attempt) (activity_skills s))) (\<lambda>activitySkills.
     for_each activitySkills (\<lambda>as. andthen (recordEvidence
       \<lparr>re_userId = a_user_id attempt, re_skillId = ask_skill_id as, re_attemptId = a_id attempt,
        re_score = sb_finalScore sc, re_weight = ask_weight as,
        re_passThreshold = pf_passThreshold GUIDED_LAB_DEFAULT_PROFILE,
        re_difficultyAdjust = (if Some (ask_skill_id as) = primarySkillId then primarySkillDifficultyAdjust else 0),
        re_wasGenuineAttempt = (length (a_assistance_flags attempt) = 0)\<rparr> now) (ret ())))))"

definition upsert_activity_state :: "attempt_row \<Rightarrow> score_breakdown \<Rightarrow> time \<Rightarrow> unit prog" where
  "upsert_activity_state attempt sc now =
     (let cooldownUntil = (if sb_passed sc then None else Some (computeCooldownUntil (a_retry_index attempt) now));
          st = (if sb_passed sc then ''passed'' else ''failed'') in
      modify (\<lambda>s. s\<lparr>learner_activities := upsert
        (\<lambda>r. la_user_id r = a_user_id attempt \<and> la_activity_id r = a_activity_id attempt)
        (\<lambda>r. r\<lparr>la_best_score := Some (case la_best_score r of None \<Rightarrow> sb_finalScore sc | Some b \<Rightarrow> max b (sb_finalScore sc)),
           la_latest_score := Some (sb_finalScore sc), la_status := st,
           la_attempts_count := la_attempts_count r + 1, la_last_attempt_at := Some now,
           la_cooldown_until := cooldownUntil\<rparr>)
        \<lparr>la_user_id = a_user_id attempt, la_activity_id = a_activity_id attempt,
         la_best_score = Some (sb_finalScore sc), la_latest_score = Some (sb_finalScore sc), la_status = st,
         la_attempts_count = 1, la_last_attempt_at = Some now, la_cooldown_until = cooldownUntil\<rparr>
        (learner_activities s)\<rparr>))"

text \<open>The two joins of \<open>clearCooldownsForRemediatedSkills\<close>.\<close>

definition primary_skills_of :: "string \<Rightarrow> db \<Rightarrow> string list" where
  "primary_skills_of activityId s = remdups (concat (map (\<lambda>ask. map (\<lambda>av. ask_skill_id ask)
     (filter (\<lambda>av. v_id av = ask_activity_version_id ask \<and> v_activity_id av = activityId) (versions s)))
     (filter ask_is_primary (activity_skills s))))"

definition activities_targeting :: "string list \<Rightarrow> string \<Rightarrow> db \<Rightarrow> string list" where
  "activities_targeting skillIds passedActivityId s = remdups (concat (map (\<lambda>ask. map v_activity_id
     (filter (\<lambda>av. v_id av = ask_activity_version_id ask \<and> v_activity_id av \<noteq> passedActivityId) (versions s)))
     (filter (\<lambda>ask. ask_is_primary ask \<and> ask_skill_id ask \<in> set skillIds) (activity_skills s))))"

definition clearCooldownsForRemediatedSkills :: "string \<Rightarrow> string \<Rightarrow> unit prog" where
  "clearCooldownsForRemediatedSkills userId passedActivityId =
     bnd (query (primary_skills_of passedActivityId)) (\<lambda>skillIds.
     if length skillIds = 0 then ret () else
     bnd (query (activities_targeting skillIds passedActivityId)) (\<lambda>candidateActivityIds.
     if length candidateActivityIds = 0 then ret () else
     modify (\<lambda>s. s\<lparr>learner_activities := update_where (\<lambda>r. la_user_id r = userId \<and>
         la_activity_id r \<in> set candidateActivityIds \<and> la_cooldown_until r \<noteq> None)
       (\<lambda>r. r\<lparr>la_cooldown_until := None\<rparr>) (learner_activities s)\<rparr>)))"

definition score_attempt ::
    "executor \<Rightarrow> (string \<Rightarrow> string list) \<Rightarrow> attempt_row \<Rightarrow> activity_version_row \<Rightarrow> string \<Rightarrow> time \<Rightarrow> score_breakdown prog" where
  "score_attempt ex faultPath attempt version runId now =
     bnd (run_validation ex (a_id attempt)
        (case a_environment_id attempt of None \<Rightarrow> ''unknown-environment'' | Some e \<Rightarrow> e) ScopeAll ''submit''
        (case as_tasks (v_spec version) of None \<Rightarrow> [] | Some ts \<Rightarrow> ts) runId now) (\<lambda>taskSummaries.
     andthen (rebuildForAttempt (a_id attempt))
     (bnd (query (criterion_input_of faultPath attempt version taskSummaries)) (\<lambda>criterionInput.
     call (score criterionInput (profile_for (v_spec version)) (a_retry_index attempt = 0)))))"

definition result_updates :: "bool \<Rightarrow> time \<Rightarrow> attempt_updates" where
  "result_updates passed now = no_updates\<lparr>u_status := Some (if passed then PASSED else FAILED), u_completedAt := Some now\<rparr>"

text \<open>\<open>evaluate\<close> from the point where the attempt and its version have been read.\<close>

definition settle_attempt ::
    "executor \<Rightarrow> (string \<Rightarrow> string list) \<Rightarrow> rubrics \<Rightarrow> grader \<Rightarrow> attempt_row \<Rightarrow> activity_version_row \<Rightarrow> string \<Rightarrow> time \<Rightarrow> (real \<times> bool) prog" where
  "settle_attempt ex faultPath rubrics_of grade attempt version runId now =
     bnd (score_attempt ex faultPath attempt version runId now) (\<lambda>scoreResult.
     andthen (persist_score (a_id attempt) (profile_for (v_spec version)) scoreResult now)
     (andthen (grade_artifacts rubrics_of grade (a_id attempt) (v_spec version) now)
     (andthen (update_mastery attempt scoreResult (a_retry_index attempt = 0) now)
     (andthen (transition (a_id attempt) (a_version attempt) (result_updates (sb_passed scoreResult) now) now)
     (andthen (upsert_activity_state attempt scoreResult now)
     (andthen (when_io (sb_passed scoreResult) (clearCooldownsForRemediatedSkills (a_user_id attempt) (a_activity_id attempt)))
     (ret (sb_finalScore scoreResult, sb_passed scoreResult))))))))"

definition evaluate ::
    "executor \<Rightarrow> (string \<Rightarrow> string list) \<Rightarrow> rubrics \<Rightarrow> grader \<Rightarrow> string \<Rightarrow> string \<Rightarrow> time \<Rightarrow> (real \<times> bool) prog" where
  "evaluate ex faultPath rubrics_of grade attemptId runId now =
     bnd (bnd (query (findById attemptId)) takeFirstOrThrow) (\<lambda>attempt.
     if a_status attempt \<noteq> EVALUATING \<and> a_status attempt \<noteq> SUBMITTED
     then throw (Err (''attempt '' @ attemptId @ '' is '' @ status_str (a_status attempt) @ '', expected SUBMITTED/EVALUATING''))
     else
     bnd (bnd (query (\<lambda>s. find_row (\<lambda>v. v_id v = a_activity_version_id attempt) (versions s))) takeFirstOrThrow) (\<lambda>version.
     settle_attempt ex faultPath rubrics_of grade attempt version runId now))"

section \<open>What the stages keep\<close>

lemma attempts_kept_modify [keeps]:
  "(\<And>s. attempts (f s) = attempts s) \<Longrightarrow> preserves (\<lambda>s. attempts s = A) (modify f)"
  and scores_kept_modify [keeps]:
  "(\<And>s. scores (f s) = scores s) \<Longrightarrow> preserves (\<lambda>s. scores s = S) (modify f)"
  and states_kept_modify [keeps]:
  "(\<And>s. learner_activities (f s) = learner_activities s) \<Longrightarrow> preserves (\<lambda>s. learner_activities s = L) (modify f)"
  and recorded_kept_modify [keeps]:
  "(\<And>s. events (f s) = events s) \<Longrightarrow> preserves (\<lambda>s. e \<in> set (events s)) (modify f)"
  by (simp_all add: preserves_def)

lemma tables_kept_append [keeps]:
  "preserves (\<lambda>s. attempts s = A) (appendTypedEvent a actor ty p t)"
  "preserves (\<lambda>s. scores s = S) (appendTypedEvent a actor ty p t)"
  "preserves (\<lambda>s. learner_activities s = L) (appendTypedEvent a actor ty p t)"
  "preserves mastery_ok (appendTypedEvent a actor ty p t)"
  "preserves (\<lambda>s. e \<in> set (events s)) (appendTypedEvent a actor ty p t)"
  by (auto simp: preserves_def intro: mastery_ok_core)

lemma recordEloMatch_keeps [keeps]:
  "preserves (\<lambda>s. attempts s = A) (recordEloMatch u k v oc)"
  "preserves (\<lambda>s. scores s = S) (recordEloMatch u k v oc)"
  "preserves (\<lambda>s. learner_activities s = L) (recordEloMatch u k v oc)"
  "preserves (\<lambda>s. e \<in> set (events s)) (recordEloMatch u k v oc)"
  "preserves log_ok (recordEloMatch u k v oc)"
  "preserves attempts_ok (recordEloMatch u k v oc)"
  by (auto simp: recordEloMatch_def Let_def intro!: keeps split: option.split)

lemma recordEvidence_keeps [keeps]:
  "preserves (\<lambda>s. attempts s = A) (recordEvidence inp now)"
  "preserves (\<lambda>s. scores s = S) (recordEvidence inp now)"
  "preserves (\<lambda>s. learner_activities s = L) (recordEvidence inp now)"
  "preserves (\<lambda>s. e \<in> set (events s)) (recordEvidence inp now)"
  "preserves log_ok (recordEvidence inp now)"
  "preserves attempts_ok (recordEvidence inp now)"
  by (auto simp: recordEvidence_def Let_def intro!: keeps split: option.split)

lemma preserves_case_list [keeps]:
  "preserves I m \<Longrightarrow> (\<And>x xs. preserves I (f x xs)) \<Longrightarrow> preserves I (case l of [] \<Rightarrow> m | x # xs \<Rightarrow> f x xs)"
  by (cases l) simp_all

lemma gradeArtifact_keeps:
  assumes "\<And>p. preserves I (appendTypedEvent a AI EV_AI_MESSAGE p now)"
  shows "preserves I (gradeArtifact rb gr a k now)"
  unfolding gradeArtifact_def by (intro keeps assms)

lemma grade_artifacts_keeps [keeps]:
  assumes "\<And>p. preserves I (appendTypedEvent a AI EV_AI_MESSAGE p now)"
  shows "preserves I (grade_artifacts rb gr a spec now)"
  unfolding grade_artifacts_def by (intro keeps gradeArtifact_keeps assms)

lemma update_mastery_keeps [keeps]:
  assumes "\<And>u k v oc. preserves I (recordEloMatch u k v oc)" and "\<And>inp. preserves I (recordEvidence inp now)"
  shows "preserves I (update_mastery att sc f now)"
  unfolding update_mastery_def by (intro keeps assms)

section \<open>Stages that cannot fail\<close>

lemma for_each_total:
  assumes "\<And>x s. \<exists>s'. f x s = (Inr (), s')"
  shows "\<exists>s'. for_each xs f s = (Inr (), s')"
proof (induction xs arbitrary: s)
  case (Cons x xs)
  obtain s1 where "f x s = (Inr (), s1)" using assms by blast
  then show ?case using Cons.IH by simp
qed simp

lemma grade_artifacts_total: "\<exists>s'. grade_artifacts rb gr a spec now s = (Inr (), s')"
  unfolding grade_artifacts_def
  by (rule for_each_total) (auto simp: try_catch_def split: prod.splits sum.splits)

lemma profile_for_ok: "profile_ok (profile_for spec)"
  using shipped_profiles_ok by (auto simp: profile_for_def SCORING_PROFILE_REGISTRY_def split: option.splits)

lemma score_attempt_ok:
  assumes "log_ok s" and "named_tasks (a_id att) s"
  shows "\<exists>sc s'. score_attempt ex fp att ver rid now s = (Inr sc, s') \<and> log_ok s' \<and> named_tasks (a_id att) s'
    \<and> rest (s'\<lparr>task_states := []\<rparr>) = rest (s\<lparr>task_states := []\<rparr>)
    \<and> sb_passed sc = (pf_passThreshold (profile_for (v_spec ver)) \<le> sb_finalScore sc)
    \<and> 0 \<le> sb_finalScore sc \<and> sb_finalScore sc \<le> 1"
proof -
  let ?env = "case a_environment_id att of None \<Rightarrow> ''unknown-environment'' | Some e \<Rightarrow> e"
  let ?ts = "case as_tasks (v_spec ver) of None \<Rightarrow> [] | Some ts \<Rightarrow> ts"
  obtain s1 where s1: "run_validation ex (a_id att) ?env ScopeAll ''submit'' ?ts rid now s =
      (Inr (map (\<lambda>task. summary_of task (task_results ex ?env (a_id att) task)) (tasks_in_scope ScopeAll ?ts)), s1)"
    "adds (a_id att) (run_events ex (a_id att) ?env ScopeAll ''submit'' ?ts now) s s1"
    using run_validation_adds [OF assms(1)] by blast
  have named: "named_tasks (a_id att) s1" by (rule named_tasks_adds [OF assms(2) s1(2)])
  note rb = rebuildForAttempt_run [OF named]
  have logr: "log_ok (rebuilt (a_id att) s1)"
    using adds_log_ok [OF s1(2)] by (simp add: log_ok_def)
  obtain b where b: "score (criterion_input_of fp att ver
        (map (\<lambda>task. summary_of task (task_results ex ?env (a_id att) task)) (tasks_in_scope ScopeAll ?ts))
        (rebuilt (a_id att) s1)) (profile_for (v_spec ver)) (a_retry_index att = 0) = Inr b"
      "sb_passed b = (sb_finalScore b \<ge> pf_passThreshold (profile_for (v_spec ver)))"
      "0 \<le> sb_finalScore b" "sb_finalScore b \<le> 1"
    using score_total [OF profile_for_ok] by blast
  have "rest s1 = rest s" using s1(2) by (simp add: adds_def)
  moreover have "rest (x\<lparr>task_states := t\<rparr>) = (rest x)\<lparr>task_states := t\<rparr>" for x t
    by (cases x) (simp add: rest_def)
  ultimately have "rest ((rebuilt (a_id att) s1)\<lparr>task_states := []\<rparr>) = rest (s\<lparr>task_states := []\<rparr>)"
    by (simp add: rebuilt_def)
  then show ?thesis
    using s1(1) rb b logr named by (simp add: score_attempt_def)
qed

text \<open>The activity's content is complete: its version is there and every skill it maps to exists
  (foreign keys of \<open>activity_skill\<close>).\<close>

definition content_ok :: "string \<Rightarrow> db \<Rightarrow> bool" where
  "content_ok v s \<longleftrightarrow> find_row (\<lambda>x. v_id x = v) (versions s) \<noteq> None \<and>
     (\<forall>ask \<in> set (activity_skills s). ask_activity_version_id ask = v \<longrightarrow>
        find_row (\<lambda>k. sk_id k = ask_skill_id ask) (skills s) \<noteq> None)"

lemma recordEloMatch_total:
  assumes "find_row (\<lambda>x. v_id x = v) (versions s) = Some w" and "find_row (\<lambda>x. sk_id x = k) (skills s) = Some q"
  shows "\<exists>x s'. recordEloMatch u k v oc s = (Inr x, s')"
  using assms
  by (cases "getMastery u k s")
    (simp_all add: recordEloMatch_def transaction_def bnd_run andthen_def Let_def)

lemma recordEvidence_total:
  assumes "find_row (\<lambda>x. sk_id x = re_skillId inp) (skills s) = Some q"
  shows "\<exists>x s'. recordEvidence inp now s = (Inr x, s')"
  using assms by (simp add: recordEvidence_def transaction_def bnd_run andthen_def Let_def)

lemma skills_kept_modify [keeps]:
  "(\<And>s. skills (f s) = skills s \<and> activity_skills (f s) = activity_skills s) \<Longrightarrow>
   preserves (\<lambda>s. skills s = K \<and> activity_skills s = AS) (modify f)"
  by (simp add: preserves_def)

lemma skills_kept [keeps]:
  "preserves (\<lambda>s. skills s = K \<and> activity_skills s = AS) (recordEloMatch u k v oc)"
  "preserves (\<lambda>s. skills s = K \<and> activity_skills s = AS) (recordEvidence inp now)"
  by (auto simp: recordEloMatch_def recordEvidence_def Let_def intro!: keeps split: option.split)

lemma for_each_total_inv:
  assumes "\<And>x s. x \<in> set xs \<Longrightarrow> I s \<Longrightarrow> \<exists>s'. f x s = (Inr (), s') \<and> I s'" and "I s"
  shows "\<exists>s'. for_each xs f s = (Inr (), s') \<and> I s'"
  using assms
proof (induction xs arbitrary: s)
  case (Cons x xs)
  from Cons.prems obtain s1 where s1: "f x s = (Inr (), s1)" "I s1" by (meson list.set_intros(1))
  then have "\<exists>s'. for_each xs f s1 = (Inr (), s') \<and> I s'"
    using Cons.prems(1) by (intro Cons.IH) auto
  then show ?case using s1(1) by simp
qed simp

lemma update_mastery_total:
  assumes "content_ok (a_activity_version_id att) s"
  shows "\<exists>s'. update_mastery att sc first now s = (Inr (), s')"
proof -
  let ?v = "a_activity_version_id att"
  let ?I = "\<lambda>t :: db. skills t = skills s \<and> activity_skills t = activity_skills s"
  have sk: "\<exists>q. find_row (\<lambda>k. sk_id k = ask_skill_id ask) (skills s) = Some q"
    if "ask \<in> set (activity_skills s)" "ask_activity_version_id ask = ?v" for ask
    using that assms by (auto simp: content_ok_def)
  let ?prim = "map_option ask_skill_id (find_row (\<lambda>r. ask_activity_version_id r = ?v \<and> ask_is_primary r) (activity_skills s))"
  have "\<exists>d s1. (case ?prim of None \<Rightarrow> ret 0 | Some k \<Rightarrow> recordEloMatch (a_user_id att) k ?v
      (if sb_passed sc then (if first then 1 else 1/2) else 0)) s = (Inr d, s1) \<and> ?I s1"
  proof (cases ?prim)
    case None
    then show ?thesis by simp
  next
    case (Some k)
    then obtain q where "find_row (\<lambda>x. sk_id x = k) (skills s) = Some q"
      using sk by (auto dest: find_row_SomeD)
    then obtain d s1 where r: "recordEloMatch (a_user_id att) k ?v
        (if sb_passed sc then (if first then 1 else 1/2) else 0) s = (Inr d, s1)"
      using recordEloMatch_total assms unfolding content_ok_def by blast
    show ?thesis using Some r preservesD [OF skills_kept(1) _ r] by auto
  qed
  then obtain d s1 where s1: "(case ?prim of None \<Rightarrow> ret 0 | Some k \<Rightarrow> recordEloMatch (a_user_id att) k ?v
      (if sb_passed sc then (if first then 1 else 1/2) else 0)) s = (Inr d, s1)" "?I s1" by blast
  have "\<exists>s'. for_each (filter (\<lambda>r. ask_activity_version_id r = ?v) (activity_skills s)) (\<lambda>as. andthen (recordEvidence
       \<lparr>re_userId = a_user_id att, re_skillId = ask_skill_id as, re_attemptId = a_id att,
        re_score = sb_finalScore sc, re_weight = ask_weight as,
        re_passThreshold = pf_passThreshold GUIDED_LAB_DEFAULT_PROFILE,
        re_difficultyAdjust = (if Some (ask_skill_id as) = ?prim then d else 0),
        re_wasGenuineAttempt = (length (a_assistance_flags att) = 0)\<rparr> now) (ret ())) s1 = (Inr (), s') \<and> ?I s'"
  proof (rule for_each_total_inv [where I = ?I])
    show "?I s1" by (rule s1(2))
  next
    fix ask t assume ask: "ask \<in> set (filter (\<lambda>r. ask_activity_version_id r = ?v) (activity_skills s))" and I: "?I t"
    let ?inp = "\<lparr>re_userId = a_user_id att, re_skillId = ask_skill_id ask, re_attemptId = a_id att,
        re_score = sb_finalScore sc, re_weight = ask_weight ask,
        re_passThreshold = pf_passThreshold GUIDED_LAB_DEFAULT_PROFILE,
        re_difficultyAdjust = (if Some (ask_skill_id ask) = ?prim then d else 0),
        re_wasGenuineAttempt = (length (a_assistance_flags att) = 0)\<rparr>"
    obtain q where "find_row (\<lambda>k. sk_id k = ask_skill_id ask) (skills t) = Some q" using sk ask I by auto
    then obtain x t' where r: "recordEvidence ?inp now t = (Inr x, t')"
      using recordEvidence_total [of ?inp t q now] by auto
    then show "\<exists>s'. andthen (recordEvidence ?inp now) (ret ()) t = (Inr (), s') \<and> ?I s'"
      using preservesD [OF skills_kept(2) I r] by simp
  qed
  then show ?thesis using s1 by (auto simp: update_mastery_def)
qed

section \<open>The evaluation as a whole\<close>

lemma clearCooldowns_run:
  "\<exists>s'. clearCooldownsForRemediatedSkills u act s = (Inr (), s') \<and> attempts s' = attempts s \<and> scores s' = scores s
    \<and> events s' = events s
    \<and> find_row (\<lambda>r. la_user_id r = u \<and> la_activity_id r = act) (learner_activities s') =
      find_row (\<lambda>r. la_user_id r = u \<and> la_activity_id r = act) (learner_activities s)"
proof -
  have act: "act \<notin> set (activities_targeting ks act s)" for ks
    by (auto simp: activities_targeting_def)
  show ?thesis
    using act
    by (auto simp: clearCooldownsForRemediatedSkills_def intro!: find_update_where_other)
qed

lemma content_ok_cong:
  "versions s' = versions s \<Longrightarrow> activity_skills s' = activity_skills s \<Longrightarrow> skills s' = skills s \<Longrightarrow>
   content_ok v s' = content_ok v s"
  by (simp add: content_ok_def)

lemma content_kept [keeps]:
  "(\<And>s. versions (f s) = versions s \<and> activity_skills (f s) = activity_skills s \<and> skills (f s) = skills s) \<Longrightarrow>
   preserves (content_ok v) (modify f)"
  "preserves (content_ok v) (appendTypedEvent a actor ty p t)"
  by (auto simp: preserves_def content_ok_def)

lemma evaluate_run:
  assumes ok: "attempts_ok s" and log: "log_ok s" and named: "named_tasks a s"
    and att: "findById a s = Some att" and st: "a_status att \<in> {SUBMITTED, EVALUATING}"
    and content: "content_ok (a_activity_version_id att) s"
  obtains sc :: score_breakdown and s' p where "evaluate ex fp rb gr a rid now s = (Inr (sb_finalScore sc, sb_passed sc), s')"
    and "attempts s' = attempts (transitioned att (result_updates (sb_passed sc) now) now s)"
    and "scores s' = scores s @ [score_row_of a p sc]"
    and "\<exists>e \<in> set (events s'). e_attempt_id e = a \<and> e_type e = EV_EVALUATED \<and>
           e_payload e = JObj [(''final_score'', JNum (sb_finalScore sc)), (''passed'', JBool (sb_passed sc))]"
    and "\<exists>row. find_row (\<lambda>r. la_user_id r = a_user_id att \<and> la_activity_id r = a_activity_id att) (learner_activities s') = Some row
           \<and> la_latest_score row = Some (sb_finalScore sc)
           \<and> la_cooldown_until row = (if sb_passed sc then None else Some (computeCooldownUntil (a_retry_index att) now))"
    and "0 \<le> sb_finalScore sc" and "sb_finalScore sc \<le> 1"
proof -
  have aid: "a_id att = a" using findById_SomeD [OF att] by simp
  from content obtain ver where ver: "find_row (\<lambda>v. v_id v = a_activity_version_id att) (versions s) = Some ver"
    by (auto simp: content_ok_def)
  obtain sc s1 where s1: "score_attempt ex fp att ver rid now s = (Inr sc, s1)" "log_ok s1"
      "rest (s1\<lparr>task_states := []\<rparr>) = rest (s\<lparr>task_states := []\<rparr>)" "0 \<le> sb_finalScore sc" "sb_finalScore sc \<le> 1"
    using score_attempt_ok [OF log, of att ex fp ver rid now] named aid by auto
  have f1: "attempts s1 = attempts s" "scores s1 = scores s" "content_ok (a_activity_version_id att) s1"
    using restD [OF s1(3)] content by (simp_all add: content_ok_def)
  let ?pf = "profile_for (v_spec ver)"
  let ?row = "score_row_of a (pf_id ?pf) sc"
  let ?ev = "new_event a SYSTEM EV_EVALUATED (JObj [(''final_score'', JNum (sb_finalScore sc)), (''passed'', JBool (sb_passed sc))])
      now (s1\<lparr>scores := scores s1 @ [?row]\<rparr>)"
  obtain s2 where s2: "persist_score a ?pf sc now s1 = (Inr (), s2)" "attempts s2 = attempts s"
      "scores s2 = scores s @ [?row]" "?ev \<in> set (events s2)" "content_ok (a_activity_version_id att) s2"
    using f1 by (simp add: persist_score_def content_ok_def)
  obtain s3 where s3: "grade_artifacts rb gr a (v_spec ver) now s2 = (Inr (), s3)"
    using grade_artifacts_total by blast
  have f3: "attempts s3 = attempts s" "scores s3 = scores s @ [?row]" "?ev \<in> set (events s3)"
      "content_ok (a_activity_version_id att) s3"
    using preservesD [OF grade_artifacts_keeps [OF tables_kept_append(1)] s2(2) s3]
      preservesD [OF grade_artifacts_keeps [OF tables_kept_append(2)] s2(3) s3]
      preservesD [OF grade_artifacts_keeps [OF tables_kept_append(5)] s2(4) s3]
      preservesD [OF grade_artifacts_keeps [OF content_kept(2)] s2(5) s3] by simp_all
  obtain s4 where s4: "update_mastery att sc (a_retry_index att = 0) now s3 = (Inr (), s4)"
    using update_mastery_total [OF f3(4)] by blast
  have f4: "attempts s4 = attempts s" "scores s4 = scores s @ [?row]" "?ev \<in> set (events s4)"
    using preservesD [OF update_mastery_keeps [OF recordEloMatch_keeps(1) recordEvidence_keeps(1)] f3(1) s4]
      preservesD [OF update_mastery_keeps [OF recordEloMatch_keeps(2) recordEvidence_keeps(2)] f3(2) s4]
      preservesD [OF update_mastery_keeps [OF recordEloMatch_keeps(4) recordEvidence_keeps(4)] f3(3) s4]
    by simp_all
  have ok4: "attempts_ok s4" and att4: "findById a s4 = Some att"
    using attempts_ok_frame [OF f4(1) ok] att f4(1) by (simp_all add: findById_def)
  let ?u = "result_updates (sb_passed sc) now"
  let ?s5 = "transitioned att ?u now s4"
  have s5: "transition a (a_version att) ?u now s4 = (Inr (apply_updates ?u (a_version att) now att), ?s5)"
    by (rule transition_ok [OF ok4 att4 refl])
  have f5: "attempts ?s5 = attempts (transitioned att ?u now s)" "scores ?s5 = scores s @ [?row]" "?ev \<in> set (events ?s5)"
    using f4 by (simp_all add: transitioned_def)
  obtain s6 row where s6: "upsert_activity_state att sc now ?s5 = (Inr (), s6)" "attempts s6 = attempts ?s5"
      "scores s6 = scores ?s5" "events s6 = events ?s5"
      "find_row (\<lambda>r. la_user_id r = a_user_id att \<and> la_activity_id r = a_activity_id att) (learner_activities s6) = Some row"
      "la_latest_score row = Some (sb_finalScore sc)"
      "la_cooldown_until row = (if sb_passed sc then None else Some (computeCooldownUntil (a_retry_index att) now))"
    by (simp add: upsert_activity_state_def Let_def find_upsert_same split: option.splits)
  obtain s7 where s7: "when_io (sb_passed sc) (clearCooldownsForRemediatedSkills (a_user_id att) (a_activity_id att)) s6 = (Inr (), s7)"
      "attempts s7 = attempts s6" "scores s7 = scores s6" "events s7 = events s6"
      "find_row (\<lambda>r. la_user_id r = a_user_id att \<and> la_activity_id r = a_activity_id att) (learner_activities s7) = Some row"
    using clearCooldowns_run [of "a_user_id att" "a_activity_id att" s6] s6(5) by (cases "sb_passed sc") auto
  have run: "evaluate ex fp rb gr a rid now s = (Inr (sb_finalScore sc, sb_passed sc), s7)"
    using att st ver s1(1) s2(1) s3 s4 s5 s6(1) s7(1)
    by (auto simp: evaluate_def settle_attempt_def aid)
  show thesis
    by (rule that [where sc = sc and s' = s7 and p = "pf_id ?pf", OF run])
      (use s7 s6 f5 s1(4,5) in \<open>auto intro!: bexI [of _ ?ev]\<close>)
qed

lemma evaluate_cases:
  "evaluate ex fp rb gr a rid now s = (case findById a s of
     None \<Rightarrow> (Inl NoResult, s)
   | Some att \<Rightarrow> if a_status att \<noteq> EVALUATING \<and> a_status att \<noteq> SUBMITTED
       then (Inl (Err (''attempt '' @ a @ '' is '' @ status_str (a_status att) @ '', expected SUBMITTED/EVALUATING'')), s)
       else (case find_row (\<lambda>v. v_id v = a_activity_version_id att) (versions s) of
         None \<Rightarrow> (Inl NoResult, s) | Some ver \<Rightarrow> settle_attempt ex fp rb gr att ver rid now s))"
  by (auto simp: evaluate_def bnd_run split: option.split)

subsection \<open>Invariants of the evaluation\<close>

lemma run_validation_keeps:
  assumes "\<And>ty actor p. preserves I (appendTypedEvent a actor ty p now)"
    and "\<And>f. (\<And>s. rest (f s) = rest s \<and> events (f s) = events s) \<Longrightarrow> preserves I (modify f :: unit prog)"
  shows "preserves I (run_validation ex a env sc trigger tasks rid now)"
  unfolding run_validation_def run_task_def record_result_def Let_def
  by (intro keeps assms) (simp_all add: rest_def)

lemma rebuild_keeps:
  assumes "\<And>f. (\<And>s. rest ((f s)\<lparr>task_states := []\<rparr>) = rest (s\<lparr>task_states := []\<rparr>) \<and> events (f s) = events s) \<Longrightarrow>
     preserves I (modify f :: unit prog)"
  shows "preserves I (rebuildForAttempt a)"
  unfolding rebuildForAttempt_def insert_task_state_def Let_def
  by (intro keeps assms) (simp_all add: rest_def)

lemma rest_tsD:
  assumes "rest (s'\<lparr>task_states := []\<rparr>) = rest (s\<lparr>task_states := []\<rparr>)"
  shows "attempts s' = attempts s" "masteries s' = masteries s" "evidence s' = evidence s"
  using restD [OF assms] by simp_all

lemma settle_keeps:
  assumes append: "\<And>ty actor p. preserves I (appendTypedEvent (a_id att) actor ty p now)"
    and frame: "\<And>f. (\<And>s. attempts (f s) = attempts s \<and> events (f s) = events s \<and> masteries (f s) = masteries s
        \<and> evidence (f s) = evidence s) \<Longrightarrow> preserves I (modify f :: unit prog)"
    and elo: "\<And>k v oc. preserves I (recordEloMatch (a_user_id att) k v oc)"
    and ev: "\<And>inp. re_wasGenuineAttempt inp = (a_assistance_flags att = []) \<Longrightarrow> re_userId inp = a_user_id att \<Longrightarrow>
        preserves I (recordEvidence inp now)"
    and trans: "\<And>b. preserves I (transition (a_id att) (a_version att) (result_updates b now) now)"
  shows "preserves I (settle_attempt ex fp rb gr att ver rid now)"
proof -
  have run: "preserves I (score_attempt ex fp att ver rid now)"
    unfolding score_attempt_def
    by (intro keeps run_validation_keeps rebuild_keeps append frame) (metis restD rest_tsD)+
  have score: "preserves I (persist_score (a_id att) p sc now)" for p sc
    unfolding persist_score_def by (intro keeps append frame) simp
  have up: "preserves I (upsert_activity_state att sc now)" for sc
    unfolding upsert_activity_state_def Let_def by (intro keeps frame) simp
  have cl: "preserves I (clearCooldownsForRemediatedSkills u x)" for u x
    unfolding clearCooldownsForRemediatedSkills_def by (intro keeps frame) simp
  have um: "preserves I (update_mastery att sc f now)" for sc f
    unfolding update_mastery_def by (intro keeps elo ev) simp_all
  show ?thesis unfolding settle_attempt_def by (intro keeps run score up cl um trans append)
qed

lemma evaluate_keeps:
  assumes "\<And>att ver. findById a s = Some att \<Longrightarrow> preserves I (settle_attempt ex fp rb gr att ver rid now)" and "I s"
  shows "I (snd (evaluate ex fp rb gr a rid now s))"
  using assms by (auto simp: evaluate_cases preserves_def split: option.splits)

lemma mastery_ok_transition [keeps]: "preserves mastery_ok (transition a v u now)"
  unfolding transition_def by (intro keeps) simp

lemma evidence_transition: "preserves (\<lambda>s. \<exists>new. evidence s = E @ new \<and> (\<forall>e \<in> set new. P e)) (transition a v u now)"
  by (auto simp: preserves_def transition_def split: option.splits)

text \<open>The evidence row a non-genuine attempt adds has delta 0.\<close>

lemma recordEvidence_row:
  assumes "recordEvidence inp now s = (r, s')" and "\<not> re_wasGenuineAttempt inp"
  shows "\<exists>new. evidence s' = evidence s @ new \<and> (\<forall>e \<in> set new. me_delta e = 0)"
proof (cases "find_row (\<lambda>k. sk_id k = re_skillId inp) (skills s)")
  case None
  then show ?thesis using assms(1) by (auto simp: recordEvidence_def transaction_def bnd_run)
next
  case (Some k)
  have "br_delta (bkt_update i) = 0" if "\<not> bi_wasGenuineAttempt i" for i
    using that clamp_id [of eps "clamp (bi_priorP i) eps (1 - eps)" "1 - eps"] clamp_bounds [OF eps_pos(3)]
    by (simp add: bkt_update_def Let_def)
  then show ?thesis using Some assms
    by (auto simp: recordEvidence_def transaction_def bnd_run andthen_def Let_def)
qed

lemma recordEloMatch_evidence: "preserves (\<lambda>s. \<exists>new. evidence s = E @ new \<and> (\<forall>e \<in> set new. P e)) (recordEloMatch u k v oc)"
proof (rule preservesI)
  fix s :: db assume "\<exists>new. evidence s = E @ new \<and> (\<forall>e \<in> set new. P e)"
  moreover have "evidence (snd (recordEloMatch u k v oc s)) = evidence s"
    by (cases rule: recordEloMatch_cases [of u k v oc s]) simp_all
  ultimately show "\<exists>new. evidence (snd (recordEloMatch u k v oc s)) = E @ new \<and> (\<forall>e \<in> set new. P e)" by simp
qed

text \<open>What an evaluation does to the attempt table: nothing, or the one result transition.\<close>

lemma keeps_of_attempts:
  fixes m :: "'a prog"
  assumes "\<And>A. preserves (\<lambda>s. attempts s = A) m"
  shows "preserves (\<lambda>s. Q (attempts s)) m"
  using assms by (auto simp: preserves_def)

lemma evaluate_attempts:
  assumes ok: "attempts_ok s" and run: "evaluate ex fp rb gr a rid now s = (res, t)"
  shows "attempts t = attempts s \<or> (\<exists>r b. findById a s = Some r \<and> a_status r \<in> {SUBMITTED, EVALUATING} \<and>
    attempts t = attempts (transitioned r (result_updates b now) now s))"
proof (cases "\<exists>att ver. findById a s = Some att \<and> a_status att \<in> {SUBMITTED, EVALUATING} \<and>
    find_row (\<lambda>v. v_id v = a_activity_version_id att) (versions s) = Some ver")
  case False
  then have "t = s" using run by (auto simp: evaluate_cases split: option.splits if_splits)
  then show ?thesis by simp
next
  case True
  then obtain att ver where att: "findById a s = Some att" "a_status att \<in> {SUBMITTED, EVALUATING}"
    and ver: "find_row (\<lambda>v. v_id v = a_activity_version_id att) (versions s) = Some ver" by blast
  let ?done = "\<lambda>b. attempts (transitioned att (result_updates b now) now s)"
  let ?I = "\<lambda>t :: db. attempts t = attempts s \<or> (\<exists>b. attempts t = ?done b)"
  have aid: "a_id att = a" using findById_SomeD [OF att(1)] by simp
  have tr: "preserves ?I (transition (a_id att) (a_version att) (result_updates b now) now)" for b
  proof (rule preservesI)
    fix t :: db assume I: "?I t"
    show "?I (snd (transition (a_id att) (a_version att) (result_updates b now) now t))"
    proof (cases "attempts t = attempts s")
      case True
      then have "attempts_ok t" "findById a t = Some att"
        using ok att(1) attempts_ok_frame [OF True] by (simp_all add: findById_def)
      from transition_ok [OF this refl] show ?thesis using aid True by (auto simp: transitioned_def)
    next
      case False
      then obtain c where c: "attempts t = ?done c" using I by blast
      have okt: "attempts_ok t"
        using attempts_ok_transitioned [OF ok] attempts_ok_frame [OF c] by blast
      have "findById a t = Some (apply_updates (result_updates c now) (a_version att) now att)"
        using findById_transitioned [OF ok att(1), of a] c by (simp add: findById_def)
      then have "transition a (a_version att) (result_updates b now) now t =
          (Inl (Conflict (''attempt '' @ a @ '' was modified concurrently'')), t)"
        by (intro transition_conflict [OF okt]) simp
      then show ?thesis using I aid by simp
    qed
  qed
  have keep: "preserves ?I (settle_attempt ex fp rb gr att ver rid now)"
  proof (rule settle_keeps)
    show "preserves ?I (appendTypedEvent (a_id att) actor ty p now)" for ty actor p by (simp add: preserves_def)
    show "preserves ?I (modify f :: unit prog)"
      if "\<And>s. attempts (f s) = attempts s \<and> events (f s) = events s \<and> masteries (f s) = masteries s \<and> evidence (f s) = evidence s" for f
      using that by (simp add: preserves_def)
    show "preserves ?I (recordEloMatch u k v oc)" for u k v oc
      by (rule keeps_of_attempts [OF recordEloMatch_keeps(1)])
    show "preserves ?I (recordEvidence inp now)" for inp
      by (rule keeps_of_attempts [OF recordEvidence_keeps(1)])
  qed (rule tr)
  have "settle_attempt ex fp rb gr att ver rid now s = (res, t)"
    using run att ver by (auto simp: evaluate_cases)
  then have "?I t" by (rule preservesD [where I = ?I, OF keep disjI1 [OF refl]])
  then show ?thesis using att by blast
qed

section \<open>Properties\<close>

text \<open>C6. Evaluation settles the attempt: for a submitted attempt whose content is complete,
  whatever the validators, the rubric files and the AI grader answer (errors included), \<open>evaluate\<close>
  returns a score in [0,1]; the attempt is then PASSED or FAILED according to it, with the version
  incremented and the completion time set; exactly one score row was added, an EVALUATED event
  carries the same score, and the learner's activity state holds that score with a cooldown
  exactly when the attempt failed.\<close>

theorem evaluate_settles:
  assumes "attempts_ok s" and "log_ok s" and "named_tasks a s"
    and "findById a s = Some att" and "a_status att \<in> {SUBMITTED, EVALUATING}"
    and "content_ok (a_activity_version_id att) s"
  shows "\<exists>score passed s' r row. evaluate ex fp rb gr a rid now s = (Inr (score, passed), s')
    \<and> 0 \<le> score \<and> score \<le> 1
    \<and> findById a s' = Some r \<and> a_status r = (if passed then PASSED else FAILED)
    \<and> a_version r = a_version att + 1 \<and> a_completed_at r = Some now
    \<and> (\<forall>b. b \<noteq> a \<longrightarrow> findById b s' = findById b s)
    \<and> scores s' = scores s @ [row] \<and> sc_attempt_id row = a \<and> sc_final_score row = score \<and> sc_passed row = passed
    \<and> (\<exists>e \<in> set (events s'). e_attempt_id e = a \<and> e_type e = EV_EVALUATED \<and>
         e_payload e = JObj [(''final_score'', JNum score), (''passed'', JBool passed)])
    \<and> (\<exists>st. find_row (\<lambda>x. la_user_id x = a_user_id att \<and> la_activity_id x = a_activity_id att) (learner_activities s') = Some st
         \<and> la_latest_score st = Some score
         \<and> la_cooldown_until st = (if passed then None else Some (computeCooldownUntil (a_retry_index att) now)))"
proof (rule evaluate_run [OF assms, of ex fp rb gr rid now])
  fix sc :: score_breakdown and s' p
  assume run: "evaluate ex fp rb gr a rid now s = (Inr (sb_finalScore sc, sb_passed sc), s')"
    and at: "attempts s' = attempts (transitioned att (result_updates (sb_passed sc) now) now s)"
    and more: "scores s' = scores s @ [score_row_of a p sc]"
      "\<exists>e \<in> set (events s'). e_attempt_id e = a \<and> e_type e = EV_EVALUATED \<and>
           e_payload e = JObj [(''final_score'', JNum (sb_finalScore sc)), (''passed'', JBool (sb_passed sc))]"
      "\<exists>row. find_row (\<lambda>r. la_user_id r = a_user_id att \<and> la_activity_id r = a_activity_id att) (learner_activities s') = Some row
           \<and> la_latest_score row = Some (sb_finalScore sc)
           \<and> la_cooldown_until row = (if sb_passed sc then None else Some (computeCooldownUntil (a_retry_index att) now))"
      "0 \<le> sb_finalScore sc" "sb_finalScore sc \<le> 1"
  have find: "findById b s' = (if b = a then Some (apply_updates (result_updates (sb_passed sc) now) (a_version att) now att)
      else findById b s)" for b
    using findById_transitioned [OF assms(1,4), of b] at by (simp add: findById_def)
  show ?thesis
    by (intro exI [of _ "sb_finalScore sc"] exI [of _ "sb_passed sc"] exI [of _ s']
        exI [of _ "apply_updates (result_updates (sb_passed sc) now) (a_version att) now att"] exI [of _ "score_row_of a p sc"])
      (use run more find in \<open>simp add: result_updates_def no_updates_def\<close>)
qed

text \<open>C7. Evaluation keeps the system's invariants on every path, also when it throws: the attempt
  table's uniqueness, the gap-free event log, and the mastery audit.\<close>

theorem evaluate_invariants:
  assumes "attempts_ok s" and "log_ok s" and "mastery_ok s"
    and "s' = snd (evaluate ex fp rb gr a rid now s)"
  shows "attempts_ok s' \<and> log_ok s' \<and> mastery_ok s'"
proof -
  have "attempts_ok s'" unfolding assms(4)
    by (rule evaluate_keeps [where I = attempts_ok], rule settle_keeps) (auto intro: keeps attempts_ok_modify assms)
  moreover have "log_ok s'" unfolding assms(4)
    by (rule evaluate_keeps [where I = log_ok], rule settle_keeps) (auto intro: keeps log_ok_modify assms)
  moreover have "mastery_ok s'" unfolding assms(4)
    by (rule evaluate_keeps [where I = mastery_ok], rule settle_keeps) (auto intro: keeps mastery_ok_modify assms)
  ultimately show ?thesis by simp
qed

text \<open>Property. Told answers are not evidence: when the attempt carries an assistance flag, every
  mastery-evidence row the evaluation adds has delta zero, for every skill of the activity.\<close>

theorem assisted_no_evidence:
  assumes "findById a s = Some att" and "a_assistance_flags att \<noteq> []"
    and "s' = snd (evaluate ex fp rb gr a rid now s)"
  shows "\<exists>new. evidence s' = evidence s @ new \<and> (\<forall>e \<in> set new. me_delta e = 0)"
proof -
  let ?I = "\<lambda>t :: db. \<exists>new. evidence t = evidence s @ new \<and> (\<forall>e \<in> set new. me_delta e = 0)"
  have ev: "preserves ?I (recordEvidence inp now)" if "\<not> re_wasGenuineAttempt inp" for inp
  proof (rule preservesI)
    fix t assume "?I t"
    then obtain new where "evidence t = evidence s @ new" "\<forall>e \<in> set new. me_delta e = 0" by blast
    moreover obtain r t' where "recordEvidence inp now t = (r, t')" by force
    moreover from recordEvidence_row [OF this that] obtain new'
      where "evidence t' = evidence t @ new'" "\<forall>e \<in> set new'. me_delta e = 0" by blast
    ultimately show "?I (snd (recordEvidence inp now t))" by (intro exI [of _ "new @ new'"]) auto
  qed
  show ?thesis unfolding assms(3)
  proof (rule evaluate_keeps [where I = ?I])
    fix att' ver assume "findById a s = Some att'"
    then have "a_assistance_flags att' \<noteq> []" using assms(1,2) by simp
    then show "preserves ?I (settle_attempt ex fp rb gr att' ver rid now)"
      by (intro settle_keeps recordEloMatch_evidence evidence_transition ev) (auto simp: preserves_def)
  qed simp
qed

definition demo_version :: activity_version_row where
  "demo_version = \<lparr>v_id = ''av'', v_activity_id = ''act'', v_mode = ''GUIDED_LAB'', v_status = V_PUBLISHED,
     v_spec = \<lparr>as_environment = None, as_health_gate = None, as_faults = None, as_process_signals = None,
       as_artifacts_required = None, as_milestones = None, as_tasks = Some [demo_task], as_scoring_profile = None\<rparr>,
     v_blueprint_id = None, v_blueprint_version = None, v_difficulty_elo = None, v_estimated_minutes = Some 30, v_version = 1, v_difficulty_level = None,
     v_cost_budget_usd = None, v_published_at = None, v_published_by = None, v_mentor = no_mentor\<rparr>"

definition demo_submitted :: attempt_row where
  "demo_submitted = demo_attempt\<lparr>a_status := SUBMITTED, a_environment_id := Some ''env'',
     a_assistance_flags := [''guided_fallback'']\<rparr>"

definition demo_eval_db :: db where
  "demo_eval_db = empty_db\<lparr>attempts := [demo_submitted], versions := [demo_version], skills := [demo_skill],
     activity_skills := [\<lparr>ask_activity_version_id = ''av'', ask_skill_id = ''k'', ask_weight = 1, ask_is_primary = True\<rparr>]\<rparr>"

lemma demo_submitted_sel:
  "a_id demo_submitted = ''a''" "a_status demo_submitted = SUBMITTED" "a_activity_version_id demo_submitted = ''av''"
  "a_version demo_submitted = 1" "a_assistance_flags demo_submitted \<noteq> []" "a_idempotency_key demo_submitted = None"
  by (simp_all add: demo_submitted_def demo_attempt_def)

lemma demo_eval:
  "attempts_ok demo_eval_db" "log_ok demo_eval_db" "named_tasks ''a'' demo_eval_db" "mastery_ok demo_eval_db"
  "findById ''a'' demo_eval_db = Some demo_submitted" "content_ok ''av'' demo_eval_db"
proof -
  show "attempts_ok demo_eval_db" "findById ''a'' demo_eval_db = Some demo_submitted"
    by (simp_all add: attempts_ok_def idem_of_def demo_eval_db_def demo_submitted_sel findById_def)
  show "log_ok demo_eval_db" "named_tasks ''a'' demo_eval_db" "mastery_ok demo_eval_db"
    by (simp_all add: log_ok_def named_tasks_def log_of_def replay_def of_attempt_def mastery_ok_def demo_eval_db_def empty_db_def)
  show "content_ok ''av'' demo_eval_db"
    by (simp add: content_ok_def demo_eval_db_def demo_version_def demo_skill_def)
qed

theorem evaluate_settles_witness:
  "\<exists>score passed s'. evaluate demo_exec (\<lambda>_. []) (\<lambda>_. None) (\<lambda>_ _. Inl (RemoteErr ''down'')) ''a'' ''r1'' 9 demo_eval_db
     = (Inr (score, passed), s') \<and> score \<le> 1"
proof -
  have "a_status demo_submitted \<in> {SUBMITTED, EVALUATING}" "content_ok (a_activity_version_id demo_submitted) demo_eval_db"
    using demo_eval(6) by (simp_all add: demo_submitted_sel)
  from evaluate_settles [OF demo_eval(1,2,3,5) this, of demo_exec "\<lambda>_. []" "\<lambda>_. None"
      "\<lambda>_ _. Inl (RemoteErr ''down'')" "''r1''" 9]
  show ?thesis by blast
qed

theorem evaluate_invariants_witness:
  "mastery_ok (snd (evaluate demo_exec (\<lambda>_. []) (\<lambda>_. None) (\<lambda>_ _. Inl (RemoteErr ''down'')) ''a'' ''r1'' 9 demo_eval_db))"
  using evaluate_invariants [OF demo_eval(1,2,4) refl] by blast

theorem assisted_no_evidence_witness:
  "\<exists>new. evidence (snd (evaluate demo_exec (\<lambda>_. []) (\<lambda>_. None) (\<lambda>_ _. Inl (RemoteErr ''down'')) ''a'' ''r1'' 9 demo_eval_db))
     = evidence demo_eval_db @ new \<and> (\<forall>e \<in> set new. me_delta e = 0)"
  by (rule assisted_no_evidence [OF demo_eval(5) demo_submitted_sel(5) refl])

definition shares_primary_skill :: "string \<Rightarrow> string \<Rightarrow> db \<Rightarrow> bool" where
  "shares_primary_skill act act' s \<longleftrightarrow> (\<exists>v \<in> set (versions s). \<exists>v' \<in> set (versions s).
     \<exists>x \<in> set (activity_skills s). \<exists>x' \<in> set (activity_skills s).
       v_activity_id v = act \<and> v_activity_id v' = act' \<and> ask_is_primary x \<and> ask_is_primary x' \<and>
       ask_activity_version_id x = v_id v \<and> ask_activity_version_id x' = v_id v' \<and> ask_skill_id x = ask_skill_id x')"

lemma primary_skills_of_iff:
  "k \<in> set (primary_skills_of act s) \<longleftrightarrow> (\<exists>v \<in> set (versions s). \<exists>x \<in> set (activity_skills s).
     v_activity_id v = act \<and> ask_is_primary x \<and> ask_activity_version_id x = v_id v \<and> ask_skill_id x = k)"
  by (auto simp: primary_skills_of_def) metis+

lemma activities_targeting_iff:
  "c \<in> set (activities_targeting ks act s) \<longleftrightarrow> c \<noteq> act \<and> (\<exists>v \<in> set (versions s). \<exists>x \<in> set (activity_skills s).
     v_activity_id v = c \<and> ask_is_primary x \<and> ask_activity_version_id x = v_id v \<and> ask_skill_id x \<in> set ks)"
  by (auto simp: activities_targeting_def) metis+

text \<open>Property. Remediation clears cooldowns precisely: after a pass, a cooldown of the learner is cleared
  exactly when its activity is another one that shares a primary skill with the passed activity;
  every other row, of this or any other learner, is untouched.\<close>

theorem remediation_clears:
  "snd (clearCooldownsForRemediatedSkills u act s) = s\<lparr>learner_activities :=
     map (\<lambda>r. if la_user_id r = u \<and> la_activity_id r \<noteq> act \<and> shares_primary_skill act (la_activity_id r) s
              then r\<lparr>la_cooldown_until := None\<rparr> else r) (learner_activities s)\<rparr>"
proof -
  let ?ks = "primary_skills_of act s"
  have t: "c \<in> set (activities_targeting ?ks act s) \<longleftrightarrow> c \<noteq> act \<and> shares_primary_skill act c s" for c
    unfolding activities_targeting_iff shares_primary_skill_def primary_skills_of_iff by blast
  have upd: "update_where (\<lambda>r. la_user_id r = u \<and> la_activity_id r \<in> set (activities_targeting ?ks act s) \<and> la_cooldown_until r \<noteq> None)
      (\<lambda>r. r\<lparr>la_cooldown_until := None\<rparr>) rs =
    map (\<lambda>r. if la_user_id r = u \<and> la_activity_id r \<noteq> act \<and> shares_primary_skill act (la_activity_id r) s
              then r\<lparr>la_cooldown_until := None\<rparr> else r) rs" for rs :: "learner_activity_row list"
    unfolding t update_where_def
  proof (rule map_cong [OF refl])
    fix r :: learner_activity_row
    have "r\<lparr>la_cooldown_until := None\<rparr> = r" if "la_cooldown_until r = None"
      using that by (metis learner_activity_row.surjective learner_activity_row.update_convs(8))
    then show "(if la_user_id r = u \<and> (la_activity_id r \<noteq> act \<and> shares_primary_skill act (la_activity_id r) s) \<and>
          la_cooldown_until r \<noteq> None then r\<lparr>la_cooldown_until := None\<rparr> else r) =
        (if la_user_id r = u \<and> la_activity_id r \<noteq> act \<and> shares_primary_skill act (la_activity_id r) s
         then r\<lparr>la_cooldown_until := None\<rparr> else r)" by simp
  qed
  have none: "map (\<lambda>r. if la_user_id r = u \<and> la_activity_id r \<noteq> act \<and> shares_primary_skill act (la_activity_id r) s
              then r\<lparr>la_cooldown_until := None\<rparr> else r) (learner_activities s) = learner_activities s" if "activities_targeting ?ks act s = []"
    by (rule map_idI) (use t that in auto)
  show ?thesis
  proof (cases "activities_targeting ?ks act s = []")
    case True
    then show ?thesis using none by (simp add: clearCooldownsForRemediatedSkills_def)
  next
    case False
    then have "?ks \<noteq> []" by (auto simp: activities_targeting_def)
    then show ?thesis using False upd by (simp add: clearCooldownsForRemediatedSkills_def)
  qed
qed

text \<open>A task whose validators all ended in ERROR is reported as failed and, alone, scores zero: the
  platform's failure counts against the learner, which the comments of the runner rule out.\<close>

lemma error_only_task_fails:
  assumes "\<forall>r \<in> set rs. xr_status r = VERROR"
  shows "\<not> task_passed task rs"
    and "cr_taskResults inp = [summary_of task rs] \<Longrightarrow> technicalCorrectnessV1 inp = 0"
proof -
  have "filter (\<lambda>r. xr_status r \<noteq> VERROR) rs = []" using assms by (simp add: filter_empty_conv)
  then show "\<not> task_passed task rs" by (simp add: task_passed_def)
  show "technicalCorrectnessV1 inp = 0" if "cr_taskResults inp = [summary_of task rs]"
    using that assms by (intro no_pass_correctness) (auto simp: summary_of_def)
qed

end
