(* ===== verification/CommandConsumer.thy ===== *)
theory CommandConsumer
  imports Evaluation
begin

text \<open>
  \<open>attempt/command-executed.consumer.ts\<close>: every COMMAND_EXECUTED message is appended to the event
  log and matched against the activity's process signals, whose running counts are what the
  scoring engine reads. The NATS subscription loop (\<open>common/nats-subscriber-base.ts\<close>) is
  \<open>deliver\<close>: an invalid envelope is dropped, a throwing handler is logged, and the loop goes on.
\<close>

section \<open>Model\<close>

record command_payload =
  cp_cmd :: string
  cp_exit_code :: int
  cp_duration_ms :: nat
  cp_cmd_hash :: string
  cp_source :: string
  cp_cwd :: "string option"

record command_envelope =
  ce_attempt_id :: "string option"
  ce_payload :: "command_payload option"

text \<open>Truthiness: a missing or empty \<open>attempt_id\<close> is invalid.\<close>

definition isValidEnvelope :: "command_envelope \<Rightarrow> bool" where
  "isValidEnvelope e \<longleftrightarrow> ce_attempt_id e \<notin> {None, Some []} \<and> ce_payload e \<noteq> None"

definition payload_json :: "command_payload \<Rightarrow> json" where
  "payload_json p = JObj ([(''cmd'', JStr (cp_cmd p)), (''exit_code'', JNum (of_int (cp_exit_code p))),
     (''duration_ms'', JNum (real (cp_duration_ms p))), (''cmd_hash'', JStr (cp_cmd_hash p)),
     (''source'', JStr (cp_source p))] @ (case cp_cwd p of None \<Rightarrow> [] | Some d \<Rightarrow> [(''cwd'', JStr d)]))"

definition incrementSignal :: "string \<Rightarrow> string \<Rightarrow> unit prog" where
  "incrementSignal attemptId signalKey = modify (\<lambda>s. s\<lparr>signals :=
     upsert (\<lambda>r. sg_attempt_id r = attemptId \<and> sg_key r = signalKey)
       (\<lambda>r. r\<lparr>sg_value_num := sg_value_num r + 1\<rparr>)
       \<lparr>sg_attempt_id = attemptId, sg_key = signalKey, sg_value_num = 1\<rparr> (signals s)\<rparr>)"

definition processSignalsFor :: "string \<Rightarrow> db \<Rightarrow> process_signals option" where
  "processSignalsFor attemptId s = (case getActivitySpec attemptId s of None \<Rightarrow> None | Some spec \<Rightarrow> as_process_signals spec)"

definition matches_any :: "string list option \<Rightarrow> string \<Rightarrow> bool" where
  "matches_any ws cmd = (case ws of None \<Rightarrow> False | Some xs \<Rightarrow> list_ex (\<lambda>w. str_includes cmd w) xs)"

definition handleCommand :: "string \<Rightarrow> command_payload \<Rightarrow> time \<Rightarrow> unit prog" where
  "handleCommand attemptId payload now =
     andthen (appendTypedEvent attemptId LEARNER EV_COMMAND_EXECUTED (payload_json payload) now)
     (bnd (query (processSignalsFor attemptId)) (\<lambda>sig.
      case sig of None \<Rightarrow> ret () | Some ps \<Rightarrow>
      andthen (when_io (matches_any (ps_forbidden ps) (cp_cmd payload)) (incrementSignal attemptId ''blast_radius_violations''))
      (andthen (when_io (matches_any (ps_good_actions ps) (cp_cmd payload)) (incrementSignal attemptId ''diagnostic_efficiency_good_count''))
      (when_io (matches_any (ps_bad_actions ps) (cp_cmd payload)) (incrementSignal attemptId ''diagnostic_efficiency_bad_count'')))))"

text \<open>One message of the subscription loop; \<open>None\<close> is a message that does not parse.\<close>

definition deliver :: "command_envelope option \<Rightarrow> time \<Rightarrow> unit prog" where
  "deliver msg now = (case msg of None \<Rightarrow> ret () | Some e \<Rightarrow>
     if isValidEnvelope e
     then try_catch (handleCommand (the (ce_attempt_id e)) (the (ce_payload e)) now) (\<lambda>_. ret ())
     else ret ())"

section \<open>The running counts\<close>

lemma signal_value_increment:
  "signal_value a k (snd (incrementSignal b j s)) = signal_value a k s + (if a = b \<and> k = j then 1 else 0)"
proof (cases "a = b \<and> k = j")
  case True
  then show ?thesis
    by (auto simp: signal_value_def incrementSignal_def find_upsert_same split: option.splits)
next
  case False
  then have "find_row (\<lambda>r. sg_attempt_id r = a \<and> sg_key r = k) (signals (snd (incrementSignal b j s))) =
      find_row (\<lambda>r. sg_attempt_id r = a \<and> sg_key r = k) (signals s)"
    unfolding incrementSignal_def by (simp, intro find_upsert_other) auto
  then show ?thesis using False by (simp add: signal_value_def)
qed

text \<open>The three counters and the list of process signals that feeds each.\<close>

definition watched :: "string \<Rightarrow> process_signals \<Rightarrow> string list option" where
  "watched key ps =
     (if key = ''blast_radius_violations'' then ps_forbidden ps
      else if key = ''diagnostic_efficiency_good_count'' then ps_good_actions ps
      else if key = ''diagnostic_efficiency_bad_count'' then ps_bad_actions ps else None)"

definition hit :: "string \<Rightarrow> process_signals option \<Rightarrow> command_payload \<Rightarrow> bool" where
  "hit key sig p = (case sig of None \<Rightarrow> False | Some ps \<Rightarrow> matches_any (watched key ps) (cp_cmd p))"

lemma incrementSignal_run: "incrementSignal a k s = (Inr (), snd (incrementSignal a k s))"
  by (simp add: incrementSignal_def)

lemma processSignalsFor_cong:
  "attempts s' = attempts s \<Longrightarrow> versions s' = versions s \<Longrightarrow> processSignalsFor a s' = processSignalsFor a s"
  by (simp add: processSignalsFor_def getActivitySpec_def cong: option.case_cong)

lemma processSignalsFor_events [simp]: "processSignalsFor a (s\<lparr>events := es\<rparr>) = processSignalsFor a s"
  by (rule processSignalsFor_cong) simp_all

lemma processSignalsFor_increment [simp]: "processSignalsFor a (snd (incrementSignal b k s)) = processSignalsFor a s"
  by (rule processSignalsFor_cong) (simp_all add: incrementSignal_def)

lemma signal_value_events [simp]: "signal_value a k (s\<lparr>events := es\<rparr>) = signal_value a k s"
  by (simp add: signal_value_def)

lemma handleCommand_run:
  obtains s' where "handleCommand a p now s = (Inr (), s')"
    and "\<And>b key. signal_value b key s' = signal_value b key s +
      (if a = b \<and> hit key (processSignalsFor a s) p then 1 else 0)"
    and "processSignalsFor a s' = processSignalsFor a s"
    and "events s' = events s @ [new_event a LEARNER EV_COMMAND_EXECUTED (payload_json p) now s]"
    and "attempts s' = attempts s" and "versions s' = versions s"
proof (cases "processSignalsFor a s")
  case None
  then show thesis using that by (simp add: handleCommand_def hit_def)
next
  case (Some ps)
  let ?s0 = "s\<lparr>events := events s @ [new_event a LEARNER EV_COMMAND_EXECUTED (payload_json p) now s]\<rparr>"
  define inc where "inc = (\<lambda>c key t. if c then snd (incrementSignal a key t) else t)"
  have inc: "signal_value b key (inc c j t) = signal_value b key t + (if c \<and> a = b \<and> key = j then 1 else 0)"
    "processSignalsFor a (inc c j t) = processSignalsFor a t" "events (inc c j t) = events t"
    "attempts (inc c j t) = attempts t" "versions (inc c j t) = versions t" for b key c j t
    by (simp_all add: inc_def signal_value_increment) (simp_all add: incrementSignal_def)
  have step: "when_io c (incrementSignal a j) t = (Inr (), inc c j t)" for c j t
    using incrementSignal_run by (simp add: inc_def)
  define s' where "s' = inc (matches_any (ps_bad_actions ps) (cp_cmd p)) ''diagnostic_efficiency_bad_count''
     (inc (matches_any (ps_good_actions ps) (cp_cmd p)) ''diagnostic_efficiency_good_count''
       (inc (matches_any (ps_forbidden ps) (cp_cmd p)) ''blast_radius_violations'' ?s0))"
  have "handleCommand a p now s = (Inr (), s')"
    using Some step by (simp add: handleCommand_def s'_def del: when_io_run)
  moreover have "signal_value b key s' = signal_value b key s + (if a = b \<and> hit key (processSignalsFor a s) p then 1 else 0)" for b key
    using Some by (simp add: s'_def inc hit_def watched_def matches_any_def)
  ultimately show thesis using that by (simp add: s'_def inc)
qed

section \<open>Properties\<close>

definition commands_of :: "string \<Rightarrow> command_envelope option list \<Rightarrow> command_payload list" where
  "commands_of a msgs = List.map_filter (\<lambda>m. case m of None \<Rightarrow> None | Some e \<Rightarrow>
     if isValidEnvelope e \<and> ce_attempt_id e = Some a then ce_payload e else None) msgs"

definition command_of :: "string \<Rightarrow> command_envelope option \<Rightarrow> command_payload option" where
  "command_of a m = (case m of None \<Rightarrow> None | Some e \<Rightarrow>
     if isValidEnvelope e \<and> ce_attempt_id e = Some a then ce_payload e else None)"

lemma commands_of_simps:
  "commands_of a [] = []"
  "commands_of a (m # ms) = (case command_of a m of None \<Rightarrow> [] | Some p \<Rightarrow> [p]) @ commands_of a ms"
  by (simp_all add: commands_of_def command_of_def List.map_filter_simps split: option.split)

lemma deliver_run:
  obtains s' where "deliver m now s = (Inr (), s')"
    and "\<And>key. signal_value a key s' = signal_value a key s + length (filter (hit key (processSignalsFor a s)) (commands_of a [m]))"
    and "processSignalsFor a s' = processSignalsFor a s"
    and "length (filter (\<lambda>e. e_attempt_id e = a \<and> e_type e = EV_COMMAND_EXECUTED) (events s')) =
      length (filter (\<lambda>e. e_attempt_id e = a \<and> e_type e = EV_COMMAND_EXECUTED) (events s)) + length (commands_of a [m])"
proof (cases "\<exists>e. m = Some e \<and> isValidEnvelope e")
  case False
  then have "deliver m now s = (Inr (), s)" by (auto simp: deliver_def split: option.split)
  moreover have "commands_of a [m] = []"
    using False by (auto simp: commands_of_simps command_of_def split: option.split)
  ultimately show thesis using that [of s] by simp
next
  case True
  then obtain e b p where e: "m = Some e" "isValidEnvelope e" "ce_attempt_id e = Some b" "ce_payload e = Some p"
    by (auto simp: isValidEnvelope_def)
  then have cmds: "commands_of a [m] = (if a = b then [p] else [])"
    by (simp add: commands_of_simps command_of_def)
  show thesis
  proof (rule handleCommand_run [of b p now s])
    fix s' assume h: "handleCommand b p now s = (Inr (), s')"
      "\<And>c key. signal_value c key s' = signal_value c key s + (if b = c \<and> hit key (processSignalsFor b s) p then 1 else 0)"
      "events s' = events s @ [new_event b LEARNER EV_COMMAND_EXECUTED (payload_json p) now s]"
      "attempts s' = attempts s" "versions s' = versions s"
    have "processSignalsFor a s' = processSignalsFor a s"
      by (rule processSignalsFor_cong) (use h in simp_all)
    moreover have "deliver m now s = (Inr (), s')" using e h(1) by (simp add: deliver_def)
    ultimately show thesis using that h cmds by simp
  qed
qed

text \<open>Property. The signals are exact counts: after any stream of delivered messages (malformed and
  foreign ones included), each process-signal counter of an attempt has grown by exactly the number
  of its commands that contain one of the watched substrings, and every valid command is in the
  event log, so scoring from signals and scoring from the log agree.\<close>

theorem signals_exact:
  assumes "s' = fold (\<lambda>(m, now) s. snd (deliver m now s)) msgs s"
  shows "signal_value a key s' = signal_value a key s +
      length (filter (hit key (processSignalsFor a s)) (commands_of a (map fst msgs)))
    \<and> length (filter (\<lambda>e. e_attempt_id e = a \<and> e_type e = EV_COMMAND_EXECUTED) (events s')) =
      length (filter (\<lambda>e. e_attempt_id e = a \<and> e_type e = EV_COMMAND_EXECUTED) (events s)) +
      length (commands_of a (map fst msgs))"
  using assms
proof (induction msgs arbitrary: s)
  case Nil
  then show ?case by (simp add: commands_of_simps)
next
  case (Cons mn msgs)
  obtain m now where mn: "mn = (m, now)" by force
  have split: "commands_of a (m # ms) = commands_of a [m] @ commands_of a ms" for ms
    by (simp add: commands_of_simps)
  show ?case
  proof (rule deliver_run [of m now s a])
    fix s1 assume d: "deliver m now s = (Inr (), s1)"
      "\<And>key. signal_value a key s1 = signal_value a key s + length (filter (hit key (processSignalsFor a s)) (commands_of a [m]))"
      "processSignalsFor a s1 = processSignalsFor a s"
      "length (filter (\<lambda>e. e_attempt_id e = a \<and> e_type e = EV_COMMAND_EXECUTED) (events s1)) =
      length (filter (\<lambda>e. e_attempt_id e = a \<and> e_type e = EV_COMMAND_EXECUTED) (events s)) + length (commands_of a [m])"
    have "s' = fold (\<lambda>(m, now) s. snd (deliver m now s)) msgs s1" using Cons.prems mn d(1) by simp
    from Cons.IH [OF this] show ?thesis using d mn by (simp add: split [of "map fst msgs"])
  qed
qed

definition demo_cmd :: "string \<Rightarrow> command_envelope" where
  "demo_cmd c = \<lparr>ce_attempt_id = Some ''a'', ce_payload = Some \<lparr>cp_cmd = c, cp_exit_code = 0, cp_duration_ms = 1,
     cp_cmd_hash = [], cp_source = ''tty'', cp_cwd = None\<rparr>\<rparr>"

theorem signals_exact_witness:
  "\<exists>n. length (filter (\<lambda>e. e_attempt_id e = ''a'' \<and> e_type e = EV_COMMAND_EXECUTED)
     (events (fold (\<lambda>(m, now) s. snd (deliver m now s)) [(Some (demo_cmd ''ls''), 1), (None, 2)] empty_db))) = n + 1"
  using signals_exact [OF refl, of "''a''" "[]" "[(Some (demo_cmd ''ls''), 1), (None, 2)]" empty_db]
  by (simp add: commands_of_simps command_of_def isValidEnvelope_def demo_cmd_def)

end
