(* ===== verification/AttemptService.thy ===== *)
theory AttemptService
  imports Eligibility HintService CommandConsumer
begin

text \<open>
  \<open>attempt/attempt.service.ts\<close>, the attempt life cycle, with the ENV_DESTROYED consumer and the
  cache sweep that drive it from outside. The environment orchestrator is a gRPC service of
  another process, so it is an argument: a record of the four calls, each answering with a result
  or an exception. \<open>provision\<close> awaits the orchestrator between two database phases; the phases are
  separate definitions, composed the way the code composes them, so that what other requests do
  in between can be modelled.
\<close>

section \<open>The orchestrator interface\<close>

record fixture_ref =
  fx_fixtureId :: string
  fx_version :: string

datatype env_tier = T0_BROWSER | T1_SHARED_CONTAINER | T2_ISOLATED_MICROVM | T3_CLOUD_ACCOUNT

text \<open>\<open>rq_healthGate\<close> is the list whose JSON text is sent.\<close>

record provision_request =
  rq_attemptId :: string
  rq_blueprintId :: string
  rq_blueprintVersion :: string
  rq_tier :: env_tier
  rq_ttlMinutes :: nat
  rq_idleTimeoutMinutes :: nat
  rq_fixtures :: "fixture_ref list"
  rq_healthGate :: "json list option"

datatype provision_status = ENV_PROVISIONING | ENV_READY | ENV_PROVISION_FAILED

record provision_result =
  pr_environmentId :: string
  pr_status :: provision_status

record inject_fault_request =
  if_environmentId :: string
  if_faultId :: string
  if_params :: "(string \<times> string) list"
  if_attemptId :: string

record inject_fault_result =
  ir_applied :: bool
  ir_symptomVerified :: bool

record connect_result =
  cn_terminalWsUrl :: string
  cn_sessionToken :: string

text \<open>\<open>o_destroy\<close> takes the environment, the reason and the attempt.\<close>

record orchestrator =
  o_provision :: "provision_request \<Rightarrow> exn + provision_result"
  o_destroy :: "string \<Rightarrow> string \<Rightarrow> string \<Rightarrow> exn + bool"
  o_connect :: "string \<Rightarrow> string \<Rightarrow> exn + connect_result"
  o_injectFault :: "inject_fault_request \<Rightarrow> exn + inject_fault_result"

text \<open>The services \<open>AttemptService\<close> is constructed with, besides the repositories.\<close>

record services =
  sv_orchestrator :: orchestrator
  sv_executor :: executor
  sv_faultPath :: "string \<Rightarrow> string list"
  sv_rubrics :: rubrics
  sv_grader :: grader
  sv_quotaDisabled :: bool

section \<open>Model: creation\<close>

record create_input =
  cx_tenantId :: string
  cx_userId :: string
  cx_activityVersionId :: string
  cx_idempotencyKey :: "string option"

definition createAttempt :: "services \<Rightarrow> create_input \<Rightarrow> string \<Rightarrow> time \<Rightarrow> attempt_row prog" where
  "createAttempt sv inp newId now =
     bnd (bnd (query (\<lambda>s. find_row (\<lambda>v. v_id v = cx_activityVersionId inp) (versions s)))
        (\<lambda>v. findOrThrow v (''activity version '' @ cx_activityVersionId inp @ '' not found''))) (\<lambda>version.
     bnd (query (check (sv_quotaDisabled sv) (cx_userId inp) (cx_activityVersionId inp) now)) (\<lambda>result.
     andthen (when_io (\<not> el_eligible result) (attemptError (el_reasons result)))
     (bnd (query (findMostRecentCompletedAttempt (cx_userId inp) (v_activity_id version))) (\<lambda>priorAttempt.
     bnd (create \<lparr>ci_tenantId = cx_tenantId inp, ci_userId = cx_userId inp, ci_activityId = v_activity_id version,
        ci_activityVersionId = cx_activityVersionId inp, ci_mode = v_mode version,
        ci_idempotencyKey = cx_idempotencyKey inp,
        ci_retryOfAttemptId = map_option a_id priorAttempt,
        ci_retryIndex = map_option (\<lambda>p. a_retry_index p + 1) priorAttempt\<rparr> newId now) (\<lambda>attempt.
     bnd (query (eventHasBeenRecorded (a_id attempt) EV_ATTEMPT_CREATED)) (\<lambda>alreadyHasEvent.
     andthen (when_io (\<not> alreadyHasEvent) (appendTypedEvent (a_id attempt) SYSTEM EV_ATTEMPT_CREATED
        (JObj [(''activity_version_id'', JStr (cx_activityVersionId inp))]) now))
     (ret attempt)))))))"

section \<open>Model: provisioning\<close>

definition tierMap :: "(string \<times> env_tier) list" where
  "tierMap = [(''BROWSER'', T0_BROWSER), (''SHARED_CONTAINER'', T1_SHARED_CONTAINER),
     (''ISOLATED_VM'', T2_ISOLATED_MICROVM), (''CLOUD_ACCOUNT'', T3_CLOUD_ACCOUNT)]"

definition tier_of :: "environment_spec option \<Rightarrow> env_tier" where
  "tier_of env =
     (let name = (case env of None \<Rightarrow> ''SHARED_CONTAINER''
        | Some e \<Rightarrow> (case es_tier e of None \<Rightarrow> ''SHARED_CONTAINER'' | Some t \<Rightarrow> t))
      in case map_of tierMap name of None \<Rightarrow> T1_SHARED_CONTAINER | Some t \<Rightarrow> t)"

definition is_digit :: "char \<Rightarrow> bool" where
  "is_digit c \<longleftrightarrow> c \<in> set ''0123456789''"

text \<open>The match of \<open>/^(.*)\.v(\d+)$/\<close>: the trailing digits, if \<open>.v\<close> stands before them.\<close>

definition version_suffix :: "string \<Rightarrow> string option" where
  "version_suffix str =
     (let digits = rev (takeWhile is_digit (rev str));
          before = take (length str - length digits) str
      in if digits \<noteq> [] \<and> starts_with (rev before) ''v.'' \<and>
            list_all (\<lambda>c. c \<noteq> CHR 0x0A \<and> c \<noteq> CHR 0x0D) before
         then Some digits else None)"

definition fixture_of :: "string \<Rightarrow> fixture_ref" where
  "fixture_of str = (case version_suffix str of
     None \<Rightarrow> \<lparr>fx_fixtureId = str, fx_version = ''1''\<rparr>
   | Some d \<Rightarrow> \<lparr>fx_fixtureId = take (length str - length d - 2) str @ ''.v'' @ d, fx_version = d\<rparr>)"

definition nonempty_list :: "'a list option \<Rightarrow> 'a list option" where
  "nonempty_list x = (case x of None \<Rightarrow> None | Some xs \<Rightarrow> if length xs = 0 then None else Some xs)"

definition provision_request_of :: "string \<Rightarrow> activity_version_row \<Rightarrow> provision_request" where
  "provision_request_of attemptId version =
     (let spec = v_spec version; env = as_environment spec in
      \<lparr>rq_attemptId = attemptId,
       rq_blueprintId = (case v_blueprint_id version of None \<Rightarrow> ''unknown'' | Some b \<Rightarrow> b),
       rq_blueprintVersion = (case v_blueprint_version version of None \<Rightarrow> ''1'' | Some b \<Rightarrow> b),
       rq_tier = tier_of env,
       rq_ttlMinutes = (case Option.bind env es_ttl_minutes of None \<Rightarrow> 90 | Some n \<Rightarrow> n),
       rq_idleTimeoutMinutes = (case Option.bind env es_idle_timeout_minutes of None \<Rightarrow> 15 | Some n \<Rightarrow> n),
       rq_fixtures = map fixture_of (case Option.bind env es_seed of None \<Rightarrow> [] | Some xs \<Rightarrow> xs),
       rq_healthGate = nonempty_list (as_health_gate spec)\<rparr>)"

definition applyT0Faults :: "services \<Rightarrow> string \<Rightarrow> string \<Rightarrow> activity_spec \<Rightarrow> time \<Rightarrow> unit prog" where
  "applyT0Faults sv attemptId environmentId spec now =
     for_each (filter (\<lambda>f. f_apply_at f = ''T0'') (case as_faults spec of None \<Rightarrow> [] | Some fs \<Rightarrow> fs)) (\<lambda>fault.
       bnd (call (o_injectFault (sv_orchestrator sv) \<lparr>if_environmentId = environmentId, if_faultId = f_id fault,
          if_params = f_params fault, if_attemptId = attemptId\<rparr>)) (\<lambda>result.
       appendTypedEvent attemptId SYSTEM EV_FAULT_INJECTED (JObj [(''fault_id'', JStr (f_id fault)),
          (''applied'', JBool (ir_applied result)), (''symptom_verified'', JBool (ir_symptomVerified result))]) now))"

definition status_update :: "attempt_status \<Rightarrow> attempt_updates" where
  "status_update st = no_updates\<lparr>u_status := Some st\<rparr>"

text \<open>JavaScript truthiness of a nullable string: null and the empty string are false.\<close>

definition truthy :: "string option \<Rightarrow> string option" where
  "truthy x = (case x of Some [] \<Rightarrow> None | y \<Rightarrow> y)"

definition invalid_state :: "string \<Rightarrow> attempt_status \<Rightarrow> string \<Rightarrow> 'a prog" where
  "invalid_state attemptId st expected = singleAttemptError INVALID_STATE_TRANSITION
     (''attempt '' @ attemptId @ '' is '' @ status_str st @ '', expected '' @ expected)"

definition find_attempt :: "string \<Rightarrow> attempt_row prog" where
  "find_attempt attemptId = bnd (query (findById attemptId)) (\<lambda>r. findOrThrow r (''attempt '' @ attemptId @ '' not found''))"

text \<open>Up to the orchestrator call.\<close>

definition provision_begin :: "string \<Rightarrow> time \<Rightarrow> activity_version_row prog" where
  "provision_begin attemptId now =
     bnd (find_attempt attemptId) (\<lambda>attempt.
     andthen (when_io (a_status attempt \<noteq> CREATED) (invalid_state attemptId (a_status attempt) ''CREATED''))
     (bnd (bnd (query (\<lambda>s. find_row (\<lambda>v. v_id v = a_activity_version_id attempt) (versions s))) takeFirstOrThrow) (\<lambda>version.
     andthen (appendTypedEvent attemptId SYSTEM EV_ENV_REQUESTED
        (JObj [(''blueprint_id'', case v_blueprint_id version of None \<Rightarrow> JNull | Some b \<Rightarrow> JStr b)]) now)
     (andthen (transition attemptId (a_version attempt) (status_update PROVISIONING) now)
     (ret version)))))"

text \<open>From the orchestrator's answer on.\<close>

definition provision_complete ::
    "services \<Rightarrow> string \<Rightarrow> activity_version_row \<Rightarrow> provision_result \<Rightarrow> time \<Rightarrow> attempt_row prog" where
  "provision_complete sv attemptId version result now =
     bnd (query (findById attemptId)) (\<lambda>row. case row of
       None \<Rightarrow> singleAttemptError ATTEMPT_VANISHED (''attempt '' @ attemptId @ '' disappeared mid-provision'')
     | Some refreshed \<Rightarrow>
         if pr_status result = ENV_READY then
           andthen (appendTypedEvent attemptId SYSTEM EV_ENV_READY
              (JObj [(''environment_id'', JStr (pr_environmentId result))]) now)
           (andthen (applyT0Faults sv attemptId (pr_environmentId result) (v_spec version) now)
           (transition attemptId (a_version refreshed)
              ((status_update READY)\<lparr>u_environmentId := Some (Some (pr_environmentId result))\<rparr>) now))
         else
           andthen (appendTypedEvent attemptId SYSTEM EV_ENV_FAILED (JObj []) now)
           (transition attemptId (a_version refreshed) (status_update PROVISION_FAILED) now))"

definition provision :: "services \<Rightarrow> string \<Rightarrow> time \<Rightarrow> time \<Rightarrow> attempt_row prog" where
  "provision sv attemptId now later =
     bnd (provision_begin attemptId now) (\<lambda>version.
     bnd (call (o_provision (sv_orchestrator sv) (provision_request_of attemptId version))) (\<lambda>result.
     provision_complete sv attemptId version result later))"

section \<open>Model: working and submitting\<close>

definition markStarted :: "string \<Rightarrow> time \<Rightarrow> attempt_row prog" where
  "markStarted attemptId now =
     bnd (find_attempt attemptId) (\<lambda>attempt.
     if a_status attempt \<noteq> READY then ret attempt else
     andthen (appendTypedEvent attemptId LEARNER EV_ATTEMPT_STARTED (JObj []) now)
     (transition attemptId (a_version attempt) ((status_update IN_PROGRESS)\<lparr>u_startedAt := Some now\<rparr>) now))"

record check_report =
  ck_tasks :: "(string \<times> bool \<times> bool \<times> (string \<times> validator_status \<times> severity) list) list"
  ck_all_required_passed :: bool

definition report_of :: "task_summary list \<Rightarrow> check_report" where
  "report_of summaries = \<lparr>ck_tasks = map (\<lambda>t. (su_taskKey t, su_required t, su_passed t,
       map (\<lambda>r. (vo_validatorId r, vo_status r, vo_severity r)) (su_results t))) summaries,
     ck_all_required_passed = list_all su_passed (filter su_required summaries)\<rparr>"

definition checkWork :: "services \<Rightarrow> string \<Rightarrow> string \<Rightarrow> time \<Rightarrow> check_report prog" where
  "checkWork sv attemptId runId now =
     bnd (find_attempt attemptId) (\<lambda>attempt.
     andthen (when_io (a_status attempt \<noteq> IN_PROGRESS) (invalid_state attemptId (a_status attempt) ''IN_PROGRESS''))
     (case truthy (a_environment_id attempt) of
        None \<Rightarrow> singleAttemptError NO_ENVIRONMENT (''attempt '' @ attemptId @ '' has no environment to validate against'')
      | Some env \<Rightarrow>
     bnd (bnd (query (\<lambda>s. find_row (\<lambda>v. v_id v = a_activity_version_id attempt) (versions s)))
        (\<lambda>v. findOrThrow v (''activity version '' @ a_activity_version_id attempt @ '' not found''))) (\<lambda>version.
     bnd (run_validation (sv_executor sv) attemptId env ScopeAll ''manual''
        (case as_tasks (v_spec version) of None \<Rightarrow> [] | Some ts \<Rightarrow> ts) runId now) (\<lambda>summaries.
     andthen (rebuildForAttempt attemptId)
     (andthen (touch attemptId now)
     (ret (report_of summaries)))))))"

definition submit :: "services \<Rightarrow> string \<Rightarrow> string \<Rightarrow> time \<Rightarrow> attempt_row prog" where
  "submit sv attemptId runId now =
     bnd (find_attempt attemptId) (\<lambda>attempt.
     andthen (when_io (a_status attempt \<noteq> IN_PROGRESS) (invalid_state attemptId (a_status attempt) ''IN_PROGRESS''))
     (andthen (appendTypedEvent attemptId LEARNER EV_SUBMITTED (JObj []) now)
     (andthen (transition attemptId (a_version attempt) ((status_update SUBMITTED)\<lparr>u_submittedAt := Some now\<rparr>) now)
     (andthen (evaluate (sv_executor sv) (sv_faultPath sv) (sv_rubrics sv) (sv_grader sv) attemptId runId now)
     (bnd (query (findById attemptId)) (\<lambda>row. case row of
        None \<Rightarrow> singleAttemptError ATTEMPT_VANISHED (''attempt '' @ attemptId @ '' disappeared mid-evaluation'')
      | Some evaluated \<Rightarrow>
          andthen (case truthy (a_environment_id evaluated) of
             None \<Rightarrow> ret ()
           | Some env \<Rightarrow> try_catch
               (andthen (call (o_destroy (sv_orchestrator sv) env ''submit'' attemptId)) (ret ())) (\<lambda>_. ret ()))
          (ret evaluated)))))))"

definition connect :: "services \<Rightarrow> string \<Rightarrow> connect_result prog" where
  "connect sv attemptId =
     bnd (find_attempt attemptId) (\<lambda>attempt.
     case truthy (a_environment_id attempt) of
       None \<Rightarrow> singleAttemptError NO_ENVIRONMENT
         (''attempt '' @ attemptId @ '' has no environment (status '' @ status_str (a_status attempt) @ '')'')
     | Some env \<Rightarrow> call (o_connect (sv_orchestrator sv) env attemptId))"

section \<open>Model: suspension, caching and reactivation\<close>

definition handleEnvironmentDestroyed :: "string \<Rightarrow> string \<Rightarrow> time \<Rightarrow> unit prog" where
  "handleEnvironmentDestroyed attemptId why now =
     bnd (query (findById attemptId)) (\<lambda>row. case row of
       None \<Rightarrow> ret ()
     | Some attempt \<Rightarrow>
         if a_status attempt \<in> set TERMINAL then ret ()
         else if (a_status attempt = SUSPENDED \<or> a_status attempt = CACHED) \<and> why \<noteq> ''submit'' then ret ()
         else andthen (transition attemptId (a_version attempt)
           ((status_update (if why = ''submit'' then EVALUATING else SUSPENDED))\<lparr>u_environmentId := Some None\<rparr>) now)
           (ret ()))"

text \<open>The ENV_DESTROYED consumer's handling of one message; \<open>None\<close> a message without attempt id or
  that does not parse.\<close>

definition deliver_destroyed :: "(string \<times> string) option \<Rightarrow> time \<Rightarrow> unit prog" where
  "deliver_destroyed msg now = (case msg of None \<Rightarrow> ret ()
   | Some (attemptId, why) \<Rightarrow> if attemptId = [] then ret ()
       else try_catch (handleEnvironmentDestroyed attemptId why now) (\<lambda>_. ret ()))"

definition cache :: "string \<Rightarrow> time \<Rightarrow> unit prog" where
  "cache attemptId now =
     bnd (query (findById attemptId)) (\<lambda>row. case row of
       None \<Rightarrow> ret ()
     | Some attempt \<Rightarrow>
         if a_status attempt \<noteq> SUSPENDED then ret () else
         andthen (appendTypedEvent attemptId SYSTEM EV_SNAPSHOT_TAKEN
            (JObj [(''snapshot_id'', JNull), (''captured'', JBool False), (''reason'', JStr ''tier_does_not_snapshot'')]) now)
         (andthen (appendTypedEvent attemptId SYSTEM EV_SUSPENDED
            (JObj [(''reason'', JStr ''cache_sweep_inactive''), (''from_status'', JStr (status_str (a_status attempt)))]) now)
         (andthen (transition attemptId (a_version attempt)
            ((status_update CACHED)\<lparr>u_snapshotId := Some None, u_snapshotTakenAt := Some (Some now)\<rparr>) now)
         (ret ()))))"

definition INACTIVITY_THRESHOLD_MS :: int where "INACTIVITY_THRESHOLD_MS = 72 * 60 * 60 * 1000"

definition sweep :: "time \<Rightarrow> unit prog" where
  "sweep now =
     bnd (query (findStaleSuspendedAttempts (now - INACTIVITY_THRESHOLD_MS))) (\<lambda>stale.
     for_each stale (\<lambda>attempt. try_catch (cache (a_id attempt) now) (\<lambda>_. ret ())))"

definition REACTIVATABLE_STATUSES :: "attempt_status list" where
  "REACTIVATABLE_STATUSES = [SUSPENDED, CACHED, PROVISION_FAILED]"

definition reactivate :: "string \<Rightarrow> time \<Rightarrow> attempt_row prog" where
  "reactivate attemptId now =
     bnd (find_attempt attemptId) (\<lambda>attempt.
     if a_status attempt \<notin> set REACTIVATABLE_STATUSES then ret attempt else
     andthen (appendTypedEvent attemptId LEARNER EV_RESUMED
        (JObj [(''from_status'', JStr (status_str (a_status attempt))),
               (''snapshot_id'', case a_snapshot_id attempt of None \<Rightarrow> JNull | Some i \<Rightarrow> JStr i)]) now)
     (transition attemptId (a_version attempt) ((status_update CREATED)\<lparr>u_environmentId := Some None\<rparr>) now))"

section \<open>What the operations do\<close>

lemma find_attempt_run [simp]:
  "find_attempt a s = (case findById a s of
     None \<Rightarrow> (Inl (NotFound (''attempt '' @ a @ '' not found'')), s) | Some r \<Rightarrow> (Inr r, s))"
  by (simp add: find_attempt_def split: option.split)

lemma invalid_state_run [simp]:
  "invalid_state a st ex s = (Inl (AttemptErr [\<lparr>er_code = INVALID_STATE_TRANSITION,
     er_message = ''attempt '' @ a @ '' is '' @ status_str st @ '', expected '' @ ex\<rparr>]), s)"
  by (simp add: invalid_state_def)

text \<open>The database with one more event.\<close>

definition logged :: "string \<Rightarrow> event_actor \<Rightarrow> attempt_event_type \<Rightarrow> json \<Rightarrow> time \<Rightarrow> db \<Rightarrow> db" where
  "logged a actor ty p now s = s\<lparr>events := events s @ [new_event a actor ty p now s]\<rparr>"

lemma logged_sel [simp]:
  "findById b (logged a actor ty p now s) = findById b s"
  "attempts_ok (logged a actor ty p now s) = attempts_ok s"
  "attempts (logged a actor ty p now s) = attempts s"
  "versions (logged a actor ty p now s) = versions s"
  "appendTypedEvent a actor ty p now s = (Inr (), logged a actor ty p now s)"
  by (simp_all add: logged_def)

declare appendTypedEvent_run [simp del]

lemma log_of_logged [simp]:
  "log_ok s \<Longrightarrow> log_of b (logged a actor ty p now s) = log_of b s @ (if a = b then [(actor, ty, p, now)] else [])"
  by (simp add: logged_def log_of_append)

lemma log_ok_logged [simp]: "log_ok s \<Longrightarrow> log_ok (logged a actor ty p now s)"
  by (simp add: logged_def log_ok_append)

lemma log_of_transitioned [simp]: "log_of b (transitioned r u now s) = log_of b s"
  and log_ok_transitioned [simp]: "log_ok (transitioned r u now s) = log_ok s"
  by (simp_all add: log_of_def replay_def log_ok_def)

lemma provision_begin_run:
  assumes "attempts_ok s"
  shows "provision_begin a now s = (case findById a s of
     None \<Rightarrow> (Inl (NotFound (''attempt '' @ a @ '' not found'')), s)
   | Some r \<Rightarrow> if a_status r \<noteq> CREATED then invalid_state a (a_status r) ''CREATED'' s
     else (case find_row (\<lambda>v. v_id v = a_activity_version_id r) (versions s) of
       None \<Rightarrow> (Inl NoResult, s)
     | Some ver \<Rightarrow> (Inr ver, transitioned r (status_update PROVISIONING) now
         (logged a SYSTEM EV_ENV_REQUESTED
           (JObj [(''blueprint_id'', case v_blueprint_id ver of None \<Rightarrow> JNull | Some b \<Rightarrow> JStr b)]) now s))))"
  using assms transition_ok
  by (auto simp: provision_begin_def split: option.split)

lemma provision_begin_ok:
  assumes "attempts_ok s" and "provision_begin a now s = (Inr ver, t)"
  shows "attempts_ok t \<and> (\<exists>r. findById a t = Some r \<and> a_status r = PROVISIONING)"
  using assms findById_transitioned [of "logged a SYSTEM EV_ENV_REQUESTED p now s" a for p]
  by (auto simp: provision_begin_run attempts_ok_transitioned status_update_def no_updates_def
      split: option.splits if_splits)

subsection \<open>Creation\<close>

definition created_count :: "string \<Rightarrow> db \<Rightarrow> nat" where
  "created_count a s = length (filter (\<lambda>x. fst (snd x) = EV_ATTEMPT_CREATED) (log_of a s))"

lemma created_count_logged:
  "log_ok s \<Longrightarrow> created_count a (logged a actor EV_ATTEMPT_CREATED p now s) = Suc (created_count a s)"
  by (simp add: created_count_def)

lemma recorded_iff: "eventHasBeenRecorded a EV_ATTEMPT_CREATED s \<longleftrightarrow> created_count a s \<noteq> 0"
  by (auto simp: eventHasBeenRecorded_def created_count_def log_of_def body_def list_ex_iff filter_empty_conv)

definition create_input_of :: "create_input \<Rightarrow> activity_version_row \<Rightarrow> attempt_row option \<Rightarrow> create_attempt_input" where
  "create_input_of inp version prior =
     \<lparr>ci_tenantId = cx_tenantId inp, ci_userId = cx_userId inp, ci_activityId = v_activity_id version,
      ci_activityVersionId = cx_activityVersionId inp, ci_mode = v_mode version,
      ci_idempotencyKey = cx_idempotencyKey inp, ci_retryOfAttemptId = map_option a_id prior,
      ci_retryIndex = map_option (\<lambda>p. a_retry_index p + 1) prior\<rparr>"

lemma create_result:
  assumes "create inp i now s = (Inl e, t)"
  shows "t = s"
  using assms by (auto simp: create_def insert_attempt_run split: option.splits if_splits)

lemma create_found:
  assumes "attempts_ok s" and "create inp i now s = (Inr r, t)"
  shows "(t = s \<and> findById (a_id r) s = Some r \<and> ci_idempotencyKey inp \<noteq> None \<and> a_idempotency_key r = ci_idempotencyKey inp
      \<and> a_user_id r = ci_userId inp \<and> a_activity_version_id r = ci_activityVersionId inp)
    \<or> (r = new_attempt inp i now \<and> findById i s = None \<and> t = s\<lparr>attempts := attempts s @ [r]\<rparr> \<and> findById i t = Some r)"
proof -
  have "(t = s \<and> (\<exists>k. ci_idempotencyKey inp = Some k \<and> find_row (\<lambda>r. a_user_id r = ci_userId inp \<and>
        a_activity_version_id r = ci_activityVersionId inp \<and> a_idempotency_key r = Some k) (attempts s) = Some r))
    \<or> insert_attempt (new_attempt inp i now) s = (Inr r, t)"
    using assms(2) by (auto simp: create_def split: option.splits)
  then show ?thesis
  proof
    assume "insert_attempt (new_attempt inp i now) s = (Inr r, t)"
    then have "r = new_attempt inp i now" "t = s\<lparr>attempts := attempts s @ [r]\<rparr>" "findById i s = None"
      by (auto simp: insert_attempt_run findById_def find_row_None_iff list_ex_iff split: if_splits)
    then show ?thesis by (simp add: findById_def find_row_append)
  next
    assume "t = s \<and> (\<exists>k. ci_idempotencyKey inp = Some k \<and> find_row (\<lambda>r. a_user_id r = ci_userId inp \<and>
        a_activity_version_id r = ci_activityVersionId inp \<and> a_idempotency_key r = Some k) (attempts s) = Some r)"
    then show ?thesis using findById_iff [OF assms(1)] by (auto dest!: find_row_SomeD)
  qed
qed

lemma createAttempt_run:
  "createAttempt sv inp i now s = (case find_row (\<lambda>v. v_id v = cx_activityVersionId inp) (versions s) of
     None \<Rightarrow> (Inl (NotFound (''activity version '' @ cx_activityVersionId inp @ '' not found'')), s)
   | Some version \<Rightarrow> let el = check (sv_quotaDisabled sv) (cx_userId inp) (cx_activityVersionId inp) now s in
       if \<not> el_eligible el then (Inl (AttemptErr (el_reasons el)), s)
       else (case create (create_input_of inp version
                (findMostRecentCompletedAttempt (cx_userId inp) (v_activity_id version) s)) i now s of
         (Inl e, t) \<Rightarrow> (Inl e, t)
       | (Inr r, t) \<Rightarrow> (Inr r, if eventHasBeenRecorded (a_id r) EV_ATTEMPT_CREATED t then t
            else logged (a_id r) SYSTEM EV_ATTEMPT_CREATED
              (JObj [(''activity_version_id'', JStr (cx_activityVersionId inp))]) now t)))"
  using check_iff(2) [of "sv_quotaDisabled sv" "cx_userId inp" "cx_activityVersionId inp" now s]
  by (auto simp: createAttempt_def create_input_of_def attemptError_def bnd_run andthen_def split: option.split sum.split prod.split)

subsection \<open>Provisioning\<close>

definition t0_faults :: "activity_spec \<Rightarrow> fault_spec list" where
  "t0_faults spec = filter (\<lambda>f. f_apply_at f = ''T0'') (case as_faults spec of None \<Rightarrow> [] | Some fs \<Rightarrow> fs)"

definition fault_request :: "string \<Rightarrow> string \<Rightarrow> fault_spec \<Rightarrow> inject_fault_request" where
  "fault_request a env f = \<lparr>if_environmentId = env, if_faultId = f_id f, if_params = f_params f, if_attemptId = a\<rparr>"

definition fault_entry :: "(inject_fault_request \<Rightarrow> inject_fault_result) \<Rightarrow> string \<Rightarrow> string \<Rightarrow> time \<Rightarrow> fault_spec \<Rightarrow> event_body" where
  "fault_entry flt a env now f = (SYSTEM, EV_FAULT_INJECTED, JObj [(''fault_id'', JStr (f_id f)),
     (''applied'', JBool (ir_applied (flt (fault_request a env f)))),
     (''symptom_verified'', JBool (ir_symptomVerified (flt (fault_request a env f))))], now)"

lemma applyT0Faults_run:
  assumes flt: "o_injectFault (sv_orchestrator sv) = (\<lambda>q. Inr (flt q))" and "log_ok s"
  shows "\<exists>t. applyT0Faults sv a env spec now s = (Inr (), t) \<and> log_ok t \<and> attempts t = attempts s
    \<and> (\<forall>b. log_of b t = log_of b s @ (if b = a then map (fault_entry flt a env now) (t0_faults spec) else []))"
proof -
  have "\<exists>t. for_each fs (\<lambda>fault.
       bnd (call (o_injectFault (sv_orchestrator sv) \<lparr>if_environmentId = env, if_faultId = f_id fault,
          if_params = f_params fault, if_attemptId = a\<rparr>)) (\<lambda>result.
       appendTypedEvent a SYSTEM EV_FAULT_INJECTED (JObj [(''fault_id'', JStr (f_id fault)),
          (''applied'', JBool (ir_applied result)), (''symptom_verified'', JBool (ir_symptomVerified result))]) now)) s = (Inr (), t)
      \<and> log_ok t \<and> attempts t = attempts s
      \<and> (\<forall>b. log_of b t = log_of b s @ (if b = a then map (fault_entry flt a env now) fs else []))" for fs :: "fault_spec list"
    using assms(2)
  proof (induction fs arbitrary: s)
    case (Cons f fs)
    let ?s = "logged a SYSTEM EV_FAULT_INJECTED (JObj [(''fault_id'', JStr (f_id f)),
          (''applied'', JBool (ir_applied (flt (fault_request a env f)))),
          (''symptom_verified'', JBool (ir_symptomVerified (flt (fault_request a env f))))]) now s"
    from Cons.IH [of ?s] Cons.prems show ?case
      by (auto simp: flt fault_entry_def fault_request_def)
  qed simp
  then show ?thesis unfolding applyT0Faults_def t0_faults_def .
qed

text \<open>The two ends of a provisioning whose orchestrator answered.\<close>

lemma provision_complete_ready:
  assumes "attempts_ok s" and "log_ok s" and "findById a s = Some r" and "pr_status res = ENV_READY"
    and "o_injectFault (sv_orchestrator sv) = (\<lambda>q. Inr (flt q))"
  shows "\<exists>r' t. provision_complete sv a ver res now s = (Inr r', t) \<and> findById a t = Some r'
    \<and> a_status r' = READY \<and> a_environment_id r' = Some (pr_environmentId res) \<and> a_version r' = a_version r + 1
    \<and> (\<forall>b. b \<noteq> a \<longrightarrow> findById b t = findById b s)
    \<and> log_of a t = log_of a s @ (SYSTEM, EV_ENV_READY, JObj [(''environment_id'', JStr (pr_environmentId res))], now)
        # map (fault_entry flt a (pr_environmentId res) now) (t0_faults (v_spec ver))"
proof -
  let ?u = "(status_update READY)\<lparr>u_environmentId := Some (Some (pr_environmentId res))\<rparr>"
  let ?s = "logged a SYSTEM EV_ENV_READY (JObj [(''environment_id'', JStr (pr_environmentId res))]) now s"
  obtain t where t: "applyT0Faults sv a (pr_environmentId res) (v_spec ver) now ?s = (Inr (), t)" "attempts t = attempts ?s"
    "log_of a t = log_of a ?s @ map (fault_entry flt a (pr_environmentId res) now) (t0_faults (v_spec ver))"
    using applyT0Faults_run [OF assms(5), of ?s a "pr_environmentId res" "v_spec ver" now] assms(2) by auto
  have ok: "attempts_ok t" "findById b t = findById b s" for b
    using t(2) assms(1) by (simp_all add: attempts_ok_def findById_def)
  have tr: "transition a (a_version r) ?u now t = (Inr (apply_updates ?u (a_version r) now r), transitioned r ?u now t)"
    by (rule transition_ok) (use ok assms(3) in simp_all)
  have find: "findById b (transitioned r ?u now t) = (if b = a then Some (apply_updates ?u (a_version r) now r) else findById b s)" for b
    using findById_transitioned [OF ok(1), of a r b ?u now] ok assms(3) by simp
  show ?thesis
    using assms t tr find by (simp add: provision_complete_def status_update_def no_updates_def)
qed

lemma provision_complete_failed:
  assumes "attempts_ok s" and "log_ok s" and "findById a s = Some r" and "pr_status res \<noteq> ENV_READY"
  shows "\<exists>r' t. provision_complete sv a ver res now s = (Inr r', t) \<and> findById a t = Some r'
    \<and> a_status r' = PROVISION_FAILED \<and> a_environment_id r' = a_environment_id r \<and> a_version r' = a_version r + 1
    \<and> (\<forall>b. b \<noteq> a \<longrightarrow> findById b t = findById b s)
    \<and> log_of a t = log_of a s @ [(SYSTEM, EV_ENV_FAILED, JObj [], now)]"
proof -
  let ?s = "logged a SYSTEM EV_ENV_FAILED (JObj []) now s" and ?u = "status_update PROVISION_FAILED"
  have "transition a (a_version r) ?u now ?s = (Inr (apply_updates ?u (a_version r) now r), transitioned r ?u now ?s)"
    by (rule transition_ok) (use assms in simp_all)
  moreover have "findById b (transitioned r ?u now ?s) =
      (if b = a then Some (apply_updates ?u (a_version r) now r) else findById b s)" for b
    using findById_transitioned [of ?s a r b ?u now] assms by simp
  ultimately show ?thesis
    using assms by (simp add: provision_complete_def status_update_def no_updates_def)
qed

subsection \<open>Caching\<close>

definition cached_row :: "time \<Rightarrow> attempt_row \<Rightarrow> attempt_row" where
  "cached_row now r = apply_updates ((status_update CACHED)\<lparr>u_snapshotId := Some None, u_snapshotTakenAt := Some (Some now)\<rparr>)
     (a_version r) now r"

lemma cache_run:
  assumes "attempts_ok s" and "findById a s = Some r" and "a_status r = SUSPENDED"
  shows "\<exists>t. cache a now s = (Inr (), t) \<and> attempts_ok t
    \<and> (\<forall>b. findById b t = (if b = a then Some (cached_row now r) else findById b s))"
proof -
  let ?u = "(status_update CACHED)\<lparr>u_snapshotId := Some None, u_snapshotTakenAt := Some (Some now)\<rparr>"
  have "transition a (a_version r) ?u now t = (Inr (cached_row now r), transitioned r ?u now t)"
    and "findById b (transitioned r ?u now t) = (if b = a then Some (cached_row now r) else findById b s)"
    and "attempts_ok (transitioned r ?u now t)"
    if "attempts t = attempts s" for t b
    using that transition_ok [of t a r] findById_transitioned [of t a r b ?u now] attempts_ok_frame [OF that assms(1)] assms(2)
    by (simp_all add: cached_row_def findById_def attempts_ok_transitioned)
  then show ?thesis using assms by (simp add: cache_def)
qed

lemma sweep_rows:
  assumes "attempts_ok s" and "distinct (map a_id rs)"
    and "\<forall>r \<in> set rs. findById (a_id r) s = Some r \<and> a_status r = SUSPENDED"
  shows "\<exists>t. for_each rs (\<lambda>r. try_catch (cache (a_id r) now) (\<lambda>_. ret ())) s = (Inr (), t)
    \<and> (\<forall>b. findById b t = (if b \<in> a_id ` set rs then map_option (cached_row now) (findById b s) else findById b s))"
  using assms
proof (induction rs arbitrary: s)
  case (Cons r rs)
  obtain t where t: "cache (a_id r) now s = (Inr (), t)" "attempts_ok t"
    "\<And>b. findById b t = (if b = a_id r then Some (cached_row now r) else findById b s)"
    using cache_run [OF Cons.prems(1), of "a_id r" r now] Cons.prems(3) by auto
  have d: "distinct (map a_id rs)" using Cons.prems(2) by simp
  have "\<forall>x \<in> set rs. findById (a_id x) t = Some x \<and> a_status x = SUSPENDED"
  proof
    fix x assume x: "x \<in> set rs"
    then have "a_id x \<in> a_id ` set rs" by (rule imageI)
    then have "a_id x \<noteq> a_id r" using Cons.prems(2) by auto
    then show "findById (a_id x) t = Some x \<and> a_status x = SUSPENDED" using Cons.prems(3) t(3) x by simp
  qed
  from Cons.IH [OF t(2) d this] obtain t' where
    t': "for_each rs (\<lambda>r. try_catch (cache (a_id r) now) (\<lambda>_. ret ())) t = (Inr (), t')"
      "\<And>b. findById b t' = (if b \<in> a_id ` set rs then map_option (cached_row now) (findById b t) else findById b t)" by blast
  have run: "for_each (r # rs) (\<lambda>r. try_catch (cache (a_id r) now) (\<lambda>_. ret ())) s = (Inr (), t')"
    using t(1) t'(1) by simp
  have "findById (a_id r) s = Some r" "a_id r \<notin> a_id ` set rs" using Cons.prems(2,3) by auto
  then show ?case by (intro exI [of _ t'] conjI run allI) (simp add: t' t(3))
qed simp

section \<open>Properties\<close>

text \<open>C13. Creating an attempt: a call that throws (unknown version, not eligible, duplicate id) writes
  nothing. A call that returns does so for an eligible learner only and returns either the existing
  row with the caller's idempotency key, leaving the table alone, or a new CREATED row with version 1
  and no environment, chained to the learner's latest finished attempt on the activity with its
  retry index plus one (0 without one); and the ATTEMPT_CREATED event is in the log of the returned
  attempt exactly once, however often the call is repeated.\<close>

theorem createAttempt_spec:
  assumes "attempts_ok s" and "log_ok s" and "createAttempt sv inp i now s = (res, t)"
  shows "case res of
     Inl e \<Rightarrow> t = s
   | Inr r \<Rightarrow> el_eligible (check (sv_quotaDisabled sv) (cx_userId inp) (cx_activityVersionId inp) now s)
      \<and> findById (a_id r) t = Some r \<and> a_user_id r = cx_userId inp \<and> a_activity_version_id r = cx_activityVersionId inp
      \<and> created_count (a_id r) t = max 1 (created_count (a_id r) s)
      \<and> (attempts t = attempts s \<and> cx_idempotencyKey inp \<noteq> None \<and> a_idempotency_key r = cx_idempotencyKey inp
         \<or> findById i s = None \<and> attempts t = attempts s @ [r] \<and> a_id r = i \<and> a_status r = CREATED \<and> a_version r = 1
           \<and> a_environment_id r = None
           \<and> (case findMostRecentCompletedAttempt (cx_userId inp) (a_activity_id r) s of
                None \<Rightarrow> a_retry_of_attempt_id r = None \<and> a_retry_index r = 0
              | Some p \<Rightarrow> a_retry_of_attempt_id r = Some (a_id p) \<and> a_retry_index r = a_retry_index p + 1))"
proof (cases res)
  case (Inl e)
  then show ?thesis using assms(3) by (auto simp: createAttempt_run Let_def dest: create_result split: option.splits if_splits prod.splits sum.splits)
next
  case (Inr r)
  from assms(3) Inr obtain version t1 where
    v: "find_row (\<lambda>v. v_id v = cx_activityVersionId inp) (versions s) = Some version"
    and el: "el_eligible (check (sv_quotaDisabled sv) (cx_userId inp) (cx_activityVersionId inp) now s)"
    and cr: "create (create_input_of inp version
        (findMostRecentCompletedAttempt (cx_userId inp) (v_activity_id version) s)) i now s = (Inr r, t1)"
    and t: "t = (if eventHasBeenRecorded (a_id r) EV_ATTEMPT_CREATED t1 then t1
        else logged (a_id r) SYSTEM EV_ATTEMPT_CREATED (JObj [(''activity_version_id'', JStr (cx_activityVersionId inp))]) now t1)"
    by (auto simp: createAttempt_run Let_def split: option.splits if_splits prod.splits sum.splits)
  note c = create_found [OF assms(1) cr]
  have ev: "events t1 = events s" using c by auto
  then have ok1: "log_ok t1" "created_count a t1 = created_count a s" for a
    using assms(2) by (simp_all add: log_ok_def created_count_def log_of_def replay_def)
  have cnt: "created_count (a_id r) t = max 1 (created_count (a_id r) s)"
  proof (cases "created_count (a_id r) s = 0")
    case True
    then have "created_count (a_id r) t = Suc (created_count (a_id r) t1)"
      using recorded_iff [of "a_id r" t1] ok1 unfolding t by (simp add: created_count_logged)
    then show ?thesis using True ok1 by simp
  next
    case False
    then show ?thesis using recorded_iff [of "a_id r" t1] ok1 unfolding t by simp
  qed
  have at: "attempts t = attempts t1" unfolding t by simp
  then have fd: "findById b t = findById b t1" for b by (simp add: findById_def)
  show ?thesis using Inr el cnt c by (auto simp: at fd create_input_of_def split: option.split)
qed

definition demo_services :: services where
  "demo_services = \<lparr>sv_orchestrator = \<lparr>
       o_provision = (\<lambda>rq. Inr \<lparr>pr_environmentId = ''env'', pr_status = ENV_READY\<rparr>),
       o_destroy = (\<lambda>_ _ _. Inl (RemoteErr ''down'')), o_connect = (\<lambda>_ _. Inl (RemoteErr ''down'')),
       o_injectFault = (\<lambda>_. Inr \<lparr>ir_applied = True, ir_symptomVerified = True\<rparr>)\<rparr>,
     sv_executor = demo_exec, sv_faultPath = (\<lambda>_. []), sv_rubrics = (\<lambda>_. None),
     sv_grader = (\<lambda>_ _. Inl (RemoteErr ''down'')), sv_quotaDisabled = False\<rparr>"

definition demo_catalog :: db where
  "demo_catalog = empty_db\<lparr>versions := [demo_version]\<rparr>"

definition demo_create_input :: create_input where
  "demo_create_input = \<lparr>cx_tenantId = ''t'', cx_userId = ''u'', cx_activityVersionId = ''av'', cx_idempotencyKey = Some ''k''\<rparr>"

lemma demo_create: "\<exists>r t. createAttempt demo_services demo_create_input ''a'' 0 demo_catalog = (Inr r, t)
    \<and> findById ''a'' t = Some r \<and> a_status r = CREATED"
  by (simp add: createAttempt_run demo_catalog_def demo_create_input_def demo_version_def demo_services_def check_def
      prerequisite_reasons_def cooldown_reasons_def active_count_def empty_db_def
      MAX_CONCURRENT_ENVIRONMENTS_PER_LEARNER_def findMostRecentCompletedAttempt_def create_input_of_def create_def
      insert_attempt_run eventHasBeenRecorded_def replay_def of_attempt_def) (simp add: findById_def logged_def)

theorem createAttempt_spec_witness:
  "\<exists>r t. createAttempt demo_services demo_create_input ''a'' 0 demo_catalog = (Inr r, t)
    \<and> created_count (a_id r) t = max 1 (created_count (a_id r) demo_catalog)"
proof -
  have ok: "attempts_ok demo_catalog" "log_ok demo_catalog"
    by (simp_all add: attempts_ok_def log_ok_def demo_catalog_def empty_db_def of_attempt_def)
  obtain r t where r: "createAttempt demo_services demo_create_input ''a'' 0 demo_catalog = (Inr r, t)"
    using demo_create by blast
  show ?thesis using createAttempt_spec [OF ok r] r by auto
qed

text \<open>C5. Provisioning ends in a usable environment or a recorded failure: from CREATED, when the
  orchestrator answers READY the attempt is READY with the environment it named, two versions
  later, and its log gained, in this order, ENV_REQUESTED, ENV_READY and one FAULT_INJECTED per
  fault the activity schedules at T0, in author order, each with what the orchestrator reported;
  when it answers anything else the attempt is PROVISION_FAILED without environment and no fault was
  injected; when the call itself throws, the exception reaches the caller and the attempt stays
  PROVISIONING. No other attempt is touched.\<close>

theorem provision_outcome:
  assumes "attempts_ok s" and "log_ok s" and "findById a s = Some r" and "a_status r = CREATED"
    and "a_environment_id r = None"
    and "find_row (\<lambda>v. v_id v = a_activity_version_id r) (versions s) = Some ver"
    and "o_injectFault (sv_orchestrator sv) = (\<lambda>q. Inr (flt q))"
    and "answer = o_provision (sv_orchestrator sv) (provision_request_of a ver)"
  shows "\<exists>res r' t requested. provision sv a now later s = (res, t) \<and> findById a t = Some r'
    \<and> (\<forall>b. b \<noteq> a \<longrightarrow> findById b t = findById b s)
    \<and> fst (snd requested) = EV_ENV_REQUESTED
    \<and> (case answer of
        Inl e \<Rightarrow> res = Inl e \<and> a_status r' = PROVISIONING \<and> log_of a t = log_of a s @ [requested]
      | Inr p \<Rightarrow> res = Inr r' \<and> a_version r' = a_version r + 2 \<and>
          (if pr_status p = ENV_READY
           then a_status r' = READY \<and> a_environment_id r' = Some (pr_environmentId p) \<and>
             log_of a t = log_of a s @ requested # (SYSTEM, EV_ENV_READY, JObj [(''environment_id'', JStr (pr_environmentId p))], later)
               # map (fault_entry flt a (pr_environmentId p) later) (t0_faults (v_spec ver))
           else a_status r' = PROVISION_FAILED \<and> a_environment_id r' = None \<and>
             log_of a t = log_of a s @ [requested, (SYSTEM, EV_ENV_FAILED, JObj [], later)]))"
proof -
  let ?p = "JObj [(''blueprint_id'', case v_blueprint_id ver of None \<Rightarrow> JNull | Some b \<Rightarrow> JStr b)]"
  let ?rq = "(SYSTEM, EV_ENV_REQUESTED, ?p, now)" and ?u = "status_update PROVISIONING"
  let ?s0 = "logged a SYSTEM EV_ENV_REQUESTED ?p now s"
  let ?s1 = "transitioned r ?u now ?s0" and ?r1 = "apply_updates ?u (a_version r) now r"
  have run: "provision_begin a now s = (Inr ver, ?s1)"
    using assms by (simp add: provision_begin_run)
  have s1: "attempts_ok ?s1" "log_ok ?s1" "log_of a ?s1 = log_of a s @ [?rq]"
    using assms by (simp_all add: attempts_ok_transitioned)
  have find: "findById b ?s1 = (if b = a then Some ?r1 else findById b s)" for b
    using findById_transitioned [of ?s0 a r b ?u now] assms by simp
  have r1: "a_status ?r1 = PROVISIONING" "a_environment_id ?r1 = None" "a_version ?r1 = a_version r + 1"
    using assms by (simp_all add: status_update_def no_updates_def)
  show ?thesis
  proof (cases answer)
    case (Inl e)
    then have "provision sv a now later s = (Inl e, ?s1)" using run assms(8) by (simp add: provision_def)
    then show ?thesis
      using Inl find s1 r1 by (intro exI [of _ "Inl e"] exI [of _ ?r1] exI [of _ ?s1] exI [of _ ?rq]) simp
  next
    case (Inr p)
    have f: "findById a ?s1 = Some ?r1" using find by simp
    have "provision sv a now later s = provision_complete sv a ver p later ?s1"
      using run Inr assms(8) by (simp add: provision_def)
    then show ?thesis
      using provision_complete_ready [OF s1(1,2) f _ assms(7), of p ver later]
        provision_complete_failed [OF s1(1,2) f, of p sv ver later] find s1(3) r1 Inr
      by (cases "pr_status p = ENV_READY") (force intro: exI [of _ ?rq])+
  qed
qed

theorem provision_outcome_witness:
  "\<exists>r t. provision demo_services ''a'' 1 2 (demo_catalog\<lparr>attempts := [demo_attempt]\<rparr>) = (Inr r, t) \<and> a_status r = READY
    \<and> a_environment_id r = Some ''env''"
proof -
  let ?s = "demo_catalog\<lparr>attempts := [demo_attempt]\<rparr>"
  have s: "attempts_ok ?s" "log_ok ?s" "findById ''a'' ?s = Some demo_attempt" "a_status demo_attempt = CREATED"
    "a_environment_id demo_attempt = None"
    "find_row (\<lambda>v. v_id v = a_activity_version_id demo_attempt) (versions ?s) = Some demo_version"
    by (simp_all add: attempts_ok_def log_ok_def demo_catalog_def demo_version_def empty_db_def of_attempt_def
        demo_attempt_def findById_def)
  have o: "o_injectFault (sv_orchestrator demo_services) = (\<lambda>q. Inr \<lparr>ir_applied = True, ir_symptomVerified = True\<rparr>)"
    "Inr \<lparr>pr_environmentId = ''env'', pr_status = ENV_READY\<rparr> =
      o_provision (sv_orchestrator demo_services) (provision_request_of ''a'' demo_version)"
    by (simp_all add: demo_services_def)
  from provision_outcome [OF s o, of 1 2] show ?thesis by auto
qed

text \<open>Property. A destroyed environment is recorded once: the handler never throws and writes no event. It
  changes nothing for a terminal attempt, nor for a suspended or cached one unless the teardown was
  the one after submit; otherwise the attempt loses its environment and becomes EVALUATING after a
  submit and SUSPENDED for any other reason, and redelivering such messages any later changes
  nothing.\<close>

theorem destroyed_once:
  assumes "attempts_ok s" and "findById a s = Some r"
  shows "\<exists>t. handleEnvironmentDestroyed a why now s = (Inr (), t) \<and> events t = events s
    \<and> (\<forall>b. b \<noteq> a \<longrightarrow> findById b t = findById b s)
    \<and> (if a_status r \<in> set TERMINAL \<or> a_status r \<in> {SUSPENDED, CACHED} \<and> why \<noteq> ''submit'' then t = s
       else \<exists>r'. findById a t = Some r' \<and> a_environment_id r' = None \<and> a_version r' = a_version r + 1
         \<and> a_status r' = (if why = ''submit'' then EVALUATING else SUSPENDED))
    \<and> (\<forall>why' later. why \<noteq> ''submit'' \<and> why' \<noteq> ''submit'' \<longrightarrow> handleEnvironmentDestroyed a why' later t = (Inr (), t))"
proof (cases "a_status r \<in> set TERMINAL \<or> a_status r \<in> {SUSPENDED, CACHED} \<and> why \<noteq> ''submit''")
  case True
  then show ?thesis using assms(2) by (auto simp: handleEnvironmentDestroyed_def)
next
  case False
  let ?u = "(status_update (if why = ''submit'' then EVALUATING else SUSPENDED))\<lparr>u_environmentId := Some None\<rparr>"
  let ?t = "transitioned r ?u now s"
  have tr: "transition a (a_version r) ?u now s = (Inr (apply_updates ?u (a_version r) now r), ?t)"
    by (rule transition_ok [OF assms refl])
  have run: "handleEnvironmentDestroyed a why now s = (Inr (), ?t)"
    using False assms(2) tr by (cases "why = ''submit''") (simp_all add: handleEnvironmentDestroyed_def)
  have find: "findById b ?t = (if b = a then Some (apply_updates ?u (a_version r) now r) else findById b s)" for b
    by (rule findById_transitioned [OF assms])
  have again: "handleEnvironmentDestroyed a why' later ?t = (Inr (), ?t)" if "why \<noteq> ''submit''" "why' \<noteq> ''submit''" for why' later
    using that find [of a] by (simp add: handleEnvironmentDestroyed_def status_update_def)
  have row: "a_environment_id (apply_updates ?u v now r) = None" "a_version (apply_updates ?u v now r) = v + 1"
    "a_status (apply_updates ?u v now r) = (if why = ''submit'' then EVALUATING else SUSPENDED)" for v
    by (simp_all add: status_update_def)
  show ?thesis unfolding if_not_P [OF False]
    by (intro exI [of _ ?t] conjI) (use run find again row in auto)
qed

theorem destroyed_once_witness:
  "\<exists>t r'. handleEnvironmentDestroyed ''a'' ''idle'' 3 (empty_db\<lparr>attempts := [demo_attempt]\<rparr>) = (Inr (), t)
    \<and> findById ''a'' t = Some r' \<and> a_status r' = SUSPENDED"
  using destroyed_once [OF demo_ok demo_find, of "''idle''" 3] by (auto simp: demo_attempt_def TERMINAL_def)

text \<open>Property. The sweep caches exactly the stale suspended attempts: it always completes; every attempt
  that is SUSPENDED and inactive for more than 72 hours is CACHED afterwards, one version later, with
  the snapshot time set and no snapshot; every other attempt's row is unchanged.\<close>

theorem sweep_caches_stale:
  assumes "attempts_ok s"
  shows "\<exists>t. sweep now s = (Inr (), t) \<and> (\<forall>a r. findById a s = Some r \<longrightarrow>
    (if a_status r = SUSPENDED \<and> a_last_activity_at r < now - 72 * 60 * 60 * 1000
     then \<exists>r'. findById a t = Some r' \<and> a_status r' = CACHED \<and> a_version r' = a_version r + 1
       \<and> a_snapshot_id r' = None \<and> a_snapshot_taken_at r' = Some now \<and> a_environment_id r' = a_environment_id r
     else findById a t = Some r))"
proof -
  let ?rs = "findStaleSuspendedAttempts (now - INACTIVITY_THRESHOLD_MS) s"
  have "distinct (map a_id ?rs)" using assms by (auto simp: attempts_ok_def findStaleSuspendedAttempts_def distinct_map_filter)
  moreover have "\<forall>r \<in> set ?rs. findById (a_id r) s = Some r \<and> a_status r = SUSPENDED"
    by (auto simp: findStaleSuspendedAttempts_def findById_iff [OF assms])
  ultimately obtain t where t: "for_each ?rs (\<lambda>r. try_catch (cache (a_id r) now) (\<lambda>_. ret ())) s = (Inr (), t)"
    "\<And>b. findById b t = (if b \<in> a_id ` set ?rs then map_option (cached_row now) (findById b s) else findById b s)"
    using sweep_rows [OF assms] by blast
  have mem: "a \<in> a_id ` set ?rs \<longleftrightarrow> a_status r = SUSPENDED \<and> a_last_activity_at r < now - INACTIVITY_THRESHOLD_MS"
    if "findById a s = Some r" for a r
    using that findById_iff [OF assms] by (auto simp: findStaleSuspendedAttempts_def) (metis option.inject)+
  have row: "a_status (cached_row now r) = CACHED \<and> a_version (cached_row now r) = a_version r + 1
      \<and> a_snapshot_id (cached_row now r) = None \<and> a_snapshot_taken_at (cached_row now r) = Some now
      \<and> a_environment_id (cached_row now r) = a_environment_id r" for r
    by (simp add: cached_row_def status_update_def no_updates_def) (simp add: apply_updates_def)
  have "sweep now s = (Inr (), t)" using t(1) by (simp add: sweep_def)
  then show ?thesis using t(2) mem row by (auto simp: INACTIVITY_THRESHOLD_MS_def)
qed

theorem sweep_caches_stale_witness:
  "\<exists>t r'. sweep 300000000 (empty_db\<lparr>attempts := [demo_attempt\<lparr>a_status := SUSPENDED\<rparr>]\<rparr>) = (Inr (), t)
    \<and> findById ''a'' t = Some r' \<and> a_status r' = CACHED"
proof -
  let ?s = "empty_db\<lparr>attempts := [demo_attempt\<lparr>a_status := SUSPENDED\<rparr>]\<rparr>"
  have s: "attempts_ok ?s" "findById ''a'' ?s = Some (demo_attempt\<lparr>a_status := SUSPENDED\<rparr>)"
    by (simp_all add: attempts_ok_def findById_def demo_attempt_def)
  obtain t where t: "sweep 300000000 ?s = (Inr (), t)"
    "\<forall>a r. findById a ?s = Some r \<longrightarrow>
      (if a_status r = SUSPENDED \<and> a_last_activity_at r < 300000000 - 72 * 60 * 60 * 1000
       then \<exists>r'. findById a t = Some r' \<and> a_status r' = CACHED \<and> a_version r' = a_version r + 1
         \<and> a_snapshot_id r' = None \<and> a_snapshot_taken_at r' = Some 300000000 \<and> a_environment_id r' = a_environment_id r
       else findById a t = Some r)"
    using sweep_caches_stale [OF s(1), of 300000000] by auto
  show ?thesis using t(1) t(2) [rule_format, OF s(2)] by (auto simp: demo_attempt_def new_attempt_def)
qed

lemma submit_run:
  assumes "findById a s = Some r" and "a_status r = IN_PROGRESS"
    and "transition a (a_version r) u now (logged a LEARNER EV_SUBMITTED (JObj []) now s) = (Inr r1, s1)"
    and "u = (status_update SUBMITTED)\<lparr>u_submittedAt := Some now\<rparr>"
    and "evaluate (sv_executor sv) (sv_faultPath sv) (sv_rubrics sv) (sv_grader sv) a rid now s1 = (Inr e, t)"
    and "findById a t = Some r'"
  shows "submit sv a rid now s = (Inr r', t)"
proof -
  have d: "(case truthy (a_environment_id r') of None \<Rightarrow> ret ()
      | Some env \<Rightarrow> try_catch (andthen (call (o_destroy (sv_orchestrator sv) env ''submit'' a)) (ret ())) (\<lambda>_. ret ())) t = (Inr (), t)"
    by (auto simp: try_catch_def andthen_def bnd_run split: option.split sum.split)
  show ?thesis using assms(1-3,5,6) d by (simp add: submit_def assms(4) [symmetric])
qed

text \<open>C4. Submitting settles the attempt: for an attempt in progress whose content is complete, whatever
  the validators and the grader answer and whether or not the teardown of the environment succeeds,
  \<open>submit\<close> returns the attempt as PASSED or FAILED, two versions later, with the submission and the
  completion time set and one score row added; no other attempt is touched.\<close>

theorem submit_settles:
  assumes "attempts_ok s" and "log_ok s" and "named_tasks a s" and "findById a s = Some r"
    and "a_status r = IN_PROGRESS" and "content_ok (a_activity_version_id r) s"
  shows "\<exists>r' t. submit sv a rid now s = (Inr r', t) \<and> findById a t = Some r' \<and> a_status r' \<in> {PASSED, FAILED}
    \<and> a_version r' = a_version r + 2 \<and> a_submitted_at r' = Some now \<and> a_completed_at r' = Some now
    \<and> a_environment_id r' = a_environment_id r
    \<and> (\<exists>row. scores t = scores s @ [row] \<and> sc_attempt_id row = a \<and> (sc_passed row \<longleftrightarrow> a_status r' = PASSED))
    \<and> (\<forall>b. b \<noteq> a \<longrightarrow> findById b t = findById b s)"
proof -
  let ?u = "(status_update SUBMITTED)\<lparr>u_submittedAt := Some now\<rparr>"
  let ?s0 = "logged a LEARNER EV_SUBMITTED (JObj []) now s"
  let ?s1 = "transitioned r ?u now ?s0" and ?r1 = "apply_updates ?u (a_version r) now r"
  have tr: "transition a (a_version r) ?u now ?s0 = (Inr ?r1, ?s1)"
    by (rule transition_ok) (use assms in simp_all)
  have f1: "findById b ?s1 = (if b = a then Some ?r1 else findById b s)" for b
    using findById_transitioned [of ?s0 a r b ?u now] assms by simp
  have s1: "attempts_ok ?s1" "log_ok ?s1" "named_tasks a ?s1" "findById a ?s1 = Some ?r1"
    "a_status ?r1 \<in> {SUBMITTED, EVALUATING}" "content_ok (a_activity_version_id ?r1) ?s1" "scores ?s1 = scores s"
  proof -
    show "attempts_ok ?s1" "log_ok ?s1" "findById a ?s1 = Some ?r1" "a_status ?r1 \<in> {SUBMITTED, EVALUATING}"
      using assms f1 by (simp_all add: attempts_ok_transitioned status_update_def)
    show "named_tasks a ?s1" using assms(2,3) by (simp add: named_tasks_def task_event_types_def)
    show "content_ok (a_activity_version_id ?r1) ?s1" "scores ?s1 = scores s"
      using assms(6) by (simp_all add: content_ok_def transitioned_def logged_def)
  qed
  show ?thesis
  proof (rule evaluate_run [OF s1(1-6), of "sv_executor sv" "sv_faultPath sv" "sv_rubrics sv" "sv_grader sv" rid now])
    fix sc :: score_breakdown and t p
    let ?v = "result_updates (sb_passed sc) now" and ?n = "a_version ?r1"
    assume ev: "evaluate (sv_executor sv) (sv_faultPath sv) (sv_rubrics sv) (sv_grader sv) a rid now ?s1 =
        (Inr (sb_finalScore sc, sb_passed sc), t)"
      and at: "attempts t = attempts (transitioned ?r1 ?v now ?s1)"
      and scores: "scores t = scores ?s1 @ [score_row_of a p sc]"
    let ?r2 = "apply_updates ?v ?n now ?r1"
    have find: "findById b t = (if b = a then Some ?r2 else findById b s)" for b
      using findById_transitioned [OF s1(1,4), of b ?v now] at f1 [of b] by (auto simp: findById_def)
    have r2: "a_status ?r2 = (if sb_passed sc then PASSED else FAILED)" "a_version ?r2 = a_version r + 2"
      "a_submitted_at ?r2 = Some now" "a_completed_at ?r2 = Some now" "a_environment_id ?r2 = a_environment_id r"
      by (simp_all add: result_updates_def status_update_def no_updates_def)
    have "findById a t = Some ?r2" using find by simp
    note run = submit_run [OF assms(4,5) tr refl ev this]
    show ?thesis
      by (intro exI [of _ ?r2] exI [of _ t] conjI) (use run find r2 scores s1(7) in \<open>auto simp del: apply_updates_sel apply_updates_times\<close>)
  qed
qed

theorem submit_settles_witness:
  "\<exists>r' t. submit demo_services ''a'' ''r1'' 9 (demo_eval_db\<lparr>attempts := [demo_submitted\<lparr>a_status := IN_PROGRESS\<rparr>]\<rparr>) = (Inr r', t)
    \<and> a_status r' \<in> {PASSED, FAILED}"
proof -
  let ?r = "demo_submitted\<lparr>a_status := IN_PROGRESS\<rparr>"
  let ?s = "demo_eval_db\<lparr>attempts := [?r]\<rparr>"
  have "attempts_ok ?s" "log_ok ?s" "named_tasks ''a'' ?s" "findById ''a'' ?s = Some ?r"
    "a_status ?r = IN_PROGRESS" "content_ok (a_activity_version_id ?r) ?s"
    using demo_eval(2,3,6)
    by (simp_all add: attempts_ok_def idem_of_def findById_def demo_submitted_sel log_ok_def named_tasks_def log_of_def
        replay_def content_ok_def)
  from submit_settles [OF this, of demo_services "''r1''" 9] show ?thesis by blast
qed

section \<open>What the code does not do\<close>

text \<open>The second phase of \<open>provision\<close> re-reads the attempt for its version but not for its status: if it was
  suspended while the orchestrator worked, it becomes READY all the same.\<close>

lemma late_ready_revives_suspended:
  assumes "attempts_ok s" and "log_ok s" and "findById a s = Some r" and "a_status r = SUSPENDED" and "pr_status res = ENV_READY"
    and "o_injectFault (sv_orchestrator sv) = (\<lambda>q. Inr (flt q))"
  shows "\<exists>r' t. provision_complete sv a ver res now s = (Inr r', t) \<and> a_status r' = READY"
  using provision_complete_ready [OF assms(1,2,3,5,6)] by blast

text \<open>An attempt left in PROVISIONING by an orchestrator exception cannot be provisioned or reactivated, and
  counts against the learner's quota.\<close>

lemma stuck_provisioning:
  assumes "attempts_ok s" and "findById a s = Some r" and "a_status r = PROVISIONING"
  shows "reactivate a now s = (Inr r, s)" and "\<exists>e. provision sv a now later s = (Inl e, s)"
    and "\<not> el_eligible (check False (a_user_id r) v now s)"
proof -
  show "reactivate a now s = (Inr r, s)"
    using assms by (simp add: reactivate_def REACTIVATABLE_STATUSES_def)
  show "\<exists>e. provision sv a now later s = (Inl e, s)"
    using assms by (simp add: provision_def provision_begin_run)
  have "r \<in> set (attempts s)" using findById_SomeD [OF assms(2)] by simp
  then show "\<not> el_eligible (check False (a_user_id r) v now s)"
    using assms(3) quota_free [of "a_user_id r" s] check_iff(1) [of False "a_user_id r" v now s]
    by (auto simp: QUOTA_STATUSES_def)
qed

text \<open>A repeated \<open>createAttempt\<close> with the same idempotency key is rejected once the first attempt holds an
  environment: the eligibility check runs before the key is looked up.\<close>

lemma idempotent_replay_rejected:
  assumes "attempts_ok s" and "findById a s = Some r" and "a_status r = IN_PROGRESS" and "a_user_id r = cx_userId inp"
    and "sv_quotaDisabled sv = False"
  shows "\<exists>e. createAttempt sv inp i now s = (Inl e, s)"
proof -
  have "r \<in> set (attempts s)" using findById_SomeD [OF assms(2)] by simp
  then have "\<not> el_eligible (check False (cx_userId inp) v now s)" for v
    using assms(3,4) quota_free [of "cx_userId inp" s] check_iff(1) [of False "cx_userId inp" v now s]
    by (auto simp: QUOTA_STATUSES_def)
  then show ?thesis using assms(5) by (auto simp: createAttempt_run Let_def split: option.split)
qed

end
