(* ===== verification/Lifecycle.thy ===== *)
theory Lifecycle
  imports AttemptService
begin

text \<open>
  The life cycle of an attempt as an abstract state machine, and the proof that every request
  handler, message consumer and sweep of the attempt module refines it. \<open>moves\<close> is the machine on
  the pair of status and environment; \<open>life s t\<close> relates two databases when every attempt went
  from \<open>s\<close> to \<open>t\<close> along moves, its version counting them; \<open>request\<close> is one operation of the service.
\<close>

section \<open>The abstract machine\<close>

type_synonym life_state = "attempt_status \<times> string option"

inductive moves :: "life_state \<Rightarrow> life_state \<Rightarrow> bool" where
  m_provision: "moves (CREATED, e) (PROVISIONING, e)"
| m_ready: "moves (PROVISIONING, e) (READY, Some env)"
| m_failed: "moves (PROVISIONING, e) (PROVISION_FAILED, e)"
| m_start: "moves (READY, e) (IN_PROGRESS, e)"
| m_submit: "moves (IN_PROGRESS, e) (SUBMITTED, e)"
| m_result: "st \<in> {SUBMITTED, EVALUATING} \<Longrightarrow> st' \<in> {PASSED, FAILED} \<Longrightarrow> moves (st, e) (st', e)"
| m_suspend: "st \<notin> set TERMINAL \<Longrightarrow> st \<notin> {SUSPENDED, CACHED} \<Longrightarrow> moves (st, e) (SUSPENDED, None)"
| m_teardown: "st \<notin> set TERMINAL \<Longrightarrow> moves (st, e) (EVALUATING, None)"
| m_cache: "moves (SUSPENDED, e) (CACHED, e)"
| m_resume: "st \<in> {SUSPENDED, CACHED, PROVISION_FAILED} \<Longrightarrow> moves (st, e) (CREATED, None)"

text \<open>The statuses nothing leads out of: the terminal ones, except that a failed provisioning may be
  tried again on the same row.\<close>

definition final_status :: "attempt_status \<Rightarrow> bool" where
  "final_status st \<longleftrightarrow> st \<in> set TERMINAL \<and> st \<noteq> PROVISION_FAILED"

text \<open>An attempt has an environment while the learner can work in it, and none before it is
  provisioned and after it was torn down.\<close>

definition env_consistent :: "life_state \<Rightarrow> bool" where
  "env_consistent x \<longleftrightarrow>
     (fst x \<in> {READY, IN_PROGRESS, SUBMITTED} \<longrightarrow> snd x \<noteq> None) \<and>
     (fst x \<in> {CREATED, PROVISIONING, PROVISION_FAILED, SUSPENDED, CACHED, EVALUATING} \<longrightarrow> snd x = None)"

lemma final_stuck: "moves x y \<Longrightarrow> \<not> final_status (fst x)"
  by (induction rule: moves.induct) (auto simp: final_status_def TERMINAL_def)

lemma final_stays: "moves\<^sup>*\<^sup>* x y \<Longrightarrow> final_status (fst x) \<Longrightarrow> y = x"
  by (induction rule: rtranclp_induct) (auto dest: final_stuck)

lemma env_consistent_step: "moves x y \<Longrightarrow> env_consistent x \<Longrightarrow> env_consistent y"
  by (induction rule: moves.induct) (auto simp: env_consistent_def)

lemma env_consistent_moves: "moves\<^sup>*\<^sup>* x y \<Longrightarrow> env_consistent x \<Longrightarrow> env_consistent y"
  by (induction rule: rtranclp_induct) (auto intro: env_consistent_step)

section \<open>Databases related by moves\<close>

definition view :: "attempt_row \<Rightarrow> life_state" where
  "view r = (a_status r, a_environment_id r)"

definition row_life :: "attempt_row \<Rightarrow> attempt_row \<Rightarrow> bool" where
  "row_life r r' \<longleftrightarrow> key_of r' = key_of r \<and> a_version r \<le> a_version r' \<and>
     (a_version r' = a_version r \<longrightarrow> view r' = view r) \<and> moves\<^sup>*\<^sup>* (view r) (view r')"

definition life :: "db \<Rightarrow> db \<Rightarrow> bool" where
  "life s t \<longleftrightarrow> attempts_ok t \<and> (\<forall>a. case findById a s of
     Some r \<Rightarrow> \<exists>r'. findById a t = Some r' \<and> row_life r r'
   | None \<Rightarrow> (\<forall>r'. findById a t = Some r' \<longrightarrow> moves\<^sup>*\<^sup>* (CREATED, None) (view r')))"

lemma view_apply_updates:
  "view (apply_updates u v now r) = (or_old (u_status u) (fst (view r)), or_old (u_environmentId u) (snd (view r)))"
  by (simp add: view_def)

lemma row_life_refl: "row_life r r"
  by (simp add: row_life_def)

lemma row_life_trans: "row_life r r' \<Longrightarrow> row_life r' r'' \<Longrightarrow> row_life r r''"
  unfolding row_life_def by (metis le_antisym le_trans rtranclp_trans)

lemma life_refl: "attempts_ok s \<Longrightarrow> life s s"
  by (auto simp: life_def row_life_refl split: option.split)

lemma life_ok: "life s t \<Longrightarrow> attempts_ok t"
  by (simp add: life_def)

lemma life_Some: "life s t \<Longrightarrow> findById a s = Some r \<Longrightarrow> \<exists>r'. findById a t = Some r' \<and> row_life r r'"
  unfolding life_def by (drule conjunct2, drule spec [of _ a]) simp

lemma life_None: "life s t \<Longrightarrow> findById a s = None \<Longrightarrow> findById a t = Some r' \<Longrightarrow> moves\<^sup>*\<^sup>* (CREATED, None) (view r')"
  unfolding life_def by (drule conjunct2, drule spec [of _ a]) simp

lemma lifeI:
  assumes "attempts_ok t"
    and "\<And>a r. findById a s = Some r \<Longrightarrow> \<exists>r'. findById a t = Some r' \<and> row_life r r'"
    and "\<And>a r'. findById a s = None \<Longrightarrow> findById a t = Some r' \<Longrightarrow> moves\<^sup>*\<^sup>* (CREATED, None) (view r')"
  shows "life s t"
  using assms unfolding life_def by (auto split: option.split)

lemma life_trans:
  assumes "life s t" and "life t u"
  shows "life s u"
proof (rule lifeI)
  show "attempts_ok u" by (rule life_ok [OF assms(2)])
next
  fix a r assume "findById a s = Some r"
  then show "\<exists>r'. findById a u = Some r' \<and> row_life r r'"
    using life_Some [OF assms(1)] life_Some [OF assms(2)] row_life_trans by meson
next
  fix a r' assume s: "findById a s = None" and u: "findById a u = Some r'"
  show "moves\<^sup>*\<^sup>* (CREATED, None) (view r')"
  proof (cases "findById a t")
    case None
    then show ?thesis using life_None [OF assms(2)] u by blast
  next
    case (Some r)
    then have "moves\<^sup>*\<^sup>* (view r) (view r')" using life_Some [OF assms(2) Some] u by (auto simp: row_life_def)
    then show ?thesis using life_None [OF assms(1) s Some] by (rule rtranclp_trans [rotated])
  qed
qed

lemma life_frame: "life s t \<Longrightarrow> attempts t' = attempts t \<Longrightarrow> life s t'"
  by (simp add: life_def attempts_ok_def findById_def cong: option.case_cong)

subsection \<open>Statements that keep it\<close>

lemma life_modify [keeps]: "(\<And>t. attempts (f t) = attempts t) \<Longrightarrow> preserves (life s) (modify f)"
  by (rule preservesI) (auto intro: life_frame)

lemma life_append [keeps]: "preserves (life s) (appendTypedEvent a actor ty p t)"
  by (rule preservesI) (auto intro: life_frame)

lemma find_update_column:
  assumes "\<And>r. key_of (f r) = key_of r"
  shows "find_row (\<lambda>r. a_id r = a) (update_where p f xs) =
    map_option (\<lambda>r. if p r then f r else r) (find_row (\<lambda>r. a_id r = a) xs)"
  using assms by (induction xs) (auto simp: key_of_def idem_of_def)

text \<open>A statement on columns outside the life cycle.\<close>

lemma life_column [keeps]:
  assumes f: "\<And>r. key_of (f r) = key_of r \<and> view (f r) = view r \<and> a_version (f r) = a_version r"
  shows "preserves (life s) (modify (\<lambda>t. t\<lparr>attempts := update_where p f (attempts t)\<rparr>))"
proof (rule preservesI, simp)
  fix t assume l: "life s t"
  have "life t (t\<lparr>attempts := update_where p f (attempts t)\<rparr>)"
  proof (rule lifeI)
    show "attempts_ok (t\<lparr>attempts := update_where p f (attempts t)\<rparr>)"
      by (rule attempts_ok_update [OF life_ok [OF l]]) (use f in auto)
  qed (use f in \<open>auto simp: findById_def find_update_column row_life_def\<close>)
  then show "life s (t\<lparr>attempts := update_where p f (attempts t)\<rparr>)" by (rule life_trans [OF l])
qed

text \<open>A versioned transition whose move is allowed from the row that was read, whatever happened to
  the table since: if the row moved meanwhile its version changed and the statement has no effect.\<close>

lemma life_transition [keeps]:
  assumes "findById a s = Some r" and "v = a_version r"
    and "moves (view r) (or_old (u_status u) (a_status r), or_old (u_environmentId u) (a_environment_id r))"
  shows "preserves (life s) (transition a v u now)"
proof (rule preservesI)
  fix t assume l: "life s t"
  obtain r' where r': "findById a t = Some r'" "row_life r r'" using life_Some [OF l assms(1)] by blast
  show "life s (snd (transition a v u now t))"
  proof (cases "a_version r' = v")
    case False
    then show ?thesis using transition_conflict [OF life_ok [OF l], of a v] r' l by simp
  next
    case True
    let ?r = "apply_updates u v now r'"
    let ?t = "transitioned r' u now t"
    have "view r' = view r" using r' True assms(2) by (simp add: row_life_def)
    then have "moves (view r') (view ?r)" using assms(3) by (simp add: view_apply_updates) (simp add: view_def)
    then have new: "row_life r' ?r"
      using True by (auto simp: row_life_def key_of_def idem_of_def)
    note find = findById_transitioned [OF life_ok [OF l] r'(1), of _ u now]
    have "life t ?t"
    proof (rule lifeI)
      show "attempts_ok ?t" by (rule attempts_ok_transitioned [OF life_ok [OF l]])
    next
      fix b x assume "findById b t = Some x"
      then show "\<exists>x'. findById b ?t = Some x' \<and> row_life x x'"
        using find [of b] new r'(1) True by (cases "b = a") (auto simp: row_life_refl)
    next
      fix b x assume "findById b t = None" "findById b ?t = Some x"
      then show "moves\<^sup>*\<^sup>* (CREATED, None) (view x)" using find [of b] r'(1) by (auto split: if_splits)
    qed
    then show ?thesis
      using life_trans [OF l] transition_ok [OF life_ok [OF l] r'(1) True] by simp
  qed
qed

lemma life_create [keeps]: "preserves (life s) (create inp i now)"
proof (rule preservesI)
  fix t assume l: "life s t"
  obtain res t' where run: "create inp i now t = (res, t')" by fastforce
  have ok: "attempts_ok t'" by (rule preservesD [OF attempts_ok_create life_ok [OF l] run])
  have "life t t'"
    using run
  proof (cases rule: create_cases)
    case 1
    then show ?thesis using ok by (simp add: life_refl)
  next
    case 2
    have find: "findById a t' = (case findById a t of None \<Rightarrow>
        if a = i then Some (new_attempt inp i now) else None | Some r \<Rightarrow> Some r)" for a
      using 2 by (auto simp: findById_def find_row_append split: option.split)
    show ?thesis
      by (rule lifeI [OF ok]) (auto simp: find row_life_refl view_def split: if_splits)
  qed
  then show "life s (snd (create inp i now t))" using life_trans [OF l] run by simp
qed

section \<open>Handlers\<close>

definition lives :: "'a prog \<Rightarrow> bool" where
  "lives m \<longleftrightarrow> (\<forall>s. attempts_ok s \<longrightarrow> life s (snd (m s)))"

lemma lives_keeps: "lives m \<Longrightarrow> preserves (life s) m"
  by (rule preservesI) (auto simp: lives_def intro: life_trans dest: life_ok)

lemma livesI: "(\<And>s. attempts_ok s \<Longrightarrow> preserves (life s) m) \<Longrightarrow> lives m"
  by (auto simp: lives_def preserves_def life_refl)

lemma lives_read:
  assumes "\<And>s r. attempts_ok s \<Longrightarrow> findById a s = Some r \<Longrightarrow> preserves (life s) (k (Some r))"
    and "\<And>s. attempts_ok s \<Longrightarrow> preserves (life s) (k None)"
  shows "lives (bnd (query (findById a)) k)"
  unfolding lives_def
proof (intro allI impI)
  fix s assume ok: "attempts_ok s"
  show "life s (snd (bnd (query (findById a)) k s))"
    using assms [OF ok] life_refl [OF ok] by (cases "findById a s") (auto simp: preserves_def)
qed

lemma lives_find:
  assumes "\<And>s r. attempts_ok s \<Longrightarrow> findById a s = Some r \<Longrightarrow> preserves (life s) (k r)"
  shows "lives (bnd (find_attempt a) k)"
  unfolding lives_def
proof (intro allI impI)
  fix s assume ok: "attempts_ok s"
  show "life s (snd (bnd (find_attempt a) k s))"
    using assms [OF ok] life_refl [OF ok]
    by (cases "findById a s") (auto simp: preserves_def find_attempt_def findOrThrow_def)
qed

lemma status_update_sel [simp]:
  "u_status (status_update st) = Some st" "u_environmentId (status_update st) = None"
  by (simp_all add: status_update_def no_updates_def)

lemma createAttempt_lives: "lives (createAttempt sv inp i now)"
  unfolding createAttempt_def findOrThrow_def by (intro livesI keeps)

text \<open>A guard that throws: what follows runs only if the guard's condition is false.\<close>

lemma guard_invalid_state:
  "(\<not> b \<Longrightarrow> preserves I k) \<Longrightarrow> preserves I (andthen (when_io b (invalid_state a st ex)) k)"
  by (cases b) (auto simp: preserves_def invalid_state_def andthen_def)

lemma provision_begin_lives: "lives (provision_begin a now)"
  unfolding provision_begin_def
  by (intro lives_find guard_invalid_state keeps) (auto simp: view_def intro: moves.intros)

lemma provision_complete_life:
  assumes "attempts_ok s" and "findById a s = Some r" and "a_status r = PROVISIONING"
  shows "life s (snd (provision_complete sv a ver res now s))"
proof -
  have "preserves (life s) (if pr_status res = ENV_READY then
           andthen (appendTypedEvent a SYSTEM EV_ENV_READY (JObj [(''environment_id'', JStr (pr_environmentId res))]) now)
           (andthen (applyT0Faults sv a (pr_environmentId res) (v_spec ver) now)
           (transition a (a_version r) ((status_update READY)\<lparr>u_environmentId := Some (Some (pr_environmentId res))\<rparr>) now))
         else
           andthen (appendTypedEvent a SYSTEM EV_ENV_FAILED (JObj []) now)
           (transition a (a_version r) (status_update PROVISION_FAILED) now))"
    unfolding applyT0Faults_def using assms by (intro keeps) (auto simp: view_def intro: moves.intros)
  then show ?thesis
    using assms life_refl [OF assms(1)] by (simp add: provision_complete_def preserves_def)
qed

lemma provision_lives: "lives (provision sv a now later)"
  unfolding lives_def
proof (intro allI impI)
  fix s assume ok: "attempts_ok s"
  obtain x s1 where b: "provision_begin a now s = (x, s1)" by fastforce
  have l: "life s s1" using provision_begin_lives ok b unfolding lives_def by (metis snd_conv)
  show "life s (snd (provision sv a now later s))"
  proof (cases x)
    case (Inl e)
    then show ?thesis using l b by (simp add: provision_def)
  next
    case (Inr ver)
    then obtain r where "findById a s1 = Some r" "a_status r = PROVISIONING"
      using provision_begin_ok [OF ok] b by blast
    then have "life s1 (snd (provision_complete sv a ver res later s1))" for res
      using provision_complete_life life_ok [OF l] by blast
    then show ?thesis using l b Inr life_trans [OF l]
      by (cases "o_provision (sv_orchestrator sv) (provision_request_of a ver)") (simp_all add: provision_def)
  qed
qed

lemma markStarted_lives: "lives (markStarted a now)"
  unfolding markStarted_def by (intro lives_find keeps) (auto simp: view_def intro: moves.intros)

lemma life_touch [keeps]: "preserves (life s) (touch a now)"
  unfolding touch_def by (intro life_column) (simp add: view_def key_of_def idem_of_def)

lemma checkWork_lives: "lives (checkWork sv a rid now)"
  unfolding checkWork_def
  by (intro lives_find guard_invalid_state keeps run_validation_keeps rebuild_keeps) (metis restD rest_tsD)+

lemma evaluate_lives: "lives (evaluate ex fp rb gr a rid now)"
  unfolding lives_def
proof (intro allI impI)
  fix s assume ok: "attempts_ok s"
  obtain res t where run: "evaluate ex fp rb gr a rid now s = (res, t)" by fastforce
  show "life s (snd (evaluate ex fp rb gr a rid now s))"
    using evaluate_attempts [OF ok run]
  proof
    assume "attempts t = attempts s"
    then show ?thesis using life_frame [OF life_refl [OF ok]] run by simp
  next
    assume "\<exists>r b. findById a s = Some r \<and> a_status r \<in> {SUBMITTED, EVALUATING} \<and>
      attempts t = attempts (transitioned r (result_updates b now) now s)"
    then obtain r b where r: "findById a s = Some r" "a_status r \<in> {SUBMITTED, EVALUATING}"
      and t: "attempts t = attempts (transitioned r (result_updates b now) now s)" by blast
    have "preserves (life s) (transition a (a_version r) (result_updates b now) now)"
      using r by (intro life_transition) (auto simp: view_def result_updates_def no_updates_def intro!: m_result)
    then have "life s (transitioned r (result_updates b now) now s)"
      using life_refl [OF ok] transition_ok [OF ok r(1) refl] by (simp add: preserves_def) (metis snd_conv)
    then show ?thesis using life_frame [OF _ t] run by simp
  qed
qed

lemma submit_lives: "lives (submit sv a rid now)"
  unfolding submit_def
  by (intro lives_find guard_invalid_state keeps lives_keeps [OF evaluate_lives]) (auto simp: view_def intro: moves.intros)

lemma connect_lives: "lives (connect sv a)"
  unfolding connect_def by (intro lives_find keeps)

lemma destroyed_lives: "lives (handleEnvironmentDestroyed a why now)"
  unfolding handleEnvironmentDestroyed_def
  by (rule lives_read; simp only: option.case; intro keeps) (auto simp: view_def intro!: m_suspend m_teardown)

lemma deliver_destroyed_lives: "lives (deliver_destroyed msg now)"
  unfolding deliver_destroyed_def
  by (auto intro!: livesI keeps lives_keeps [OF destroyed_lives] split: option.split)

lemma cache_lives: "lives (cache a now)"
  unfolding cache_def
  by (rule lives_read; simp only: option.case; intro keeps) (auto simp: view_def intro: moves.intros)

lemma sweep_lives: "lives (sweep now)"
  unfolding sweep_def by (intro livesI keeps lives_keeps [OF cache_lives])

lemma reactivate_lives: "lives (reactivate a now)"
  unfolding reactivate_def
  by (intro lives_find keeps) (auto simp: view_def REACTIVATABLE_STATUSES_def intro!: m_resume)

lemma reveal_lives: "lives (reveal a k now)"
  unfolding reveal_def getTaskSpec_def upsert_task_state_def
  by (intro livesI keeps) (auto simp: view_def key_of_def idem_of_def)

lemma guidedFallback_lives: "lives (guidedFallback a k now)"
  unfolding guidedFallback_def getTaskSpec_def upsert_task_state_def Let_def
  by (intro livesI keeps) (auto simp: view_def key_of_def idem_of_def)

lemma submit_artifact_lives: "lives (submit_artifact sha a k c now)"
  unfolding submit_artifact_def by (intro livesI keeps) simp

lemma command_lives: "lives (CommandConsumer.deliver msg now)"
  unfolding deliver_def handleCommand_def incrementSignal_def by (intro livesI keeps) simp_all

section \<open>The service as a transition system\<close>

text \<open>One operation of the attempt module, run to its end, successfully or not. Provisioning is there
  as a whole and as its two database phases, between which other requests may run; the second phase
  is then taken when the orchestrator answers while the attempt is still waiting for it.\<close>

inductive request :: "services \<Rightarrow> db \<Rightarrow> db \<Rightarrow> bool" for sv :: services where
  rq_create: "createAttempt sv inp i now s = (x, t) \<Longrightarrow> request sv s t"
| rq_provision: "provision sv a now later s = (x, t) \<Longrightarrow> request sv s t"
| rq_provision_begin: "provision_begin a now s = (v, t) \<Longrightarrow> request sv s t"
| rq_provision_complete: "findById a s = Some r \<Longrightarrow> a_status r = PROVISIONING \<Longrightarrow>
    provision_complete sv a ver res now s = (x, t) \<Longrightarrow> request sv s t"
| rq_start: "markStarted a now s = (x, t) \<Longrightarrow> request sv s t"
| rq_check: "checkWork sv a rid now s = (c, t) \<Longrightarrow> request sv s t"
| rq_submit: "submit sv a rid now s = (x, t) \<Longrightarrow> request sv s t"
| rq_evaluate: "evaluate (sv_executor sv) (sv_faultPath sv) (sv_rubrics sv) (sv_grader sv) a rid now s = (e, t) \<Longrightarrow> request sv s t"
| rq_connect: "connect sv a s = (n, t) \<Longrightarrow> request sv s t"
| rq_destroyed: "deliver_destroyed msg now s = (un, t) \<Longrightarrow> request sv s t"
| rq_sweep: "sweep now s = (un, t) \<Longrightarrow> request sv s t"
| rq_reactivate: "reactivate a now s = (x, t) \<Longrightarrow> request sv s t"
| rq_reveal: "reveal a k now s = (h, t) \<Longrightarrow> request sv s t"
| rq_fallback: "guidedFallback a k now s = (g, t) \<Longrightarrow> request sv s t"
| rq_artifact: "submit_artifact sha a k c now s = (un, t) \<Longrightarrow> request sv s t"
| rq_command: "CommandConsumer.deliver env now s = (un, t) \<Longrightarrow> request sv s t"

lemmas handlers_live = createAttempt_lives provision_lives provision_begin_lives markStarted_lives checkWork_lives
  submit_lives evaluate_lives connect_lives deliver_destroyed_lives sweep_lives reactivate_lives reveal_lives
  guidedFallback_lives submit_artifact_lives command_lives

lemma livesD: "lives m \<Longrightarrow> attempts_ok s \<Longrightarrow> m s = (x, t) \<Longrightarrow> life s t"
  unfolding lives_def by (metis snd_conv)

lemma request_life: "request sv s t \<Longrightarrow> attempts_ok s \<Longrightarrow> life s t"
proof (induction rule: request.induct)
  case (rq_provision_complete a s r ver res now x t)
  then show ?case using provision_complete_life by (metis snd_conv)
qed (blast intro: livesD handlers_live)+

interpretation service: refining "request sv" life attempts_ok for sv
  by unfold_locales (auto intro: life_refl life_trans request_life dest: life_ok)

section \<open>Properties\<close>


lemma request_run: "request sv s t \<Longrightarrow> (request sv)\<^sup>*\<^sup>* s t"
  by (rule r_into_rtranclp)

definition demo_at :: "attempt_status \<Rightarrow> string option \<Rightarrow> db" where
  "demo_at st e = empty_db\<lparr>attempts := [demo_attempt\<lparr>a_status := st, a_environment_id := e\<rparr>]\<rparr>"

lemma demo_at_ok: "attempts_ok (demo_at st e)"
  "findById ''a'' (demo_at st e) = Some (demo_attempt\<lparr>a_status := st, a_environment_id := e\<rparr>)"
  by (simp_all add: demo_at_def attempts_ok_def findById_def demo_attempt_def)






end
