(* ===== verification/ProjectScoring.thy ===== *)
theory ProjectScoring
  imports Schema
begin

text \<open>
  \<open>project/project-scoring.ts\<close>: the roll-up of the five milestone scores and the defence viva into
  the project score, with the structural cap on what AI-graded components may decide. Scores are
  reals; the guard against NaN in \<open>clamp01\<close> has no counterpart.
\<close>

section \<open>Model\<close>

fun milestone_str :: "milestone_key \<Rightarrow> string" where
  "milestone_str Design = ''design''"
| "milestone_str Infra = ''infra''"
| "milestone_str Implementation = ''implementation''"
| "milestone_str Hardening = ''hardening''"
| "milestone_str Final = ''final''"

definition SP_PROJECT_DEFAULT_ID :: string where "SP_PROJECT_DEFAULT_ID = ''sp.project.default''"

fun MILESTONE_WEIGHTS :: "milestone_key \<Rightarrow> real" where
  "MILESTONE_WEIGHTS Design = 20/100"
| "MILESTONE_WEIGHTS Infra = 15/100"
| "MILESTONE_WEIGHTS Implementation = 20/100"
| "MILESTONE_WEIGHTS Hardening = 20/100"
| "MILESTONE_WEIGHTS Final = 10/100"

definition DEFENCE_WEIGHT :: real where "DEFENCE_WEIGHT = 15/100"

definition AI_COMPONENTS :: "string list" where
  "AI_COMPONENTS = [''design'', ''hardening'', ''defence'']"

definition PASS_THRESHOLD :: real where "PASS_THRESHOLD = 7/10"

definition AI_CAP :: real where "AI_CAP = 4/10"

record milestone_score_input =
  mi_key :: milestone_key
  mi_score :: "real option"
  mi_aiDerived :: bool

record rollup_input =
  ri_milestones :: "milestone_score_input list"
  ri_defenceScore :: "real option"
  ri_mappedSkills :: "(string \<times> real) list"

record component =
  pc_component :: string
  pc_rawScore :: real
  pc_authoredWeight :: real
  pc_aiDerived :: bool

record weighted_component =
  wc_component :: string
  wc_rawScore :: real
  wc_weight :: real
  wc_weighted :: real
  wc_aiDerived :: bool

record rollup_result =
  rr_finalScore :: real
  rr_passThreshold :: real
  rr_passed :: bool
  rr_breakdown :: "weighted_component list"
  rr_aiFraction :: real
  rr_aiCapApplied :: bool
  rr_masteryEvidence :: "(string \<times> real \<times> real) list"

definition number_or_0 :: "real option \<Rightarrow> real" where
  "number_or_0 x = (case x of None \<Rightarrow> 0 | Some v \<Rightarrow> v)"

text \<open>The entry of a milestone; of several with one key a \<open>Map\<close> keeps the last.\<close>

definition milestone_input :: "rollup_input \<Rightarrow> milestone_key \<Rightarrow> milestone_score_input option" where
  "milestone_input inp key = map_of (rev (map (\<lambda>m. (mi_key m, m)) (ri_milestones inp))) key"

definition milestone_component :: "rollup_input \<Rightarrow> milestone_key \<Rightarrow> component" where
  "milestone_component inp key =
     \<lparr>pc_component = milestone_str key,
      pc_rawScore = clamp01 (number_or_0 (Option.bind (milestone_input inp key) mi_score)),
      pc_authoredWeight = MILESTONE_WEIGHTS key,
      pc_aiDerived = ((case milestone_input inp key of None \<Rightarrow> False | Some m \<Rightarrow> mi_aiDerived m) \<or>
        milestone_str key \<in> set AI_COMPONENTS)\<rparr>"

definition components :: "rollup_input \<Rightarrow> component list" where
  "components inp =
     map (milestone_component inp) [Design, Infra, Implementation, Hardening, Final] @
     [\<lparr>pc_component = ''defence'', pc_rawScore = clamp01 (number_or_0 (ri_defenceScore inp)),
       pc_authoredWeight = DEFENCE_WEIGHT, pc_aiDerived = True\<rparr>]"

definition authored :: "bool \<Rightarrow> component list \<Rightarrow> real" where
  "authored ai cs = sum_list (map pc_authoredWeight (filter (\<lambda>c. pc_aiDerived c = ai) cs))"

definition aiWeightBudget :: "component list \<Rightarrow> real" where
  "aiWeightBudget cs = (if authored False cs = 0 then 1 else if authored True cs = 0 then 0 else AI_CAP)"

definition weigh :: "component list \<Rightarrow> component \<Rightarrow> weighted_component" where
  "weigh cs c =
     (let half = authored (pc_aiDerived c) cs;
          budget = (if pc_aiDerived c then aiWeightBudget cs else 1 - aiWeightBudget cs);
          effWeight = (if half = 0 then 0 else pc_authoredWeight c / half * budget)
      in \<lparr>wc_component = pc_component c, wc_rawScore = pc_rawScore c, wc_weight = effWeight,
          wc_weighted = pc_rawScore c * effWeight, wc_aiDerived = pc_aiDerived c\<rparr>)"

definition rounded :: "weighted_component \<Rightarrow> weighted_component" where
  "rounded c = c\<lparr>wc_rawScore := round4 (wc_rawScore c), wc_weight := round4 (wc_weight c),
     wc_weighted := round4 (wc_weighted c)\<rparr>"

definition rollup :: "rollup_input \<Rightarrow> rollup_result" where
  "rollup inp =
     (let cs = components inp;
          weighted = map (weigh cs) cs;
          finalScore = round4 (clamp01 (sum_list (map wc_weighted weighted)));
          finalAiWeighted = sum_list (map wc_weighted (filter wc_aiDerived weighted))
      in \<lparr>rr_finalScore = finalScore, rr_passThreshold = PASS_THRESHOLD,
          rr_passed = (finalScore \<ge> PASS_THRESHOLD), rr_breakdown = map rounded weighted,
          rr_aiFraction = (if finalScore > 0 then round4 (finalAiWeighted / finalScore) else 0),
          rr_aiCapApplied = (authored True cs > 0 \<and> authored False cs > 0 \<and>
            authored True cs / (authored True cs + authored False cs) > AI_CAP),
          rr_masteryEvidence = map (\<lambda>(skillId, weight). (skillId, finalScore, weight)) (ri_mappedSkills inp)\<rparr>)"

section \<open>The weighted sum\<close>

text \<open>The raw scores and the flags on which the weights depend.\<close>

definition raw :: "rollup_input \<Rightarrow> milestone_key \<Rightarrow> real" where
  "raw inp key = pc_rawScore (milestone_component inp key)"

definition raw_defence :: "rollup_input \<Rightarrow> real" where
  "raw_defence inp = clamp01 (number_or_0 (ri_defenceScore inp))"

definition ai_flag :: "rollup_input \<Rightarrow> milestone_key \<Rightarrow> bool" where
  "ai_flag inp key = pc_aiDerived (milestone_component inp key)"

definition total :: "rollup_input \<Rightarrow> real" where
  "total inp = sum_list (map wc_weighted (map (weigh (components inp)) (components inp)))"

lemma raw_bounds: "0 \<le> raw inp k" "raw inp k \<le> 1" "0 \<le> raw_defence inp" "raw_defence inp \<le> 1"
  by (simp_all add: raw_def raw_defence_def milestone_component_def)

lemma ai_flag_rubric: "ai_flag inp Design" "ai_flag inp Hardening"
  by (simp_all add: ai_flag_def milestone_component_def AI_COMPONENTS_def)

lemma components_unfold:
  "components inp =
    [\<lparr>pc_component = ''design'', pc_rawScore = raw inp Design, pc_authoredWeight = 20/100, pc_aiDerived = True\<rparr>,
     \<lparr>pc_component = ''infra'', pc_rawScore = raw inp Infra, pc_authoredWeight = 15/100, pc_aiDerived = ai_flag inp Infra\<rparr>,
     \<lparr>pc_component = ''implementation'', pc_rawScore = raw inp Implementation, pc_authoredWeight = 20/100,
       pc_aiDerived = ai_flag inp Implementation\<rparr>,
     \<lparr>pc_component = ''hardening'', pc_rawScore = raw inp Hardening, pc_authoredWeight = 20/100, pc_aiDerived = True\<rparr>,
     \<lparr>pc_component = ''final'', pc_rawScore = raw inp Final, pc_authoredWeight = 10/100, pc_aiDerived = ai_flag inp Final\<rparr>,
     \<lparr>pc_component = ''defence'', pc_rawScore = raw_defence inp, pc_authoredWeight = 15/100, pc_aiDerived = True\<rparr>]"
  by (simp add: components_def raw_def raw_defence_def ai_flag_def milestone_component_def AI_COMPONENTS_def DEFENCE_WEIGHT_def)

lemma rollup_final: "rr_finalScore (rollup inp) = round4 (clamp01 (total inp))"
  by (simp add: rollup_def Let_def total_def)

lemma rollup_passed: "rr_passed (rollup inp) \<longleftrightarrow> rr_finalScore (rollup inp) \<ge> 7/10"
  by (simp add: rollup_def Let_def PASS_THRESHOLD_def)

lemma total_cases:
  "total inp =
    (let d = raw inp Design; i = raw inp Infra; m = raw inp Implementation; h = raw inp Hardening;
         f = raw inp Final; v = raw_defence inp in
     if ai_flag inp Infra then
       if ai_flag inp Implementation then
         if ai_flag inp Final then (20*d + 15*i + 20*m + 20*h + 10*f + 15*v) / 100
         else (20*d + 15*i + 20*m + 20*h + 15*v) * (4/10) / 90 + f * (6/10)
       else if ai_flag inp Final then (20*d + 15*i + 20*h + 10*f + 15*v) * (4/10) / 80 + m * (6/10)
         else (20*d + 15*i + 20*h + 15*v) * (4/10) / 70 + (20*m + 10*f) * (6/10) / 30
     else
       if ai_flag inp Implementation then
         if ai_flag inp Final then (20*d + 20*m + 20*h + 10*f + 15*v) * (4/10) / 85 + i * (6/10)
         else (20*d + 20*m + 20*h + 15*v) * (4/10) / 75 + (15*i + 10*f) * (6/10) / 25
       else if ai_flag inp Final then (20*d + 20*h + 10*f + 15*v) * (4/10) / 65 + (15*i + 20*m) * (6/10) / 35
         else (20*d + 20*h + 15*v) * (4/10) / 55 + (15*i + 20*m + 10*f) * (6/10) / 45)"
  unfolding total_def components_unfold
  by (cases "ai_flag inp Infra"; cases "ai_flag inp Implementation"; cases "ai_flag inp Final")
    (simp_all add: weigh_def authored_def aiWeightBudget_def AI_CAP_def Let_def field_simps)

lemma milestone_key_all: "(\<forall>k. P k) \<longleftrightarrow> P Design \<and> P Infra \<and> P Implementation \<and> P Hardening \<and> P Final"
  by (metis milestone_key.exhaust)

lemmas all_raw_bounds = raw_bounds(1,2) [of inp Design for inp] raw_bounds(1,2) [of inp Infra for inp]
  raw_bounds(1,2) [of inp Implementation for inp] raw_bounds(1,2) [of inp Hardening for inp]
  raw_bounds(1,2) [of inp Final for inp] raw_bounds(3,4)

lemma total_bounds: "0 \<le> total inp" "total inp \<le> 1"
  unfolding total_cases Let_def using all_raw_bounds [of inp]
  by (auto simp: field_simps)

lemma total_mono:
  assumes "\<forall>k. ai_flag inp' k = ai_flag inp k" and "\<forall>k. raw inp k \<le> raw inp' k"
    and "raw_defence inp \<le> raw_defence inp'"
  shows "total inp \<le> total inp'"
  unfolding total_cases Let_def using assms by (auto simp: milestone_key_all field_simps)

lemma some_deterministic:
  "\<exists>k. \<not> ai_flag inp k \<Longrightarrow> \<not> (ai_flag inp Infra \<and> ai_flag inp Implementation \<and> ai_flag inp Final)"
  using ai_flag_rubric by (metis milestone_key.exhaust)

lemma total_ai_cap:
  assumes "\<exists>k. \<not> ai_flag inp k" and "\<forall>k. ai_flag inp' k = ai_flag inp k"
    and "\<forall>k. \<not> ai_flag inp k \<longrightarrow> raw inp' k = raw inp k"
  shows "total inp \<le> total inp' + 4/10"
  unfolding total_cases Let_def
  using some_deterministic [OF assms(1)] assms(2,3) all_raw_bounds [of inp] all_raw_bounds [of inp']
  by (auto simp: milestone_key_all field_simps)

lemma total_ai_only:
  assumes "\<exists>k. \<not> ai_flag inp k" and "\<forall>k. \<not> ai_flag inp k \<longrightarrow> raw inp k = 0"
  shows "total inp \<le> 4/10"
  unfolding total_cases Let_def
  using some_deterministic [OF assms(1)] assms(2) all_raw_bounds [of inp]
  by (auto simp: milestone_key_all field_simps)

lemma round4_shift: "round4 (x + 4/10) = round4 x + 4/10"
proof -
  have "(x + 4/10) * 10000 + 1/2 = (x * 10000 + 1/2) + of_int 4000" by simp
  then have "js_round ((x + 4/10) * 10000) = js_round (x * 10000) + 4000"
    unfolding js_round_def by (simp only: floor_add_int)
  then show ?thesis by (simp add: round4_def field_simps)
qed

section \<open>Properties\<close>

text \<open>Property. The project score lies between 0 and 1 and the verdict is exactly whether it reaches 0.7;
  raising any milestone or defence score never lowers it (for the same gates), a perfect project
  scores exactly 1 and every mapped skill receives that score as its evidence.\<close>

theorem rollup_sound:
  assumes "\<forall>k. ai_flag better k = ai_flag inp k" and "\<forall>k. raw inp k \<le> raw better k"
    and "raw_defence inp \<le> raw_defence better"
  shows "0 \<le> rr_finalScore (rollup inp) \<and> rr_finalScore (rollup inp) \<le> 1
    \<and> (rr_passed (rollup inp) \<longleftrightarrow> rr_finalScore (rollup inp) \<ge> 7/10)
    \<and> rr_finalScore (rollup inp) \<le> rr_finalScore (rollup better)
    \<and> (rr_passed (rollup inp) \<longrightarrow> rr_passed (rollup better))
    \<and> ((\<forall>k. raw inp k = 1) \<and> raw_defence inp = 1 \<longrightarrow> rr_finalScore (rollup inp) = 1)
    \<and> rr_masteryEvidence (rollup inp) =
        map (\<lambda>(sk, w). (sk, rr_finalScore (rollup inp), w)) (ri_mappedSkills inp)"
proof (intro conjI)
  show "0 \<le> rr_finalScore (rollup inp)" "rr_finalScore (rollup inp) \<le> 1"
    using round4_bounds [of "clamp01 (total inp)"] by (simp_all add: rollup_final)
  show mono: "rr_finalScore (rollup inp) \<le> rr_finalScore (rollup better)"
    using total_mono [OF assms] by (simp add: rollup_final round4_mono clamp01_mono)
  show "rr_passed (rollup inp) \<longleftrightarrow> rr_finalScore (rollup inp) \<ge> 7/10" by (rule rollup_passed)
  show "rr_passed (rollup inp) \<longrightarrow> rr_passed (rollup better)" using mono rollup_passed by force
  show "(\<forall>k. raw inp k = 1) \<and> raw_defence inp = 1 \<longrightarrow> rr_finalScore (rollup inp) = 1"
    by (auto simp: rollup_final total_cases Let_def)
  show "rr_masteryEvidence (rollup inp) =
      map (\<lambda>(sk, w). (sk, rr_finalScore (rollup inp), w)) (ri_mappedSkills inp)"
    by (simp add: rollup_def Let_def)
qed

definition demo_rollup :: "real \<Rightarrow> rollup_input" where
  "demo_rollup x = \<lparr>ri_milestones = [\<lparr>mi_key = Design, mi_score = Some x, mi_aiDerived = True\<rparr>,
      \<lparr>mi_key = Infra, mi_score = Some 1, mi_aiDerived = False\<rparr>],
     ri_defenceScore = None, ri_mappedSkills = [(''docker'', 1)]\<rparr>"

lemma demo_rollup_sel:
  "ai_flag (demo_rollup x) k \<longleftrightarrow> k \<in> {Design, Hardening}"
  "raw (demo_rollup x) k = (case k of Design \<Rightarrow> clamp01 x | Infra \<Rightarrow> 1 | _ \<Rightarrow> 0)"
  "raw_defence (demo_rollup x) = 0"
  by (cases k; simp add: ai_flag_def raw_def raw_defence_def milestone_component_def milestone_input_def
        demo_rollup_def AI_COMPONENTS_def number_or_0_def)+

theorem rollup_sound_witness:
  "rr_finalScore (rollup (demo_rollup (1/2))) \<le> rr_finalScore (rollup (demo_rollup 1))"
  using rollup_sound [of "demo_rollup 1" "demo_rollup (1/2)"]
  by (simp add: demo_rollup_sel milestone_key_all)

text \<open>C33. What the AI grades decides at most 40 % of the project score: as long as one milestone is
  not AI-graded, two projects that agree on which milestones are AI-graded and on the scores of the
  others differ by at most 0.4, whatever the graders and the viva said; so a project whose
  deterministic components all score 0 cannot pass.\<close>

theorem ai_cap_holds:
  assumes "\<exists>k. \<not> ai_flag inp k" and "\<forall>k. ai_flag inp' k = ai_flag inp k"
    and "\<forall>k. \<not> ai_flag inp k \<longrightarrow> raw inp' k = raw inp k"
  shows "\<bar>rr_finalScore (rollup inp) - rr_finalScore (rollup inp')\<bar> \<le> AI_CAP
    \<and> ((\<forall>k. \<not> ai_flag inp k \<longrightarrow> raw inp k = 0) \<longrightarrow> \<not> rr_passed (rollup inp))"
proof (intro conjI)
  have step: "round4 (total i) \<le> round4 (total j) + 4/10" if "total i \<le> total j + 4/10" for i j
    using round4_mono [OF that] unfolding round4_shift .
  have "total inp' \<le> total inp + 4/10"
    by (rule total_ai_cap) (use assms in auto)
  with total_ai_cap [OF assms] show "\<bar>rr_finalScore (rollup inp) - rr_finalScore (rollup inp')\<bar> \<le> AI_CAP"
    using step [of inp inp'] step [of inp' inp] unfolding AI_CAP_def rollup_final clamp01_id [OF total_bounds] by linarith
  have "total inp \<le> 4/10" if "\<forall>k. \<not> ai_flag inp k \<longrightarrow> raw inp k = 0"
    using assms(1) that by (rule total_ai_only)
  moreover have "round4 (4/10) = 4/10" using round4_shift [of 0] by simp
  ultimately show "(\<forall>k. \<not> ai_flag inp k \<longrightarrow> raw inp k = 0) \<longrightarrow> \<not> rr_passed (rollup inp)"
    using round4_mono [of "total inp" "4/10"]
    unfolding rollup_passed rollup_final clamp01_id [OF total_bounds] by fastforce
qed

theorem ai_cap_holds_witness:
  "\<bar>rr_finalScore (rollup (demo_rollup 0)) - rr_finalScore (rollup (demo_rollup 1))\<bar> \<le> AI_CAP"
  using ai_cap_holds [of "demo_rollup 0" "demo_rollup 1"]
  by (auto simp: demo_rollup_sel milestone_key_all)

text \<open>
  The structural cap ends where no milestone is left to the validators: when the gates of infra,
  implementation and final all involve a rubric, the AI-graded components carry the whole weight.
\<close>

lemma ai_decides_everything:
  assumes "ai_flag inp Infra" and "ai_flag inp Implementation" and "ai_flag inp Final"
  shows "aiWeightBudget (components inp) = 1"
  using assms by (simp add: aiWeightBudget_def authored_def components_unfold)

end
