(* ===== verification/ProjectRepository.thy ===== *)
theory ProjectRepository
  imports EventStore ProjectScoring
begin

text \<open>
  The project-mode tables: \<open>project/project.repository.ts\<close> over
  \<open>attempt.project_milestone_state\<close> and \<open>attempt.project_submission\<close>, and the project side of the Git
  host, \<open>project/git.service.ts\<close>. The Forgejo server behind \<open>forgejo.client.ts\<close> is a parameter.

  The invariant \<open>ladder\<close> is the shape of an attempt's milestones: numbered 0, 1, ... in order, with
  distinct keys, and of the statuses first the passed ones, then one that is being worked on, then the
  locked ones. It is kept by seeding and by the gate; \<open>markSubmitted\<close> keeps it on the active
  milestone, which is what the service guards.
\<close>

section \<open>Model: project-error.ts and project.repository.ts\<close>

definition projectError :: "string \<Rightarrow> string \<Rightarrow> 'a prog" where
  "projectError code message = throw (ProjectErr code message)"

record seed_milestone_input =
  sd_milestoneKey :: milestone_key
  sd_ordinal :: nat
  sd_status :: milestone_status

definition milestone_at :: "string \<Rightarrow> milestone_key \<Rightarrow> milestone_row \<Rightarrow> bool" where
  "milestone_at attemptId key r \<longleftrightarrow> m_attempt_id r = attemptId \<and> m_key r = key"

text \<open>One value of the insert; \<open>ON CONFLICT (attempt_id, milestone_key) DO NOTHING\<close>.\<close>

definition insert_milestone :: "string \<Rightarrow> milestone_row list \<Rightarrow> seed_milestone_input \<Rightarrow> milestone_row list" where
  "insert_milestone attemptId rows m =
     (if list_ex (milestone_at attemptId (sd_milestoneKey m)) rows then rows
      else rows @ [\<lparr>m_attempt_id = attemptId, m_key = sd_milestoneKey m, m_status = sd_status m,
        m_ordinal = sd_ordinal m, m_submitted_at = None, m_gated_at = None, m_score = None,
        m_rubric_level = None, m_attempt_count = 0\<rparr>])"

definition seedMilestones :: "string \<Rightarrow> seed_milestone_input list \<Rightarrow> unit prog" where
  "seedMilestones attemptId ms =
     (if ms = [] then ret ()
      else modify (\<lambda>s. s\<lparr>milestones := foldl (insert_milestone attemptId) (milestones s) ms\<rparr>))"

definition milestone_rows :: "string \<Rightarrow> db \<Rightarrow> milestone_row list" where
  "milestone_rows attemptId s = filter (\<lambda>r. m_attempt_id r = attemptId) (milestones s)"

definition repo_listMilestones :: "string \<Rightarrow> db \<Rightarrow> milestone_row list" where
  "repo_listMilestones attemptId s = sort_key m_ordinal (milestone_rows attemptId s)"

definition getMilestone :: "string \<Rightarrow> milestone_key \<Rightarrow> db \<Rightarrow> milestone_row option" where
  "getMilestone attemptId key s = find_row (milestone_at attemptId key) (milestones s)"

text \<open>\<open>UPDATE ... RETURNING\<close>: the update, then the row as it is now.\<close>

definition markSubmitted :: "string \<Rightarrow> milestone_key \<Rightarrow> time \<Rightarrow> nat prog" where
  "markSubmitted attemptId key now =
     andthen (modify (\<lambda>s. s\<lparr>milestones := update_where (milestone_at attemptId key)
        (\<lambda>r. r\<lparr>m_status := M_SUBMITTED, m_submitted_at := Some now, m_attempt_count := m_attempt_count r + 1\<rparr>)
        (milestones s)\<rparr>))
     (bnd (bnd (query (getMilestone attemptId key)) takeFirstOrThrow) (\<lambda>row. ret (m_attempt_count row)))"

text \<open>
  The level a rubric gate works with: a level, or the \<open>Infinity\<close> that \<open>Math.min()\<close> of no criterion
  gives. The column takes NULL and 1 to 5; anything else is refused by the database, the range
  check only when there is a row to update.
\<close>

datatype gate_level = Level int | Unbounded

fun rubric_column :: "bool \<Rightarrow> gate_level option \<Rightarrow> exn + int option" where
  "rubric_column found None = Inr None"
| "rubric_column found (Some Unbounded) = Inl (DbErr ''invalid input syntax for type integer'')"
| "rubric_column found (Some (Level n)) =
     (if found \<and> \<not> (1 \<le> n \<and> n \<le> 5) then Inl (DbErr ''project_milestone_state_rubric_level_check'')
      else Inr (Some n))"

definition applyGateOutcome ::
    "string \<Rightarrow> milestone_key \<Rightarrow> bool \<Rightarrow> real \<Rightarrow> gate_level option \<Rightarrow> time \<Rightarrow> unit prog" where
  "applyGateOutcome attemptId key gatedPass score rubricLevel now =
     transaction
      (bnd (query (getMilestone attemptId key)) (\<lambda>before.
       bnd (call (rubric_column (before \<noteq> None) rubricLevel)) (\<lambda>level.
       andthen (modify (\<lambda>s. s\<lparr>milestones := update_where (milestone_at attemptId key)
         (\<lambda>r. r\<lparr>m_status := (if gatedPass then GATED_PASS else GATED_FAIL), m_score := Some score,
            m_rubric_level := level, m_gated_at := Some now\<rparr>) (milestones s)\<rparr>))
       (bnd (bnd (query (getMilestone attemptId key)) takeFirstOrThrow) (\<lambda>gated.
        when_io gatedPass (modify (\<lambda>s. s\<lparr>milestones := update_where
          (\<lambda>r. m_attempt_id r = attemptId \<and> m_ordinal r = m_ordinal gated + 1 \<and> m_status r = LOCKED)
          (\<lambda>r. r\<lparr>m_status := OPEN\<rparr>) (milestones s)\<rparr>)))))))"

definition recordSubmission ::
    "string \<Rightarrow> milestone_key \<Rightarrow> string \<Rightarrow> string option \<Rightarrow> nat \<Rightarrow> time \<Rightarrow> unit prog" where
  "recordSubmission attemptId key repoRef commitSha attemptNumber now =
     modify (\<lambda>s. s\<lparr>submissions := submissions s @ [\<lparr>s_attempt_id = attemptId, s_key = key,
       s_repo_ref = repoRef, s_commit_sha = (case commitSha of None \<Rightarrow> [] | Some c \<Rightarrow> c),
       s_attempt_number = attemptNumber, s_outcome = None, s_score = None, s_submitted_at = now\<rparr>]\<rparr>)"

definition stampSubmissionOutcome ::
    "string \<Rightarrow> milestone_key \<Rightarrow> nat \<Rightarrow> bool \<Rightarrow> real \<Rightarrow> unit prog" where
  "stampSubmissionOutcome attemptId key attemptNumber gatedPass score =
     modify (\<lambda>s. s\<lparr>submissions := update_where
       (\<lambda>r. s_attempt_id r = attemptId \<and> s_key r = key \<and> s_attempt_number r = attemptNumber)
       (\<lambda>r. r\<lparr>s_outcome := Some (if gatedPass then GATED_PASS else GATED_FAIL), s_score := Some score\<rparr>)
       (submissions s)\<rparr>)"

text \<open>Newest first; rows of the same instant in insertion order.\<close>

definition listSubmissions :: "string \<Rightarrow> milestone_key option \<Rightarrow> db \<Rightarrow> submission_row list" where
  "listSubmissions attemptId key s = sort_key (\<lambda>r. - s_submitted_at r)
     (filter (\<lambda>r. s_attempt_id r = attemptId \<and> (case key of None \<Rightarrow> True | Some k \<Rightarrow> s_key r = k)) (submissions s))"

text \<open>\<open>resolveRepoRef\<close>, the same in \<open>project.service.ts\<close> and \<open>defence.service.ts\<close>.\<close>

definition resolveRepoRef :: "string \<Rightarrow> db \<Rightarrow> string option" where
  "resolveRepoRef attemptId s =
     map_option s_repo_ref (find_row (\<lambda>r. s_repo_ref r \<noteq> [] \<and> s_repo_ref r \<noteq> ''none'') (listSubmissions attemptId None s))"

section \<open>The ladder of milestones\<close>

text \<open>First the passed milestones, then one that is open, submitted or failed, then the locked ones.\<close>

fun stairs :: "milestone_status list \<Rightarrow> bool" where
  "stairs [] = True"
| "stairs (st # sts) =
     (if st = GATED_PASS then stairs sts else st \<noteq> LOCKED \<and> list_all (\<lambda>x. x = LOCKED) sts)"

definition passed_count :: "milestone_status list \<Rightarrow> nat" where
  "passed_count sts = length (takeWhile (\<lambda>st. st = GATED_PASS) sts)"

definition ladder :: "milestone_row list \<Rightarrow> bool" where
  "ladder rs \<longleftrightarrow> map m_ordinal rs = [0..<length rs] \<and> distinct (map m_key rs) \<and> stairs (map m_status rs)"

lemma passed_count_Cons:
  "passed_count (st # sts) = (if st = GATED_PASS then Suc (passed_count sts) else 0)"
  by (simp add: passed_count_def)

lemma stairs_active:
  "stairs sts \<Longrightarrow> i < length sts \<Longrightarrow>
   (sts ! i = GATED_PASS \<longleftrightarrow> i < passed_count sts) \<and> (sts ! i = LOCKED \<longleftrightarrow> passed_count sts < i)"
proof (induction sts arbitrary: i)
  case (Cons st sts)
  then show ?case by (cases i) (auto simp: passed_count_Cons list_all_length)
qed (simp add: passed_count_def)

text \<open>A milestone status that is neither passed nor locked.\<close>

definition in_work :: "milestone_status \<Rightarrow> bool" where
  "in_work st \<longleftrightarrow> st \<noteq> GATED_PASS \<and> st \<noteq> LOCKED"

lemma stairs_update:
  "stairs sts \<Longrightarrow> i < length sts \<Longrightarrow> in_work (sts ! i) \<Longrightarrow> in_work st \<Longrightarrow>
   stairs (sts[i := st]) \<and> passed_count (sts[i := st]) = i"
proof (induction sts arbitrary: i)
  case (Cons x sts)
  then show ?case
    by (cases i) (auto simp: passed_count_Cons in_work_def list_all_length split: if_splits)
qed simp

lemma stairs_pass:
  "stairs sts \<Longrightarrow> i < length sts \<Longrightarrow> in_work (sts ! i) \<Longrightarrow>
   stairs (sts[i := GATED_PASS, Suc i := OPEN]) \<and> passed_count (sts[i := GATED_PASS, Suc i := OPEN]) = Suc i"
proof (induction sts arbitrary: i)
  case (Cons x sts)
  show ?case
  proof (cases i)
    case 0
    with Cons.prems show ?thesis
      by (cases sts) (auto simp: passed_count_Cons passed_count_def in_work_def)
  next
    case (Suc j)
    with Cons show ?thesis by (auto simp: passed_count_Cons in_work_def list_all_length split: if_splits)
  qed
qed simp

lemma ladder_nth:
  assumes "ladder rs" and "i < length rs"
  shows "m_ordinal (rs ! i) = i"
proof -
  have "map m_ordinal rs ! i = [0..<length rs] ! i" using assms(1) unfolding ladder_def by metis
  with assms(2) show ?thesis by simp
qed

lemma ladder_sorted: "ladder rs \<Longrightarrow> sort_key m_ordinal rs = rs"
  by (rule sort_key_id_if_sorted) (auto simp: ladder_def sorted_map)

lemma repo_list_ladder: "ladder (milestone_rows a s) \<Longrightarrow> repo_listMilestones a s = milestone_rows a s"
  by (simp add: repo_listMilestones_def ladder_sorted)

text \<open>Updating the row of one key is updating one position.\<close>

lemma update_where_pos:
  "(\<And>j. j < length rs \<Longrightarrow> p (rs ! j) = (j = i)) \<Longrightarrow> i < length rs \<Longrightarrow> update_where p f rs = rs[i := f (rs ! i)]"
  by (rule nth_equalityI) (auto simp: update_where_def nth_list_update)

subsection \<open>What the statements do to a ladder\<close>

lemma getMilestone_rows: "getMilestone a k s = find_row (\<lambda>r. m_key r = k) (milestone_rows a s)"
proof -
  have "find_row (milestone_at a k) rs = find_row (\<lambda>r. m_key r = k) (filter (\<lambda>r. m_attempt_id r = a) rs)" for rs
    by (induction rs) (auto simp: milestone_at_def)
  then show ?thesis by (simp add: getMilestone_def milestone_rows_def)
qed

lemma find_row_pos:
  "(\<And>j. j < length rs \<Longrightarrow> p (rs ! j) = (j = i)) \<Longrightarrow> i < length rs \<Longrightarrow> find_row p rs = Some (rs ! i)"
  by (subst find_Some_iff) force

lemma ladder_key:
  "ladder rs \<Longrightarrow> i < length rs \<Longrightarrow> j < length rs \<Longrightarrow> m_key (rs ! j) = m_key (rs ! i) \<longleftrightarrow> j = i"
  using nth_eq_iff_index_eq [of "map m_key rs" j i] by (auto simp: ladder_def)

lemma find_key_updated:
  assumes "ladder rs" and "i < length rs" and "m_key r = m_key (rs ! i)"
  shows "find_row (\<lambda>x. m_key x = m_key (rs ! i)) (rs[i := r]) = Some r"
proof -
  have "find_row (\<lambda>x. m_key x = m_key (rs ! i)) (rs[i := r]) = Some (rs[i := r] ! i)"
    by (rule find_row_pos) (use assms in \<open>auto simp: nth_list_update ladder_key\<close>)
  with assms(2) show ?thesis by simp
qed

lemma getMilestone_ladder:
  "ladder (milestone_rows a s) \<Longrightarrow> i < length (milestone_rows a s) \<Longrightarrow> m_key (milestone_rows a s ! i) = k \<Longrightarrow>
   getMilestone a k s = Some (milestone_rows a s ! i)"
  unfolding getMilestone_rows by (rule find_row_pos) (auto simp: ladder_key)

lemma milestone_rows_attempt: "i < length (milestone_rows a s) \<Longrightarrow> m_attempt_id (milestone_rows a s ! i) = a"
  using nth_mem [of i "milestone_rows a s"] by (simp add: milestone_rows_def)

lemma milestone_rows_update:
  assumes "\<And>r. p r \<Longrightarrow> m_attempt_id r = a" and "\<And>r. m_attempt_id (f r) = m_attempt_id r"
  shows "milestone_rows b (s\<lparr>milestones := update_where p f (milestones s)\<rparr>) =
    (if b = a then update_where p f (milestone_rows a s) else milestone_rows b s)"
proof -
  have "filter (\<lambda>r. m_attempt_id r = b) (update_where p f rs) =
      (if b = a then update_where p f (filter (\<lambda>r. m_attempt_id r = a) rs) else filter (\<lambda>r. m_attempt_id r = b) rs)" for rs
    by (induction rs) (auto simp: assms)
  then show ?thesis by (simp add: milestone_rows_def)
qed

lemma milestone_rows_update_at:
  assumes "ladder (milestone_rows a s)" and "i < length (milestone_rows a s)"
    and "m_key (milestone_rows a s ! i) = k" and "\<And>r. m_attempt_id (f r) = m_attempt_id r"
  shows "milestone_rows b (s\<lparr>milestones := update_where (milestone_at a k) f (milestones s)\<rparr>) =
    (if b = a then (milestone_rows a s)[i := f (milestone_rows a s ! i)] else milestone_rows b s)"
proof -
  have "update_where (milestone_at a k) f (milestone_rows a s) = (milestone_rows a s)[i := f (milestone_rows a s ! i)]"
    using assms by (intro update_where_pos) (auto simp: milestone_at_def milestone_rows_attempt ladder_key)
  then show ?thesis using milestone_rows_update [of "milestone_at a k" a f b s] assms(4)
    by (simp add: milestone_at_def)
qed

definition submitted_row :: "time \<Rightarrow> milestone_row \<Rightarrow> milestone_row" where
  "submitted_row now r = r\<lparr>m_status := M_SUBMITTED, m_submitted_at := Some now, m_attempt_count := m_attempt_count r + 1\<rparr>"

definition gated_row :: "bool \<Rightarrow> real \<Rightarrow> int option \<Rightarrow> time \<Rightarrow> milestone_row \<Rightarrow> milestone_row" where
  "gated_row pass score level now r =
     r\<lparr>m_status := (if pass then GATED_PASS else GATED_FAIL), m_score := Some score, m_rubric_level := level, m_gated_at := Some now\<rparr>"

lemma row_sel [simp]:
  "m_attempt_id (submitted_row now r) = m_attempt_id r" "m_key (submitted_row now r) = m_key r"
  "m_ordinal (submitted_row now r) = m_ordinal r" "m_status (submitted_row now r) = M_SUBMITTED"
  "m_attempt_count (submitted_row now r) = m_attempt_count r + 1"
  "m_attempt_id (gated_row p sc l now r) = m_attempt_id r" "m_key (gated_row p sc l now r) = m_key r"
  "m_ordinal (gated_row p sc l now r) = m_ordinal r" "m_score (gated_row p sc l now r) = Some sc"
  "m_status (gated_row p sc l now r) = (if p then GATED_PASS else GATED_FAIL)"
  "m_attempt_count (gated_row p sc l now r) = m_attempt_count r" "m_rubric_level (gated_row p sc l now r) = l"
  by (simp_all add: submitted_row_def gated_row_def)

lemma ladder_update:
  assumes "ladder rs" and "i < length rs" and "in_work (m_status (rs ! i))"
    and "m_ordinal r = m_ordinal (rs ! i)" and "m_key r = m_key (rs ! i)" and "in_work (m_status r)"
  shows "ladder (rs[i := r])"
proof -
  have same: "map m_ordinal (rs[i := r]) = map m_ordinal rs" "map m_key (rs[i := r]) = map m_key rs"
    using assms(2,4,5) by (auto simp: map_update intro: list_update_same_conv [THEN iffD2])
  have "stairs (map m_status (rs[i := r]))"
    using stairs_update [of "map m_status rs" i "m_status r"] assms by (simp add: ladder_def map_update)
  with same assms(1) show ?thesis by (simp add: ladder_def)
qed

text \<open>The ladder after a pass: the milestone is passed and the next one, if there is one, is open.\<close>

definition climb :: "milestone_row list \<Rightarrow> nat \<Rightarrow> milestone_row \<Rightarrow> milestone_row list" where
  "climb rs i r = (let rs' = rs[i := r] in if Suc i < length rs then rs'[Suc i := (rs ! Suc i)\<lparr>m_status := OPEN\<rparr>] else rs')"

lemma length_climb [simp]: "length (climb rs i r) = length rs"
  by (simp add: climb_def Let_def)

lemma climb_maps:
  assumes "i < length rs" and "m_ordinal r = m_ordinal (rs ! i)" and "m_key r = m_key (rs ! i)"
  shows "map m_ordinal (climb rs i r) = map m_ordinal rs" "map m_key (climb rs i r) = map m_key rs"
    "map m_status (climb rs i r) = (map m_status rs)[i := m_status r, Suc i := OPEN]"
  using assms by (auto simp: climb_def Let_def nth_list_update list_update_beyond intro!: nth_equalityI)

lemma ladder_climb:
  assumes "ladder rs" and "i < length rs" and "in_work (m_status (rs ! i))"
    and "m_ordinal r = m_ordinal (rs ! i)" and "m_key r = m_key (rs ! i)" and "m_status r = GATED_PASS"
  shows "ladder (climb rs i r)"
  using stairs_pass [of "map m_status rs" i] assms by (simp add: ladder_def climb_maps)

text \<open>The milestones of one attempt become \<open>rs'\<close>; nothing else changes.\<close>

definition sets_rows :: "string \<Rightarrow> milestone_row list \<Rightarrow> db \<Rightarrow> db \<Rightarrow> bool" where
  "sets_rows a rs' s s' \<longleftrightarrow> (\<exists>M. s' = s\<lparr>milestones := M\<rparr>) \<and> milestone_rows a s' = rs' \<and>
     (\<forall>b. b \<noteq> a \<longrightarrow> milestone_rows b s' = milestone_rows b s)"

lemma sets_rowsD: "sets_rows a rs' s s' \<Longrightarrow> milestone_rows a s' = rs'"
  by (simp add: sets_rows_def)

lemma sets_rows_frame:
  assumes "sets_rows a rs' s s'"
  shows "attempts s' = attempts s" "events s' = events s" "versions s' = versions s" "scores s' = scores s"
    "submissions s' = submissions s" "activity_skills s' = activity_skills s" "log_ok s' = log_ok s"
  using assms by (auto simp: sets_rows_def log_ok_def)

lemma markSubmitted_run:
  assumes "ladder rs" and "rs = milestone_rows a s" and "i < length rs" and "m_key (rs ! i) = k"
  obtains s' where "markSubmitted a k now s = (Inr (m_attempt_count (rs ! i) + 1), s')"
    and "sets_rows a (rs[i := submitted_row now (rs ! i)]) s s'"
proof -
  let ?s' = "s\<lparr>milestones := update_where (milestone_at a k) (submitted_row now) (milestones s)\<rparr>"
  have rows: "milestone_rows b ?s' = (if b = a then rs[i := submitted_row now (rs ! i)] else milestone_rows b s)" for b
    using milestone_rows_update_at [of a s i k "submitted_row now" b] assms by simp
  have "getMilestone a k ?s' = Some (submitted_row now (rs ! i))"
    unfolding getMilestone_rows rows using assms find_key_updated [of rs i "submitted_row now (rs ! i)"] by simp
  then have "markSubmitted a k now s = (Inr (m_attempt_count (rs ! i) + 1), ?s')"
    unfolding markSubmitted_def submitted_row_def [symmetric, abs_def] by simp
  then show thesis using that rows by (auto simp: sets_rows_def)
qed

lemma applyGateOutcome_rejected:
  "rubric_column (getMilestone a k s \<noteq> None) lvl = Inl e \<Longrightarrow> applyGateOutcome a k pass sc lvl now s = (Inl e, s)"
  by (simp add: applyGateOutcome_def)

lemma applyGateOutcome_run:
  assumes "ladder rs" and "rs = milestone_rows a s" and "i < length rs" and "m_key (rs ! i) = k"
    and "in_work (m_status (rs ! i))" and "rubric_column True lvl = Inr level"
  obtains s' where "applyGateOutcome a k pass sc lvl now s = (Inr (), s')"
    and "sets_rows a (if pass then climb rs i (gated_row pass sc level now (rs ! i))
      else rs[i := gated_row pass sc level now (rs ! i)]) s s'"
proof -
  let ?g = "gated_row pass sc level now"
  let ?s1 = "s\<lparr>milestones := update_where (milestone_at a k) ?g (milestones s)\<rparr>"
  let ?p = "\<lambda>r. m_attempt_id r = a \<and> m_ordinal r = i + 1 \<and> m_status r = LOCKED"
  let ?s2 = "?s1\<lparr>milestones := update_where ?p (\<lambda>r. r\<lparr>m_status := OPEN\<rparr>) (milestones ?s1)\<rparr>"
  let ?rs1 = "rs[i := ?g (rs ! i)]"
  have rows1: "milestone_rows b ?s1 = (if b = a then ?rs1 else milestone_rows b s)" for b
    using milestone_rows_update_at [of a s i k ?g b] assms by simp
  have found: "getMilestone a k ?s1 = Some (?g (rs ! i))"
    unfolding getMilestone_rows rows1 using assms find_key_updated [of rs i "?g (rs ! i)"] by simp
  have found0: "getMilestone a k s = Some (rs ! i)" using assms getMilestone_ladder by blast
  have run: "applyGateOutcome a k pass sc lvl now s = (Inr (), if pass then ?s2 else ?s1)"
    unfolding applyGateOutcome_def gated_row_def [symmetric, abs_def]
    using found found0 assms by (auto simp: ladder_nth)
  have opens: "update_where ?p (\<lambda>r. r\<lparr>m_status := OPEN\<rparr>) ?rs1 = climb rs i (?g (rs ! i))" if pass
  proof -
    have locked: "m_status (rs ! Suc i) = LOCKED" if "Suc i < length rs"
      using stairs_active [of "map m_status rs"] that assms by (auto simp: ladder_def in_work_def)
    have "m_attempt_id (?rs1 ! j) = a" "m_ordinal (?rs1 ! j) = j" if "j < length rs" for j
      using that assms milestone_rows_attempt [of j a s] milestone_rows_attempt [of i a s]
      by (auto simp: nth_list_update ladder_nth)
    with locked show ?thesis
      by (intro nth_equalityI) (auto simp: climb_def Let_def update_where_def nth_list_update)
  qed
  have rows2: "milestone_rows b ?s2 = (if b = a then climb rs i (?g (rs ! i)) else milestone_rows b s)" if pass for b
    using milestone_rows_update [of ?p a "\<lambda>r. r\<lparr>m_status := OPEN\<rparr>" b ?s1] rows1 opens [OF that] by auto
  show thesis
    by (rule that [OF run]) (use rows1 rows2 in \<open>auto simp: sets_rows_def\<close>)
qed

subsection \<open>Seeding\<close>

definition seeded_row :: "string \<Rightarrow> seed_milestone_input \<Rightarrow> milestone_row" where
  "seeded_row a m = \<lparr>m_attempt_id = a, m_key = sd_milestoneKey m, m_status = sd_status m,
     m_ordinal = sd_ordinal m, m_submitted_at = None, m_gated_at = None, m_score = None,
     m_rubric_level = None, m_attempt_count = 0\<rparr>"

lemma seeded_row_sel [simp]:
  "m_attempt_id (seeded_row a m) = a" "m_key (seeded_row a m) = sd_milestoneKey m"
  "m_status (seeded_row a m) = sd_status m" "m_ordinal (seeded_row a m) = sd_ordinal m"
  "m_attempt_count (seeded_row a m) = 0"
  by (simp_all add: seeded_row_def)

lemma seeded_at: "milestone_at a (sd_milestoneKey m) (seeded_row a m)"
  by (simp add: milestone_at_def)

lemma insert_milestone_cases:
  "list_ex (milestone_at a (sd_milestoneKey m)) rows \<Longrightarrow> insert_milestone a rows m = rows"
  "\<not> list_ex (milestone_at a (sd_milestoneKey m)) rows \<Longrightarrow> insert_milestone a rows m = rows @ [seeded_row a m]"
  by (simp_all add: insert_milestone_def seeded_row_def)

lemma seed_fresh:
  assumes "distinct (map sd_milestoneKey ms)"
    and "\<And>m. m \<in> set ms \<Longrightarrow> \<not> list_ex (milestone_at a (sd_milestoneKey m)) rows"
  shows "foldl (insert_milestone a) rows ms = rows @ map (seeded_row a) ms"
  using assms
proof (induction ms arbitrary: rows)
  case (Cons m ms)
  have "foldl (insert_milestone a) (rows @ [seeded_row a m]) ms = (rows @ [seeded_row a m]) @ map (seeded_row a) ms"
    by (rule Cons.IH) (use Cons.prems in \<open>auto simp: milestone_at_def\<close>)
  with Cons.prems show ?case by (simp add: insert_milestone_cases)
qed simp

lemma seed_again:
  "(\<And>m. m \<in> set ms \<Longrightarrow> list_ex (milestone_at a (sd_milestoneKey m)) rows) \<Longrightarrow> foldl (insert_milestone a) rows ms = rows"
  by (induction ms) (auto simp: insert_milestone_cases)

lemma seed_grows: "\<exists>new. foldl (insert_milestone a) rows ms = rows @ new \<and> (\<forall>r \<in> set new. m_attempt_id r = a)"
proof (induction ms arbitrary: rows)
  case (Cons m ms)
  obtain new where "foldl (insert_milestone a) (insert_milestone a rows m) ms = insert_milestone a rows m @ new"
    "\<forall>r \<in> set new. m_attempt_id r = a" using Cons by blast
  then show ?case by (cases "list_ex (milestone_at a (sd_milestoneKey m)) rows") (auto simp: insert_milestone_cases)
qed simp

lemma seed_present:
  "m \<in> set ms \<Longrightarrow> list_ex (milestone_at a (sd_milestoneKey m)) (foldl (insert_milestone a) rows ms)"
proof (induction ms arbitrary: rows)
  case (Cons x ms)
  show ?case
  proof (cases "m = x")
    case True
    obtain new where "foldl (insert_milestone a) (insert_milestone a rows x) ms = insert_milestone a rows x @ new"
      using seed_grows by blast
    with True show ?thesis
      by (cases "list_ex (milestone_at a (sd_milestoneKey x)) rows") (auto simp: insert_milestone_cases seeded_at)
  qed (use Cons in auto)
qed simp

lemma seedMilestones_run:
  "seedMilestones a ms s = (Inr (), s\<lparr>milestones := foldl (insert_milestone a) (milestones s) ms\<rparr>)"
  by (simp add: seedMilestones_def)

lemma seed_other:
  "b \<noteq> a \<Longrightarrow> milestone_rows b (s\<lparr>milestones := foldl (insert_milestone a) (milestones s) ms\<rparr>) = milestone_rows b s"
proof -
  assume "b \<noteq> a"
  obtain new where new: "foldl (insert_milestone a) (milestones s) ms = milestones s @ new"
      "\<forall>r \<in> set new. m_attempt_id r = a" using seed_grows by blast
  then have "filter (\<lambda>r. m_attempt_id r = b) new = []" using \<open>b \<noteq> a\<close> by (auto simp: filter_empty_conv)
  with new show ?thesis by (simp add: milestone_rows_def)
qed

lemma seed_rows:
  assumes "distinct (map sd_milestoneKey ms)" and "milestone_rows a s = []"
  shows "milestone_rows a (s\<lparr>milestones := foldl (insert_milestone a) (milestones s) ms\<rparr>) = map (seeded_row a) ms"
proof -
  have "\<not> list_ex (milestone_at a k) (milestones s)" for k
    using assms(2) by (auto simp: milestone_rows_def filter_empty_conv list_ex_iff milestone_at_def)
  then have "foldl (insert_milestone a) (milestones s) ms = milestones s @ map (seeded_row a) ms"
    by (rule seed_fresh [OF assms(1)])
  moreover have "filter (\<lambda>r. m_attempt_id r = a) (map (seeded_row a) ms) = map (seeded_row a) ms"
    by (simp add: filter_id_conv)
  ultimately show ?thesis using assms(2) by (simp add: milestone_rows_def)
qed

end
