(* ===== verification/GitService.thy ===== *)
theory GitService
  imports ProjectRepository
begin

text \<open>
  The project side of the learner's Git repository, \<open>project/git.service.ts\<close>. The Forgejo server is a
  parameter: \<open>git_host\<close> answers its read requests, \<open>'h git_admin\<close> its administrative ones, which
  change the server's state \<open>'h\<close>. Every answer may be an error.
\<close>

section \<open>Model: names and references\<close>

definition toRepoRef :: "string \<Rightarrow> string \<Rightarrow> string" where
  "toRepoRef org repo = ''forgejo:'' @ org @ ''/'' @ repo"

text \<open>The regular expression \<open>/^forgejo:([^/]+)\/(.+)$/\<close>; the dot matches no line terminator.\<close>

definition parseRepoRef :: "string \<Rightarrow> exn + (string \<times> string)" where
  "parseRepoRef repoRef =
     (let rest = drop 8 repoRef;
          org = takeWhile (\<lambda>c. c \<noteq> CHR ''/'') rest;
          repo = drop 1 (dropWhile (\<lambda>c. c \<noteq> CHR ''/'') rest)
      in if take 8 repoRef = ''forgejo:'' \<and> org \<noteq> [] \<and> repo \<noteq> [] \<and> list_all (\<lambda>c. c \<noteq> CHR 0x0A \<and> c \<noteq> CHR 0x0D) repo
         then Inr (org, repo) else Inl (Err (''unrecognised repo_ref: '' @ repoRef)))"

text \<open>The characters the pattern \<open>[^a-z0-9._-]\<close> leaves alone.\<close>

definition slug_char :: "char \<Rightarrow> bool" where
  "slug_char c \<longleftrightarrow> 97 \<le> char_code c \<and> char_code c \<le> 122 \<or> 48 \<le> char_code c \<and> char_code c \<le> 57 \<or> c \<in> {CHR ''.'', CHR ''_'', CHR ''-''}"

function squeeze :: "string \<Rightarrow> string" where
  "squeeze [] = []"
| "squeeze (c # cs) = (if slug_char c then c # squeeze cs else CHR ''-'' # squeeze (dropWhile (\<lambda>d. \<not> slug_char d) cs))"
  by pat_completeness auto
termination by (relation "measure length") (auto simp: le_imp_less_Suc length_dropWhile_le)

definition trim_dashes :: "string \<Rightarrow> string" where
  "trim_dashes s = rev (dropWhile (\<lambda>c. c = CHR ''-'') (rev (dropWhile (\<lambda>c. c = CHR ''-'') s)))"

definition slug :: "string \<Rightarrow> string" where
  "slug s = trim_dashes (squeeze (map lower s))"

definition orgNameFor :: "string \<Rightarrow> string" where
  "orgNameFor username = take 40 (''learner-'' @ slug username)"

definition repoNameFor :: "string \<Rightarrow> string" where
  "repoNameFor projectSlug = take 100 (''proj-'' @ slug projectSlug)"

section \<open>Model: reading the repository\<close>

record git_commit =
  gc_sha :: string
  gc_message :: string

record git_host =
  gh_isConfigured :: bool
  gh_listCommits :: "string \<Rightarrow> string \<Rightarrow> nat option \<Rightarrow> string option \<Rightarrow> exn + git_commit list"
  gh_getFileContent :: "string \<Rightarrow> string \<Rightarrow> string \<Rightarrow> string option \<Rightarrow> exn + string"
  gh_getDiff :: "string \<Rightarrow> string \<Rightarrow> string \<Rightarrow> string \<Rightarrow> exn + string"

definition recordMilestoneSubmission ::
    "git_host \<Rightarrow> string \<Rightarrow> milestone_key \<Rightarrow> string \<Rightarrow> nat \<Rightarrow> string option \<Rightarrow> time \<Rightarrow> string prog" where
  "recordMilestoneSubmission git attemptId key repoRef attemptNumber commitSha now =
     (let given = (case commitSha of None \<Rightarrow> [] | Some c \<Rightarrow> c) in
      bnd (if given = [] \<and> gh_isConfigured git
           then try_catch (bnd (call (parseRepoRef repoRef)) (\<lambda>(org, repo).
                  bnd (call (gh_listCommits git org repo (Some 1) None)) (\<lambda>commits.
                  ret (case commits of [] \<Rightarrow> [] | c # _ \<Rightarrow> gc_sha c)))) (\<lambda>_. ret given)
           else ret given) (\<lambda>sha.
      andthen (recordSubmission attemptId key repoRef (Some sha) attemptNumber now) (ret sha)))"

definition listCommits :: "git_host \<Rightarrow> string \<Rightarrow> nat option \<Rightarrow> string option \<Rightarrow> git_commit list prog" where
  "listCommits git repoRef limit sha =
     (if \<not> gh_isConfigured git then ret []
      else bnd (call (parseRepoRef repoRef)) (\<lambda>(org, repo). call (gh_listCommits git org repo limit sha)))"

definition readFile :: "git_host \<Rightarrow> string \<Rightarrow> string \<Rightarrow> string option \<Rightarrow> string option prog" where
  "readFile git repoRef filePath ref =
     (if \<not> gh_isConfigured git then ret None
      else bnd (call (parseRepoRef repoRef)) (\<lambda>(org, repo).
        try_catch (bnd (call (gh_getFileContent git org repo filePath ref)) (\<lambda>x. ret (Some x))) (\<lambda>_. ret None)))"

definition diff :: "git_host \<Rightarrow> string \<Rightarrow> string \<Rightarrow> string \<Rightarrow> string option prog" where
  "diff git repoRef base head =
     (if \<not> gh_isConfigured git then ret None
      else bnd (call (parseRepoRef repoRef)) (\<lambda>(org, repo).
        try_catch (bnd (call (gh_getDiff git org repo base head)) (\<lambda>x. ret (Some x))) (\<lambda>_. ret None)))"

section \<open>Model: enrolment\<close>

record 'h git_admin =
  ga_isConfigured :: bool
  ga_ensureUser :: "string \<Rightarrow> string \<Rightarrow> ('h, exn, string) io"
  ga_ensureOrg :: "string \<Rightarrow> ('h, exn, unit) io"
  ga_ensureRepo :: "string \<Rightarrow> string \<Rightarrow> string \<Rightarrow> ('h, exn, unit) io"
  ga_getFileContent :: "string \<Rightarrow> string \<Rightarrow> string \<Rightarrow> ('h, exn, string) io"
  ga_putFile :: "string \<Rightarrow> string \<Rightarrow> string \<Rightarrow> string \<Rightarrow> ('h, exn, unit) io"
  ga_addRepoCollaborator :: "string \<Rightarrow> string \<Rightarrow> string \<Rightarrow> ('h, exn, unit) io"
  ga_createUserScopedToken :: "string \<Rightarrow> string \<Rightarrow> string \<Rightarrow> ('h, exn, string) io"
  ga_getRepo :: "string \<Rightarrow> string \<Rightarrow> ('h, exn, string \<times> string) io"
  ga_deleteRepo :: "string \<Rightarrow> string \<Rightarrow> ('h, exn, unit) io"

record enrol_result =
  en_enabled :: bool
  en_repoRef :: "string option"
  en_cloneUrl :: "string option"
  en_htmlUrl :: "string option"
  en_pushToken :: "string option"

definition seed_file :: "'h git_admin \<Rightarrow> string \<Rightarrow> string \<Rightarrow> string \<times> string \<Rightarrow> ('h, exn, unit) io" where
  "seed_file forgejo org repo f =
     bnd (try_catch (andthen (ga_getFileContent forgejo org repo (fst f)) (ret True)) (\<lambda>_. ret False)) (\<lambda>present.
     when_io (\<not> present) (ga_putFile forgejo org repo (fst f) (snd f)))"

definition enrolProject ::
    "'h git_admin \<Rightarrow> string \<Rightarrow> string \<Rightarrow> string \<Rightarrow> string \<Rightarrow> (string \<times> string) list \<Rightarrow> string \<Rightarrow> ('h, exn, enrol_result) io" where
  "enrolProject forgejo attemptId username email projectSlug requirements tokenName =
     (if \<not> ga_isConfigured forgejo
      then ret \<lparr>en_enabled = False, en_repoRef = None, en_cloneUrl = None, en_htmlUrl = None, en_pushToken = None\<rparr>
      else
        let org = orgNameFor username; repo = repoNameFor projectSlug in
        bnd (ga_ensureUser forgejo username email) (\<lambda>password.
        andthen (ga_ensureOrg forgejo org)
        (andthen (ga_ensureRepo forgejo org repo (''Project attempt '' @ attemptId @ '' - '' @ projectSlug))
        (andthen (for_each requirements (seed_file forgejo org repo))
        (andthen (ga_addRepoCollaborator forgejo org repo username)
        (bnd (ga_createUserScopedToken forgejo username password tokenName) (\<lambda>pushToken.
        bnd (ga_getRepo forgejo org repo) (\<lambda>(cloneUrl, htmlUrl).
        ret \<lparr>en_enabled = True, en_repoRef = Some (toRepoRef org repo), en_cloneUrl = Some cloneUrl,
             en_htmlUrl = Some htmlUrl, en_pushToken = Some pushToken\<rparr>))))))))"

definition deleteLearnerRepo :: "'h git_admin \<Rightarrow> string \<Rightarrow> ('h, exn, unit) io" where
  "deleteLearnerRepo forgejo repoRef =
     (if \<not> ga_isConfigured forgejo then ret ()
      else bnd (call (parseRepoRef repoRef)) (\<lambda>(org, repo). ga_deleteRepo forgejo org repo))"

section \<open>Names\<close>

lemma slug_char_squeeze: "c \<in> set (squeeze s) \<Longrightarrow> slug_char c"
  by (induction s rule: squeeze.induct) (auto simp: slug_char_def split: if_splits)

lemma slug_chars: "c \<in> set (slug s) \<Longrightarrow> slug_char c"
proof -
  have "set (trim_dashes x) \<subseteq> set x" for x
    unfolding trim_dashes_def by (auto dest!: set_dropWhileD)
  then show "c \<in> set (slug s) \<Longrightarrow> slug_char c"
    unfolding slug_def using slug_char_squeeze by blast
qed

lemma slug_char_plain: "slug_char c \<Longrightarrow> c \<noteq> CHR ''/'' \<and> c \<noteq> CHR 0x0A \<and> c \<noteq> CHR 0x0D"
  by (auto simp: slug_char_def char_code_def)

lemma name_chars:
  "c \<in> set (orgNameFor u) \<Longrightarrow> slug_char c" "c \<in> set (repoNameFor u) \<Longrightarrow> slug_char c"
proof -
  have ok: "list_all slug_char ''learner-''" "list_all slug_char ''proj-''"
    by (simp_all add: slug_char_def char_code_def)
  have "slug_char d" if "d \<in> set (p @ slug u)" "list_all slug_char p" for d p
    using that slug_chars by (auto simp: list_all_iff)
  with ok show "c \<in> set (orgNameFor u) \<Longrightarrow> slug_char c" "c \<in> set (repoNameFor u) \<Longrightarrow> slug_char c"
    unfolding orgNameFor_def repoNameFor_def by (meson in_set_takeD)+
qed

lemma parse_toRepoRef:
  assumes "org \<noteq> []" and "repo \<noteq> []" and "\<And>c. c \<in> set org \<Longrightarrow> c \<noteq> CHR ''/''"
    and "\<And>c. c \<in> set repo \<Longrightarrow> c \<noteq> CHR 0x0A \<and> c \<noteq> CHR 0x0D"
  shows "parseRepoRef (toRepoRef org repo) = Inr (org, repo)"
proof -
  have "takeWhile (\<lambda>c. c \<noteq> CHR ''/'') (org @ CHR ''/'' # repo) = org"
    "dropWhile (\<lambda>c. c \<noteq> CHR ''/'') (org @ CHR ''/'' # repo) = CHR ''/'' # repo"
    using assms(3) by (auto simp: takeWhile_append dropWhile_append)
  then show ?thesis using assms by (auto simp: parseRepoRef_def toRepoRef_def Let_def list_all_iff)
qed

section \<open>Properties\<close>

lemma names_nonempty: "orgNameFor u \<noteq> []" "repoNameFor p \<noteq> []"
  by (simp_all add: orgNameFor_def repoNameFor_def)

text \<open>Property. Repository references survive their round trip: whatever the learner is called and whatever
  the activity's slug is, the organisation and repository names derived from them hold only characters
  Forgejo allows and respect its length limits, and the reference written for them is parsed back to
  exactly these two names.\<close>

theorem repo_ref_roundtrip:
  "parseRepoRef (toRepoRef (orgNameFor u) (repoNameFor p)) = Inr (orgNameFor u, repoNameFor p) \<and>
   list_all slug_char (orgNameFor u) \<and> list_all slug_char (repoNameFor p) \<and>
   length (orgNameFor u) \<le> 40 \<and> length (repoNameFor p) \<le> 100"
proof (intro conjI)
  show "parseRepoRef (toRepoRef (orgNameFor u) (repoNameFor p)) = Inr (orgNameFor u, repoNameFor p)"
    by (rule parse_toRepoRef) (use names_nonempty name_chars slug_char_plain in blast)+
qed (simp_all add: list_all_iff name_chars, simp_all add: orgNameFor_def repoNameFor_def)

text \<open>The names are not injective: two learners whose names differ in punctuation share an organisation.\<close>

lemma orgNameFor_collision: "orgNameFor ''a b'' = orgNameFor ''a-b''"
  by (simp add: orgNameFor_def slug_def trim_dashes_def lower_def slug_char_def char_code_def)

end
