(* ===== verification/DefenceService.thy ===== *)
theory DefenceService
  imports Evaluation GitService
begin

text \<open>
  The defence viva, \<open>project/defence.service.ts\<close>: the examiner's questions are generated once, asked
  turn by turn as DEFENCE_MESSAGE events, and when they run out the transcript is graded. The queue of
  questions lives in the service's memory (\<open>df_state\<close>), everything else in the event log. The viva
  model, the Git host, the rubric files and the AI grader are parameters.

  The invariant \<open>turns_ok\<close> says that the turn number of a message is its position among the attempt's
  defence messages.
\<close>

section \<open>Model: state and messages\<close>

definition VIVA_RUBRIC_ID :: string where "VIVA_RUBRIC_ID = ''rub.reasoning.v1''"

definition DEFAULT_QUESTION_COUNT :: nat where "DEFAULT_QUESTION_COUNT = 7"

datatype viva_kind = Divergence | Reasoning

fun kind_str :: "viva_kind \<Rightarrow> string" where
  "kind_str Divergence = ''divergence''"
| "kind_str Reasoning = ''reasoning''"

record viva_question =
  vq_text :: string
  vq_groundedIn :: string
  vq_kind :: viva_kind

record viva_state =
  vv_questions :: "viva_question list"
  vv_asked :: nat
  vv_closed :: bool

text \<open>Design document, commits (sha and message), diff, number of questions.\<close>

type_synonym viva_model = "string \<Rightarrow> (string \<times> string) list \<Rightarrow> string option \<Rightarrow> nat \<Rightarrow> exn + viva_question list"

record defence =
  df_db :: db
  df_state :: "string \<Rightarrow> viva_state option"

type_synonym 'a dprog = "(defence, exn, 'a) io"

definition on_db :: "'a prog \<Rightarrow> 'a dprog" where
  "on_db m = (\<lambda>w. case m (df_db w) of (r, s) \<Rightarrow> (r, w\<lparr>df_db := s\<rparr>))"

record viva_score =
  vc_rubricId :: string
  vc_overallLevel :: gate_level
  vc_criterionLevels :: "(string \<times> int) list"
  vc_provisional :: bool
  vc_humanReviewRequired :: bool

record post_result =
  pr_turn :: nat
  pr_nextQuestion :: "string option"
  pr_closed :: bool
  pr_score :: "viva_score option"

definition defence_events :: "string \<Rightarrow> db \<Rightarrow> event_row list" where
  "defence_events attemptId s = filter (\<lambda>e. e_type e = EV_DEFENCE_MESSAGE) (replay attemptId s)"

definition nextTurn :: "string \<Rightarrow> db \<Rightarrow> nat" where
  "nextTurn attemptId s = length (defence_events attemptId s) + 1"

definition question_extra :: "viva_question \<Rightarrow> nat \<Rightarrow> (string \<times> json) list" where
  "question_extra q i = [(''grounded_in'', JStr (vq_groundedIn q)), (''kind'', JStr (kind_str (vq_kind q))), (''question_index'', JNum (real i))]"

definition turn_payload :: "string \<Rightarrow> nat \<Rightarrow> string \<Rightarrow> (string \<times> json) list \<Rightarrow> json" where
  "turn_payload role turn txt extra =
     JObj ([(''role'', JStr role), (''turn'', JNum (real turn)), (''text'', JStr txt)] @ extra)"

definition emitTurn :: "string \<Rightarrow> string \<Rightarrow> nat \<Rightarrow> string \<Rightarrow> (string \<times> json) list \<Rightarrow> time \<Rightarrow> unit prog" where
  "emitTurn attemptId role turn txt extra now =
     appendTypedEvent attemptId (if role = ''LEARNER'' then LEARNER else AI) EV_DEFENCE_MESSAGE (turn_payload role turn txt extra) now"

definition assertFinalReached :: "string \<Rightarrow> unit prog" where
  "assertFinalReached attemptId =
     bnd (query (getMilestone attemptId Final)) (\<lambda>finalMs.
     case finalMs of
       None \<Rightarrow> projectError ''DEFENCE_NOT_AVAILABLE'' ''the defence viva opens when the `final` milestone is reached''
     | Some r \<Rightarrow>
         if m_status r = LOCKED
         then projectError ''DEFENCE_NOT_AVAILABLE'' ''the defence viva opens when the `final` milestone is reached''
         else ret ())"

section \<open>Model: reading the transcript\<close>

definition score_level :: "json \<Rightarrow> real option" where
  "score_level p =
     (case (jget p ''kind'', jget p ''overall_level'') of
        (Some (JStr k), Some (JNum x)) \<Rightarrow> if k = ''score'' then Some x else None
      | _ \<Rightarrow> None)"

text \<open>The level of the latest score event, 1..4 scaled to [0,1]; \<open>None\<close> without one.\<close>

definition defenceComponentScore :: "string \<Rightarrow> db \<Rightarrow> real option" where
  "defenceComponentScore attemptId s =
     (case List.map_filter (\<lambda>e. score_level (e_payload e)) (rev (defence_events attemptId s)) of
        [] \<Rightarrow> None
      | x # _ \<Rightarrow> Some (clamp01 ((x - 1) / 3)))"

record transcript_entry =
  te_turn :: real
  te_role :: string
  te_text :: string

definition transcript_entry_of :: "json \<Rightarrow> transcript_entry option" where
  "transcript_entry_of p =
     (if jget p ''kind'' = Some (JStr ''score'') then None
      else case jget p ''text'' of
        Some (JStr txt) \<Rightarrow> Some \<lparr>te_turn = (case jget p ''turn'' of Some (JNum n) \<Rightarrow> n | _ \<Rightarrow> 0),
          te_role = (case jget p ''role'' of Some (JStr r) \<Rightarrow> r | _ \<Rightarrow> ''UNKNOWN''), te_text = txt\<rparr>
      | _ \<Rightarrow> None)"

definition transcript :: "string \<Rightarrow> db \<Rightarrow> transcript_entry list" where
  "transcript attemptId s = List.map_filter (\<lambda>e. transcript_entry_of (e_payload e)) (defence_events attemptId s)"

definition render_entry :: "transcript_entry \<Rightarrow> string" where
  "render_entry t = ''[turn '' @ show_nat (nat \<lfloor>te_turn t\<rfloor>) @ ''] '' @ te_role t @ '': '' @ te_text t"

definition first_line :: "string \<Rightarrow> string" where
  "first_line = takeWhile (\<lambda>c. c \<noteq> CHR 0x0A)"

section \<open>Model: the viva\<close>

definition learner_facts ::
    "git_host \<Rightarrow> string option \<Rightarrow> (string \<times> (string \<times> string) list \<times> string option) prog" where
  "learner_facts git repoRef =
     (case repoRef of
        None \<Rightarrow> ret ([], [], None)
      | Some ref \<Rightarrow>
          if \<not> gh_isConfigured git then ret ([], [], None)
          else
            bnd (readFile git ref ''DESIGN.md'' None) (\<lambda>d1.
            bnd (case d1 of Some d \<Rightarrow> ret d
                 | None \<Rightarrow> bnd (readFile git ref ''docs/design.md'' None) (\<lambda>d2. ret (case d2 of Some d \<Rightarrow> d | None \<Rightarrow> []))) (\<lambda>designDoc.
            bnd (listCommits git ref (Some 50) None) (\<lambda>cs.
            let commits = map (\<lambda>c. (gc_sha c, gc_message c)) cs in
            bnd (if length commits \<ge> 2 then diff git ref (fst (last commits)) (fst (hd commits)) else ret None) (\<lambda>df.
            ret (designDoc, commits, df))))))"

definition fallback_question :: viva_question where
  "fallback_question = \<lparr>vq_text = ''Walk me through the single most significant way your implementation diverged from your milestone-1 design, and why.'',
     vq_groundedIn = ''design'', vq_kind = Divergence\<rparr>"

definition set_viva :: "string \<Rightarrow> viva_state \<Rightarrow> unit dprog" where
  "set_viva attemptId st = modify (\<lambda>w. w\<lparr>df_state := (df_state w)(attemptId := Some st)\<rparr>)"

text \<open>Reading \<open>first.text\<close> of an empty question list is a \<open>TypeError\<close>, after the queue has been stored.\<close>

definition startViva :: "git_host \<Rightarrow> viva_model \<Rightarrow> string \<Rightarrow> time \<Rightarrow> (nat \<times> string \<times> nat) dprog" where
  "startViva git model attemptId now =
     andthen (on_db (assertFinalReached attemptId))
     (bnd (on_db (bnd (query (resolveRepoRef attemptId)) (learner_facts git))) (\<lambda>(designDoc, commits, df).
      bnd (try_catch (call (model designDoc commits df DEFAULT_QUESTION_COUNT)) (\<lambda>_. ret [fallback_question])) (\<lambda>questions.
      andthen (set_viva attemptId \<lparr>vv_questions = questions, vv_asked = 0, vv_closed = False\<rparr>)
      (bnd (on_db (query (nextTurn attemptId))) (\<lambda>turn.
       case questions of
         [] \<Rightarrow> throw (Err ''TypeError: Cannot read properties of undefined (reading text)'')
       | first # _ \<Rightarrow>
           andthen (on_db (emitTurn attemptId ''EXAMINER'' turn (vq_text first) (question_extra first 1) now))
           (andthen (modify (\<lambda>w. w\<lparr>df_state := (df_state w)(attemptId := map_option (\<lambda>st. st\<lparr>vv_asked := 1\<rparr>) (df_state w attemptId))\<rparr>))
           (ret (turn, vq_text first, length questions))))))))"

text \<open>\<open>criterionLevels[g.criterion] = g.level\<close> for each grade: a later grade of a criterion replaces an earlier.\<close>

fun set_level :: "(string \<times> int) list \<Rightarrow> string \<Rightarrow> int \<Rightarrow> (string \<times> int) list" where
  "set_level [] k l = [(k, l)]"
| "set_level ((k', l') # m) k l = (if k' = k then (k, l) # m else (k', l') # set_level m k l)"

definition criterion_levels :: "grading_result \<Rightarrow> (string \<times> int) list" where
  "criterion_levels result = foldl (\<lambda>m g. set_level m (cg_criterion g) (cg_level g)) [] (gr_criterionGrades result)"

definition overall_level :: "grading_result \<Rightarrow> gate_level" where
  "overall_level result =
     (case map_of (criterion_levels result) ''overall'' of
        Some l \<Rightarrow> Level l
      | None \<Rightarrow> if gr_criterionGrades result = [] then Unbounded
                 else Level (Min (set (map cg_level (gr_criterionGrades result)))))"

fun level_json :: "gate_level \<Rightarrow> json" where
  "level_json (Level n) = JNum (of_int n)"
| "level_json Unbounded = JNull"

definition score_payload :: "nat \<Rightarrow> viva_score \<Rightarrow> json" where
  "score_payload turn sc = JObj [(''role'', JStr ''SYSTEM''), (''turn'', JNum (real turn)), (''kind'', JStr ''score''),
     (''rubric_id'', JStr VIVA_RUBRIC_ID), (''overall_level'', level_json (vc_overallLevel sc)),
     (''criterion_levels'', JObj (map (\<lambda>(k, l). (k, JNum (of_int l))) (vc_criterionLevels sc))),
     (''provisional'', JBool (vc_provisional sc)), (''human_review_required'', JBool (vc_humanReviewRequired sc))]"

definition viva_score_of :: "json \<Rightarrow> grading_result \<Rightarrow> viva_score" where
  "viva_score_of rubric result =
     \<lparr>vc_rubricId = VIVA_RUBRIC_ID, vc_overallLevel = overall_level result, vc_criterionLevels = criterion_levels result,
      vc_provisional = gr_provisional result,
      vc_humanReviewRequired = (gr_provisional result \<or>
        jget rubric ''humanReviewPolicy'' = Some (JStr ''ALWAYS_PROVISIONAL_UNTIL_CALIBRATED''))\<rparr>"

definition scoreViva :: "git_host \<Rightarrow> rubrics \<Rightarrow> grader \<Rightarrow> string \<Rightarrow> time \<Rightarrow> viva_score prog" where
  "scoreViva git rb grade attemptId now =
     (case rb VIVA_RUBRIC_ID of
        None \<Rightarrow> throw (Err (''viva rubric '' @ VIVA_RUBRIC_ID @ '' not found''))
      | Some rubric \<Rightarrow>
          bnd (query (transcript attemptId)) (\<lambda>entries.
          bnd (query (resolveRepoRef attemptId)) (\<lambda>repoRef.
          bnd (case repoRef of
                 None \<Rightarrow> ret []
               | Some ref \<Rightarrow> if gh_isConfigured git
                   then bnd (listCommits git ref (Some 50) None)
                     (\<lambda>cs. ret (map (\<lambda>c. take 8 (gc_sha c) @ '' '' @ first_line (gc_message c)) cs))
                   else ret []) (\<lambda>commits.
          bnd (call (grade rubric \<lparr>gf_artifactText = join [CHR 0x0A] (map render_entry entries),
             gf_appliedFaultIds = [], gf_resolutionValidatorResults = [], gf_commandSequence = commits\<rparr>)) (\<lambda>result.
          let sc = viva_score_of rubric result in
          bnd (query (nextTurn attemptId)) (\<lambda>nxt.
          andthen (appendTypedEvent attemptId AI EV_DEFENCE_MESSAGE (score_payload (nxt - 1) sc) now) (ret sc)))))))"

definition postMessage ::
    "git_host \<Rightarrow> rubrics \<Rightarrow> grader \<Rightarrow> string \<Rightarrow> string \<Rightarrow> string \<Rightarrow> time \<Rightarrow> post_result dprog" where
  "postMessage git rb grade attemptId role txt now =
     (if list_all js_space txt then on_db (projectError ''EMPTY_DEFENCE_MESSAGE'' ''defence message text is required'')
      else
      andthen (on_db (assertFinalReached attemptId))
      (bnd (on_db (query (nextTurn attemptId))) (\<lambda>turn.
       andthen (on_db (emitTurn attemptId role turn txt [] now))
       (let recorded = \<lparr>pr_turn = turn, pr_nextQuestion = None, pr_closed = False, pr_score = None\<rparr> in
        if role \<noteq> ''LEARNER'' then ret recorded
        else bnd (query (\<lambda>w. df_state w attemptId)) (\<lambda>st.
          case st of
            None \<Rightarrow> ret recorded
          | Some v \<Rightarrow>
              if vv_closed v then ret recorded
              else if vv_asked v < length (vv_questions v) then
                (let nxt = vv_questions v ! vv_asked v in
                 andthen (set_viva attemptId (v\<lparr>vv_asked := vv_asked v + 1\<rparr>))
                 (bnd (on_db (query (nextTurn attemptId))) (\<lambda>qTurn.
                  andthen (on_db (emitTurn attemptId ''EXAMINER'' qTurn (vq_text nxt) (question_extra nxt (vv_asked v + 1)) now))
                  (ret (recorded\<lparr>pr_nextQuestion := Some (vq_text nxt)\<rparr>)))))
              else
                andthen (set_viva attemptId (v\<lparr>vv_closed := True\<rparr>))
                (bnd (on_db (scoreViva git rb grade attemptId now)) (\<lambda>sc.
                 ret (recorded\<lparr>pr_closed := True, pr_score := Some sc\<rparr>))))))))"

section \<open>Turns\<close>

lemma on_db_run: "m (df_db w) = (r, s) \<Longrightarrow> on_db m w = (r, w\<lparr>df_db := s\<rparr>)"
  by (simp add: on_db_def)

lemma defence_events_append:
  assumes "log_ok s"
  shows "defence_events a (s\<lparr>events := events s @ [new_event b actor ty p t s]\<rparr>) =
    defence_events a s @ (if b = a \<and> ty = EV_DEFENCE_MESSAGE then [new_event b actor ty p t s] else [])"
  using assms log_ok_append [OF assms, of b actor ty p t] by (auto simp: defence_events_def log_ok_replay)

definition turns_ok :: "string \<Rightarrow> db \<Rightarrow> bool" where
  "turns_ok a s \<longleftrightarrow> log_ok s \<and> (\<forall>i < length (defence_events a s).
     let p = e_payload (defence_events a s ! i) in
     jget p ''kind'' \<noteq> Some (JStr ''score'') \<longrightarrow> jget p ''turn'' = Some (JNum (real (i + 1))))"

lemma turns_ok_message:
  assumes "turns_ok a s" and "jget p ''kind'' \<noteq> Some (JStr ''score'') \<Longrightarrow> jget p ''turn'' = Some (JNum (real (nextTurn a s)))"
  shows "turns_ok a (s\<lparr>events := events s @ [new_event a actor EV_DEFENCE_MESSAGE p t s]\<rparr>)"
  using assms log_ok_append [of s a actor EV_DEFENCE_MESSAGE p t]
  by (auto simp: turns_ok_def defence_events_append Let_def nth_append nextTurn_def less_Suc_eq)

lemma turn_payload_get:
  "jget (turn_payload role n txt []) ''turn'' = Some (JNum (real n))"
  "jget (turn_payload role n txt (question_extra q i)) ''turn'' = Some (JNum (real n))"
  by (simp_all add: turn_payload_def)

text \<open>Emitting a message with the number \<open>nextTurn\<close> gives, as one statement.\<close>

lemma turns_ok_emit:
  assumes "turns_ok a s" and "extra = [] \<or> (\<exists>q i. extra = question_extra q i)"
  shows "\<exists>s'. emitTurn a role (nextTurn a s) txt extra now s = (Inr (), s') \<and> turns_ok a s' \<and>
    defence_events a s' = defence_events a s @ [new_event a (if role = ''LEARNER'' then LEARNER else AI) EV_DEFENCE_MESSAGE
      (turn_payload role (nextTurn a s) txt extra) now s] \<and> milestones s' = milestones s \<and> submissions s' = submissions s"
proof -
  have "jget (turn_payload role (nextTurn a s) txt extra) ''turn'' = Some (JNum (real (nextTurn a s)))"
    using assms(2) turn_payload_get by blast
  with turns_ok_message [OF assms(1)] assms(1) show ?thesis
    by (auto simp: emitTurn_def defence_events_append turns_ok_def)
qed

lemma assertFinal_reads: "assertFinalReached a s = (r, s') \<Longrightarrow> s' = s"
  by (auto simp: assertFinalReached_def projectError_def split: option.splits if_splits)

lemma learner_facts_reads: "learner_facts git ref s = (r, s') \<Longrightarrow> s' = s"
  by (auto simp: learner_facts_def readFile_def listCommits_def diff_def Let_def try_catch_def bnd_run
      split: option.splits if_splits sum.splits prod.splits)

subsection \<open>Every operation numbers its turns\<close>

lemma preserves_on_db [keeps]: "preserves I m \<Longrightarrow> preserves (\<lambda>w :: defence. I (df_db w)) (on_db m)"
  by (auto simp: preserves_def on_db_def split: prod.splits)

lemma preserves_set_viva [keeps]: "preserves (\<lambda>w :: defence. I (df_db w)) (set_viva a st)"
  by (simp add: preserves_def set_viva_def)

lemma preserves_state_modify: "preserves (\<lambda>w :: defence. I (df_db w)) (modify (\<lambda>w. w\<lparr>df_state := f w\<rparr>))"
  by (simp add: preserves_def)

lemma reads_preserve: "(\<And>s r s'. m s = (r, s') \<Longrightarrow> s' = s) \<Longrightarrow> preserves I m"
  by (metis preserves_def surjective_pairing)

lemma turns_emit_block:
  assumes "extra = [] \<or> (\<exists>q i. extra = question_extra q i)"
    and "\<And>turn. preserves (\<lambda>w :: defence. turns_ok a (df_db w)) (k turn)"
  shows "preserves (\<lambda>w :: defence. turns_ok a (df_db w)) (bnd (on_db (query (nextTurn a))) (\<lambda>turn.
    andthen (on_db (emitTurn a role turn txt extra now)) (k turn)))"
proof (rule preservesI)
  fix w :: defence assume w: "turns_ok a (df_db w)"
  obtain s' where s': "emitTurn a role (nextTurn a (df_db w)) txt extra now (df_db w) = (Inr (), s')" "turns_ok a s'"
    using turns_ok_emit [OF w assms(1)] by blast
  have "bnd (on_db (query (nextTurn a))) (\<lambda>turn. andthen (on_db (emitTurn a role turn txt extra now)) (k turn)) w =
      k (nextTurn a (df_db w)) (w\<lparr>df_db := s'\<rparr>)"
    using s'(1) by (simp add: on_db_def andthen_def bnd_run)
  with assms(2) s'(2) show "turns_ok a (df_db (snd (bnd (on_db (query (nextTurn a))) (\<lambda>turn.
      andthen (on_db (emitTurn a role turn txt extra now)) (k turn)) w)))"
    by (simp add: preserves_def)
qed

lemma scoreViva_turns: "preserves (turns_ok a) (scoreViva git rb gr a now)"
proof -
  have "preserves (turns_ok a) (appendTypedEvent a AI EV_DEFENCE_MESSAGE (score_payload n sc) now)" for n sc
    by (rule preservesI) (simp, rule turns_ok_message, simp_all add: score_payload_def)
  then show ?thesis unfolding scoreViva_def listCommits_def Let_def
    by (intro keeps) (auto intro: keeps split: prod.split)
qed

lemma postMessage_turns: "preserves (\<lambda>w :: defence. turns_ok a (df_db w)) (postMessage git rb gr a role txt now)"
  unfolding postMessage_def Let_def projectError_def
  by (intro preserves_if preserves_on_db preserves_throw preserves_andthen preserves_bnd preserves_ret turns_emit_block
      preserves_query preserves_case_option preserves_set_viva scoreViva_turns reads_preserve [OF assertFinal_reads])
    (auto intro: exI)

lemma startViva_turns: "preserves (\<lambda>w :: defence. turns_ok a (df_db w)) (startViva git model a now)"
proof -
  have facts: "preserves (turns_ok a) (bnd (query (resolveRepoRef a)) (learner_facts git))"
    by (intro keeps reads_preserve [OF learner_facts_reads])
  have ask: "preserves (\<lambda>w :: defence. turns_ok a (df_db w)) (bnd (on_db (query (nextTurn a))) (\<lambda>turn.
       case qs of [] \<Rightarrow> throw (Err ''TypeError: Cannot read properties of undefined (reading text)'')
       | first # _ \<Rightarrow>
           andthen (on_db (emitTurn a ''EXAMINER'' turn (vq_text first) (question_extra first 1) now))
           (andthen (modify (\<lambda>w. w\<lparr>df_state := (df_state w)(a := map_option (\<lambda>st. st\<lparr>vv_asked := 1\<rparr>) (df_state w a))\<rparr>))
           (ret (turn, vq_text first, length qs)))))" for qs
  proof (cases qs)
    case (Cons q qs')
    then show ?thesis by (simp, intro turns_emit_block preserves_andthen preserves_state_modify preserves_ret) blast
  qed (auto intro: keeps)
  show ?thesis unfolding startViva_def split_def
    by (intro preserves_andthen preserves_bnd preserves_on_db preserves_set_viva facts ask preserves_try_catch
        preserves_call preserves_ret reads_preserve [OF assertFinal_reads])
qed

section \<open>The course of a viva\<close>

definition final_reached :: "string \<Rightarrow> db \<Rightarrow> bool" where
  "final_reached a s \<longleftrightarrow> (\<exists>r. getMilestone a Final s = Some r \<and> m_status r \<noteq> LOCKED)"

lemma assertFinal_ok: "final_reached a s \<Longrightarrow> assertFinalReached a s = (Inr (), s)"
  by (auto simp: final_reached_def assertFinalReached_def)

lemma final_reached_cong: "milestones s' = milestones s \<Longrightarrow> final_reached a s' = final_reached a s"
  by (simp add: final_reached_def getMilestone_def)

lemma entry_of_turn:
  "transcript_entry_of (turn_payload role n txt []) = Some \<lparr>te_turn = real n, te_role = role, te_text = txt\<rparr>"
  "transcript_entry_of (turn_payload role n txt (question_extra q i)) = Some \<lparr>te_turn = real n, te_role = role, te_text = txt\<rparr>"
  by (cases "vq_kind q"; simp add: transcript_entry_of_def turn_payload_def question_extra_def)+

lemma transcript_snoc:
  "defence_events a s' = defence_events a s @ [e] \<Longrightarrow> transcript_entry_of (e_payload e) = Some te \<Longrightarrow>
   transcript a s' = transcript a s @ [te]"
  by (simp add: transcript_def map_filter_def)

text \<open>One answer of the learner while questions are left: it is recorded and the next question asked.\<close>

lemma post_asks:
  fixes w :: defence
  assumes "turns_ok a (df_db w)" and "final_reached a (df_db w)" and "\<not> list_all js_space txt"
    and "df_state w a = Some v" and "\<not> vv_closed v" and "vv_asked v < length (vv_questions v)"
  obtains w' where "postMessage git rb gr a ''LEARNER'' txt now w =
      (Inr \<lparr>pr_turn = nextTurn a (df_db w), pr_nextQuestion = Some (vq_text (vv_questions v ! vv_asked v)), pr_closed = False, pr_score = None\<rparr>, w')"
    and "df_state w' a = Some (v\<lparr>vv_asked := vv_asked v + 1\<rparr>)" and "turns_ok a (df_db w')" and "final_reached a (df_db w')"
    and "map te_text (transcript a (df_db w')) = map te_text (transcript a (df_db w)) @ [txt, vq_text (vv_questions v ! vv_asked v)]"
proof -
  let ?q = "vv_questions v ! vv_asked v" and ?s = "df_db w"
  obtain s1 where s1: "emitTurn a ''LEARNER'' (nextTurn a ?s) txt [] now ?s = (Inr (), s1)" "turns_ok a s1"
      "defence_events a s1 = defence_events a ?s @ [new_event a LEARNER EV_DEFENCE_MESSAGE (turn_payload ''LEARNER'' (nextTurn a ?s) txt []) now ?s]"
      "milestones s1 = milestones ?s"
    using turns_ok_emit [OF assms(1), of "[]" "''LEARNER''" "txt" now] by auto
  obtain s2 where s2: "emitTurn a ''EXAMINER'' (nextTurn a s1) (vq_text ?q) (question_extra ?q (vv_asked v + 1)) now s1 = (Inr (), s2)" "turns_ok a s2"
      "defence_events a s2 = defence_events a s1 @ [new_event a AI EV_DEFENCE_MESSAGE
        (turn_payload ''EXAMINER'' (nextTurn a s1) (vq_text ?q) (question_extra ?q (vv_asked v + 1))) now s1]"
      "milestones s2 = milestones s1"
    using turns_ok_emit [OF s1(2), of "question_extra ?q (vv_asked v + 1)" "''EXAMINER''" "vq_text ?q" now] by auto
  define w' where "w' = w\<lparr>df_state := (df_state w)(a := Some (v\<lparr>vv_asked := vv_asked v + 1\<rparr>)), df_db := s2\<rparr>"
  have run: "postMessage git rb gr a ''LEARNER'' txt now w =
      (Inr \<lparr>pr_turn = nextTurn a ?s, pr_nextQuestion = Some (vq_text ?q), pr_closed = False, pr_score = None\<rparr>, w')"
    using assms s1(1) s2(1) assertFinal_ok [OF assms(2)]
    by (simp add: postMessage_def on_db_def andthen_def bnd_run set_viva_def Let_def w'_def)
  have "map te_text (transcript a s2) = map te_text (transcript a ?s) @ [txt, vq_text ?q]"
    using transcript_snoc [OF s1(3)] transcript_snoc [OF s2(3)] by (simp add: entry_of_turn)
  then show thesis
    by (intro that [OF run])
      (use s1 s2 assms(2) final_reached_cong [of s1 ?s] final_reached_cong [of s2 s1] in \<open>simp_all add: w'_def\<close>)
qed

text \<open>Property. A viva asks its questions in order, one per answer: from any point of an open viva, as many
  learner answers as there are questions left to ask are each answered with the next question, the viva
  stays open, and the transcript grows by answer and question alternately with consecutive turn numbers.\<close>

theorem viva_asks_in_order:
  fixes w :: defence
  assumes "turns_ok a (df_db w)" and "final_reached a (df_db w)" and "df_state w a = Some v" and "\<not> vv_closed v"
    and "\<forall>txt \<in> set txts. \<not> list_all js_space txt" and "vv_asked v + length txts \<le> length (vv_questions v)"
  shows "\<exists>rs w'. map_io (\<lambda>txt. postMessage git rb gr a ''LEARNER'' txt now) txts w = (Inr rs, w') \<and>
    map pr_nextQuestion rs = map (\<lambda>q. Some (vq_text q)) (take (length txts) (drop (vv_asked v) (vv_questions v))) \<and>
    (\<forall>r \<in> set rs. \<not> pr_closed r) \<and> df_state w' a = Some (v\<lparr>vv_asked := vv_asked v + length txts\<rparr>) \<and>
    turns_ok a (df_db w') \<and> map te_text (transcript a (df_db w')) = map te_text (transcript a (df_db w)) @
      concat (map (\<lambda>(txt, q). [txt, vq_text q]) (zip txts (drop (vv_asked v) (vv_questions v))))"
  using assms
proof (induction txts arbitrary: w v)
  case Nil
  then show ?case by auto
next
  case (Cons x txts)
  let ?q = "vv_questions v ! vv_asked v"
  have lt: "vv_asked v < length (vv_questions v)" using Cons.prems(6) by simp
  obtain w1 where w1: "postMessage git rb gr a ''LEARNER'' x now w =
      (Inr \<lparr>pr_turn = nextTurn a (df_db w), pr_nextQuestion = Some (vq_text ?q), pr_closed = False, pr_score = None\<rparr>, w1)"
      "df_state w1 a = Some (v\<lparr>vv_asked := vv_asked v + 1\<rparr>)" "turns_ok a (df_db w1)" "final_reached a (df_db w1)"
      "map te_text (transcript a (df_db w1)) = map te_text (transcript a (df_db w)) @ [x, vq_text ?q]"
    by (rule post_asks [OF Cons.prems(1,2) _ Cons.prems(3,4) lt, of x git rb gr now]) (use Cons.prems(5) in auto)
  have drop: "drop (vv_asked v) (vv_questions v) = ?q # drop (Suc (vv_asked v)) (vv_questions v)"
    using lt by (simp add: Cons_nth_drop_Suc)
  obtain rs w' where "map_io (\<lambda>txt. postMessage git rb gr a ''LEARNER'' txt now) txts w1 = (Inr rs, w')"
      "map pr_nextQuestion rs = map (\<lambda>q. Some (vq_text q)) (take (length txts) (drop (Suc (vv_asked v)) (vv_questions v)))"
      "\<forall>r \<in> set rs. \<not> pr_closed r" "df_state w' a = Some (v\<lparr>vv_asked := vv_asked v + 1 + length txts\<rparr>)" "turns_ok a (df_db w')"
      "map te_text (transcript a (df_db w')) = map te_text (transcript a (df_db w1)) @
        concat (map (\<lambda>(txt, q). [txt, vq_text q]) (zip txts (drop (Suc (vv_asked v)) (vv_questions v))))"
    using Cons.IH [OF w1(3,4,2)] Cons.prems(4-6) by auto
  with w1 drop show ?case by simp
qed

lemma scoreViva_writes:
  "scoreViva git rb gr a now s = (Inr sc, s') \<Longrightarrow>
   s' = s\<lparr>events := events s @ [new_event a AI EV_DEFENCE_MESSAGE (score_payload (nextTurn a s - 1) sc) now s]\<rparr>"
  by (auto simp: scoreViva_def listCommits_def Let_def bnd_run split: option.splits if_splits sum.splits prod.splits)

lemma score_payload_get:
  "jget (score_payload n sc) ''kind'' = Some (JStr ''score'')"
  "vc_overallLevel sc = Level l \<Longrightarrow> score_level (score_payload n sc) = Some (real_of_int l)"
  "transcript_entry_of (score_payload n sc) = None"
  by (simp_all add: score_payload_def score_level_def transcript_entry_of_def)

lemma scored:
  assumes "log_ok s" and "scoreViva git rb gr a now s = (Inr sc, s')" and "vc_overallLevel sc = Level l"
  shows "defenceComponentScore a s' = Some (clamp01 ((real_of_int l - 1) / 3))" "transcript a s' = transcript a s"
  using scoreViva_writes [OF assms(2)] assms(1,3)
  by (simp_all add: defenceComponentScore_def transcript_def defence_events_append map_filter_def score_payload_get)

text \<open>Property. The last answer closes the viva: once every question has been asked, the next learner message
  is recorded, the viva is closed whether or not the grading succeeds, and when it succeeds the level
  returned is the one the project roll-up reads afterwards, scaled from 1..4 to [0,1].\<close>

theorem viva_closes_with_score:
  fixes w :: defence
  assumes "turns_ok a (df_db w)" and "final_reached a (df_db w)" and "\<not> list_all js_space txt"
    and "df_state w a = Some v" and "\<not> vv_closed v" and "vv_asked v \<ge> length (vv_questions v)"
    and "postMessage git rb gr a ''LEARNER'' txt now w = (res, w')"
  shows "df_state w' a = Some (v\<lparr>vv_closed := True\<rparr>) \<and>
    map te_text (transcript a (df_db w')) = map te_text (transcript a (df_db w)) @ [txt] \<and>
    (\<forall>r. res = Inr r \<longrightarrow> pr_closed r \<and> pr_nextQuestion r = None \<and>
      (\<exists>sc. pr_score r = Some sc \<and> (\<forall>l. vc_overallLevel sc = Level l \<longrightarrow>
         defenceComponentScore a (df_db w') = Some (clamp01 ((real_of_int l - 1) / 3)))))"
proof -
  let ?s = "df_db w"
  obtain s1 where s1: "emitTurn a ''LEARNER'' (nextTurn a ?s) txt [] now ?s = (Inr (), s1)" "turns_ok a s1"
      "defence_events a s1 = defence_events a ?s @ [new_event a LEARNER EV_DEFENCE_MESSAGE (turn_payload ''LEARNER'' (nextTurn a ?s) txt []) now ?s]"
    using turns_ok_emit [OF assms(1), of "[]" "''LEARNER''" "txt" now] by auto
  have text1: "map te_text (transcript a s1) = map te_text (transcript a ?s) @ [txt]"
    using transcript_snoc [OF s1(3)] by (simp add: entry_of_turn)
  obtain sr s2 where score: "scoreViva git rb gr a now s1 = (sr, s2)" by fastforce
  let ?r = "\<lambda>sc. \<lparr>pr_turn = nextTurn a ?s, pr_nextQuestion = None, pr_closed = True, pr_score = Some sc\<rparr>"
  have run: "postMessage git rb gr a ''LEARNER'' txt now w =
      ((case sr of Inl e \<Rightarrow> Inl e | Inr sc \<Rightarrow> Inr (?r sc)),
       w\<lparr>df_state := (df_state w)(a := Some (v\<lparr>vv_closed := True\<rparr>)), df_db := s2\<rparr>)"
    using assms(2-6) s1(1) score assertFinal_ok [OF assms(2)]
    by (cases sr) (simp_all add: postMessage_def on_db_def andthen_def bnd_run set_viva_def Let_def)
  have text2: "transcript a s2 = transcript a s1"
  proof (cases sr)
    case (Inl e)
    have "s2 = s1" using score Inl
      by (auto simp: scoreViva_def listCommits_def Let_def bnd_run split: option.splits if_splits sum.splits prod.splits)
    then show ?thesis by simp
  next
    case (Inr sc)
    with scoreViva_writes [of git rb gr a now s1 sc s2] score s1(2) show ?thesis
      by (simp add: turns_ok_def transcript_def defence_events_append map_filter_def score_payload_get)
  qed
  from scored(1) [of s1 git rb gr a now] score s1(2) run assms(7) text1 text2 show ?thesis
    by (cases sr) (auto simp: turns_ok_def)
qed

text \<open>Property. The turns of a viva are numbered by position: every message of the transcript carries the
  number of its place among the attempt's defence messages, and starting a viva or posting to it,
  successfully or not, keeps it so.\<close>

theorem viva_turns_numbered:
  fixes w :: defence
  assumes "turns_ok a (df_db w)"
  shows "turns_ok a (df_db (snd (startViva git model a now w))) \<and>
    turns_ok a (df_db (snd (postMessage git rb gr a role txt now w)))"
  using startViva_turns [of a git model now] postMessage_turns [of a git rb gr role "txt" now] assms
  by (simp add: preserves_def)

section \<open>Witnesses\<close>

definition demo_viva_question :: viva_question where
  "demo_viva_question = \<lparr>vq_text = ''Why?'', vq_groundedIn = ''design'', vq_kind = Reasoning\<rparr>"

definition demo_viva :: "nat \<Rightarrow> defence" where
  "demo_viva n = \<lparr>df_db = empty_db\<lparr>milestones := [seeded_row ''a'' \<lparr>sd_milestoneKey = Final, sd_ordinal = 0, sd_status = OPEN\<rparr>]\<rparr>,
     df_state = (\<lambda>_. Some \<lparr>vv_questions = [demo_viva_question, demo_viva_question], vv_asked = n, vv_closed = False\<rparr>)\<rparr>"

definition demo_git :: git_host where
  "demo_git = \<lparr>gh_isConfigured = False, gh_listCommits = (\<lambda>_ _ _ _. Inl (RemoteErr ''off'')),
     gh_getFileContent = (\<lambda>_ _ _ _. Inl (RemoteErr ''off'')), gh_getDiff = (\<lambda>_ _ _ _. Inl (RemoteErr ''off''))\<rparr>"

lemma demo_viva_ok: "turns_ok ''a'' (df_db (demo_viva n))" "final_reached ''a'' (df_db (demo_viva n))"
  "df_state (demo_viva n) ''a'' = Some \<lparr>vv_questions = [demo_viva_question, demo_viva_question], vv_asked = n, vv_closed = False\<rparr>"
  by (simp_all add: demo_viva_def turns_ok_def log_ok_def of_attempt_def defence_events_def replay_def final_reached_def
      getMilestone_def milestone_at_def empty_db_def)

lemma demo_text: "\<not> list_all js_space ''yes''"
  by (simp add: js_space_def char_code_def)

theorem viva_asks_in_order_witness:
  "\<exists>rs w'. map_io (\<lambda>txt. postMessage demo_git (\<lambda>_. None) (\<lambda>_ _. Inl (RemoteErr ''down'')) ''a'' ''LEARNER'' txt 5) [''yes''] (demo_viva 1)
     = (Inr rs, w') \<and> map pr_nextQuestion rs = [Some ''Why?'']"
  using viva_asks_in_order [OF demo_viva_ok [of 1], of "[''yes'']" demo_git "\<lambda>_. None" "\<lambda>_ _. Inl (RemoteErr ''down'')" 5] demo_text
  by (auto simp: demo_viva_question_def)

theorem viva_closes_with_score_witness:
  "\<exists>v. df_state (snd (postMessage demo_git (\<lambda>_. None) (\<lambda>_ _. Inl (RemoteErr ''down'')) ''a'' ''LEARNER'' ''yes'' 5 (demo_viva 2))) ''a''
     = Some v \<and> vv_closed v"
proof -
  obtain res w' where run: "postMessage demo_git (\<lambda>_. None) (\<lambda>_ _. Inl (RemoteErr ''down'')) ''a'' ''LEARNER'' ''yes'' 5 (demo_viva 2) = (res, w')"
    by fastforce
  from viva_closes_with_score [OF demo_viva_ok(1,2) demo_text demo_viva_ok(3) _ _ run] run show ?thesis by simp
qed

theorem viva_turns_numbered_witness:
  "turns_ok ''a'' (df_db (snd (startViva demo_git (\<lambda>_ _ _ _. Inr [demo_viva_question]) ''a'' 5 (demo_viva 0))))"
  using viva_turns_numbered [OF demo_viva_ok(1)] by blast

end
