(* ===== verification/ProjectService.thy ===== *)
theory ProjectService
  imports DefenceService
begin

text \<open>
  The milestone state machine of project mode, \<open>project/project.service.ts\<close>, with the score of the
  defence viva it reads (\<open>defence.service.ts\<close>, \<open>defenceComponentScore\<close>). The validator executor, the
  rubric files, the AI grader, the Git host and the project orchestrator are parameters whose every
  answer may be an error; \<open>now\<close> and the id of the validation run are arguments.

  A milestone goes OPEN, SUBMITTED, then GATED_PASS or GATED_FAIL; a pass opens the next one. The
  abstract machine \<open>project\<close> has two fields, how many milestones are passed and the phase of the one
  being worked on; \<open>submitMilestone\<close> refines it.
\<close>

section \<open>Model: specifications\<close>

definition MILESTONE_SEQUENCE :: "milestone_key list" where
  "MILESTONE_SEQUENCE = [Design, Infra, Implementation, Hardening, Final]"

record milestone_plan =
  mp_key :: milestone_key
  mp_title :: string
  mp_gate :: milestone_gate
  mp_blocking :: bool
  mp_environmentRequired :: bool
  mp_taskKeys :: "string list"
  mp_rubric :: "string option"
  mp_minLevel :: "int option"

record milestone_view =
  mv_key :: milestone_key
  mv_title :: string
  mv_status :: milestone_status
  mv_ordinal :: nat
  mv_gate :: milestone_gate
  mv_blocking :: bool
  mv_environmentRequired :: bool
  mv_score :: "real option"
  mv_rubricLevel :: "int option"
  mv_attemptCount :: nat
  mv_submittedAt :: "time option"
  mv_gatedAt :: "time option"

record submit_milestone_result =
  sr_milestoneKey :: milestone_key
  sr_gatedPass :: bool
  sr_score :: real
  sr_rubricLevel :: "gate_level option"
  sr_provisional :: bool
  sr_nextMilestoneOpened :: "milestone_key option"
  sr_validatorSummary :: "(string \<times> bool) list"

text \<open>\<open>key[0].toUpperCase() + key.slice(1)\<close>.\<close>

definition capitalised :: "string \<Rightarrow> string" where
  "capitalised k = (case k of [] \<Rightarrow> [] | c # cs \<Rightarrow>
     (if 97 \<le> char_code c \<and> char_code c \<le> 122 then char_of (char_code c - 32) else c) # cs)"

definition default_plan :: "milestone_key \<Rightarrow> milestone_plan" where
  "default_plan key = \<lparr>mp_key = key, mp_title = capitalised (milestone_str key),
     mp_gate = (if key = Design then RUBRIC_MIN_LEVEL else ALL_VALIDATORS_PASS), mp_blocking = True,
     mp_environmentRequired = (key \<noteq> Design), mp_taskKeys = [],
     mp_rubric = (if key = Design then Some ''rub.architecture.v3'' else None),
     mp_minLevel = (if key = Design then Some 3 else None)\<rparr>"

definition plan_of_spec :: "milestone_spec \<Rightarrow> milestone_plan" where
  "plan_of_spec m = \<lparr>mp_key = ms_key m, mp_title = ms_title m, mp_gate = ms_gate m,
     mp_blocking = (case ms_blocking m of None \<Rightarrow> True | Some b \<Rightarrow> b),
     mp_environmentRequired = ms_environment_required m,
     mp_taskKeys = (case ms_task_keys m of None \<Rightarrow> [] | Some ks \<Rightarrow> ks),
     mp_rubric = ms_rubric m, mp_minLevel = ms_min_level m\<rparr>"

definition plans_of_spec :: "activity_spec \<Rightarrow> milestone_plan list" where
  "plans_of_spec spec =
     (let ms = (case as_milestones spec of None \<Rightarrow> [] | Some xs \<Rightarrow> xs)
      in if ms = [] then map default_plan MILESTONE_SEQUENCE else map plan_of_spec ms)"

text \<open>The join of an attempt with its activity version, with the attempt's mode.\<close>

definition project_version :: "string \<Rightarrow> db \<Rightarrow> (activity_spec \<times> string) option" where
  "project_version attemptId s =
     (case findById attemptId s of
        None \<Rightarrow> None
      | Some a \<Rightarrow> map_option (\<lambda>v. (v_spec v, a_mode a)) (find_row (\<lambda>v. v_id v = a_activity_version_id a) (versions s)))"

definition loadMilestoneSpecs :: "string \<Rightarrow> milestone_plan list prog" where
  "loadMilestoneSpecs attemptId =
     bnd (query (project_version attemptId)) (\<lambda>version.
     case version of
       None \<Rightarrow> projectError ''ATTEMPT_NOT_FOUND'' (''attempt '' @ attemptId @ '' not found'')
     | Some (spec, mode) \<Rightarrow>
         if mode \<noteq> ''PROJECT''
         then projectError ''NOT_A_PROJECT'' (''attempt '' @ attemptId @ '' is mode '' @ mode @ '', not PROJECT'')
         else ret (plans_of_spec spec))"

section \<open>Model: seeding and listing\<close>

text \<open>\<open>new Map(specs.map(s => [s.key, s]))\<close>: of several with one key the last is kept.\<close>

definition spec_by_key :: "milestone_plan list \<Rightarrow> milestone_key \<Rightarrow> milestone_plan option" where
  "spec_by_key specs = map_of (rev (map (\<lambda>p. (mp_key p, p)) specs))"

definition view_of :: "milestone_plan list \<Rightarrow> milestone_row \<Rightarrow> milestone_view" where
  "view_of specs r =
     (let s = spec_by_key specs (m_key r) in
      \<lparr>mv_key = m_key r,
       mv_title = (case s of None \<Rightarrow> milestone_str (m_key r) | Some p \<Rightarrow> mp_title p),
       mv_status = m_status r, mv_ordinal = m_ordinal r,
       mv_gate = (case s of None \<Rightarrow> ALL_VALIDATORS_PASS | Some p \<Rightarrow> mp_gate p),
       mv_blocking = (case s of None \<Rightarrow> True | Some p \<Rightarrow> mp_blocking p),
       mv_environmentRequired = (case s of None \<Rightarrow> m_key r \<noteq> Design | Some p \<Rightarrow> mp_environmentRequired p),
       mv_score = m_score r, mv_rubricLevel = m_rubric_level r, mv_attemptCount = m_attempt_count r,
       mv_submittedAt = m_submitted_at r, mv_gatedAt = m_gated_at r\<rparr>)"

definition seeds_of :: "milestone_plan list \<Rightarrow> seed_milestone_input list" where
  "seeds_of specs = map (\<lambda>(i, m). \<lparr>sd_milestoneKey = mp_key m, sd_ordinal = i,
     sd_status = (if i = 0 then OPEN else LOCKED)\<rparr>) (enumerate 0 specs)"

text \<open>
  \<open>initProjectAttempt\<close> and \<open>listMilestones\<close> call each other. The first argument bounds the depth of
  the calls; running out of it is a marker error of the model, which the lemma \<open>listing_returns\<close> shows
  not to occur from a depth of three on.
\<close>

definition OUT_OF_FUEL :: exn where "OUT_OF_FUEL = Err ''recursion of listMilestones''"

fun initProjectAttempt_at :: "nat \<Rightarrow> string \<Rightarrow> time \<Rightarrow> milestone_view list prog"
  and listMilestones_at :: "nat \<Rightarrow> string \<Rightarrow> time \<Rightarrow> milestone_view list prog" where
  "initProjectAttempt_at 0 attemptId now = throw OUT_OF_FUEL"
| "initProjectAttempt_at (Suc n) attemptId now =
     bnd (loadMilestoneSpecs attemptId) (\<lambda>specs.
     andthen (seedMilestones attemptId (seeds_of specs))
     (andthen (try_catch (appendTypedEvent attemptId SYSTEM EV_MILESTONE_SUBMITTED
        (JObj [(''seeded'', JArr (map (\<lambda>m. JStr (milestone_str (mp_key m))) specs))]) now) (\<lambda>_. ret ()))
     (listMilestones_at n attemptId now)))"
| "listMilestones_at 0 attemptId now = throw OUT_OF_FUEL"
| "listMilestones_at (Suc n) attemptId now =
     bnd (loadMilestoneSpecs attemptId) (\<lambda>specs.
     bnd (query (repo_listMilestones attemptId)) (\<lambda>rows.
     if rows = [] then andthen (initProjectAttempt_at n attemptId now) (listMilestones_at n attemptId now)
     else ret (map (view_of specs) rows)))"

definition listMilestones :: "string \<Rightarrow> time \<Rightarrow> milestone_view list prog" where
  "listMilestones = listMilestones_at 3"

definition initProjectAttempt :: "string \<Rightarrow> time \<Rightarrow> milestone_view list prog" where
  "initProjectAttempt = initProjectAttempt_at 3"

section \<open>Model: the gate\<close>

record project_orchestrator =
  po_provisionForMilestone :: "string \<Rightarrow> milestone_key \<Rightarrow> exn + string"
  po_snapshotAndSuspend :: "string \<Rightarrow> string \<Rightarrow> exn + unit"

definition milestone_tasks :: "milestone_plan \<Rightarrow> activity_spec \<Rightarrow> task_spec list" where
  "milestone_tasks spec full =
     filter (\<lambda>t. tk_key t \<in> set (mp_taskKeys spec)) (case as_tasks full of None \<Rightarrow> [] | Some ts \<Rightarrow> ts)"

definition environment_or_unknown :: "attempt_row \<Rightarrow> string" where
  "environment_or_unknown a = (case a_environment_id a of None \<Rightarrow> ''unknown-environment'' | Some e \<Rightarrow> e)"

definition runMilestoneValidators ::
    "executor \<Rightarrow> string \<Rightarrow> milestone_plan \<Rightarrow> string \<Rightarrow> time \<Rightarrow> (string \<times> bool) list prog" where
  "runMilestoneValidators ex attemptId spec runId now =
     (if mp_taskKeys spec = [] then ret []
      else
        bnd (bnd (query (project_version attemptId)) takeFirstOrThrow) (\<lambda>(full, mode).
        bnd (bnd (query (findById attemptId)) takeFirstOrThrow) (\<lambda>attempt.
        bnd (run_validation ex attemptId (environment_or_unknown attempt) ScopeAll ''submit''
               (milestone_tasks spec full) runId now) (\<lambda>summaries.
        ret (map (\<lambda>x. (su_taskKey x, su_passed x)) summaries)))))"

text \<open>\<open>overall\<close> if there is such a criterion, else the lowest level; \<open>Math.min()\<close> of nothing is Infinity.\<close>

definition gate_level_of :: "grading_result \<Rightarrow> gate_level" where
  "gate_level_of result =
     (case find_row (\<lambda>g. cg_criterion g = ''overall'') (gr_criterionGrades result) of
        Some g \<Rightarrow> Level (cg_level g)
      | None \<Rightarrow> if gr_criterionGrades result = [] then Unbounded
                 else Level (Min (set (map cg_level (gr_criterionGrades result)))))"

definition gradeMilestoneRubric ::
    "rubrics \<Rightarrow> grader \<Rightarrow> milestone_plan \<Rightarrow> string \<Rightarrow> (gate_level \<times> bool) prog" where
  "gradeMilestoneRubric rb grade spec designText =
     (case mp_rubric spec of
        None \<Rightarrow> ret (Level 0, True)
      | Some rubricId \<Rightarrow>
          if rubricId = [] then ret (Level 0, True)
          else (case rb rubricId of
            None \<Rightarrow> ret (Level 0, True)
          | Some rubric \<Rightarrow>
              bnd (call (grade rubric \<lparr>gf_artifactText = designText, gf_appliedFaultIds = [],
                 gf_resolutionValidatorResults = [], gf_commandSequence = []\<rparr>)) (\<lambda>result.
              ret (gate_level_of result, gr_provisional result))))"

fun level_reaches :: "gate_level \<Rightarrow> int \<Rightarrow> bool" where
  "level_reaches (Level n) m = (m \<le> n)"
| "level_reaches Unbounded m = True"

fun rubric_score :: "gate_level option \<Rightarrow> real" where
  "rubric_score None = 1"
| "rubric_score (Some Unbounded) = 1"
| "rubric_score (Some (Level n)) = clamp01 ((of_int n - 1) / 3)"

definition computeMilestoneScore :: "milestone_gate \<Rightarrow> (string \<times> bool) list \<Rightarrow> gate_level option \<Rightarrow> real" where
  "computeMilestoneScore gate summary rubricLevel =
     (let validatorScore = (if summary = [] then 1 else real (length (filter snd summary)) / real (length summary)) in
      case gate of
        ALL_VALIDATORS_PASS \<Rightarrow> round4 validatorScore
      | RUBRIC_MIN_LEVEL \<Rightarrow> round4 (rubric_score rubricLevel)
      | BOTH \<Rightarrow> round4 ((validatorScore + rubric_score rubricLevel) / 2))"

record gate_verdict =
  gv_passed :: bool
  gv_score :: real
  gv_rubricLevel :: "gate_level option"
  gv_provisional :: bool
  gv_summary :: "(string \<times> bool) list"

definition min_level :: "milestone_plan \<Rightarrow> int" where
  "min_level spec = (case mp_minLevel spec of None \<Rightarrow> 3 | Some m \<Rightarrow> m)"

text \<open>The verdict from what the validators and the grader said.\<close>

definition verdict_of :: "milestone_plan \<Rightarrow> (string \<times> bool) list \<Rightarrow> (gate_level \<times> bool) option \<Rightarrow> gate_verdict" where
  "verdict_of spec summary graded =
     (let validatorsPass = (mp_taskKeys spec = [] \<or> list_all snd summary);
          rubricLevel = map_option fst graded;
          rubricPass = (case graded of None \<Rightarrow> True | Some (l, _) \<Rightarrow> level_reaches l (min_level spec))
      in \<lparr>gv_passed = (case mp_gate spec of
             ALL_VALIDATORS_PASS \<Rightarrow> validatorsPass
           | RUBRIC_MIN_LEVEL \<Rightarrow> rubricPass
           | BOTH \<Rightarrow> validatorsPass \<and> rubricPass),
          gv_score = computeMilestoneScore (mp_gate spec) summary rubricLevel,
          gv_rubricLevel = rubricLevel,
          gv_provisional = (case graded of None \<Rightarrow> False | Some (_, p) \<Rightarrow> p),
          gv_summary = summary\<rparr>)"

definition run_gate ::
    "executor \<Rightarrow> rubrics \<Rightarrow> grader \<Rightarrow> string \<Rightarrow> milestone_plan \<Rightarrow> string \<Rightarrow> string \<Rightarrow> time \<Rightarrow> gate_verdict prog" where
  "run_gate ex rb grade attemptId spec designText runId now =
     bnd (runMilestoneValidators ex attemptId spec runId now) (\<lambda>summary.
     bnd (if mp_gate spec = RUBRIC_MIN_LEVEL \<or> mp_gate spec = BOTH
          then bnd (gradeMilestoneRubric rb grade spec designText) (\<lambda>g. ret (Some g))
          else ret None) (\<lambda>graded.
     ret (verdict_of spec summary graded)))"

section \<open>Model: environment, roll-up, submission\<close>

definition applyEnvLifecycle :: "project_orchestrator \<Rightarrow> string \<Rightarrow> milestone_plan \<Rightarrow> bool \<Rightarrow> unit prog" where
  "applyEnvLifecycle orch attemptId spec gatedPass =
     (if \<not> mp_environmentRequired spec then ret ()
      else bnd (query (findById attemptId)) (\<lambda>attempt.
        let env = Option.bind attempt a_environment_id in
        if gatedPass then
          when_io (truthy env) (try_catch (call (po_snapshotAndSuspend orch attemptId (the env))) (\<lambda>_. ret ()))
        else when_io (\<not> truthy env)
          (bnd (try_catch (bnd (call (po_provisionForMilestone orch attemptId (mp_key spec))) (\<lambda>e. ret (Some e))) (\<lambda>_. ret None)) (\<lambda>new.
           when_io (truthy new) (modify (\<lambda>s. s\<lparr>attempts := update_where (\<lambda>a. a_id a = attemptId)
             (\<lambda>a. a\<lparr>a_environment_id := new\<rparr>) (attempts s)\<rparr>))))))"

definition nextOpenedMilestone :: "string \<Rightarrow> milestone_key \<Rightarrow> bool \<Rightarrow> db \<Rightarrow> milestone_key option" where
  "nextOpenedMilestone attemptId key gatedPass s =
     (if \<not> gatedPass then None
      else let rows = repo_listMilestones attemptId s in
        (case find_row (\<lambda>r. m_key r = key) rows of
           None \<Rightarrow> None
         | Some cur \<Rightarrow>
             (case find_row (\<lambda>r. m_ordinal r = m_ordinal cur + 1) rows of
                None \<Rightarrow> None
              | Some nxt \<Rightarrow> if m_status nxt = OPEN then Some (m_key nxt) else None)))"

definition mapped_skills :: "string \<Rightarrow> db \<Rightarrow> (string \<times> real) list" where
  "mapped_skills attemptId s =
     (case findById attemptId s of
        None \<Rightarrow> []
      | Some a \<Rightarrow> map (\<lambda>k. (ask_skill_id k, ask_weight k))
          (filter (\<lambda>k. ask_activity_version_id k = a_activity_version_id a) (activity_skills s)))"

definition rubric_gated :: "milestone_plan list \<Rightarrow> milestone_key \<Rightarrow> bool" where
  "rubric_gated specs key =
     (case spec_by_key specs key of None \<Rightarrow> False | Some p \<Rightarrow> mp_gate p = RUBRIC_MIN_LEVEL \<or> mp_gate p = BOTH)"

definition rollup_input_of ::
    "milestone_plan list \<Rightarrow> milestone_view list \<Rightarrow> real option \<Rightarrow> (string \<times> real) list \<Rightarrow> rollup_input" where
  "rollup_input_of specs views defenceScore mappedSkills =
     \<lparr>ri_milestones = map (\<lambda>m. \<lparr>mi_key = mv_key m, mi_score = mv_score m, mi_aiDerived = rubric_gated specs (mv_key m)\<rparr>) views,
      ri_defenceScore = defenceScore, ri_mappedSkills = mappedSkills\<rparr>"

definition component_json :: "weighted_component \<Rightarrow> json" where
  "component_json c = JObj [(''component'', JStr (wc_component c)), (''rawScore'', JNum (wc_rawScore c)),
     (''weight'', JNum (wc_weight c)), (''weighted'', JNum (wc_weighted c)), (''aiDerived'', JBool (wc_aiDerived c))]"

definition project_score_row :: "string \<Rightarrow> rollup_result \<Rightarrow> score_row" where
  "project_score_row attemptId r = \<lparr>sc_attempt_id = attemptId, sc_profile = SP_PROJECT_DEFAULT_ID,
     sc_final_score = rr_finalScore r, sc_passed = rr_passed r,
     sc_criterion_fn_versions = JObj [(''sp.project.default'', JNum 1)],
     sc_breakdown = JObj [(''components'', JArr (map component_json (rr_breakdown r))),
       (''ai_fraction'', JNum (rr_aiFraction r)), (''ai_cap_applied'', JBool (rr_aiCapApplied r))],
     sc_penalties = JObj []\<rparr>"

definition evaluated_payload :: "rollup_result \<Rightarrow> json" where
  "evaluated_payload r = JObj [(''final_score'', JNum (rr_finalScore r)), (''passed'', JBool (rr_passed r)),
     (''profile'', JStr SP_PROJECT_DEFAULT_ID), (''ai_fraction'', JNum (rr_aiFraction r)),
     (''mastery_evidence'', JArr (map (\<lambda>(sk, ev, w). JObj [(''skillId'', JStr sk), (''evidenceScore'', JNum ev),
        (''weight'', JNum w)]) (rr_masteryEvidence r)))]"

definition finalizeProjectScore :: "string \<Rightarrow> time \<Rightarrow> unit prog" where
  "finalizeProjectScore attemptId now =
     bnd (listMilestones attemptId now) (\<lambda>views.
     bnd (loadMilestoneSpecs attemptId) (\<lambda>specs.
     bnd (query (defenceComponentScore attemptId)) (\<lambda>defenceScore.
     bnd (query (mapped_skills attemptId)) (\<lambda>mappedSkills.
     let r = rollup (rollup_input_of specs views defenceScore mappedSkills) in
     andthen (modify (\<lambda>s. s\<lparr>scores := scores s @ [project_score_row attemptId r]\<rparr>))
     (appendTypedEvent attemptId SYSTEM EV_EVALUATED (evaluated_payload r) now)))))"

definition gated_payload :: "milestone_key \<Rightarrow> gate_verdict \<Rightarrow> json" where
  "gated_payload key v = JObj ([(''milestone_key'', JStr (milestone_str key)),
     (''outcome'', JStr (if gv_passed v then ''GATED_PASS'' else ''GATED_FAIL'')), (''score'', JNum (gv_score v))]
     @ (case gv_rubricLevel v of None \<Rightarrow> [] | Some l \<Rightarrow> [(''rubric_level'', level_json l)])
     @ [(''provisional'', JBool (gv_provisional v))])"

definition quoted :: "milestone_key \<Rightarrow> string" where
  "quoted key = [CHR 0x22] @ milestone_str key @ [CHR 0x22]"

text \<open>The submission pointer: through the Git host when the attempt has a repository.\<close>

definition record_pointer ::
    "git_host \<Rightarrow> string \<Rightarrow> milestone_key \<Rightarrow> nat \<Rightarrow> string option \<Rightarrow> time \<Rightarrow> unit prog" where
  "record_pointer git attemptId key attemptNumber commitSha now =
     bnd (query (resolveRepoRef attemptId)) (\<lambda>repoRef.
     case repoRef of
       Some ref \<Rightarrow> andthen (recordMilestoneSubmission git attemptId key ref attemptNumber commitSha now) (ret ())
     | None \<Rightarrow> recordSubmission attemptId key ''none'' (Some (case commitSha of None \<Rightarrow> [] | Some c \<Rightarrow> c)) attemptNumber now)"

record project_env =
  pe_executor :: executor
  pe_rubrics :: rubrics
  pe_grader :: grader
  pe_git :: git_host
  pe_orchestrator :: project_orchestrator

text \<open>The guards of \<open>submitMilestone\<close>: the specification and the row of the milestone.\<close>

definition submit_guards :: "string \<Rightarrow> milestone_key \<Rightarrow> time \<Rightarrow> milestone_plan prog" where
  "submit_guards attemptId key now =
     bnd (loadMilestoneSpecs attemptId) (\<lambda>specs.
     bnd (findOrThrow (find_row (\<lambda>p. mp_key p = key) specs) (''activity has no milestone '' @ quoted key)) (\<lambda>spec.
     bnd (listMilestones attemptId now) (\<lambda>rows.
     bnd (findOrThrow (find_row (\<lambda>r. mv_key r = key) rows)
        (''milestone '' @ quoted key @ '' not found for attempt '' @ attemptId)) (\<lambda>row.
     if mv_status row = LOCKED
     then projectError ''MILESTONE_LOCKED'' (''milestone '' @ quoted key @ '' is LOCKED'')
     else if mv_status row = GATED_PASS
     then projectError ''MILESTONE_ALREADY_PASSED'' (''milestone '' @ quoted key @ '' has already passed'')
     else ret spec))))"

text \<open>What follows the verdict.\<close>

definition apply_verdict ::
    "project_env \<Rightarrow> string \<Rightarrow> milestone_key \<Rightarrow> milestone_plan \<Rightarrow> nat \<Rightarrow> gate_verdict \<Rightarrow> time \<Rightarrow> submit_milestone_result prog" where
  "apply_verdict env attemptId key spec attemptNumber v now =
     andthen (applyGateOutcome attemptId key (gv_passed v) (gv_score v) (gv_rubricLevel v) now)
     (andthen (stampSubmissionOutcome attemptId key attemptNumber (gv_passed v) (gv_score v))
     (andthen (applyEnvLifecycle (pe_orchestrator env) attemptId spec (gv_passed v))
     (bnd (query (nextOpenedMilestone attemptId key (gv_passed v))) (\<lambda>nextOpened.
     andthen (appendTypedEvent attemptId SYSTEM EV_MILESTONE_GATED (gated_payload key v) now)
     (andthen (when_io (key = Final \<and> gv_passed v) (try_catch (finalizeProjectScore attemptId now) (\<lambda>_. ret ())))
     (ret \<lparr>sr_milestoneKey = key, sr_gatedPass = gv_passed v, sr_score = gv_score v,
           sr_rubricLevel = gv_rubricLevel v, sr_provisional = gv_provisional v,
           sr_nextMilestoneOpened = nextOpened, sr_validatorSummary = gv_summary v\<rparr>))))))"

definition submitMilestone ::
    "project_env \<Rightarrow> string \<Rightarrow> milestone_key \<Rightarrow> string option \<Rightarrow> string option \<Rightarrow> string \<Rightarrow> time \<Rightarrow> submit_milestone_result prog" where
  "submitMilestone env attemptId key designText commitSha runId now =
     bnd (submit_guards attemptId key now) (\<lambda>spec.
     bnd (markSubmitted attemptId key now) (\<lambda>attemptNumber.
     andthen (record_pointer (pe_git env) attemptId key attemptNumber commitSha now)
     (andthen (appendTypedEvent attemptId LEARNER EV_MILESTONE_SUBMITTED
        (JObj [(''milestone_key'', JStr (milestone_str key)), (''attempt_number'', JNum (real attemptNumber))]) now)
     (bnd (run_gate (pe_executor env) (pe_rubrics env) (pe_grader env) attemptId spec
         (case designText of None \<Rightarrow> [] | Some d \<Rightarrow> d) runId now) (\<lambda>v.
      apply_verdict env attemptId key spec attemptNumber v now)))))"

section \<open>Listing and seeding\<close>

declare initProjectAttempt_at.simps [simp del] listMilestones_at.simps [simp del]

lemma plans_nonempty [simp]: "plans_of_spec spec \<noteq> []"
  by (simp add: plans_of_spec_def Let_def MILESTONE_SEQUENCE_def)

lemma load_run:
  "project_version a s = Some (spec, ''PROJECT'') \<Longrightarrow> loadMilestoneSpecs a s = (Inr (plans_of_spec spec), s)"
  by (simp add: loadMilestoneSpecs_def)

lemma load_cases:
  obtains spec where "project_version a s = Some (spec, ''PROJECT'')"
  | c m where "loadMilestoneSpecs a s = (Inl (ProjectErr c m), s)"
proof (cases "project_version a s")
  case None
  then show thesis using that(2) by (simp add: loadMilestoneSpecs_def projectError_def)
next
  case (Some v)
  then show thesis using that
    by (cases v; cases "snd v = ''PROJECT''") (auto simp: loadMilestoneSpecs_def projectError_def)
qed

lemma length_seeds [simp]: "length (seeds_of specs) = length specs"
  by (simp add: seeds_of_def)

lemma seeds_nonempty [simp]: "seeds_of specs = [] \<longleftrightarrow> specs = []"
  by (metis length_0_conv length_seeds)

lemma seeds_nth:
  "i < length specs \<Longrightarrow> seeds_of specs ! i = \<lparr>sd_milestoneKey = mp_key (specs ! i), sd_ordinal = i,
     sd_status = (if i = 0 then OPEN else LOCKED)\<rparr>"
  by (simp add: seeds_of_def nth_enumerate_eq)

lemma seeds_keys: "map sd_milestoneKey (seeds_of specs) = map mp_key specs"
  by (rule nth_equalityI) (simp_all add: seeds_nth)

text \<open>The state after seeding, with its event.\<close>

definition seeded :: "string \<Rightarrow> milestone_plan list \<Rightarrow> time \<Rightarrow> db \<Rightarrow> db" where
  "seeded a specs now s =
     (let s1 = s\<lparr>milestones := foldl (insert_milestone a) (milestones s) (seeds_of specs)\<rparr>
      in s1\<lparr>events := events s1 @ [new_event a SYSTEM EV_MILESTONE_SUBMITTED
        (JObj [(''seeded'', JArr (map (\<lambda>m. JStr (milestone_str (mp_key m))) specs))]) now s1]\<rparr>)"

lemma seeded_frame [simp]:
  "attempts (seeded a specs now s) = attempts s" "versions (seeded a specs now s) = versions s"
  "submissions (seeded a specs now s) = submissions s" "scores (seeded a specs now s) = scores s"
  "activity_skills (seeded a specs now s) = activity_skills s"
  by (simp_all add: seeded_def Let_def)

lemma seeded_rows: "milestone_rows b (seeded a specs now s) =
    milestone_rows b (s\<lparr>milestones := foldl (insert_milestone a) (milestones s) (seeds_of specs)\<rparr>)"
  by (simp add: seeded_def Let_def milestone_rows_def)

lemma seeded_log_ok: "log_ok s \<Longrightarrow> log_ok (seeded a specs now s)"
  unfolding seeded_def Let_def by (rule log_ok_append) (unfold log_ok_def, simp)

lemma seeded_nonempty: "specs \<noteq> [] \<Longrightarrow> milestone_rows a (seeded a specs now s) \<noteq> []"
proof -
  assume "specs \<noteq> []"
  then obtain m where "m \<in> set (seeds_of specs)" by (metis seeds_nonempty list.set_intros(1) neq_Nil_conv)
  from seed_present [OF this, of a "milestones s"] show ?thesis
    unfolding seeded_rows by (auto simp: milestone_rows_def list_ex_iff milestone_at_def filter_empty_conv)
qed

lemma project_version_cong:
  assumes "attempts s' = attempts s" and "versions s' = versions s"
  shows "project_version a s' = project_version a s"
  unfolding project_version_def findById_def assms ..

lemma repo_list_empty: "repo_listMilestones a s = [] \<longleftrightarrow> milestone_rows a s = []"
  by (metis repo_listMilestones_def length_0_conv length_sort)

lemma list_at_rows:
  assumes "project_version a s = Some (spec, ''PROJECT'')" and "milestone_rows a s \<noteq> []"
  shows "listMilestones_at (Suc n) a now s = (Inr (map (view_of (plans_of_spec spec)) (repo_listMilestones a s)), s)"
  using assms by (simp add: listMilestones_at.simps load_run repo_list_empty)

lemma init_at_run:
  assumes "project_version a s = Some (spec, ''PROJECT'')"
  shows "initProjectAttempt_at (Suc (Suc n)) a now s =
    (Inr (map (view_of (plans_of_spec spec)) (repo_listMilestones a (seeded a (plans_of_spec spec) now s))),
     seeded a (plans_of_spec spec) now s)"
proof -
  let ?s' = "seeded a (plans_of_spec spec) now s"
  have "project_version a ?s' = Some (spec, ''PROJECT'')" using assms by (simp add: project_version_cong [of ?s' s])
  from list_at_rows [OF this seeded_nonempty, of n now] assms show ?thesis
    unfolding initProjectAttempt_at.simps by (simp add: load_run seedMilestones_run seeded_def Let_def)
qed

lemma list_at_run:
  assumes "project_version a s = Some (spec, ''PROJECT'')"
  shows "listMilestones_at (Suc (Suc (Suc n))) a now s =
    (let s' = if milestone_rows a s = [] then seeded a (plans_of_spec spec) now s else s
     in (Inr (map (view_of (plans_of_spec spec)) (repo_listMilestones a s')), s'))"
proof (cases "milestone_rows a s = []")
  case True
  let ?s' = "seeded a (plans_of_spec spec) now s"
  have "project_version a ?s' = Some (spec, ''PROJECT'')" using assms by (simp add: project_version_cong [of ?s' s])
  from list_at_rows [OF this seeded_nonempty, of "Suc n" now] True assms show ?thesis
    unfolding listMilestones_at.simps(2) [of "Suc (Suc n)"]
    by (simp add: load_run repo_list_empty init_at_run Let_def)
qed (use list_at_rows [OF assms] in \<open>simp add: Let_def\<close>)

lemma listMilestones_run:
  assumes "project_version a s = Some (spec, ''PROJECT'')"
  shows "listMilestones a now s =
    (let s' = if milestone_rows a s = [] then seeded a (plans_of_spec spec) now s else s
     in (Inr (map (view_of (plans_of_spec spec)) (repo_listMilestones a s')), s'))"
  using list_at_run [OF assms, of 0] by (simp add: listMilestones_def eval_nat_numeral)

section \<open>The abstract machine\<close>

text \<open>
  A project attempt with content whose milestone keys are distinct, and whose milestones, once seeded,
  are those of the content and form a ladder.
\<close>

definition project_ok :: "string \<Rightarrow> activity_spec \<Rightarrow> db \<Rightarrow> bool" where
  "project_ok a spec s \<longleftrightarrow> project_version a s = Some (spec, ''PROJECT'') \<and>
     distinct (map mp_key (plans_of_spec spec)) \<and> ladder (milestone_rows a s) \<and>
     (milestone_rows a s \<noteq> [] \<longrightarrow> map m_key (milestone_rows a s) = map mp_key (plans_of_spec spec))"

text \<open>How many milestones are passed, and the status of the one being worked on.\<close>

definition progress_of :: "milestone_status list \<Rightarrow> nat \<times> milestone_status" where
  "progress_of sts = (passed_count sts, if passed_count sts < length sts then sts ! passed_count sts else OPEN)"

definition progress :: "string \<Rightarrow> db \<Rightarrow> nat \<times> milestone_status" where
  "progress a s = progress_of (map m_status (milestone_rows a s))"

lemma seeded_ladder:
  assumes "distinct (map mp_key specs)" and "milestone_rows a s = []"
  shows "ladder (milestone_rows a (seeded a specs now s))"
    and "map m_key (milestone_rows a (seeded a specs now s)) = map mp_key specs"
    and "specs \<noteq> [] \<Longrightarrow> progress a (seeded a specs now s) = (0, OPEN)"
proof -
  have rows: "milestone_rows a (seeded a specs now s) = map (seeded_row a) (seeds_of specs)"
    using seed_rows [of "seeds_of specs" a s] assms by (simp add: seeded_rows seeds_keys)
  have keys: "map m_key (map (seeded_row a) (seeds_of specs)) = map mp_key specs"
    by (rule nth_equalityI) (simp_all add: seeds_nth)
  have stats: "map m_status (map (seeded_row a) (seeds_of specs)) =
      (case specs of [] \<Rightarrow> [] | _ # ps \<Rightarrow> OPEN # replicate (length ps) LOCKED)"
    by (rule nth_equalityI) (auto simp: seeds_nth nth_Cons' split: list.splits)
  have "map m_ordinal (map (seeded_row a) (seeds_of specs)) = [0..<length specs]"
    by (rule nth_equalityI) (simp_all add: seeds_nth)
  then show "ladder (milestone_rows a (seeded a specs now s))"
    unfolding ladder_def rows keys stats using assms(1) by (simp add: list_all_iff split: list.split)
  show "map m_key (milestone_rows a (seeded a specs now s)) = map mp_key specs" using rows keys by simp
  show "progress a (seeded a specs now s) = (0, OPEN)" if "specs \<noteq> []"
    using that unfolding progress_def rows stats by (cases specs) (auto simp: progress_of_def passed_count_def)
qed

definition listed_state :: "string \<Rightarrow> activity_spec \<Rightarrow> time \<Rightarrow> db \<Rightarrow> db" where
  "listed_state a spec now s = (if milestone_rows a s = [] then seeded a (plans_of_spec spec) now s else s)"

lemma listed_state:
  assumes "project_ok a spec s"
  shows "project_ok a spec (listed_state a spec now s)" "progress a (listed_state a spec now s) = progress a s"
    "milestone_rows a (listed_state a spec now s) \<noteq> []" "log_ok s \<Longrightarrow> log_ok (listed_state a spec now s)"
    "listMilestones a now s = (Inr (map (view_of (plans_of_spec spec)) (milestone_rows a (listed_state a spec now s))),
       listed_state a spec now s)"
proof -
  let ?s' = "listed_state a spec now s"
  have frame: "attempts ?s' = attempts s" "versions ?s' = versions s" by (simp_all add: listed_state_def)
  have ok: "ladder (milestone_rows a ?s')" "map m_key (milestone_rows a ?s') = map mp_key (plans_of_spec spec)"
    using assms seeded_ladder [of "plans_of_spec spec" a s] by (auto simp: project_ok_def listed_state_def)
  show "project_ok a spec ?s'" using ok assms project_version_cong [OF frame] by (simp add: project_ok_def)
  show "progress a ?s' = progress a s"
    using assms seeded_ladder(3) [of "plans_of_spec spec" a s]
    by (auto simp: listed_state_def project_ok_def progress_def [of a s] progress_of_def passed_count_def)
  show "milestone_rows a ?s' \<noteq> []" using ok(2) by force
  show "log_ok s \<Longrightarrow> log_ok ?s'" by (simp add: listed_state_def seeded_log_ok)
  show "listMilestones a now s = (Inr (map (view_of (plans_of_spec spec)) (milestone_rows a ?s')), ?s')"
    using assms listMilestones_run [of a s spec now] repo_list_ladder [OF ok(1)]
    by (simp add: project_ok_def listed_state_def Let_def)
qed

lemma view_of_sel [simp]:
  "mv_key (view_of specs r) = m_key r" "mv_status (view_of specs r) = m_status r" "mv_score (view_of specs r) = m_score r"
  by (simp_all add: view_of_def Let_def)

lemma find_view: "find_row (\<lambda>v. mv_key v = k) (map (view_of specs) rs) = map_option (view_of specs) (find_row (\<lambda>r. m_key r = k) rs)"
  by (induction rs) auto

text \<open>The guards: an unknown milestone, a locked and a passed one are refused.\<close>

lemma submit_guards_run:
  assumes "project_ok a spec s" and "i < length (plans_of_spec spec)" and "mp_key (plans_of_spec spec ! i) = key"
  shows "submit_guards a key now s =
    ((if fst (progress a s) < i then Inl (ProjectErr ''MILESTONE_LOCKED'' (''milestone '' @ quoted key @ '' is LOCKED''))
      else if i < fst (progress a s) then Inl (ProjectErr ''MILESTONE_ALREADY_PASSED'' (''milestone '' @ quoted key @ '' has already passed''))
      else Inr (plans_of_spec spec ! i)), listed_state a spec now s)"
proof -
  let ?ps = "plans_of_spec spec" and ?rs = "milestone_rows a (listed_state a spec now s)"
  note L = listed_state [OF assms(1), of now]
  have ok: "ladder ?rs" "map m_key ?rs = map mp_key ?ps" "distinct (map mp_key ?ps)"
    using L(1,3) by (simp_all add: project_ok_def)
  have len: "length ?rs = length ?ps" by (metis ok(2) length_map)
  have key: "m_key (?rs ! i) = key" by (metis assms(2,3) len nth_map ok(2))
  have spec: "find_row (\<lambda>p. mp_key p = key) ?ps = Some (?ps ! i)"
    by (rule find_row_pos) (use assms(2,3) ok(3) nth_eq_iff_index_eq [of "map mp_key ?ps"] in auto)
  have row: "find_row (\<lambda>r. m_key r = key) ?rs = Some (?rs ! i)"
    by (rule find_row_pos) (use assms(2) len key ladder_key [OF ok(1)] in auto)
  have st: "(m_status (?rs ! i) = GATED_PASS) = (i < fst (progress a s))" "(m_status (?rs ! i) = LOCKED) = (fst (progress a s) < i)"
    using stairs_active [of "map m_status ?rs" i] ok(1) assms(2) len L(2) by (auto simp: ladder_def progress_def progress_of_def)
  from assms(1) have "loadMilestoneSpecs a s = (Inr ?ps, s)" by (simp add: project_ok_def load_run)
  then show ?thesis
    using spec row st by (simp add: submit_guards_def L(5) find_view projectError_def)
qed

lemma submit_not_active:
  assumes "project_ok a spec s" and "i < length (plans_of_spec spec)" and "mp_key (plans_of_spec spec ! i) = key"
    and "fst (progress a s) \<noteq> i"
  shows "submitMilestone env a key d c rid now s =
    (Inl (ProjectErr (if fst (progress a s) < i then ''MILESTONE_LOCKED'' else ''MILESTONE_ALREADY_PASSED'')
      (''milestone '' @ quoted key @ (if fst (progress a s) < i then '' is LOCKED'' else '' has already passed''))),
     listed_state a spec now s)"
  using submit_guards_run [OF assms(1-3), of now] assms(4)
  by (cases "fst (progress a s) < i") (simp_all add: submitMilestone_def)

section \<open>The stages of a submission\<close>

text \<open>The tables the gate and the submission pointer leave alone.\<close>

definition same_core :: "db \<Rightarrow> db \<Rightarrow> bool" where
  "same_core s s' \<longleftrightarrow> attempts s' = attempts s \<and> versions s' = versions s \<and> milestones s' = milestones s \<and>
     scores s' = scores s \<and> activity_skills s' = activity_skills s"

lemma same_core_rows: "same_core s s' \<Longrightarrow> milestone_rows a s' = milestone_rows a s"
  and same_core_project: "same_core s s' \<Longrightarrow> project_version a s' = project_version a s"
  and same_core_find: "same_core s s' \<Longrightarrow> findById a s' = findById a s"
  by (simp_all add: same_core_def milestone_rows_def project_version_cong [of s' s] findById_def)

lemma recordMilestoneSubmission_run:
  "\<exists>sha. recordMilestoneSubmission git a k ref n c now s =
     (Inr sha, snd (recordSubmission a k ref (Some sha) n now s)) \<and> (c = Some sha' \<and> sha' \<noteq> [] \<longrightarrow> sha = sha')"
  by (auto simp: recordMilestoneSubmission_def recordSubmission_def bnd_run try_catch_def Let_def
      split: sum.splits prod.splits option.splits)

lemma record_pointer_run:
  "\<exists>s' sub. record_pointer git a k n c now s = (Inr (), s') \<and> submissions s' = submissions s @ [sub] \<and>
     s_attempt_id sub = a \<and> s_key sub = k \<and> s_attempt_number sub = n \<and> s_outcome sub = None \<and>
     (\<forall>sha. c = Some sha \<and> sha \<noteq> [] \<longrightarrow> s_commit_sha sub = sha) \<and> s' = s\<lparr>submissions := submissions s @ [sub]\<rparr>"
proof (cases "resolveRepoRef a s")
  case None
  then show ?thesis by (simp add: record_pointer_def recordSubmission_def)
next
  case (Some ref)
  obtain sha where "recordMilestoneSubmission git a k ref n c now s = (Inr sha, snd (recordSubmission a k ref (Some sha) n now s))"
      "\<forall>sha'. c = Some sha' \<and> sha' \<noteq> [] \<longrightarrow> sha = sha'"
    using recordMilestoneSubmission_run [of git a k ref n c now s "the c"] by (cases c) auto
  with Some show ?thesis by (simp add: record_pointer_def recordSubmission_def)
qed

text \<open>What the validators and the grader say, as a function of the parameters and the attempt.\<close>

definition milestone_summary :: "executor \<Rightarrow> string \<Rightarrow> milestone_plan \<Rightarrow> db \<Rightarrow> (string \<times> bool) list" where
  "milestone_summary ex a p s =
     (if mp_taskKeys p = [] then []
      else case (project_version a s, findById a s) of
        (Some (full, _), Some att) \<Rightarrow>
          map (\<lambda>t. (tk_key t, task_passed t (task_results ex (environment_or_unknown att) a t))) (milestone_tasks p full)
      | _ \<Rightarrow> [])"

definition gate_of :: "project_env \<Rightarrow> string \<Rightarrow> milestone_plan \<Rightarrow> string \<Rightarrow> db \<Rightarrow> exn + gate_verdict" where
  "gate_of env a p d s =
     (if mp_gate p = ALL_VALIDATORS_PASS then Inr (verdict_of p (milestone_summary (pe_executor env) a p s) None)
      else case fst (gradeMilestoneRubric (pe_rubrics env) (pe_grader env) p d s) of
        Inl e \<Rightarrow> Inl e
      | Inr g \<Rightarrow> Inr (verdict_of p (milestone_summary (pe_executor env) a p s) (Some g)))"

lemma gradeMilestoneRubric_reads: "snd (gradeMilestoneRubric rb gr p d s) = s"
  by (auto simp: gradeMilestoneRubric_def bnd_run split: option.splits sum.splits)

lemma gradeMilestoneRubric_any: "fst (gradeMilestoneRubric rb gr p d s) = fst (gradeMilestoneRubric rb gr p d s')"
  by (auto simp: gradeMilestoneRubric_def bnd_run split: option.splits sum.splits)

lemma project_version_find: "project_version a s = Some v \<Longrightarrow> \<exists>att. findById a s = Some att"
  by (cases "findById a s") (simp_all add: project_version_def)

lemma runMilestoneValidators_run:
  assumes "log_ok s" and "project_version a s = Some (full, mode)"
  obtains s' where "runMilestoneValidators ex a p rid now s = (Inr (milestone_summary ex a p s), s')"
    and "log_ok s'" and "same_core s s'" and "submissions s' = submissions s"
proof (cases "mp_taskKeys p = []")
  case True
  show thesis by (rule that [of s]) (use True assms in \<open>simp_all add: runMilestoneValidators_def milestone_summary_def same_core_def\<close>)
next
  case False
  obtain att where att: "findById a s = Some att" using project_version_find [OF assms(2)] by blast
  obtain s' where run: "run_validation ex a (environment_or_unknown att) ScopeAll ''submit'' (milestone_tasks p full) rid now s =
      (Inr (map (\<lambda>task. summary_of task (task_results ex (environment_or_unknown att) a task)) (milestone_tasks p full)), s')"
    and adds: "adds a (run_events ex a (environment_or_unknown att) ScopeAll ''submit'' (milestone_tasks p full) now) s s'"
    using run_validation_adds [OF assms(1), of ex a "environment_or_unknown att" ScopeAll "''submit''" "milestone_tasks p full" rid now]
    by (auto simp: tasks_in_scope_def)
  have "rest s' = rest s" using adds by (simp add: adds_def)
  note frame = restD [OF this]
  show thesis
    by (rule that [of s'])
      (use run False att assms(2) adds frame in \<open>simp_all add: runMilestoneValidators_def milestone_summary_def adds_def same_core_def summary_of_def\<close>)
qed

lemma run_gate_run:
  assumes "log_ok s" and "project_version a s = Some (full, mode)"
  obtains s' where "run_gate (pe_executor env) (pe_rubrics env) (pe_grader env) a p d rid now s = (gate_of env a p d s, s')"
    and "log_ok s'" and "same_core s s'" and "submissions s' = submissions s"
proof -
  obtain s' where s': "runMilestoneValidators (pe_executor env) a p rid now s = (Inr (milestone_summary (pe_executor env) a p s), s')"
      "log_ok s'" "same_core s s'" "submissions s' = submissions s"
    using runMilestoneValidators_run [OF assms] by blast
  obtain r where r: "gradeMilestoneRubric (pe_rubrics env) (pe_grader env) p d s' = (r, s')"
      "fst (gradeMilestoneRubric (pe_rubrics env) (pe_grader env) p d s) = r"
    by (metis gradeMilestoneRubric_any gradeMilestoneRubric_reads prod.collapse)
  have "run_gate (pe_executor env) (pe_rubrics env) (pe_grader env) a p d rid now s = (gate_of env a p d s, s')"
    using s'(1) r by (cases "mp_gate p"; cases r) (simp_all add: run_gate_def gate_of_def bnd_run)
  with s' show thesis using that by blast
qed

text \<open>The environment step never throws; it changes at most the attempt's environment.\<close>

lemma project_version_env:
  assumes "attempts s' = update_where (\<lambda>x. a_id x = a) f (attempts s)" and "versions s' = versions s"
    and "\<And>x. a_id (f x) = a_id x \<and> a_activity_version_id (f x) = a_activity_version_id x \<and> a_mode (f x) = a_mode x"
  shows "project_version a s' = project_version a s"
proof -
  have "findById a s' = map_option f (findById a s)"
    unfolding findById_def assms(1) by (rule find_update_where_same) (simp add: assms(3))
  then show ?thesis by (cases "findById a s") (simp_all add: project_version_def assms)
qed

lemma applyEnvLifecycle_run:
  obtains s' where "applyEnvLifecycle orch a p pass s = (Inr (), s')"
    and "project_version a s' = project_version a s" and "\<exists>A. s' = s\<lparr>attempts := A\<rparr>"
proof -
  have "applyEnvLifecycle orch a p pass s = (Inr (), s) \<or> (\<exists>e. applyEnvLifecycle orch a p pass s =
      (Inr (), s\<lparr>attempts := update_where (\<lambda>x. a_id x = a) (\<lambda>x. x\<lparr>a_environment_id := Some e\<rparr>) (attempts s)\<rparr>))"
    by (auto simp: applyEnvLifecycle_def Let_def try_catch_def bnd_run truthy_def split: sum.splits option.splits)
  then show thesis
  proof (elim disjE exE)
    assume "applyEnvLifecycle orch a p pass s = (Inr (), s)"
    then show thesis by (rule that) (auto intro: exI [of _ "attempts s"])
  next
    fix e
    assume run: "applyEnvLifecycle orch a p pass s =
      (Inr (), s\<lparr>attempts := update_where (\<lambda>x. a_id x = a) (\<lambda>x. x\<lparr>a_environment_id := Some e\<rparr>) (attempts s)\<rparr>)"
    show thesis
      by (rule that [OF run]) (auto intro!: project_version_env [where f = "\<lambda>x. x\<lparr>a_environment_id := Some e\<rparr>"])
  qed
qed

definition rollup_now :: "string \<Rightarrow> activity_spec \<Rightarrow> db \<Rightarrow> rollup_result" where
  "rollup_now a spec s = rollup (rollup_input_of (plans_of_spec spec)
     (map (view_of (plans_of_spec spec)) (milestone_rows a s)) (defenceComponentScore a s) (mapped_skills a s))"

lemma finalize_run:
  assumes "project_ok a spec s" and "milestone_rows a s \<noteq> []"
  shows "finalizeProjectScore a now s =
    (let s1 = s\<lparr>scores := scores s @ [project_score_row a (rollup_now a spec s)]\<rparr>
     in (Inr (), s1\<lparr>events := events s1 @ [new_event a SYSTEM EV_EVALUATED (evaluated_payload (rollup_now a spec s)) now s1]\<rparr>))"
  using assms listed_state(5) [OF assms(1), of now]
  by (simp add: finalizeProjectScore_def listed_state_def project_ok_def load_run rollup_now_def Let_def)

text \<open>The milestones after the verdict \<open>v\<close> on the one at position \<open>i\<close>.\<close>

definition rows_after :: "gate_verdict \<Rightarrow> int option \<Rightarrow> time \<Rightarrow> nat \<Rightarrow> milestone_row list \<Rightarrow> milestone_row list" where
  "rows_after v level now i rs =
     (let r = gated_row (gv_passed v) (gv_score v) level now (rs ! i) in if gv_passed v then climb rs i r else rs[i := r])"

lemma rows_after_ladder:
  assumes "ladder rs" and "i < length rs" and "in_work (m_status (rs ! i))"
  shows "ladder (rows_after v level now i rs)" "map m_key (rows_after v level now i rs) = map m_key rs"
  using assms by (auto simp: rows_after_def Let_def in_work_def climb_maps map_update list_update_same_conv
      intro!: ladder_climb ladder_update)

lemma passed_count_in_work:
  assumes "stairs sts" and "i < length sts" and "in_work (sts ! i)"
  shows "passed_count sts = i"
  using stairs_active [OF assms(1,2)] assms(3) by (auto simp: in_work_def)

lemma rows_after_progress:
  assumes "ladder rs" and "i < length rs" and "in_work (m_status (rs ! i))"
  shows "progress_of (map m_status (rows_after v level now i rs)) = (if gv_passed v then (Suc i, OPEN) else (i, GATED_FAIL))"
proof -
  have st: "stairs (map m_status rs)" "in_work (map m_status rs ! i)" using assms by (simp_all add: ladder_def)
  have "map m_status (rows_after v level now i rs) =
      (if gv_passed v then (map m_status rs)[i := GATED_PASS, Suc i := OPEN] else (map m_status rs)[i := GATED_FAIL])"
    using assms(2) by (simp add: rows_after_def Let_def climb_maps map_update)
  with stairs_pass [OF st(1) _ st(2)] stairs_update [OF st(1) _ st(2), of GATED_FAIL] assms(2) show ?thesis
    by (auto simp: progress_of_def in_work_def)
qed

lemma nextOpened_run:
  assumes "ladder rs" and "i < length rs" and "in_work (m_status (rs ! i))"
    and "milestone_rows a s = rows_after v level now i rs"
  shows "nextOpenedMilestone a (m_key (rs ! i)) (gv_passed v) s =
    (if gv_passed v \<and> Suc i < length rs then Some (m_key (rs ! Suc i)) else None)"
proof (cases "gv_passed v")
  case True
  let ?rs' = "rows_after v level now i rs"
  note lad = rows_after_ladder [OF assms(1-3), of v level now]
  have len: "length ?rs' = length rs" by (simp add: rows_after_def Let_def)
  have keys: "m_key (?rs' ! j) = m_key (rs ! j)" if "j < length rs" for j
    by (metis lad(2) len nth_map that)
  have list: "repo_listMilestones a s = ?rs'" using lad(1) assms(4) by (simp add: repo_list_ladder)
  have cur: "find_row (\<lambda>r. m_key r = m_key (rs ! i)) ?rs' = Some (?rs' ! i)"
    by (rule find_row_pos) (use len keys ladder_key [OF assms(1)] assms(2) in auto)
  have nxt: "find_row (\<lambda>r. m_ordinal r = i + 1) ?rs' = (if Suc i < length rs then Some (?rs' ! Suc i) else None)"
    using len ladder_nth [OF lad(1)]
    by (auto simp: find_row_None_iff in_set_conv_nth intro!: find_row_pos)
  have "m_status (?rs' ! Suc i) = OPEN" if "Suc i < length rs"
    using that True by (simp add: rows_after_def Let_def climb_def)
  then show ?thesis using True list cur nxt keys len assms(2) ladder_nth [OF lad(1), of i]
    by (simp add: nextOpenedMilestone_def Let_def)
qed (simp add: nextOpenedMilestone_def)

lemma apply_verdict_refused:
  assumes "rubric_column True (gv_rubricLevel v) = Inl e" and "getMilestone a key s \<noteq> None"
  shows "apply_verdict env a key p n v now s = (Inl e, s)"
  using assms by (simp add: apply_verdict_def applyGateOutcome_rejected)

text \<open>The writes of an accepted verdict, up to the roll-up.\<close>

lemma verdict_writes:
  assumes ok: "project_ok a spec s" and rs: "rs = milestone_rows a s" and log: "log_ok s"
    and i: "i < length rs" and key: "m_key (rs ! i) = key" and work: "in_work (m_status (rs ! i))"
    and level: "rubric_column True (gv_rubricLevel v) = Inr level"
  obtains s1 s2 s3 where "applyGateOutcome a key (gv_passed v) (gv_score v) (gv_rubricLevel v) now s = (Inr (), s1)"
    and "stampSubmissionOutcome a key n (gv_passed v) (gv_score v) s1 = (Inr (), s2)"
    and "applyEnvLifecycle orch a p (gv_passed v) s2 = (Inr (), s3)"
    and "milestone_rows a s3 = rows_after v level now i rs" and "project_ok a spec s3" and "log_ok s3"
    and "versions s3 = versions s" and "scores s3 = scores s"
    and "submissions s3 = submissions (snd (stampSubmissionOutcome a key n (gv_passed v) (gv_score v) s))"
proof -
  have lad: "ladder rs" using ok rs by (simp add: project_ok_def)
  obtain s1 where s1: "applyGateOutcome a key (gv_passed v) (gv_score v) (gv_rubricLevel v) now s = (Inr (), s1)"
      "sets_rows a (rows_after v level now i rs) s s1"
    using applyGateOutcome_run [OF lad rs i key work level, of "gv_passed v" "gv_score v" now]
    unfolding rows_after_def Let_def by blast
  note fr = sets_rows_frame [OF s1(2)]
  obtain s2 where s2: "stampSubmissionOutcome a key n (gv_passed v) (gv_score v) s1 = (Inr (), s2)"
    "attempts s2 = attempts s" "versions s2 = versions s" "milestones s2 = milestones s1" "scores s2 = scores s" "events s2 = events s"
    "submissions s2 = submissions (snd (stampSubmissionOutcome a key n (gv_passed v) (gv_score v) s))"
    using fr by (simp add: stampSubmissionOutcome_def)
  obtain s3 where s3: "applyEnvLifecycle orch a p (gv_passed v) s2 = (Inr (), s3)"
    "project_version a s3 = project_version a s2" "\<exists>A. s3 = s2\<lparr>attempts := A\<rparr>"
    by (rule applyEnvLifecycle_run)
  have rows: "milestone_rows a s3 = rows_after v level now i rs"
    using sets_rowsD [OF s1(2)] s2(4) s3(3) by (auto simp: milestone_rows_def)
  have "project_version a s3 = project_version a s" using s3(2) project_version_cong [OF s2(2,3)] by simp
  then have "project_ok a spec s3"
    using rows_after_ladder [OF lad i work, of v level now] ok rs i rows by (auto simp: project_ok_def)
  moreover have "log_ok s3" using log s2(6) s3(3) log_ok_frame [of s3 s] by auto
  ultimately show thesis using that [OF s1(1) s2(1) s3(1) rows] s2 s3(3) by auto
qed

text \<open>A verdict whose level the database accepts is carried out to the end.\<close>

lemma apply_verdict_run:
  assumes ok: "project_ok a spec s" and rs: "rs = milestone_rows a s" and log: "log_ok s"
    and i: "i < length rs" and key: "m_key (rs ! i) = key" and work: "in_work (m_status (rs ! i))"
    and level: "rubric_column True (gv_rubricLevel v) = Inr level"
  obtains s' r sf where "apply_verdict env a key p n v now s = (Inr r, s')"
    and "milestone_rows a s' = rows_after v level now i rs" and "project_ok a spec s'" and "log_ok s'"
    and "sr_gatedPass r = gv_passed v" and "sr_score r = gv_score v"
    and "sr_nextMilestoneOpened r = (if gv_passed v \<and> Suc i < length rs then Some (m_key (rs ! Suc i)) else None)"
    and "submissions s' = submissions (snd (stampSubmissionOutcome a key n (gv_passed v) (gv_score v) s))"
    and "scores s' = scores s @ (if key = Final \<and> gv_passed v then [project_score_row a (rollup_now a spec sf)] else [])"
    and "milestone_rows a sf = rows_after v level now i rs"
proof -
  have lad: "ladder rs" using ok rs by (simp add: project_ok_def)
  obtain s1 s2 s3 where run: "applyGateOutcome a key (gv_passed v) (gv_score v) (gv_rubricLevel v) now s = (Inr (), s1)"
      "stampSubmissionOutcome a key n (gv_passed v) (gv_score v) s1 = (Inr (), s2)"
      "applyEnvLifecycle (pe_orchestrator env) a p (gv_passed v) s2 = (Inr (), s3)"
    and s3: "milestone_rows a s3 = rows_after v level now i rs" "project_ok a spec s3" "log_ok s3"
      "versions s3 = versions s" "scores s3 = scores s"
      "submissions s3 = submissions (snd (stampSubmissionOutcome a key n (gv_passed v) (gv_score v) s))"
    by (rule verdict_writes [OF assms])
  define s4 where "s4 = s3\<lparr>events := events s3 @ [new_event a SYSTEM EV_MILESTONE_GATED (gated_payload key v) now s3]\<rparr>"
  have s4: "milestone_rows a s4 = milestone_rows a s3" "attempts s4 = attempts s3" "versions s4 = versions s3"
      "scores s4 = scores s" "submissions s4 = submissions s3" "log_ok s4"
    using s3 log_ok_append [of s3] by (simp_all add: s4_def milestone_rows_def)
  have ok4: "project_ok a spec s4" using s3(2) s4(1) project_version_cong [OF s4(2,3)] by (simp add: project_ok_def)
  have ne: "milestone_rows a s4 \<noteq> []"
    using rows_after_ladder(2) [OF lad i work, of v level now] s3(1) s4(1) i by force
  define s' where "s' = (if key = Final \<and> gv_passed v then snd (finalizeProjectScore a now s4) else s4)"
  let ?r = "\<lparr>sr_milestoneKey = key, sr_gatedPass = gv_passed v, sr_score = gv_score v,
           sr_rubricLevel = gv_rubricLevel v, sr_provisional = gv_provisional v,
           sr_nextMilestoneOpened = nextOpenedMilestone a key (gv_passed v) s3, sr_validatorSummary = gv_summary v\<rparr>"
  have fin: "try_catch (finalizeProjectScore a now) (\<lambda>_. ret ()) s4 = (Inr (), snd (finalizeProjectScore a now s4))"
    by (simp add: finalize_run [OF ok4 ne] try_catch_def Let_def)
  have tail: "when_io (key = Final \<and> gv_passed v) (try_catch (finalizeProjectScore a now) (\<lambda>_. ret ())) s4 = (Inr (), s')"
    by (simp add: s'_def fin)
  have whole: "apply_verdict env a key p n v now s = (Inr ?r, s')"
    using run tail by (simp add: apply_verdict_def s4_def del: when_io_run)
  have rows': "milestone_rows a s' = milestone_rows a s3"
    and subs': "submissions s' = submissions s3" and at': "attempts s' = attempts s4" and ve': "versions s' = versions s4"
    and sc': "scores s' = scores s @ (if key = Final \<and> gv_passed v then [project_score_row a (rollup_now a spec s4)] else [])"
    using s4 by (simp_all add: s'_def finalize_run [OF ok4 ne] Let_def milestone_rows_def)
  have log': "log_ok s'"
    unfolding s'_def finalize_run [OF ok4 ne] Let_def using s4(6)
      log_ok_append [of "s4\<lparr>scores := scores s4 @ [project_score_row a (rollup_now a spec s4)]\<rparr>"]
      log_ok_frame [of "s4\<lparr>scores := scores s4 @ [project_score_row a (rollup_now a spec s4)]\<rparr>" s4] by simp
  have ok': "project_ok a spec s'"
    using ok4 rows' s4(1) project_version_cong [OF at' ve'] by (simp add: project_ok_def)
  show thesis
    by (rule that [of ?r s' s4]) (use whole rows' subs' sc' log' ok' s3 s4 nextOpened_run [OF lad i work s3(1)] key in simp_all)
qed

end
