(* ===== verification/ProjectMode.thy ===== *)
theory ProjectMode
  imports ProjectService
begin

text \<open>
  What project mode guarantees: the exact outcome of a milestone submission, the refinement of the
  two-field machine by any sequence of submissions, what a refused submission leaves alone, the project
  score recorded by the last gate, termination of the mutually recursive listing, and the ranges of the
  milestone columns.
\<close>

section \<open>Submitting\<close>

text \<open>The state in which the gate of a submission runs.\<close>

lemma submit_prefix:
  assumes ok: "project_ok a spec s" and log: "log_ok s"
    and i: "fst (progress a s) = i" "i < length (plans_of_spec spec)" and key: "mp_key (plans_of_spec spec ! i) = key"
  obtains n rs s4 sub where "submitMilestone env a key d c rid now s =
      bnd (run_gate (pe_executor env) (pe_rubrics env) (pe_grader env) a (plans_of_spec spec ! i) (case d of None \<Rightarrow> [] | Some x \<Rightarrow> x) rid now)
        (\<lambda>v. apply_verdict env a key (plans_of_spec spec ! i) n v now) s4"
    and "project_ok a spec s4" and "log_ok s4" and "rs = milestone_rows a s4" and "length rs = length (plans_of_spec spec)"
    and "m_key (rs ! i) = key" and "m_status (rs ! i) = M_SUBMITTED" and "scores s4 = scores s"
    and "submissions s4 = submissions s @ [sub]" and "s_attempt_id sub = a" and "s_key sub = key" and "s_attempt_number sub = n"
    and "attempts s4 = attempts s" and "versions s4 = versions s"
proof -
  let ?ps = "plans_of_spec spec" and ?s1 = "listed_state a spec now s"
  note L = listed_state [OF ok, of now]
  define rs1 where "rs1 = milestone_rows a ?s1"
  have lad: "ladder rs1" and keys: "map m_key rs1 = map mp_key ?ps" using L(1,3) by (simp_all add: rs1_def project_ok_def)
  have len: "length rs1 = length ?ps" by (metis keys length_map)
  have key1: "m_key (rs1 ! i) = key" by (metis i(2) key keys len nth_map)
  have work: "in_work (m_status (rs1 ! i))"
    using stairs_active [of "map m_status rs1" i] lad i len L(2)
    by (auto simp: in_work_def ladder_def progress_def progress_of_def rs1_def)
  obtain s2 where s2: "markSubmitted a key now ?s1 = (Inr (m_attempt_count (rs1 ! i) + 1), s2)"
      "sets_rows a (rs1[i := submitted_row now (rs1 ! i)]) ?s1 s2"
    using markSubmitted_run [OF lad rs1_def _ key1, of now] i(2) len by metis
  let ?n = "m_attempt_count (rs1 ! i) + 1" and ?rs = "rs1[i := submitted_row now (rs1 ! i)]"
  note fr = sets_rows_frame [OF s2(2)]
  obtain s3 sub where s3: "record_pointer (pe_git env) a key ?n c now s2 = (Inr (), s3)" "submissions s3 = submissions s2 @ [sub]"
      "s_attempt_id sub = a" "s_key sub = key" "s_attempt_number sub = ?n" "s3 = s2\<lparr>submissions := submissions s2 @ [sub]\<rparr>"
    using record_pointer_run [of "pe_git env" a key ?n c now s2] by blast
  define s4 where "s4 = s3\<lparr>events := events s3 @ [new_event a LEARNER EV_MILESTONE_SUBMITTED
     (JObj [(''milestone_key'', JStr (milestone_str key)), (''attempt_number'', JNum (real ?n))]) now s3]\<rparr>"
  have s4: "attempts s4 = attempts s" "versions s4 = versions s" "scores s4 = scores s" "submissions s4 = submissions s @ [sub]"
    using fr s3(6) by (simp_all add: s4_def listed_state_def)
  have rows: "milestone_rows a s4 = ?rs" using sets_rowsD [OF s2(2)] s3(6) by (simp add: s4_def milestone_rows_def)
  have "ladder ?rs" by (rule ladder_update [OF lad _ work]) (use i(2) len in \<open>simp_all add: in_work_def\<close>)
  moreover have "map m_key ?rs = map mp_key ?ps" using i(2) len keys key key1 by (simp add: map_update list_update_same_conv)
  ultimately have ok4: "project_ok a spec s4"
    using ok rows project_version_cong [OF s4(1,2)] by (simp add: project_ok_def)
  have "log_ok s3" using L(4) [OF log] fr(7) s3(6) log_ok_frame [of s3 s2] by simp
  then have log4: "log_ok s4" unfolding s4_def by (rule log_ok_append)
  have "submit_guards a key now s = (Inr (?ps ! i), ?s1)" using submit_guards_run [OF ok i(2) key, of now] i(1) by simp
  then have run: "submitMilestone env a key d c rid now s =
      bnd (run_gate (pe_executor env) (pe_rubrics env) (pe_grader env) a (?ps ! i) (case d of None \<Rightarrow> [] | Some x \<Rightarrow> x) rid now)
        (\<lambda>v. apply_verdict env a key (?ps ! i) ?n v now) s4"
    using s2(1) s3(1) by (simp add: submitMilestone_def s4_def)
  show thesis
    by (rule that [OF run ok4 log4 refl]) (use rows len i(2) key1 s4 s3 in simp_all)
qed

lemma gate_of_cong:
  assumes "attempts s' = attempts s" and "versions s' = versions s"
  shows "gate_of env a p x s' = gate_of env a p x s"
proof -
  have "milestone_summary ex a p s' = milestone_summary ex a p s" for ex
    using assms by (simp add: milestone_summary_def project_version_cong [OF assms] findById_def)
  then show ?thesis
    using gradeMilestoneRubric_any [of "pe_rubrics env" "pe_grader env" p x s' s]
    by (simp add: gate_of_def cong: sum.case_cong)
qed

text \<open>A submission of the active milestone reaches its gate with the milestone SUBMITTED.\<close>

lemma submit_at_gate:
  assumes ok: "project_ok a spec s" and log: "log_ok s"
    and i: "fst (progress a s) = i" "i < length (plans_of_spec spec)" and key: "mp_key (plans_of_spec spec ! i) = key"
    and gate: "gate = gate_of env a (plans_of_spec spec ! i) (case d of None \<Rightarrow> [] | Some x \<Rightarrow> x) s"
  obtains n rs s5 sub where "submitMilestone env a key d c rid now s =
      (case gate of Inl e \<Rightarrow> (Inl e, s5) | Inr v \<Rightarrow> apply_verdict env a key (plans_of_spec spec ! i) n v now s5)"
    and "project_ok a spec s5" and "log_ok s5" and "progress a s5 = (i, M_SUBMITTED)"
    and "rs = milestone_rows a s5" and "map m_key rs = map mp_key (plans_of_spec spec)" and "i < length rs"
    and "m_key (rs ! i) = key" and "in_work (m_status (rs ! i))" and "scores s5 = scores s"
    and "submissions s5 = submissions s @ [sub]" and "s_attempt_id sub = a" and "s_key sub = key" and "s_attempt_number sub = n"
proof -
  let ?p = "plans_of_spec spec ! i" and ?d = "case d of None \<Rightarrow> [] | Some x \<Rightarrow> x"
  obtain n rs s4 sub where run: "submitMilestone env a key d c rid now s =
      bnd (run_gate (pe_executor env) (pe_rubrics env) (pe_grader env) a ?p ?d rid now) (\<lambda>v. apply_verdict env a key ?p n v now) s4"
    and s4: "project_ok a spec s4" "log_ok s4" "rs = milestone_rows a s4" "length rs = length (plans_of_spec spec)"
      "m_key (rs ! i) = key" "m_status (rs ! i) = M_SUBMITTED" "scores s4 = scores s"
    and sub: "submissions s4 = submissions s @ [sub]" "s_attempt_id sub = a" "s_key sub = key" "s_attempt_number sub = n"
    and same: "attempts s4 = attempts s" "versions s4 = versions s"
    by (rule submit_prefix [OF ok log i key, of env d c rid now])
  have "project_version a s4 = Some (spec, ''PROJECT'')" using s4(1) by (simp add: project_ok_def)
  from run_gate_run [OF s4(2) this, of env ?p ?d rid now] obtain s5
    where s5: "run_gate (pe_executor env) (pe_rubrics env) (pe_grader env) a ?p ?d rid now s4 = (gate, s5)"
      "log_ok s5" "same_core s4 s5" "submissions s5 = submissions s4"
    using gate_of_cong [OF same, of env a ?p ?d] gate by metis
  have rows5: "milestone_rows a s5 = rs" and ok5: "project_ok a spec s5"
    using same_core_rows [OF s5(3)] same_core_project [OF s5(3)] s4 by (simp_all add: project_ok_def)
  have il: "i < length rs" and work: "in_work (m_status (rs ! i))" and lad: "ladder rs"
    using s4 i(2) by (simp_all add: in_work_def project_ok_def)
  have "progress a s5 = (i, M_SUBMITTED)"
    using passed_count_in_work [of "map m_status rs" i] lad il work s4(6)
    by (simp add: progress_def rows5 progress_of_def ladder_def)
  moreover have "map m_key rs = map mp_key (plans_of_spec spec)" using s4 il by (auto simp: project_ok_def)
  moreover have "submitMilestone env a key d c rid now s =
      (case gate of Inl e \<Rightarrow> (Inl e, s5) | Inr v \<Rightarrow> apply_verdict env a key ?p n v now s5)"
    using run s5(1) by (cases gate) simp_all
  ultimately show thesis
    using that [of s5 n rs sub] ok5 s5 rows5 il work s4 sub by (simp add: same_core_def)
qed

lemma submit_outcome:
  assumes "project_ok a spec s" and "log_ok s" and "i < length (plans_of_spec spec)"
    and "p = plans_of_spec spec ! i" and "mp_key p = key" and "fst (progress a s) = k"
    and "gate = gate_of env a p (case d of None \<Rightarrow> [] | Some x \<Rightarrow> x) s"
    and "submitMilestone env a key d c rid now s = (res, s')"
  shows "project_ok a spec s' \<and> log_ok s' \<and>
    (if k < i then res = Inl (ProjectErr ''MILESTONE_LOCKED'' (''milestone '' @ quoted key @ '' is LOCKED'')) \<and> progress a s' = progress a s
     else if i < k then res = Inl (ProjectErr ''MILESTONE_ALREADY_PASSED'' (''milestone '' @ quoted key @ '' has already passed'')) \<and>
       progress a s' = progress a s
     else case gate of
       Inl e \<Rightarrow> res = Inl e \<and> progress a s' = (i, M_SUBMITTED)
     | Inr v \<Rightarrow> (case rubric_column True (gv_rubricLevel v) of
           Inl e \<Rightarrow> res = Inl e \<and> progress a s' = (i, M_SUBMITTED)
         | Inr level \<Rightarrow> \<exists>r. res = Inr r \<and> sr_gatedPass r = gv_passed v \<and> sr_score r = gv_score v \<and>
             sr_nextMilestoneOpened r = (if gv_passed v \<and> Suc i < length (plans_of_spec spec)
               then Some (mp_key (plans_of_spec spec ! Suc i)) else None) \<and>
             progress a s' = (if gv_passed v then (Suc i, OPEN) else (i, GATED_FAIL))))"
proof (cases "k = i")
  case False
  note L = listed_state [OF assms(1), of now]
  from False submit_guards_run [OF assms(1,3), of key now] assms(4-6,8) L show ?thesis
    by (auto simp: submitMilestone_def assms(2))
next
  case True
  have i: "fst (progress a s) = i" and key: "mp_key (plans_of_spec spec ! i) = key" using assms True by simp_all
  obtain n rs s5 sub where run: "submitMilestone env a key d c rid now s =
      (case gate of Inl e \<Rightarrow> (Inl e, s5) | Inr v \<Rightarrow> apply_verdict env a key (plans_of_spec spec ! i) n v now s5)"
    and s5: "project_ok a spec s5" "log_ok s5" "progress a s5 = (i, M_SUBMITTED)" "rs = milestone_rows a s5"
      "map m_key rs = map mp_key (plans_of_spec spec)" "i < length rs" "m_key (rs ! i) = key" "in_work (m_status (rs ! i))"
    by (rule submit_at_gate [OF assms(1,2) i assms(3) key assms(7) [unfolded assms(4)], of c rid now])
  have lad: "ladder rs" using s5 by (simp add: project_ok_def)
  show ?thesis
  proof (cases gate)
    case (Inl e)
    with True run s5 assms(8) show ?thesis by simp
  next
    case (Inr v)
    have got: "getMilestone a key s5 \<noteq> None" using getMilestone_ladder [of a s5 i key] s5 lad by simp
    have res: "apply_verdict env a key p n v now s5 = (res, s')" using run Inr assms(4,8) by simp
    show ?thesis
    proof (cases "rubric_column True (gv_rubricLevel v)")
      case (Inl e)
      with apply_verdict_refused [OF Inl got, of env p n now] True res Inr s5 show ?thesis by simp
    next
      case level: (Inr level)
      obtain t r sf where "apply_verdict env a key p n v now s5 = (Inr r, t)" "milestone_rows a t = rows_after v level now i rs"
          "project_ok a spec t" "log_ok t" "sr_gatedPass r = gv_passed v" "sr_score r = gv_score v"
          "sr_nextMilestoneOpened r = (if gv_passed v \<and> Suc i < length rs then Some (m_key (rs ! Suc i)) else None)"
        by (rule apply_verdict_run [OF s5(1,4,2,6,7,8) level, of env p n now])
      moreover have "m_key (rs ! Suc i) = mp_key (plans_of_spec spec ! Suc i)" if "Suc i < length rs"
        by (metis s5(5) length_map nth_map that)
      moreover have "length rs = length (plans_of_spec spec)" by (metis s5(5) length_map)
      ultimately show ?thesis
        using True res Inr level rows_after_progress [OF lad s5(6,8), of v level now]
        by (simp add: progress_def)
    qed
  qed
qed

text \<open>C10. Submitting the milestone a project attempt has reached has exactly the outcome of its
  gate: if the grader throws, or answers a level the database refuses, the error is passed on and the
  milestone stays SUBMITTED; otherwise the call returns the verdict and its score, a pass opens the next
  milestone (reported in the result) and a failure leaves it to be submitted again. Submitting a later
  milestone is refused as MILESTONE_LOCKED and an earlier one as MILESTONE_ALREADY_PASSED.\<close>

theorem submit_exact:
  assumes "project_ok a spec s" and "log_ok s" and "i < length (plans_of_spec spec)"
    and "p = plans_of_spec spec ! i" and "mp_key p = key" and "fst (progress a s) = k"
    and "gate = gate_of env a p (case d of None \<Rightarrow> [] | Some x \<Rightarrow> x) s"
    and "submitMilestone env a key d c rid now s = (res, s')"
  shows "project_ok a spec s' \<and> log_ok s' \<and>
    (if k < i then res = Inl (ProjectErr ''MILESTONE_LOCKED'' (''milestone '' @ quoted key @ '' is LOCKED'')) \<and> progress a s' = progress a s
     else if i < k then res = Inl (ProjectErr ''MILESTONE_ALREADY_PASSED'' (''milestone '' @ quoted key @ '' has already passed'')) \<and>
       progress a s' = progress a s
     else case gate of
       Inl e \<Rightarrow> res = Inl e \<and> progress a s' = (i, M_SUBMITTED)
     | Inr v \<Rightarrow> (case rubric_column True (gv_rubricLevel v) of
           Inl e \<Rightarrow> res = Inl e \<and> progress a s' = (i, M_SUBMITTED)
         | Inr level \<Rightarrow> \<exists>r. res = Inr r \<and> sr_gatedPass r = gv_passed v \<and> sr_score r = gv_score v \<and>
             sr_nextMilestoneOpened r = (if gv_passed v \<and> Suc i < length (plans_of_spec spec)
               then Some (mp_key (plans_of_spec spec ! Suc i)) else None) \<and>
             progress a s' = (if gv_passed v then (Suc i, OPEN) else (i, GATED_FAIL))))"
  using assms by (rule submit_outcome)

text \<open>Property. \<open>listMilestones\<close> and \<open>initProjectAttempt\<close> call each other, and the recursion ends: three
  nested calls are enough for every attempt and every state, more change nothing, and for a project
  attempt the call returns one view per milestone row, at least one, seeding the rows when there are
  none.
\<close>

theorem listing_terminates:
  assumes "3 \<le> n"
  shows "listMilestones_at n a now s = listMilestones a now s \<and>
    initProjectAttempt_at n a now s = initProjectAttempt a now s \<and>
    fst (listMilestones a now s) \<noteq> Inl OUT_OF_FUEL \<and> fst (initProjectAttempt a now s) \<noteq> Inl OUT_OF_FUEL \<and>
    (project_version a s = Some (spec, ''PROJECT'') \<longrightarrow>
      (\<exists>views s'. listMilestones a now s = (Inr views, s') \<and> views \<noteq> [] \<and>
        map mv_key views = map m_key (repo_listMilestones a s')))"
proof -
  obtain m where n: "n = Suc (Suc (Suc m))" using assms by (metis Suc_le_D eval_nat_numeral(3) le_add_diff_inverse numeral_2_eq_2 add_Suc)
  note three = numeral_3_eq_3
  show ?thesis
  proof (cases rule: load_cases [of a s])
    case (1 spec')
    have ne: "map (view_of (plans_of_spec spec')) (repo_listMilestones a (listed_state a spec' now s)) \<noteq> []"
      using seeded_nonempty [of "plans_of_spec spec'" a now s] by (simp add: repo_list_empty listed_state_def)
    show ?thesis
      using list_at_run [OF 1, of m now] list_at_run [OF 1, of 0 now] init_at_run [OF 1, of "Suc m" now] init_at_run [OF 1, of 1 now] 1 ne
      by (auto simp: n listMilestones_def initProjectAttempt_def three Let_def listed_state_def)
  next
    case (2 c msg)
    then have "listMilestones_at (Suc j) a now s = (Inl (ProjectErr c msg), s)"
      "initProjectAttempt_at (Suc j) a now s = (Inl (ProjectErr c msg), s)" for j
      by (simp_all add: listMilestones_at.simps initProjectAttempt_at.simps)
    moreover have "project_version a s \<noteq> Some (spec, ''PROJECT'')" using 2 load_run by fastforce
    ultimately show ?thesis by (simp add: n listMilestones_def initProjectAttempt_def three OUT_OF_FUEL_def)
  qed
qed

text \<open>The abstract machine: milestones passed so far, and the status of the current one.\<close>

inductive project_step :: "nat \<Rightarrow> nat \<times> milestone_status \<Rightarrow> nat \<times> milestone_status \<Rightarrow> bool" for n where
  refused: "project_step n st st"
| broken_off: "k < n \<Longrightarrow> project_step n (k, st) (k, M_SUBMITTED)"
| gate_failed: "k < n \<Longrightarrow> project_step n (k, st) (k, GATED_FAIL)"
| gate_passed: "k < n \<Longrightarrow> project_step n (k, st) (Suc k, OPEN)"

inductive_cases project_stepE: "project_step n st st'"

lemma project_steps_mono: "(project_step n)\<^sup>*\<^sup>* st st' \<Longrightarrow> fst st \<le> fst st' \<and> (fst st \<le> n \<longrightarrow> fst st' \<le> n)"
  by (induction rule: rtranclp_induct) (auto elim!: project_stepE)

record milestone_request =
  mr_key :: milestone_key
  mr_designText :: "string option"
  mr_commitSha :: "string option"
  mr_runId :: string
  mr_now :: time

definition submit_request :: "project_env \<Rightarrow> string \<Rightarrow> db \<Rightarrow> milestone_request \<Rightarrow> db" where
  "submit_request env a s q = snd (submitMilestone env a (mr_key q) (mr_designText q) (mr_commitSha q) (mr_runId q) (mr_now q) s)"

lemma submit_unknown:
  assumes "project_version a s = Some (spec, ''PROJECT'')" and "key \<notin> set (map mp_key (plans_of_spec spec))"
  shows "submitMilestone env a key d c rid now s = (Inl (NotFound (''activity has no milestone '' @ quoted key)), s)"
proof -
  have "find_row (\<lambda>p. mp_key p = key) (plans_of_spec spec) = None"
    using assms(2) by (auto simp: find_row_None_iff)
  with assms(1) show ?thesis by (simp add: submitMilestone_def submit_guards_def load_run)
qed

lemma submit_refines:
  assumes "project_ok a spec s" and "log_ok s"
  shows "project_ok a spec (submit_request env a s q) \<and> log_ok (submit_request env a s q) \<and>
    project_step (length (plans_of_spec spec)) (progress a s) (progress a (submit_request env a s q))"
proof (cases "mr_key q \<in> set (map mp_key (plans_of_spec spec))")
  case False
  with submit_unknown [of a s spec "mr_key q"] assms show ?thesis
    by (simp add: submit_request_def project_ok_def project_step.refused)
next
  case True
  then obtain i where i: "i < length (plans_of_spec spec)" "mp_key (plans_of_spec spec ! i) = mr_key q"
    by (auto simp: in_set_conv_nth)
  obtain k st where pr: "progress a s = (k, st)" by fastforce
  obtain res s' where run: "submitMilestone env a (mr_key q) (mr_designText q) (mr_commitSha q) (mr_runId q) (mr_now q) s = (res, s')"
    by fastforce
  from submit_outcome [OF assms i(1) refl i(2) refl refl run] i(1) pr run show ?thesis
    by (auto simp: submit_request_def project_step.intros split: if_splits sum.splits)
qed

lemma submissions_refine:
  assumes "project_ok a spec s" and "log_ok s"
  shows "project_ok a spec (foldl (submit_request env a) s qs) \<and> log_ok (foldl (submit_request env a) s qs) \<and>
    (project_step (length (plans_of_spec spec)))\<^sup>*\<^sup>* (progress a s) (progress a (foldl (submit_request env a) s qs))"
  using assms
proof (induction qs arbitrary: s)
  case (Cons q qs)
  from Cons.IH [of "submit_request env a s q"] submit_refines [OF Cons.prems, of env q] show ?case
    by (auto intro: converse_rtranclp_into_rtranclp)
qed simp


text \<open>Property. A submission that is refused writes nothing: for an unknown attempt, an attempt of another
  mode or a milestone the content does not have the database is unchanged; for a locked or passed
  milestone at most the milestone rows are seeded, and attempts, submissions and scores are as before.
  The error names the reason.\<close>

theorem submit_refused:
  assumes "submitMilestone env a key d c rid now s = (res, s')"
  shows "(project_version a s = None \<longrightarrow> res = Inl (ProjectErr ''ATTEMPT_NOT_FOUND'' (''attempt '' @ a @ '' not found'')) \<and> s' = s) \<and>
    (\<forall>spec mode. project_version a s = Some (spec, mode) \<and> mode \<noteq> ''PROJECT'' \<longrightarrow>
       res = Inl (ProjectErr ''NOT_A_PROJECT'' (''attempt '' @ a @ '' is mode '' @ mode @ '', not PROJECT'')) \<and> s' = s) \<and>
    (\<forall>spec. project_version a s = Some (spec, ''PROJECT'') \<and> key \<notin> set (map mp_key (plans_of_spec spec)) \<longrightarrow>
       res = Inl (NotFound (''activity has no milestone '' @ quoted key)) \<and> s' = s) \<and>
    (\<forall>spec i. project_ok a spec s \<and> i < length (plans_of_spec spec) \<and> mp_key (plans_of_spec spec ! i) = key \<and> fst (progress a s) \<noteq> i \<longrightarrow>
       (\<exists>code msg. res = Inl (ProjectErr code msg) \<and> code = (if fst (progress a s) < i then ''MILESTONE_LOCKED'' else ''MILESTONE_ALREADY_PASSED'')) \<and>
       (milestone_rows a s \<noteq> [] \<longrightarrow> s' = s) \<and> attempts s' = attempts s \<and> submissions s' = submissions s \<and> scores s' = scores s)"
proof (intro conjI allI impI)
  show "res = Inl (ProjectErr ''ATTEMPT_NOT_FOUND'' (''attempt '' @ a @ '' not found''))" "s' = s" if "project_version a s = None"
    using that assms by (simp_all add: submitMilestone_def submit_guards_def loadMilestoneSpecs_def projectError_def)
  show "res = Inl (ProjectErr ''NOT_A_PROJECT'' (''attempt '' @ a @ '' is mode '' @ mode @ '', not PROJECT''))" "s' = s"
    if "project_version a s = Some (spec, mode) \<and> mode \<noteq> ''PROJECT''" for spec mode
    using that assms by (simp_all add: submitMilestone_def submit_guards_def loadMilestoneSpecs_def projectError_def)
  show "res = Inl (NotFound (''activity has no milestone '' @ quoted key))" "s' = s"
    if "project_version a s = Some (spec, ''PROJECT'') \<and> key \<notin> set (map mp_key (plans_of_spec spec))" for spec
    using that assms submit_unknown [of a s spec key env d c rid now] by simp_all
  fix spec i
  assume A: "project_ok a spec s \<and> i < length (plans_of_spec spec) \<and> mp_key (plans_of_spec spec ! i) = key \<and> fst (progress a s) \<noteq> i"
  with submit_not_active [of a spec s i key env d c rid now] assms
  show "\<exists>code msg. res = Inl (ProjectErr code msg) \<and> code = (if fst (progress a s) < i then ''MILESTONE_LOCKED'' else ''MILESTONE_ALREADY_PASSED'')"
    by auto
  from A submit_not_active [of a spec s i key env d c rid now] assms have "s' = listed_state a spec now s" by simp
  then show "s' = s" if "milestone_rows a s \<noteq> []" using that by (simp add: listed_state_def)
  show "attempts s' = attempts s" "submissions s' = submissions s" "scores s' = scores s"
    using \<open>s' = listed_state a spec now s\<close> by (simp_all add: listed_state_def)
qed

text \<open>Property. Passing the gate of the last milestone (\<open>final\<close>) records the project score: exactly one
  score row is added, under the project profile, holding the roll-up of the milestone scores as they
  are then, of the latest viva score and of the mapped skills; its value lies in [0,1], and it says
  passed exactly when it reaches 0.7. Any other submission adds no score row.
\<close>

theorem final_gate_scores:
  assumes "project_ok a spec s" and "log_ok s" and "i < length (plans_of_spec spec)"
    and "mp_key (plans_of_spec spec ! i) = key"
    and "submitMilestone env a key d c rid now s = (res, s')"
  shows "if key = Final \<and> (\<exists>r. res = Inr r \<and> sr_gatedPass r)
    then \<exists>row sf. scores s' = scores s @ [row] \<and> row = project_score_row a (rollup_now a spec sf) \<and>
      milestone_rows a sf = milestone_rows a s' \<and> sc_attempt_id row = a \<and>
      0 \<le> sc_final_score row \<and> sc_final_score row \<le> 1 \<and> (sc_passed row \<longleftrightarrow> sc_final_score row \<ge> 7/10)
    else scores s' = scores s"
proof (cases "fst (progress a s) = i")
  case False
  with submit_not_active [OF assms(1,3,4), of env d c rid now] assms(5) show ?thesis
    by (auto simp: listed_state_def)
next
  case True
  obtain gate where gate: "gate = gate_of env a (plans_of_spec spec ! i) (case d of None \<Rightarrow> [] | Some x \<Rightarrow> x) s" by simp
  obtain n rs s5 sub where run: "submitMilestone env a key d c rid now s =
      (case gate of Inl e \<Rightarrow> (Inl e, s5) | Inr v \<Rightarrow> apply_verdict env a key (plans_of_spec spec ! i) n v now s5)"
    and s5: "project_ok a spec s5" "log_ok s5" "progress a s5 = (i, M_SUBMITTED)" "rs = milestone_rows a s5"
      "map m_key rs = map mp_key (plans_of_spec spec)" "i < length rs" "m_key (rs ! i) = key" "in_work (m_status (rs ! i))" "scores s5 = scores s"
    by (rule submit_at_gate [OF assms(1,2) True assms(3,4) gate, of c rid now])
  show ?thesis
  proof (cases gate)
    case (Inr v)
    have res: "apply_verdict env a key (plans_of_spec spec ! i) n v now s5 = (res, s')" using run Inr assms(5) by simp
    show ?thesis
    proof (cases "rubric_column True (gv_rubricLevel v)")
      case (Inl e)
      have "getMilestone a key s5 \<noteq> None"
        using getMilestone_ladder [of a s5 i key] s5 by (simp add: project_ok_def)
      from apply_verdict_refused [OF Inl this] res s5(9) show ?thesis by auto
    next
      case level: (Inr level)
      obtain t r sf where "apply_verdict env a key (plans_of_spec spec ! i) n v now s5 = (Inr r, t)"
          "milestone_rows a t = rows_after v level now i rs" "sr_gatedPass r = gv_passed v"
          "scores t = scores s5 @ (if key = Final \<and> gv_passed v then [project_score_row a (rollup_now a spec sf)] else [])"
          "milestone_rows a sf = rows_after v level now i rs"
        by (rule apply_verdict_run [OF s5(1,4,2,6,7,8) level, of env "plans_of_spec spec ! i" n now])
      moreover have "0 \<le> rr_finalScore (rollup x)" "rr_finalScore (rollup x) \<le> 1" for x
        using round4_bounds [of "clamp01 (total x)"] by (simp_all add: rollup_final)
      ultimately show ?thesis using res s5(9)
        by (auto simp: project_score_row_def rollup_now_def rollup_passed intro!: exI [of _ sf])
    qed
  qed (use run assms(5) s5(9) in auto)
qed

section \<open>Column types\<close>

text \<open>What the columns of a milestone row hold, in every state the service leaves behind.\<close>

definition milestone_typed :: "milestone_row \<Rightarrow> bool" where
  "milestone_typed r \<longleftrightarrow>
     (case m_rubric_level r of None \<Rightarrow> True | Some l \<Rightarrow> 1 \<le> l \<and> l \<le> 5) \<and>
     (case m_score r of None \<Rightarrow> True | Some x \<Rightarrow> 0 \<le> x \<and> x \<le> 1) \<and>
     (m_status r \<in> {GATED_PASS, GATED_FAIL} \<longrightarrow> m_score r \<noteq> None \<and> m_gated_at r \<noteq> None) \<and>
     (m_status r = M_SUBMITTED \<longrightarrow> m_submitted_at r \<noteq> None)"

definition typed :: "db \<Rightarrow> bool" where
  "typed s \<longleftrightarrow> list_all milestone_typed (milestones s)"

lemma typed_modify [keeps]:
  "(\<And>s. typed s \<Longrightarrow> list_all milestone_typed (milestones (f s))) \<Longrightarrow> preserves typed (modify f)"
  by (rule preservesI) (simp add: typed_def)

lemma typed_append [keeps]: "preserves typed (appendTypedEvent a actor ty p t)"
  by (rule preservesI) (simp add: typed_def)

lemma list_all_update_where:
  "list_all P rs \<Longrightarrow> (\<And>r. r \<in> set rs \<Longrightarrow> p r \<Longrightarrow> P r \<Longrightarrow> P (f r)) \<Longrightarrow> list_all P (update_where p f rs)"
  by (induction rs) auto

lemma milestone_typed_rows:
  "milestone_typed r \<Longrightarrow> milestone_typed (r\<lparr>m_status := OPEN\<rparr>)"
  "milestone_typed r \<Longrightarrow> milestone_typed (r\<lparr>m_status := M_SUBMITTED, m_submitted_at := Some now, m_attempt_count := n\<rparr>)"
  "0 \<le> sc \<Longrightarrow> sc \<le> 1 \<Longrightarrow> (case level of None \<Rightarrow> True | Some l \<Rightarrow> 1 \<le> l \<and> l \<le> 5) \<Longrightarrow> st \<noteq> M_SUBMITTED \<Longrightarrow>
     milestone_typed (r\<lparr>m_status := st, m_score := Some sc, m_rubric_level := level, m_gated_at := Some now\<rparr>)"
  "sd_status m \<in> {OPEN, LOCKED} \<Longrightarrow> milestone_typed (seeded_row a m)"
  by (auto simp: milestone_typed_def seeded_row_def)

lemma typed_markSubmitted [keeps]: "preserves typed (markSubmitted a k now)"
  unfolding markSubmitted_def
  by (intro keeps) (auto simp: typed_def intro!: list_all_update_where milestone_typed_rows)

lemma transaction_at: "I s \<Longrightarrow> I (snd (m s)) \<Longrightarrow> I (snd (transaction m s))"
  by (auto simp: transaction_def split: sum.split prod.split)

lemma typed_applyGateOutcome:
  assumes "0 \<le> sc" and "sc \<le> 1"
  shows "preserves typed (applyGateOutcome a k pass sc lvl now)"
proof (rule preservesI)
  fix s assume s: "typed s"
  show "typed (snd (applyGateOutcome a k pass sc lvl now s))"
  proof (cases "rubric_column (getMilestone a k s \<noteq> None) lvl")
    case (Inr level)
    let ?f = "\<lambda>r. r\<lparr>m_status := (if pass then GATED_PASS else GATED_FAIL), m_score := Some sc, m_rubric_level := level, m_gated_at := Some now\<rparr>"
    have "case level of None \<Rightarrow> True | Some l \<Rightarrow> 1 \<le> l \<and> l \<le> 5" if "r \<in> set (milestones s)" "milestone_at a k r" for r
    proof -
      have "getMilestone a k s \<noteq> None" using that by (auto simp: getMilestone_def find_row_None_iff)
      with Inr show ?thesis by (cases "(True, lvl)" rule: rubric_column.cases) (auto split: if_splits option.splits)
    qed
    then have one: "typed (s\<lparr>milestones := update_where (milestone_at a k) ?f (milestones s)\<rparr>)" (is "typed ?s1")
      using s assms unfolding typed_def by (auto intro!: list_all_update_where milestone_typed_rows)
    have "preserves typed (bnd (bnd (query (getMilestone a k)) takeFirstOrThrow) (\<lambda>gated.
        when_io pass (modify (\<lambda>s. s\<lparr>milestones := update_where
          (\<lambda>r. m_attempt_id r = a \<and> m_ordinal r = m_ordinal gated + 1 \<and> m_status r = LOCKED)
          (\<lambda>r. r\<lparr>m_status := OPEN\<rparr>) (milestones s)\<rparr>)) :: unit prog))" (is "preserves typed ?m")
      by (intro keeps) (auto simp: typed_def intro!: list_all_update_where milestone_typed_rows)
    then have "typed (snd (?m ?s1))" using one by (simp add: preserves_def)
    with Inr show ?thesis unfolding applyGateOutcome_def by (intro transaction_at [where I = typed, OF s]) simp
  qed (simp add: applyGateOutcome_def s)
qed

lemma computeMilestoneScore_bounds: "0 \<le> computeMilestoneScore g sm l" "computeMilestoneScore g sm l \<le> 1"
proof -
  have len: "length (filter snd sm) \<le> length sm" by (rule length_filter_le)
  have v: "0 \<le> v" "v \<le> 1" if "v = (if sm = [] then 1 else real (length (filter snd sm)) / real (length sm))" for v
    using that len by (auto simp: divide_le_eq)
  have r: "0 \<le> rubric_score l" "rubric_score l \<le> 1" by (cases l rule: rubric_score.cases; simp)+
  show "0 \<le> computeMilestoneScore g sm l" "computeMilestoneScore g sm l \<le> 1"
    using v [OF refl] r round4_bounds by (cases g; simp add: computeMilestoneScore_def Let_def)+
qed

lemma typed_seed [keeps]:
  assumes "\<And>m. m \<in> set ms \<Longrightarrow> sd_status m \<in> {OPEN, LOCKED}"
  shows "preserves typed (seedMilestones a ms)"
proof -
  have "list_all milestone_typed rs \<Longrightarrow> list_all milestone_typed (foldl (insert_milestone a) rs ms)" for rs
    using assms
  proof (induction ms arbitrary: rs)
    case (Cons m ms)
    have "list_all milestone_typed (insert_milestone a rs m)"
      using Cons.prems by (cases "list_ex (milestone_at a (sd_milestoneKey m)) rs") (simp_all add: insert_milestone_cases milestone_typed_rows)
    with Cons show ?case by simp
  qed simp
  then show ?thesis by (intro preservesI) (simp add: seedMilestones_run typed_def)
qed

lemma typed_load [keeps]: "preserves I (loadMilestoneSpecs a)"
  unfolding loadMilestoneSpecs_def projectError_def by (intro keeps) (auto intro: keeps split: prod.split)

lemma typed_listing: "preserves typed (initProjectAttempt_at n a now)" "preserves typed (listMilestones_at n a now)"
proof (induction n)
  case (Suc n)
  have "sd_status m \<in> {OPEN, LOCKED}" if "m \<in> set (seeds_of specs)" for m specs
    using that by (auto simp: seeds_of_def split: if_splits)
  then show "preserves typed (initProjectAttempt_at (Suc n) a now)" "preserves typed (listMilestones_at (Suc n) a now)"
    unfolding initProjectAttempt_at.simps listMilestones_at.simps using Suc by (auto intro!: keeps)
qed (simp_all add: initProjectAttempt_at.simps listMilestones_at.simps preserves_throw)

lemma typed_final: "preserves typed (finalizeProjectScore a now)"
  unfolding finalizeProjectScore_def listMilestones_def Let_def
  by (intro keeps typed_listing) (simp add: typed_def)

lemma typed_env [keeps]: "preserves typed (applyEnvLifecycle orch a p pass)"
  unfolding applyEnvLifecycle_def Let_def by (intro keeps) (simp_all add: typed_def)

lemma typed_verdict:
  "0 \<le> gv_score v \<Longrightarrow> gv_score v \<le> 1 \<Longrightarrow> preserves typed (apply_verdict env a key p n v now)"
  unfolding apply_verdict_def stampSubmissionOutcome_def
  by (intro keeps typed_applyGateOutcome typed_final) (simp_all add: typed_def)

lemma typed_pointer [keeps]: "preserves typed (record_pointer git a k n c now)"
proof (rule preservesI)
  fix s assume "typed s"
  moreover obtain s' sub where "record_pointer git a k n c now s = (Inr (), s')" "s' = s\<lparr>submissions := submissions s @ [sub]\<rparr>"
    using record_pointer_run by blast
  ultimately show "typed (snd (record_pointer git a k n c now s))" by (simp add: typed_def)
qed

lemma typed_run_validation [keeps]: "preserves typed (run_validation ex a env sc trigger tasks rid now)"
proof (rule run_validation_keeps)
  show "preserves typed (appendTypedEvent a actor ty p now)" for ty actor p by (rule keeps)
  show "preserves typed (modify f :: unit prog)" if "\<And>s. rest (f s) = rest s \<and> events (f s) = events s" for f
  proof (intro keeps)
    fix s assume "typed s"
    moreover have "milestones (f s) = milestones s" using restD(11) [of "f s" s] that by blast
    ultimately show "list_all milestone_typed (milestones (f s))" by (simp add: typed_def)
  qed
qed

lemma typed_guards [keeps]: "preserves typed (submit_guards a key now)"
  unfolding submit_guards_def listMilestones_def projectError_def by (intro keeps typed_listing)

lemma preserves_bnd_value:
  assumes "preserves I m" and "\<And>s x s'. m s = (Inr x, s') \<Longrightarrow> Q x" and "\<And>x. Q x \<Longrightarrow> preserves I (f x)"
  shows "preserves I (bnd m f)"
proof (rule preservesI)
  fix s assume "I s"
  obtain r s1 where m: "m s = (r, s1)" by fastforce
  with \<open>I s\<close> assms(1) have "I s1" by (metis preservesD)
  with m assms(2,3) show "I (snd (bnd m f s))" by (cases r) (auto simp: preserves_def)
qed

lemma typed_gate: "preserves typed (run_gate ex rb gr a p d rid now)"
  unfolding run_gate_def runMilestoneValidators_def gradeMilestoneRubric_def by (intro keeps) (auto intro: keeps split: prod.split)

lemma run_gate_score: "run_gate ex rb gr a p d rid now s = (Inr v, s') \<Longrightarrow> 0 \<le> gv_score v \<and> gv_score v \<le> 1"
  by (auto simp: run_gate_def verdict_of_def Let_def computeMilestoneScore_bounds elim!: bnd_cases split: if_splits)

text \<open>Property. Typing of the milestone table: starting from rows whose columns are in range, every project
  operation, whatever it is given and whatever the remote services answer, leaves rows in range: rubric
  levels 1 to 5, scores in [0,1], a gated milestone has its score and gating time, a submitted one
  its submission time. Out-of-range levels of a grader never reach the table.\<close>

theorem milestones_typed:
  assumes "typed s"
  shows "typed (snd (submitMilestone env a key d c rid now s)) \<and> typed (snd (listMilestones a now s)) \<and>
    typed (snd (initProjectAttempt a now s))"
proof -
  have gate: "preserves typed (bnd (run_gate ex rb gr a p t rid now) (\<lambda>v. apply_verdict env a key p n v now))" for ex rb gr p t n
    by (rule preserves_bnd_value [OF typed_gate run_gate_score]) (auto intro: typed_verdict)
  have "preserves typed (submitMilestone env a key d c rid now)"
    unfolding submitMilestone_def by (intro keeps gate)
  with assms show ?thesis
    using typed_listing [of 3 a now] by (simp add: preserves_def listMilestones_def initProjectAttempt_def)
qed

section \<open>Three consequences\<close>

text \<open>A rubric gate without a rubric does not fail the milestone: its level 0 is refused by the database.\<close>

lemma gate_without_rubric:
  assumes "mp_gate p \<noteq> ALL_VALIDATORS_PASS" and "mp_rubric p = None"
  shows "\<exists>v. gate_of env a p d s = Inr v \<and> gv_rubricLevel v = Some (Level 0) \<and>
    rubric_column True (gv_rubricLevel v) = Inl (DbErr ''project_milestone_state_rubric_level_check'')"
  using assms by (simp add: gate_of_def gradeMilestoneRubric_def verdict_of_def Let_def)

text \<open>A validator gate whose task keys name no task of the content is passed with the full score.\<close>

lemma gate_without_tasks:
  assumes "mp_gate p = ALL_VALIDATORS_PASS" and "project_version a s = Some (full, mode)" and "milestone_tasks p full = []"
  shows "\<exists>v. gate_of env a p d s = Inr v \<and> gv_passed v \<and> gv_score v = 1"
  using assms project_version_find [OF assms(2)]
  by (auto simp: gate_of_def verdict_of_def milestone_summary_def computeMilestoneScore_def Let_def)

text \<open>\<open>markSubmitted\<close> itself has no guard: applied to a passed milestone it takes the pass back.\<close>

lemma markSubmitted_unguarded:
  assumes "getMilestone a k s = Some r"
  shows "map_option m_status (getMilestone a k (snd (markSubmitted a k now s))) = Some M_SUBMITTED"
proof -
  have "getMilestone a k (s\<lparr>milestones := update_where (milestone_at a k) (submitted_row now) (milestones s)\<rparr>) = Some (submitted_row now r)"
    using assms find_update_where_same [of "milestone_at a k" "submitted_row now" "milestones s"]
    by (simp add: getMilestone_def milestone_at_def)
  then show ?thesis unfolding markSubmitted_def submitted_row_def [symmetric, abs_def] by simp
qed

section \<open>Witnesses\<close>

definition demo_plan :: milestone_spec where
  "demo_plan = \<lparr>ms_key = Final, ms_title = ''Final'', ms_gate = ALL_VALIDATORS_PASS, ms_blocking = None,
     ms_environment_required = False, ms_task_keys = None, ms_rubric = None, ms_min_level = None\<rparr>"

definition demo_project_spec :: activity_spec where
  "demo_project_spec = (v_spec demo_version)\<lparr>as_milestones := Some [demo_plan]\<rparr>"

definition demo_project_db :: db where
  "demo_project_db = demo_eval_db\<lparr>attempts := [demo_attempt\<lparr>a_mode := ''PROJECT''\<rparr>],
     versions := [demo_version\<lparr>v_spec := demo_project_spec\<rparr>]\<rparr>"

definition demo_project_env :: project_env where
  "demo_project_env = \<lparr>pe_executor = demo_exec, pe_rubrics = (\<lambda>_. None), pe_grader = (\<lambda>_ _. Inl (RemoteErr ''down'')),
     pe_git = \<lparr>gh_isConfigured = False, gh_listCommits = (\<lambda>_ _ _ _. Inl (RemoteErr ''off'')),
       gh_getFileContent = (\<lambda>_ _ _ _. Inl (RemoteErr ''off'')), gh_getDiff = (\<lambda>_ _ _ _. Inl (RemoteErr ''off''))\<rparr>,
     pe_orchestrator = \<lparr>po_provisionForMilestone = (\<lambda>_ _. Inl (RemoteErr ''off'')), po_snapshotAndSuspend = (\<lambda>_ _. Inl (RemoteErr ''off''))\<rparr>\<rparr>"

lemma demo_project_plans:
  "plans_of_spec demo_project_spec = [\<lparr>mp_key = Final, mp_title = ''Final'', mp_gate = ALL_VALIDATORS_PASS,
     mp_blocking = True, mp_environmentRequired = False, mp_taskKeys = [], mp_rubric = None, mp_minLevel = None\<rparr>]"
  by (simp add: plans_of_spec_def demo_project_spec_def demo_plan_def plan_of_spec_def)

lemma demo_project:
  "project_version ''a'' demo_project_db = Some (demo_project_spec, ''PROJECT'')" "project_ok ''a'' demo_project_spec demo_project_db"
  "log_ok demo_project_db" "progress ''a'' demo_project_db = (0, OPEN)" "typed demo_project_db"
proof -
  show v: "project_version ''a'' demo_project_db = Some (demo_project_spec, ''PROJECT'')"
    by (simp add: project_version_def findById_def demo_project_db_def demo_eval_db_def demo_attempt_def demo_version_def)
  show "project_ok ''a'' demo_project_spec demo_project_db"
    unfolding project_ok_def v by (simp add: demo_project_plans milestone_rows_def ladder_def demo_project_db_def demo_eval_db_def empty_db_def)
  show "log_ok demo_project_db" "progress ''a'' demo_project_db = (0, OPEN)" "typed demo_project_db"
    by (simp_all add: log_ok_def of_attempt_def progress_def progress_of_def passed_count_def milestone_rows_def typed_def
        demo_project_db_def demo_eval_db_def empty_db_def)
qed

lemma demo_gate: "gate_of demo_project_env ''a'' (plans_of_spec demo_project_spec ! 0) d s =
    Inr \<lparr>gv_passed = True, gv_score = 1, gv_rubricLevel = None, gv_provisional = False, gv_summary = []\<rparr>"
  by (simp add: demo_project_plans gate_of_def verdict_of_def milestone_summary_def computeMilestoneScore_def Let_def)

theorem submit_exact_witness:
  "\<exists>r s'. submitMilestone demo_project_env ''a'' Final None None ''r1'' 9 demo_project_db = (Inr r, s') \<and> sr_gatedPass r
     \<and> progress ''a'' s' = (1, OPEN)"
proof -
  obtain res s' where run: "submitMilestone demo_project_env ''a'' Final None None ''r1'' 9 demo_project_db = (res, s')" by fastforce
  have key: "mp_key (plans_of_spec demo_project_spec ! 0) = Final" "0 < length (plans_of_spec demo_project_spec)"
    by (simp_all add: demo_project_plans)
  from submit_exact [OF demo_project(2,3) key(2) refl key(1) _ refl run, of 0] run show ?thesis
    by (auto simp: demo_project(4) demo_gate)
qed

theorem listing_terminates_witness:
  "\<exists>views s'. listMilestones_at 9 ''a'' 5 demo_project_db = (Inr views, s') \<and> views \<noteq> []"
  using listing_terminates [of 9 "''a''" 5 demo_project_db demo_project_spec] demo_project(1) by auto


theorem submit_refused_witness:
  "submitMilestone demo_project_env ''a'' Design None None ''r1'' 9 demo_project_db =
     (Inl (NotFound (''activity has no milestone '' @ quoted Design)), demo_project_db)"
proof -
  obtain res s' where run: "submitMilestone demo_project_env ''a'' Design None None ''r1'' 9 demo_project_db = (res, s')" by fastforce
  have "Design \<notin> set (map mp_key (plans_of_spec demo_project_spec))" by (simp add: demo_project_plans)
  with submit_refused [OF run] demo_project(1) run show ?thesis by blast
qed

theorem final_gate_scores_witness:
  "\<exists>row. scores (snd (submitMilestone demo_project_env ''a'' Final None None ''r1'' 9 demo_project_db)) = [row] \<and>
     sc_final_score row \<le> 1"
proof -
  obtain res s' where run: "submitMilestone demo_project_env ''a'' Final None None ''r1'' 9 demo_project_db = (res, s')" by fastforce
  have key: "mp_key (plans_of_spec demo_project_spec ! 0) = Final" "0 < length (plans_of_spec demo_project_spec)"
    by (simp_all add: demo_project_plans)
  from submit_outcome [OF demo_project(2,3) key(2) refl key(1) _ refl run, of 0]
  have "\<exists>r. res = Inr r \<and> sr_gatedPass r" by (auto simp: demo_project(4) demo_gate)
  moreover have "scores demo_project_db = []" by (simp add: demo_project_db_def demo_eval_db_def empty_db_def)
  ultimately show ?thesis using final_gate_scores [OF demo_project(2,3) key(2,1) run] run by auto
qed

theorem milestones_typed_witness:
  "typed (snd (submitMilestone demo_project_env ''a'' Final None None ''r1'' 9 demo_project_db))"
  using milestones_typed [OF demo_project(5)] by blast

end
