(* ===== verification/LlmGateway.thy ===== *)
theory LlmGateway
  imports Schema
begin

text \<open>
  The chokepoint of every model call: \<open>llm-gateway/router.ts\<close>, \<open>budget-ledger.ts\<close>,
  \<open>prompt-cache.ts\<close> and \<open>llm-gateway.service.ts\<close>. The providers, the hash function and the redactor are
  parameters; a provider's answer carries the milliseconds it took, so that the clock advances inside a
  call. Amounts are reals, tokens natural numbers.

  The invariants are \<open>ledger_ok\<close>, no counter above its limit, and \<open>cache_ok\<close>, the cache within its
  bound with distinct keys.
\<close>

section \<open>Model: router.ts\<close>

datatype task_class = Intent_classify | Hint_rag | Summarise | Mentor_reply | Feedback | Grade
  | Architecture_review | Viva | Authoring

datatype model_tier = Fast | Mid | Strong

fun tierFor :: "task_class \<Rightarrow> model_tier" where
  "tierFor Intent_classify = Fast"
| "tierFor Hint_rag = Fast"
| "tierFor Summarise = Fast"
| "tierFor Mentor_reply = Mid"
| "tierFor Feedback = Mid"
| "tierFor Grade = Strong"
| "tierFor Architecture_review = Strong"
| "tierFor Viva = Strong"
| "tierFor Authoring = Strong"

fun TIER_MAX_OUTPUT :: "model_tier \<Rightarrow> nat" where
  "TIER_MAX_OUTPUT Fast = 512"
| "TIER_MAX_OUTPUT Mid = 1024"
| "TIER_MAX_OUTPUT Strong = 2048"

text \<open>Input and output rate per 1000 tokens.\<close>

fun TIER_RATE_USD_PER_1K :: "model_tier \<Rightarrow> real \<times> real" where
  "TIER_RATE_USD_PER_1K Fast = (8/10000, 4/1000)"
| "TIER_RATE_USD_PER_1K Mid = (3/1000, 15/1000)"
| "TIER_RATE_USD_PER_1K Strong = (15/1000, 75/1000)"

definition maxOutputTokensFor :: "model_tier \<Rightarrow> int option \<Rightarrow> nat" where
  "maxOutputTokensFor tier requested =
     (let ceiling = TIER_MAX_OUTPUT tier in
      case requested of None \<Rightarrow> ceiling | Some r \<Rightarrow> if r \<le> 0 then ceiling else min (nat r) ceiling)"

definition estimateCostUsd :: "model_tier \<Rightarrow> nat \<Rightarrow> nat \<Rightarrow> real" where
  "estimateCostUsd tier inputTokens outputTokens =
     (case TIER_RATE_USD_PER_1K tier of (i, out) \<Rightarrow> real inputTokens / 1000 * i + real outputTokens / 1000 * out)"

text \<open>\<open>Math.ceil(text.length / 4)\<close>.\<close>

definition estimateTokens :: "string \<Rightarrow> nat" where
  "estimateTokens t = (length t + 3) div 4"

section \<open>Model: budget-ledger.ts\<close>

record budget_config =
  bc_perAttemptUsd :: real
  bc_perUserDailyUsd :: real
  bc_perTenantMonthlyUsd :: real
  bc_globalDailyUsd :: real

definition BUDGET_DEFAULTS :: budget_config where
  "BUDGET_DEFAULTS = \<lparr>bc_perAttemptUsd = 5/100, bc_perUserDailyUsd = 1/2, bc_perTenantMonthlyUsd = 50, bc_globalDailyUsd = 500\<rparr>"

record counter =
  ct_spentUsd :: real
  ct_windowStart :: time

record ledger =
  lg_cfg :: budget_config
  lg_attempt :: "string \<Rightarrow> counter option"
  lg_user :: "string \<Rightarrow> counter option"
  lg_tenant :: "string \<Rightarrow> counter option"
  lg_global :: counter
  lg_globalBreakerUntil :: time
  lg_consecutiveProviderErrors :: nat

definition DAY :: time where "DAY = 86400000"
definition MONTH :: time where "MONTH = 30 * DAY"

definition roll :: "counter option \<Rightarrow> time \<Rightarrow> time \<Rightarrow> counter" where
  "roll c windowMs now = (case c of
     None \<Rightarrow> \<lparr>ct_spentUsd = 0, ct_windowStart = now\<rparr>
   | Some c \<Rightarrow> if now - ct_windowStart c \<ge> windowMs then \<lparr>ct_spentUsd = 0, ct_windowStart = now\<rparr> else c)"

record scope =
  sp_attemptId :: "string option"
  sp_userId :: "string option"
  sp_tenantId :: "string option"

datatype budget_scope = AttemptScope | UserScope | TenantScope | GlobalScope

text \<open>A scope that is given, checked against its map of counters.\<close>

definition breaches :: "string option \<Rightarrow> (string \<Rightarrow> counter option) \<Rightarrow> time \<Rightarrow> time \<Rightarrow> real \<Rightarrow> real \<Rightarrow> bool" where
  "breaches scopeId counters windowMs now est limit =
     (truthy scopeId \<and> ct_spentUsd (roll (counters (the scopeId)) windowMs now) + est > limit)"

definition checkOrThrow :: "ledger \<Rightarrow> real \<Rightarrow> scope \<Rightarrow> time \<Rightarrow> budget_scope + unit" where
  "checkOrThrow l est sc now =
     (if now < lg_globalBreakerUntil l then Inl GlobalScope
      else if ct_spentUsd (roll (Some (lg_global l)) DAY now) + est > bc_globalDailyUsd (lg_cfg l) then Inl GlobalScope
      else if breaches (sp_attemptId sc) (lg_attempt l) DAY now est (bc_perAttemptUsd (lg_cfg l)) then Inl AttemptScope
      else if breaches (sp_userId sc) (lg_user l) DAY now est (bc_perUserDailyUsd (lg_cfg l)) then Inl UserScope
      else if breaches (sp_tenantId sc) (lg_tenant l) MONTH now est (bc_perTenantMonthlyUsd (lg_cfg l)) then Inl TenantScope
      else Inr ())"

definition spend :: "real \<Rightarrow> counter \<Rightarrow> counter" where
  "spend cost c = c\<lparr>ct_spentUsd := ct_spentUsd c + cost\<rparr>"

definition charge_scope :: "string option \<Rightarrow> time \<Rightarrow> time \<Rightarrow> real \<Rightarrow> (string \<Rightarrow> counter option) \<Rightarrow> string \<Rightarrow> counter option" where
  "charge_scope scopeId windowMs now cost counters =
     (if truthy scopeId then counters(the scopeId := Some (spend cost (roll (counters (the scopeId)) windowMs now))) else counters)"

definition charge :: "ledger \<Rightarrow> real \<Rightarrow> scope \<Rightarrow> time \<Rightarrow> ledger" where
  "charge l cost sc now =
     l\<lparr>lg_global := spend cost (roll (Some (lg_global l)) DAY now),
       lg_attempt := charge_scope (sp_attemptId sc) DAY now cost (lg_attempt l),
       lg_user := charge_scope (sp_userId sc) DAY now cost (lg_user l),
       lg_tenant := charge_scope (sp_tenantId sc) MONTH now cost (lg_tenant l),
       lg_consecutiveProviderErrors := 0\<rparr>"

definition noteProviderError :: "ledger \<Rightarrow> time \<Rightarrow> ledger" where
  "noteProviderError l now =
     (let n = lg_consecutiveProviderErrors l + 1 in
      l\<lparr>lg_consecutiveProviderErrors := n,
        lg_globalBreakerUntil := (if n \<ge> 5 then now + 60000 else lg_globalBreakerUntil l)\<rparr>)"

definition spentOnAttempt :: "ledger \<Rightarrow> string \<Rightarrow> time \<Rightarrow> real" where
  "spentOnAttempt l attemptId now = ct_spentUsd (roll (lg_attempt l attemptId) DAY now)"

definition breakerOpen :: "ledger \<Rightarrow> time \<Rightarrow> bool" where
  "breakerOpen l now \<longleftrightarrow> now < lg_globalBreakerUntil l"

section \<open>Model: prompt-cache.ts\<close>

record cached_value =
  cv_text :: string
  cv_model :: string
  cv_inputTokens :: nat
  cv_outputTokens :: nat

record cache_entry =
  ce_promptVersion :: string
  ce_systemKey :: string
  ce_shingles :: "string list"
  ce_value :: cached_value
  ce_expiresAt :: time

datatype cache_kind = Exact | Semantic

text \<open>The JavaScript \<open>Map\<close>: key and entry, in insertion order.\<close>

record prompt_cache =
  pc_ttlMs :: time
  pc_maxEntries :: nat
  pc_entries :: "(string \<times> cache_entry) list"

definition exactKey :: "(string \<Rightarrow> string) \<Rightarrow> string \<Rightarrow> string \<Rightarrow> string \<Rightarrow> string" where
  "exactKey sha256 promptVersion system user = sha256 (promptVersion @ [CHR 0x00] @ system @ [CHR 0x00] @ user)"

definition word_char :: "char \<Rightarrow> bool" where
  "word_char c \<longleftrightarrow> 97 \<le> char_code c \<and> char_code c \<le> 122 \<or> 48 \<le> char_code c \<and> char_code c \<le> 57"

text \<open>Characters other than letters, digits and white space become blanks; the words between blanks.\<close>

fun words_of :: "string \<Rightarrow> string \<Rightarrow> string list" where
  "words_of w [] = (if w = [] then [] else [w])"
| "words_of w (c # cs) =
     (if word_char (lower c) then words_of (w @ [lower c]) cs
      else (if w = [] then words_of [] cs else w # words_of [] cs))"

fun pairs_of :: "string list \<Rightarrow> string list" where
  "pairs_of (x # y # ws) = x # (x @ '' '' @ y) # pairs_of (y # ws)"
| "pairs_of ws = ws"

definition shingle :: "string \<Rightarrow> string list" where
  "shingle t = remdups (pairs_of (words_of [] t))"

definition jaccard :: "string list \<Rightarrow> string list \<Rightarrow> real" where
  "jaccard a b =
     (if a = [] \<or> b = [] then 0
      else let inter = length (filter (\<lambda>x. x \<in> set b) a) in real inter / real (length a + length b - inter))"

definition SEMANTIC_THRESHOLD :: real where "SEMANTIC_THRESHOLD = 6/10"

definition evictExpired :: "time \<Rightarrow> prompt_cache \<Rightarrow> prompt_cache" where
  "evictExpired now c = c\<lparr>pc_entries := filter (\<lambda>(k, e). ce_expiresAt e > now) (pc_entries c)\<rparr>"

text \<open>The first entry with the highest score at or above the threshold.\<close>

fun best_match :: "(cache_entry \<Rightarrow> bool) \<Rightarrow> string list \<Rightarrow> (cache_entry \<times> real) option \<Rightarrow> (string \<times> cache_entry) list \<Rightarrow> cache_entry option" where
  "best_match p q best [] = map_option fst best"
| "best_match p q best ((k, e) # es) =
     (let sc = jaccard q (ce_shingles e) in
      if p e \<and> sc \<ge> SEMANTIC_THRESHOLD \<and> (case best of None \<Rightarrow> True | Some (_, b) \<Rightarrow> sc > b)
      then best_match p q (Some (e, sc)) es else best_match p q best es)"

definition without :: "string \<Rightarrow> (string \<times> cache_entry) list \<Rightarrow> (string \<times> cache_entry) list" where
  "without k = filter (\<lambda>(k', e). k' \<noteq> k)"

definition cache_get ::
    "(string \<Rightarrow> string) \<Rightarrow> string \<Rightarrow> string \<Rightarrow> string \<Rightarrow> time \<Rightarrow> prompt_cache \<Rightarrow> (cached_value \<times> cache_kind) option \<times> prompt_cache" where
  "cache_get sha256 promptVersion system user now cache =
     (let c = evictExpired now cache; ek = exactKey sha256 promptVersion system user in
      case map_of (pc_entries c) ek of
        Some e \<Rightarrow> (Some (ce_value e, Exact), c\<lparr>pc_entries := without ek (pc_entries c) @ [(ek, e)]\<rparr>)
      | None \<Rightarrow>
          (map_option (\<lambda>e. (ce_value e, Semantic))
             (best_match (\<lambda>e. ce_promptVersion e = promptVersion \<and> ce_systemKey e = sha256 system) (shingle user) None (pc_entries c)), c))"

definition cache_put ::
    "(string \<Rightarrow> string) \<Rightarrow> string \<Rightarrow> string \<Rightarrow> string \<Rightarrow> cached_value \<Rightarrow> time \<Rightarrow> prompt_cache \<Rightarrow> prompt_cache" where
  "cache_put sha256 promptVersion system user v now cache =
     (let key = exactKey sha256 promptVersion system user;
          es = without key (pc_entries cache) @ [(key, \<lparr>ce_promptVersion = promptVersion, ce_systemKey = sha256 system,
            ce_shingles = shingle user, ce_value = v, ce_expiresAt = now + pc_ttlMs cache\<rparr>)]
      in cache\<lparr>pc_entries := drop (length es - pc_maxEntries cache) es\<rparr>)"

section \<open>Model: llm-gateway.service.ts\<close>

record llm_request =
  rq_taskClass :: task_class
  rq_promptVersion :: string
  rq_system :: string
  rq_user :: string
  rq_scope :: scope
  rq_maxOutputTokens :: "int option"
  rq_noCache :: bool

datatype degrade_reason = Budget_exhausted | All_providers_down

record llm_response =
  rs_text :: string
  rs_model :: string
  rs_tier :: model_tier
  rs_promptVersion :: string
  rs_inputTokens :: nat
  rs_outputTokens :: nat
  rs_costUsd :: real
  rs_latencyMs :: time
  rs_cacheHit :: "cache_kind option"
  rs_provider :: string
  rs_degraded :: "degrade_reason option"

record completion =
  co_text :: string
  co_model :: string
  co_inputTokens :: nat
  co_outputTokens :: nat

text \<open>A provider: its health probe, and its answer to a completion request with the time it took.\<close>

record llm_provider =
  lp_name :: string
  lp_healthy :: "exn + bool"
  lp_complete :: "model_tier \<Rightarrow> string \<Rightarrow> string \<Rightarrow> nat \<Rightarrow> (exn + completion) \<times> nat"

record call_record =
  cr_taskClass :: task_class
  cr_promptVersion :: string
  cr_model :: string
  cr_provider :: string
  cr_inputTokens :: nat
  cr_outputTokens :: nat
  cr_costUsd :: real
  cr_latencyMs :: time
  cr_cacheHit :: "cache_kind option"
  cr_degraded :: "degrade_reason option"
  cr_redactionHits :: "string list"
  cr_scope :: scope

text \<open>The state of the gateway: its budget and cache, and the records given to its observer.\<close>

record gateway =
  gw_budget :: ledger
  gw_cache :: prompt_cache
  gw_records :: "call_record list"

definition record_call :: "llm_request \<Rightarrow> llm_response \<Rightarrow> string list \<Rightarrow> gateway \<Rightarrow> gateway" where
  "record_call req res hits gw = gw\<lparr>gw_records := gw_records gw @ [\<lparr>cr_taskClass = rq_taskClass req,
     cr_promptVersion = rs_promptVersion res, cr_model = rs_model res, cr_provider = rs_provider res,
     cr_inputTokens = rs_inputTokens res, cr_outputTokens = rs_outputTokens res, cr_costUsd = rs_costUsd res,
     cr_latencyMs = rs_latencyMs res, cr_cacheHit = rs_cacheHit res, cr_degraded = rs_degraded res, cr_redactionHits = hits,
     cr_scope = rq_scope req\<rparr>]\<rparr>"

definition is_healthy :: "llm_provider \<Rightarrow> bool" where
  "is_healthy p = (case lp_healthy p of Inl _ \<Rightarrow> False | Inr b \<Rightarrow> b)"

definition orderByHealth :: "llm_provider list \<Rightarrow> llm_provider list" where
  "orderByHealth ps = filter is_healthy ps @ filter (\<lambda>p. \<not> is_healthy p) ps"

definition degraded_response :: "llm_request \<Rightarrow> model_tier \<Rightarrow> time \<Rightarrow> degrade_reason \<Rightarrow> llm_response" where
  "degraded_response req tier latency why = \<lparr>rs_text = [], rs_model = ''none'', rs_tier = tier,
     rs_promptVersion = rq_promptVersion req, rs_inputTokens = 0, rs_outputTokens = 0, rs_costUsd = 0, rs_latencyMs = latency,
     rs_cacheHit = None, rs_provider = ''none'', rs_degraded = Some why\<rparr>"

text \<open>The failover loop. It returns the provider's name and completion, the ledger and the clock.\<close>

fun try_providers ::
    "model_tier \<Rightarrow> string \<Rightarrow> string \<Rightarrow> nat \<Rightarrow> llm_provider list \<Rightarrow> ledger \<Rightarrow> time \<Rightarrow> (string \<times> completion) option \<times> ledger \<times> time" where
  "try_providers tier system user maxOut [] l now = (None, l, now)"
| "try_providers tier system user maxOut (p # ps) l now =
     (case lp_complete p tier system user maxOut of
        (Inr out, ms) \<Rightarrow> (Some (lp_name p, out), l, now + int ms)
      | (Inl e, ms) \<Rightarrow> try_providers tier system user maxOut ps (noteProviderError l (now + int ms)) (now + int ms))"

definition llm_call ::
    "(string \<Rightarrow> string \<times> string list) \<Rightarrow> (string \<Rightarrow> string) \<Rightarrow> llm_provider list \<Rightarrow> llm_request \<Rightarrow> time \<Rightarrow> gateway \<Rightarrow> llm_response \<times> gateway \<times> time" where
  "llm_call redact sha256 providers req start gw =
     (let tier = tierFor (rq_taskClass req);
          maxOut = maxOutputTokensFor tier (rq_maxOutputTokens req);
          (system, h1) = redact (rq_system req);
          (user, h2) = redact (rq_user req);
          hits = uniq (h1 @ h2);
          (hit, cache) = (if rq_noCache req then (None, gw_cache gw)
                          else cache_get sha256 (rq_promptVersion req) system user start (gw_cache gw));
          gw1 = gw\<lparr>gw_cache := cache\<rparr>
      in case hit of
           Some (v, kind) \<Rightarrow>
             (let res = \<lparr>rs_text = cv_text v, rs_model = cv_model v, rs_tier = tier, rs_promptVersion = rq_promptVersion req,
                rs_inputTokens = cv_inputTokens v, rs_outputTokens = cv_outputTokens v, rs_costUsd = 0, rs_latencyMs = 0,
                rs_cacheHit = Some kind, rs_provider = ''cache'', rs_degraded = None\<rparr>
              in (res, record_call req res hits gw1, start))
         | None \<Rightarrow>
             (let est = estimateCostUsd tier (estimateTokens system + estimateTokens user) maxOut in
              case checkOrThrow (gw_budget gw1) est (rq_scope req) start of
                Inl sc \<Rightarrow>
                  (let res = degraded_response req tier 0 Budget_exhausted in (res, record_call req res [] gw1, start))
              | Inr _ \<Rightarrow>
                  (case try_providers tier system user maxOut (orderByHealth providers) (gw_budget gw1) start of
                     (None, l, now) \<Rightarrow>
                       (let res = degraded_response req tier (now - start) All_providers_down
                        in (res, record_call req res [] (gw1\<lparr>gw_budget := l\<rparr>), now))
                   | (Some (name, out), l, now) \<Rightarrow>
                       (let cost = estimateCostUsd tier (co_inputTokens out) (co_outputTokens out);
                            v = \<lparr>cv_text = co_text out, cv_model = co_model out, cv_inputTokens = co_inputTokens out,
                              cv_outputTokens = co_outputTokens out\<rparr>;
                            res = \<lparr>rs_text = co_text out, rs_model = co_model out, rs_tier = tier, rs_promptVersion = rq_promptVersion req,
                              rs_inputTokens = co_inputTokens out, rs_outputTokens = co_outputTokens out, rs_costUsd = cost,
                              rs_latencyMs = now - start, rs_cacheHit = None, rs_provider = name, rs_degraded = None\<rparr>
                        in (res, record_call req res hits (gw1\<lparr>gw_budget := charge l cost (rq_scope req) now,
                              gw_cache := cache_put sha256 (rq_promptVersion req) system user v now (gw_cache gw1)\<rparr>), now)))))"

section \<open>The budget\<close>

lemma estimateCostUsd_nonneg: "0 \<le> estimateCostUsd tier i out"
  by (cases tier) (simp_all add: estimateCostUsd_def)

lemma estimateCostUsd_mono: "i \<le> i' \<Longrightarrow> out \<le> out' \<Longrightarrow> estimateCostUsd tier i out \<le> estimateCostUsd tier i' out'"
  by (cases tier) (simp_all add: estimateCostUsd_def add_mono)

definition counter_within :: "real \<Rightarrow> counter \<Rightarrow> bool" where
  "counter_within limit c \<longleftrightarrow> 0 \<le> ct_spentUsd c \<and> ct_spentUsd c \<le> limit"

definition counters_within :: "real \<Rightarrow> (string \<Rightarrow> counter option) \<Rightarrow> bool" where
  "counters_within limit cs \<longleftrightarrow> (\<forall>k c. cs k = Some c \<longrightarrow> counter_within limit c)"

text \<open>No counter exceeds its limit by more than \<open>\<delta>\<close>.\<close>

definition ledger_within :: "real \<Rightarrow> ledger \<Rightarrow> bool" where
  "ledger_within \<delta> l \<longleftrightarrow>
     counter_within (bc_globalDailyUsd (lg_cfg l) + \<delta>) (lg_global l) \<and>
     counters_within (bc_perAttemptUsd (lg_cfg l) + \<delta>) (lg_attempt l) \<and>
     counters_within (bc_perUserDailyUsd (lg_cfg l) + \<delta>) (lg_user l) \<and>
     counters_within (bc_perTenantMonthlyUsd (lg_cfg l) + \<delta>) (lg_tenant l)"

lemma roll_later:
  assumes "start \<le> now" and "\<And>c'. c = Some c' \<Longrightarrow> 0 \<le> ct_spentUsd c'"
  shows "0 \<le> ct_spentUsd (roll c w now)" "ct_spentUsd (roll c w now) \<le> ct_spentUsd (roll c w start)"
  using assms by (auto simp: roll_def split: option.splits)

lemma spend_within:
  assumes "start \<le> now" and "\<And>c'. c = Some c' \<Longrightarrow> 0 \<le> ct_spentUsd c'" and "0 \<le> cost" and "cost \<le> est + \<delta>"
    and "\<not> ct_spentUsd (roll c w start) + est > limit"
  shows "counter_within (limit + \<delta>) (spend cost (roll c w now))"
  using assms roll_later [of start now c w] by (simp add: counter_within_def spend_def)

lemma charge_scope_within:
  assumes "counters_within (limit + \<delta>) cs" and "\<not> breaches i cs w start est limit"
    and "start \<le> now" and "0 \<le> cost" and "cost \<le> est + \<delta>"
  shows "counters_within (limit + \<delta>) (charge_scope i w now cost cs)"
proof (cases "truthy i")
  case True
  have "counter_within (limit + \<delta>) (spend cost (roll (cs (the i)) w now))"
    by (rule spend_within [OF assms(3) _ assms(4,5)])
      (use assms(1,2) True in \<open>auto simp: counters_within_def counter_within_def breaches_def\<close>)
  with assms(1) True show ?thesis by (auto simp: charge_scope_def counters_within_def)
qed (use assms(1) in \<open>simp add: charge_scope_def\<close>)

text \<open>
  The failover loop: the first provider that answers, or nothing; provider errors change only the
  error count and the breaker.
\<close>

definition same_counters :: "ledger \<Rightarrow> ledger \<Rightarrow> bool" where
  "same_counters l l' \<longleftrightarrow> lg_cfg l' = lg_cfg l \<and> lg_global l' = lg_global l \<and> lg_attempt l' = lg_attempt l \<and>
     lg_user l' = lg_user l \<and> lg_tenant l' = lg_tenant l"

lemma same_counters_error: "same_counters l (noteProviderError l now)"
  by (simp add: same_counters_def noteProviderError_def Let_def)

lemma same_counters_trans: "same_counters l l' \<Longrightarrow> same_counters l' l'' \<Longrightarrow> same_counters l l''"
  by (simp add: same_counters_def)

lemma same_counters_within: "same_counters l l' \<Longrightarrow> ledger_within \<delta> l' = ledger_within \<delta> l"
  by (simp add: same_counters_def ledger_within_def)

lemma try_providers_frame:
  "try_providers tier system user m ps l now = (r, l', now') \<Longrightarrow> now \<le> now' \<and> same_counters l l'"
proof (induction ps arbitrary: l now)
  case Nil
  then show ?case by (simp add: same_counters_def)
next
  case (Cons p ps)
  obtain ans ms where c: "lp_complete p tier system user m = (ans, ms)" by fastforce
  show ?case
  proof (cases ans)
    case (Inl e)
    from Cons.IH [of "noteProviderError l (now + int ms)" "now + int ms"] Cons.prems c Inl show ?thesis
      using same_counters_trans [OF same_counters_error] by fastforce
  qed (use Cons.prems c in \<open>auto simp: same_counters_def\<close>)
qed

lemma charge_within:
  assumes "ledger_within \<delta> l" and "checkOrThrow l est sc start = Inr ()" and "same_counters l l'"
    and "start \<le> now" and "0 \<le> cost" and "cost \<le> est + \<delta>"
  shows "ledger_within \<delta> (charge l' cost sc now)"
proof -
  note check = assms(2) [unfolded checkOrThrow_def]
  have "counter_within (bc_globalDailyUsd (lg_cfg l) + \<delta>) (spend cost (roll (Some (lg_global l)) DAY now))"
    by (rule spend_within [OF assms(4) _ assms(5,6)])
      (use assms(1) check in \<open>auto simp: ledger_within_def counter_within_def split: if_splits\<close>)
  moreover have "counters_within (bc_perAttemptUsd (lg_cfg l) + \<delta>) (charge_scope (sp_attemptId sc) DAY now cost (lg_attempt l))"
    "counters_within (bc_perUserDailyUsd (lg_cfg l) + \<delta>) (charge_scope (sp_userId sc) DAY now cost (lg_user l))"
    "counters_within (bc_perTenantMonthlyUsd (lg_cfg l) + \<delta>) (charge_scope (sp_tenantId sc) MONTH now cost (lg_tenant l))"
    using assms(1) check by (auto intro!: charge_scope_within [OF _ _ assms(4-6)] simp: ledger_within_def split: if_splits)
  ultimately show ?thesis using assms(3) by (simp add: ledger_within_def charge_def same_counters_def)
qed

definition succeeds :: "model_tier \<Rightarrow> string \<Rightarrow> string \<Rightarrow> nat \<Rightarrow> llm_provider \<Rightarrow> bool" where
  "succeeds tier system user m p = (case fst (lp_complete p tier system user m) of Inl _ \<Rightarrow> False | Inr _ \<Rightarrow> True)"

lemma try_providers_first:
  "fst (try_providers tier system user m ps l now) =
     (case List.find (succeeds tier system user m) ps of
        None \<Rightarrow> None
      | Some p \<Rightarrow> Some (lp_name p, projr (fst (lp_complete p tier system user m))))"
  by (induction ps arbitrary: l now) (auto simp: succeeds_def split: prod.splits sum.splits)

section \<open>One call\<close>

definition looked_up ::
    "(string \<Rightarrow> string \<times> string list) \<Rightarrow> (string \<Rightarrow> string) \<Rightarrow> llm_request \<Rightarrow> time \<Rightarrow> gateway \<Rightarrow> (cached_value \<times> cache_kind) option \<times> prompt_cache" where
  "looked_up redact sha req start gw =
     (if rq_noCache req then (None, gw_cache gw)
      else cache_get sha (rq_promptVersion req) (fst (redact (rq_system req))) (fst (redact (rq_user req))) start (gw_cache gw))"

definition estimate :: "(string \<Rightarrow> string \<times> string list) \<Rightarrow> llm_request \<Rightarrow> real" where
  "estimate redact req =
     (let tier = tierFor (rq_taskClass req)
      in estimateCostUsd tier (estimateTokens (fst (redact (rq_system req))) + estimateTokens (fst (redact (rq_user req))))
           (maxOutputTokensFor tier (rq_maxOutputTokens req)))"

definition tried :: "(string \<Rightarrow> string \<times> string list) \<Rightarrow> llm_provider list \<Rightarrow> llm_request \<Rightarrow> ledger \<Rightarrow> time \<Rightarrow> (string \<times> completion) option \<times> ledger \<times> time" where
  "tried redact ps req l start =
     (let tier = tierFor (rq_taskClass req)
      in try_providers tier (fst (redact (rq_system req))) (fst (redact (rq_user req)))
           (maxOutputTokensFor tier (rq_maxOutputTokens req)) (orderByHealth ps) l start)"

text \<open>The four ways a call ends.\<close>

lemma llm_call_cases:
  assumes "llm_call redact sha ps req start gw = (res, gw', now)"
  obtains (hit) v kind cache where "looked_up redact sha req start gw = (Some (v, kind), cache)" and "now = start"
      and "gw_budget gw' = gw_budget gw" and "gw_cache gw' = cache" and "rs_text res = cv_text v" and "rs_costUsd res = 0"
      and "rs_cacheHit res = Some kind" and "rs_degraded res = None" and "rs_provider res = ''cache''"
  | (refused) cache sc where "looked_up redact sha req start gw = (None, cache)"
      and "checkOrThrow (gw_budget gw) (estimate redact req) (rq_scope req) start = Inl sc" and "now = start"
      and "gw_budget gw' = gw_budget gw" and "gw_cache gw' = cache" and "res = degraded_response req (tierFor (rq_taskClass req)) 0 Budget_exhausted"
  | (down) cache l where "looked_up redact sha req start gw = (None, cache)"
      and "checkOrThrow (gw_budget gw) (estimate redact req) (rq_scope req) start = Inr ()"
      and "tried redact ps req (gw_budget gw) start = (None, l, now)" and "gw_budget gw' = l" and "gw_cache gw' = cache"
      and "res = degraded_response req (tierFor (rq_taskClass req)) (now - start) All_providers_down"
  | (answered) cache l name out where "looked_up redact sha req start gw = (None, cache)"
      and "checkOrThrow (gw_budget gw) (estimate redact req) (rq_scope req) start = Inr ()"
      and "tried redact ps req (gw_budget gw) start = (Some (name, out), l, now)"
      and "gw_budget gw' = charge l (estimateCostUsd (tierFor (rq_taskClass req)) (co_inputTokens out) (co_outputTokens out)) (rq_scope req) now"
      and "gw_cache gw' = cache_put sha (rq_promptVersion req) (fst (redact (rq_system req))) (fst (redact (rq_user req)))
         \<lparr>cv_text = co_text out, cv_model = co_model out, cv_inputTokens = co_inputTokens out, cv_outputTokens = co_outputTokens out\<rparr> now cache"
      and "rs_text res = co_text out" and "rs_provider res = name" and "rs_degraded res = None" and "rs_cacheHit res = None"
      and "rs_costUsd res = estimateCostUsd (tierFor (rq_taskClass req)) (co_inputTokens out) (co_outputTokens out)"
proof -
  obtain system h1 where rs: "redact (rq_system req) = (system, h1)" by fastforce
  obtain user h2 where ru: "redact (rq_user req) = (user, h2)" by fastforce
  obtain hit' cache where lk: "looked_up redact sha req start gw = (hit', cache)" by fastforce
  have lk': "(if rq_noCache req then (None, gw_cache gw) else cache_get sha (rq_promptVersion req) system user start (gw_cache gw)) = (hit', cache)"
    using lk unfolding looked_up_def rs ru fst_conv .
  have est: "estimate redact req = estimateCostUsd (tierFor (rq_taskClass req)) (estimateTokens system + estimateTokens user)
      (maxOutputTokensFor (tierFor (rq_taskClass req)) (rq_maxOutputTokens req))"
    by (simp add: estimate_def rs ru Let_def)
  have tried: "tried redact ps req l start = try_providers (tierFor (rq_taskClass req)) system user
      (maxOutputTokensFor (tierFor (rq_taskClass req)) (rq_maxOutputTokens req)) (orderByHealth ps) l start" for l
    by (simp add: tried_def rs ru Let_def)
  note run = assms [unfolded llm_call_def Let_def rs ru prod.case lk', folded est tried]
  show thesis
  proof (cases hit')
    case (Some vk)
    obtain v kind where vk: "vk = (v, kind)" by fastforce
    show thesis
      by (rule hit [of v kind cache]) (use lk run [unfolded Some vk option.case prod.case] Some vk in \<open>auto simp: record_call_def\<close>)
  next
    case None
    show thesis
    proof (cases "checkOrThrow (gw_budget gw) (estimate redact req) (rq_scope req) start")
      case (Inl sc)
      show thesis
        by (rule refused [of cache sc]) (use lk run [unfolded None option.case gateway.simps Inl sum.case] None Inl in \<open>auto simp: record_call_def\<close>)
    next
      case (Inr u)
      obtain r l now' where tr: "tried redact ps req (gw_budget gw) start = (r, l, now')" by (metis prod_cases3)
      show thesis
      proof (cases r)
        case None': None
        show thesis
          by (rule down [of cache l]) (use lk run [unfolded None option.case gateway.simps Inr sum.case tr prod.case None'] None Inr tr None' in \<open>auto simp: record_call_def\<close>)
      next
        case (Some no)
        obtain name out where no: "no = (name, out)" by fastforce
        show thesis
          by (rule answered [of cache name out l]) (use lk run [unfolded None option.case gateway.simps Inr sum.case tr prod.case Some no] None Inr tr Some no rs ru in \<open>auto simp: record_call_def\<close>)
      qed
    qed
  qed
qed

section \<open>Properties\<close>

text \<open>The cost of every answer stays within \<open>\<delta>\<close> of the estimate made before the call.\<close>

definition overrun_bounded :: "real \<Rightarrow> llm_provider list \<Rightarrow> bool" where
  "overrun_bounded \<delta> ps \<longleftrightarrow> (\<forall>p \<in> set ps. \<forall>tier system user m out ms. lp_complete p tier system user m = (Inr out, ms) \<longrightarrow>
     estimateCostUsd tier (co_inputTokens out) (co_outputTokens out) \<le> estimateCostUsd tier (estimateTokens system + estimateTokens user) m + \<delta>)"

lemma llm_call_within:
  assumes "ledger_within \<delta> (gw_budget gw)" and "overrun_bounded \<delta> ps" and "llm_call redact sha ps req start gw = (res, gw', now)"
  shows "ledger_within \<delta> (gw_budget gw') \<and> start \<le> now \<and> lg_cfg (gw_budget gw') = lg_cfg (gw_budget gw)"
  using assms(3)
proof (cases rule: llm_call_cases)
  case (down cache l)
  from try_providers_frame [OF down(3) [unfolded tried_def Let_def]] show ?thesis
    using assms(1) down(4) same_counters_within [of "gw_budget gw" l \<delta>] by (simp add: same_counters_def)
next
  case (answered cache l name out)
  let ?tier = "tierFor (rq_taskClass req)"
  have frame: "start \<le> now" "same_counters (gw_budget gw) l"
    using try_providers_frame [OF answered(3) [unfolded tried_def Let_def]] by simp_all
  have "fst (tried redact ps req (gw_budget gw) start) = Some (name, out)" using answered(3) by simp
  then obtain p where p: "List.find (succeeds ?tier (fst (redact (rq_system req))) (fst (redact (rq_user req)))
        (maxOutputTokensFor ?tier (rq_maxOutputTokens req))) (orderByHealth ps) = Some p"
      "out = projr (fst (lp_complete p ?tier (fst (redact (rq_system req))) (fst (redact (rq_user req))) (maxOutputTokensFor ?tier (rq_maxOutputTokens req))))"
    unfolding tried_def Let_def try_providers_first by (auto split: option.splits)
  obtain ms where out: "lp_complete p ?tier (fst (redact (rq_system req))) (fst (redact (rq_user req)))
      (maxOutputTokensFor ?tier (rq_maxOutputTokens req)) = (Inr out, ms)"
    using find_row_SomeD [OF p(1)] p(2)
    by (cases "lp_complete p ?tier (fst (redact (rq_system req))) (fst (redact (rq_user req))) (maxOutputTokensFor ?tier (rq_maxOutputTokens req))")
      (auto simp: succeeds_def split: sum.splits)
  have "p \<in> set ps" using find_row_SomeD [OF p(1)] by (auto simp: orderByHealth_def)
  with assms(2) out have cost: "estimateCostUsd ?tier (co_inputTokens out) (co_outputTokens out) \<le> estimate redact req + \<delta>"
    unfolding overrun_bounded_def estimate_def Let_def by blast
  show ?thesis
    using charge_within [OF assms(1) answered(2) frame(2,1) estimateCostUsd_nonneg cost] answered(4) frame
    by (simp add: charge_def same_counters_def)
qed (use assms(1) in auto)

record llm_step =
  st_providers :: "llm_provider list"
  st_request :: llm_request
  st_start :: time

definition llm_do :: "(string \<Rightarrow> string \<times> string list) \<Rightarrow> (string \<Rightarrow> string) \<Rightarrow> gateway \<Rightarrow> llm_step \<Rightarrow> gateway" where
  "llm_do redact sha gw x = fst (snd (llm_call redact sha (st_providers x) (st_request x) (st_start x) gw))"

lemma llm_calls_within:
  "ledger_within \<delta> (gw_budget gw) \<Longrightarrow> \<forall>x \<in> set xs. overrun_bounded \<delta> (st_providers x) \<Longrightarrow>
   ledger_within \<delta> (gw_budget (foldl (llm_do redact sha) gw xs)) \<and>
   lg_cfg (gw_budget (foldl (llm_do redact sha) gw xs)) = lg_cfg (gw_budget gw)"
proof (induction xs arbitrary: gw)
  case (Cons x xs)
  obtain res gw' now where c: "llm_call redact sha (st_providers x) (st_request x) (st_start x) gw = (res, gw', now)" by (metis prod_cases3)
  from llm_call_within [OF Cons.prems(1) _ c] Cons.prems(2) have "ledger_within \<delta> (gw_budget gw') \<and> lg_cfg (gw_budget gw') = lg_cfg (gw_budget gw)" by simp
  with Cons c show ?case by (simp add: llm_do_def)
qed simp


text \<open>Property. Failover is exact: a call that is not answered from the cache and is within budget is answered by
  the first provider, healthy ones first and otherwise in configured order, that completes the redacted
  prompt; only if none does is the answer degraded, and it is never an exception.\<close>

theorem failover_exact:
  assumes "looked_up redact sha req start gw = (None, cache)"
    and "checkOrThrow (gw_budget gw) (estimate redact req) (rq_scope req) start = Inr ()"
    and "llm_call redact sha ps req start gw = (res, gw', now)" and "tier = tierFor (rq_taskClass req)"
    and "ask = (\<lambda>p. lp_complete p tier (fst (redact (rq_system req))) (fst (redact (rq_user req))) (maxOutputTokensFor tier (rq_maxOutputTokens req)))"
  shows "case List.find (\<lambda>p. \<exists>out ms. ask p = (Inr out, ms)) (orderByHealth ps) of
      None \<Rightarrow> rs_degraded res = Some All_providers_down \<and> rs_text res = [] \<and> rs_costUsd res = 0
    | Some p \<Rightarrow> \<exists>out ms. ask p = (Inr out, ms) \<and> rs_text res = co_text out \<and> rs_provider res = lp_name p \<and>
        rs_degraded res = None \<and> rs_costUsd res = estimateCostUsd tier (co_inputTokens out) (co_outputTokens out)"
proof -
  let ?s = "succeeds tier (fst (redact (rq_system req))) (fst (redact (rq_user req))) (maxOutputTokensFor tier (rq_maxOutputTokens req))"
  have same: "(\<lambda>p. \<exists>out ms. ask p = (Inr out, ms)) = ?s"
    by (rule ext) (auto simp: succeeds_def assms(5) split: sum.splits prod.splits, metis prod.collapse)
  have first: "fst (tried redact ps req (gw_budget gw) start) = (case List.find ?s (orderByHealth ps) of None \<Rightarrow> None
      | Some p \<Rightarrow> Some (lp_name p, projr (fst (ask p))))"
    unfolding tried_def Let_def try_providers_first assms(4,5) ..
  have ok: "\<exists>ms. ask p = (Inr (projr (fst (ask p))), ms)" if "List.find ?s (orderByHealth ps) = Some p" for p
    using find_row_SomeD [OF that] by (cases "ask p") (auto simp: succeeds_def assms(5) split: sum.splits)
  from assms(3) show ?thesis
  proof (cases rule: llm_call_cases)
    case (down cache' l)
    with first show ?thesis by (auto simp: same degraded_response_def split: option.splits)
  next
    case (answered cache' l name out)
    with first ok assms(4) show ?thesis by (auto simp: same split: option.splits)
  qed (use assms(1,2) in auto)
qed

subsection \<open>The circuit breaker\<close>

lemma try_providers_fail:
  assumes "try_providers tier system user m ps l now = (None, l', now')" and "ps \<noteq> []"
  shows "lg_consecutiveProviderErrors l' = lg_consecutiveProviderErrors l + length ps \<and>
    (5 \<le> lg_consecutiveProviderErrors l + length ps \<longrightarrow> lg_globalBreakerUntil l' = now' + 60000)"
  using assms
proof (induction ps arbitrary: l now)
  case (Cons p ps)
  obtain ans ms where c: "lp_complete p tier system user m = (ans, ms)" by fastforce
  then obtain e where e: "ans = Inl e" using Cons.prems by (cases ans) auto
  let ?l = "noteProviderError l (now + int ms)"
  have run: "try_providers tier system user m ps ?l (now + int ms) = (None, l', now')" using Cons.prems(1) c e by simp
  have n: "lg_consecutiveProviderErrors ?l = lg_consecutiveProviderErrors l + 1" by (simp add: noteProviderError_def Let_def)
  show ?case
  proof (cases "ps = []")
    case True
    with run show ?thesis by (auto simp: noteProviderError_def Let_def)
  qed (use Cons.IH [OF run] n in auto)
qed simp

text \<open>Property. The circuit breaker protects the platform: when a call finds every provider failing and that
  makes at least five provider errors in a row, then for one minute every request that the cache cannot
  answer is degraded at once, at no cost and without any provider being asked, whatever the providers
  would say.\<close>

theorem breaker_protects:
  assumes "llm_call redact sha ps req start gw = (res, gw', now)" and "rs_degraded res = Some All_providers_down" and "ps \<noteq> []"
    and "5 \<le> lg_consecutiveProviderErrors (gw_budget gw) + length ps"
    and "t < now + 60000" and "looked_up redact sha req' t gw' = (None, cache)"
  shows "breakerOpen (gw_budget gw') t \<and>
    (\<exists>gw''. (\<forall>ps'. llm_call redact sha ps' req' t gw' = (degraded_response req' (tierFor (rq_taskClass req')) 0 Budget_exhausted, gw'', t)) \<and>
       gw_budget gw'' = gw_budget gw')"
proof -
  have len: "length (orderByHealth ps) = length ps" using sum_length_filter_compl [of is_healthy ps] by (simp add: orderByHealth_def)
  from assms(1) have "lg_globalBreakerUntil (gw_budget gw') = now + 60000"
  proof (cases rule: llm_call_cases)
    case (down c l)
    have "orderByHealth ps \<noteq> []" using len assms(3) by (metis length_0_conv)
    with try_providers_fail [OF down(3) [unfolded tried_def Let_def]] len assms(4) down(4) show ?thesis by simp
  qed (use assms(2) in \<open>auto simp: degraded_response_def\<close>)
  then have opened: "t < lg_globalBreakerUntil (gw_budget gw')" using assms(5) by simp
  then have chk: "checkOrThrow (gw_budget gw') est sc t = Inl GlobalScope" for est sc by (simp add: checkOrThrow_def)
  define gw'' where "gw'' = record_call req' (degraded_response req' (tierFor (rq_taskClass req')) 0 Budget_exhausted) [] (gw'\<lparr>gw_cache := cache\<rparr>)"
  obtain system h1 where rs: "redact (rq_system req') = (system, h1)" by fastforce
  obtain user h2 where ru: "redact (rq_user req') = (user, h2)" by fastforce
  have lk: "(if rq_noCache req' then (None, gw_cache gw') else cache_get sha (rq_promptVersion req') system user t (gw_cache gw')) = (None, cache)"
    using assms(6) unfolding looked_up_def rs ru fst_conv .
  have "llm_call redact sha ps' req' t gw' = (degraded_response req' (tierFor (rq_taskClass req')) 0 Budget_exhausted, gw'', t)" for ps'
    unfolding llm_call_def Let_def rs ru prod.case lk using chk by (simp add: gw''_def)
  moreover have "gw_budget gw'' = gw_budget gw'" by (simp add: gw''_def record_call_def)
  ultimately show ?thesis using opened by (auto simp: breakerOpen_def)
qed

subsection \<open>The cache\<close>

definition cache_ok :: "prompt_cache \<Rightarrow> bool" where
  "cache_ok c \<longleftrightarrow> distinct (map fst (pc_entries c)) \<and> length (pc_entries c) \<le> pc_maxEntries c"

lemma distinct_keys_filter: "distinct (map fst xs) \<Longrightarrow> distinct (map fst (filter P xs))"
  by (rule distinct_map_filter)

lemma without_fresh: "k \<notin> fst ` set (without k es)"
  by (auto simp: without_def)

lemma distinct_keys_drop: "distinct (map fst xs) \<Longrightarrow> distinct (map fst (drop n xs))"
  by (simp add: distinct_drop flip: drop_map)

lemma distinct_keys_renewed: "distinct (map fst es) \<Longrightarrow> distinct (map fst (without k es @ [(k, e)]))"
  using distinct_keys_filter without_fresh [of k es] by (auto simp: without_def)

lemma cache_put_ok:
  assumes "distinct (map fst (pc_entries c))"
  shows "cache_ok (cache_put sha pv sy us v now c)"
proof -
  let ?k = "exactKey sha pv sy us"
  obtain e where "pc_entries (cache_put sha pv sy us v now c) =
      drop (length (without ?k (pc_entries c) @ [(?k, e)]) - pc_maxEntries c) (without ?k (pc_entries c) @ [(?k, e)])"
    by (simp add: cache_put_def Let_def)
  moreover have "pc_maxEntries (cache_put sha pv sy us v now c) = pc_maxEntries c" by (simp add: cache_put_def Let_def)
  moreover have "length (drop (length xs - m) xs) \<le> m" for m and xs :: "(string \<times> cache_entry) list" by simp
  ultimately show ?thesis
    unfolding cache_ok_def by (metis distinct_keys_drop distinct_keys_renewed [OF assms])
qed

lemma length_without: "map_of es k = Some e \<Longrightarrow> length (without k es) < length es"
  by (induction es) (auto simp: without_def less_Suc_eq_le split: if_splits)

lemma cache_get_ok:
  assumes "cache_ok c" and "cache_get sha pv sy us now c = (r, c')"
  shows "cache_ok c'"
proof -
  let ?c = "evictExpired now c"
  have ok: "cache_ok ?c"
    using assms(1) distinct_keys_filter le_trans [OF length_filter_le] by (fastforce simp: cache_ok_def evictExpired_def)
  show ?thesis
  proof (cases "map_of (pc_entries ?c) (exactKey sha pv sy us)")
    case (Some e)
    let ?k = "exactKey sha pv sy us"
    have "distinct (map fst (without ?k (pc_entries ?c) @ [(?k, e)]))"
      using ok by (intro distinct_keys_renewed) (simp add: cache_ok_def)
    with Some length_without [OF Some] ok assms(2) show ?thesis by (auto simp: cache_get_def Let_def cache_ok_def)
  qed (use ok assms(2) in \<open>auto simp: cache_get_def Let_def\<close>)
qed

lemma map_of_last: "k \<notin> fst ` set xs \<Longrightarrow> map_of (xs @ [(k, e)]) k = Some e"
  by (induction xs) auto

lemma cache_get_put:
  assumes "0 < pc_maxEntries c" and "now \<le> t" and "t < now + pc_ttlMs c"
  shows "\<exists>c'. cache_get sha pv sy us t (cache_put sha pv sy us v now c) = (Some (v, Exact), c')"
proof -
  let ?k = "exactKey sha pv sy us"
  define e where "e = \<lparr>ce_promptVersion = pv, ce_systemKey = sha sy, ce_shingles = shingle us, ce_value = v, ce_expiresAt = now + pc_ttlMs c\<rparr>"
  define es where "es = without ?k (pc_entries c)"
  let ?P = "\<lambda>(k, e). ce_expiresAt e > t"
  let ?n = "Suc (length es) - pc_maxEntries c"
  have "pc_entries (cache_put sha pv sy us v now c) = drop ?n es @ [(?k, e)]"
    using assms(1) by (simp add: cache_put_def Let_def es_def e_def)
  then have kept: "pc_entries (evictExpired t (cache_put sha pv sy us v now c)) = filter ?P (drop ?n es) @ [(?k, e)]"
    using assms(3) by (simp add: evictExpired_def e_def)
  have "?k \<notin> fst ` set (filter ?P (drop ?n es))"
    using without_fresh [of ?k "pc_entries c"] in_set_dropD by (fastforce simp: es_def)
  then have "map_of (pc_entries (evictExpired t (cache_put sha pv sy us v now c))) ?k = Some e"
    unfolding kept by (rule map_of_last)
  then show ?thesis by (simp add: cache_get_def Let_def e_def)
qed

text \<open>Property. An answer is paid for once: after a fresh answer the same request, made again by anyone while the
  entry lives, gets the same text from the cache, at no cost, with no provider asked and the budget
  untouched.\<close>

theorem cached_answer_is_free:
  assumes "llm_call redact sha ps req start gw = (res, gw', now)" and "rs_degraded res = None" and "rs_cacheHit res = None"
    and "0 < pc_maxEntries (gw_cache gw)" and "now \<le> t" and "t < now + pc_ttlMs (gw_cache gw)"
    and "req' = req\<lparr>rq_noCache := False, rq_scope := sc\<rparr>"
    and "llm_call redact sha ps' req' t gw' = (res', gw'', t')"
  shows "rs_text res' = rs_text res \<and> rs_costUsd res' = 0 \<and> rs_cacheHit res' = Some Exact \<and> rs_degraded res' = None \<and>
    gw_budget gw'' = gw_budget gw' \<and> t' = t"
proof -
  let ?sy = "fst (redact (rq_system req))" and ?us = "fst (redact (rq_user req))"
  have cfg: "pc_maxEntries c = pc_maxEntries (gw_cache gw) \<and> pc_ttlMs c = pc_ttlMs (gw_cache gw)"
    if "looked_up redact sha req start gw = (r, c)" for r c
    using that by (auto simp: looked_up_def cache_get_def evictExpired_def Let_def split: if_splits option.splits)
  from assms(1) obtain c v where put: "gw_cache gw' = cache_put sha (rq_promptVersion req) ?sy ?us v now c"
      and v: "cv_text v = rs_text res" and c: "looked_up redact sha req start gw = (None, c)"
    by (cases rule: llm_call_cases) (use assms(2,3) in \<open>auto simp: degraded_response_def\<close>)
  obtain c' where "looked_up redact sha req' t gw' = (Some (v, Exact), c')"
    using cache_get_put [of c now t sha "rq_promptVersion req" ?sy ?us v] cfg [OF c] assms(4-7) put
    by (auto simp: looked_up_def)
  from assms(8) this v show ?thesis by (cases rule: llm_call_cases) auto
qed

text \<open>
  The key of the exact cache joins its parts with the character 0, so that without that character in the
  version and the system prompt, and without collisions of the hash, it determines them.
\<close>

lemma append_sep_inj: "x \<notin> set a \<Longrightarrow> x \<notin> set b \<Longrightarrow> a @ x # u = b @ x # v \<longleftrightarrow> a = b \<and> u = v"
  by (induction a arbitrary: b) (case_tac b; auto)+

lemma exactKey_determines:
  assumes "inj sha" and "CHR 0x00 \<notin> set pv \<union> set sy \<union> set pv' \<union> set sy'"
  shows "exactKey sha pv sy us = exactKey sha pv' sy' us' \<longleftrightarrow> pv = pv' \<and> sy = sy' \<and> us = us'"
  using assms by (auto simp: exactKey_def append_sep_inj dest!: injD)

section \<open>Witnesses\<close>

definition demo_provider :: "bool \<Rightarrow> llm_provider" where
  "demo_provider up = \<lparr>lp_name = ''p'', lp_healthy = Inr up, lp_complete = (\<lambda>_ _ _ _.
     if up then (Inr \<lparr>co_text = ''hi'', co_model = ''m'', co_inputTokens = 0, co_outputTokens = 0\<rparr>, 7) else (Inl (RemoteErr ''down''), 7))\<rparr>"

definition demo_gateway :: gateway where
  "demo_gateway = \<lparr>gw_budget = \<lparr>lg_cfg = BUDGET_DEFAULTS, lg_attempt = (\<lambda>_. None), lg_user = (\<lambda>_. None), lg_tenant = (\<lambda>_. None),
       lg_global = \<lparr>ct_spentUsd = 0, ct_windowStart = 0\<rparr>, lg_globalBreakerUntil = 0, lg_consecutiveProviderErrors = 0\<rparr>,
     gw_cache = \<lparr>pc_ttlMs = 86400000, pc_maxEntries = 2000, pc_entries = []\<rparr>, gw_records = []\<rparr>"

definition demo_request :: llm_request where
  "demo_request = \<lparr>rq_taskClass = Mentor_reply, rq_promptVersion = ''v1'', rq_system = ''s'', rq_user = ''u'',
     rq_scope = \<lparr>sp_attemptId = Some ''a'', sp_userId = None, sp_tenantId = None\<rparr>, rq_maxOutputTokens = None, rq_noCache = False\<rparr>"

lemma demo_gateway_facts:
  "ledger_within 0 (gw_budget demo_gateway)" "overrun_bounded 0 [demo_provider True]"
  "looked_up (\<lambda>x. (x, [])) id demo_request 1 demo_gateway = (None, gw_cache demo_gateway)"
  "checkOrThrow (gw_budget demo_gateway) (estimate (\<lambda>x. (x, [])) demo_request) (rq_scope demo_request) 1 = Inr ()"
proof -
  show "ledger_within 0 (gw_budget demo_gateway)"
    by (simp add: demo_gateway_def ledger_within_def counter_within_def counters_within_def BUDGET_DEFAULTS_def)
  show "overrun_bounded 0 [demo_provider True]"
    using estimateCostUsd_nonneg estimateCostUsd_mono [of 0 _ 0] by (auto simp: overrun_bounded_def demo_provider_def)
  show "looked_up (\<lambda>x. (x, [])) id demo_request 1 demo_gateway = (None, gw_cache demo_gateway)"
    by (simp add: looked_up_def demo_request_def demo_gateway_def cache_get_def evictExpired_def Let_def)
  show "checkOrThrow (gw_budget demo_gateway) (estimate (\<lambda>x. (x, [])) demo_request) (rq_scope demo_request) 1 = Inr ()"
    by (simp add: checkOrThrow_def demo_gateway_def demo_request_def estimate_def estimateCostUsd_def estimateTokens_def
        maxOutputTokensFor_def BUDGET_DEFAULTS_def roll_def DAY_def breaches_def truthy_def Let_def)
qed

abbreviation demo_call :: "llm_provider list \<Rightarrow> llm_request \<Rightarrow> time \<Rightarrow> gateway \<Rightarrow> llm_response \<times> gateway \<times> time" where
  "demo_call \<equiv> llm_call (\<lambda>x. (x, [])) id"


theorem failover_exact_witness:
  "rs_text (fst (demo_call [demo_provider False, demo_provider True] demo_request 1 demo_gateway)) = ''hi''"
proof -
  have order: "orderByHealth [demo_provider False, demo_provider True] = [demo_provider True, demo_provider False]"
    by (simp add: orderByHealth_def is_healthy_def demo_provider_def)
  obtain res gw' now where run: "demo_call [demo_provider False, demo_provider True] demo_request 1 demo_gateway = (res, gw', now)" by (metis prod_cases3)
  from failover_exact [OF demo_gateway_facts(3,4) run refl refl] order show ?thesis
    unfolding run by (auto simp: demo_provider_def)
qed

lemma demo_down:
  "\<exists>res gw' now. demo_call (replicate 5 (demo_provider False)) demo_request 1 demo_gateway = (res, gw', now) \<and>
     rs_degraded res = Some All_providers_down \<and> now = 36 \<and> gw_cache gw' = gw_cache demo_gateway"
proof -
  obtain res gw' now where run: "demo_call (replicate 5 (demo_provider False)) demo_request 1 demo_gateway = (res, gw', now)" by (metis prod_cases3)
  have order: "orderByHealth (replicate 5 (demo_provider False)) = replicate 5 (demo_provider False)"
    by (simp add: orderByHealth_def is_healthy_def demo_provider_def numeral_eq_Suc)
  have r: "fst (tried (\<lambda>x. (x, [])) (replicate 5 (demo_provider False)) demo_request l 1) = None"
    "snd (snd (tried (\<lambda>x. (x, [])) (replicate 5 (demo_provider False)) demo_request l 1)) = 36" for l
    unfolding tried_def Let_def order by (simp_all add: demo_provider_def numeral_eq_Suc)
  from run have "rs_degraded res = Some All_providers_down \<and> now = 36 \<and> gw_cache gw' = gw_cache demo_gateway"
    by (cases rule: llm_call_cases) (use demo_gateway_facts(3,4) r [of "gw_budget demo_gateway"] in \<open>auto simp: degraded_response_def\<close>)
  with run show ?thesis by blast
qed

theorem breaker_protects_witness:
  "\<exists>gw'. breakerOpen (gw_budget gw') 37 \<and> rs_degraded (fst (demo_call [demo_provider True] demo_request 37 gw')) = Some Budget_exhausted"
proof -
  obtain res gw' now where run: "demo_call (replicate 5 (demo_provider False)) demo_request 1 demo_gateway = (res, gw', now)"
      "rs_degraded res = Some All_providers_down" "now = 36" "gw_cache gw' = gw_cache demo_gateway"
    using demo_down by blast
  have "looked_up (\<lambda>x. (x, [])) id demo_request 37 gw' = (None, gw_cache demo_gateway)"
    by (simp add: run(4) looked_up_def demo_request_def demo_gateway_def cache_get_def evictExpired_def Let_def)
  from breaker_protects [OF run(1,2) _ _ _ this] run(3) show ?thesis
    by (intro exI [of _ gw']) (auto simp: degraded_response_def)
qed

theorem cached_answer_is_free_witness:
  "\<exists>gw'. rs_text (fst (demo_call [demo_provider False] demo_request 100 gw')) = ''hi''"
proof -
  obtain res gw' now where run: "demo_call [demo_provider True] demo_request 1 demo_gateway = (res, gw', now)" by (metis prod_cases3)
  have order: "orderByHealth [demo_provider True] = [demo_provider True]" by (simp add: orderByHealth_def is_healthy_def demo_provider_def)
  have t: "tried (\<lambda>x. (x, [])) [demo_provider True] demo_request l 1 =
      (Some (''p'', \<lparr>co_text = ''hi'', co_model = ''m'', co_inputTokens = 0, co_outputTokens = 0\<rparr>), l, 8)" for l
    unfolding tried_def Let_def order by (simp add: demo_provider_def)
  from run have res: "rs_degraded res = None" "rs_cacheHit res = None" "now = 8" "rs_text res = ''hi''"
    by (cases rule: llm_call_cases; use demo_gateway_facts(3,4) t in auto)+
  obtain res' gw'' t' where again: "demo_call [demo_provider False] demo_request 100 gw' = (res', gw'', t')" by (metis prod_cases3)
  have same: "demo_request = demo_request\<lparr>rq_noCache := False, rq_scope := rq_scope demo_request\<rparr>" by (simp add: demo_request_def)
  have "rs_text res' = ''hi''"
    using cached_answer_is_free [OF run res(1,2) _ _ _ same again] res by (simp add: demo_gateway_def)
  with again show ?thesis by (metis fst_conv)
qed

end
