(* ===== verification/JsRegex.thy ===== *)
theory JsRegex
  imports Prelude
begin

text \<open>
  The regular expressions of the language, as far as the guardrails of the mentor and of the model
  gateway use them: ECMAScript patterns without captures, look-around or back-references, with the
  methods \<open>test\<close> and \<open>replace\<close>.

  A pattern is run at a place of the text given by the character before it and the text after it. The
  result lists every way to match, in the order in which the backtracking matcher of the language
  tries them, so that its head is the match the language reports. The iteration of a star stops at
  an iteration that consumes nothing, as the language requires; no body in use matches the empty text.
\<close>

section \<open>Characters\<close>

definition is_digit :: "char \<Rightarrow> bool" where "is_digit c \<longleftrightarrow> 48 \<le> char_code c \<and> char_code c \<le> 57"
definition is_upper :: "char \<Rightarrow> bool" where "is_upper c \<longleftrightarrow> 65 \<le> char_code c \<and> char_code c \<le> 90"
definition is_lower :: "char \<Rightarrow> bool" where "is_lower c \<longleftrightarrow> 97 \<le> char_code c \<and> char_code c \<le> 122"

definition is_alnum :: "char \<Rightarrow> bool" where "is_alnum c \<longleftrightarrow> is_digit c \<or> is_upper c \<or> is_lower c"

text \<open>\<open>\w\<close>.\<close>

definition is_word :: "char \<Rightarrow> bool" where "is_word c \<longleftrightarrow> is_alnum c \<or> c = CHR ''_''"

text \<open>The dot: no line terminator.\<close>

definition is_dot :: "char \<Rightarrow> bool" where "is_dot c \<longleftrightarrow> char_code c \<noteq> 10 \<and> char_code c \<noteq> 13"

definition upper :: "char \<Rightarrow> char" where
  "upper c = (if is_lower c then char_of (char_code c - 32) else c)"

section \<open>Patterns\<close>

datatype regex = Eps | Cls "char \<Rightarrow> bool" | Seq regex regex | Alt regex regex
  | Star regex | LazyStar regex | WordBound | TextStart | TextEnd

definition adv :: "char option \<Rightarrow> string \<Rightarrow> char option" where
  "adv p m = (if m = [] then p else Some (last m))"

text \<open>Continue every way to match with \<open>k\<close>.\<close>

definition then_run ::
    "(string \<times> string) list \<Rightarrow> (string \<Rightarrow> string \<Rightarrow> (string \<times> string) list) \<Rightarrow> (string \<times> string) list" where
  "then_run xs k = concat (map (\<lambda>(m, s). map (\<lambda>(m', s'). (m @ m', s')) (k m s)) xs)"

text \<open>At most \<open>n\<close> iterations that consume something; the length of the text is enough.\<close>

fun iterate :: "bool \<Rightarrow> (char option \<Rightarrow> string \<Rightarrow> (string \<times> string) list) \<Rightarrow> nat \<Rightarrow> char option \<Rightarrow> string \<Rightarrow> (string \<times> string) list" where
  "iterate greedy f 0 p s = [([], s)]"
| "iterate greedy f (Suc n) p s =
     (let more = then_run (filter (\<lambda>(m, s'). m \<noteq> []) (f p s)) (\<lambda>m. iterate greedy f n (adv p m))
      in if greedy then more @ [([], s)] else ([], s) # more)"

definition word_at :: "char option \<Rightarrow> bool" where
  "word_at c = (case c of None \<Rightarrow> False | Some c \<Rightarrow> is_word c)"

definition head :: "string \<Rightarrow> char option" where
  "head s = (case s of [] \<Rightarrow> None | c # _ \<Rightarrow> Some c)"

fun run :: "regex \<Rightarrow> char option \<Rightarrow> string \<Rightarrow> (string \<times> string) list" where
  "run Eps p s = [([], s)]"
| "run (Cls f) p s = (case s of [] \<Rightarrow> [] | c # cs \<Rightarrow> if f c then [([c], cs)] else [])"
| "run (Seq a b) p s = then_run (run a p s) (\<lambda>m. run b (adv p m))"
| "run (Alt a b) p s = run a p s @ run b p s"
| "run (Star a) p s = iterate True (run a) (length s) p s"
| "run (LazyStar a) p s = iterate False (run a) (length s) p s"
| "run WordBound p s = (if word_at p \<noteq> word_at (head s) then [([], s)] else [])"
| "run TextStart p s = (if p = None then [([], s)] else [])"
| "run TextEnd p s = (if s = [] then [([], s)] else [])"

text \<open>Literals, with and without regard to case, and the quantifiers \<open>?\<close>, \<open>+\<close>, \<open>{n}\<close> and \<open>{n,}\<close>.\<close>

fun seq :: "regex list \<Rightarrow> regex" where
  "seq [] = Eps"
| "seq [r] = r"
| "seq (r # rs) = Seq r (seq rs)"

fun alts :: "regex list \<Rightarrow> regex" where
  "alts [] = Cls (\<lambda>_. False)"
| "alts [r] = r"
| "alts (r # rs) = Alt r (alts rs)"

definition lit :: "string \<Rightarrow> regex" where
  "lit w = seq (map (\<lambda>c. Cls (\<lambda>d. d = c)) w)"

definition lit_i :: "string \<Rightarrow> regex" where
  "lit_i w = seq (map (\<lambda>c. Cls (\<lambda>d. lower d = lower c)) w)"

definition cls_i :: "(char \<Rightarrow> bool) \<Rightarrow> regex" where
  "cls_i f = Cls (\<lambda>c. f c \<or> f (lower c) \<or> f (upper c))"

definition opt :: "regex \<Rightarrow> regex" where "opt r = Alt r Eps"

definition one_or_more :: "regex \<Rightarrow> regex" where "one_or_more r = Seq r (Star r)"

definition exactly :: "nat \<Rightarrow> regex \<Rightarrow> regex" where "exactly n r = seq (replicate n r)"

definition at_least :: "nat \<Rightarrow> regex \<Rightarrow> regex" where "at_least n r = Seq (exactly n r) (Star r)"

definition chars :: "string \<Rightarrow> char \<Rightarrow> bool" where "chars cs c \<longleftrightarrow> c \<in> set cs"

section \<open>The methods\<close>

fun test_from :: "regex \<Rightarrow> char option \<Rightarrow> string \<Rightarrow> bool" where
  "test_from r p [] = (run r p [] \<noteq> [])"
| "test_from r p (c # cs) = (run r p (c # cs) \<noteq> [] \<or> test_from r (Some c) cs)"

definition test :: "regex \<Rightarrow> string \<Rightarrow> bool" where "test r s = test_from r None s"

text \<open>A text cut into the characters between matches and the matches, left to right.\<close>

datatype piece = Keep char | Hit string

lemma then_run_iff: "(m, s') \<in> set (then_run xs k) \<longleftrightarrow> (\<exists>m1 s1 m2. (m1, s1) \<in> set xs \<and> (m2, s') \<in> set (k m1 s1) \<and> m = m1 @ m2)"
  by (auto simp: then_run_def) fastforce

lemma iterate_iff:
  "(m, s') \<in> set (iterate g f (Suc n) p s) \<longleftrightarrow> m = [] \<and> s' = s \<or>
     (\<exists>m1 s1 m2. (m1, s1) \<in> set (f p s) \<and> m1 \<noteq> [] \<and> (m2, s') \<in> set (iterate g f n (adv p m1) s1) \<and> m = m1 @ m2)"
  by (cases g) (auto simp: Let_def then_run_iff)

lemma iterate_split:
  assumes "\<And>p s m s'. (m, s') \<in> set (f p s) \<Longrightarrow> s = m @ s'"
  shows "(m, s') \<in> set (iterate g f n p s) \<Longrightarrow> s = m @ s'"
proof (induction n arbitrary: p s m)
  case (Suc n)
  from Suc.prems consider "m = []" "s' = s" | m1 s1 m2 where "(m1, s1) \<in> set (f p s)"
      "(m2, s') \<in> set (iterate g f n (adv p m1) s1)" "m = m1 @ m2"
    unfolding iterate_iff by blast
  then show ?case using Suc.IH assms by cases auto
qed simp

lemma run_split: "(m, s') \<in> set (run r p s) \<Longrightarrow> s = m @ s'"
proof (induction r arbitrary: p s m s')
  case (Seq a b)
  from Seq.prems obtain m1 s1 m2 where "(m1, s1) \<in> set (run a p s)" "(m2, s') \<in> set (run b (adv p m1) s1)" "m = m1 @ m2"
    by (auto simp: then_run_iff)
  with Seq.IH show ?case by simp
next
  case (Star r)
  show ?case by (rule iterate_split [OF Star.IH Star.prems [unfolded run.simps]])
next
  case (LazyStar r)
  show ?case by (rule iterate_split [OF LazyStar.IH LazyStar.prems [unfolded run.simps]])
qed (auto split: list.splits if_splits)

function scan :: "regex \<Rightarrow> char option \<Rightarrow> string \<Rightarrow> piece list" where
  "scan r p s = (case run r p s of
     (m, s') # _ \<Rightarrow>
       if m \<noteq> [] then Hit m # scan r (adv p m) s'
       else Hit [] # (case s of [] \<Rightarrow> [] | c # cs \<Rightarrow> Keep c # scan r (Some c) cs)
   | [] \<Rightarrow> (case s of [] \<Rightarrow> [] | c # cs \<Rightarrow> Keep c # scan r (Some c) cs))"
  by pat_completeness auto
termination
proof (relation "measure (\<lambda>(r, p, s). length s)")
  fix r p s x xs m s'
  assume "run r p s = x # xs" "(m, s') = x" "m \<noteq> []"
  then have "s = m @ s'" using run_split [of m s' r p s] by simp
  with \<open>m \<noteq> []\<close> show "((r, adv p m, s'), (r, p, s)) \<in> measure (\<lambda>(r, p, s). length s)" by simp
qed auto

declare scan.simps [simp del]

text \<open>\<open>replace\<close> with the flag \<open>g\<close> and without, and the matches a callback with the flag \<open>g\<close> sees.\<close>

definition render :: "(string \<Rightarrow> string) \<Rightarrow> piece list \<Rightarrow> string" where
  "render f ps = concat (map (\<lambda>x. case x of Keep c \<Rightarrow> [c] | Hit m \<Rightarrow> f m) ps)"

definition replace_all :: "regex \<Rightarrow> (string \<Rightarrow> string) \<Rightarrow> string \<Rightarrow> string" where
  "replace_all r f s = render f (scan r None s)"

fun render_first :: "(string \<Rightarrow> string) \<Rightarrow> piece list \<Rightarrow> string" where
  "render_first f [] = []"
| "render_first f (Keep c # ps) = c # render_first f ps"
| "render_first f (Hit m # ps) = f m @ render (\<lambda>m. m) ps"

definition replace_first :: "regex \<Rightarrow> (string \<Rightarrow> string) \<Rightarrow> string \<Rightarrow> string" where
  "replace_first r f s = render_first f (scan r None s)"

definition hits_of :: "piece list \<Rightarrow> string list" where
  "hits_of ps = concat (map (\<lambda>x. case x of Keep c \<Rightarrow> [] | Hit m \<Rightarrow> [m]) ps)"

definition matches :: "regex \<Rightarrow> string \<Rightarrow> string list" where
  "matches r s = hits_of (scan r None s)"

lemma render_simps [simp]:
  "render f [] = []" "render f (Keep c # ps) = c # render f ps" "render f (Hit m # ps) = f m @ render f ps"
  by (simp_all add: render_def)

lemma hits_of_simps [simp]:
  "hits_of [] = []" "hits_of (Keep c # ps) = hits_of ps" "hits_of (Hit m # ps) = m # hits_of ps"
  by (simp_all add: hits_of_def)

text \<open>\<open>trim\<close> and \<open>split\<close>.\<close>

definition js_trim :: "string \<Rightarrow> string" where
  "js_trim s = rev (dropWhile js_space (rev (dropWhile js_space s)))"

fun split_on :: "char \<Rightarrow> string \<Rightarrow> string list" where
  "split_on d [] = [[]]"
| "split_on d (c # cs) = (if c = d then [] # split_on d cs else (case split_on d cs of [] \<Rightarrow> [[c]] | w # ws \<Rightarrow> (c # w) # ws))"

text \<open>The maximal runs of characters with a property; \<open>w\<close> is the run read so far.\<close>

fun chunks :: "(char \<Rightarrow> bool) \<Rightarrow> string \<Rightarrow> string \<Rightarrow> string list" where
  "chunks f w [] = (if w = [] then [] else [w])"
| "chunks f w (c # cs) =
     (if f c then chunks f (w @ [c]) cs else if w = [] then chunks f [] cs else w # chunks f [] cs)"

text \<open>\<open>s.trim().split(/\s+/)\<close>.\<close>

definition words :: "string \<Rightarrow> string list" where
  "words s = (let ws = chunks (\<lambda>c. \<not> js_space c) [] s in if ws = [] then [[]] else ws)"

section \<open>Lemmas\<close>

lemma chunks_all: "list_all f u \<Longrightarrow> chunks f w (u @ s) = chunks f (w @ u) s"
  by (induction u arbitrary: w) auto

lemma chunks_break: "\<not> f d \<Longrightarrow> chunks f w (u @ d # v) = chunks f w u @ chunks f [] v"
  by (induction u arbitrary: w) auto

lemma chunks_Nil_iff: "chunks f w s = [] \<longleftrightarrow> w = [] \<and> list_all (\<lambda>c. \<not> f c) s"
  by (induction s arbitrary: w) auto

text \<open>The pieces make up the text, and every piece that is a match is one.\<close>

lemma scan_Nil: "run r p s = [] \<Longrightarrow> scan r p s = (case s of [] \<Rightarrow> [] | c # cs \<Rightarrow> Keep c # scan r (Some c) cs)"
  by (subst scan.simps) simp

lemma scan_Hit: "run r p s = (m, s') # xs \<Longrightarrow> m \<noteq> [] \<Longrightarrow> scan r p s = Hit m # scan r (adv p m) s'"
  by (subst scan.simps) simp

lemma scan_empty: "run r p s = ([], s') # xs \<Longrightarrow>
    scan r p s = Hit [] # (case s of [] \<Rightarrow> [] | c # cs \<Rightarrow> Keep c # scan r (Some c) cs)"
  by (subst scan.simps) simp

text \<open>Induction over the pieces: nothing matches here, or a match that consumes something, or an empty one.\<close>

lemma scan_induct [case_names stop skip hit empty_stop empty_skip]:
  assumes "\<And>p. run r p [] = [] \<Longrightarrow> P p []"
    and "\<And>p c cs. run r p (c # cs) = [] \<Longrightarrow> P (Some c) cs \<Longrightarrow> P p (c # cs)"
    and "\<And>p m s' xs. run r p (m @ s') = (m, s') # xs \<Longrightarrow> m \<noteq> [] \<Longrightarrow> P (Some (last m)) s' \<Longrightarrow> P p (m @ s')"
    and "\<And>p s' xs. run r p [] = ([], s') # xs \<Longrightarrow> P p []"
    and "\<And>p c cs s' xs. run r p (c # cs) = ([], s') # xs \<Longrightarrow> P (Some c) cs \<Longrightarrow> P p (c # cs)"
  shows "P p s"
proof (induction s arbitrary: p rule: length_induct)
  case (1 s)
  show ?case
  proof (cases "run r p s")
    case Nil
    with 1 assms(1,2) show ?thesis by (cases s) auto
  next
    case (Cons x xs)
    obtain m s' where x: "x = (m, s')" by fastforce
    then have s: "s = m @ s'" using run_split [of m s' r p s] Cons by simp
    show ?thesis
    proof (cases "m = []")
      case True
      with 1 Cons x assms(4,5) show ?thesis by (cases s) auto
    next
      case False
      with 1 s have "P (Some (last m)) s'" by simp
      with assms(3) False Cons x s show ?thesis by blast
    qed
  qed
qed

lemma render_id: "render (\<lambda>m. m) (scan r p s) = s"
  by (induction p s rule: scan_induct [of r]) (simp_all add: scan_Nil scan_Hit scan_empty adv_def)

lemma scan_none: "\<not> test_from r p s \<Longrightarrow> scan r p s = map Keep s"
  by (induction s arbitrary: p) (subst scan.simps; simp)+

lemma replace_none: "\<not> test r s \<Longrightarrow> replace_all r f s = s \<and> replace_first r f s = s \<and> matches r s = []"
proof -
  assume "\<not> test r s"
  then have "scan r None s = map Keep s" by (simp add: test_def scan_none)
  moreover have "render f (map Keep s) = s" "render_first f (map Keep s) = s" "hits_of (map Keep s) = []" for s
    by (induction s) auto
  ultimately show ?thesis by (simp add: replace_all_def replace_first_def matches_def)
qed

lemma test_from_append: "test_from r (adv p u) v \<Longrightarrow> test_from r p (u @ v)"
proof (induction u arbitrary: p)
  case (Cons c u)
  then have "test_from r (adv (Some c) u) v" by (auto simp: adv_def split: if_splits)
  with Cons.IH show ?case by simp
qed (simp add: adv_def)

lemma run_test: "run r p v \<noteq> [] \<Longrightarrow> test_from r p v"
  by (cases v) auto

subsection \<open>Sequences and repetitions\<close>

lemma then_run_Nil [simp]: "then_run [] k = []"
  by (simp add: then_run_def)

lemma then_run_Cons: "then_run ((m, s) # xs) k = map (\<lambda>(m', s'). (m @ m', s')) (k m s) @ then_run xs k"
  by (simp add: then_run_def)

lemma then_run_Eps: "then_run xs (\<lambda>m s. [([], s)]) = xs"
  by (induction xs) (auto simp: then_run_Cons)

lemma run_seq_Cons: "run (seq (r # rs)) p s = then_run (run r p s) (\<lambda>m. run (seq rs) (adv p m))"
proof -
  have "(\<lambda>m. run Eps (adv p m)) = (\<lambda>m s. [([], s)])" by (intro ext) simp
  then show ?thesis by (cases rs) (simp_all add: then_run_Eps)
qed

lemma adv_adv: "adv (adv p m) m' = adv p (m @ m')"
  by (simp add: adv_def)

lemma run_seq_append_iff:
  "(m, s') \<in> set (run (seq (rs @ rs')) p s) \<longleftrightarrow>
     (\<exists>m1 s1 m2. (m1, s1) \<in> set (run (seq rs) p s) \<and> (m2, s') \<in> set (run (seq rs') (adv p m1) s1) \<and> m = m1 @ m2)"
proof (induction rs arbitrary: p s m)
  case (Cons r rs)
  have "(m, s') \<in> set (run (seq ((r # rs) @ rs')) p s) \<longleftrightarrow> (\<exists>m1 s1 m2 s2 m3. (m1, s1) \<in> set (run r p s) \<and>
      (m2, s2) \<in> set (run (seq rs) (adv p m1) s1) \<and> (m3, s') \<in> set (run (seq rs') (adv p (m1 @ m2)) s2) \<and> m = m1 @ m2 @ m3)"
    using Cons.IH by (simp add: run_seq_Cons then_run_iff adv_adv) blast
  also have "\<dots> \<longleftrightarrow> (\<exists>m1 s1 m2. (m1, s1) \<in> set (run (seq (r # rs)) p s) \<and> (m2, s') \<in> set (run (seq rs') (adv p m1) s1) \<and> m = m1 @ m2)"
    by (simp add: run_seq_Cons then_run_iff) (metis append.assoc)
  finally show ?case .
qed (simp add: adv_def)

text \<open>The match reported for a sequence comes from a way to match its first part, and from the first one when
  the second part always matches.\<close>

lemma then_run_head:
  "then_run xs k = (m, s') # ys \<Longrightarrow> \<exists>m1 s1 m2 zs. (m1, s1) \<in> set xs \<and> k m1 s1 = (m2, s') # zs \<and> m = m1 @ m2"
proof (induction xs)
  case (Cons x xs)
  obtain m1 s1 where x: "x = (m1, s1)" by fastforce
  with Cons show ?case by (cases "k m1 s1") (auto simp: then_run_Cons)
qed simp

lemma then_run_first:
  assumes "then_run xs k = (m, s') # ys" and "\<And>m1 s1. k m1 s1 \<noteq> []"
  shows "\<exists>m1 s1 m2 xs' zs. xs = (m1, s1) # xs' \<and> k m1 s1 = (m2, s') # zs \<and> m = m1 @ m2"
proof -
  obtain m1 s1 xs' where xs: "xs = (m1, s1) # xs'" using assms(1) by (cases xs) auto
  obtain m2 s2 zs where k: "k m1 s1 = (m2, s2) # zs" using assms(2) [of m1 s1] by (cases "k m1 s1") auto
  from assms(1) xs k show ?thesis by (auto simp: then_run_Cons)
qed

lemma run_lit_D: "(m, s') \<in> set (run (lit w) p s) \<Longrightarrow> m = w"
proof (induction w arbitrary: p s m)
  case (Cons c w)
  then show ?case by (fastforce simp: lit_def run_seq_Cons then_run_iff split: list.splits if_splits)
qed (simp add: lit_def)

lemma run_lit: "run (lit w) p (w @ v) = [(w, v)]"
  by (induction w arbitrary: p) (simp_all add: lit_def run_seq_Cons then_run_Cons)

lemma run_exactly: "list_all f k \<Longrightarrow> run (exactly (length k) (Cls f)) p (k @ v) = [(k, v)]"
  by (induction k arbitrary: p) (simp_all add: exactly_def run_seq_Cons then_run_Cons)

lemma run_Star_nonempty: "run (Star r) p s \<noteq> []"
  by (cases "length s") (simp_all add: Let_def)

lemma star_greedy: "run (Star (Cls f)) p s = (m, s') # xs \<Longrightarrow> m = takeWhile f s \<and> s' = dropWhile f s"
proof (induction s arbitrary: p m xs)
  case (Cons c cs)
  show ?case
  proof (cases "f c")
    case True
    obtain m' s'' ys where r: "run (Star (Cls f)) (Some c) cs = (m', s'') # ys"
      using run_Star_nonempty [of "Cls f" "Some c" cs] by (cases "run (Star (Cls f)) (Some c) cs") auto
    with Cons.IH [of "Some c" m'] Cons.prems True show ?thesis by (auto simp: Let_def then_run_Cons adv_def)
  qed (use Cons.prems in \<open>auto simp: Let_def\<close>)
qed simp

text \<open>Patterns every match of which has a character of a kind; those that consume something.\<close>

definition has_char :: "(char \<Rightarrow> bool) \<Rightarrow> regex \<Rightarrow> bool" where
  "has_char f r \<longleftrightarrow> (\<forall>p s m s'. (m, s') \<in> set (run r p s) \<longrightarrow> list_ex f m)"

abbreviation eats :: "regex \<Rightarrow> bool" where "eats \<equiv> has_char (\<lambda>_. True)"

lemma has_charD: "has_char f r \<Longrightarrow> (m, s') \<in> set (run r p s) \<Longrightarrow> list_ex f m"
  by (auto simp: has_char_def)

lemma eatsD: "eats r \<Longrightarrow> (m, s') \<in> set (run r p s) \<Longrightarrow> m \<noteq> []"
  using has_charD [of "\<lambda>_. True" r m] by fastforce

lemma has_char_Cls: "(\<And>c. g c \<Longrightarrow> f c) \<Longrightarrow> has_char f (Cls g)"
  by (auto simp: has_char_def split: list.splits if_splits)

lemma has_char_seq:
  assumes "r \<in> set rs" and "has_char f r"
  shows "has_char f (seq rs)"
proof -
  have "(m, s') \<in> set (run (seq rs) p s) \<Longrightarrow> list_ex f m" for p s m s'
    using assms(1)
  proof (induction rs arbitrary: p s m)
    case (Cons r' rs)
    then obtain m1 s1 m2 where "(m1, s1) \<in> set (run r' p s)" "(m2, s') \<in> set (run (seq rs) (adv p m1) s1)" "m = m1 @ m2"
      by (auto simp: run_seq_Cons then_run_iff)
    with Cons assms(2) has_charD show ?case by fastforce
  qed simp
  then show ?thesis by (simp add: has_char_def)
qed

lemma eats_Cls: "eats (Cls f)" by (simp add: has_char_Cls)

lemmas eats_seq = has_char_seq [where f = "\<lambda>_. True"]

lemma eats_lit: "w \<noteq> [] \<Longrightarrow> eats (lit w)" and eats_lit_i: "w \<noteq> [] \<Longrightarrow> eats (lit_i w)"
  unfolding lit_def lit_i_def
  by (rule eats_seq [of "Cls (\<lambda>d. d = hd w)"], auto simp: eats_Cls,
      rule eats_seq [of "Cls (\<lambda>d. lower d = lower (hd w))"], auto simp: eats_Cls)

lemma run_Star_mem: "list_all f m \<Longrightarrow> (m, v) \<in> set (run (Star (Cls f)) p (m @ v))"
proof (induction m arbitrary: p)
  case Nil
  then show ?case by (cases v) (auto simp: Let_def)
next
  case (Cons c m)
  then have "(m, v) \<in> set (iterate True (run (Cls f)) (length (m @ v)) (adv p [c]) (m @ v))" by simp
  with Cons.prems show ?case by (auto simp: Let_def then_run_Cons)
qed

text \<open>The matches the methods see are matches.\<close>

lemma hits_run: "m \<in> set (hits_of (scan r p s)) \<Longrightarrow> \<exists>p' s'. (m, s') \<in> set (run r p' (m @ s'))"
proof (induction p s rule: scan_induct [of r])
  case (hit p m' s' xs)
  then show ?case by (auto simp: scan_Hit adv_def) (metis list.set_intros(1))+
next
  case (empty_stop p s' xs)
  then show ?case using run_split [of "[]" s' r p "[]"] by (auto simp: scan_empty) (metis append_Nil list.set_intros(1))
next
  case (empty_skip p c cs s' xs)
  then show ?case using run_split [of "[]" s' r p "c # cs"] by (auto simp: scan_empty) (metis append_Nil list.set_intros(1))
qed (auto simp: scan_Nil)

text \<open>What a replacement changes first.\<close>

lemma render_change:
  "render f ps = render (\<lambda>m. m) ps \<or>
   (\<exists>u m v v'. m \<in> set (hits_of ps) \<and> f m \<noteq> m \<and> render f ps = u @ f m @ v' \<and> render (\<lambda>m. m) ps = u @ m @ v)"
proof (induction ps)
  case (Cons x ps)
  show ?case
  proof (cases x)
    case (Keep c)
    with Cons show ?thesis by simp (metis append_Cons)
  next
    case (Hit m)
    show ?thesis
    proof (cases "f m = m")
      case True
      with Cons Hit show ?thesis by simp (metis append.assoc)
    next
      case False
      with Hit have "m \<in> set (hits_of (x # ps)) \<and> f m \<noteq> m \<and> render f (x # ps) = [] @ f m @ render f ps \<and>
          render (\<lambda>m. m) (x # ps) = [] @ m @ render (\<lambda>m. m) ps" by simp
      then show ?thesis by blast
    qed
  qed
qed simp

lemma render_first_change:
  "render_first f ps = render (\<lambda>m. m) ps \<or>
   (\<exists>u m v v'. m \<in> set (hits_of ps) \<and> f m \<noteq> m \<and> render_first f ps = u @ f m @ v' \<and> render (\<lambda>m. m) ps = u @ m @ v)"
proof (induction f ps rule: render_first.induct)
  case (2 f c ps)
  then show ?case by simp (metis append_Cons)
next
  case (3 f m ps)
  have "f m = m \<or> m \<in> set (hits_of (Hit m # ps)) \<and> f m \<noteq> m \<and> render_first f (Hit m # ps) = [] @ f m @ render (\<lambda>m. m) ps \<and>
      render (\<lambda>m. m) (Hit m # ps) = [] @ m @ render (\<lambda>m. m) ps" by simp
  then show ?case by (metis render_first.simps(3) render_simps(3))
qed simp

lemma set_render: "set (render f ps) \<subseteq> set (render (\<lambda>m. m) ps) \<union> (\<Union>m \<in> set (hits_of ps). set (f m))"
proof (induction ps)
  case (Cons x ps)
  then show ?case by (cases x) auto
qed simp

lemma set_render_first: "set (render_first f ps) \<subseteq> set (render (\<lambda>m. m) ps) \<union> (\<Union>m \<in> set (hits_of ps). set (f m))"
  by (induction f ps rule: render_first.induct) auto

subsection \<open>Splitting\<close>

lemma split_on_nonempty: "split_on d s \<noteq> []"
  by (cases s) (auto split: list.splits)

lemma split_on_no_sep: "l \<in> set (split_on d s) \<Longrightarrow> d \<notin> set l"
proof (induction s arbitrary: l)
  case (Cons c s)
  then show ?case by (cases "split_on d s") (auto split: if_splits)
qed simp

lemma split_on_plain: "d \<notin> set l \<Longrightarrow> split_on d l = [l]"
  by (induction l) auto

lemma split_on_append: "d \<notin> set l \<Longrightarrow> split_on d (l @ d # s) = l # split_on d s"
  by (induction l) auto

lemma split_on_join: "ls \<noteq> [] \<Longrightarrow> \<forall>l \<in> set ls. d \<notin> set l \<Longrightarrow> split_on d (join [d] ls) = ls"
  by (induction "[d]" ls rule: join.induct) (auto simp: split_on_plain split_on_append)

end
