(* ===== verification/Redactor.thy ===== *)
theory Redactor
  imports JsRegex
begin

text \<open>
  The scrubbing of secrets before a prompt leaves the platform, \<open>llm-gateway/redactor.ts\<close>.

  \<open>tokens\<close> cuts a text into its maximal runs of word characters. A pattern that cannot match part
  of a token only removes tokens when its matches are replaced, and adds those of the label
  (\<open>redacted_tokens\<close>); one that matches every token of a kind removes them all (\<open>redacted_kind\<close>).
\<close>

section \<open>Model\<close>

definition secret_char :: "char \<Rightarrow> bool" where "secret_char c \<longleftrightarrow> is_alnum c \<or> chars ''/+'' c"
definition dashed :: "char \<Rightarrow> bool" where "dashed c \<longleftrightarrow> is_alnum c \<or> chars ''_-'' c"
definition quote_char :: "char \<Rightarrow> bool" where "quote_char c \<longleftrightarrow> chars [CHR 0x22, CHR 0x27] c"

definition aws_access_key_id :: regex where
  "aws_access_key_id = seq [WordBound, lit ''AKIA'', exactly 16 (Cls (\<lambda>c. is_digit c \<or> is_upper c)), WordBound]"

definition aws_secret_access_key :: regex where
  "aws_secret_access_key = seq [WordBound, lit_i ''aws_secret_access_key'', Star (Cls js_space), Cls (chars ''=:''),
     Star (Cls js_space), exactly 40 (cls_i secret_char), WordBound]"

definition api_key :: regex where
  "api_key = seq [WordBound, lit ''sk-'', at_least 16 (Cls dashed), WordBound]"

definition github_pat :: regex where
  "github_pat = seq [WordBound, lit ''ghp_'', exactly 36 (Cls is_alnum), WordBound]"

definition credential_kv :: regex where
  "credential_kv = seq [WordBound,
     alts [lit_i ''authorization'', lit_i ''x-api-key'', seq [lit_i ''api'', opt (Cls (chars ''_-'')), lit_i ''key''],
       lit_i ''token'', lit_i ''secret'', lit_i ''password''],
     Star (Cls js_space), Cls (chars ''=:''), Star (Cls js_space), opt (Cls quote_char),
     at_least 8 (Cls (\<lambda>c. \<not> js_space c \<and> \<not> quote_char c)), opt (Cls quote_char)]"

definition jwt :: regex where
  "jwt = seq [WordBound, lit ''eyJ'', at_least 10 (Cls dashed), lit ''.'', at_least 10 (Cls dashed), lit ''.'',
     at_least 10 (Cls dashed), WordBound]"

definition private_key :: regex where
  "private_key = seq [lit ''-----BEGIN '', Star (Cls (\<lambda>c. is_upper c \<or> c = CHR '' '')), lit ''PRIVATE KEY-----'',
     LazyStar (Cls (\<lambda>_. True)), lit ''-----END '', Star (Cls (\<lambda>c. is_upper c \<or> c = CHR '' '')), lit ''PRIVATE KEY-----'']"

definition email :: regex where
  "email = seq [WordBound, one_or_more (Cls (\<lambda>c. is_alnum c \<or> chars ''._%+-'' c)), lit ''@'',
     one_or_more (Cls (\<lambda>c. is_alnum c \<or> chars ''.-'' c)), lit ''.'', at_least 2 (Cls (\<lambda>c. is_upper c \<or> is_lower c)), WordBound]"

definition PATTERNS :: "(regex \<times> string) list" where
  "PATTERNS = [(aws_access_key_id, ''aws_access_key_id''), (aws_secret_access_key, ''aws_secret_access_key''),
     (api_key, ''api_key''), (github_pat, ''github_pat''), (credential_kv, ''credential_kv''), (jwt, ''jwt''),
     (private_key, ''private_key''), (email, ''email'')]"

definition redact_step :: "string \<times> string list \<Rightarrow> regex \<times> string \<Rightarrow> string \<times> string list" where
  "redact_step st pat = (case (st, pat) of ((out, hits), (re, label)) \<Rightarrow>
     (replace_all re (\<lambda>_. ''[redacted:'' @ label @ '']'') out, hits @ map (\<lambda>_. label) (matches re out)))"

definition redact :: "string \<Rightarrow> string \<times> string list" where
  "redact text = (let (out, hits) = foldl redact_step (text, []) PATTERNS in (out, uniq hits))"

section \<open>Tokens\<close>

abbreviation tokens_from :: "string \<Rightarrow> string \<Rightarrow> string list" where
  "tokens_from \<equiv> chunks is_word"

definition tokens :: "string \<Rightarrow> string list" where "tokens s = tokens_from [] s"

definition joined :: "char option \<Rightarrow> char option \<Rightarrow> bool" where "joined p q \<longleftrightarrow> word_at p \<and> word_at q"

text \<open>Matches are not empty and neither begin nor end inside a token.\<close>

definition whole :: "regex \<Rightarrow> bool" where
  "whole r \<longleftrightarrow> (\<forall>p s m s' xs. run r p s = (m, s') # xs \<longrightarrow>
     m \<noteq> [] \<and> \<not> joined p (head s) \<and> \<not> joined (adv p m) (head s'))"

lemma wholeD:
  assumes "whole r" and "run r p s = (m, s') # xs"
  shows "m \<noteq> []" "\<not> joined p (head s)" "\<not> joined (adv p m) (head s')"
  using assms unfolding whole_def by blast+

lemma tokens_from_start: "\<not> word_at (head v) \<Longrightarrow> tokens_from w (u @ v) = tokens_from w u @ tokens_from [] v"
  by (cases v) (auto simp: head_def word_at_def chunks_break)

lemma tokens_from_cut:
  assumes "u \<noteq> []" and "\<not> joined (Some (last u)) (head v)"
  shows "tokens_from w (u @ v) = tokens_from w u @ tokens_from [] v"
proof (cases "word_at (head v)")
  case True
  obtain u' c where u: "u = u' @ [c]" using assms(1) by (metis rev_exhaust)
  with True assms(2) have "\<not> is_word c" by (simp add: joined_def word_at_def)
  with u show ?thesis using chunks_break [of is_word c w u' v] chunks_break [of is_word c w u' "[]"] by simp
qed (simp add: tokens_from_start)

definition label_text :: "string \<Rightarrow> string" where "label_text l = ''[redacted:'' @ l @ '']''"

lemma tokens_label:
  assumes "list_all is_word l" and "l \<noteq> []"
  shows "tokens_from w (label_text l @ s) = (if w = [] then [] else [w]) @ [''redacted'', l] @ tokens_from [] s"
proof -
  have no: "\<not> is_word CHR ''[''" "\<not> is_word CHR '']''" "\<not> is_word CHR '':''"
    and yes: "list_all is_word ''redacted''"
    by (simp_all add: is_word_def is_alnum_def is_digit_def is_upper_def is_lower_def char_code_def)
  have "label_text l @ s = CHR ''['' # ''redacted'' @ CHR '':'' # l @ CHR '']'' # s" by (simp add: label_text_def)
  then show ?thesis
    using no assms chunks_all [OF yes, of "[]" "CHR '':'' # l @ CHR '']'' # s"] chunks_all [OF assms(1), of "[]" "CHR '']'' # s"]
    by simp
qed

text \<open>Where the scan stands: the token read so far, and the place.\<close>

definition in_token :: "string \<Rightarrow> char option \<Rightarrow> string \<Rightarrow> bool" where
  "in_token w p s \<longleftrightarrow> (if w = [] then \<not> joined p (head s) else word_at p)"

lemma in_token_step:
  "is_word c \<Longrightarrow> in_token (w @ [c]) (Some c) s"
  "\<not> is_word c \<Longrightarrow> in_token [] (Some c) s"
  by (simp_all add: in_token_def joined_def word_at_def)

lemma head_Cons [simp]: "head (c # cs) = Some c" and head_Nil [simp]: "head [] = None"
  by (simp_all add: head_def)

lemma head_dropWhile: "head (dropWhile f s) = Some d \<Longrightarrow> \<not> f d"
  by (induction s) (auto split: if_splits)

lemma word_at_simps [simp]: "word_at (Some c) = is_word c" "\<not> word_at None"
  by (simp_all add: word_at_def)

lemma in_token_hit:
  assumes "whole r" and "run r p (m @ s') = (m, s') # xs" and "in_token w p (m @ s')"
  shows "in_token [] (Some (last m)) s'" "\<not> joined (Some (last m)) (head s')" "m \<noteq> []"
    "w \<noteq> [] \<Longrightarrow> tokens_from w m = w # tokens_from [] m \<and> \<not> is_word (hd m)"
proof -
  note w = wholeD [OF assms(1,2)]
  then show "m \<noteq> []" "\<not> joined (Some (last m)) (head s')" "in_token [] (Some (last m)) s'"
    by (simp_all add: in_token_def adv_def)
  assume "w \<noteq> []"
  with assms(3) w(1,2) show "tokens_from w m = w # tokens_from [] m \<and> \<not> is_word (hd m)"
    by (cases m) (auto simp: in_token_def joined_def)
qed

lemma whole_induct [consumes 1, case_names stop skip hit]:
  assumes "whole r" and "\<And>p. run r p [] = [] \<Longrightarrow> P p []"
    and "\<And>p c cs. run r p (c # cs) = [] \<Longrightarrow> P (Some c) cs \<Longrightarrow> P p (c # cs)"
    and "\<And>p m s' xs. run r p (m @ s') = (m, s') # xs \<Longrightarrow> m \<noteq> [] \<Longrightarrow> P (Some (last m)) s' \<Longrightarrow> P p (m @ s')"
  shows "P p s"
  by (rule scan_induct [of r P]) (use assms(2-) wholeD(1) [OF assms(1)] in blast)+

lemma redacted_tokens:
  assumes "whole r" and "list_all is_word l" and "l \<noteq> []"
  shows "in_token w p s \<Longrightarrow>
    set (tokens_from w (render (\<lambda>_. label_text l) (scan r p s))) \<subseteq> set (tokens_from w s) \<union> {''redacted'', l}"
  using assms(1)
proof (induction p s arbitrary: w rule: whole_induct)
  case (skip p c cs)
  from skip.IH [of "w @ [c]"] skip.IH [of "[]"] show ?case
    using in_token_step [of c] by (auto simp: scan_Nil [OF skip.hyps(1)])
next
  case (hit p m s' xs)
  note tok = in_token_hit [OF assms(1) hit.hyps(1) hit.prems]
  have "tokens_from w (m @ s') = tokens_from w m @ tokens_from [] s'" by (rule tokens_from_cut [OF tok(3,2)])
  moreover from hit.IH [OF tok(1)] have
    "set (tokens_from [] (render (\<lambda>_. label_text l) (scan r (Some (last m)) s'))) \<subseteq> set (tokens_from [] s') \<union> {''redacted'', l}" .
  ultimately show ?case
    using tok(4) by (auto simp: scan_Hit [OF hit.hyps(1,2)] adv_def hit.hyps(2) tokens_label [OF assms(2,3)])
qed (simp add: scan_Nil)

lemma redacted_kind:
  assumes "whole r" and "list_all is_word l" and "l \<noteq> []"
    and word: "\<And>k. kind k \<Longrightarrow> list_all is_word k \<and> k \<noteq> []"
    and found: "\<And>p k v. kind k \<Longrightarrow> \<not> word_at p \<Longrightarrow> \<not> word_at (head v) \<Longrightarrow> run r p (k @ v) \<noteq> []"
    and label: "\<not> kind ''redacted''" "\<not> kind l"
  shows "in_token w p s \<Longrightarrow> w \<noteq> [] \<longrightarrow> \<not> kind (w @ takeWhile is_word s) \<Longrightarrow>
    t \<in> set (tokens_from w (render (\<lambda>_. label_text l) (scan r p s))) \<Longrightarrow> \<not> kind t"
  using assms(1)
proof (induction p s arbitrary: w rule: whole_induct)
  case (skip p c cs)
  show ?case
  proof (cases "is_word c")
    case True
    have "\<not> kind ([c] @ takeWhile is_word cs)" if "w = []"
    proof
      assume k: "kind ([c] @ takeWhile is_word cs)"
      have "\<not> word_at p" using skip.prems(1) that True by (simp add: in_token_def joined_def)
      moreover have "\<not> word_at (head (dropWhile is_word cs))"
        using head_dropWhile [of is_word cs] by (cases "head (dropWhile is_word cs)") auto
      ultimately have "run r p (([c] @ takeWhile is_word cs) @ dropWhile is_word cs) \<noteq> []" by (rule found [OF k])
      with skip.hyps(1) show False by simp
    qed
    then have "\<not> kind ((w @ [c]) @ takeWhile is_word cs)" using skip.prems(2) True by (cases "w = []") auto
    with skip.IH [of "w @ [c]"] in_token_step(1) [OF True] skip.prems(3) True show ?thesis
      by (auto simp: scan_Nil [OF skip.hyps(1)])
  next
    case False
    with skip.IH [of "[]"] in_token_step(2) [OF False] skip.prems(2,3) show ?thesis
      by (auto simp: scan_Nil [OF skip.hyps(1)] split: if_splits)
  qed
next
  case (hit p m s' xs)
  note tok = in_token_hit [OF assms(1) hit.hyps(1) hit.prems(1)]
  have "w \<noteq> [] \<Longrightarrow> \<not> kind w" using hit.prems(2) tok(3,4) by (cases m) auto
  moreover from hit.IH [OF tok(1)] have
    "t \<in> set (tokens_from [] (render (\<lambda>_. label_text l) (scan r (Some (last m)) s'))) \<Longrightarrow> \<not> kind t" by simp
  ultimately show ?case
    using hit.prems(3) label by (auto simp: scan_Hit [OF hit.hyps(1,2)] adv_def hit.hyps(2) tokens_label [OF assms(2,3)] split: if_splits)
qed (auto simp: scan_Nil split: if_splits)

section \<open>The patterns keep tokens whole\<close>

lemma bound_start: "run (seq (WordBound # rs)) p s \<noteq> [] \<Longrightarrow> \<not> joined p (head s)"
  by (auto simp: run_seq_Cons joined_def split: if_splits)

lemma bound_end: "(m, s') \<in> set (run (seq (rs @ [WordBound])) p s) \<Longrightarrow> \<not> joined (adv p m) (head s')"
  by (auto simp: run_seq_append_iff joined_def adv_adv split: if_splits)

lemma whole_word:
  assumes "r \<in> set rs" and "eats r"
  shows "whole (seq (WordBound # rs @ [WordBound]))"
  unfolding whole_def
proof (intro allI impI conjI)
  fix p s m s' xs
  assume run: "run (seq (WordBound # rs @ [WordBound])) p s = (m, s') # xs"
  have "eats (seq (WordBound # rs @ [WordBound]))" using assms by (intro eats_seq [of r]) auto
  with run show "m \<noteq> []" by (metis eatsD list.set_intros(1))
  show "\<not> joined p (head s)" using bound_start run by (metis list.distinct(1))
  show "\<not> joined (adv p m) (head s')" using bound_end [of m s' "WordBound # rs" p s] run by simp
qed

lemma whole_bounded_patterns:
  "whole aws_access_key_id" "whole aws_secret_access_key" "whole api_key" "whole github_pat" "whole jwt" "whole email"
  unfolding aws_access_key_id_def aws_secret_access_key_def api_key_def github_pat_def jwt_def email_def
  using whole_word [of "lit ''AKIA''" "[lit ''AKIA'', exactly 16 (Cls (\<lambda>c. is_digit c \<or> is_upper c))]"]
    whole_word [of "lit_i ''aws_secret_access_key''" "[lit_i ''aws_secret_access_key'', Star (Cls js_space), Cls (chars ''=:''),
      Star (Cls js_space), exactly 40 (cls_i secret_char)]"]
    whole_word [of "lit ''sk-''" "[lit ''sk-'', at_least 16 (Cls dashed)]"]
    whole_word [of "lit ''ghp_''" "[lit ''ghp_'', exactly 36 (Cls is_alnum)]"]
    whole_word [of "lit ''eyJ''" "[lit ''eyJ'', at_least 10 (Cls dashed), lit ''.'', at_least 10 (Cls dashed), lit ''.'', at_least 10 (Cls dashed)]"]
    whole_word [of "lit ''@''" "[one_or_more (Cls (\<lambda>c. is_alnum c \<or> chars ''._%+-'' c)), lit ''@'',
      one_or_more (Cls (\<lambda>c. is_alnum c \<or> chars ''.-'' c)), lit ''.'', at_least 2 (Cls (\<lambda>c. is_upper c \<or> is_lower c))]"]
  by (simp_all add: eats_lit eats_lit_i)

lemma not_word: "js_space c \<Longrightarrow> \<not> is_word c" "quote_char c \<Longrightarrow> \<not> is_word c" "\<not> is_word CHR ''-''"
  by (auto simp: js_space_def quote_char_def chars_def is_word_def is_alnum_def is_digit_def is_upper_def is_lower_def char_code_def)

text \<open>A credential's value extends to the next blank or quote.\<close>

lemma value_end:
  assumes "run (seq [at_least n (Cls (\<lambda>c. \<not> js_space c \<and> \<not> quote_char c)), opt (Cls quote_char)]) p s = (m, s') # xs"
  shows "\<not> joined (adv p m) (head s')"
proof -
  let ?f = "\<lambda>c. \<not> js_space c \<and> \<not> quote_char c"
  have opt: "run (opt (Cls quote_char)) q t \<noteq> []" for q t by (simp add: opt_def)
  from assms have "then_run (run (at_least n (Cls ?f)) p s) (\<lambda>m. run (opt (Cls quote_char)) (adv p m)) = (m, s') # xs" by simp
  from then_run_first [OF this opt] obtain m1 s1 m2 xs' zs where first: "run (at_least n (Cls ?f)) p s = (m1, s1) # xs'"
      and last: "run (opt (Cls quote_char)) (adv p m1) s1 = (m2, s') # zs" "m = m1 @ m2" by blast
  from first have "then_run (run (exactly n (Cls ?f)) p s) (\<lambda>m. run (Star (Cls ?f)) (adv p m)) = (m1, s1) # xs'"
    unfolding at_least_def run.simps(3) .
  from then_run_head [OF this] obtain m0 s0 m3 ws where "run (Star (Cls ?f)) (adv p m0) s0 = (m3, s1) # ws" by blast
  from star_greedy [OF this] have s1: "s1 = dropWhile ?f s0" by simp
  have stop: "\<not> ?f d" if "head s1 = Some d" for d by (rule head_dropWhile [OF that [unfolded s1]])
  show ?thesis
  proof (cases "m2 = []")
    case True
    with last have "s' = s1" "head s1 = Some d \<Longrightarrow> \<not> quote_char d" for d by (auto simp: opt_def split: list.splits if_splits)
    with stop not_word(1) show ?thesis by (cases "head s'") (auto simp: joined_def)
  next
    case False
    with last obtain d where "m2 = [d]" "quote_char d" by (auto simp: opt_def split: list.splits if_splits)
    with last(2) not_word(2) show ?thesis by (simp add: joined_def adv_def)
  qed
qed

lemma whole_credential_kv: "whole credential_kv"
  unfolding whole_def
proof (intro allI impI conjI)
  define pre where "pre = [alts [lit_i ''authorization'', lit_i ''x-api-key'', seq [lit_i ''api'', opt (Cls (chars ''_-'')), lit_i ''key''],
       lit_i ''token'', lit_i ''secret'', lit_i ''password''],
     Star (Cls js_space), Cls (chars ''=:''), Star (Cls js_space), opt (Cls quote_char)]"
  define val where "val = [at_least 8 (Cls (\<lambda>c. \<not> js_space c \<and> \<not> quote_char c)), opt (Cls quote_char)]"
  have kv: "credential_kv = seq (WordBound # pre @ val)" by (simp add: credential_kv_def pre_def val_def)
  fix p s m s' xs
  assume run: "run credential_kv p s = (m, s') # xs"
  have "eats credential_kv" unfolding kv by (rule eats_seq [of "Cls (chars ''=:'')"]) (simp_all add: pre_def eats_Cls)
  with run show "m \<noteq> []" by (metis eatsD list.set_intros(1))
  show "\<not> joined p (head s)" using bound_start run kv by (metis list.distinct(1))
  have split: "run (seq (rs @ val)) q t = (m, s') # ys \<Longrightarrow> \<exists>m1 t1 m2 zs. m = m1 @ m2 \<and> run (seq val) (adv q m1) t1 = (m2, s') # zs"
    for rs q t m ys
  proof (induction rs arbitrary: q t m ys)
    case Nil
    then have "m = [] @ m \<and> run (seq val) (adv q []) t = (m, s') # ys" by (simp add: adv_def)
    then show ?case by blast
  next
    case (Cons r rs)
    then obtain m1 t1 m2 zs where "run (seq (rs @ val)) (adv q m1) t1 = (m2, s') # zs" "m = m1 @ m2"
      using then_run_head [of "run r q t" "\<lambda>m. run (seq (rs @ val)) (adv q m)"] by (auto simp: run_seq_Cons)
    with Cons.IH [of "adv q m1" t1 m2 zs] show ?case by (metis adv_adv append.assoc)
  qed
  have "run (seq ((WordBound # pre) @ val)) p s = (m, s') # xs" using run kv by simp
  from split [OF this] obtain m1 t1 m2 zs where "m = m1 @ m2" "run (seq val) (adv p m1) t1 = (m2, s') # zs" by blast
  with value_end [of 8 "adv p m1" t1 m2 s' zs] show "\<not> joined (adv p m) (head s')" by (simp add: val_def adv_adv)
qed

lemma whole_private_key: "whole private_key"
  unfolding whole_def
proof (intro allI impI conjI)
  fix p s m s' xs
  assume "run private_key p s = (m, s') # xs"
  then have hit: "(m, s') \<in> set (run private_key p s)" by simp
  define mid where "mid = [Star (Cls (\<lambda>c. is_upper c \<or> c = CHR '' '')), lit ''PRIVATE KEY-----'',
     LazyStar (Cls (\<lambda>_. True)), lit ''-----END '', Star (Cls (\<lambda>c. is_upper c \<or> c = CHR '' ''))]"
  have pk: "private_key = seq ([lit ''-----BEGIN ''] @ mid @ [lit ''PRIVATE KEY-----''])"
    by (simp add: private_key_def mid_def)
  from hit obtain m1 where m1: "m = ''-----BEGIN '' @ m1" unfolding pk run_seq_append_iff using run_lit_D by force
  then show "m \<noteq> []" by simp
  have "head s = Some (CHR ''-'')" using run_split [OF hit] m1 by simp
  then show "\<not> joined p (head s)" using not_word(3) by (simp add: joined_def)
  from hit obtain m2 where "m = m2 @ ''PRIVATE KEY-----''" unfolding pk append_assoc [symmetric] run_seq_append_iff [of _ _ _ "[lit ''PRIVATE KEY-----'']"]
    using run_lit_D by force
  then show "\<not> joined (adv p m) (head s')" using not_word(3) by (simp add: joined_def adv_def)
qed

lemma whole_patterns: "(r, l) \<in> set PATTERNS \<Longrightarrow> whole r"
  using whole_bounded_patterns whole_credential_kv whole_private_key by (auto simp: PATTERNS_def)

section \<open>Properties\<close>

text \<open>Access key ids of AWS and personal access tokens of GitHub, as whole tokens.\<close>

definition is_aws_key :: "string \<Rightarrow> bool" where
  "is_aws_key k \<longleftrightarrow> starts_with k ''AKIA'' \<and> length k = 20 \<and> list_all (\<lambda>c. is_digit c \<or> is_upper c) (drop 4 k)"

definition is_github_pat :: "string \<Rightarrow> bool" where
  "is_github_pat k \<longleftrightarrow> starts_with k ''ghp_'' \<and> length k = 40 \<and> list_all is_alnum (drop 4 k)"

lemma labels_words: "(r, l) \<in> set PATTERNS \<Longrightarrow> list_all is_word l \<and> l \<noteq> [] \<and> \<not> is_aws_key l \<and> \<not> is_github_pat l"
  by (auto simp: PATTERNS_def is_word_def is_alnum_def is_digit_def is_upper_def is_lower_def char_code_def is_aws_key_def is_github_pat_def)

lemma redact_step_text:
  "fst (redact_step (out, hits) (r, l)) = render (\<lambda>_. label_text l) (scan r None out)"
  by (simp add: redact_step_def replace_all_def label_text_def)

lemma start_in_token: "in_token [] None s"
  by (simp add: in_token_def joined_def)

lemma step_tokens:
  assumes "(r, l) \<in> set PATTERNS"
  shows "set (tokens (fst (redact_step (out, hits) (r, l)))) \<subseteq> set (tokens out) \<union> {''redacted'', l}"
  unfolding redact_step_text tokens_def
  using redacted_tokens [OF whole_patterns [OF assms] _ _ start_in_token] labels_words [OF assms] by blast

lemma steps_tokens:
  assumes "set ps \<subseteq> set PATTERNS" and "\<And>r l. (r, l) \<in> set PATTERNS \<Longrightarrow> \<not> kind l" and "\<not> kind ''redacted''"
  shows "\<forall>t \<in> set (tokens out). \<not> kind t \<Longrightarrow> \<forall>t \<in> set (tokens (fst (foldl redact_step (out, hits) ps))). \<not> kind t"
  using assms(1)
proof (induction ps arbitrary: out hits)
  case (Cons x ps)
  obtain r l where x: "x = (r, l)" by fastforce
  obtain out' hits' where st: "redact_step (out, hits) x = (out', hits')" by fastforce
  have "(r, l) \<in> set PATTERNS" using Cons.prems(2) x by simp
  from step_tokens [OF this, of out hits] st x Cons.prems(1) assms(2) [OF this] assms(3)
  have "\<forall>t \<in> set (tokens out'). \<not> kind t" by auto
  with Cons st show ?case by simp
qed simp

lemma run_key:
  assumes "list_all f k" and "\<not> word_at p" and "\<not> word_at (head v)" and "is_word (hd w)" and "w \<noteq> []" and "k \<noteq> []" and "is_word (last k)"
  shows "run (seq [WordBound, lit w, exactly (length k) (Cls f), WordBound]) p (w @ k @ v) \<noteq> []"
proof -
  have "word_at (head (w @ k @ v))" using assms(4,5) by (cases w) auto
  moreover have "word_at (adv (adv p w) k)" using assms(6,7) by (simp add: adv_def)
  ultimately show ?thesis
    using assms(2,3) by (simp add: run_seq_Cons then_run_Cons run_lit run_exactly [OF assms(1)] adv_def [of _ "[]"])
qed

lemma key_start: "is_word CHR ''A''" "is_word CHR ''g''"
  by (simp_all add: is_word_def is_alnum_def is_upper_def is_lower_def char_code_def)

lemma run_aws_key:
  assumes "is_aws_key k" and "\<not> word_at p" and "\<not> word_at (head v)"
  shows "run aws_access_key_id p (k @ v) \<noteq> []"
proof -
  obtain x where k: "k = ''AKIA'' @ x" using assms(1) by (auto simp: is_aws_key_def starts_with_iff)
  with assms(1) have x: "length x = 16" "list_all (\<lambda>c. is_digit c \<or> is_upper c) x" by (simp_all add: is_aws_key_def)
  then have "x \<noteq> []" by auto
  with x(2) have "x \<noteq> []" "is_word (last x)" by (auto simp: list_all_iff is_word_def is_alnum_def)
  from run_key [OF x(2) assms(2,3) _ _ this, of "''AKIA''"] show ?thesis
    using key_start(1) by (simp add: aws_access_key_id_def k x(1) del: run.simps seq.simps)
qed

lemma run_github_pat:
  assumes "is_github_pat k" and "\<not> word_at p" and "\<not> word_at (head v)"
  shows "run github_pat p (k @ v) \<noteq> []"
proof -
  obtain x where k: "k = ''ghp_'' @ x" using assms(1) by (auto simp: is_github_pat_def starts_with_iff)
  with assms(1) have x: "length x = 36" "list_all is_alnum x" by (simp_all add: is_github_pat_def)
  then have "x \<noteq> []" by auto
  with x(2) have "x \<noteq> []" "is_word (last x)" by (auto simp: list_all_iff is_word_def)
  from run_key [OF x(2) assms(2,3) _ _ this, of "''ghp_''"] show ?thesis
    using key_start(2) by (simp add: github_pat_def k x(1) del: run.simps seq.simps)
qed

lemma words_append: "list_all is_word w \<Longrightarrow> list_all f x \<Longrightarrow> (\<And>c. f c \<Longrightarrow> is_word c) \<Longrightarrow> list_all is_word (w @ x)"
  by (auto simp: list_all_iff)

lemma kinds_word: "is_aws_key k \<Longrightarrow> list_all is_word k \<and> k \<noteq> []" "is_github_pat k \<Longrightarrow> list_all is_word k \<and> k \<noteq> []"
proof -
  have w: "list_all is_word ''AKIA''" "list_all is_word ''ghp_''"
    by (simp_all add: is_word_def is_alnum_def is_digit_def is_upper_def is_lower_def char_code_def)
  show "list_all is_word k \<and> k \<noteq> []" if k: "is_aws_key k"
  proof -
    obtain x where "k = ''AKIA'' @ x" "list_all (\<lambda>c. is_digit c \<or> is_upper c) x"
      using k by (auto simp: is_aws_key_def starts_with_iff)
    with words_append [OF w(1), of "\<lambda>c. is_digit c \<or> is_upper c" x] show ?thesis
      by (metis append_is_Nil_conv is_alnum_def is_word_def list.distinct(1))
  qed
  show "list_all is_word k \<and> k \<noteq> []" if k: "is_github_pat k"
  proof -
    obtain x where "k = ''ghp_'' @ x" "list_all is_alnum x" using k by (auto simp: is_github_pat_def starts_with_iff)
    with words_append [OF w(2), of is_alnum x] show ?thesis by (simp add: is_word_def)
  qed
qed

lemma kinds_label: "\<not> is_aws_key ''redacted''" "\<not> is_github_pat ''redacted''"
  by (simp_all add: is_aws_key_def is_github_pat_def)

text \<open>A step with the pattern of a kind of token removes every token of that kind.\<close>

lemma step_kind:
  assumes "(r, l) \<in> set PATTERNS" and "\<And>k. kind k \<Longrightarrow> list_all is_word k \<and> k \<noteq> []"
    and "\<And>p k v. kind k \<Longrightarrow> \<not> word_at p \<Longrightarrow> \<not> word_at (head v) \<Longrightarrow> run r p (k @ v) \<noteq> []"
    and "\<not> kind ''redacted''" and "\<not> kind l"
  shows "\<forall>t \<in> set (tokens (fst (redact_step (out, hits) (r, l)))). \<not> kind t"
  unfolding redact_step_text tokens_def
  using redacted_kind [where kind = kind, OF whole_patterns [OF assms(1)] _ _ assms(2,3,4,5) start_in_token] labels_words [OF assms(1)] by blast

lemma redact_removes:
  assumes "PATTERNS = ps @ (r, l) # qs" and "\<And>k. kind k \<Longrightarrow> list_all is_word k \<and> k \<noteq> []"
    and "\<And>p k v. kind k \<Longrightarrow> \<not> word_at p \<Longrightarrow> \<not> word_at (head v) \<Longrightarrow> run r p (k @ v) \<noteq> []"
    and "\<not> kind ''redacted''" and "\<And>r l. (r, l) \<in> set PATTERNS \<Longrightarrow> \<not> kind l"
  shows "\<forall>t \<in> set (tokens (fst (redact text))). \<not> kind t"
proof -
  obtain out hits where before: "foldl redact_step (text, []) ps = (out, hits)" by fastforce
  obtain out' hits' where st: "redact_step (out, hits) (r, l) = (out', hits')" by fastforce
  have mem: "(r, l) \<in> set PATTERNS" and rest: "set qs \<subseteq> set PATTERNS" by (subst assms(1), auto)+
  have "\<forall>t \<in> set (tokens out'). \<not> kind t" using step_kind [OF mem assms(2-4) assms(5) [OF mem], of out hits] st by simp
  from steps_tokens [where kind = kind, OF rest assms(5,4) this]
  have "\<forall>t \<in> set (tokens (fst (foldl redact_step (out', hits') qs))). \<not> kind t" .
  moreover have "foldl redact_step (text, []) PATTERNS = foldl redact_step (out', hits') qs"
    by (subst assms(1)) (simp add: before st)
  ultimately show ?thesis by (simp add: redact_def split: prod.splits)
qed

lemma redact_tokens_clean: "\<forall>t \<in> set (tokens (fst (redact text))). \<not> is_aws_key t \<and> \<not> is_github_pat t"
proof -
  have aws: "PATTERNS = [] @ (aws_access_key_id, ''aws_access_key_id'') # tl PATTERNS" by (simp add: PATTERNS_def)
  have pat: "PATTERNS = take 3 PATTERNS @ (github_pat, ''github_pat'') # drop 4 PATTERNS" by (simp add: PATTERNS_def)
  have "\<forall>t \<in> set (tokens (fst (redact text))). \<not> is_aws_key t"
    by (rule redact_removes [where kind = is_aws_key, OF aws kinds_word(1) run_aws_key kinds_label(1)]) (use labels_words in auto)
  moreover have "\<forall>t \<in> set (tokens (fst (redact text))). \<not> is_github_pat t"
    by (rule redact_removes [where kind = is_github_pat, OF pat kinds_word(2) run_github_pat kinds_label(2)]) (use labels_words in auto)
  ultimately show ?thesis by blast
qed

text \<open>C29. No credential leaves the platform: whatever the text, after redaction it has no AWS access key id
  and no GitHub personal access token left as a word of its own, also when such a token was next to or
  inside other secrets that were scrubbed before or after it.\<close>

theorem no_key_survives:
  "\<forall>t \<in> set (tokens (fst (redact text))). \<not> is_aws_key t \<and> \<not> is_github_pat t"
  by (rule redact_tokens_clean)

theorem no_key_survives_witness:
  "is_aws_key ''AKIA0123456789ABCDEF'' \<and> ''AKIA0123456789ABCDEF'' \<notin> set (tokens (fst (redact ''id AKIA0123456789ABCDEF.'')))"
proof -
  have key: "is_aws_key ''AKIA0123456789ABCDEF''"
    by (simp add: is_aws_key_def is_digit_def is_upper_def char_code_def)
  then show ?thesis using no_key_survives [of "''id AKIA0123456789ABCDEF.''"] by blast
qed

end
