(* ===== verification/Guardrail.thy ===== *)
theory Guardrail
  imports JsRegex Complex_Main
begin

text \<open>
  The policy of the mentor: the disclosure ceiling of \<open>mentor/disclosure-policy.ts\<close>, the lexical
  classifier of \<open>mentor/intent-classifier.ts\<close>, and the check of a generated answer against the
  ceiling, \<open>mentor/output-guardrail.ts\<close>. In the placeholder texts a hyphen stands for the dash of
  the source, which is not an 8-bit character.
\<close>

section \<open>Model: disclosure-policy.ts\<close>

datatype activity_mode = GUIDED_LAB | PRODUCTION_SIM | PROJECT

text \<open>\<open>DisclosureCeiling\<close>: concept only, narrow the search, identify the area, identify the cause, give the command.\<close>

definition ConceptOnly :: int where "ConceptOnly = 0"
definition NarrowSearch :: int where "NarrowSearch = 1"
definition IdentifyArea :: int where "IdentifyArea = 2"
definition IdentifyCause :: int where "IdentifyCause = 3"
definition GiveCommand :: int where "GiveCommand = 4"

lemmas ceilings = ConceptOnly_def NarrowSearch_def IdentifyArea_def IdentifyCause_def GiveCommand_def

datatype persona = PATIENT_TUTOR | SENIOR_ONCALL | STAFF_REVIEWER

record disclosure =
  di_persona :: persona
  di_ceiling :: int
  di_mayUseCanonicalPath :: bool
  di_maxCodeLines :: nat

fun MODE_MAX :: "activity_mode \<Rightarrow> int" where
  "MODE_MAX GUIDED_LAB = GiveCommand"
| "MODE_MAX PRODUCTION_SIM = NarrowSearch"
| "MODE_MAX PROJECT = IdentifyArea"

fun MODE_PERSONA :: "activity_mode \<Rightarrow> persona" where
  "MODE_PERSONA GUIDED_LAB = PATIENT_TUTOR"
| "MODE_PERSONA PRODUCTION_SIM = SENIOR_ONCALL"
| "MODE_PERSONA PROJECT = STAFF_REVIEWER"

fun MODE_MAX_CODE_LINES :: "activity_mode \<Rightarrow> nat" where
  "MODE_MAX_CODE_LINES GUIDED_LAB = 5"
| "MODE_MAX_CODE_LINES PRODUCTION_SIM = 0"
| "MODE_MAX_CODE_LINES PROJECT = 0"

record resolve_input =
  ri_mode :: activity_mode
  ri_meanMastery :: real
  ri_timeStuckMinutes :: real
  ri_hintLevelReached :: "int option"
  ri_activityOverride :: "int option"

definition resolveDisclosure :: "resolve_input \<Rightarrow> disclosure" where
  "resolveDisclosure i =
     (let base = (case ri_mode i of GUIDED_LAB \<Rightarrow> IdentifyArea | PRODUCTION_SIM \<Rightarrow> NarrowSearch | PROJECT \<Rightarrow> ConceptOnly);
          c1 = (if ri_meanMastery i < 4/10 then base + 1 else base);
          c2 = (if ri_timeStuckMinutes i \<ge> 10 then c1 + 1 else c1);
          c3 = (if ri_mode i = GUIDED_LAB \<and> (case ri_hintLevelReached i of None \<Rightarrow> 0 | Some h \<Rightarrow> h) \<ge> 3 then GiveCommand else c2);
          c4 = (case ri_activityOverride i of None \<Rightarrow> c3 | Some ov \<Rightarrow> min c3 ov);
          ceiling = max 0 (min (min c4 (MODE_MAX (ri_mode i))) GiveCommand)
      in \<lparr>di_persona = MODE_PERSONA (ri_mode i), di_ceiling = ceiling, di_mayUseCanonicalPath = (ceiling \<ge> IdentifyArea),
          di_maxCodeLines = (if ceiling \<ge> GiveCommand then MODE_MAX_CODE_LINES (ri_mode i)
            else min (MODE_MAX_CODE_LINES (ri_mode i)) (if ri_mode i = GUIDED_LAB then 5 else 0))\<rparr>)"

section \<open>Model: intent-classifier.ts\<close>

datatype intent = Concept_q | Error_help | Just_tell_me | Off_topic | Injection

definition any_i :: "string list \<Rightarrow> regex" where "any_i ws = alts (map lit_i ws)"

abbreviation space :: regex where "space \<equiv> Cls js_space"

definition INJECTION_MARKERS :: "regex list" where
  "INJECTION_MARKERS = [
     seq [lit_i ''ignore '', opt (any_i [''all '', ''the '']), any_i [''previous'', ''above'', ''prior''], lit_i '' '', any_i [''instructions'', ''rules'']],
     seq [lit_i ''you are now'', WordBound],
     seq [lit_i ''disregard '', any_i [''your'', ''the''], lit_i '' '', any_i [''system prompt'', ''rules'', ''instructions'']],
     seq [WordBound, lit_i ''disclosure'', opt (Cls (chars ''_ '')), lit_i ''ceiling'', Star space,
       alts [lit ''='', lit '':'', seq [WordBound, lit_i ''is'', WordBound]], Star space, Cls (chars ''234'')],
     seq [lit_i ''print '', any_i [''your'', ''the''], lit_i '' '', any_i [''system prompt'', ''instructions'', ''solution'', ''reference'']],
     alts [seq [WordBound, lit_i ''DAN'', WordBound], seq [WordBound, lit_i ''dev'', opt (lit '' ''), lit_i ''mode'', WordBound], lit_i ''jailbreak''],
     seq [lit_i ''roleplay '', Star (Cls is_dot), lit_i '' '', any_i [''solution'', ''answer key'', ''reference'']],
     seq [lit_i ''decode this and '', any_i [''follow'', ''do'']]]"

definition JUST_TELL_ME :: "regex list" where
  "JUST_TELL_ME = [
     seq [lit_i ''just '', any_i [''tell'', ''give''], lit_i '' me '', opt (lit_i ''the ''), any_i [''answer'', ''solution'', ''command'', ''fix'']],
     seq [lit_i ''what'', alts [lit_i (CHR 0x27 # ''s''), lit_i '' is''], lit_i '' the '', opt (lit_i ''exact ''), lit_i ''command'', WordBound],
     seq [any_i [''give'', ''show''], lit_i '' me the '', any_i [''full'', ''complete'', ''corrected''], lit_i '' '', any_i [''manifest'', ''yaml'', ''code'', ''file'']],
     seq [lit_i ''can you '', opt (lit_i ''just ''), lit_i ''fix it '', opt (lit_i ''for me'')]]"

definition ERROR_HELP :: "regex list" where
  "ERROR_HELP = [
     alts (map lit_i [''error'', ''failed'', ''failing'', ''not working'', ''crashloop'', ''exit code'', ''stderr'', ''traceback'',
       ''exception'', ''denied'', ''refused'', ''timeout'', ''timing out'', ''unhealthy''] @
       [seq [lit_i ''not'', opt (lit '' ''), lit_i ''ready''], lit ''502'', lit ''503'', seq [lit ''500'', WordBound]]),
     seq [WordBound, lit_i ''why'', WordBound],
     seq [lit_i ''what does this '', any_i [''mean'', ''error'']]]"

definition OFF_TOPIC :: "regex list" where
  "OFF_TOPIC = [
     seq [WordBound, any_i [''weather'', ''sports'', ''movie'', ''recipe'', ''stock price'', ''joke'', ''poem''], WordBound],
     seq [lit_i ''who '', any_i [''are you'', ''made you'', ''built you''], WordBound]]"

definition classifyIntent :: "string \<Rightarrow> intent" where
  "classifyIntent text =
     (let t = js_trim text in
      if list_ex (\<lambda>re. test re t) INJECTION_MARKERS then Injection
      else if list_ex (\<lambda>re. test re t) JUST_TELL_ME then Just_tell_me
      else if list_ex (\<lambda>re. test re t) OFF_TOPIC then Off_topic
      else if list_ex (\<lambda>re. test re t) ERROR_HELP then Error_help
      else Concept_q)"

section \<open>Model: output-guardrail.ts\<close>

datatype violation = COMMAND_LEAK | CODE_BLOCK_TOO_LONG | NAMES_BROKEN_RESOURCE | SOLUTION_SNIPPET_LEAK

record guardrail_input =
  gi_text :: string
  gi_ceiling :: int
  gi_maxCodeLines :: nat
  gi_sensitiveResourceNames :: "string list"
  gi_knownSolutionSnippets :: "string list"

record guardrail_result =
  gr_allowed :: bool
  gr_violations :: "violation list"
  gr_redacted :: string

text \<open>The alternatives of \<open>TOOLS\<close>, and the names they match.\<close>

definition plain_tools :: "string list" where
  "plain_tools = [''kubectl'', ''docker'', ''helm'', ''terraform'', ''tofu'', ''aws'', ''gcloud'', ''az'', ''git'', ''npm'',
     ''yarn'', ''pnpm'', ''cargo'', ''go'', ''make'', ''systemctl'', ''journalctl'', ''curl'', ''wget'', ''bash'', ''sh'']"

definition more_tools :: "string list" where
  "more_tools = [''psql'', ''redis-cli'', ''nc'', ''ssh'', ''scp'', ''chmod'', ''chown'', ''mkdir'', ''rm'', ''mv'', ''cp'', ''tar'', ''sed'', ''awk'']"

definition TOOLS :: regex where
  "TOOLS = alts (map lit plain_tools @ [seq [lit ''python'', opt (lit ''3'')], seq [lit ''pip'', opt (lit ''3'')]] @ map lit more_tools)"

definition COMMAND_LINE :: regex where
  "COMMAND_LINE = seq [TextStart, Star space, opt (seq [lit ''$'', Star space]), opt (seq [lit ''sudo'', one_or_more space]), TOOLS, WordBound]"

definition COMMAND_IN_PROSE :: regex where
  "COMMAND_IN_PROSE = seq [WordBound, TOOLS, one_or_more space, Cls is_lower, one_or_more (Cls (\<lambda>c. is_word c \<or> chars '':-'' c)),
     one_or_more (seq [one_or_more space, one_or_more (Cls (\<lambda>c. is_word c \<or> chars ''./:=@-'' c))])]"

definition CODE_FENCE :: regex where
  "CODE_FENCE = seq [lit ''```'', LazyStar (Cls (\<lambda>_. True)), lit ''```'']"

definition INLINE_CODE :: regex where
  "INLINE_CODE = seq [lit ''`'', one_or_more (Cls (\<lambda>c. c \<noteq> CHR ''`'')), lit ''`'']"

definition nl :: char where "nl = CHR 0x0A"

text \<open>The callback for one fenced block: what replaces it, and the violation it reports.\<close>

definition fence_lines :: "string \<Rightarrow> string list" where
  "fence_lines block =
     (let inner = replace_first (seq [lit ''```'', Star (Cls is_alnum), opt (lit [nl])]) (\<lambda>_. []) block;
          inner' = replace_first (seq [lit ''```'', TextEnd]) (\<lambda>_. []) inner
      in filter (\<lambda>l. js_trim l \<noteq> []) (split_on nl inner'))"

definition check_fence :: "guardrail_input \<Rightarrow> string \<Rightarrow> string \<times> violation list" where
  "check_fence i block =
     (let lines = fence_lines block in
      if length lines > gi_maxCodeLines i
      then (''`[code example withheld - beyond what I can share for this activity]`'', [CODE_BLOCK_TOO_LONG])
      else if gi_ceiling i < GiveCommand \<and> list_ex (test COMMAND_LINE) lines
      then (''`[exact command withheld - try to work out the invocation from the concept]`'', [COMMAND_LEAK])
      else (block, []))"

definition is_command :: "string \<Rightarrow> bool" where
  "is_command line \<longleftrightarrow> test COMMAND_LINE line \<and> length (words line) \<ge> 2"

definition check_prose :: "string \<Rightarrow> string \<times> violation list" where
  "check_prose cmd = (if length (words cmd) < 3 then (cmd, []) else (''that command'', [COMMAND_LEAK]))"

definition check_inline :: "string \<Rightarrow> string \<times> violation list" where
  "check_inline whole = (if is_command (butlast (tl whole)) then (''`[command withheld]`'', [COMMAND_LEAK]) else (whole, []))"

definition check_line :: "string \<Rightarrow> string \<times> violation list" where
  "check_line line =
     (if is_command line then (''[exact command withheld]'', [COMMAND_LEAK])
      else let out = replace_first COMMAND_IN_PROSE (fst \<circ> check_prose) line;
               v1 = concat (map (snd \<circ> check_prose) (take 1 (matches COMMAND_IN_PROSE line)));
               out' = replace_all INLINE_CODE (fst \<circ> check_inline) out;
               v2 = concat (map (snd \<circ> check_inline) (matches INLINE_CODE out))
           in (out', v1 @ v2))"

definition check_name :: "string \<times> violation list \<Rightarrow> string \<Rightarrow> string \<times> violation list" where
  "check_name st name = (case st of (text, vs) \<Rightarrow>
     if length name < 3 then (text, vs)
     else if test (lit name) text
     then (replace_all (lit name) (\<lambda>_. ''the affected resource'') text, vs @ [NAMES_BROKEN_RESOURCE])
     else (text, vs))"

definition check_snippet :: "string \<times> violation list \<Rightarrow> string \<Rightarrow> string \<times> violation list" where
  "check_snippet st snip = (case st of (text, vs) \<Rightarrow>
     if length snip \<ge> 12 \<and> str_includes text snip
     then (replace_all (lit snip) (\<lambda>_. ''[redacted]'') text, vs @ [SOLUTION_SNIPPET_LEAK])
     else (text, vs))"

definition check_fences :: "guardrail_input \<Rightarrow> string \<times> violation list" where
  "check_fences i = (replace_all CODE_FENCE (fst \<circ> check_fence i) (gi_text i),
     concat (map (snd \<circ> check_fence i) (matches CODE_FENCE (gi_text i))))"

definition check_lines :: "string \<times> violation list \<Rightarrow> string \<times> violation list" where
  "check_lines st = (case st of (text, vs) \<Rightarrow>
     let ls = split_on nl text in (join [nl] (map (fst \<circ> check_line) ls), vs @ concat (map (snd \<circ> check_line) ls)))"

definition checkOutput :: "guardrail_input \<Rightarrow> guardrail_result" where
  "checkOutput i =
     (let st1 = check_fences i;
          st2 = (if gi_ceiling i < GiveCommand then check_lines st1 else st1);
          st3 = (if gi_ceiling i < IdentifyCause then foldl check_name st2 (gi_sensitiveResourceNames i) else st2);
          (text, vs) = foldl check_snippet st3 (gi_knownSolutionSnippets i)
      in \<lparr>gr_allowed = (SOLUTION_SNIPPET_LEAK \<notin> set vs), gr_violations = uniq vs, gr_redacted = text\<rparr>)"

section \<open>Command lines\<close>

text \<open>
  What a command line is, without reference to the patterns: after blanks, an optional prompt and an
  optional \<open>sudo\<close>, the name of a tool, a blank and an argument.
\<close>

definition tool_names :: "string list" where
  "tool_names = plain_tools @ [''python'', ''python3'', ''pip'', ''pip3''] @ more_tools"

abbreviation blank :: "string \<Rightarrow> bool" where "blank \<equiv> list_all js_space"

definition prompt :: "string \<Rightarrow> bool" where
  "prompt pre \<longleftrightarrow> (\<exists>a b c. pre = a @ b @ c \<and> blank a \<and> (b = [] \<or> (\<exists>x. b = ''$'' @ x \<and> blank x)) \<and>
     (c = [] \<or> (\<exists>y. c = ''sudo'' @ y \<and> y \<noteq> [] \<and> blank y)))"

definition runs_tool :: "string \<Rightarrow> bool" where
  "runs_tool line \<longleftrightarrow> (\<exists>pre tool d v. line = pre @ tool @ d # v \<and> prompt pre \<and> tool \<in> set tool_names \<and> js_space d \<and> \<not> blank v)"

definition shows_command :: "string \<Rightarrow> bool" where
  "shows_command text \<longleftrightarrow> list_ex runs_tool (split_on nl text)"

subsection \<open>The pattern finds every command line\<close>

lemma run_TOOLS: "tool \<in> set tool_names \<Longrightarrow> (tool, v) \<in> set (run TOOLS p (tool @ v))"
proof -
  have alts: "r \<in> set rs \<Longrightarrow> x \<in> set (run r p s) \<Longrightarrow> x \<in> set (run (alts rs) p s)" for r rs x s
    by (induction rs rule: alts.induct) auto
  have lit: "(tool, v) \<in> set (run (lit tool) p (tool @ v))" by (simp add: run_lit)
  have digit: "(w @ ''3'', v) \<in> set (run (seq [lit w, opt (lit ''3'')]) p ((w @ ''3'') @ v))"
    "(w, v) \<in> set (run (seq [lit w, opt (lit ''3'')]) p (w @ v))" for w
    by (simp_all add: then_run_Cons run_lit opt_def, simp add: lit_def)
  assume "tool \<in> set tool_names"
  then have "tool \<in> set plain_tools \<union> set more_tools \<or> (\<exists>w \<in> {''python'', ''pip''}. tool = w \<or> tool = w @ ''3'')"
    by (simp add: tool_names_def) blast
  then show ?thesis
  proof
    assume "tool \<in> set plain_tools \<union> set more_tools"
    then show ?thesis unfolding TOOLS_def by (intro alts [OF _ lit]) auto
  next
    assume "\<exists>w \<in> {''python'', ''pip''}. tool = w \<or> tool = w @ ''3''"
    then obtain w where w: "w \<in> {''python'', ''pip''}" "tool = w \<or> tool = w @ ''3''" by blast
    then have "(tool, v) \<in> set (run (seq [lit w, opt (lit ''3'')]) p (tool @ v))" using digit [of w] by metis
    then show ?thesis unfolding TOOLS_def by (rule alts [rotated]) (use w(1) in auto)
  qed
qed

lemma tool_word: "tool \<in> set tool_names \<Longrightarrow> tool \<noteq> [] \<and> is_word (last tool) \<and> \<not> blank tool"
proof -
  have "list_all (\<lambda>t. t \<noteq> [] \<and> is_word (last t) \<and> \<not> blank t) tool_names" by code_simp
  then show "tool \<in> set tool_names \<Longrightarrow> tool \<noteq> [] \<and> is_word (last tool) \<and> \<not> blank tool" by (auto simp: list_all_iff)
qed

lemma space_not_word: "js_space c \<Longrightarrow> \<not> is_word c"
  by (auto simp: js_space_def is_word_def is_alnum_def is_digit_def is_upper_def is_lower_def char_code_def)

lemma run_opt: "(m, v) \<in> set (run r p s) \<Longrightarrow> (m, v) \<in> set (run (opt r) p s)" "([], s) \<in> set (run (opt r) p s)"
  by (simp_all add: opt_def)

lemma run_SeqI: "(m, t) \<in> set (run r p s) \<Longrightarrow> (m', t') \<in> set (run (seq rs) (adv p m) t) \<Longrightarrow>
    (m @ m', t') \<in> set (run (seq (r # rs)) p s)"
  by (auto simp: run_seq_Cons then_run_iff)

lemma run_one_or_more: "list_all f m \<Longrightarrow> m \<noteq> [] \<Longrightarrow> (m, v) \<in> set (run (one_or_more (Cls f)) p (m @ v))"
proof -
  assume "list_all f m" "m \<noteq> []"
  then obtain c m' where m: "m = [c] @ m'" "f c" "list_all f m'" by (cases m) auto
  have "(m', v) \<in> set (run (Star (Cls f)) (adv p [c]) (m' @ v))" by (rule run_Star_mem [OF m(3)])
  with m show ?thesis unfolding one_or_more_def by (simp add: then_run_iff del: run.simps(5))
qed

lemma command_line_found:
  assumes "runs_tool line"
  shows "is_command line"
proof -
  from assms obtain pre tool d v where split: "line = pre @ tool @ d # v" "prompt pre"
      and tool: "tool \<in> set tool_names" and d: "js_space d" and v: "\<not> blank v"
    unfolding runs_tool_def by blast
  from split(2) obtain a b c where pre: "pre = a @ b @ c" and a: "blank a"
      and b: "b = [] \<or> (\<exists>x. b = ''$'' @ x \<and> blank x)" and c: "c = [] \<or> (\<exists>y. c = ''sudo'' @ y \<and> y \<noteq> [] \<and> blank y)"
    unfolding prompt_def by blast
  have line: "line = a @ b @ c @ tool @ d # v" using split(1) pre by simp
  let ?s = "tool @ d # v"
  have "([], d # v) \<in> set (run (seq [WordBound]) (adv p tool) (d # v))" for p
    using tool_word [OF tool] space_not_word [OF d] by (simp add: word_at_def head_def adv_def)
  then have 1: "(tool, d # v) \<in> set (run (seq [TOOLS, WordBound]) p ?s)" for p
    using run_SeqI [OF run_TOOLS [OF tool, of "d # v" p], of "[]" "d # v" "[WordBound]"] by simp
  have "(c, ?s) \<in> set (run (opt (seq [lit ''sudo'', one_or_more space])) p (c @ ?s))" for p
  proof (cases "c = []")
    case False
    with c obtain y where y: "c = ''sudo'' @ y" "y \<noteq> []" "blank y" by blast
    have "(''sudo'' @ y, ?s) \<in> set (run (seq [lit ''sudo'', one_or_more space]) p (''sudo'' @ y @ ?s))"
      by (rule run_SeqI [where t = "y @ ?s"]) (use run_lit [of "''sudo''" p "y @ ?s"] run_one_or_more [OF y(3,2)] in \<open>simp_all del: run.simps\<close>)
    with y(1) show ?thesis by (intro run_opt(1)) (simp only: append_assoc)
  qed (use run_opt(2) in auto)
  then have 2: "(c @ tool, d # v) \<in> set (run (seq [opt (seq [lit ''sudo'', one_or_more space]), TOOLS, WordBound]) p (c @ ?s))" for p
    using 1 by (rule run_SeqI)
  have "(b, c @ ?s) \<in> set (run (opt (seq [lit ''$'', Star space])) p (b @ c @ ?s))" for p
  proof (cases "b = []")
    case False
    with b obtain x where x: "b = ''$'' @ x" "blank x" by blast
    have "(''$'' @ x, c @ ?s) \<in> set (run (seq [lit ''$'', Star space]) p (''$'' @ x @ c @ ?s))"
      by (rule run_SeqI [where t = "x @ c @ ?s"]) (use run_lit [of "''$''" p "x @ c @ ?s"] run_Star_mem [OF x(2)] in \<open>simp_all del: run.simps\<close>)
    with x(1) show ?thesis by (intro run_opt(1)) (simp only: append_assoc)
  qed (use run_opt(2) in auto)
  then have 3: "(b @ c @ tool, d # v) \<in> set (run (seq [opt (seq [lit ''$'', Star space]), opt (seq [lit ''sudo'', one_or_more space]), TOOLS, WordBound]) p (b @ c @ ?s))" for p
    using 2 by (rule run_SeqI)
  have "(a @ b @ c @ tool, d # v) \<in> set (run (seq [Star space, opt (seq [lit ''$'', Star space]), opt (seq [lit ''sudo'', one_or_more space]), TOOLS, WordBound]) None line)"
    unfolding line by (rule run_SeqI [OF run_Star_mem [OF a] 3])
  then have "run COMMAND_LINE None line \<noteq> []" unfolding COMMAND_LINE_def run_seq_Cons [of TextStart]
    by (auto simp: then_run_Cons adv_def)
  then have "test COMMAND_LINE line" by (simp add: test_def run_test)
  moreover have "2 \<le> length (words line)"
  proof -
    let ?f = "\<lambda>c. \<not> js_space c"
    have "chunks ?f [] line = chunks ?f [] (a @ b @ c @ tool) @ chunks ?f [] v"
      using chunks_break [of ?f d "[]" "a @ b @ c @ tool" v] d line by simp
    moreover have "chunks ?f [] (a @ b @ c @ tool) \<noteq> []" "chunks ?f [] v \<noteq> []"
      using tool_word [OF tool] v by (simp_all add: chunks_Nil_iff)
    ultimately show ?thesis
      by (cases "chunks ?f [] (a @ b @ c @ tool)"; cases "chunks ?f [] v") (auto simp: words_def Let_def)
  qed
  ultimately show ?thesis by (simp add: is_command_def)
qed

subsection \<open>Replacements make no command line\<close>

definition prompt_char :: "char \<Rightarrow> bool" where
  "prompt_char c \<longleftrightarrow> js_space c \<or> c \<in> set ''$sudo''"

text \<open>A text that neither continues a prompt nor completes or contains the end of a tool's name.\<close>

definition harmless :: "string \<Rightarrow> bool" where
  "harmless X \<longleftrightarrow> X \<noteq> [] \<and> \<not> prompt_char (hd X) \<and>
     list_all (\<lambda>tool. list_all (\<lambda>i. let us = drop i tool in \<not> starts_with us X \<and>
       \<not> (starts_with X us \<and> (case drop (length us) X of [] \<Rightarrow> False | d # _ \<Rightarrow> js_space d))) [0..<length tool]) tool_names"

lemma prompt_chars: "prompt pre \<Longrightarrow> list_all prompt_char pre"
  by (auto simp: prompt_def prompt_char_def list_all_iff)

lemma harmlessD:
  assumes "harmless X" and "u @ us \<in> set tool_names" and "us \<noteq> []"
  shows "us \<noteq> X @ ys" "js_space d \<Longrightarrow> X \<noteq> us @ d # ys"
proof -
  have "us = drop (length u) (u @ us)" "length u \<in> set [0..<length (u @ us)]" using assms(3) by auto
  with assms(1,2) have "\<not> starts_with us X \<and> \<not> (starts_with X us \<and> (case drop (length us) X of [] \<Rightarrow> False | d # _ \<Rightarrow> js_space d))"
    unfolding harmless_def list_all_iff Let_def by metis
  then show "us \<noteq> X @ ys" "js_space d \<Longrightarrow> X \<noteq> us @ d # ys" by (auto simp: starts_with_iff)
qed

lemma append_cases:
  assumes "xs @ ys = us @ vs"
  obtains (left) t where "us = xs @ t" "ys = t @ vs" | (right) t where "t \<noteq> []" "xs = us @ t" "vs = t @ ys"
proof -
  from assms obtain t where "xs = us @ t \<and> t @ ys = vs \<or> xs @ t = us \<and> ys = t @ vs" unfolding append_eq_append_conv2 by blast
  with left right show thesis by (cases "t = []") auto
qed

lemma change_harmless:
  assumes "runs_tool (u @ X @ v')" and "harmless X" and "\<not> blank m"
  shows "runs_tool (u @ m @ v)"
proof -
  from assms(1) obtain pre tool d w where split: "u @ X @ v' = pre @ tool @ d # w" and pre: "prompt pre"
      and tool: "tool \<in> set tool_names" and d: "js_space d"
    unfolding runs_tool_def by blast
  have X: "X \<noteq> []" "\<not> prompt_char (hd X)" "\<not> js_space (hd X)" using assms(2) by (auto simp: harmless_def prompt_char_def)
  have "\<exists>u2. u = pre @ u2 \<and> u2 @ X @ v' = tool @ d # w"
  proof -
    from split [symmetric] show ?thesis
    proof (cases rule: append_cases)
      case (right us)
      then have "hd us = hd X" using X(1) by (metis hd_append2)
      then have "prompt_char (hd X)" using prompt_chars [OF pre] right(1,2) by (cases us) auto
      with X(2) show ?thesis by simp
    qed auto
  qed
  then obtain u2 where u: "u = pre @ u2" and rest: "tool @ d # w = u2 @ X @ v'" by auto
  from rest show ?thesis
  proof (cases rule: append_cases)
    case (left us)
    then obtain us' where "us = d # us'" using X d by (cases us; cases X) auto
    with left u have "u @ m @ v = pre @ tool @ d # (us' @ m @ v)" by simp
    with pre tool d assms(3) show ?thesis unfolding runs_tool_def by (metis list_all_append)
  next
    case (right us)
    have us: "u2 @ us \<in> set tool_names" "us \<noteq> []" using tool right by simp_all
    from right(3) show ?thesis
    proof (cases rule: append_cases)
      case (left ys)
      with harmlessD(1) [OF assms(2) us, of ys] show ?thesis by simp
    next
      case (right ys)
      then obtain ys' where "ys = d # ys'" by (cases ys) auto
      with harmlessD(2) [OF assms(2) us d, of ys'] right(2) show ?thesis by simp
    qed
  qed
qed

lemma harmless_texts: "harmless ''that command''" "harmless ''`[command withheld]`''" "harmless ''the affected resource''"
  by code_simp+

lemma render_harmless:
  assumes "\<And>m. m \<in> set (hits_of ps) \<Longrightarrow> f m = m \<or> harmless (f m) \<and> \<not> blank m"
  shows "runs_tool (render f ps) \<Longrightarrow> runs_tool (render (\<lambda>m. m) ps)"
    "runs_tool (render_first f ps) \<Longrightarrow> runs_tool (render (\<lambda>m. m) ps)"
  using render_change [of f ps] render_first_change [of f ps] assms change_harmless by metis+

subsection \<open>Lines\<close>

lemma matches_hit: "m \<in> set (matches r s) \<Longrightarrow> \<exists>p s'. (m, s') \<in> set (run r p (m @ s'))"
  by (auto simp: matches_def dest: hits_run)

lemma prose_not_blank: "m \<in> set (matches COMMAND_IN_PROSE s) \<Longrightarrow> \<not> blank m"
proof
  assume m: "m \<in> set (matches COMMAND_IN_PROSE s)" and "blank m"
  have "has_char (\<lambda>c. \<not> js_space c) (Cls is_lower)"
    by (rule has_char_Cls) (auto simp: is_lower_def js_space_def)
  then have "has_char (\<lambda>c. \<not> js_space c) COMMAND_IN_PROSE"
    unfolding COMMAND_IN_PROSE_def by (rule has_char_seq [rotated]) simp
  with matches_hit [OF m] have "list_ex (\<lambda>c. \<not> js_space c) m" using has_charD by blast
  with \<open>blank m\<close> show False by (auto simp: list_ex_iff list_all_iff)
qed

lemma inline_not_blank: "m \<in> set (matches INLINE_CODE s) \<Longrightarrow> \<not> blank m"
proof
  assume m: "m \<in> set (matches INLINE_CODE s)" and "blank m"
  have "has_char (\<lambda>c. \<not> js_space c) (lit ''`'')"
    unfolding lit_def by (simp, rule has_char_Cls, simp add: js_space_def char_code_def)
  then have "has_char (\<lambda>c. \<not> js_space c) INLINE_CODE"
    unfolding INLINE_CODE_def by (rule has_char_seq [rotated]) simp
  with matches_hit [OF m] have "list_ex (\<lambda>c. \<not> js_space c) m" using has_charD by blast
  with \<open>blank m\<close> show False by (auto simp: list_ex_iff list_all_iff)
qed

lemma runs_tool_start: "runs_tool (c # s) \<Longrightarrow> prompt_char c \<or> c \<in> hd ` set tool_names"
proof -
  assume "runs_tool (c # s)"
  then obtain pre tool w where split: "c # s = pre @ tool @ w" and pre: "prompt pre" and tool: "tool \<in> set tool_names"
    unfolding runs_tool_def by blast
  show ?thesis
  proof (cases pre)
    case Nil
    with split tool_word [OF tool] have "c = hd tool" by (cases tool) auto
    with tool show ?thesis by blast
  qed (use split prompt_chars [OF pre] in auto)
qed

lemma not_tool_start: "c \<in> set ''[TI'' \<Longrightarrow> \<not> runs_tool (c # s)"
proof -
  have "list_all (\<lambda>c. \<not> prompt_char c \<and> c \<notin> set (map hd tool_names)) ''[TI''" by code_simp
  then show "c \<in> set ''[TI'' \<Longrightarrow> \<not> runs_tool (c # s)" using runs_tool_start [of c s] by (auto simp: list_all_iff)
qed

lemma check_line_safe: "\<not> runs_tool (fst (check_line line))"
proof (cases "is_command line")
  case True
  then show ?thesis using not_tool_start by (simp add: check_line_def)
next
  case False
  define out where "out = replace_first COMMAND_IN_PROSE (fst \<circ> check_prose) line"
  have "runs_tool (replace_all INLINE_CODE (fst \<circ> check_inline) out) \<Longrightarrow> runs_tool out"
    using render_harmless(1) [of "scan INLINE_CODE None out" "fst \<circ> check_inline"] inline_not_blank [of _ out] harmless_texts(2)
    by (auto simp: replace_all_def render_id matches_def check_inline_def)
  moreover have "runs_tool out \<Longrightarrow> runs_tool line"
    using render_harmless(2) [of "scan COMMAND_IN_PROSE None line" "fst \<circ> check_prose"] prose_not_blank [of _ line] harmless_texts(1)
    by (auto simp: out_def replace_first_def render_id matches_def check_prose_def)
  ultimately show ?thesis using False command_line_found by (auto simp: check_line_def out_def Let_def)
qed

lemma check_line_one_line: "nl \<notin> set line \<Longrightarrow> nl \<notin> set (fst (check_line line))"
proof -
  assume line: "nl \<notin> set line"
  define out where "out = replace_first COMMAND_IN_PROSE (fst \<circ> check_prose) line"
  have hit: "set m \<subseteq> set s" if "m \<in> set (matches r s)" for m r s
  proof -
    have "m \<in> set (hits_of ps) \<Longrightarrow> set m \<subseteq> set (render (\<lambda>m. m) ps)" for ps
    proof (induction ps)
      case (Cons x ps)
      then show ?case by (cases x) auto
    qed simp
    from this [of "scan r None s"] that show ?thesis by (simp add: matches_def render_id)
  qed
  have plain: "nl \<notin> set ''that command''" "nl \<notin> set ''`[command withheld]`''" "nl \<notin> set ''[exact command withheld]''" by (simp_all add: nl_def)
  have "nl \<notin> set ((fst \<circ> check_prose) m)" if "m \<in> set (matches COMMAND_IN_PROSE line)" for m
    using hit [OF that] line plain(1) by (auto simp: check_prose_def)
  then have out: "nl \<notin> set out"
    using set_render_first [of "fst \<circ> check_prose" "scan COMMAND_IN_PROSE None line"] line
    unfolding out_def replace_first_def matches_def render_id by blast
  have "nl \<notin> set ((fst \<circ> check_inline) m)" if "m \<in> set (matches INLINE_CODE out)" for m
    using hit [OF that] out plain(2) by (auto simp: check_inline_def)
  then have "nl \<notin> set (replace_all INLINE_CODE (fst \<circ> check_inline) out)"
    using set_render [of "fst \<circ> check_inline" "scan INLINE_CODE None out"] out
    unfolding replace_all_def matches_def render_id by blast
  then show ?thesis using plain by (simp add: check_line_def out_def Let_def)
qed

lemma check_lines_safe: "\<not> shows_command (fst (check_lines (text, vs)))"
proof -
  let ?ls = "map (fst \<circ> check_line) (split_on nl text)"
  have "split_on nl (join [nl] ?ls) = ?ls"
    by (rule split_on_join) (use split_on_nonempty split_on_no_sep check_line_one_line in auto)
  then show ?thesis using check_line_safe by (simp add: shows_command_def check_lines_def Let_def list_ex_iff)
qed

subsection \<open>Names of resources\<close>

text \<open>The pieces of a text, line by line.\<close>

fun piece_lines :: "piece list \<Rightarrow> piece list list" where
  "piece_lines [] = [[]]"
| "piece_lines (x # ps) =
     (if x = Keep nl then [] # piece_lines ps else (case piece_lines ps of [] \<Rightarrow> [[x]] | w # ws \<Rightarrow> (x # w) # ws))"

lemma piece_lines_nonempty: "piece_lines ps \<noteq> []"
  by (cases ps) (auto split: list.splits)

lemma piece_lines_hits: "qs \<in> set (piece_lines ps) \<Longrightarrow> set (hits_of qs) \<subseteq> set (hits_of ps)"
proof (induction ps arbitrary: qs)
  case (Cons x ps)
  obtain w ws where w: "piece_lines ps = w # ws" using piece_lines_nonempty [of ps] by (cases "piece_lines ps") auto
  with Cons.IH [of w] Cons.IH [of qs] Cons.prems show ?case by (cases x) (auto split: if_splits)
qed simp

lemma split_on_Cons_text:
  "nl \<notin> set u \<Longrightarrow> split_on nl s = w # ws \<Longrightarrow> split_on nl (u @ s) = (u @ w) # ws"
  by (induction u) auto

lemma split_render:
  assumes "\<And>m. m \<in> set (hits_of ps) \<Longrightarrow> nl \<notin> set (f m)"
  shows "split_on nl (render f ps) = map (render f) (piece_lines ps)"
  using assms
proof (induction ps)
  case (Cons x ps)
  then have IH: "split_on nl (render f ps) = map (render f) (piece_lines ps)" by (cases x) auto
  obtain w ws where w: "piece_lines ps = w # ws" using piece_lines_nonempty [of ps] by (cases "piece_lines ps") auto
  show ?case
  proof (cases x)
    case (Hit m)
    with Cons.prems have "nl \<notin> set (f m)" by simp
    with Hit IH w show ?thesis by (simp add: split_on_Cons_text)
  qed (use IH w in auto)
qed simp

lemma check_name_safe:
  assumes "\<not> shows_command text" and "list_all (\<lambda>c. \<not> js_space c) name"
  shows "\<not> shows_command (fst (check_name (text, vs) name))"
proof (cases "length name < 3 \<or> \<not> test (lit name) text")
  case False
  let ?R = "\<lambda>_. ''the affected resource''" and ?ps = "scan (lit name) None text"
  have hits: "m \<in> set (hits_of ?ps) \<Longrightarrow> m = name" for m using hits_run run_lit_D by blast
  have nl: "nl \<notin> set name" using assms(2) by (auto simp: list_all_iff js_space_def nl_def char_code_def)
  have name: "\<not> blank name" using assms(2) False by (cases name) auto
  have new: "split_on nl (render ?R ?ps) = map (render ?R) (piece_lines ?ps)" by (rule split_render) (simp add: nl_def)
  have "nl \<notin> set m" if "m \<in> set (hits_of ?ps)" for m using hits [OF that] nl by simp
  from split_render [of ?ps "\<lambda>m. m", OF this]
  have old: "split_on nl text = map (render (\<lambda>m. m)) (piece_lines ?ps)" by (simp add: render_id)
  have "runs_tool (render ?R qs) \<Longrightarrow> runs_tool (render (\<lambda>m. m) qs)" if "qs \<in> set (piece_lines ?ps)" for qs
    by (rule render_harmless(1) [of qs ?R]) (use hits piece_lines_hits [OF that] harmless_texts(3) name in auto)
  then have "\<not> shows_command (render ?R ?ps)" using assms(1) new old by (auto simp: shows_command_def list_ex_iff)
  with False show ?thesis by (simp add: check_name_def replace_all_def)
qed (use assms(1) in \<open>auto simp: check_name_def\<close>)

lemma check_names_safe:
  "\<not> shows_command (fst st) \<Longrightarrow> list_all (list_all (\<lambda>c. \<not> js_space c)) names \<Longrightarrow> \<not> shows_command (fst (foldl check_name st names))"
proof (induction names arbitrary: st)
  case (Cons n names)
  have "\<not> shows_command (fst (check_name st n))" using check_name_safe [of "fst st" n "snd st"] Cons.prems by simp
  with Cons show ?case by simp
qed simp

section \<open>Properties\<close>

lemma checked_safe:
  assumes "gi_ceiling i < GiveCommand" and "gi_knownSolutionSnippets i = []"
    and "list_all (list_all (\<lambda>c. \<not> js_space c)) (gi_sensitiveResourceNames i)"
  shows "\<not> shows_command (gr_redacted (checkOutput i))"
proof -
  obtain t vs where st: "check_fences i = (t, vs)" by fastforce
  have "\<not> shows_command (fst (check_lines (t, vs)))" by (rule check_lines_safe)
  with check_names_safe [OF this assms(3)] show ?thesis
    using assms(1,2) by (simp add: checkOutput_def st Let_def split: prod.splits) auto
qed

text \<open>Property. Below the ceiling that allows commands, the learner is never shown one: whatever text the model
  generated, no line of the checked answer runs a known tool with an argument, be it in a code block, on
  a line of its own, with a prompt or with \<open>sudo\<close> in front, and also where resource names were masked.\<close>

theorem no_command_shown:
  assumes "gi_ceiling i < GiveCommand" and "gi_knownSolutionSnippets i = []"
    and "list_all (list_all (\<lambda>c. \<not> js_space c)) (gi_sensitiveResourceNames i)"
  shows "\<not> shows_command (gr_redacted (checkOutput i))"
  using assms by (rule checked_safe)

lemma resolve_capped:
  assumes "d = resolveDisclosure i"
  shows "0 \<le> di_ceiling d \<and> di_ceiling d \<le> MODE_MAX (ri_mode i) \<and>
    (\<forall>ov. ri_activityOverride i = Some ov \<longrightarrow> di_ceiling d \<le> max 0 ov) \<and>
    (di_mayUseCanonicalPath d \<longleftrightarrow> IdentifyArea \<le> di_ceiling d) \<and>
    (ri_mode i = PRODUCTION_SIM \<longrightarrow> di_ceiling d \<le> NarrowSearch \<and> \<not> di_mayUseCanonicalPath d \<and> di_maxCodeLines d = 0) \<and>
    (ri_mode i = PROJECT \<longrightarrow> di_ceiling d \<le> IdentifyArea \<and> di_maxCodeLines d = 0)"
proof -
  obtain c where c: "di_ceiling d = max 0 (min (min (case ri_activityOverride i of None \<Rightarrow> c | Some ov \<Rightarrow> min c ov) (MODE_MAX (ri_mode i))) GiveCommand)"
    unfolding assms resolveDisclosure_def Let_def disclosure.simps by blast
  have "(if b then MODE_MAX_CODE_LINES m else min (MODE_MAX_CODE_LINES m) (if m = GUIDED_LAB then 5 else 0)) = MODE_MAX_CODE_LINES m" for b m
    by (cases m) auto
  then have "di_maxCodeLines d = MODE_MAX_CODE_LINES (ri_mode i)" by (simp only: assms resolveDisclosure_def Let_def disclosure.simps)
  moreover have "di_mayUseCanonicalPath d \<longleftrightarrow> IdentifyArea \<le> di_ceiling d"
    by (simp only: assms resolveDisclosure_def Let_def disclosure.simps)
  ultimately show ?thesis using c by (cases "ri_mode i"; cases "ri_activityOverride i") (auto simp: ceilings)
qed

text \<open>Property. The ceiling is a ceiling: whatever the learner's mastery, time and hints, the disclosure stays
  between 0 and the hard limit of the mode and never exceeds an author's restriction; in a production
  simulation the cause is never named, the diagnostic path is never used and no line of code is shown,
  and in project mode no code either.\<close>

theorem disclosure_capped:
  assumes "d = resolveDisclosure i"
  shows "0 \<le> di_ceiling d \<and> di_ceiling d \<le> MODE_MAX (ri_mode i) \<and>
    (\<forall>ov. ri_activityOverride i = Some ov \<longrightarrow> di_ceiling d \<le> max 0 ov) \<and>
    (di_mayUseCanonicalPath d \<longleftrightarrow> IdentifyArea \<le> di_ceiling d) \<and>
    (ri_mode i = PRODUCTION_SIM \<longrightarrow> di_ceiling d \<le> NarrowSearch \<and> \<not> di_mayUseCanonicalPath d \<and> di_maxCodeLines d = 0) \<and>
    (ri_mode i = PROJECT \<longrightarrow> di_ceiling d \<le> IdentifyArea \<and> di_maxCodeLines d = 0)"
  using assms by (rule resolve_capped)

section \<open>Witnesses and findings\<close>

definition demo_guard :: "string \<Rightarrow> guardrail_input" where
  "demo_guard t = \<lparr>gi_text = t, gi_ceiling = NarrowSearch, gi_maxCodeLines = 0, gi_sensitiveResourceNames = [''web-1''], gi_knownSolutionSnippets = []\<rparr>"

theorem no_command_shown_witness: "\<not> shows_command (gr_redacted (checkOutput (demo_guard ''kubectl get pods web-1'')))"
  by (rule no_command_shown) (simp_all add: demo_guard_def ceilings js_space_def char_code_def)

theorem disclosure_capped_witness:
  "di_ceiling (resolveDisclosure \<lparr>ri_mode = PRODUCTION_SIM, ri_meanMastery = 0, ri_timeStuckMinutes = 60, ri_hintLevelReached = Some 3, ri_activityOverride = None\<rparr>) \<le> NarrowSearch"
  using disclosure_capped [OF refl] by fastforce

text \<open>
  The comment in the policy says that the exact command is only given after hint level 3; low mastery and
  ten minutes without progress are enough.
\<close>

lemma give_command_without_hints:
  "di_ceiling (resolveDisclosure \<lparr>ri_mode = GUIDED_LAB, ri_meanMastery = 3/10, ri_timeStuckMinutes = 10, ri_hintLevelReached = Some 0, ri_activityOverride = None\<rparr>) = GiveCommand"
  by (simp add: resolveDisclosure_def ceilings)

text \<open>Of two commands in one line of prose only the first is withheld: the pattern has no flag \<open>g\<close>.\<close>

lemma second_command_leaks: "fst (check_line ''- go ab c,go ab c'') = ''- that command,go ab c''"
  by code_simp

text \<open>Masking a name can leave the name in the text.\<close>

lemma masked_name_remains:
  "str_includes (fst (check_name (''e-api-api'', []) ''e-api'')) ''e-api''"
  by code_simp

text \<open>
  An answer is refused as a whole only for a leaked snippet of the solution. Without snippets to compare
  with, as the mentor calls it, that never happens.
\<close>

lemma check_line_snippet: "SOLUTION_SNIPPET_LEAK \<notin> set (snd (check_line l))"
  by (auto simp: check_line_def check_prose_def check_inline_def Let_def split: if_splits)

lemma check_names_snippet:
  "SOLUTION_SNIPPET_LEAK \<notin> set (snd st) \<Longrightarrow> SOLUTION_SNIPPET_LEAK \<notin> set (snd (foldl check_name st names))"
  by (induction names arbitrary: st) (auto simp: check_name_def split: prod.splits if_splits)

lemma allowed_without_snippets:
  assumes "gi_knownSolutionSnippets i = []"
  shows "gr_allowed (checkOutput i)"
proof -
  have 1: "SOLUTION_SNIPPET_LEAK \<notin> set (snd (check_fences i))"
    by (auto simp: check_fences_def check_fence_def Let_def split: if_splits)
  then have 2: "SOLUTION_SNIPPET_LEAK \<notin> set (snd (check_lines (check_fences i)))"
    using check_line_snippet by (auto simp: check_lines_def Let_def split: prod.splits)
  from check_names_snippet [OF 1] check_names_snippet [OF 2] 1 2 show ?thesis
    using assms by (simp add: checkOutput_def Let_def split: prod.splits) (metis snd_conv)
qed

subsection \<open>Intents\<close>

lemma run_lit_i: "map lower w' = map lower w \<Longrightarrow> run (lit_i w) p (w' @ v) = [(w', v)]"
  by (induction w arbitrary: w' p) (auto simp: lit_i_def run_seq_Cons then_run_Cons map_eq_Cons_conv)

lemma test_found: "run r (adv None u) v \<noteq> [] \<Longrightarrow> test r (u @ v)"
  unfolding test_def by (rule test_from_append [OF run_test])

lemma jailbreak_is_injection:
  assumes "js_trim msg = u @ w @ v" and "map lower w = ''jailbreak''"
  shows "classifyIntent msg = Injection"
proof -
  let ?r = "alts [seq [WordBound, lit_i ''DAN'', WordBound], seq [WordBound, lit_i ''dev'', opt (lit '' ''), lit_i ''mode'', WordBound], lit_i ''jailbreak'']"
  have "map lower w = map lower ''jailbreak''" unfolding assms(2) by code_simp
  then have "run ?r (adv None u) (w @ v) \<noteq> []" by (simp add: run_lit_i)
  then have "test ?r (js_trim msg)" unfolding assms(1) by (rule test_found)
  then show ?thesis by (simp add: classifyIntent_def INJECTION_MARKERS_def)
qed

end
