(* ===== verification/Catalog.thy ===== *)
theory Catalog
  imports Mastery
begin

text \<open>
  \<open>catalog/catalog.repository.ts\<close> with \<open>common/published-activity-versions-query.ts\<close>, and the lint of
  \<open>content-ci/spec-lint.service.ts\<close>: authored activities become numbered, immutable versions. A publish
  or draft inserts one version row with its skill and topic bindings in one transaction; a draft moves
  through review and approval by compare-and-set on its status. Generated identifiers are arguments.
  The trigger of migration 0007, which rejects changes of a published row, is part of the update. The
  JSON-Schema validator (a package) is a parameter of the lint; \<open>bloom_level\<close> is left out.

  The locale \<open>table\<close> is the contract of a table with a primary key; it is interpreted on the two binding
  tables, and \<open>refining\<close> on the operations that write versions.
\<close>

section \<open>Model\<close>

record spec_skill =
  xs_skill :: string
  xs_weight :: real
  xs_primary :: bool

record authored_spec =
  au_id :: string
  au_mode :: string
  au_version :: int
  au_difficulty_level :: string
  au_estimated_minutes :: real
  au_blueprint :: string
  au_cost_budget_usd :: real
  au_skills :: "spec_skill list"
  au_prerequisites_hard :: "string list option"
  au_prerequisites_soft :: "string list option"
  au_primary_topic :: "string option"
  au_also_relevant :: "string list option"
  au_body :: activity_spec
  au_mentor :: mentor_spec

record publish_input =
  pi_tenantId :: string
  pi_activitySlug :: string
  pi_mode :: string
  pi_spec :: authored_spec
  pi_publishedBy :: "string option"

subsection \<open>Lint\<close>

record lint_issue =
  li_path :: string
  li_message :: string

record lint_result =
  lr_valid :: bool
  lr_issues :: "lint_issue list"

text \<open>\<open>schema\<close> is the compiled JSON Schema: the list of its violations, empty for a valid document.\<close>

definition lint :: "(authored_spec \<Rightarrow> lint_issue list) \<Rightarrow> authored_spec \<Rightarrow> string set \<Rightarrow> lint_result" where
  "lint schema spec knownSkillSlugs =
     (if schema spec \<noteq> [] then \<lparr>lr_valid = False, lr_issues = schema spec\<rparr>
      else
        let unknown = concat (map (\<lambda>x. if xs_skill x \<in> knownSkillSlugs then []
              else [\<lparr>li_path = ''/skills'', li_message = ''unknown skill slug: '' @ xs_skill x\<rparr>]) (au_skills spec));
            prereqSlugs = (case au_prerequisites_hard spec of None \<Rightarrow> [] | Some h \<Rightarrow> h) @
              (case au_prerequisites_soft spec of None \<Rightarrow> [] | Some h \<Rightarrow> h);
            issues = unknown @ concat (map (\<lambda>slug. if slug \<in> knownSkillSlugs then []
              else [\<lparr>li_path = ''/prerequisites'', li_message = ''unknown prerequisite skill slug: '' @ slug\<rparr>]) prereqSlugs)
        in \<lparr>lr_valid = (length issues = 0), lr_issues = issues\<rparr>)"

subsection \<open>Inserting a version\<close>

text \<open>An \<open>INSERT\<close> into a table whose primary key is \<open>key\<close>.\<close>

definition insert_row :: "('s \<Rightarrow> 'r list) \<Rightarrow> ('r list \<Rightarrow> 's \<Rightarrow> 's) \<Rightarrow> ('r \<Rightarrow> 'k) \<Rightarrow> 'r \<Rightarrow> ('s, exn, unit) io" where
  "insert_row get put key r = bnd (query (\<lambda>s. list_ex (\<lambda>q. key q = key r) (get s))) (\<lambda>dup.
     if dup then throw (DbErr ''duplicate key value violates unique constraint'')
     else modify (\<lambda>s. put (get s @ [r]) s))"

definition skill_key :: "activity_skill_row \<Rightarrow> string \<times> string" where
  "skill_key r = (ask_activity_version_id r, ask_skill_id r)"

definition topic_key :: "activity_topic_row \<Rightarrow> string \<times> string" where
  "topic_key r = (at_activity_version_id r, at_topic_id r)"

definition put_activity_skills :: "activity_skill_row list \<Rightarrow> db \<Rightarrow> db" where
  "put_activity_skills rows s = s\<lparr>activity_skills := rows\<rparr>"

definition put_activity_topics :: "activity_topic_row list \<Rightarrow> db \<Rightarrow> db" where
  "put_activity_topics rows s = s\<lparr>activity_topics := rows\<rparr>"

definition find_activity :: "string \<Rightarrow> string \<Rightarrow> db \<Rightarrow> activity_row option" where
  "find_activity tenantId slug s = find_row (\<lambda>a. ac_tenant_id a = tenantId \<and> ac_slug a = slug) (activities s)"

definition find_or_create_activity :: "string \<Rightarrow> publish_input \<Rightarrow> activity_row prog" where
  "find_or_create_activity newId input =
     bnd (query (find_activity (pi_tenantId input) (pi_activitySlug input))) (\<lambda>activity.
     case activity of
       Some a \<Rightarrow> ret a
     | None \<Rightarrow>
         let a = \<lparr>ac_id = newId, ac_tenant_id = pi_tenantId input, ac_slug = pi_activitySlug input, ac_mode = pi_mode input\<rparr>
         in andthen (modify (\<lambda>s. s\<lparr>activities := activities s @ [a]\<rparr>)) (ret a))"

text \<open>\<open>latest?.version ?? 0\<close>.\<close>

definition latest_version :: "string \<Rightarrow> db \<Rightarrow> nat" where
  "latest_version activityId s = foldr max (map v_version (filter (\<lambda>v. v_activity_id v = activityId) (versions s))) 0"

text \<open>\<open>skillIdBySlug\<close>: of two rows with one slug the later one counts.\<close>

definition skillIdBySlug :: "spec_skill list \<Rightarrow> db \<Rightarrow> string \<Rightarrow> string option" where
  "skillIdBySlug xs s = map_of (rev (map (\<lambda>r. (sk_slug r, sk_id r)) (filter (\<lambda>r. sk_slug r \<in> set (map xs_skill xs)) (skills s))))"

definition version_row :: "string \<Rightarrow> activity_row \<Rightarrow> nat \<Rightarrow> publish_input \<Rightarrow> activity_version_status \<Rightarrow> time \<Rightarrow> activity_version_row" where
  "version_row newId activity nextVersion input status now =
     \<lparr>v_id = newId, v_activity_id = ac_id activity, v_mode = ac_mode activity, v_status = status,
      v_spec = au_body (pi_spec input), v_blueprint_id = Some (au_blueprint (pi_spec input)), v_blueprint_version = None,
      v_difficulty_elo = None, v_estimated_minutes = Some (au_estimated_minutes (pi_spec input)), v_version = nextVersion,
      v_difficulty_level = Some (au_difficulty_level (pi_spec input)), v_cost_budget_usd = Some (au_cost_budget_usd (pi_spec input)),
      v_published_at = (if status = V_PUBLISHED then Some now else None),
      v_published_by = (if status = V_PUBLISHED \<and> truthy (pi_publishedBy input) then pi_publishedBy input else None),
      v_mentor = au_mentor (pi_spec input)\<rparr>"

definition skill_binding :: "string \<Rightarrow> (string \<Rightarrow> string option) \<Rightarrow> spec_skill \<Rightarrow> activity_skill_row" where
  "skill_binding versionId ids x = \<lparr>ask_activity_version_id = versionId, ask_skill_id = the (ids (xs_skill x)),
     ask_weight = xs_weight x, ask_is_primary = xs_primary x\<rparr>"

definition topicSlugs :: "authored_spec \<Rightarrow> (string \<times> real) list" where
  "topicSlugs spec = (if truthy (au_primary_topic spec) then [(the (au_primary_topic spec), 1)] else []) @
     map (\<lambda>slug. (slug, 1/2)) (case au_also_relevant spec of None \<Rightarrow> [] | Some xs \<Rightarrow> xs)"

definition bind_topic :: "string \<Rightarrow> string \<times> real \<Rightarrow> unit prog" where
  "bind_topic versionId = (\<lambda>(slug, relevance).
     bnd (query (\<lambda>s. find_row (\<lambda>t. tp_slug t = Some slug) (topics s))) (\<lambda>topic.
     case topic of
       None \<Rightarrow> ret ()
     | Some t \<Rightarrow> insert_row activity_topics put_activity_topics topic_key
         \<lparr>at_activity_version_id = versionId, at_topic_id = tp_id t, at_relevance = relevance\<rparr>))"

definition insertVersion :: "string \<Rightarrow> string \<Rightarrow> publish_input \<Rightarrow> activity_version_status \<Rightarrow> time \<Rightarrow> activity_version_row prog" where
  "insertVersion newActivityId newVersionId input status now =
     bnd (find_or_create_activity newActivityId input) (\<lambda>activity.
     bnd (query (latest_version (ac_id activity))) (\<lambda>latest.
     if au_version (pi_spec input) \<noteq> int (latest + 1)
     then throw (Conflict (''spec declares a version that is not the next available one for '' @ pi_activitySlug input))
     else if au_skills (pi_spec input) = [] then throw (DbErr ''syntax error at or near )'')
     else
       bnd (query (skillIdBySlug (au_skills (pi_spec input)))) (\<lambda>ids.
       let missing = filter (\<lambda>x. ids (xs_skill x) = None) (au_skills (pi_spec input)) in
       if length missing > 0
       then throw (Conflict (''cannot publish: unknown skill slugs '' @ join '', '' (map xs_skill missing)))
       else
         let version = version_row newVersionId activity (latest + 1) input status now in
         andthen (modify (\<lambda>s. s\<lparr>versions := versions s @ [version]\<rparr>))
         (andthen (for_each (au_skills (pi_spec input)) (\<lambda>x.
            insert_row activity_skills put_activity_skills skill_key (skill_binding (v_id version) ids x)))
         (andthen (for_each (topicSlugs (pi_spec input)) (bind_topic (v_id version)))
         (ret version))))))"

definition publishNewVersion :: "string \<Rightarrow> string \<Rightarrow> publish_input \<Rightarrow> time \<Rightarrow> activity_version_row prog" where
  "publishNewVersion newActivityId newVersionId input now = transaction (insertVersion newActivityId newVersionId input V_PUBLISHED now)"

definition createDraft :: "string \<Rightarrow> string \<Rightarrow> publish_input \<Rightarrow> time \<Rightarrow> activity_version_row prog" where
  "createDraft newActivityId newVersionId input now = transaction (insertVersion newActivityId newVersionId input V_DRAFT now)"

subsection \<open>The review cycle\<close>

fun ALLOWED_TRANSITIONS :: "activity_version_status \<Rightarrow> activity_version_status list" where
  "ALLOWED_TRANSITIONS V_DRAFT = [V_IN_REVIEW]"
| "ALLOWED_TRANSITIONS V_IN_REVIEW = [V_APPROVED, V_DRAFT]"
| "ALLOWED_TRANSITIONS V_APPROVED = [V_PUBLISHED, V_DRAFT]"
| "ALLOWED_TRANSITIONS _ = []"

text \<open>The trigger \<open>trg_activity_version_immutable\<close>: a published row may only change in \<open>difficulty_elo\<close>.\<close>

definition reject_published_edit :: "activity_version_row \<Rightarrow> activity_version_row \<Rightarrow> bool" where
  "reject_published_edit old new \<longleftrightarrow> v_status old = V_PUBLISHED \<and> new\<lparr>v_difficulty_elo := v_difficulty_elo old\<rparr> \<noteq> old"

definition update_version :: "string \<Rightarrow> (activity_version_row \<Rightarrow> activity_version_row) \<Rightarrow> activity_version_row prog" where
  "update_version versionId f =
     bnd (query (\<lambda>s. find_row (\<lambda>v. v_id v = versionId) (versions s))) (\<lambda>row.
     case row of
       None \<Rightarrow> throw NoResult
     | Some old \<Rightarrow>
         if reject_published_edit old (f old) then throw (DbErr ''activity_version is PUBLISHED and immutable'')
         else andthen (modify (\<lambda>s. s\<lparr>versions := update_where (\<lambda>v. v_id v = versionId) f (versions s)\<rparr>)) (ret (f old)))"

definition set_status :: "activity_version_status \<Rightarrow> string option \<Rightarrow> time \<Rightarrow> activity_version_row \<Rightarrow> activity_version_row" where
  "set_status to actor now v =
     (if to = V_PUBLISHED
      then v\<lparr>v_status := to, v_published_at := Some now, v_published_by := (if truthy actor then actor else v_published_by v)\<rparr>
      else v\<lparr>v_status := to\<rparr>)"

definition transitionVersionStatus ::
  "string \<Rightarrow> activity_version_status \<Rightarrow> activity_version_status \<Rightarrow> string option \<Rightarrow> time \<Rightarrow> activity_version_row prog" where
  "transitionVersionStatus activityVersionId fr to actor now =
     (if to \<notin> set (ALLOWED_TRANSITIONS fr)
      then throw (Conflict (''cannot transition from '' @ version_status_str fr @ '' to '' @ version_status_str to))
      else transaction (
        bnd (query (\<lambda>s. find_row (\<lambda>v. v_id v = activityVersionId) (versions s))) (\<lambda>current.
        case current of
          None \<Rightarrow> throw (Conflict (''activity version '' @ activityVersionId @ '' not found''))
        | Some v \<Rightarrow>
            if v_status v \<noteq> fr
            then throw (Conflict (''activity version '' @ activityVersionId @ '' is '' @ version_status_str (v_status v) @ '', not '' @ version_status_str fr))
            else update_version activityVersionId (set_status to actor now))))"

subsection \<open>Catalogue queries\<close>

text \<open>The shared filter on rows that carry an activity and a version.\<close>

definition publishedActivityVersionsQuery :: "string \<Rightarrow> ('r \<Rightarrow> activity_row) \<Rightarrow> ('r \<Rightarrow> activity_version_row) \<Rightarrow> 'r list \<Rightarrow> 'r list" where
  "publishedActivityVersionsQuery tenantId a av = filter (\<lambda>r. ac_tenant_id (a r) = tenantId \<and> v_status (av r) = V_PUBLISHED)"

definition inner_join :: "('a \<Rightarrow> 'b \<Rightarrow> bool) \<Rightarrow> 'a list \<Rightarrow> 'b list \<Rightarrow> ('a \<times> 'b) list" where
  "inner_join on xs ys = concat (map (\<lambda>x. map (Pair x) (filter (on x) ys)) xs)"

definition left_join :: "('a \<Rightarrow> 'b \<Rightarrow> bool) \<Rightarrow> 'a list \<Rightarrow> 'b list \<Rightarrow> ('a \<times> 'b option) list" where
  "left_join on xs ys = concat (map (\<lambda>x. case filter (on x) ys of [] \<Rightarrow> [(x, None)] | zs \<Rightarrow> map (\<lambda>z. (x, Some z)) zs) xs)"

definition versions_with_activity :: "db \<Rightarrow> (activity_version_row \<times> activity_row) list" where
  "versions_with_activity s = inner_join (\<lambda>av a. ac_id a = v_activity_id av) (versions s) (activities s)"

definition getVersionById :: "string \<Rightarrow> db \<Rightarrow> (activity_version_row \<times> activity_row) option" where
  "getVersionById activityVersionId s = find_row (\<lambda>(av, a). v_id av = activityVersionId) (versions_with_activity s)"

definition getPublishedVersion :: "string \<Rightarrow> db \<Rightarrow> activity_version_row option" where
  "getPublishedVersion activityId s = (case rev (sort_key v_version
     (filter (\<lambda>v. v_activity_id v = activityId \<and> v_status v = V_PUBLISHED) (versions s))) of [] \<Rightarrow> None | v # _ \<Rightarrow> Some v)"

definition listPublishedCatalog :: "string \<Rightarrow> db \<Rightarrow> (activity_version_row \<times> activity_row) list" where
  "listPublishedCatalog tenantId s = publishedActivityVersionsQuery tenantId snd fst (versions_with_activity s)"

record catalog_entry =
  ce_skill :: skill_row
  ce_activity :: "activity_row option"
  ce_version :: "activity_version_row option"

definition listSkillDrivenCatalog :: "string \<Rightarrow> string \<Rightarrow> db \<Rightarrow> catalog_entry list" where
  "listSkillDrivenCatalog tenantId courseSlug s =
     (let bound = left_join (\<lambda>k x. ask_skill_id x = sk_id k \<and> ask_is_primary x) (skills s) (activity_skills s);
          versioned = left_join (\<lambda>(k, x) av. (case x of None \<Rightarrow> False | Some x \<Rightarrow> v_id av = ask_activity_version_id x \<and> v_status av = V_PUBLISHED))
            bound (versions s);
          located = left_join (\<lambda>((k, x), av) a. (case av of None \<Rightarrow> False | Some av \<Rightarrow> ac_id a = v_activity_id av \<and> ac_tenant_id a = tenantId))
            versioned (activities s);
          rows = filter (\<lambda>(((k, x), av), a). sk_status k = ''active'' \<and> sk_course_slug k = courseSlug \<and>
            (case a of None \<Rightarrow> True | Some a \<Rightarrow> ac_tenant_id a = tenantId)) located
      in sort_key (sk_domain_order \<circ> ce_skill) (sort_key (sk_sequence \<circ> ce_skill)
           (map (\<lambda>(((k, x), av), a). \<lparr>ce_skill = k, ce_activity = a, ce_version = av\<rparr>) rows)))"

section \<open>Tables with a primary key\<close>

locale table =
  fixes get :: "'s \<Rightarrow> 'r list" and put :: "'r list \<Rightarrow> 's \<Rightarrow> 's" and key :: "'r \<Rightarrow> 'k"
  assumes get_put: "get (put rs s) = rs"
    and put_put: "put rs (put qs s) = put rs s"
    and put_get: "put (get s) s = s"
begin

lemma insert_new: "key r \<notin> key ` set (get s) \<Longrightarrow> insert_row get put key r s = (Inr (), put (get s @ [r]) s)"
  by (auto simp: insert_row_def bnd_run list_ex_iff) (metis imageI)

lemma insert_dup: "key r \<in> key ` set (get s) \<Longrightarrow> \<exists>e. insert_row get put key r s = (Inl e, s)"
  by (auto simp: insert_row_def bnd_run list_ex_iff)

text \<open>A loop of inserts: all rows are there afterwards, in order, or a key was taken and it threw.\<close>

lemma insert_all:
  assumes "\<And>x t. x \<in> set xs \<Longrightarrow> keep t \<Longrightarrow>
      f x t = (case row x of None \<Rightarrow> (Inr (), t) | Some r \<Rightarrow> insert_row get put key r t)"
    and "\<And>rs t. keep t \<Longrightarrow> keep (put rs t)" and "keep s"
  shows "if distinct (map key (List.map_filter row xs)) \<and> key ` set (List.map_filter row xs) \<inter> key ` set (get s) = {}
    then for_each xs f s = (Inr (), put (get s @ List.map_filter row xs) s)
    else \<exists>e t. for_each xs f s = (Inl e, t)"
  using assms(1,3)
proof (induction xs arbitrary: s)
  case Nil
  then show ?case by (simp add: List.map_filter_simps put_get)
next
  case (Cons x xs)
  have IH: "if distinct (map key (List.map_filter row xs)) \<and> key ` set (List.map_filter row xs) \<inter> key ` set (get t) = {}
    then for_each xs f t = (Inr (), put (get t @ List.map_filter row xs) t)
    else \<exists>e u. for_each xs f t = (Inl e, u)" if "keep t" for t
    using Cons.IH [of t] Cons.prems(1) that by simp
  show ?case
  proof (cases "row x")
    case None
    then show ?thesis using IH [OF Cons.prems(2)] Cons.prems by (simp add: List.map_filter_simps)
  next
    case (Some r)
    then have fx: "f x s = insert_row get put key r s" using Cons.prems by simp
    show ?thesis
    proof (cases "key r \<in> key ` set (get s)")
      case True
      then obtain e where "f x s = (Inl e, s)" using insert_dup fx by metis
      with True Some show ?thesis by (auto simp: List.map_filter_simps)
    next
      case False
      then have fx: "f x s = (Inr (), put (get s @ [r]) s)" using insert_new fx by simp
      have "keep (put (get s @ [r]) s)" using assms(2) Cons.prems(2) by blast
      from IH [OF this] show ?thesis using False Some fx
        by (auto simp: List.map_filter_simps get_put put_put split: if_splits)
    qed
  qed
qed

end

interpretation skill_bindings: table activity_skills put_activity_skills skill_key
  by unfold_locales (simp_all add: put_activity_skills_def)

interpretation topic_bindings: table activity_topics put_activity_topics topic_key
  by unfold_locales (simp_all add: put_activity_topics_def)

section \<open>What a publish does\<close>

text \<open>The next version of the activity, and the topics of the specification that exist.\<close>

definition next_version :: "publish_input \<Rightarrow> db \<Rightarrow> nat" where
  "next_version input s = (case find_activity (pi_tenantId input) (pi_activitySlug input) s of
     None \<Rightarrow> 1 | Some a \<Rightarrow> latest_version (ac_id a) s + 1)"

definition topic_binding :: "string \<Rightarrow> db \<Rightarrow> string \<times> real \<Rightarrow> activity_topic_row option" where
  "topic_binding vid s = (\<lambda>(slug, rel). map_option (\<lambda>t. \<lparr>at_activity_version_id = vid, at_topic_id = tp_id t, at_relevance = rel\<rparr>)
     (find_row (\<lambda>t. tp_slug t = Some slug) (topics s)))"

definition topic_bindings_of :: "string \<Rightarrow> authored_spec \<Rightarrow> db \<Rightarrow> activity_topic_row list" where
  "topic_bindings_of vid spec s = List.map_filter (topic_binding vid s) (topicSlugs spec)"

definition publishable :: "publish_input \<Rightarrow> db \<Rightarrow> bool" where
  "publishable input s \<longleftrightarrow> au_version (pi_spec input) = int (next_version input s) \<and> au_skills (pi_spec input) \<noteq> [] \<and>
     (let ids = map (\<lambda>x. skillIdBySlug (au_skills (pi_spec input)) s (xs_skill x)) (au_skills (pi_spec input))
      in None \<notin> set ids \<and> distinct ids) \<and>
     distinct (map at_topic_id (topic_bindings_of [] (pi_spec input) s))"

definition activity_for :: "string \<Rightarrow> publish_input \<Rightarrow> db \<Rightarrow> activity_row" where
  "activity_for newId input s = (case find_activity (pi_tenantId input) (pi_activitySlug input) s of Some a \<Rightarrow> a
     | None \<Rightarrow> \<lparr>ac_id = newId, ac_tenant_id = pi_tenantId input, ac_slug = pi_activitySlug input, ac_mode = pi_mode input\<rparr>)"

definition with_version :: "string \<Rightarrow> string \<Rightarrow> publish_input \<Rightarrow> activity_version_status \<Rightarrow> time \<Rightarrow> db \<Rightarrow> db" where
  "with_version aid vid input status now s =
     s\<lparr>activities := activities s @ (if find_activity (pi_tenantId input) (pi_activitySlug input) s = None then [activity_for aid input s] else []),
       versions := versions s @ [version_row vid (activity_for aid input s) (next_version input s) input status now],
       activity_skills := activity_skills s @ map (skill_binding vid (skillIdBySlug (au_skills (pi_spec input)) s)) (au_skills (pi_spec input)),
       activity_topics := activity_topics s @ topic_bindings_of vid (pi_spec input) s\<rparr>"

text \<open>Well-formed content: unique keys, bindings and versions that refer to something, the versions of
  an activity numbered 1, 2, 3, ... in the order of their insertion, and a publication time exactly on
  published rows.\<close>

definition stamped :: "activity_version_row \<Rightarrow> bool" where
  "stamped v \<longleftrightarrow> v_status v \<in> {V_DRAFT, V_IN_REVIEW, V_APPROVED, V_PUBLISHED} \<and> (v_published_at v \<noteq> None \<longleftrightarrow> v_status v = V_PUBLISHED)"

definition versions_of :: "string \<Rightarrow> db \<Rightarrow> activity_version_row list" where
  "versions_of a s = filter (\<lambda>v. v_activity_id v = a) (versions s)"

definition content_ok :: "db \<Rightarrow> bool" where
  "content_ok s \<longleftrightarrow> distinct (map ac_id (activities s)) \<and> distinct (map (\<lambda>a. (ac_tenant_id a, ac_slug a)) (activities s)) \<and>
     distinct (map v_id (versions s)) \<and> v_activity_id ` set (versions s) \<subseteq> ac_id ` set (activities s) \<and>
     ask_activity_version_id ` set (activity_skills s) \<subseteq> v_id ` set (versions s) \<and>
     at_activity_version_id ` set (activity_topics s) \<subseteq> v_id ` set (versions s) \<and>
     distinct (map skill_key (activity_skills s)) \<and> distinct (map topic_key (activity_topics s)) \<and>
     (\<forall>a. map v_version (versions_of a s) = [1..<Suc (length (versions_of a s))]) \<and>
     list_all stamped (versions s)"

definition fresh_ids :: "string \<Rightarrow> string \<Rightarrow> db \<Rightarrow> bool" where
  "fresh_ids aid vid s \<longleftrightarrow> aid \<notin> ac_id ` set (activities s) \<and> vid \<notin> v_id ` set (versions s)"

lemma foldr_max_upt: "foldr max [1..<Suc n] m = max n (m::nat)"
  by (induction n arbitrary: m) (simp_all add: max_def)

lemma content_okD:
  assumes "content_ok s"
  shows "distinct (map v_id (versions s))" "v_activity_id ` set (versions s) \<subseteq> ac_id ` set (activities s)" "list_all stamped (versions s)"
  using assms by (simp_all only: content_ok_def)

lemma distinct_Pair: "distinct (map (Pair v) ys) \<longleftrightarrow> distinct ys"
  by (simp add: distinct_map inj_on_def)

lemma latest_version_length: "content_ok s \<Longrightarrow> latest_version a s = length (versions_of a s)"
  unfolding latest_version_def versions_of_def [symmetric] content_ok_def by (metis foldr_max_upt max_0R)

lemma no_versions: "content_ok s \<Longrightarrow> a \<notin> ac_id ` set (activities s) \<Longrightarrow> versions_of a s = []"
  by (auto simp: content_ok_def versions_of_def filter_empty_conv)

lemma find_or_create_run:
  "find_or_create_activity aid input s = (Inr (activity_for aid input s),
     s\<lparr>activities := activities s @ (if find_activity (pi_tenantId input) (pi_activitySlug input) s = None then [activity_for aid input s] else [])\<rparr>)"
  by (cases "find_activity (pi_tenantId input) (pi_activitySlug input) s")
     (simp_all add: find_or_create_activity_def activity_for_def bnd_run andthen_def Let_def)

lemma next_version_for:
  assumes "content_ok s" and "fresh_ids aid vid s"
  shows "latest_version (ac_id (activity_for aid input s)) s + 1 = next_version input s"
  using assms no_versions [of s aid] latest_version_length [of s aid]
  by (auto simp: next_version_def activity_for_def fresh_ids_def split: option.split)

lemma skill_bindings_keys:
  "map skill_key (map (skill_binding vid ids) xs) = map (Pair vid) (map (\<lambda>x. the (ids (xs_skill x))) xs)"
  by (simp add: skill_key_def skill_binding_def)

lemma distinct_the: "None \<notin> set xs \<Longrightarrow> distinct (map the xs) \<longleftrightarrow> distinct xs"
  by (auto simp: distinct_map inj_on_def) (metis option.expand)

lemma skill_bindings_run:
  assumes "vid \<notin> ask_activity_version_id ` set (activity_skills s)"
  shows "if distinct (map (\<lambda>x. the (ids (xs_skill x))) xs)
    then for_each xs (\<lambda>x. insert_row activity_skills put_activity_skills skill_key (skill_binding vid ids x)) s =
      (Inr (), put_activity_skills (activity_skills s @ map (skill_binding vid ids) xs) s)
    else \<exists>e t. for_each xs (\<lambda>x. insert_row activity_skills put_activity_skills skill_key (skill_binding vid ids x)) s = (Inl e, t)"
proof -
  have rows: "List.map_filter (\<lambda>x. Some (skill_binding vid ids x)) xs = map (skill_binding vid ids) xs" by (induction xs) (simp_all add: List.map_filter_simps)
  have "skill_key ` set (map (skill_binding vid ids) xs) \<inter> skill_key ` set (activity_skills s) = {}"
    using assms by (auto simp: skill_key_def skill_binding_def)
  then show ?thesis
    using skill_bindings.insert_all [where keep = "\<lambda>_. True" and row = "\<lambda>x. Some (skill_binding vid ids x)" and xs = xs and s = s
        and f = "\<lambda>x. insert_row activity_skills put_activity_skills skill_key (skill_binding vid ids x)"]
    unfolding rows skill_bindings_keys distinct_Pair by simp
qed

lemma topic_bindings_at: "r \<in> set (topic_bindings_of vid spec s) \<Longrightarrow> at_activity_version_id r = vid"
  by (auto simp: topic_bindings_of_def List.map_filter_def topic_binding_def split: prod.splits)

lemma topic_bindings_keys:
  "map topic_key (topic_bindings_of vid spec s) = map (Pair vid) (map at_topic_id (topic_bindings_of [] spec s))"
proof -
  have "map topic_key (List.map_filter (topic_binding vid s) xs) = map (Pair vid) (map at_topic_id (List.map_filter (topic_binding [] s) xs))" for xs
    by (induction xs) (auto simp: List.map_filter_simps topic_binding_def topic_key_def split: option.splits prod.splits)
  then show ?thesis by (simp only: topic_bindings_of_def)
qed

lemma topic_bindings_run:
  assumes "vid \<notin> at_activity_version_id ` set (activity_topics s)" and "topics s = topics s0"
  shows "if distinct (map at_topic_id (topic_bindings_of [] spec s0))
    then for_each (topicSlugs spec) (bind_topic vid) s = (Inr (), put_activity_topics (activity_topics s @ topic_bindings_of vid spec s0) s)
    else \<exists>e t. for_each (topicSlugs spec) (bind_topic vid) s = (Inl e, t)"
proof -
  have "topic_key ` set (topic_bindings_of vid spec s0) \<inter> topic_key ` set (activity_topics s) = {}"
    using assms(1) by (auto simp: topic_key_def dest!: topic_bindings_at)
  moreover have "bind_topic vid x t = (case topic_binding vid s0 x of None \<Rightarrow> (Inr (), t) | Some r \<Rightarrow> insert_row activity_topics put_activity_topics topic_key r t)"
    if "topics t = topics s0" for x t
    using that by (auto simp: bind_topic_def topic_binding_def bnd_run split: prod.splits option.splits)
  moreover have "topics (put_activity_topics rs t) = topics t" for rs t by (simp add: put_activity_topics_def)
  ultimately show ?thesis
    using topic_bindings.insert_all [where keep = "\<lambda>t. topics t = topics s0" and row = "topic_binding vid s0" and xs = "topicSlugs spec" and s = s and f = "bind_topic vid"] assms(2)
    unfolding topic_bindings_of_def [symmetric] topic_bindings_keys distinct_Pair by simp
qed

lemma if_run: "(if b then m else k) s = (if b then m s else k s)"
  by simp

lemma version_row_id: "v_id (version_row vid a n input st now) = vid"
  by (simp add: version_row_def)

lemma insertVersion_run:
  assumes "content_ok s" and "fresh_ids aid vid s"
  shows "if publishable input s
    then insertVersion aid vid input st now s =
      (Inr (version_row vid (activity_for aid input s) (next_version input s) input st now), with_version aid vid input st now s)
    else \<exists>e t. insertVersion aid vid input st now s = (Inl e, t)"
proof -
  let ?xs = "au_skills (pi_spec input)" and ?a = "activity_for aid input s"
  let ?s1 = "s\<lparr>activities := activities s @ (if find_activity (pi_tenantId input) (pi_activitySlug input) s = None then [?a] else [])\<rparr>"
  let ?v = "version_row vid ?a (next_version input s) input st now"
  let ?ids = "skillIdBySlug ?xs s"
  let ?s2 = "?s1\<lparr>versions := versions s @ [?v]\<rparr>"
  let ?s3 = "put_activity_skills (activity_skills s @ map (skill_binding vid ?ids) ?xs) ?s2"
  have nv: "latest_version (ac_id ?a) ?s1 + 1 = next_version input s"
    using next_version_for [OF assms] by (simp add: latest_version_def)
  have ids: "skillIdBySlug ?xs ?s1 = ?ids" by (simp add: skillIdBySlug_def)
  have new: "vid \<notin> ask_activity_version_id ` set (activity_skills s)" "vid \<notin> at_activity_version_id ` set (activity_topics s)"
    using assms by (auto simp: content_ok_def fresh_ids_def)
  have known: "0 < length (filter (\<lambda>x. ?ids (xs_skill x) = None) ?xs) \<longleftrightarrow> None \<in> set (map (\<lambda>x. ?ids (xs_skill x)) ?xs)"
    by (auto simp: filter_empty_conv image_iff eq_commute [of None])
  have ds: "distinct (map (\<lambda>x. the (?ids (xs_skill x))) ?xs) \<longleftrightarrow> distinct (map (\<lambda>x. ?ids (xs_skill x)) ?xs)"
    if "None \<notin> set (map (\<lambda>x. ?ids (xs_skill x)) ?xs)"
    using distinct_the [OF that] by (simp add: comp_def)
  have run: "insertVersion aid vid input st now s =
     (if au_version (pi_spec input) \<noteq> int (next_version input s) then
        (Inl (Conflict (''spec declares a version that is not the next available one for '' @ pi_activitySlug input)), ?s1)
      else if ?xs = [] then (Inl (DbErr ''syntax error at or near )''), ?s1)
      else if None \<in> set (map (\<lambda>x. ?ids (xs_skill x)) ?xs) then
        (Inl (Conflict (''cannot publish: unknown skill slugs '' @ join '', '' (map xs_skill (filter (\<lambda>x. ?ids (xs_skill x) = None) ?xs)))), ?s1)
      else andthen (for_each ?xs (\<lambda>x. insert_row activity_skills put_activity_skills skill_key (skill_binding vid ?ids x)))
         (andthen (for_each (topicSlugs (pi_spec input)) (bind_topic vid)) (ret ?v)) ?s2)"
    unfolding insertVersion_def bnd_Inr [OF find_or_create_run] bnd_Inr [OF query_run] if_run ids Let_def known nv
    by (simp only: throw_run andthen_Inr [OF modify_run] version_row_id) simp
  have sk: "if distinct (map (\<lambda>x. the (?ids (xs_skill x))) ?xs)
    then for_each ?xs (\<lambda>x. insert_row activity_skills put_activity_skills skill_key (skill_binding vid ?ids x)) ?s2 = (Inr (), ?s3)
    else \<exists>e t. for_each ?xs (\<lambda>x. insert_row activity_skills put_activity_skills skill_key (skill_binding vid ?ids x)) ?s2 = (Inl e, t)"
    using skill_bindings_run [of vid ?s2 ?ids ?xs] new(1) by simp
  have tp: "if distinct (map at_topic_id (topic_bindings_of [] (pi_spec input) s))
    then for_each (topicSlugs (pi_spec input)) (bind_topic vid) ?s3 = (Inr (), put_activity_topics (activity_topics s @ topic_bindings_of vid (pi_spec input) s) ?s3)
    else \<exists>e t. for_each (topicSlugs (pi_spec input)) (bind_topic vid) ?s3 = (Inl e, t)"
  proof -
    have at: "activity_topics ?s3 = activity_topics s" and tps: "topics ?s3 = topics s" by (simp_all add: put_activity_skills_def)
    then have "vid \<notin> at_activity_version_id ` set (activity_topics ?s3)" using new(2) by (simp only: at not_False_eq_True)
    from topic_bindings_run [OF this tps, of "pi_spec input"] show ?thesis unfolding at .
  qed
  have final: "put_activity_topics (activity_topics s @ topic_bindings_of vid (pi_spec input) s) ?s3 = with_version aid vid input st now s"
    by (simp add: with_version_def put_activity_topics_def put_activity_skills_def)
  show ?thesis
    unfolding run publishable_def Let_def
    using sk tp ds unfolding final by (auto split: if_splits)
qed

lemma publish_run:
  assumes "content_ok s" and "fresh_ids aid vid s"
  shows "if publishable input s
    then transaction (insertVersion aid vid input st now) s =
      (Inr (version_row vid (activity_for aid input s) (next_version input s) input st now), with_version aid vid input st now s)
    else \<exists>e. transaction (insertVersion aid vid input st now) s = (Inl e, s)"
  using insertVersion_run [OF assms, of input st now] by (auto split: if_splits)

section \<open>The operations that write versions\<close>

inductive content_step :: "db \<Rightarrow> db \<Rightarrow> bool" where
  cs_publish: "fresh_ids aid vid s \<Longrightarrow> publishNewVersion aid vid input now s = (r, t) \<Longrightarrow> content_step s t"
| cs_draft: "fresh_ids aid vid s \<Longrightarrow> createDraft aid vid input now s = (r, t) \<Longrightarrow> content_step s t"
| cs_transition: "transitionVersionStatus vid fr to actor now s = (r, t) \<Longrightarrow> content_step s t"
| cs_elo: "recordEloMatch u k vid outc s = (r, t) \<Longrightarrow> content_step s t"

definition review :: "activity_version_status \<Rightarrow> activity_version_status \<Rightarrow> bool" where
  "review a b \<longleftrightarrow> b \<in> set (ALLOWED_TRANSITIONS a)"

text \<open>How one version row may change in a step, and in a run.\<close>

definition evolves :: "activity_version_row \<Rightarrow> activity_version_row \<Rightarrow> bool" where
  "evolves v w \<longleftrightarrow> review\<^sup>*\<^sup>* (v_status v) (v_status w) \<and>
     (\<exists>e p b. w = v\<lparr>v_status := v_status w, v_difficulty_elo := e, v_published_at := p, v_published_by := b\<rparr>) \<and>
     (v_status v = V_PUBLISHED \<longrightarrow> w = v\<lparr>v_difficulty_elo := v_difficulty_elo w\<rparr>)"

definition content_sim :: "db \<Rightarrow> db \<Rightarrow> bool" where
  "content_sim s t \<longleftrightarrow> content_ok t \<and> (\<exists>as. activities t = activities s @ as) \<and>
     (\<exists>vs ws. versions t = vs @ ws \<and> list_all2 evolves (versions s) vs)"

lemma review_stays: "review\<^sup>*\<^sup>* V_PUBLISHED b \<Longrightarrow> b = V_PUBLISHED"
  by (induction rule: rtranclp_induct) (auto simp: review_def)

lemma evolves_refl: "evolves v v"
  unfolding evolves_def by (cases v) auto

lemma evolves_trans:
  assumes "evolves u v" and "evolves v w"
  shows "evolves u w"
proof -
  have "review\<^sup>*\<^sup>* (v_status u) (v_status w)" using assms by (auto simp: evolves_def)
  moreover have "\<exists>e p b. w = u\<lparr>v_status := v_status w, v_difficulty_elo := e, v_published_at := p, v_published_by := b\<rparr>"
  proof -
    obtain e p b where "v = u\<lparr>v_status := v_status v, v_difficulty_elo := e, v_published_at := p, v_published_by := b\<rparr>"
      using assms(1) unfolding evolves_def by blast
    moreover obtain e' p' b' where "w = v\<lparr>v_status := v_status w, v_difficulty_elo := e', v_published_at := p', v_published_by := b'\<rparr>"
      using assms(2) unfolding evolves_def by blast
    ultimately show ?thesis by (cases u, cases v, cases w) auto
  qed
  moreover have "w = u\<lparr>v_difficulty_elo := v_difficulty_elo w\<rparr>" if "v_status u = V_PUBLISHED"
  proof -
    have 1: "v = u\<lparr>v_difficulty_elo := v_difficulty_elo v\<rparr>" using that assms(1) unfolding evolves_def by blast
    then have "v_status v = V_PUBLISHED" using that by (metis activity_version_row.select_convs(4) activity_version_row.surjective activity_version_row.update_convs(8))
    then have 2: "w = v\<lparr>v_difficulty_elo := v_difficulty_elo w\<rparr>" using assms(2) unfolding evolves_def by blast
    from 1 2 show ?thesis by (cases u, cases v, cases w) auto
  qed
  ultimately show ?thesis unfolding evolves_def by blast
qed

lemma evolves_keys:
  assumes "evolves v w"
  shows "v_id w = v_id v \<and> v_activity_id w = v_activity_id v \<and> v_version w = v_version v"
proof -
  obtain e p b where w: "w = v\<lparr>v_status := v_status w, v_difficulty_elo := e, v_published_at := p, v_published_by := b\<rparr>"
    using assms unfolding evolves_def by blast
  show ?thesis by (subst w, subst w, subst w) simp
qed

lemma content_sim_refl: "content_ok s \<Longrightarrow> content_sim s s"
  unfolding content_sim_def by (metis append_Nil2 evolves_refl list.rel_refl)

lemma content_sim_trans:
  assumes "content_sim s t" and "content_sim t u"
  shows "content_sim s u"
proof -
  obtain vs ws where t: "versions t = vs @ ws" "list_all2 evolves (versions s) vs" using assms(1) by (auto simp: content_sim_def)
  obtain vs' ws' where u: "versions u = vs' @ ws'" "list_all2 evolves (versions t) vs'" using assms(2) by (auto simp: content_sim_def)
  obtain xs ys where vs': "vs' = xs @ ys" "list_all2 evolves vs xs" using u(2) unfolding t(1) list_all2_append1 by auto
  have "list_all2 evolves (versions s) xs" by (rule list_all2_trans [OF _ t(2) vs'(2)]) (rule evolves_trans)
  moreover have "\<exists>as. activities u = activities s @ as" using assms by (auto simp: content_sim_def)
  ultimately show ?thesis using assms(2) u(1) vs'(1) by (auto simp: content_sim_def)
qed

text \<open>An update of one row that does not touch its keys.\<close>

lemma content_sim_update:
  assumes "content_ok s" and "\<And>v. v \<in> set (versions s) \<Longrightarrow> v_id v = i \<Longrightarrow> evolves v (f v) \<and> stamped (f v)"
    and "t = s\<lparr>masteries := m, versions := update_where (\<lambda>v. v_id v = i) f (versions s)\<rparr>"
  shows "content_sim s t"
proof -
  let ?vs = "update_where (\<lambda>v. v_id v = i) f (versions s)"
  have same: "v_id (f v) = v_id v \<and> v_activity_id (f v) = v_activity_id v \<and> v_version (f v) = v_version v"
    if "v \<in> set (versions s)" "v_id v = i" for v
    using assms(2) [OF that] evolves_keys by blast
  have keys: "map g ?vs = map g (versions s)"
    if "\<And>v. v \<in> set (versions s) \<Longrightarrow> v_id v = i \<Longrightarrow> g (f v) = g v" for g :: "activity_version_row \<Rightarrow> 'z"
    using that by (auto simp: update_where_def)
  have of: "map v_version (versions_of a t) = map v_version (versions_of a s)" and len: "length (versions_of a t) = length (versions_of a s)" for a
  proof -
    have "filter (\<lambda>v. v_activity_id v = a) (update_where (\<lambda>v. v_id v = i) f xs) = update_where (\<lambda>v. v_id v = i) f (filter (\<lambda>v. v_activity_id v = a) xs)"
      if "set xs \<subseteq> set (versions s)" for xs
      using that same by (induction xs) auto
    then have "versions_of a t = update_where (\<lambda>v. v_id v = i) f (versions_of a s)" by (simp add: assms(3) versions_of_def)
    moreover have "set (versions_of a s) \<subseteq> set (versions s)" by (auto simp: versions_of_def)
    ultimately show "map v_version (versions_of a t) = map v_version (versions_of a s)" "length (versions_of a t) = length (versions_of a s)"
      using same by (auto simp: update_where_def)
  qed
  have ev: "list_all2 evolves (versions s) ?vs"
    using assms(2) by (auto simp: list_all2_conv_all_nth update_where_def evolves_refl)
  have st: "list_all stamped ?vs" using assms(1,2) by (auto simp: content_ok_def list_all_iff update_where_def)
  have ids: "map v_id ?vs = map v_id (versions s)" "map v_activity_id ?vs = map v_activity_id (versions s)" using same by (auto intro: keys)
  then have "v_id ` set ?vs = v_id ` set (versions s)" "v_activity_id ` set ?vs = v_activity_id ` set (versions s)" by (metis set_map)+
  with assms(1) ids st have "content_ok t"
    unfolding content_ok_def of len by (simp add: assms(3))
  moreover have "versions t = ?vs @ []" "activities t = activities s @ []" by (simp_all add: assms(3))
  ultimately show ?thesis using ev unfolding content_sim_def by blast
qed

lemma content_sim_insert:
  assumes "content_ok s" and "fresh_ids aid vid s" and "publishable input s" and "st \<in> {V_DRAFT, V_PUBLISHED}"
  shows "content_sim s (with_version aid vid input st now s)"
proof -
  let ?t = "with_version aid vid input st now s" and ?a = "activity_for aid input s"
  let ?v = "version_row vid ?a (next_version input s) input st now"
  have v: "v_id ?v = vid" "v_activity_id ?v = ac_id ?a" "v_version ?v = next_version input s" "stamped ?v"
    using assms(4) by (auto simp: version_row_def stamped_def)
  have act: "distinct (map ac_id (activities ?t))" "distinct (map (\<lambda>a. (ac_tenant_id a, ac_slug a)) (activities ?t))"
      "ac_id ?a \<in> ac_id ` set (activities ?t)"
    using assms(1,2) by (auto simp: content_ok_def fresh_ids_def with_version_def activity_for_def find_activity_def find_row_None_iff
      dest: find_row_SomeD split: option.splits)
  have of: "versions_of a ?t = versions_of a s @ (if a = ac_id ?a then [?v] else [])" for a
    by (simp add: versions_of_def with_version_def v)
  have nv: "next_version input s = Suc (length (versions_of (ac_id ?a) s))"
    using next_version_for [OF assms(1,2), of input] latest_version_length [OF assms(1)] by simp
  have num: "map v_version (versions_of a ?t) = [1..<Suc (length (versions_of a ?t))]" for a
  proof -
    have "map v_version (versions_of a s) = [1..<Suc (length (versions_of a s))]" using assms(1) by (simp add: content_ok_def)
    then show ?thesis using v(3) nv by (simp add: of)
  qed
  let ?ids = "skillIdBySlug (au_skills (pi_spec input)) s" and ?xs = "au_skills (pi_spec input)"
  have free: "vid \<notin> ask_activity_version_id ` set (activity_skills s)" "vid \<notin> at_activity_version_id ` set (activity_topics s)"
    using assms(1,2) by (auto simp: content_ok_def fresh_ids_def)
  have skl: "distinct (map skill_key (activity_skills ?t))"
  proof -
    have "distinct (map (\<lambda>x. the (?ids (xs_skill x))) ?xs)"
      using assms(3) distinct_the [of "map (\<lambda>x. ?ids (xs_skill x)) ?xs"] by (simp add: publishable_def Let_def comp_def)
    then have "distinct (map skill_key (map (skill_binding vid ?ids) ?xs))" unfolding skill_bindings_keys distinct_Pair .
    moreover have "skill_key ` set (activity_skills s) \<inter> set (map skill_key (map (skill_binding vid ?ids) ?xs)) = {}"
      using free(1) unfolding skill_bindings_keys by (auto simp: skill_key_def)
    ultimately show ?thesis using assms(1) by (simp add: with_version_def content_ok_def)
  qed
  have tpk: "distinct (map topic_key (activity_topics ?t))"
  proof -
    have "distinct (map topic_key (topic_bindings_of vid (pi_spec input) s))"
      using assms(3) unfolding topic_bindings_keys distinct_Pair by (simp add: publishable_def)
    moreover have "topic_key ` set (activity_topics s) \<inter> set (map topic_key (topic_bindings_of vid (pi_spec input) s)) = {}"
      using free(2) unfolding topic_bindings_keys by (auto simp: topic_key_def)
    ultimately show ?thesis using assms(1) by (simp add: with_version_def content_ok_def)
  qed
  have fk: "ask_activity_version_id ` set (activity_skills ?t) \<subseteq> v_id ` set (versions ?t)" "at_activity_version_id ` set (activity_topics ?t) \<subseteq> v_id ` set (versions ?t)"
    using assms(1) by (auto simp: with_version_def content_ok_def skill_binding_def v dest!: topic_bindings_at)
  have vs: "versions ?t = versions s @ [?v]" by (simp add: with_version_def)
  have ids: "distinct (map v_id (versions ?t))" "v_activity_id ` set (versions ?t) \<subseteq> ac_id ` set (activities ?t)" "list_all stamped (versions ?t)"
  proof -
    have "ac_id ` set (activities s) \<subseteq> ac_id ` set (activities ?t)" by (auto simp: with_version_def)
    with content_okD(2) [OF assms(1)] have "v_activity_id ` set (versions s) \<subseteq> ac_id ` set (activities ?t)" by (rule subset_trans)
    moreover note content_okD(1,3) [OF assms(1)]
    moreover have "vid \<notin> v_id ` set (versions s)" using assms(2) by (simp add: fresh_ids_def)
    ultimately show "distinct (map v_id (versions ?t))" "v_activity_id ` set (versions ?t) \<subseteq> ac_id ` set (activities ?t)" "list_all stamped (versions ?t)"
      unfolding vs using v act(3) by simp_all
  qed
  have "content_ok ?t"
    unfolding content_ok_def using act num skl tpk fk ids by blast
  moreover note vs
  moreover have "list_all2 evolves (versions s) (versions s)" by (simp add: list.rel_refl evolves_refl)
  moreover have "\<exists>as. activities ?t = activities s @ as" by (simp add: with_version_def)
  ultimately show ?thesis unfolding content_sim_def by blast
qed

lemma transition_run:
  "(\<exists>e. transitionVersionStatus i fr to actor now s = (Inl e, s)) \<or>
   (\<exists>v. find_row (\<lambda>v. v_id v = i) (versions s) = Some v \<and> v_status v = fr \<and> review fr to \<and>
      transitionVersionStatus i fr to actor now s = (Inr (set_status to actor now v),
        s\<lparr>versions := update_where (\<lambda>v. v_id v = i) (set_status to actor now) (versions s)\<rparr>))"
proof (cases "review fr to")
  case True
  then have "fr \<noteq> V_PUBLISHED" by (auto simp: review_def)
  with True show ?thesis
    by (cases "find_row (\<lambda>v. v_id v = i) (versions s)")
       (auto simp: transitionVersionStatus_def review_def transaction_def bnd_run andthen_def update_version_def reject_published_edit_def)
qed (simp add: transitionVersionStatus_def review_def)

lemma set_status_evolves: "v_status v \<noteq> V_PUBLISHED \<Longrightarrow> review (v_status v) to \<Longrightarrow> evolves v (set_status to actor now v)"
  by (cases v) (auto simp: evolves_def set_status_def)

lemma set_status_stamped: "stamped v \<Longrightarrow> review (v_status v) to \<Longrightarrow> stamped (set_status to actor now v)"
  by (auto simp: stamped_def set_status_def review_def)

lemma elo_evolves: "evolves v (v\<lparr>v_difficulty_elo := e\<rparr>) \<and> (stamped v \<longrightarrow> stamped (v\<lparr>v_difficulty_elo := e\<rparr>))"
  by (cases v) (auto simp: evolves_def stamped_def)

lemma elo_versions:
  "snd (recordEloMatch u k i outc s) = s \<or>
   (\<exists>m e. snd (recordEloMatch u k i outc s) =
      s\<lparr>masteries := m, versions := update_where (\<lambda>v. v_id v = i) (\<lambda>v. v\<lparr>v_difficulty_elo := e\<rparr>) (versions s)\<rparr>)"
proof (cases "find_row (\<lambda>v. v_id v = i) (versions s)")
  case None
  then show ?thesis by (simp add: recordEloMatch_def transaction_def bnd_run)
next
  case (Some v)
  show ?thesis
  proof (cases "getMastery u k s")
    case (Some r)
    with \<open>find_row _ _ = Some v\<close> show ?thesis
      by (simp add: recordEloMatch_def transaction_def bnd_run andthen_def Let_def) blast
  next
    case None
    with \<open>find_row _ _ = Some v\<close> show ?thesis
      by (cases "find_row (\<lambda>q. sk_id q = k) (skills s)")
         (simp_all add: recordEloMatch_def transaction_def bnd_run andthen_def Let_def, blast)
  qed
qed

lemma step_sim:
  assumes "content_step s t" and "content_ok s"
  shows "content_sim s t"
  using assms(1)
proof cases
  case (cs_publish aid vid input now r)
  with publish_run [OF assms(2) cs_publish(1), of input V_PUBLISHED now] content_sim_insert [OF assms(2) cs_publish(1), of input V_PUBLISHED now]
  show ?thesis by (auto simp: publishNewVersion_def content_sim_refl [OF assms(2)] split: if_splits)
next
  case (cs_draft aid vid input now r)
  with publish_run [OF assms(2) cs_draft(1), of input V_DRAFT now] content_sim_insert [OF assms(2) cs_draft(1), of input V_DRAFT now]
  show ?thesis by (auto simp: createDraft_def content_sim_refl [OF assms(2)] split: if_splits)
next
  case (cs_transition vid fr to actor now r)
  show ?thesis using transition_run [of vid fr to actor now s]
  proof
    assume "\<exists>v. find_row (\<lambda>v. v_id v = vid) (versions s) = Some v \<and> v_status v = fr \<and> review fr to \<and>
      transitionVersionStatus vid fr to actor now s = (Inr (set_status to actor now v),
        s\<lparr>versions := update_where (\<lambda>v. v_id v = vid) (set_status to actor now) (versions s)\<rparr>)"
    then obtain v where v: "find_row (\<lambda>v. v_id v = vid) (versions s) = Some v" "v_status v = fr" "review fr to"
        "t = s\<lparr>versions := update_where (\<lambda>v. v_id v = vid) (set_status to actor now) (versions s)\<rparr>" using cs_transition by auto
    have only: "w = v" if "w \<in> set (versions s)" "v_id w = vid" for w
      using that v(1) assms(2) distinct_find_unique [of v_id "versions s" w] by (simp add: content_ok_def)
    have "stamped v" "v \<in> set (versions s)" using v(1) assms(2) by (auto simp: content_ok_def list_all_iff dest: find_row_SomeD)
    moreover have "v_status v \<noteq> V_PUBLISHED" using v(2,3) by (auto simp: review_def)
    ultimately show ?thesis
      using v(2,3) by (intro content_sim_update [OF assms(2), of vid "set_status to actor now" _ "masteries s"])
         (auto dest!: only simp: set_status_evolves set_status_stamped v(4))
  qed (use cs_transition content_sim_refl [OF assms(2)] in auto)
next
  case (cs_elo u k vid outc r)
  then have t: "t = snd (recordEloMatch u k vid outc s)" by simp
  show ?thesis using elo_versions [of u k vid outc s]
  proof
    assume "\<exists>m e. snd (recordEloMatch u k vid outc s) =
      s\<lparr>masteries := m, versions := update_where (\<lambda>v. v_id v = vid) (\<lambda>v. v\<lparr>v_difficulty_elo := e\<rparr>) (versions s)\<rparr>"
    then obtain m e where "t = s\<lparr>masteries := m, versions := update_where (\<lambda>v. v_id v = vid) (\<lambda>v. v\<lparr>v_difficulty_elo := e\<rparr>) (versions s)\<rparr>"
      using t by auto
    then show ?thesis using assms(2)
      by (intro content_sim_update [OF assms(2), of vid "\<lambda>v. v\<lparr>v_difficulty_elo := e\<rparr>" _ m]) (auto simp: elo_evolves content_ok_def list_all_iff)
  qed (use t content_sim_refl [OF assms(2)] in auto)
qed

lemma content_sim_ok: "content_sim s t \<Longrightarrow> content_ok t"
  by (simp add: content_sim_def)

interpretation content: refining content_step content_sim content_ok
  by unfold_locales (auto intro: content_sim_refl content_sim_trans step_sim dest: content_sim_ok)

lemma content_sim_row:
  assumes "content_sim s t" and "v \<in> set (versions s)"
  shows "\<exists>w \<in> set (versions t). evolves v w"
proof -
  obtain vs ws where "versions t = vs @ ws" "list_all2 evolves (versions s) vs" using assms(1) by (auto simp: content_sim_def)
  then show ?thesis using assms(2) by (fastforce simp: list_all2_conv_all_nth in_set_conv_nth)
qed

section \<open>The review cycle step by step\<close>

definition version_status :: "string \<Rightarrow> db \<Rightarrow> activity_version_status option" where
  "version_status i s = map_option v_status (find_row (\<lambda>v. v_id v = i) (versions s))"

lemma find_update_id:
  assumes "\<And>v. v_id (f v) = v_id v"
  shows "find_row (\<lambda>v. v_id v = i) (update_where (\<lambda>v. v_id v = j) f vs) =
    map_option (\<lambda>v. if i = j then f v else v) (find_row (\<lambda>v. v_id v = i) vs)"
  using assms by (induction vs) auto

lemma step_status:
  assumes "content_ok s" and "content_step s t" and "version_status i s = Some a"
  shows "version_status i t = Some a \<or> (\<exists>b. version_status i t = Some b \<and> review a b)"
  using assms(2)
proof cases
  case (cs_publish aid vid input now r)
  with publish_run [OF assms(1) cs_publish(1), of input V_PUBLISHED now] assms(3) show ?thesis
    by (auto simp: publishNewVersion_def version_status_def with_version_def find_row_append split: if_splits)
next
  case (cs_draft aid vid input now r)
  with publish_run [OF assms(1) cs_draft(1), of input V_DRAFT now] assms(3) show ?thesis
    by (auto simp: createDraft_def version_status_def with_version_def find_row_append split: if_splits)
next
  case (cs_transition vid fr to actor now r)
  have "v_id (set_status to actor now v) = v_id v" "v_status (set_status to actor now v) = to" for v by (simp_all add: set_status_def)
  with transition_run [of vid fr to actor now s] cs_transition assms(3) show ?thesis
    by (auto simp: version_status_def find_update_id)
next
  case (cs_elo u k vid outc r)
  then have t: "t = snd (recordEloMatch u k vid outc s)" by simp
  show ?thesis using elo_versions [of u k vid outc s] assms(3) unfolding t [symmetric]
    by (auto simp: version_status_def find_update_id if_distrib [of v_status])
qed

text \<open>How far a version that was a draft at \<open>s\<close> has come at \<open>t\<close>, and what it passed on the way.\<close>

definition approved_via :: "string \<Rightarrow> db \<Rightarrow> db \<Rightarrow> bool" where
  "approved_via i s t \<longleftrightarrow> (\<exists>u w. content_step\<^sup>*\<^sup>* s u \<and> version_status i u = Some V_IN_REVIEW \<and>
     content_step\<^sup>*\<^sup>* u w \<and> version_status i w = Some V_APPROVED \<and> content_step\<^sup>*\<^sup>* w t)"

lemma approved_via_step: "approved_via i s t \<Longrightarrow> content_step t t' \<Longrightarrow> approved_via i s t'"
  unfolding approved_via_def by (meson rtranclp.rtrancl_into_rtrancl)

lemma draft_progress:
  assumes "content_step\<^sup>*\<^sup>* s t" and "content_ok s" and "version_status i s = Some V_DRAFT"
  shows "version_status i t \<in> {Some V_DRAFT, Some V_IN_REVIEW} \<or>
    version_status i t \<in> {Some V_APPROVED, Some V_PUBLISHED} \<and> approved_via i s t"
  using assms(1)
proof (induction rule: rtranclp_induct)
  case base
  then show ?case using assms(3) by simp
next
  case (step t t')
  have ok: "content_ok t" by (rule content.run_ok [OF step.hyps(1) assms(2)])
  have run: "content_step\<^sup>*\<^sup>* s t'" using step.hyps by auto
  from step.IH show ?case
  proof (elim disjE conjE)
    assume "version_status i t \<in> {Some V_DRAFT, Some V_IN_REVIEW}"
    then show ?thesis
    proof (elim insertE emptyE)
      assume t: "version_status i t = Some V_DRAFT"
      from step_status [OF ok step.hyps(2) t] show ?thesis by (auto simp: review_def)
    next
      assume t: "version_status i t = Some V_IN_REVIEW"
      from step_status [OF ok step.hyps(2) t] show ?thesis
      proof (elim disjE exE conjE)
        fix b assume b: "version_status i t' = Some b" "review V_IN_REVIEW b"
        show ?thesis
        proof (cases "b = V_APPROVED")
          case True
          then have "approved_via i s t'" unfolding approved_via_def using b(1) t step.hyps by blast
          with True b show ?thesis by simp
        qed (use b in \<open>simp add: review_def\<close>)
      qed simp
    qed
  next
    assume "version_status i t \<in> {Some V_APPROVED, Some V_PUBLISHED}" and via: "approved_via i s t"
    then show ?thesis
      using step_status [OF ok step.hyps(2), of i] approved_via_step [OF via step.hyps(2)] by (auto simp: review_def)
  qed
qed

section \<open>Properties\<close>

text \<open>C12. Published content never changes: whatever is published, drafted, moved through review or rated
  afterwards, the row of a published version stays as it is (only its measured difficulty may move), so
  attempts and scores keep referring to the specification they were made with.\<close>

theorem published_immutable:
  assumes "content_ok s" and "content_step\<^sup>*\<^sup>* s t" and "v \<in> set (versions s)" and "v_status v = V_PUBLISHED"
  shows "\<exists>w \<in> set (versions t). w = v\<lparr>v_difficulty_elo := v_difficulty_elo w\<rparr>"
proof -
  obtain w where "w \<in> set (versions t)" "evolves v w" using content_sim_row [OF content.run_sim [OF assms(2,1)] assms(3)] by blast
  then show ?thesis using assms(4) unfolding evolves_def by blast
qed

text \<open>Property. The catalogue stays well formed: starting from an empty one, after any sequence of publishes, drafts,
  review decisions and ratings, successful or not, slugs are unique per tenant, the versions of every
  activity are numbered 1, 2, 3, ... without gap in the order of their creation, every version and binding
  refers to an existing row, and a version has a publication time exactly when it is published.\<close>

theorem versions_numbered:
  assumes "activities s = [] \<and> versions s = [] \<and> activity_skills s = [] \<and> activity_topics s = []" and "content_step\<^sup>*\<^sup>* s t"
  shows "content_ok t"
proof -
  have "content_ok s" using assms(1) by (simp add: content_ok_def versions_of_def)
  then show ?thesis by (rule content.run_ok [OF assms(2)])
qed

text \<open>Property. A publish is all or nothing and says exactly what it does: if the specification declares the next
  version number, names at least one skill, all of them known and none twice, and no topic twice, one
  version row (numbered, with its status and publication stamp) and its skill and topic bindings are
  added, with the activity if it is new; in every other case it throws and the database is untouched.
  The same holds for a draft.\<close>

theorem publish_exact:
  assumes "content_ok s" and "fresh_ids aid vid s"
  shows "if publishable input s
    then publishNewVersion aid vid input now s = (Inr (version_row vid (activity_for aid input s) (next_version input s) input V_PUBLISHED now),
           with_version aid vid input V_PUBLISHED now s) \<and>
         createDraft aid vid input now s = (Inr (version_row vid (activity_for aid input s) (next_version input s) input V_DRAFT now),
           with_version aid vid input V_DRAFT now s)
    else (\<exists>e. publishNewVersion aid vid input now s = (Inl e, s)) \<and> (\<exists>e. createDraft aid vid input now s = (Inl e, s))"
  unfolding publishNewVersion_def createDraft_def
  using publish_run [OF assms, of input V_PUBLISHED now] publish_run [OF assms, of input V_DRAFT now] by simp


lemma left_join_iff:
  "(x, y) \<in> set (left_join on xs ys) \<longleftrightarrow> x \<in> set xs \<and>
     (case y of None \<Rightarrow> \<forall>z \<in> set ys. \<not> on x z | Some z \<Rightarrow> z \<in> set ys \<and> on x z)"
proof -
  have "(x, y) \<in> set (case filter (on u) ys of [] \<Rightarrow> [(u, None)] | zs \<Rightarrow> map (\<lambda>z. (u, Some z)) zs) \<longleftrightarrow> x = u \<and>
     (case y of None \<Rightarrow> \<forall>z \<in> set ys. \<not> on u z | Some z \<Rightarrow> z \<in> set ys \<and> on u z)" for u
  proof (cases "filter (on u) ys")
    case Nil
    then show ?thesis by (auto simp: filter_empty_conv split: option.splits)
  next
    case (Cons z zs)
    then have "set (z # zs) = {z \<in> set ys. on u z}" by (metis set_filter)
    then show ?thesis unfolding Cons by (auto split: option.splits)
  qed
  then show ?thesis by (auto simp: left_join_def)
qed

lemma sort_twice: "sorted (map g (filter (\<lambda>e. f e = n) (sort_key f (sort_key g xs))))"
  unfolding sort_key_stable by (rule sorted_filter [OF sorted_sort_key])

text \<open>The rows of the skill-driven catalogue as a set.\<close>

lemma skill_entry_iff:
  "e \<in> set (listSkillDrivenCatalog tenant course s) \<longleftrightarrow>
     (\<exists>k x av a. e = \<lparr>ce_skill = k, ce_activity = a, ce_version = av\<rparr> \<and> sk_status k = ''active'' \<and> sk_course_slug k = course \<and>
        (case a of None \<Rightarrow> True | Some a \<Rightarrow> ac_tenant_id a = tenant) \<and> k \<in> set (skills s) \<and>
        (case x of None \<Rightarrow> \<forall>x \<in> set (activity_skills s). \<not> (ask_skill_id x = sk_id k \<and> ask_is_primary x)
         | Some x \<Rightarrow> x \<in> set (activity_skills s) \<and> ask_skill_id x = sk_id k \<and> ask_is_primary x) \<and>
        (case av of None \<Rightarrow> \<forall>v \<in> set (versions s). \<not> (case x of None \<Rightarrow> False | Some x \<Rightarrow> v_id v = ask_activity_version_id x \<and> v_status v = V_PUBLISHED)
         | Some v \<Rightarrow> v \<in> set (versions s) \<and> (case x of None \<Rightarrow> False | Some x \<Rightarrow> v_id v = ask_activity_version_id x \<and> v_status v = V_PUBLISHED)) \<and>
        (case a of None \<Rightarrow> \<forall>a \<in> set (activities s). \<not> (case av of None \<Rightarrow> False | Some v \<Rightarrow> ac_id a = v_activity_id v \<and> ac_tenant_id a = tenant)
         | Some a \<Rightarrow> a \<in> set (activities s) \<and> (case av of None \<Rightarrow> False | Some v \<Rightarrow> ac_id a = v_activity_id v \<and> ac_tenant_id a = tenant)))"
  unfolding listSkillDrivenCatalog_def Let_def set_sort set_map image_iff set_filter Bex_def mem_Collect_eq split_paired_Ex left_join_iff prod.case
  by blast

text \<open>Every entry can be completed: a skill that no published activity of the tenant covers is listed too.\<close>

lemma skill_listed:
  assumes "k \<in> set (skills s)" and "sk_status k = ''active''" and "sk_course_slug k = course"
  shows "\<exists>e \<in> set (listSkillDrivenCatalog tenant course s). ce_skill e = k"
proof -
  let ?P = "\<lambda>x. x \<in> set (activity_skills s) \<and> ask_skill_id x = sk_id k \<and> ask_is_primary x"
  define x where "x = (if \<exists>x. ?P x then Some (SOME x. ?P x) else None)"
  have x: "case x of None \<Rightarrow> \<forall>x \<in> set (activity_skills s). \<not> (ask_skill_id x = sk_id k \<and> ask_is_primary x) | Some x \<Rightarrow> ?P x"
    using someI_ex [of ?P] by (auto simp: x_def split: option.splits)
  let ?Q = "\<lambda>v. v \<in> set (versions s) \<and> (case x of None \<Rightarrow> False | Some x \<Rightarrow> v_id v = ask_activity_version_id x \<and> v_status v = V_PUBLISHED)"
  define av where "av = (if \<exists>v. ?Q v then Some (SOME v. ?Q v) else None)"
  have av: "case av of None \<Rightarrow> \<forall>v \<in> set (versions s). \<not> (case x of None \<Rightarrow> False | Some x \<Rightarrow> v_id v = ask_activity_version_id x \<and> v_status v = V_PUBLISHED) | Some v \<Rightarrow> ?Q v"
    using someI_ex [of ?Q] by (auto simp: av_def split: option.splits)
  let ?R = "\<lambda>a. a \<in> set (activities s) \<and> (case av of None \<Rightarrow> False | Some v \<Rightarrow> ac_id a = v_activity_id v \<and> ac_tenant_id a = tenant)"
  define a where "a = (if \<exists>a. ?R a then Some (SOME a. ?R a) else None)"
  have a: "case a of None \<Rightarrow> \<forall>a \<in> set (activities s). \<not> (case av of None \<Rightarrow> False | Some v \<Rightarrow> ac_id a = v_activity_id v \<and> ac_tenant_id a = tenant) | Some a \<Rightarrow> ?R a"
    using someI_ex [of ?R] by (auto simp: a_def split: option.splits)
  then have t: "case a of None \<Rightarrow> True | Some a \<Rightarrow> ac_tenant_id a = tenant" by (auto split: option.splits)
  have "\<lparr>ce_skill = k, ce_activity = a, ce_version = av\<rparr> \<in> set (listSkillDrivenCatalog tenant course s)"
    unfolding skill_entry_iff using assms x av a t by blast
  then show ?thesis by (rule bexI [rotated]) simp
qed

text \<open>Property. The skill catalogue shows the whole course and nothing of another tenant's activities: its skills are
  exactly the active ones of the course, in teaching order (by module, and within a module by
  sequence); an activity in an entry belongs to the tenant and has a published version that lists the
  skill as primary; and every such activity has an entry.\<close>

theorem skill_catalog_complete:
  "ce_skill ` set (listSkillDrivenCatalog tenant course s) = {k \<in> set (skills s). sk_status k = ''active'' \<and> sk_course_slug k = course} \<and>
   sorted (map (sk_domain_order \<circ> ce_skill) (listSkillDrivenCatalog tenant course s)) \<and>
   (\<forall>n. sorted (map (sk_sequence \<circ> ce_skill) (filter (\<lambda>e. sk_domain_order (ce_skill e) = n) (listSkillDrivenCatalog tenant course s)))) \<and>
   (\<forall>k \<in> set (skills s). sk_status k = ''active'' \<and> sk_course_slug k = course \<longrightarrow>
      (\<forall>a. (\<exists>v. \<lparr>ce_skill = k, ce_activity = Some a, ce_version = Some v\<rparr> \<in> set (listSkillDrivenCatalog tenant course s)) \<longleftrightarrow>
         a \<in> set (activities s) \<and> ac_tenant_id a = tenant \<and>
         (\<exists>v \<in> set (versions s). v_status v = V_PUBLISHED \<and> v_activity_id v = ac_id a \<and>
            (\<exists>x \<in> set (activity_skills s). ask_activity_version_id x = v_id v \<and> ask_skill_id x = sk_id k \<and> ask_is_primary x))))"
proof (intro conjI ballI impI allI)
  show "ce_skill ` set (listSkillDrivenCatalog tenant course s) = {k \<in> set (skills s). sk_status k = ''active'' \<and> sk_course_slug k = course}"
    using skill_listed [of _ s course tenant] by (auto simp: skill_entry_iff image_iff)
  show "sorted (map (sk_domain_order \<circ> ce_skill) (listSkillDrivenCatalog tenant course s))"
    by (simp add: listSkillDrivenCatalog_def Let_def)
  show "sorted (map (sk_sequence \<circ> ce_skill) (filter (\<lambda>e. sk_domain_order (ce_skill e) = n) (listSkillDrivenCatalog tenant course s)))" for n
    using sort_twice [of "sk_sequence \<circ> ce_skill" "sk_domain_order \<circ> ce_skill" n] unfolding listSkillDrivenCatalog_def Let_def comp_apply by blast
  fix k a assume k: "k \<in> set (skills s)" "sk_status k = ''active'' \<and> sk_course_slug k = course"
  show "(\<exists>v. \<lparr>ce_skill = k, ce_activity = Some a, ce_version = Some v\<rparr> \<in> set (listSkillDrivenCatalog tenant course s)) \<longleftrightarrow>
         a \<in> set (activities s) \<and> ac_tenant_id a = tenant \<and>
         (\<exists>v \<in> set (versions s). v_status v = V_PUBLISHED \<and> v_activity_id v = ac_id a \<and>
            (\<exists>x \<in> set (activity_skills s). ask_activity_version_id x = v_id v \<and> ask_skill_id x = sk_id k \<and> ask_is_primary x))"
  proof
    assume "\<exists>v. \<lparr>ce_skill = k, ce_activity = Some a, ce_version = Some v\<rparr> \<in> set (listSkillDrivenCatalog tenant course s)"
    then show "a \<in> set (activities s) \<and> ac_tenant_id a = tenant \<and>
         (\<exists>v \<in> set (versions s). v_status v = V_PUBLISHED \<and> v_activity_id v = ac_id a \<and>
            (\<exists>x \<in> set (activity_skills s). ask_activity_version_id x = v_id v \<and> ask_skill_id x = sk_id k \<and> ask_is_primary x))"
      unfolding skill_entry_iff by (auto split: option.splits) metis
  next
    assume "a \<in> set (activities s) \<and> ac_tenant_id a = tenant \<and>
         (\<exists>v \<in> set (versions s). v_status v = V_PUBLISHED \<and> v_activity_id v = ac_id a \<and>
            (\<exists>x \<in> set (activity_skills s). ask_activity_version_id x = v_id v \<and> ask_skill_id x = sk_id k \<and> ask_is_primary x))"
    then obtain v x where "a \<in> set (activities s)" "ac_tenant_id a = tenant" "v \<in> set (versions s)" "v_status v = V_PUBLISHED"
        "v_activity_id v = ac_id a" "x \<in> set (activity_skills s)" "ask_activity_version_id x = v_id v" "ask_skill_id x = sk_id k" "ask_is_primary x" by blast
    then have "\<lparr>ce_skill = k, ce_activity = Some a, ce_version = Some v\<rparr> \<in> set (listSkillDrivenCatalog tenant course s)"
      unfolding skill_entry_iff using k by (intro exI [of _ k] exI [of _ "Some x"] exI [of _ "Some v"] exI [of _ "Some a"]) simp
    then show "\<exists>v. \<lparr>ce_skill = k, ce_activity = Some a, ce_version = Some v\<rparr> \<in> set (listSkillDrivenCatalog tenant course s)" by blast
  qed
qed

section \<open>Witnesses and findings\<close>

definition demo_skill_row :: skill_row where
  "demo_skill_row = \<lparr>sk_id = ''k'', sk_bkt_p_init = 15/100, sk_bkt_p_transit = 25/100, sk_bkt_p_slip = 10/100, sk_bkt_p_guess = 8/100,
     sk_decay_half_life_days = 180, sk_slug = ''pods'', sk_name = ''Pods'', sk_domain = ''core'', sk_status = ''active'',
     sk_domain_order = 1, sk_sequence = 1, sk_course_slug = ''c''\<rparr>"

definition demo_authored :: authored_spec where
  "demo_authored = \<lparr>au_id = ''lab'', au_mode = ''GUIDED_LAB'', au_version = 1, au_difficulty_level = ''L1'', au_estimated_minutes = 30,
     au_blueprint = ''b'', au_cost_budget_usd = 1, au_skills = [\<lparr>xs_skill = ''pods'', xs_weight = 1, xs_primary = True\<rparr>],
     au_prerequisites_hard = None, au_prerequisites_soft = None, au_primary_topic = Some ''t'', au_also_relevant = None,
     au_body = \<lparr>as_environment = None, as_health_gate = None, as_faults = None, as_process_signals = None, as_artifacts_required = None,
       as_milestones = None, as_tasks = None, as_scoring_profile = None\<rparr>, au_mentor = no_mentor\<rparr>"

definition demo_publish :: "string \<Rightarrow> publish_input" where
  "demo_publish tenant = \<lparr>pi_tenantId = tenant, pi_activitySlug = ''lab'', pi_mode = ''GUIDED_LAB'', pi_spec = demo_authored, pi_publishedBy = Some ''ann''\<rparr>"

definition demo_content :: db where
  "demo_content = empty_db\<lparr>skills := [demo_skill_row], topics := [\<lparr>tp_id = ''t1'', tp_module_id = ''m'', tp_title = ''T'', tp_position = 1, tp_slug = Some ''t''\<rparr>]\<rparr>"

lemma demo_content_ok: "content_ok demo_content" "fresh_ids ''a'' ''v'' demo_content"
  by (simp_all add: content_ok_def fresh_ids_def versions_of_def demo_content_def empty_db_def)

lemma demo_publishable: "publishable (demo_publish tenant) demo_content"
  by (simp add: publishable_def demo_publish_def demo_authored_def demo_content_def empty_db_def next_version_def find_activity_def
    skillIdBySlug_def demo_skill_row_def topic_bindings_of_def topicSlugs_def truthy_def topic_binding_def List.map_filter_simps)

theorem publish_exact_witness:
  "\<exists>row. fst (publishNewVersion ''a'' ''v'' (demo_publish ''t'') 5 demo_content) = Inr row \<and> v_version row = 1 \<and> v_published_at row = Some 5"
  using publish_exact [OF demo_content_ok, of "demo_publish ''t''" 5] demo_publishable [of "''t''"]
  by (simp add: version_row_def next_version_def find_activity_def demo_content_def empty_db_def)

definition demo_drafted :: db where
  "demo_drafted = with_version ''a'' ''v'' (demo_publish ''t'') V_DRAFT 5 demo_content"

definition demo_live :: db where
  "demo_live = with_version ''a'' ''v'' (demo_publish ''t'') V_PUBLISHED 5 demo_content"

lemma demo_steps: "content_step demo_content demo_drafted" "content_step demo_content demo_live"
proof -
  show "content_step demo_content demo_drafted"
    by (rule cs_draft [OF demo_content_ok(2), of "demo_publish ''t''" 5])
       (use publish_run [OF demo_content_ok, of "demo_publish ''t''" V_DRAFT 5] demo_publishable in \<open>simp add: createDraft_def demo_drafted_def\<close>)
  show "content_step demo_content demo_live"
    by (rule cs_publish [OF demo_content_ok(2), of "demo_publish ''t''" 5])
       (use publish_run [OF demo_content_ok, of "demo_publish ''t''" V_PUBLISHED 5] demo_publishable in \<open>simp add: publishNewVersion_def demo_live_def\<close>)
qed

theorem versions_numbered_witness: "content_ok demo_live"
  by (rule versions_numbered [of demo_content, OF _ r_into_rtranclp [of content_step, OF demo_steps(2)]]) (simp add: demo_content_def empty_db_def)

lemma demo_catalog_ok: "content_ok demo_drafted" "content_ok demo_live"
  using content_sim_ok [OF step_sim [OF demo_steps(1) demo_content_ok(1)]] content_sim_ok [OF step_sim [OF demo_steps(2) demo_content_ok(1)]] by simp_all

lemma demo_versions:
  "versions demo_live = [version_row ''v'' (activity_for ''a'' (demo_publish ''t'') demo_content) 1 (demo_publish ''t'') V_PUBLISHED 5]"
  "versions demo_drafted = [version_row ''v'' (activity_for ''a'' (demo_publish ''t'') demo_content) 1 (demo_publish ''t'') V_DRAFT 5]"
  by (simp_all add: demo_live_def demo_drafted_def with_version_def next_version_def find_activity_def demo_content_def empty_db_def)

theorem published_immutable_witness:
  "\<exists>w \<in> set (versions (snd (transitionVersionStatus ''v'' V_DRAFT V_IN_REVIEW None 9 demo_live))). v_status w = V_PUBLISHED \<and> v_published_at w = Some 5"
proof -
  let ?v = "version_row ''v'' (activity_for ''a'' (demo_publish ''t'') demo_content) 1 (demo_publish ''t'') V_PUBLISHED 5"
  let ?t = "snd (transitionVersionStatus ''v'' V_DRAFT V_IN_REVIEW None 9 demo_live)"
  have run: "content_step\<^sup>*\<^sup>* demo_live ?t"
    by (rule r_into_rtranclp, rule cs_transition [of "''v''" V_DRAFT V_IN_REVIEW None 9]) (rule prod.collapse [symmetric])
  have v: "v_status ?v = V_PUBLISHED" "v_published_at ?v = Some 5" "?v \<in> set (versions demo_live)" by (simp_all add: version_row_def demo_versions)
  obtain w where w: "w \<in> set (versions ?t)" "w = ?v\<lparr>v_difficulty_elo := v_difficulty_elo w\<rparr>"
    using published_immutable [OF demo_catalog_ok(2) run v(3,1)] by blast
  have "v_status w = V_PUBLISHED \<and> v_published_at w = Some 5" by (subst w(2), subst w(2)) (simp add: version_row_def)
  with w(1) show ?thesis by blast
qed

definition demo_move :: "activity_version_status \<Rightarrow> activity_version_status \<Rightarrow> db \<Rightarrow> db" where
  "demo_move fr to s = snd (transitionVersionStatus ''v'' fr to (Some ''adm'') 9 s)"

lemma demo_move_run: "content_step\<^sup>*\<^sup>* s t \<Longrightarrow> content_step\<^sup>*\<^sup>* s (demo_move fr to t)"
  unfolding demo_move_def by (rule rtranclp.rtrancl_into_rtrancl, assumption, rule cs_transition [of "''v''" fr to "Some ''adm''" 9]) (rule prod.collapse [symmetric])

lemma demo_move_status:
  "version_status ''v'' s = Some fr \<Longrightarrow> to \<in> set (ALLOWED_TRANSITIONS fr) \<Longrightarrow> fr \<noteq> V_PUBLISHED \<Longrightarrow> version_status ''v'' (demo_move fr to s) = Some to"
  by (auto simp: demo_move_def version_status_def transitionVersionStatus_def transaction_def bnd_run andthen_def update_version_def
    reject_published_edit_def find_update_id set_status_def)


theorem skill_catalog_complete_witness: "ce_skill ` set (listSkillDrivenCatalog ''t'' ''c'' demo_live) = {demo_skill_row}"
proof -
  have "skills demo_live = [demo_skill_row]" by (simp add: demo_live_def with_version_def demo_content_def)
  moreover have "sk_status demo_skill_row = ''active''" "sk_course_slug demo_skill_row = ''c''" by (simp_all add: demo_skill_row_def)
  ultimately show ?thesis using skill_catalog_complete [of "''t''" "''c''" demo_live] by auto
qed

text \<open>A version published under another tenant shows up in the catalogue: its row has no activity, but the
  identifier, number and difficulty of the foreign version.\<close>

lemma catalog_leaks_foreign_version:
  "listSkillDrivenCatalog ''other'' ''c'' demo_live = [\<lparr>ce_skill = demo_skill_row, ce_activity = None, ce_version = Some (hd (versions demo_live))\<rparr>]"
  by (simp add: listSkillDrivenCatalog_def demo_versions left_join_def demo_live_def with_version_def demo_content_def empty_db_def
    demo_publish_def demo_authored_def demo_skill_row_def skill_binding_def skillIdBySlug_def version_row_def activity_for_def find_activity_def)

text \<open>A draft can be read, with its specification, by anyone who asks for its identifier.\<close>

lemma draft_readable: "\<exists>v a. getVersionById ''v'' demo_drafted = Some (v, a) \<and> v_status v = V_DRAFT \<and> v_spec v = au_body demo_authored"
  by (simp add: getVersionById_def versions_with_activity_def inner_join_def demo_drafted_def with_version_def demo_content_def empty_db_def
    demo_publish_def demo_authored_def version_row_def activity_for_def find_activity_def)

text \<open>A primary topic that is listed again as also relevant makes the whole publish fail.\<close>

lemma repeated_topic_rejected:
  assumes "truthy (au_primary_topic (pi_spec input))" and "au_also_relevant (pi_spec input) = Some xs"
    and "the (au_primary_topic (pi_spec input)) \<in> set xs" and "find_row (\<lambda>t. tp_slug t = au_primary_topic (pi_spec input)) (topics s) = Some t"
  shows "\<not> publishable input s"
proof -
  obtain p where p: "au_primary_topic (pi_spec input) = Some p" using assms(1) by (auto simp: truthy_def split: option.splits)
  have t: "find_row (\<lambda>t. tp_slug t = Some p) (topics s) = Some t" using assms(4) p by simp
  have "\<lparr>at_activity_version_id = [], at_topic_id = tp_id t, at_relevance = 1/2\<rparr> \<in> set (List.map_filter (topic_binding [] s) (map (\<lambda>slug. (slug, 1/2)) xs))"
    using assms(3) p t by (force simp: List.map_filter_def topic_binding_def)
  then show ?thesis using assms(1,2) p t
    by (force simp: publishable_def topic_bindings_of_def topicSlugs_def List.map_filter_simps topic_binding_def image_iff)
qed

end
