(* ===== verification/Admin.thy ===== *)
theory Admin
  imports Catalog
begin

text \<open>
  The content routes of \<open>admin/admin.controller.ts\<close> and \<open>catalog/catalog.controller.ts\<close> behind the two
  global guards of \<open>auth/auth.guard.ts\<close> and \<open>auth/roles.guard.ts\<close> with the roles of \<open>auth/role.ts\<close>, and
  the development login of \<open>auth/auth.controller.ts\<close>. The JWT library (signing and verifying), the YAML
  parser and the JSON-Schema validator are parameters. A request runs the guards, then its handler.
\<close>

section \<open>Model\<close>

datatype role = ROLE_LEARNER | ROLE_AUTHOR | ROLE_ADMIN

fun role_str :: "role \<Rightarrow> string" where
  "role_str ROLE_LEARNER = ''learner''"
| "role_str ROLE_AUTHOR = ''author''"
| "role_str ROLE_ADMIN = ''admin''"

definition ROLE_VALUES :: "role list" where
  "ROLE_VALUES = [ROLE_LEARNER, ROLE_AUTHOR, ROLE_ADMIN]"

text \<open>\<open>isRole\<close>, returning the role the string denotes.\<close>

definition isRole :: "string \<Rightarrow> role option" where
  "isRole value = find_row (\<lambda>r. role_str r = value) ROLE_VALUES"

record jwt_claims =
  jw_userId :: "string option"
  jw_tenantId :: "string option"
  jw_role :: "string option"

record auth_claims =
  cm_userId :: string
  cm_tenantId :: string
  cm_role :: role

text \<open>\<open>AuthGuard.canActivate\<close>: the claims it puts on the request; \<open>None\<close> on a public route.\<close>

definition auth_canActivate :: "(string \<Rightarrow> jwt_claims option) \<Rightarrow> bool \<Rightarrow> string option \<Rightarrow> auth_claims option prog" where
  "auth_canActivate verify isPublic header =
     (if isPublic then ret None
      else case header of
        None \<Rightarrow> throw (Unauthorized ''missing bearer token'')
      | Some h \<Rightarrow>
          if \<not> starts_with h ''Bearer '' then throw (Unauthorized ''missing bearer token'')
          else try_catch
            (case verify (drop 7 h) of
               None \<Rightarrow> throw (Err ''invalid signature'')
             | Some claims \<Rightarrow>
                 if \<not> truthy (jw_userId claims) \<or> \<not> truthy (jw_tenantId claims) \<or> \<not> truthy (jw_role claims)
                 then throw (Unauthorized ''token missing required claims'')
                 else case isRole (the (jw_role claims)) of
                   None \<Rightarrow> throw (Unauthorized ''token has an unrecognized role'')
                 | Some r \<Rightarrow> ret (Some \<lparr>cm_userId = the (jw_userId claims), cm_tenantId = the (jw_tenantId claims), cm_role = r\<rparr>))
            (\<lambda>_. throw (Unauthorized ''invalid or expired token'')))"

text \<open>\<open>RolesGuard.canActivate\<close>; \<open>required\<close> are the roles of the handler or else of its class.\<close>

definition roles_canActivate :: "role list option \<Rightarrow> auth_claims option \<Rightarrow> bool prog" where
  "roles_canActivate required auth =
     (if required = None \<or> required = Some [] then ret True
      else case auth of
        None \<Rightarrow> throw (Forbidden ''insufficient role for this route'')
      | Some a \<Rightarrow> if cm_role a \<in> set (the required) then ret True else throw (Forbidden ''insufficient role for this route''))"

definition DEMO_USER_ID :: string where
  "DEMO_USER_ID = ''55555555-5555-5555-5555-555555555555''"

definition DEMO_TENANT_ID :: string where
  "DEMO_TENANT_ID = ''11111111-1111-1111-1111-111111111111''"

definition devLogin :: "(jwt_claims \<Rightarrow> string) \<Rightarrow> string option \<Rightarrow> string prog" where
  "devLogin sign bodyRole =
     (let requested = (case bodyRole of None \<Rightarrow> role_str ROLE_LEARNER | Some r \<Rightarrow> r) in
      if isRole requested = None then throw (BadRequest (''unrecognized role: '' @ requested))
      else ret (sign \<lparr>jw_userId = Some DEMO_USER_ID, jw_tenantId = Some DEMO_TENANT_ID, jw_role = Some requested\<rparr>))"

record admin_env =
  ax_verify :: "string \<Rightarrow> jwt_claims option"
  ax_parseYaml :: "string \<Rightarrow> exn + authored_spec"
  ax_schema :: "authored_spec \<Rightarrow> lint_issue list"

definition known_slugs :: "db \<Rightarrow> string set" where
  "known_slugs s = set (map sk_slug (skills s))"

definition lintSpec :: "admin_env \<Rightarrow> string \<Rightarrow> lint_result prog" where
  "lintSpec ax yaml = bnd (call (ax_parseYaml ax yaml)) (\<lambda>spec. bnd (query known_slugs) (\<lambda>known. ret (lint (ax_schema ax) spec known)))"

definition lintAndParse :: "admin_env \<Rightarrow> string \<Rightarrow> authored_spec prog" where
  "lintAndParse ax yaml =
     bnd (call (ax_parseYaml ax yaml)) (\<lambda>spec.
     bnd (query known_slugs) (\<lambda>known.
     let result = lint (ax_schema ax) spec known in
     if \<not> lr_valid result then throw (BadRequest ''lint failed'') else ret spec))"

definition publishSpec :: "admin_env \<Rightarrow> auth_claims \<Rightarrow> string \<Rightarrow> string \<Rightarrow> string \<Rightarrow> time \<Rightarrow> activity_version_row prog" where
  "publishSpec ax auth yaml newActivityId newVersionId now = bnd (lintAndParse ax yaml) (\<lambda>spec.
     publishNewVersion newActivityId newVersionId \<lparr>pi_tenantId = cm_tenantId auth, pi_activitySlug = au_id spec, pi_mode = au_mode spec,
       pi_spec = spec, pi_publishedBy = Some (cm_userId auth)\<rparr> now)"

definition draftSpec :: "admin_env \<Rightarrow> auth_claims \<Rightarrow> string \<Rightarrow> string \<Rightarrow> string \<Rightarrow> time \<Rightarrow> activity_version_row prog" where
  "draftSpec ax auth yaml newActivityId newVersionId now = bnd (lintAndParse ax yaml) (\<lambda>spec.
     createDraft newActivityId newVersionId \<lparr>pi_tenantId = cm_tenantId auth, pi_activitySlug = au_id spec, pi_mode = au_mode spec,
       pi_spec = spec, pi_publishedBy = None\<rparr> now)"

definition submitForReview :: "string \<Rightarrow> time \<Rightarrow> activity_version_row prog" where
  "submitForReview i now = transitionVersionStatus i V_DRAFT V_IN_REVIEW None now"

definition reviewDecision :: "auth_claims \<Rightarrow> string \<Rightarrow> string \<Rightarrow> time \<Rightarrow> activity_version_row prog" where
  "reviewDecision auth i decision now =
     transitionVersionStatus i V_IN_REVIEW (if decision = ''approve'' then V_APPROVED else V_DRAFT) (Some (cm_userId auth)) now"

definition publishApprovedVersion :: "auth_claims \<Rightarrow> string \<Rightarrow> time \<Rightarrow> activity_version_row prog" where
  "publishApprovedVersion auth i now = transitionVersionStatus i V_APPROVED V_PUBLISHED (Some (cm_userId auth)) now"

definition assertActivityInCallerTenant :: "auth_claims \<Rightarrow> string \<Rightarrow> unit prog" where
  "assertActivityInCallerTenant auth activityId =
     bnd (query (\<lambda>s. find_row (\<lambda>a. ac_id a = activityId) (activities s))) (\<lambda>activity.
     case activity of
       None \<Rightarrow> throw (BadRequest ''activity not found'')
     | Some a \<Rightarrow> if ac_tenant_id a \<noteq> cm_tenantId auth then throw (BadRequest ''activity not found'') else ret ())"

text \<open>The catalogue routes, open to every signed-in role.\<close>

definition catalog_list :: "auth_claims \<Rightarrow> (activity_version_row \<times> activity_row) list prog" where
  "catalog_list auth = query (listPublishedCatalog (cm_tenantId auth))"

definition catalog_listBySkill :: "auth_claims \<Rightarrow> string option \<Rightarrow> catalog_entry list prog" where
  "catalog_listBySkill auth course = query (listSkillDrivenCatalog (cm_tenantId auth) (case course of None \<Rightarrow> ''devops-with-ai'' | Some c \<Rightarrow> c))"

definition catalog_getOne :: "string \<Rightarrow> (activity_version_row \<times> activity_row) prog" where
  "catalog_getOne activityVersionId = bnd (query (getVersionById activityVersionId)) (\<lambda>r.
     findOrThrow r (''activity version '' @ activityVersionId @ '' not found''))"

text \<open>The content routes of the controller, their roles (the class default or the method's own) and their dispatch.\<close>

datatype admin_request = LintSpec string | PublishSpec string | DraftSpec string | SubmitForReview string
  | ReviewDecision string string | PublishApproved string

fun route_roles :: "admin_request \<Rightarrow> role list" where
  "route_roles (ReviewDecision _ _) = [ROLE_ADMIN]"
| "route_roles (PublishApproved _) = [ROLE_ADMIN]"
| "route_roles _ = [ROLE_ADMIN, ROLE_AUTHOR]"

datatype admin_response = LintResponse lint_result | VersionResponse activity_version_row

fun dispatch :: "admin_env \<Rightarrow> auth_claims \<Rightarrow> admin_request \<Rightarrow> string \<Rightarrow> string \<Rightarrow> time \<Rightarrow> admin_response prog" where
  "dispatch ax auth (LintSpec yaml) aid vid now = bnd (lintSpec ax yaml) (\<lambda>r. ret (LintResponse r))"
| "dispatch ax auth (PublishSpec yaml) aid vid now = bnd (publishSpec ax auth yaml aid vid now) (\<lambda>v. ret (VersionResponse v))"
| "dispatch ax auth (DraftSpec yaml) aid vid now = bnd (draftSpec ax auth yaml aid vid now) (\<lambda>v. ret (VersionResponse v))"
| "dispatch ax auth (SubmitForReview i) aid vid now = bnd (submitForReview i now) (\<lambda>v. ret (VersionResponse v))"
| "dispatch ax auth (ReviewDecision i d) aid vid now = bnd (reviewDecision auth i d now) (\<lambda>v. ret (VersionResponse v))"
| "dispatch ax auth (PublishApproved i) aid vid now = bnd (publishApprovedVersion auth i now) (\<lambda>v. ret (VersionResponse v))"

definition handle_admin :: "admin_env \<Rightarrow> string option \<Rightarrow> admin_request \<Rightarrow> string \<Rightarrow> string \<Rightarrow> time \<Rightarrow> admin_response prog" where
  "handle_admin ax header req aid vid now =
     bnd (auth_canActivate (ax_verify ax) False header) (\<lambda>auth.
     andthen (roles_canActivate (Some (route_roles req)) auth)
     (case auth of None \<Rightarrow> throw (Err ''no claims'') | Some a \<Rightarrow> dispatch ax a req aid vid now))"

section \<open>The guards\<close>

text \<open>Who a request acts as.\<close>

definition token_claims :: "(string \<Rightarrow> jwt_claims option) \<Rightarrow> string option \<Rightarrow> auth_claims option" where
  "token_claims verify header = (case header of None \<Rightarrow> None | Some h \<Rightarrow>
     if \<not> starts_with h ''Bearer '' then None else
     (case verify (drop 7 h) of None \<Rightarrow> None | Some c \<Rightarrow>
       if \<not> truthy (jw_userId c) \<or> \<not> truthy (jw_tenantId c) \<or> \<not> truthy (jw_role c) then None
       else map_option (\<lambda>r. \<lparr>cm_userId = the (jw_userId c), cm_tenantId = the (jw_tenantId c), cm_role = r\<rparr>) (isRole (the (jw_role c)))))"

lemma isRole_str [simp]: "isRole (role_str r) = Some r"
  by (cases r) (simp_all add: isRole_def ROLE_VALUES_def)

lemma isRole_iff: "isRole x = Some r \<longleftrightarrow> x = role_str r"
proof
  assume "isRole x = Some r"
  then show "x = role_str r" by (auto simp: isRole_def dest: find_row_SomeD)
qed simp

lemma auth_run:
  "auth_canActivate verify False header s =
     (case token_claims verify header of Some c \<Rightarrow> (Inr (Some c), s)
      | None \<Rightarrow> (Inl (Unauthorized (if \<exists>h. header = Some h \<and> starts_with h ''Bearer '' then ''invalid or expired token'' else ''missing bearer token'')), s))"
proof (cases header)
  case (Some h)
  then show ?thesis
  proof (cases "starts_with h ''Bearer ''")
    case True
    with Some show ?thesis
    proof (cases "verify (drop 7 h)")
      case (Some c)
      with True \<open>header = Some h\<close> show ?thesis
        by (cases "isRole (the (jw_role c))") (auto simp: auth_canActivate_def token_claims_def try_catch_def)
    qed (simp add: auth_canActivate_def token_claims_def try_catch_def)
  qed (simp add: auth_canActivate_def token_claims_def)
qed (simp add: auth_canActivate_def token_claims_def)

lemma handle_run:
  "handle_admin ax header req aid vid now s =
     (case token_claims (ax_verify ax) header of
        None \<Rightarrow> (Inl (Unauthorized (if \<exists>h. header = Some h \<and> starts_with h ''Bearer '' then ''invalid or expired token'' else ''missing bearer token'')), s)
      | Some c \<Rightarrow> if cm_role c \<in> set (route_roles req) then dispatch ax c req aid vid now s
          else (Inl (Forbidden ''insufficient role for this route''), s))"
proof -
  have "route_roles req \<noteq> []" by (cases req) simp_all
  then show ?thesis
    by (cases "token_claims (ax_verify ax) header") (simp_all add: handle_admin_def bnd_run auth_run andthen_def roles_canActivate_def)
qed

lemma wrap_state: "snd (bnd m (\<lambda>v. ret (f v)) s) = snd (m s)"
  by (simp add: bnd_run split: prod.split sum.split)

lemma lintAndParse_run:
  "lintAndParse ax yaml s = (case ax_parseYaml ax yaml of Inl e \<Rightarrow> (Inl e, s)
     | Inr spec \<Rightarrow> if lr_valid (lint (ax_schema ax) spec (known_slugs s)) then (Inr spec, s) else (Inl (BadRequest ''lint failed''), s))"
  by (simp add: lintAndParse_def bnd_run Let_def split: sum.split)

section \<open>Requests in sequence\<close>

text \<open>Requests of callers whose role satisfies \<open>allowed\<close>, or of nobody at all.\<close>

inductive admin_step :: "admin_env \<Rightarrow> (role \<Rightarrow> bool) \<Rightarrow> db \<Rightarrow> db \<Rightarrow> bool" for ax allowed where
  request: "fresh_ids aid vid s \<Longrightarrow> (\<And>c. token_claims (ax_verify ax) header = Some c \<Longrightarrow> allowed (cm_role c)) \<Longrightarrow>
     handle_admin ax header req aid vid now s = (r, t) \<Longrightarrow> admin_step ax allowed s t"

lemma publish_state:
  "snd (bnd (lintAndParse ax yaml) (\<lambda>spec. k spec) s) = s \<or> (\<exists>spec. snd (bnd (lintAndParse ax yaml) (\<lambda>spec. k spec) s) = snd (k spec s))"
  by (cases "ax_parseYaml ax yaml") (auto simp: bnd_run lintAndParse_run)

text \<open>Every request is a step of the catalogue or changes nothing.\<close>

lemma dispatch_step:
  assumes "fresh_ids aid vid s"
  shows "snd (dispatch ax c req aid vid now s) = s \<or> content_step s (snd (dispatch ax c req aid vid now s))"
proof (cases req)
  case (LintSpec y)
  then show ?thesis by (simp add: wrap_state lintSpec_def bnd_run split: sum.split)
next
  case (PublishSpec y)
  have "content_step s (snd (publishNewVersion aid vid i now s))" for i by (rule cs_publish [OF assms]) (rule prod.collapse [symmetric])
  with PublishSpec show ?thesis unfolding PublishSpec dispatch.simps wrap_state publishSpec_def by (metis (no_types, lifting) publish_state)
next
  case (DraftSpec y)
  have "content_step s (snd (createDraft aid vid i now s))" for i by (rule cs_draft [OF assms]) (rule prod.collapse [symmetric])
  with DraftSpec show ?thesis unfolding DraftSpec dispatch.simps wrap_state draftSpec_def by (metis (no_types, lifting) publish_state)
next
  case (SubmitForReview i)
  have "content_step s (snd (transitionVersionStatus i V_DRAFT V_IN_REVIEW None now s))" by (rule cs_transition) (rule prod.collapse [symmetric])
  with SubmitForReview show ?thesis by (simp add: wrap_state submitForReview_def)
next
  case (ReviewDecision i d)
  have "content_step s (snd (transitionVersionStatus i V_IN_REVIEW to x now s))" for to x by (rule cs_transition) (rule prod.collapse [symmetric])
  with ReviewDecision show ?thesis by (simp add: wrap_state reviewDecision_def)
next
  case (PublishApproved i)
  have "content_step s (snd (transitionVersionStatus i V_APPROVED V_PUBLISHED x now s))" for x by (rule cs_transition) (rule prod.collapse [symmetric])
  with PublishApproved show ?thesis by (simp add: wrap_state publishApprovedVersion_def)
qed

lemma admin_step_content: "admin_step ax allowed s t \<Longrightarrow> t = s \<or> content_step s t"
proof (induction rule: admin_step.induct)
  case (request aid vid s header req now r t)
  then show ?case using dispatch_step [OF request(1), of ax _ req now] by (auto simp: handle_run split: option.splits if_splits) (metis snd_conv)+
qed

lemma insert_keeps_status:
  assumes "content_ok s" and "fresh_ids aid vid s" and "version_status i s = Some a"
  shows "version_status i (snd (publishNewVersion aid vid input now s)) = Some a" "version_status i (snd (createDraft aid vid input now s)) = Some a"
  using publish_run [OF assms(1,2), of input V_PUBLISHED now] publish_run [OF assms(1,2), of input V_DRAFT now] assms(3)
  by (auto simp: publishNewVersion_def createDraft_def version_status_def with_version_def find_row_append split: if_splits)

lemma submit_status:
  assumes "version_status i s = Some a" and "a \<in> {V_DRAFT, V_IN_REVIEW}"
  shows "version_status i (snd (submitForReview j now s)) \<in> {Some V_DRAFT, Some V_IN_REVIEW}"
proof -
  have "v_id (set_status to x now v) = v_id v" "v_status (set_status to x now v) = to" for to x v by (simp_all add: set_status_def)
  then show ?thesis using transition_run [of j V_DRAFT V_IN_REVIEW None now s] assms
    by (auto simp: submitForReview_def version_status_def find_update_id)
qed

lemma non_admin_step:
  assumes "admin_step ax (\<lambda>r. r \<noteq> ROLE_ADMIN) s t" and "content_ok s" and "version_status i s \<in> {Some V_DRAFT, Some V_IN_REVIEW}"
  shows "version_status i t \<in> {Some V_DRAFT, Some V_IN_REVIEW}"
  using assms(1)
proof cases
  case (request aid vid header req now r)
  obtain a where a: "version_status i s = Some a" "a \<in> {V_DRAFT, V_IN_REVIEW}" using assms(3) by auto
  show ?thesis
  proof (cases "\<exists>c. token_claims (ax_verify ax) header = Some c \<and> cm_role c \<in> set (route_roles req)")
    case False
    then have "t = s" using request(3) by (auto simp: handle_run split: option.splits if_splits)
    then show ?thesis using assms(3) by simp
  next
    case True
    then obtain c where c: "token_claims (ax_verify ax) header = Some c" "cm_role c \<in> set (route_roles req)" by blast
    then have role: "cm_role c = ROLE_AUTHOR" using request(2) by (cases req) auto
    have t: "t = snd (dispatch ax c req aid vid now s)" using request(3) c by (auto simp: handle_run)
    have pub: "version_status i (snd (bnd (lintAndParse ax y) (\<lambda>spec. k spec) s)) = Some a"
      if "\<And>spec. version_status i (snd (k spec s)) = Some a" for y and k :: "authored_spec \<Rightarrow> activity_version_row prog"
      using publish_state [of ax y k s] that a(1) by metis
    show ?thesis
    proof (cases req)
      case (LintSpec y)
      then have "t = s" unfolding t by (simp add: wrap_state lintSpec_def bnd_run split: sum.split)
      then show ?thesis using assms(3) by simp
    next
      case (PublishSpec y)
      have "version_status i (snd (publishSpec ax c y aid vid now s)) = Some a"
        unfolding publishSpec_def by (rule pub) (rule insert_keeps_status(1) [OF assms(2) request(1) a(1)])
      then show ?thesis unfolding t PublishSpec dispatch.simps wrap_state using a(2) by auto
    next
      case (DraftSpec y)
      have "version_status i (snd (draftSpec ax c y aid vid now s)) = Some a"
        unfolding draftSpec_def by (rule pub) (rule insert_keeps_status(2) [OF assms(2) request(1) a(1)])
      then show ?thesis unfolding t DraftSpec dispatch.simps wrap_state using a(2) by auto
    next
      case (SubmitForReview j)
      then show ?thesis unfolding t SubmitForReview dispatch.simps wrap_state using submit_status [OF a] by simp
    qed (use c role in auto)
  qed
qed

lemma admin_run_ok: "(admin_step ax allowed)\<^sup>*\<^sup>* s t \<Longrightarrow> content_ok s \<Longrightarrow> content_ok t"
proof (induction rule: rtranclp_induct)
  case (step t u)
  then show ?case using admin_step_content [OF step.hyps(2)] content_sim_ok [OF step_sim] by blast
qed

lemma learner_step:
  assumes "admin_step ax (\<lambda>r. r = ROLE_LEARNER) s t"
  shows "t = s"
  using assms
proof cases
  case (request aid vid header req now r)
  have "ROLE_LEARNER \<notin> set (route_roles req)" by (cases req) simp_all
  then show ?thesis using request by (auto simp: handle_run split: option.splits if_splits)
qed

section \<open>Properties\<close>

text \<open>C25. Separation of duties holds in the review cycle: however many requests authors, learners and callers
  without a valid token send to the content routes, in whatever order, a version in draft or review is
  never approved or published by them; and requests of learners (or without a valid token) change
  nothing at all.\<close>

theorem content_roles:
  "(content_ok s \<and> (admin_step ax (\<lambda>r. r \<noteq> ROLE_ADMIN))\<^sup>*\<^sup>* s t \<and> version_status i s \<in> {Some V_DRAFT, Some V_IN_REVIEW} \<longrightarrow>
      version_status i t \<in> {Some V_DRAFT, Some V_IN_REVIEW}) \<and>
   ((admin_step ax (\<lambda>r. r = ROLE_LEARNER))\<^sup>*\<^sup>* s u \<longrightarrow> u = s)"
proof (intro conjI impI; (elim conjE)?)
  assume ok: "content_ok s" and run: "(admin_step ax (\<lambda>r. r \<noteq> ROLE_ADMIN))\<^sup>*\<^sup>* s t" and st: "version_status i s \<in> {Some V_DRAFT, Some V_IN_REVIEW}"
  from run show "version_status i t \<in> {Some V_DRAFT, Some V_IN_REVIEW}"
  proof (induction rule: rtranclp_induct)
    case (step t u)
    show ?case by (rule non_admin_step [OF step.hyps(2) admin_run_ok [OF step.hyps(1) ok] step.IH])
  qed (rule st)
next
  assume "(admin_step ax (\<lambda>r. r = ROLE_LEARNER))\<^sup>*\<^sup>* s u"
  then show "u = s" by (induction rule: rtranclp_induct) (auto dest: learner_step)
qed

lemma lint_valid:
  assumes "lr_valid (lint schema spec known)"
  shows "schema spec = []" "\<forall>x \<in> set (au_skills spec). xs_skill x \<in> known"
proof -
  show sc: "schema spec = []"
  proof (rule ccontr)
    assume "schema spec \<noteq> []"
    then have "lint schema spec known = \<lparr>lr_valid = False, lr_issues = schema spec\<rparr>" unfolding lint_def by (rule if_P)
    with assms show False by simp
  qed
  obtain rest where "lr_valid (lint schema spec known) \<longleftrightarrow> length (concat (map (\<lambda>x. if xs_skill x \<in> known then []
      else [\<lparr>li_path = ''/skills'', li_message = ''unknown skill slug: '' @ xs_skill x\<rparr>]) (au_skills spec)) @ rest) = 0"
    unfolding lint_def Let_def sc by (simp only: not_True_eq_False if_False lint_result.simps refl)
  with assms have "concat (map (\<lambda>x. if xs_skill x \<in> known then []
      else [\<lparr>li_path = ''/skills'', li_message = ''unknown skill slug: '' @ xs_skill x\<rparr>]) (au_skills spec)) = []"
    by (simp only: length_0_conv append_is_Nil_conv)
  then show "\<forall>x \<in> set (au_skills spec). xs_skill x \<in> known"
    unfolding concat_eq_Nil_conv by (simp only: set_map ball_simps) (metis list.distinct(1))
qed

lemma skillIdBySlug_known:
  assumes "xs_skill x \<in> known_slugs s" and "x \<in> set xs"
  shows "\<exists>r \<in> set (skills s). sk_slug r = xs_skill x \<and> skillIdBySlug xs s (xs_skill x) = Some (sk_id r)"
proof -
  let ?m = "rev (map (\<lambda>r. (sk_slug r, sk_id r)) (filter (\<lambda>r. sk_slug r \<in> set (map xs_skill xs)) (skills s)))"
  obtain r where "r \<in> set (skills s)" "sk_slug r = xs_skill x" using assms(1) by (auto simp: known_slugs_def)
  then have "(xs_skill x, sk_id r) \<in> set ?m" using assms(2) by (force simp: image_iff)
  from weak_map_of_SomeI [OF this] obtain k where k: "map_of ?m (xs_skill x) = Some k" by blast
  then show ?thesis using map_of_SomeD [OF k] by (auto simp: skillIdBySlug_def)
qed

lemma skill_ids_distinct:
  assumes "\<forall>x \<in> set xs. xs_skill x \<in> known_slugs s" and "distinct (map sk_id (skills s))"
  shows "None \<notin> set (map (\<lambda>x. skillIdBySlug xs s (xs_skill x)) xs)"
    "distinct (map (\<lambda>x. skillIdBySlug xs s (xs_skill x)) xs) \<longleftrightarrow> distinct (map xs_skill xs)"
proof -
  have some: "\<exists>r \<in> set (skills s). sk_slug r = xs_skill x \<and> skillIdBySlug xs s (xs_skill x) = Some (sk_id r)" if "x \<in> set xs" for x
    using skillIdBySlug_known [OF _ that] assms(1) that by blast
  then show "None \<notin> set (map (\<lambda>x. skillIdBySlug xs s (xs_skill x)) xs)" by fastforce
  have inj: "inj_on (skillIdBySlug xs s) (xs_skill ` set xs)"
  proof (rule inj_onI, clarify)
    fix x y assume "x \<in> set xs" "y \<in> set xs" and eq: "skillIdBySlug xs s (xs_skill x) = skillIdBySlug xs s (xs_skill y)"
    then obtain p q where "p \<in> set (skills s)" "sk_slug p = xs_skill x" "skillIdBySlug xs s (xs_skill x) = Some (sk_id p)"
      "q \<in> set (skills s)" "sk_slug q = xs_skill y" "skillIdBySlug xs s (xs_skill y) = Some (sk_id q)" using some by blast
    then show "xs_skill x = xs_skill y" using eq assms(2) by (metis distinct_map inj_onD option.inject)
  qed
  then show "distinct (map (\<lambda>x. skillIdBySlug xs s (xs_skill x)) xs) \<longleftrightarrow> distinct (map xs_skill xs)"
    using distinct_map [of "skillIdBySlug xs s" "map xs_skill xs"] by (simp add: comp_def)
qed

text \<open>C26. The lint makes publishing safe: a specification that fails it is rejected before anything is written;
  one that passes is published exactly when its version number is the next one and it names no skill
  and no topic twice, because the lint has already excluded unknown skills and (through the schema) a
  specification without skills.\<close>

theorem lint_then_publish:
  assumes "content_ok s" and "fresh_ids aid vid s" and "distinct (map sk_id (skills s))"
    and "ax_parseYaml ax yaml = Inr spec" and "ax_schema ax spec = [] \<Longrightarrow> au_skills spec \<noteq> []"
    and "input = \<lparr>pi_tenantId = cm_tenantId auth, pi_activitySlug = au_id spec, pi_mode = au_mode spec, pi_spec = spec, pi_publishedBy = Some (cm_userId auth)\<rparr>"
  shows "if lr_valid (lint (ax_schema ax) spec (known_slugs s))
    then (if au_version spec = int (next_version input s) \<and> distinct (map xs_skill (au_skills spec)) \<and> distinct (map at_topic_id (topic_bindings_of [] spec s))
          then \<exists>row. publishSpec ax auth yaml aid vid now s = (Inr row, with_version aid vid input V_PUBLISHED now s) \<and> v_status row = V_PUBLISHED
          else \<exists>e. publishSpec ax auth yaml aid vid now s = (Inl e, s))
    else publishSpec ax auth yaml aid vid now s = (Inl (BadRequest ''lint failed''), s)"
proof (cases "lr_valid (lint (ax_schema ax) spec (known_slugs s))")
  case True
  note v = lint_valid [OF True]
  have sp: "pi_spec input = spec" using assms(6) by simp
  have "publishable input s \<longleftrightarrow> au_version spec = int (next_version input s) \<and> distinct (map xs_skill (au_skills spec)) \<and> distinct (map at_topic_id (topic_bindings_of [] spec s))"
    using skill_ids_distinct [OF v(2) assms(3)] assms(5) [OF v(1)] unfolding publishable_def sp Let_def by blast
  moreover have "publishSpec ax auth yaml aid vid now s = publishNewVersion aid vid input now s"
    using True by (simp add: publishSpec_def bnd_run lintAndParse_run assms(4,6))
  moreover have "v_status (version_row vid a n input V_PUBLISHED now) = V_PUBLISHED" for a n by (simp add: version_row_def)
  ultimately show ?thesis using True publish_run [OF assms(1,2), of input V_PUBLISHED now] by (auto simp: publishNewVersion_def)
next
  case False
  then show ?thesis by (simp add: publishSpec_def bnd_run lintAndParse_run assms(4))
qed

section \<open>Witnesses and findings\<close>

definition demo_admin :: admin_env where
  "demo_admin = \<lparr>ax_verify = (\<lambda>t. Some \<lparr>jw_userId = Some ''u'', jw_tenantId = Some ''t'', jw_role = Some t\<rparr>),
     ax_parseYaml = (\<lambda>y. Inr demo_authored), ax_schema = (\<lambda>sp. [])\<rparr>"

definition demo_auth :: "role \<Rightarrow> auth_claims" where
  "demo_auth r = \<lparr>cm_userId = ''u'', cm_tenantId = ''t'', cm_role = r\<rparr>"

lemma demo_token: "token_claims (ax_verify demo_admin) (Some (''Bearer '' @ role_str r)) = Some (demo_auth r)"
  by (cases r) (simp_all add: token_claims_def demo_admin_def demo_auth_def truthy_def isRole_def ROLE_VALUES_def)

lemma demo_parse: "ax_parseYaml demo_admin y = Inr demo_authored" "au_id demo_authored = ''lab''" "au_mode demo_authored = ''GUIDED_LAB''"
  by (simp_all add: demo_admin_def demo_authored_def)

lemma demo_lint: "lr_valid (lint (ax_schema demo_admin) demo_authored (known_slugs demo_content))"
  by (simp add: lint_def demo_admin_def demo_authored_def known_slugs_def demo_content_def demo_skill_row_def)

theorem lint_then_publish_witness:
  "\<exists>row. fst (publishSpec demo_admin (demo_auth ROLE_AUTHOR) [] ''a'' ''v'' 5 demo_content) = Inr row \<and> v_status row = V_PUBLISHED"
proof -
  let ?i = "\<lparr>pi_tenantId = ''t'', pi_activitySlug = ''lab'', pi_mode = ''GUIDED_LAB'', pi_spec = demo_authored, pi_publishedBy = Some ''u''\<rparr>"
  have "distinct (map sk_id (skills demo_content))" "ax_parseYaml demo_admin [] = Inr demo_authored" "au_skills demo_authored \<noteq> []"
    "?i = \<lparr>pi_tenantId = cm_tenantId (demo_auth ROLE_AUTHOR), pi_activitySlug = au_id demo_authored, pi_mode = au_mode demo_authored,
       pi_spec = demo_authored, pi_publishedBy = Some (cm_userId (demo_auth ROLE_AUTHOR))\<rparr>"
    by (simp_all add: demo_content_def demo_admin_def demo_authored_def demo_auth_def)
  from lint_then_publish [OF demo_content_ok this(1,2) _ this(4), of 5] this(3) demo_lint
  have "if au_version demo_authored = int (next_version ?i demo_content) \<and> distinct (map xs_skill (au_skills demo_authored)) \<and>
       distinct (map at_topic_id (topic_bindings_of [] demo_authored demo_content))
    then \<exists>row. publishSpec demo_admin (demo_auth ROLE_AUTHOR) [] ''a'' ''v'' 5 demo_content = (Inr row, with_version ''a'' ''v'' ?i V_PUBLISHED 5 demo_content) \<and> v_status row = V_PUBLISHED
    else \<exists>e. publishSpec demo_admin (demo_auth ROLE_AUTHOR) [] ''a'' ''v'' 5 demo_content = (Inl e, demo_content)" by simp
  moreover have "au_version demo_authored = int (next_version ?i demo_content)" "distinct (map xs_skill (au_skills demo_authored))"
    by (simp_all add: demo_authored_def next_version_def find_activity_def demo_content_def empty_db_def)
  moreover have "distinct (map at_topic_id (topic_bindings_of [] demo_authored demo_content))"
    using demo_publishable [of "''t''"] by (simp add: publishable_def demo_publish_def)
  ultimately show ?thesis by auto
qed

theorem content_roles_witness:
  "version_status ''v'' (snd (handle_admin demo_admin (Some (''Bearer '' @ ''author'')) (PublishApproved ''v'') ''b'' ''w'' 7 demo_drafted)) \<in> {Some V_DRAFT, Some V_IN_REVIEW}"
proof -
  let ?t = "snd (handle_admin demo_admin (Some (''Bearer '' @ ''author'')) (PublishApproved ''v'') ''b'' ''w'' 7 demo_drafted)"
  have ids: "fresh_ids ''b'' ''w'' demo_drafted"
    by (simp add: fresh_ids_def demo_versions version_row_def) (simp add: demo_drafted_def with_version_def demo_content_def empty_db_def activity_for_def find_activity_def)
  have "admin_step demo_admin (\<lambda>r. r \<noteq> ROLE_ADMIN) demo_drafted ?t"
  proof (rule request [OF ids])
    show "cm_role c \<noteq> ROLE_ADMIN" if "token_claims (ax_verify demo_admin) (Some (''Bearer '' @ ''author'')) = Some c" for c
      using that demo_token [of ROLE_AUTHOR] by (auto simp: demo_auth_def)
  qed (rule prod.collapse [symmetric])
  then have run: "(admin_step demo_admin (\<lambda>r. r \<noteq> ROLE_ADMIN))\<^sup>*\<^sup>* demo_drafted ?t" by (rule r_into_rtranclp)
  have "version_status ''v'' demo_drafted \<in> {Some V_DRAFT, Some V_IN_REVIEW}" by (simp add: version_status_def demo_versions version_row_def)
  with content_roles [of demo_drafted demo_admin ?t "''v''"] demo_catalog_ok(1) run show ?thesis by blast
qed

text \<open>The direct publish route is open to authors, so content does not need a second person.\<close>

lemma author_publishes_alone:
  "\<exists>row. fst (handle_admin demo_admin (Some (''Bearer '' @ ''author'')) (PublishSpec []) ''a'' ''v'' 5 demo_content) = Inr (VersionResponse row) \<and> v_status row = V_PUBLISHED"
proof -
  obtain row t where "publishNewVersion ''a'' ''v'' \<lparr>pi_tenantId = ''t'', pi_activitySlug = ''lab'', pi_mode = ''GUIDED_LAB'', pi_spec = demo_authored, pi_publishedBy = Some ''u''\<rparr> 5 demo_content
      = (Inr row, t)" "v_status row = V_PUBLISHED"
    using publish_run [OF demo_content_ok, of "\<lparr>pi_tenantId = ''t'', pi_activitySlug = ''lab'', pi_mode = ''GUIDED_LAB'', pi_spec = demo_authored, pi_publishedBy = Some ''u''\<rparr>" V_PUBLISHED 5]
      demo_publishable [of "''t''"]
    by (auto simp: publishNewVersion_def publishable_def demo_publish_def next_version_def version_row_def)
  then show ?thesis
    using demo_token [of ROLE_AUTHOR] demo_lint
    by (simp add: handle_run publishSpec_def bnd_run lintAndParse_run demo_parse) (simp add: demo_auth_def)
qed

text \<open>A review decision does not look at the tenant of the version or of the reviewer.\<close>

lemma review_across_tenants:
  "reviewDecision (c\<lparr>cm_tenantId := x\<rparr>) i d now = reviewDecision c i d now" "publishApprovedVersion (c\<lparr>cm_tenantId := x\<rparr>) i now = publishApprovedVersion c i now"
  by (simp_all add: reviewDecision_def publishApprovedVersion_def)

end
