(* ===== verification/Recommendation.thy ===== *)
theory Recommendation
  imports Catalog Eligibility
begin

text \<open>
  \<open>recommendation/recommendation.service.ts\<close>: five sources propose published activities of the tenant,
  a map keyed by version keeps one proposal per version (the one with the higher raw urgency), the
  eligibility service filters, the source weights re-rank, and the first \<open>limit\<close> are stored and
  returned. A query with joins is a composition of \<open>inner_join\<close>, \<open>left_join\<close> and filters on the tables;
  where the statement has no \<open>ORDER BY\<close>, the model returns the rows in the order of the tables.
\<close>

section \<open>Model\<close>

datatype recommendation_reason = CURRICULUM_ADJACENT | REMEDIATION | SPACED_REPETITION | PROGRESSION | UNBLOCKING

fun reason_str :: "recommendation_reason \<Rightarrow> string" where
  "reason_str CURRICULUM_ADJACENT = ''CURRICULUM_ADJACENT''"
| "reason_str REMEDIATION = ''REMEDIATION''"
| "reason_str SPACED_REPETITION = ''SPACED_REPETITION''"
| "reason_str PROGRESSION = ''PROGRESSION''"
| "reason_str UNBLOCKING = ''UNBLOCKING''"

record recommendation =
  rm_activityId :: string
  rm_activityVersionId :: string
  rm_slug :: string
  rm_score :: real
  rm_reasonCode :: recommendation_reason
  rm_reasonParams :: json

fun SOURCE_WEIGHT :: "recommendation_reason \<Rightarrow> real" where
  "SOURCE_WEIGHT REMEDIATION = 1"
| "SOURCE_WEIGHT UNBLOCKING = 95/100"
| "SOURCE_WEIGHT CURRICULUM_ADJACENT = 8/10"
| "SOURCE_WEIGHT PROGRESSION = 7/10"
| "SOURCE_WEIGHT SPACED_REPETITION = 6/10"

type_synonym candidates = "(string \<times> recommendation) list"

text \<open>\<open>if (!existing || existing.score < score) candidates.set(...)\<close>.\<close>

definition offer :: "recommendation \<Rightarrow> candidates \<Rightarrow> candidates" where
  "offer r m = (case map_of m (rm_activityVersionId r) of
     None \<Rightarrow> amap_set (rm_activityVersionId r) r m
   | Some existing \<Rightarrow> if rm_score existing < rm_score r then amap_set (rm_activityVersionId r) r m else m)"

definition proposal :: "activity_version_row \<times> activity_row \<Rightarrow> real \<Rightarrow> recommendation_reason \<Rightarrow> json \<Rightarrow> recommendation" where
  "proposal va sc why ps = \<lparr>rm_activityId = ac_id (snd va), rm_activityVersionId = v_id (fst va), rm_slug = ac_slug (snd va),
     rm_score = sc, rm_reasonCode = why, rm_reasonParams = ps\<rparr>"

definition attempted_ids :: "string \<Rightarrow> db \<Rightarrow> string list" where
  "attempted_ids userId s = uniq (map a_activity_id (filter (\<lambda>a. a_user_id a = userId) (attempts s)))"

text \<open>Published versions of the tenant that list a skill, with the binding.\<close>

definition skill_versions :: "string \<Rightarrow> string \<Rightarrow> db \<Rightarrow> (activity_skill_row \<times> activity_version_row \<times> activity_row) list" where
  "skill_versions tenantId skillId s = filter (\<lambda>(x, _). ask_skill_id x = skillId)
     (publishedActivityVersionsQuery tenantId (\<lambda>(x, av, a). a) (\<lambda>(x, av, a). av)
       (inner_join (\<lambda>x (av, a). v_id av = ask_activity_version_id x) (activity_skills s) (versions_with_activity s)))"

definition topic_rows :: "string \<Rightarrow> db \<Rightarrow> ((activity_topic_row \<times> activity_version_row \<times> activity_row) \<times> topic_row) list" where
  "topic_rows tenantId s = publishedActivityVersionsQuery tenantId (\<lambda>((x, av, a), t). a) (\<lambda>((x, av, a), t). av)
     (inner_join (\<lambda>(x, av, a) t. tp_id t = at_topic_id x)
       (inner_join (\<lambda>x (av, a). v_id av = at_activity_version_id x) (activity_topics s) (versions_with_activity s)) (topics s))"

definition relevant_topics :: "string \<Rightarrow> db \<Rightarrow> string list" where
  "relevant_topics userId s =
     (let attempted = attempted_ids userId s;
          attemptedVersions = map v_id (filter (\<lambda>v. v_activity_id v \<in> set attempted) (versions s));
          topicIds = (if length attempted > 0
            then uniq (map at_topic_id (filter (\<lambda>x. at_activity_version_id x \<in> set attemptedVersions) (activity_topics s))) else [])
      in if length topicIds > 0 then topicIds else map tp_id (take 5 (topics s)))"

definition curriculum_offers :: "string \<Rightarrow> string \<Rightarrow> db \<Rightarrow> recommendation list" where
  "curriculum_offers userId tenantId s =
     (let attempted = attempted_ids userId s;
          relevant = relevant_topics userId s;
          excluded = (if length attempted > 0 then attempted else [''00000000-0000-0000-0000-000000000000''])
      in if length relevant = 0 then []
         else map (\<lambda>((x, av, a), t). proposal (av, a) (5/10 + at_relevance x * (3/10)) CURRICULUM_ADJACENT (JObj [(''topic'', JStr (tp_title t))]))
           (filter (\<lambda>((x, av, a), t). at_topic_id x \<in> set relevant \<and> ac_id a \<notin> set excluded) (topic_rows tenantId s)))"

definition addCurriculumAdjacentCandidates :: "string \<Rightarrow> string \<Rightarrow> db \<Rightarrow> candidates \<Rightarrow> candidates" where
  "addCurriculumAdjacentCandidates userId tenantId s candidates = fold offer (curriculum_offers userId tenantId s) candidates"

subsection \<open>Remediation\<close>

definition strugglingSkills :: "string \<Rightarrow> time \<Rightarrow> db \<Rightarrow> (string \<times> real) list" where
  "strugglingSkills userId now s =
     uniq (map (\<lambda>((a, x), m). (ask_skill_id x, sm_p_mastery m))
       (filter (\<lambda>((a, x), m). a_user_id a = userId \<and> sm_user_id m = userId \<and> a_status a = FAILED \<and>
            a_created_at a \<ge> now - 30 * 24 * 60 * 60 * 1000 \<and> ask_is_primary x \<and> sm_p_mastery m < REQUIRES_GATE_THRESHOLD)
         (inner_join (\<lambda>(a, x) m. sm_skill_id m = ask_skill_id x)
           (inner_join (\<lambda>a x. ask_activity_version_id x = a_activity_version_id a) (attempts s) (activity_skills s)) (masteries s))))"

definition level_in :: "string list \<Rightarrow> activity_version_row \<Rightarrow> bool" where
  "level_in ls v \<longleftrightarrow> (case v_difficulty_level v of None \<Rightarrow> False | Some l \<Rightarrow> l \<in> set ls)"

definition unmastered_ancestors :: "string \<Rightarrow> string \<Rightarrow> db \<Rightarrow> (string \<times> real option) list" where
  "unmastered_ancestors userId skillId s =
     map (\<lambda>(c, m). (cl_ancestor c, map_option sm_p_mastery m))
       (filter (\<lambda>(c, m). cl_descendant c = skillId \<and> cl_ancestor c \<noteq> skillId \<and>
            (case m of None \<Rightarrow> True | Some m \<Rightarrow> sm_p_mastery m < REQUIRES_GATE_THRESHOLD))
         (left_join (\<lambda>c m. sm_skill_id m = cl_ancestor c \<and> sm_user_id m = userId) (skill_closure s) (masteries s)))"

text \<open>\<open>ORDER BY difficulty_level ASC LIMIT 1\<close> among levels \<open>L1\<close> and \<open>L2\<close>.\<close>

definition easiest :: "string \<Rightarrow> string \<Rightarrow> db \<Rightarrow> (activity_skill_row \<times> activity_version_row \<times> activity_row) list" where
  "easiest tenantId skillId s = take 1 (sort_key (\<lambda>(x, av, a). if v_difficulty_level av = Some ''L1'' then 0 else 1 :: nat)
     (filter (\<lambda>(x, av, a). level_in [''L1'', ''L2''] av) (skill_versions tenantId skillId s)))"

definition ancestor_offers :: "string \<Rightarrow> string \<Rightarrow> db \<Rightarrow> string \<Rightarrow> recommendation list" where
  "ancestor_offers userId tenantId s skillId =
     concat (map (\<lambda>(anc, mastery).
       map (\<lambda>(x, av, a). proposal (av, a) (65/100) REMEDIATION (JObj [(''blocked_skill_id'', JStr skillId), (''prerequisite_skill_id'', JStr anc),
            (''prerequisite_mastery'', case mastery of None \<Rightarrow> JNull | Some p \<Rightarrow> JNum p)]))
         (easiest tenantId anc s)) (unmastered_ancestors userId skillId s))"

definition remediation_offers :: "string \<Rightarrow> string \<Rightarrow> time \<Rightarrow> db \<Rightarrow> recommendation list" where
  "remediation_offers userId tenantId now s =
     concat (map (\<lambda>(skillId, p).
       map (\<lambda>(x, av, a). proposal (av, a) (7/10 + (REQUIRES_GATE_THRESHOLD - p)) REMEDIATION (JObj [(''mastery'', JNum p), (''skill_id'', JStr skillId)]))
         (filter (\<lambda>(x, av, a). level_in [''L1'', ''L2''] av) (skill_versions tenantId skillId s)) @
       ancestor_offers userId tenantId s skillId) (strugglingSkills userId now s))"

definition addRemediationCandidates :: "string \<Rightarrow> string \<Rightarrow> time \<Rightarrow> db \<Rightarrow> candidates \<Rightarrow> candidates" where
  "addRemediationCandidates userId tenantId now s candidates = fold offer (remediation_offers userId tenantId now s) candidates"

subsection \<open>Spaced repetition, progression and unblocking\<close>

fun band_str :: "mastery_band \<Rightarrow> string" where
  "band_str Novice = ''Novice''"
| "band_str Developing = ''Developing''"
| "band_str Competent = ''Competent''"
| "band_str Proficient = ''Proficient''"
| "band_str Mastered = ''Mastered''"

definition band_json :: "mastery_band option \<Rightarrow> json" where
  "band_json b = (case b of None \<Rightarrow> JNull | Some x \<Rightarrow> JStr (band_str x))"

definition due_skills :: "string \<Rightarrow> time \<Rightarrow> db \<Rightarrow> skill_mastery_row list" where
  "due_skills userId now s = filter (\<lambda>m. sm_user_id m = userId \<and> (case sm_review_due_at m of None \<Rightarrow> False | Some t \<Rightarrow> t \<le> now)) (masteries s)"

definition repetition_offers :: "string \<Rightarrow> string \<Rightarrow> time \<Rightarrow> db \<Rightarrow> recommendation list" where
  "repetition_offers userId tenantId now s =
     concat (map (\<lambda>m. map (\<lambda>(x, av, a). proposal (av, a) (55/100) SPACED_REPETITION (JObj [(''skill_id'', JStr (sm_skill_id m)),
          (''band'', band_json (sm_band m)), (''review_due_at'', case sm_review_due_at m of None \<Rightarrow> JNull | Some t \<Rightarrow> JNum (of_int t))]))
       (filter (\<lambda>(x, _). ask_is_primary x) (skill_versions tenantId (sm_skill_id m) s))) (due_skills userId now s))"

definition addSpacedRepetitionCandidates :: "string \<Rightarrow> string \<Rightarrow> time \<Rightarrow> db \<Rightarrow> candidates \<Rightarrow> candidates" where
  "addSpacedRepetitionCandidates userId tenantId now s candidates = fold offer (repetition_offers userId tenantId now s) candidates"

definition strong_skills :: "string \<Rightarrow> db \<Rightarrow> skill_mastery_row list" where
  "strong_skills userId s = filter (\<lambda>m. sm_user_id m = userId \<and> sm_band m \<in> {Some Proficient, Some Mastered}) (masteries s)"

definition targetLevels :: "skill_mastery_row \<Rightarrow> string list" where
  "targetLevels m = (if sm_band m = Some Mastered then [''L4'', ''L5''] else [''L3'', ''L4''])"

definition progression_offers :: "string \<Rightarrow> string \<Rightarrow> db \<Rightarrow> recommendation list" where
  "progression_offers userId tenantId s =
     concat (map (\<lambda>m. map (\<lambda>(x, av, a). proposal (av, a) (6/10) PROGRESSION (JObj [(''skill_id'', JStr (sm_skill_id m)),
          (''band'', band_json (sm_band m)), (''next_level'', case v_difficulty_level av of None \<Rightarrow> JNull | Some l \<Rightarrow> JStr l)]))
       (filter (\<lambda>(x, av, a). ac_id a \<notin> set (attempted_ids userId s))
         (filter (\<lambda>(x, av, a). level_in (targetLevels m) av) (skill_versions tenantId (sm_skill_id m) s)))) (strong_skills userId s))"

definition addProgressionCandidates :: "string \<Rightarrow> string \<Rightarrow> db \<Rightarrow> candidates \<Rightarrow> candidates" where
  "addProgressionCandidates userId tenantId s candidates = fold offer (progression_offers userId tenantId s) candidates"

definition weakSkillIds :: "string \<Rightarrow> db \<Rightarrow> string list" where
  "weakSkillIds userId s = uniq (map sm_skill_id (filter (\<lambda>m. sm_user_id m = userId \<and> sm_p_mastery m < REQUIRES_GATE_THRESHOLD) (masteries s)))"

definition unblocks_of :: "string \<Rightarrow> db \<Rightarrow> nat" where
  "unblocks_of skillId s = length (filter (\<lambda>c. cl_ancestor c = skillId) (skill_closure s))"

definition unblocking_offers :: "string \<Rightarrow> string \<Rightarrow> db \<Rightarrow> recommendation list" where
  "unblocking_offers userId tenantId s =
     concat (map (\<lambda>skillId.
       if unblocks_of skillId s = 0 then []
       else map (\<lambda>(x, av, a). proposal (av, a) (min (6/10 + real (unblocks_of skillId s) * (5/100)) (95/100)) UNBLOCKING
              (JObj [(''prerequisite_skill_id'', JStr skillId), (''unblocks'', JNum (real (unblocks_of skillId s)))]))
         (filter (\<lambda>(x, _). ask_is_primary x) (skill_versions tenantId skillId s))) (weakSkillIds userId s))"

definition addUnblockingCandidates :: "string \<Rightarrow> string \<Rightarrow> db \<Rightarrow> candidates \<Rightarrow> candidates" where
  "addUnblockingCandidates userId tenantId s candidates = fold offer (unblocking_offers userId tenantId s) candidates"

subsection \<open>The pipeline\<close>

definition gather :: "string \<Rightarrow> string \<Rightarrow> time \<Rightarrow> db \<Rightarrow> candidates" where
  "gather userId tenantId now s =
     addUnblockingCandidates userId tenantId s
     (addProgressionCandidates userId tenantId s
     (addSpacedRepetitionCandidates userId tenantId now s
     (addRemediationCandidates userId tenantId now s
     (addCurriculumAdjacentCandidates userId tenantId s []))))"

definition weigh_source :: "recommendation \<Rightarrow> recommendation" where
  "weigh_source r = r\<lparr>rm_score := rm_score r * SOURCE_WEIGHT (rm_reasonCode r)\<rparr>"

definition ranked :: "bool \<Rightarrow> string \<Rightarrow> string \<Rightarrow> time \<Rightarrow> db \<Rightarrow> recommendation list" where
  "ranked quotaDisabled userId tenantId now s =
     sort_key (\<lambda>r. - rm_score r) (map weigh_source
       (filter (\<lambda>c. el_eligible (check quotaDisabled userId (rm_activityVersionId c) now s)) (map snd (gather userId tenantId now s))))"

definition stored :: "string \<Rightarrow> recommendation \<Rightarrow> recommendation_row" where
  "stored userId r = \<lparr>rc_user_id = userId, rc_activity_id = rm_activityId r, rc_score = rm_score r, rc_reason_code = reason_str (rm_reasonCode r),
     rc_reason_params = rm_reasonParams r, rc_ranker_version = ''rules-v2''\<rparr>"

definition recommend :: "bool \<Rightarrow> string \<Rightarrow> string \<Rightarrow> nat \<Rightarrow> time \<Rightarrow> recommendation list prog" where
  "recommend quotaDisabled userId tenantId limit now =
     bnd (query (\<lambda>s. take limit (ranked quotaDisabled userId tenantId now s))) (\<lambda>top.
     andthen (when_io (length top > 0) (modify (\<lambda>s. s\<lparr>recommendations := recommendations s @ map (stored userId) top\<rparr>)))
     (ret top))"

section \<open>Candidates\<close>

text \<open>One proposal per version, each satisfying \<open>P\<close>.\<close>

definition cand_ok :: "(recommendation \<Rightarrow> bool) \<Rightarrow> candidates \<Rightarrow> bool" where
  "cand_ok P m \<longleftrightarrow> distinct (map fst m) \<and> (\<forall>(k, r) \<in> set m. rm_activityVersionId r = k \<and> P r)"

lemma set_amap_set: "set (amap_set k v m) \<subseteq> insert (k, v) (set m)"
  by (induction k v m rule: amap_set.induct) auto

lemma offer_ok: "cand_ok P m \<Longrightarrow> P r \<Longrightarrow> cand_ok P (offer r m)"
  using set_amap_set [of "rm_activityVersionId r" r m] distinct_amap_set [of m "rm_activityVersionId r" r]
  by (auto simp: cand_ok_def offer_def split: option.splits)

lemma offers_ok: "list_all P rs \<Longrightarrow> cand_ok P m \<Longrightarrow> cand_ok P (fold offer rs m)"
  by (induction rs arbitrary: m) (simp_all add: offer_ok)

text \<open>The proposal kept for a version has the highest raw urgency that any source gave it.\<close>

definition covers :: "candidates \<Rightarrow> recommendation \<Rightarrow> bool" where
  "covers m r \<longleftrightarrow> (\<exists>e. map_of m (rm_activityVersionId r) = Some e \<and> rm_score r \<le> rm_score e)"

lemma offer_covers: "covers (offer r m) r" "covers m q \<Longrightarrow> covers (offer r m) q"
  by (auto simp: covers_def offer_def split: option.splits)

lemma offers_cover: "r \<in> set rs \<or> covers m r \<Longrightarrow> covers (fold offer rs m) r"
  by (induction rs arbitrary: m) (auto intro: offer_covers)

section \<open>The sources\<close>

lemma inner_join_iff: "(x, y) \<in> set (inner_join on xs ys) \<longleftrightarrow> x \<in> set xs \<and> y \<in> set ys \<and> on x y"
  by (auto simp: inner_join_def)

lemma versions_with_activity_iff:
  "(av, a) \<in> set (versions_with_activity s) \<longleftrightarrow> av \<in> set (versions s) \<and> a \<in> set (activities s) \<and> ac_id a = v_activity_id av"
  by (simp add: versions_with_activity_def inner_join_iff)

lemma skill_versions_iff:
  "(x, av, a) \<in> set (skill_versions tenant k s) \<longleftrightarrow> x \<in> set (activity_skills s) \<and> ask_skill_id x = k \<and> ask_activity_version_id x = v_id av \<and>
     av \<in> set (versions s) \<and> v_status av = V_PUBLISHED \<and> a \<in> set (activities s) \<and> ac_id a = v_activity_id av \<and> ac_tenant_id a = tenant"
  by (auto simp: skill_versions_def publishedActivityVersionsQuery_def inner_join_iff versions_with_activity_iff)

text \<open>What every recommendation refers to, and what its reason claims.\<close>

definition offered :: "string \<Rightarrow> db \<Rightarrow> recommendation \<Rightarrow> activity_version_row \<Rightarrow> bool" where
  "offered tenant s r av \<longleftrightarrow> av \<in> set (versions s) \<and> v_id av = rm_activityVersionId r \<and> v_activity_id av = rm_activityId r \<and> v_status av = V_PUBLISHED \<and>
     (\<exists>a \<in> set (activities s). ac_id a = rm_activityId r \<and> ac_slug a = rm_slug r \<and> ac_tenant_id a = tenant)"

definition lists_skill :: "db \<Rightarrow> activity_version_row \<Rightarrow> string \<Rightarrow> bool \<Rightarrow> bool" where
  "lists_skill s av k primary \<longleftrightarrow> (\<exists>x \<in> set (activity_skills s). ask_activity_version_id x = v_id av \<and> ask_skill_id x = k \<and> (primary \<longrightarrow> ask_is_primary x))"

definition attempted :: "string \<Rightarrow> db \<Rightarrow> string \<Rightarrow> bool" where
  "attempted u s act \<longleftrightarrow> (\<exists>a \<in> set (attempts s). a_user_id a = u \<and> a_activity_id a = act)"

definition weak :: "string \<Rightarrow> db \<Rightarrow> string \<Rightarrow> bool" where
  "weak u s k \<longleftrightarrow> (\<exists>m \<in> set (masteries s). sm_user_id m = u \<and> sm_skill_id m = k \<and> sm_p_mastery m < REQUIRES_GATE_THRESHOLD)"

definition struggles :: "string \<Rightarrow> time \<Rightarrow> db \<Rightarrow> string \<Rightarrow> bool" where
  "struggles u now s k \<longleftrightarrow> weak u s k \<and> (\<exists>a \<in> set (attempts s). a_user_id a = u \<and> a_status a = FAILED \<and> a_created_at a \<ge> now - 30 * 24 * 60 * 60 * 1000 \<and>
     (\<exists>x \<in> set (activity_skills s). ask_activity_version_id x = a_activity_version_id a \<and> ask_skill_id x = k \<and> ask_is_primary x))"

definition below :: "db \<Rightarrow> string \<Rightarrow> string \<Rightarrow> bool" where
  "below s anc k \<longleftrightarrow> (\<exists>c \<in> set (skill_closure s). cl_ancestor c = anc \<and> cl_descendant c = k)"

fun claim_holds :: "string \<Rightarrow> time \<Rightarrow> db \<Rightarrow> recommendation_reason \<Rightarrow> activity_version_row \<Rightarrow> bool" where
  "claim_holds u now s CURRICULUM_ADJACENT av \<longleftrightarrow> \<not> attempted u s (v_activity_id av) \<and>
     (\<exists>x \<in> set (activity_topics s). at_activity_version_id x = v_id av \<and> at_topic_id x \<in> set (relevant_topics u s))"
| "claim_holds u now s REMEDIATION av \<longleftrightarrow> level_in [''L1'', ''L2''] av \<and>
     (\<exists>k. struggles u now s k \<and> (\<exists>k'. lists_skill s av k' False \<and> (k' = k \<or> below s k' k)))"
| "claim_holds u now s SPACED_REPETITION av \<longleftrightarrow>
     (\<exists>m \<in> set (masteries s). sm_user_id m = u \<and> (\<exists>t. sm_review_due_at m = Some t \<and> t \<le> now) \<and> lists_skill s av (sm_skill_id m) True)"
| "claim_holds u now s PROGRESSION av \<longleftrightarrow> \<not> attempted u s (v_activity_id av) \<and>
     (\<exists>m \<in> set (masteries s). sm_user_id m = u \<and> sm_band m \<in> {Some Proficient, Some Mastered} \<and> level_in (targetLevels m) av \<and> lists_skill s av (sm_skill_id m) False)"
| "claim_holds u now s UNBLOCKING av \<longleftrightarrow> (\<exists>k. weak u s k \<and> lists_skill s av k True \<and> (\<exists>d. below s k d))"

definition justified :: "string \<Rightarrow> string \<Rightarrow> time \<Rightarrow> db \<Rightarrow> recommendation \<Rightarrow> bool" where
  "justified u tenant now s r \<longleftrightarrow> (\<exists>av. offered tenant s r av \<and> claim_holds u now s (rm_reasonCode r) av)"

lemma attempted_iff: "act \<in> set (attempted_ids u s) \<longleftrightarrow> attempted u s act"
  by (auto simp: attempted_ids_def attempted_def)

lemma proposal_justified:
  assumes "av \<in> set (versions s)" "v_status av = V_PUBLISHED" "a \<in> set (activities s)" "ac_id a = v_activity_id av" "ac_tenant_id a = tenant"
    and "claim_holds u now s why av"
  shows "justified u tenant now s (proposal (av, a) sc why ps)"
  using assms by (auto simp: justified_def offered_def proposal_def)

lemma curriculum_justified: "list_all (justified u tenant now s) (curriculum_offers u tenant s)"
proof -
  have ok: "justified u tenant now s (proposal (av, a) sc CURRICULUM_ADJACENT ps)"
    if "((x, av, a), t) \<in> set (topic_rows tenant s)" "at_topic_id x \<in> set (relevant_topics u s)" "\<not> attempted u s (ac_id a)" for x av a t sc ps
    using that by (intro proposal_justified) (auto simp: topic_rows_def publishedActivityVersionsQuery_def inner_join_iff versions_with_activity_iff)
  have new: "\<not> attempted u s (ac_id a)" if "attempted_ids u s = [] \<or> ac_id a \<notin> set (attempted_ids u s)" for a
    using that by (auto simp: attempted_iff [symmetric])
  show ?thesis unfolding list_all_iff
  proof
    fix r assume "r \<in> set (curriculum_offers u tenant s)"
    then obtain x av a t sc ps where "r = proposal (av, a) sc CURRICULUM_ADJACENT ps" "((x, av, a), t) \<in> set (topic_rows tenant s)"
        "at_topic_id x \<in> set (relevant_topics u s)" "attempted_ids u s = [] \<or> ac_id a \<notin> set (attempted_ids u s)"
      by (auto simp: curriculum_offers_def Let_def split: if_splits)
    then show "justified u tenant now s r" using ok new by blast
  qed
qed

lemma struggling_iff: "(k, p) \<in> set (strugglingSkills u now s) \<Longrightarrow> struggles u now s k"
  by (auto simp: strugglingSkills_def inner_join_iff struggles_def weak_def) blast

lemma ancestors_below: "(anc, m) \<in> set (unmastered_ancestors u k s) \<Longrightarrow> below s anc k"
  by (auto simp: unmastered_ancestors_def left_join_iff below_def)

lemma skill_proposal:
  assumes "(x, av, a) \<in> set (skill_versions tenant k s)" and "claim_holds u now s why av"
  shows "justified u tenant now s (proposal (av, a) sc why ps)"
  using assms by (intro proposal_justified) (auto simp: skill_versions_iff)

lemma skill_versions_lists: "(x, av, a) \<in> set (skill_versions tenant k s) \<Longrightarrow> lists_skill s av k (ask_is_primary x)"
  by (auto simp: skill_versions_iff lists_skill_def)

lemma lists_skill_weaken: "lists_skill s av k b \<Longrightarrow> lists_skill s av k False"
  by (auto simp: lists_skill_def)

lemma remediation_justified: "list_all (justified u tenant now s) (remediation_offers u tenant now s)"
proof -
  have own: "justified u tenant now s (proposal (av, a) sc REMEDIATION ps)"
    if "struggles u now s k" "(x, av, a) \<in> set (skill_versions tenant k' s)" "level_in [''L1'', ''L2''] av" "k' = k \<or> below s k' k" for k k' x av a sc ps
    by (rule skill_proposal [OF that(2)]) (use that(1,3,4) lists_skill_weaken [OF skill_versions_lists [OF that(2)]] in auto)
  have easy: "(x, av, a) \<in> set (skill_versions tenant k s) \<and> level_in [''L1'', ''L2''] av" if "(x, av, a) \<in> set (easiest tenant k s)" for x av a k
    using that by (auto simp: easiest_def dest: in_set_takeD)
  have "list_all (justified u tenant now s) (ancestor_offers u tenant s k)" if "struggles u now s k" for k
    using easy ancestors_below own [OF that] by (fastforce simp: ancestor_offers_def list_all_iff)
  with own struggling_iff show ?thesis by (fastforce simp: remediation_offers_def list_all_iff)
qed

lemma repetition_justified: "list_all (justified u tenant now s) (repetition_offers u tenant now s)"
proof -
  have "justified u tenant now s (proposal (av, a) sc SPACED_REPETITION ps)"
    if "m \<in> set (due_skills u now s)" "(x, av, a) \<in> set (skill_versions tenant (sm_skill_id m) s)" "ask_is_primary x" for m x av a sc ps
    by (rule skill_proposal [OF that(2)])
       (use that(1,3) skill_versions_lists [OF that(2)] in \<open>auto simp: due_skills_def split: option.splits intro!: bexI [of _ m]\<close>)
  then show ?thesis by (auto simp: repetition_offers_def list_all_iff)
qed

lemma progression_justified: "list_all (justified u tenant now s) (progression_offers u tenant s)"
proof -
  have "justified u tenant now s (proposal (av, a) sc PROGRESSION ps)"
    if "m \<in> set (strong_skills u s)" "(x, av, a) \<in> set (skill_versions tenant (sm_skill_id m) s)" "level_in (targetLevels m) av" "ac_id a \<notin> set (attempted_ids u s)" for m x av a sc ps
    by (rule skill_proposal [OF that(2)])
       (use that lists_skill_weaken [OF skill_versions_lists [OF that(2)]] in \<open>auto simp: strong_skills_def attempted_iff skill_versions_iff intro!: bexI [of _ m]\<close>)
  then show ?thesis by (auto simp: progression_offers_def list_all_iff)
qed

lemma unblocking_justified: "list_all (justified u tenant now s) (unblocking_offers u tenant s)"
proof -
  have "justified u tenant now s (proposal (av, a) sc UNBLOCKING ps)"
    if "k \<in> set (weakSkillIds u s)" "(x, av, a) \<in> set (skill_versions tenant k s)" "ask_is_primary x" "unblocks_of k s \<noteq> 0" for k x av a sc ps
  proof (rule skill_proposal [OF that(2)])
    have "weak u s k" using that(1) by (auto simp: weakSkillIds_def weak_def)
    moreover have "\<exists>d. below s k d" using that(4) by (auto simp: unblocks_of_def below_def filter_empty_conv)
    ultimately show "claim_holds u now s UNBLOCKING av" using skill_versions_lists [OF that(2)] that(3) by auto
  qed
  then show ?thesis by (auto simp: unblocking_offers_def list_all_iff split: if_splits)
qed

lemmas sources_justified = curriculum_justified remediation_justified repetition_justified progression_justified unblocking_justified

lemma gather_ok: "cand_ok (justified u tenant now s) (gather u tenant now s)"
  unfolding gather_def addUnblockingCandidates_def addProgressionCandidates_def addSpacedRepetitionCandidates_def
    addRemediationCandidates_def addCurriculumAdjacentCandidates_def
  by (intro offers_ok sources_justified) (simp add: cand_ok_def)

section \<open>Properties\<close>

lemma weigh_source_sel [simp]:
  "rm_activityVersionId (weigh_source r) = rm_activityVersionId r" "justified u tenant now s (weigh_source r) = justified u tenant now s r"
  by (simp_all add: weigh_source_def justified_def offered_def)

lemma ranked_mem:
  "r \<in> set (ranked off u tenant now s) \<longleftrightarrow>
     (\<exists>c \<in> set (map snd (gather u tenant now s)). el_eligible (check off u (rm_activityVersionId c) now s) \<and> r = weigh_source c)"
  by (auto simp: ranked_def)

lemma ranked_sorted: "sorted_wrt (\<lambda>a b. rm_score b \<le> rm_score a) (ranked off u tenant now s)"
proof -
  have "sorted (map (\<lambda>r. - rm_score r) (ranked off u tenant now s))" by (simp add: ranked_def)
  then show ?thesis by (simp add: sorted_map)
qed

lemma distinct_map_sort: "distinct (map f (sort_key g xs)) \<longleftrightarrow> distinct (map f xs)"
  by (simp add: distinct_map)

lemma ranked_distinct: "distinct (map rm_activityVersionId (ranked off u tenant now s))"
proof -
  let ?g = "gather u tenant now s" and ?ok = "\<lambda>c. el_eligible (check off u (rm_activityVersionId c) now s)"
  have eq: "map rm_activityVersionId (map snd ?g) = map fst ?g" and d: "distinct (map fst ?g)"
    using gather_ok [of u tenant now s] by (auto simp: cand_ok_def)
  have "distinct (map rm_activityVersionId (map snd ?g))" unfolding eq by (rule d)
  then have "distinct (map rm_activityVersionId (filter ?ok (map snd ?g)))" by (rule distinct_map_filter)
  then have "distinct (map rm_activityVersionId (map weigh_source (filter ?ok (map snd ?g))))" by (simp add: comp_def)
  then show ?thesis unfolding ranked_def distinct_map_sort .
qed

lemma recommend_run:
  "recommend off u tenant limit now s = (Inr (take limit (ranked off u tenant now s)),
     s\<lparr>recommendations := recommendations s @ map (stored u) (take limit (ranked off u tenant now s))\<rparr>)"
  by (simp add: recommend_def bnd_run andthen_def)


text \<open>Property. The best ones are shown: whatever the five sources proposed, a version that the learner could start
  and that is not among the returned recommendations was pushed out by the limit, and none of the
  returned ones has a lower score than the one it would have had; and the proposal kept for a version
  is one with the highest urgency any source gave it.\<close>

theorem recommend_best:
  assumes "recommend off u tenant limit now s = (Inr recs, t)" and "c \<in> set (map snd (gather u tenant now s))"
    and "el_eligible (check off u (rm_activityVersionId c) now s)" and "rm_activityVersionId c \<notin> rm_activityVersionId ` set recs"
  shows "length recs = limit \<and> (\<forall>x \<in> set recs. rm_score c * SOURCE_WEIGHT (rm_reasonCode c) \<le> rm_score x) \<and>
    (\<forall>q \<in> set (curriculum_offers u tenant s @ remediation_offers u tenant now s @ repetition_offers u tenant now s @
        progression_offers u tenant s @ unblocking_offers u tenant s). rm_activityVersionId q = rm_activityVersionId c \<longrightarrow> rm_score q \<le> rm_score c)"
proof -
  let ?all = "ranked off u tenant now s"
  have recs: "recs = take limit ?all" using assms(1) by (simp add: recommend_run)
  have "weigh_source c \<in> set ?all" using assms(2,3) by (auto simp: ranked_mem)
  then have "weigh_source c \<in> set (drop limit ?all)"
    using assms(4) unfolding recs by (metis UnE append_take_drop_id imageI set_append weigh_source_sel(1))
  then have "length recs = limit" by (cases "length ?all \<le> limit") (simp_all add: recs)
  moreover have "rm_score (weigh_source c) \<le> rm_score x" if "x \<in> set recs" for x
    using ranked_sorted [of off u tenant now s] that \<open>weigh_source c \<in> set (drop limit ?all)\<close> unfolding recs
    by (metis append_take_drop_id sorted_wrt_append)
  moreover have "rm_score q \<le> rm_score c"
    if "q \<in> set (curriculum_offers u tenant s @ remediation_offers u tenant now s @ repetition_offers u tenant now s @
        progression_offers u tenant s @ unblocking_offers u tenant s)" "rm_activityVersionId q = rm_activityVersionId c" for q
  proof -
    have "covers (gather u tenant now s) q"
      using that(1) unfolding gather_def addUnblockingCandidates_def addProgressionCandidates_def addSpacedRepetitionCandidates_def
        addRemediationCandidates_def addCurriculumAdjacentCandidates_def by (auto intro!: offers_cover)
    moreover obtain k where k: "(k, c) \<in> set (gather u tenant now s)" using assms(2) by auto
    then have "map_of (gather u tenant now s) (rm_activityVersionId c) = Some c"
      using gather_ok [of u tenant now s] by (auto simp: cand_ok_def intro: map_of_is_SomeI)
    ultimately show ?thesis using that(2) by (auto simp: covers_def)
  qed
  ultimately show ?thesis by (simp add: weigh_source_def)
qed

section \<open>Witnesses and findings\<close>


text \<open>With a limit of zero the one eligible candidate of the example is pushed out.\<close>

definition demo_candidate :: recommendation where
  "demo_candidate = proposal (hd (versions demo_live), hd (activities demo_live)) (5/10 + 1 * (3/10)) CURRICULUM_ADJACENT (JObj [(''topic'', JStr ''T'')])"

lemma demo_live_tables:
  "attempts demo_live = []" "masteries demo_live = []" "skill_closure demo_live = []" "learner_activities demo_live = []"
  "topics demo_live = [\<lparr>tp_id = ''t1'', tp_module_id = ''m'', tp_title = ''T'', tp_position = 1, tp_slug = Some ''t''\<rparr>]"
  "activity_topics demo_live = [\<lparr>at_activity_version_id = ''v'', at_topic_id = ''t1'', at_relevance = 1\<rparr>]"
  "activities demo_live = [\<lparr>ac_id = ''a'', ac_tenant_id = ''t'', ac_slug = ''lab'', ac_mode = ''GUIDED_LAB''\<rparr>]"
  by (simp_all add: demo_live_def with_version_def demo_content_def empty_db_def topic_bindings_of_def topicSlugs_def truthy_def
    topic_binding_def List.map_filter_simps demo_publish_def demo_authored_def activity_for_def find_activity_def)

lemma demo_version: "v_id (hd (versions demo_live)) = ''v''" "v_activity_id (hd (versions demo_live)) = ''a''" "v_status (hd (versions demo_live)) = V_PUBLISHED"
  by (simp_all add: demo_versions version_row_def activity_for_def find_activity_def demo_content_def empty_db_def)

lemma demo_gather: "gather ''u'' ''t'' 0 demo_live = [(''v'', demo_candidate)]"
proof -
  have "strugglingSkills ''u'' 0 demo_live = []" "due_skills ''u'' 0 demo_live = []" "strong_skills ''u'' demo_live = []" "weakSkillIds ''u'' demo_live = []"
    by (simp_all add: strugglingSkills_def due_skills_def strong_skills_def weakSkillIds_def demo_live_tables inner_join_def uniq_def)
  moreover have "versions_with_activity demo_live = [(hd (versions demo_live), hd (activities demo_live))]"
  proof -
    obtain v where v: "versions demo_live = [v]" by (simp add: demo_versions)
    then have "v_activity_id v = ''a''" using demo_version(2) by simp
    then show ?thesis by (simp add: versions_with_activity_def inner_join_def demo_live_tables v)
  qed
  then have "curriculum_offers ''u'' ''t'' demo_live = [demo_candidate]"
    by (simp add: curriculum_offers_def relevant_topics_def attempted_ids_def uniq_def topic_rows_def publishedActivityVersionsQuery_def
      inner_join_def demo_live_tables demo_version demo_candidate_def)
  moreover have "rm_activityVersionId demo_candidate = ''v''" by (simp add: demo_candidate_def proposal_def demo_version)
  ultimately show ?thesis
    by (simp add: gather_def addUnblockingCandidates_def addProgressionCandidates_def addSpacedRepetitionCandidates_def addRemediationCandidates_def
      addCurriculumAdjacentCandidates_def unblocking_offers_def progression_offers_def repetition_offers_def remediation_offers_def offer_def)
qed

lemma demo_eligible: "el_eligible (check False ''u'' ''v'' 0 demo_live)"
proof -
  obtain v where v: "versions demo_live = [v]" by (simp add: demo_versions)
  then have "v_id v = ''v''" "v_status v = V_PUBLISHED" using demo_version by simp_all
  moreover have "getRequiresAncestors k demo_live = []" for k by (simp add: getRequiresAncestors_def demo_live_tables)
  then have "prerequisite_reasons ''u'' ''v'' demo_live = []" by (simp add: prerequisite_reasons_def meetsRequiresGate_def)
  ultimately show ?thesis
    unfolding check_iff(1) by (simp add: v cooldown_reasons_def active_count_def demo_live_tables MAX_CONCURRENT_ENVIRONMENTS_PER_LEARNER_def)
qed

theorem recommend_best_witness:
  "\<forall>q \<in> set (curriculum_offers ''u'' ''t'' demo_live). rm_activityVersionId q = ''v'' \<longrightarrow> rm_score q \<le> 8/10"
proof -
  have v: "rm_activityVersionId demo_candidate = ''v''" "rm_score demo_candidate = 8/10" by (simp_all add: demo_candidate_def proposal_def demo_version)
  have "recommend False ''u'' ''t'' 0 0 demo_live = (Inr [], demo_live\<lparr>recommendations := recommendations demo_live @ []\<rparr>)" by (simp add: recommend_run)
  from recommend_best [OF this, of demo_candidate] demo_eligible show ?thesis by (simp add: demo_gather v)
qed

text \<open>The reason that is kept for a version is the one with the higher urgency before the source weights, so
  a remediation that would rank higher can be replaced by a curriculum suggestion.\<close>

lemma weaker_reason_kept:
  assumes "rm_activityVersionId a = rm_activityVersionId b" and "rm_reasonCode a = CURRICULUM_ADJACENT" and "rm_score a = 8/10"
    and "rm_reasonCode b = REMEDIATION" and "rm_score b = 65/100"
  shows "offer b (offer a []) = [(rm_activityVersionId a, a)] \<and> rm_score (weigh_source a) < rm_score (weigh_source b)"
  using assms by (simp add: offer_def weigh_source_def)

text \<open>While the learner has an environment, the quota makes every activity ineligible and the list is empty.\<close>

lemma nothing_while_active:
  assumes "active_count u s \<ge> MAX_CONCURRENT_ENVIRONMENTS_PER_LEARNER"
  shows "recommend False u tenant limit now s = (Inr [], s)"
proof -
  have "\<not> el_eligible (check False u v now s)" for v using assms check_iff(1) [of False u v now s] by blast
  then have "ranked False u tenant now s = []" by (simp add: ranked_def)
  then show ?thesis by (simp add: recommend_run)
qed

end
