(* ===== verification/Experiment.thy ===== *)
theory Experiment
  imports Schema "HOL-Library.Word" "HOL-Library.Char_ord" "HOL-Library.List_Lexorder"
begin

text \<open>
  \<open>experiment/experiment.service.ts\<close> and \<open>experiment/north-star.service.ts\<close>: sticky assignment of learners
  to variants, and the metrics computed per variant. SHA-256 is a parameter: \<open>sha32\<close> gives the first four
  bytes of the digest, read as an unsigned 32-bit integer, so the bucket number lies in [0,1) by its width.
  A request is two steps, \<open>assign_begin\<close> (the reads) and \<open>assign_finish\<close> (the insert that gives way to an
  existing row, and the second read), so that concurrent requests can interleave between them.
\<close>

section \<open>Model\<close>

type_synonym variant = "string \<times> real"

definition unit_interval :: "32 word \<Rightarrow> real" where
  "unit_interval h = real (unat h) / 2 ^ 32"

fun pick :: "real \<Rightarrow> real \<Rightarrow> real \<Rightarrow> variant list \<Rightarrow> string \<Rightarrow> string" where
  "pick n totl cursor [] fallback = fallback"
| "pick n totl cursor (v # vs) fallback =
     (let cursor = cursor + max 0 (snd v) / totl in if n < cursor then fst v else pick n totl cursor vs fallback)"

definition total_weight :: "variant list \<Rightarrow> real" where
  "total_weight vs = sum_list (map (\<lambda>v. max 0 (snd v)) vs)"

definition bucket :: "(string \<Rightarrow> 32 word) \<Rightarrow> string \<Rightarrow> string \<Rightarrow> variant list \<Rightarrow> string" where
  "bucket sha32 key userId variants =
     (if length variants = 0 then ''control''
      else if total_weight variants \<le> 0 then fst (hd variants)
      else pick (unit_interval (sha32 (key @ ''|'' @ userId))) (total_weight variants) 0 variants (fst (last variants)))"

definition find_assignment :: "string \<Rightarrow> string \<Rightarrow> db \<Rightarrow> assignment_row option" where
  "find_assignment experimentKey userId s = find_row (\<lambda>r. xa_experiment_key r = experimentKey \<and> xa_user_id r = userId) (assignments s)"

datatype assign_plan = Answer string | Persist string

definition assign_begin :: "(string \<Rightarrow> 32 word) \<Rightarrow> string \<Rightarrow> string \<Rightarrow> assign_plan prog" where
  "assign_begin sha32 experimentKey userId =
     bnd (query (find_assignment experimentKey userId)) (\<lambda>existing.
     case existing of
       Some r \<Rightarrow> ret (Answer (xa_variant r))
     | None \<Rightarrow>
         bnd (query (\<lambda>s. find_row (\<lambda>x. ex_key x = experimentKey) (experiments s))) (\<lambda>exp.
         case exp of
           None \<Rightarrow> ret (Answer ''control'')
         | Some x \<Rightarrow> if ex_status x \<noteq> ''RUNNING'' then ret (Answer ''control'')
             else ret (Persist (bucket sha32 experimentKey userId (ex_variants x)))))"

definition assign_finish :: "string \<Rightarrow> string \<Rightarrow> string \<Rightarrow> string prog" where
  "assign_finish experimentKey userId variant =
     andthen (modify (\<lambda>s. if find_assignment experimentKey userId s \<noteq> None then s
       else s\<lparr>assignments := assignments s @ [\<lparr>xa_experiment_key = experimentKey, xa_user_id = userId, xa_variant = variant\<rparr>]\<rparr>))
     (bnd (query (find_assignment experimentKey userId)) (\<lambda>row. ret (case row of None \<Rightarrow> variant | Some r \<Rightarrow> xa_variant r)))"

definition assign :: "(string \<Rightarrow> 32 word) \<Rightarrow> string \<Rightarrow> string \<Rightarrow> string prog" where
  "assign sha32 experimentKey userId = bnd (assign_begin sha32 experimentKey userId) (\<lambda>plan.
     case plan of Answer v \<Rightarrow> ret v | Persist v \<Rightarrow> assign_finish experimentKey userId v)"

definition enrolment :: "string \<Rightarrow> db \<Rightarrow> (string \<times> nat) list" where
  "enrolment experimentKey s =
     (let rows = filter (\<lambda>r. xa_experiment_key r = experimentKey) (assignments s)
      in map (\<lambda>v. (v, length (filter (\<lambda>r. xa_variant r = v) rows))) (remdups (map xa_variant rows)))"

subsection \<open>Metrics\<close>

record north_star_row =
  ns_group :: string
  ns_masteryGainPerLearnerHour :: real
  ns_positiveMasteryDeltaSum :: real
  ns_activeLearnerHours :: real
  ns_attempts :: nat
  ns_completionRate :: real
  ns_abandonmentRate :: real
  ns_costPerAttemptUsd :: real

definition scoped_attempts :: "nat \<Rightarrow> time \<Rightarrow> db \<Rightarrow> attempt_row list" where
  "scoped_attempts days now s = filter (\<lambda>a. a_created_at a \<ge> now - int days * 86400000) (attempts s)"

definition pos_delta :: "db \<Rightarrow> attempt_row \<Rightarrow> real" where
  "pos_delta s a = sum_list (map (\<lambda>e. if me_delta e > 0 then me_delta e else 0) (filter (\<lambda>e. me_attempt_id e = a_id a) (evidence s)))"

definition cost_usd :: "db \<Rightarrow> attempt_row \<Rightarrow> real" where
  "cost_usd s a = sum_list (map um_total_cost_usd (filter (\<lambda>m. um_attempt_id m = a_id a) (usage_meters s)))"

text \<open>The left join with the assignments: one row per attempt and matching assignment, or one without.\<close>

definition groups_of :: "string \<Rightarrow> db \<Rightarrow> attempt_row \<Rightarrow> (string \<times> attempt_row) list" where
  "groups_of key s a = (case filter (\<lambda>r. xa_user_id r = a_user_id a \<and> xa_experiment_key r = key) (assignments s) of
     [] \<Rightarrow> [(''unassigned'', a)]
   | rs \<Rightarrow> map (\<lambda>r. (xa_variant r, a)) rs)"

definition grouped :: "string option \<Rightarrow> nat \<Rightarrow> time \<Rightarrow> db \<Rightarrow> (string \<times> attempt_row) list" where
  "grouped experimentKey days now s = (case experimentKey of
     None \<Rightarrow> map (Pair ''all'') (scoped_attempts days now s)
   | Some key \<Rightarrow> concat (map (groups_of key s) (scoped_attempts days now s)))"

definition metrics_row :: "db \<Rightarrow> string \<Rightarrow> attempt_row list \<Rightarrow> north_star_row" where
  "metrics_row s grp rows =
     (let gain = sum_list (map (pos_delta s) rows);
          hours = real (sum_list (map a_active_seconds rows)) / 3600;
          n = length rows;
          completed = length (filter (\<lambda>a. a_status a \<in> {PASSED, COMPLETED}) rows);
          abandoned = length (filter (\<lambda>a. a_status a \<in> {ABANDONED, EXPIRED}) rows);
          cost = sum_list (map (cost_usd s) rows)
      in \<lparr>ns_group = grp, ns_masteryGainPerLearnerHour = (if hours > 0 then gain / hours else 0),
          ns_positiveMasteryDeltaSum = gain, ns_activeLearnerHours = hours, ns_attempts = n,
          ns_completionRate = (if n > 0 then real completed / real n else 0),
          ns_abandonmentRate = (if n > 0 then real abandoned / real n else 0),
          ns_costPerAttemptUsd = (if n > 0 then cost / real n else 0)\<rparr>)"

definition metrics :: "string option \<Rightarrow> real option \<Rightarrow> time \<Rightarrow> db \<Rightarrow> north_star_row list" where
  "metrics experimentKey sinceDays now s =
     (let since = nat (max 1 (case sinceDays of None \<Rightarrow> 30 | Some d \<Rightarrow> \<lfloor>d\<rfloor>));
          rows = grouped (if truthy experimentKey then experimentKey else None) since now s
      in map (\<lambda>g. metrics_row s g (map snd (filter (\<lambda>r. fst r = g) rows))) (sort (remdups (map fst rows))))"

section \<open>The split\<close>

definition cumulative :: "variant list \<Rightarrow> nat \<Rightarrow> real" where
  "cumulative vs i = total_weight (take i vs) / total_weight vs"

lemma total_weight_simps [simp]: "total_weight [] = 0" "total_weight (v # vs) = max 0 (snd v) + total_weight vs"
  by (simp_all add: total_weight_def)

lemma total_weight_nonneg: "0 \<le> total_weight vs"
  by (induction vs) simp_all

lemma total_weight_take_le: "total_weight (take i vs) \<le> total_weight vs"
  by (induction vs arbitrary: i) (auto simp: take_Cons split: nat.split intro: total_weight_nonneg add_nonneg_nonneg)

lemma unit_interval_bounds: "0 \<le> unit_interval h" "unit_interval h < 1"
proof -
  have "unat h < 2 ^ LENGTH(32)" by (rule unsigned_less)
  then have "unat h < 2 ^ 32" by simp
  then have "real (unat h) < 2 ^ 32" by (metis numeral_power_eq_of_nat_cancel_iff of_nat_less_iff of_nat_numeral of_nat_power)
  then show "unit_interval h < 1" by (simp add: unit_interval_def)
  show "0 \<le> unit_interval h" unfolding unit_interval_def by (rule divide_nonneg_nonneg [OF of_nat_0_le_iff]) simp
qed

text \<open>The loop stops at the first variant whose cumulative share exceeds the number.\<close>

lemma pick_finds:
  assumes "0 < t" and "c \<le> n" and "n < c + total_weight vs / t"
  shows "\<exists>i < length vs. pick n t c vs d = fst (vs ! i) \<and> c + total_weight (take i vs) / t \<le> n \<and> n < c + total_weight (take (Suc i) vs) / t"
  using assms(2,3)
proof (induction vs arbitrary: c)
  case (Cons v vs)
  let ?c = "c + max 0 (snd v) / t"
  show ?case
  proof (cases "n < ?c")
    case True
    then show ?thesis using Cons.prems(1) by (intro exI [of _ 0]) (simp add: Let_def)
  next
    case False
    have "n < ?c + total_weight vs / t" using Cons.prems(2) assms(1) by (simp add: add_divide_distrib)
    with Cons.IH [of ?c] False obtain i where "i < length vs" "pick n t ?c vs d = fst (vs ! i)" "?c + total_weight (take i vs) / t \<le> n" "n < ?c + total_weight (take (Suc i) vs) / t" by auto
    then show ?thesis using False assms(1) by (intro exI [of _ "Suc i"]) (simp add: Let_def add_divide_distrib)
  qed
qed simp

lemma bucket_finds:
  assumes "0 < total_weight vs"
  shows "\<exists>i < length vs. bucket sha key u vs = fst (vs ! i) \<and> cumulative vs i \<le> unit_interval (sha (key @ ''|'' @ u)) \<and>
    unit_interval (sha (key @ ''|'' @ u)) < cumulative vs (Suc i)"
proof -
  let ?n = "unit_interval (sha (key @ ''|'' @ u))"
  have ne: "vs \<noteq> []" using assms by auto
  have "?n < 0 + total_weight vs / total_weight vs" using assms unit_interval_bounds(2) [of "sha (key @ ''|'' @ u)"] by simp
  from pick_finds [OF assms unit_interval_bounds(1) this, of "fst (last vs)"] show ?thesis
    using assms ne by (auto simp: bucket_def cumulative_def)
qed

lemma cumulative_mono: "i \<le> j \<Longrightarrow> 0 < total_weight vs \<Longrightarrow> cumulative vs i \<le> cumulative vs j"
  using total_weight_take_le [of i "take j vs"] by (simp add: cumulative_def divide_right_mono min_def)

section \<open>Assignments over time\<close>

definition assignments_ok :: "db \<Rightarrow> bool" where
  "assignments_ok s \<longleftrightarrow> distinct (map (\<lambda>r. (xa_experiment_key r, xa_user_id r)) (assignments s))"

text \<open>Requests of any learner, whose two halves may be separated by other requests, and any edit of the
  experiment registry (a new split, a conclusion).\<close>

inductive experiment_step :: "(string \<Rightarrow> 32 word) \<Rightarrow> db \<Rightarrow> db \<Rightarrow> bool" for sha where
  xs_begin: "assign_begin sha key u s = (r, t) \<Longrightarrow> experiment_step sha s t"
| xs_finish: "assign_finish key u v s = (r, t) \<Longrightarrow> experiment_step sha s t"
| xs_edit: "t = s\<lparr>experiments := es\<rparr> \<Longrightarrow> experiment_step sha s t"

lemma begin_state: "snd (assign_begin sha key u s) = s"
  by (simp add: assign_begin_def bnd_run split: option.split)

lemma finish_run:
  "assign_finish key u v s = (case find_assignment key u s of
     Some r \<Rightarrow> (Inr (xa_variant r), s)
   | None \<Rightarrow> (Inr v, s\<lparr>assignments := assignments s @ [\<lparr>xa_experiment_key = key, xa_user_id = u, xa_variant = v\<rparr>]\<rparr>))"
  by (auto simp: assign_finish_def andthen_def bnd_run find_assignment_def find_row_append split: option.splits)

lemma finish_kept: "find_assignment k w s = Some r \<Longrightarrow> find_assignment k w (snd (assign_finish key u v s)) = Some r"
  by (auto simp: finish_run find_assignment_def find_row_append split: option.splits)

lemma finish_ok: "assignments_ok s \<Longrightarrow> assignments_ok (snd (assign_finish key u v s))"
  by (auto simp: finish_run assignments_ok_def find_assignment_def find_row_None_iff split: option.splits)

lemma step_kept:
  assumes "experiment_step sha s t" and "find_assignment k w s = Some r"
  shows "find_assignment k w t = Some r"
  using assms
proof cases
  case (xs_begin key u x)
  then show ?thesis using begin_state [of sha key u s] assms(2) by simp
next
  case (xs_finish key u v x)
  then show ?thesis using finish_kept [OF assms(2), of key u v] by simp
qed (simp add: find_assignment_def)

lemma step_ok: "experiment_step sha s t \<Longrightarrow> assignments_ok s \<Longrightarrow> assignments_ok t"
proof (induction rule: experiment_step.induct)
  case (xs_begin key u s r t)
  then show ?case using begin_state [of sha key u s] by simp
next
  case (xs_finish key u v s r t)
  then show ?case using finish_ok [of s key u v] by simp
qed (simp add: assignments_ok_def)

lemma run_kept: "(experiment_step sha)\<^sup>*\<^sup>* s t \<Longrightarrow> find_assignment k w s = Some r \<Longrightarrow> find_assignment k w t = Some r"
  by (induction rule: rtranclp_induct) (auto dest: step_kept)

lemma assign_found: "find_assignment k w s = Some r \<Longrightarrow> assign sha k w s = (Inr (xa_variant r), s)"
  by (simp add: assign_def assign_begin_def bnd_run)

section \<open>Properties\<close>

text \<open>Property. Assignment is sticky: once a request of a learner has persisted a variant, every later request of
  that learner gets the same variant and writes nothing, whatever requests, changes of the split or
  conclusions of the experiment happened in between; two requests that race each other agree, too,
  even if the split changed between their reads; and there is never more than one row per learner.\<close>

theorem assignment_sticky:
  assumes "assignments_ok s" and "assign_finish key u v s = (Inr x, t)" and "(experiment_step sha)\<^sup>*\<^sup>* t t'"
  shows "assign sha key u t' = (Inr x, t') \<and> (\<forall>v'. assign_finish key u v' t' = (Inr x, t')) \<and> assignments_ok t'"
proof -
  have ok: "assignments_ok t" using finish_ok [OF assms(1), of key u v] assms(2) by simp
  obtain r where r: "find_assignment key u t = Some r" "xa_variant r = x"
    using assms(2) by (auto simp: finish_run find_assignment_def find_row_append split: option.splits)
  have "find_assignment key u t' = Some r" by (rule run_kept [OF assms(3) r(1)])
  moreover have "assignments_ok t'" using assms(3) ok by (induction rule: rtranclp_induct) (auto dest: step_ok)
  ultimately show ?thesis using r(2) by (auto simp: assign_found finish_run)
qed

text \<open>Property. The split is the declared one: if any weight is positive, the learner gets the variant whose
  interval of the cumulative shares contains the hash, and only that one. So the probability of a
  variant over a uniform hash is its share of the total weight; a variant with weight zero or less is
  never assigned, and the fallback after the loop is never used.\<close>

theorem bucket_share:
  assumes "0 < total_weight vs" and "distinct (map fst vs)" and "i < length vs" and "n = unit_interval (sha (key @ ''|'' @ u))"
  shows "(bucket sha key u vs = fst (vs ! i) \<longleftrightarrow> cumulative vs i \<le> n \<and> n < cumulative vs (Suc i)) \<and>
    cumulative vs (Suc i) - cumulative vs i = max 0 (snd (vs ! i)) / total_weight vs \<and> cumulative vs 0 = 0 \<and> cumulative vs (length vs) = 1 \<and>
    (snd (vs ! i) \<le> 0 \<longrightarrow> bucket sha key u vs \<noteq> fst (vs ! i))"
proof -
  obtain j where j: "j < length vs" "bucket sha key u vs = fst (vs ! j)" "cumulative vs j \<le> n" "n < cumulative vs (Suc j)"
    using bucket_finds [OF assms(1), of sha key u] assms(4) by auto
  have same: "fst (vs ! j) = fst (vs ! i) \<longleftrightarrow> j = i" using assms(2,3) j(1) by (metis distinct_conv_nth length_map nth_map)
  have "j = i" if "cumulative vs i \<le> n" "n < cumulative vs (Suc i)"
  proof (rule linorder_cases [of i j])
    assume "i < j"
    then show ?thesis using cumulative_mono [of "Suc i" j vs] assms(1) j(3) that(2) by simp
  next
    assume "j < i"
    then show ?thesis using cumulative_mono [of "Suc j" i vs] assms(1) j(4) that(1) by simp
  qed simp
  then have iff: "bucket sha key u vs = fst (vs ! i) \<longleftrightarrow> cumulative vs i \<le> n \<and> n < cumulative vs (Suc i)"
    using j same by auto
  have "total_weight (take (Suc i) vs) = total_weight (take i vs) + max 0 (snd (vs ! i))"
    using assms(3) by (simp add: take_Suc_conv_app_nth total_weight_def)
  then have width: "cumulative vs (Suc i) - cumulative vs i = max 0 (snd (vs ! i)) / total_weight vs"
    by (simp add: cumulative_def add_divide_distrib)
  then have "bucket sha key u vs \<noteq> fst (vs ! i)" if "snd (vs ! i) \<le> 0" using that iff by auto
  with iff width assms(1) show ?thesis by (simp add: cumulative_def)
qed

subsection \<open>Metrics\<close>

text \<open>Summing a quantity group by group is summing it once.\<close>

lemma sum_groups:
  fixes f :: "'b \<Rightarrow> 'n::comm_monoid_add"
  assumes "distinct gs" and "fst ` set rows \<subseteq> set gs"
  shows "sum_list (map (\<lambda>g. sum_list (map f (map snd (filter (\<lambda>r. fst r = g) rows)))) gs) = sum_list (map f (map snd rows))"
  using assms(2)
proof (induction rows)
  case (Cons r rows)
  have one: "sum_list (map (\<lambda>g. if fst r = g then c else 0) gs) = c" if "fst r \<in> set gs" for c :: 'n
    using that assms(1) by (simp add: sum_list_distinct_conv_sum_set)
  have "sum_list (map (\<lambda>g. sum_list (map f (map snd (filter (\<lambda>q. fst q = g) (r # rows))))) gs) =
     sum_list (map (\<lambda>g. (if fst r = g then f (snd r) else 0) + sum_list (map f (map snd (filter (\<lambda>q. fst q = g) rows)))) gs)"
    by (rule arg_cong [of _ _ sum_list]) simp
  then show ?case using Cons one by (simp add: sum_list_addf)
qed simp

lemma grouped_attempts:
  assumes "assignments_ok s"
  shows "map snd (grouped k days now s) = scoped_attempts days now s"
proof (cases k)
  case (Some key)
  have single: "length (filter (\<lambda>r. xa_user_id r = u \<and> xa_experiment_key r = key) (assignments s)) \<le> 1" for u
  proof -
    let ?rs = "filter (\<lambda>r. xa_user_id r = u \<and> xa_experiment_key r = key) (assignments s)"
    have "distinct (map (\<lambda>r. (xa_experiment_key r, xa_user_id r)) ?rs)"
      using assms by (simp add: assignments_ok_def distinct_map_filter)
    moreover have "map (\<lambda>r. (xa_experiment_key r, xa_user_id r)) ?rs = replicate (length ?rs) (key, u)"
      by (rule replicate_eqI) auto
    moreover have "n \<le> 1" if "distinct (replicate n (key, u))" for n using that by (cases n; cases "n - 1") auto
    ultimately show ?thesis by metis
  qed
  have one: "map snd (groups_of key s a) = [a]" for a
    using single [of "a_user_id a"] by (auto simp: groups_of_def split: list.split)
  have "map snd (concat (map (groups_of key s) xs)) = xs" for xs by (induction xs) (simp_all add: one)
  then show ?thesis by (simp add: grouped_def Some)
qed (simp add: grouped_def comp_def)

lemma metrics_sum:
  fixes f :: "attempt_row \<Rightarrow> 'n::comm_monoid_add"
  assumes "assignments_ok s" and "\<And>g rows. h (metrics_row s g rows) = sum_list (map f rows)"
  shows "sum_list (map h (metrics k d now s)) = sum_list (map f (scoped_attempts (nat (max 1 (case d of None \<Rightarrow> 30 | Some d \<Rightarrow> \<lfloor>d\<rfloor>))) now s))"
proof -
  let ?rows = "grouped (if truthy k then k else None) (nat (max 1 (case d of None \<Rightarrow> 30 | Some d \<Rightarrow> \<lfloor>d\<rfloor>))) now s"
  have "sum_list (map h (metrics k d now s)) = sum_list (map (\<lambda>g. sum_list (map f (map snd (filter (\<lambda>r. fst r = g) ?rows)))) (sort (remdups (map fst ?rows))))"
    unfolding metrics_def Let_def map_map comp_def assms(2) ..
  also have "\<dots> = sum_list (map f (map snd ?rows))" by (rule sum_groups) simp_all
  finally show ?thesis unfolding grouped_attempts [OF assms(1)] .
qed

lemma metrics_rates:
  assumes "m \<in> set (metrics k d now s)"
  shows "0 \<le> ns_completionRate m \<and> 0 \<le> ns_abandonmentRate m \<and> ns_completionRate m + ns_abandonmentRate m \<le> 1"
proof -
  obtain g rows where m: "m = metrics_row s g rows" using assms by (auto simp: metrics_def Let_def)
  have "length (filter (\<lambda>a. a_status a \<in> {PASSED, COMPLETED}) rows) + length (filter (\<lambda>a. a_status a \<in> {ABANDONED, EXPIRED}) rows) \<le> length rows"
    by (induction rows) auto
  then have "real (length (filter (\<lambda>a. a_status a \<in> {PASSED, COMPLETED}) rows)) + real (length (filter (\<lambda>a. a_status a \<in> {ABANDONED, EXPIRED}) rows)) \<le> real (length rows)"
    by linarith
  then show ?thesis by (auto simp: m metrics_row_def Let_def add_divide_distrib [symmetric])
qed

text \<open>Property. A comparison of variants counts every attempt once: the attempts, the mastery gain and the hours of
  the variants (and of the unassigned learners) add up to those of the overall row, nothing is
  counted twice by the joins, and completion and abandonment are disjoint shares of the attempts.\<close>

theorem metrics_add_up:
  assumes "assignments_ok s"
  shows "sum_list (map ns_attempts (metrics (Some key) d now s)) = sum_list (map ns_attempts (metrics None d now s)) \<and>
    sum_list (map ns_positiveMasteryDeltaSum (metrics (Some key) d now s)) = sum_list (map ns_positiveMasteryDeltaSum (metrics None d now s)) \<and>
    sum_list (map ns_activeLearnerHours (metrics (Some key) d now s)) = sum_list (map ns_activeLearnerHours (metrics None d now s)) \<and>
    (\<forall>m \<in> set (metrics (Some key) d now s). 0 \<le> ns_completionRate m \<and> 0 \<le> ns_abandonmentRate m \<and> ns_completionRate m + ns_abandonmentRate m \<le> 1)"
proof -
  have n: "ns_attempts (metrics_row s g rows) = sum_list (map (\<lambda>_. 1) rows)"
    and gain: "ns_positiveMasteryDeltaSum (metrics_row s g rows) = sum_list (map (pos_delta s) rows)"
    and hours: "ns_activeLearnerHours (metrics_row s g rows) = sum_list (map (\<lambda>a. real (a_active_seconds a) / 3600) rows)" for g rows
    by (simp_all add: metrics_row_def Let_def) (induction rows; simp add: add_divide_distrib)+
  show ?thesis
    using metrics_rates [of _ "Some key" d now s]
    unfolding metrics_sum [OF assms n] metrics_sum [OF assms gain] metrics_sum [OF assms hours] by blast
qed

section \<open>Witnesses and findings\<close>

theorem assignment_sticky_witness:
  "assign (\<lambda>_. 7) ''k'' ''u'' (snd (assign_finish ''k'' ''u'' ''b'' empty_db)) = (Inr ''b'', snd (assign_finish ''k'' ''u'' ''b'' empty_db))"
proof -
  have "assignments_ok empty_db" by (simp add: assignments_ok_def empty_db_def)
  moreover have "assign_finish ''k'' ''u'' ''b'' empty_db = (Inr ''b'', snd (assign_finish ''k'' ''u'' ''b'' empty_db))"
    by (simp add: finish_run find_assignment_def empty_db_def)
  ultimately show ?thesis using assignment_sticky [of empty_db "''k''" "''u''" "''b''" "''b''" _ "\<lambda>_. 7"] by blast
qed

theorem bucket_share_witness: "bucket (\<lambda>_. 0) ''k'' ''u'' [(''control'', 0), (''b'', 50)] \<noteq> ''control''"
  using bucket_share [of "[(''control'', 0), (''b'', 50)]" 0 "unit_interval 0" "\<lambda>_. 0" "''k''" "''u''"] by simp

theorem metrics_add_up_witness:
  "sum_list (map ns_attempts (metrics (Some ''k'') None 0 empty_db)) = sum_list (map ns_attempts (metrics None None 0 empty_db))"
  using metrics_add_up [of empty_db "''k''" None 0] by (simp add: assignments_ok_def empty_db_def)

text \<open>The north-star figure is zero for every group as long as nobody writes \<open>active_seconds\<close>, and no
  operation of the services does.\<close>

lemma north_star_stuck_at_zero:
  assumes "\<forall>a \<in> set (attempts s). a_active_seconds a = 0" and "m \<in> set (metrics k d now s)"
  shows "ns_masteryGainPerLearnerHour m = 0"
proof -
  have "snd ` set (grouped k' n now s) \<subseteq> set (attempts s)" for k' n
    by (auto simp: grouped_def groups_of_def scoped_attempts_def split: option.splits list.splits)
  then obtain g rows where m: "m = metrics_row s g rows" and "set rows \<subseteq> set (attempts s)"
    using assms(2) by (fastforce simp: metrics_def Let_def)
  then have "sum_list (map a_active_seconds rows) = 0" using assms(1) by (induction rows) auto
  then show ?thesis by (simp add: m metrics_row_def Let_def)
qed

end
