(* ===== verification/Privacy.thy ===== *)
theory Privacy
  imports Replay AttemptRepository
begin

text \<open>
  \<open>privacy/privacy.service.ts\<close>: the export of everything the platform holds about a learner, and the
  erasure that anonymises the account and redacts event payloads and artifacts while the rows that
  analytics counts stay. The unique constraint on \<open>(tenant_id, email)\<close> is part of the account update.
  The export's rendering of the time of generation is left out, and so is logging.
\<close>

section \<open>Model\<close>

record learner_data_export =
  de_user :: user_row
  de_attempts :: "attempt_row list"
  de_attempt_events :: "event_row list"
  de_attempt_scores :: "score_row list"
  de_artifacts :: "artifact_row list"
  de_skill_mastery :: "skill_mastery_row list"
  de_learner_activity_state :: "learner_activity_row list"

record erasure_result =
  xr_alreadyErased :: bool
  xr_erasedAt :: time
  xr_attemptsAnonymised :: nat
  xr_eventPayloadsRedacted :: nat
  xr_artifactsRedacted :: nat

definition find_user :: "string \<Rightarrow> db \<Rightarrow> user_row option" where
  "find_user userId s = find_row (\<lambda>u. us_id u = userId) (users s)"

definition attempts_of_user :: "string \<Rightarrow> db \<Rightarrow> attempt_row list" where
  "attempts_of_user userId s = filter (\<lambda>a. a_user_id a = userId) (attempts s)"

definition exportForUser :: "string \<Rightarrow> learner_data_export prog" where
  "exportForUser userId =
     bnd (query (find_user userId)) (\<lambda>user.
     case user of
       None \<Rightarrow> throw (NotFound (''user '' @ userId @ '' not found''))
     | Some u \<Rightarrow>
         bnd (query (\<lambda>s. sort_key a_created_at (attempts_of_user userId s))) (\<lambda>atts.
         let attemptIds = map a_id atts in
         bnd (query (\<lambda>s. if length attemptIds > 0 then filter (\<lambda>e. e_attempt_id e \<in> set attemptIds) (events s) else [])) (\<lambda>evs.
         bnd (query (\<lambda>s. if length attemptIds > 0 then filter (\<lambda>r. sc_attempt_id r \<in> set attemptIds) (scores s) else [])) (\<lambda>scs.
         bnd (query (\<lambda>s. if length attemptIds > 0 then filter (\<lambda>r. ar_attempt_id r \<in> set attemptIds) (artifacts s) else [])) (\<lambda>arts.
         bnd (query (\<lambda>s. filter (\<lambda>m. sm_user_id m = userId) (masteries s))) (\<lambda>mas.
         bnd (query (\<lambda>s. filter (\<lambda>l. la_user_id l = userId) (learner_activities s))) (\<lambda>las.
         ret \<lparr>de_user = u, de_attempts = atts, de_attempt_events = evs, de_attempt_scores = scs, de_artifacts = arts,
           de_skill_mastery = mas, de_learner_activity_state = las\<rparr>)))))))"

definition redact_event :: "event_row \<Rightarrow> event_row" where
  "redact_event e = e\<lparr>e_payload := JObj []\<rparr>"

definition redact_artifact :: "artifact_row \<Rightarrow> artifact_row" where
  "redact_artifact r = r\<lparr>ar_content := None, ar_storage_uri := ''erased://''\<rparr>"

definition tombstone :: "string \<Rightarrow> string" where
  "tombstone userId = ''erased-'' @ take 8 userId @ ''@deleted.invalid''"

text \<open>The update of the account; another account of the tenant with the same address violates the constraint.\<close>

definition anonymise_user :: "string \<Rightarrow> time \<Rightarrow> unit prog" where
  "anonymise_user userId now = bnd (query (\<lambda>s. list_ex (\<lambda>u. us_id u = userId \<and>
       list_ex (\<lambda>w. us_id w \<noteq> userId \<and> us_tenant_id w = us_tenant_id u \<and> us_email w = tombstone userId) (users s)) (users s))) (\<lambda>taken.
     if taken then throw (DbErr ''duplicate key value violates unique constraint'')
     else modify (\<lambda>s. s\<lparr>users := update_where (\<lambda>u. us_id u = userId)
       (\<lambda>u. u\<lparr>us_email := tombstone userId, us_status := ''erased'', us_erased_at := Some now\<rparr>) (users s)\<rparr>))"

definition eraseForUser :: "string \<Rightarrow> time \<Rightarrow> erasure_result prog" where
  "eraseForUser userId now =
     bnd (query (find_user userId)) (\<lambda>user.
     case user of
       None \<Rightarrow> throw (NotFound (''user '' @ userId @ '' not found''))
     | Some u \<Rightarrow>
        (case us_erased_at u of
           Some t \<Rightarrow> ret \<lparr>xr_alreadyErased = True, xr_erasedAt = t, xr_attemptsAnonymised = 0, xr_eventPayloadsRedacted = 0, xr_artifactsRedacted = 0\<rparr>
         | None \<Rightarrow> transaction (
             bnd (query (\<lambda>s. map a_id (attempts_of_user userId s))) (\<lambda>attemptIds.
             bnd (query (\<lambda>s. if length attemptIds > 0 then length (filter (\<lambda>e. e_attempt_id e \<in> set attemptIds) (events s)) else 0)) (\<lambda>eventPayloadsRedacted.
             bnd (query (\<lambda>s. if length attemptIds > 0 then length (filter (\<lambda>r. ar_attempt_id r \<in> set attemptIds) (artifacts s)) else 0)) (\<lambda>artifactsRedacted.
             andthen (when_io (length attemptIds > 0) (
               andthen (modify (\<lambda>s. s\<lparr>events := update_where (\<lambda>e. e_attempt_id e \<in> set attemptIds) redact_event (events s)\<rparr>))
               (andthen (modify (\<lambda>s. s\<lparr>artifacts := update_where (\<lambda>r. ar_attempt_id r \<in> set attemptIds) redact_artifact (artifacts s)\<rparr>))
               (modify (\<lambda>s. s\<lparr>attempts := update_where (\<lambda>a. a_id a \<in> set attemptIds) (\<lambda>a. a\<lparr>a_erased_at := Some now\<rparr>) (attempts s)\<rparr>)))))
             (andthen (anonymise_user userId now)
             (ret \<lparr>xr_alreadyErased = False, xr_erasedAt = now, xr_attemptsAnonymised = length attemptIds,
               xr_eventPayloadsRedacted = eventPayloadsRedacted, xr_artifactsRedacted = artifactsRedacted\<rparr>))))))))"

section \<open>What erasure does\<close>

definition own_ids :: "string \<Rightarrow> db \<Rightarrow> string set" where
  "own_ids userId s = a_id ` set (attempts_of_user userId s)"

definition erased :: "string \<Rightarrow> time \<Rightarrow> db \<Rightarrow> db" where
  "erased userId now s =
     s\<lparr>events := update_where (\<lambda>e. e_attempt_id e \<in> own_ids userId s) redact_event (events s),
       artifacts := update_where (\<lambda>r. ar_attempt_id r \<in> own_ids userId s) redact_artifact (artifacts s),
       attempts := update_where (\<lambda>a. a_id a \<in> own_ids userId s) (\<lambda>a. a\<lparr>a_erased_at := Some now\<rparr>) (attempts s),
       users := update_where (\<lambda>u. us_id u = userId)
         (\<lambda>u. u\<lparr>us_email := tombstone userId, us_status := ''erased'', us_erased_at := Some now\<rparr>) (users s)\<rparr>"

definition address_taken :: "string \<Rightarrow> db \<Rightarrow> bool" where
  "address_taken userId s \<longleftrightarrow> list_ex (\<lambda>u. us_id u = userId \<and>
     list_ex (\<lambda>w. us_id w \<noteq> userId \<and> us_tenant_id w = us_tenant_id u \<and> us_email w = tombstone userId) (users s)) (users s)"

lemma update_where_False [simp]: "update_where (\<lambda>_. False) f xs = xs"
  by (induction xs) simp_all

lemma erase_run:
  assumes "find_user userId s = Some u" and "us_erased_at u = None"
  shows "eraseForUser userId now s = (if address_taken userId s then (Inl (DbErr ''duplicate key value violates unique constraint''), s)
    else (Inr \<lparr>xr_alreadyErased = False, xr_erasedAt = now, xr_attemptsAnonymised = length (attempts_of_user userId s),
       xr_eventPayloadsRedacted = length (filter (\<lambda>e. e_attempt_id e \<in> own_ids userId s) (events s)),
       xr_artifactsRedacted = length (filter (\<lambda>r. ar_attempt_id r \<in> own_ids userId s) (artifacts s))\<rparr>, erased userId now s))"
proof (cases "attempts_of_user userId s = []")
  case True
  then have "own_ids userId s = {}" by (simp add: own_ids_def)
  with True assms show ?thesis
    by (simp add: eraseForUser_def bnd_run transaction_def andthen_def anonymise_user_def address_taken_def erased_def)
next
  case False
  have own: "own_ids userId s = set (map a_id (attempts_of_user userId s))" by (simp add: own_ids_def)
  with False assms show ?thesis
    by (simp add: eraseForUser_def bnd_run transaction_def andthen_def anonymise_user_def address_taken_def erased_def)
qed

lemma export_run:
  "exportForUser userId s = (case find_user userId s of
     None \<Rightarrow> (Inl (NotFound (''user '' @ userId @ '' not found'')), s)
   | Some u \<Rightarrow> (Inr \<lparr>de_user = u, de_attempts = sort_key a_created_at (attempts_of_user userId s),
       de_attempt_events = filter (\<lambda>e. e_attempt_id e \<in> own_ids userId s) (events s),
       de_attempt_scores = filter (\<lambda>r. sc_attempt_id r \<in> own_ids userId s) (scores s),
       de_artifacts = filter (\<lambda>r. ar_attempt_id r \<in> own_ids userId s) (artifacts s),
       de_skill_mastery = filter (\<lambda>m. sm_user_id m = userId) (masteries s),
       de_learner_activity_state = filter (\<lambda>l. la_user_id l = userId) (learner_activities s)\<rparr>, s))"
proof (cases "find_user userId s")
  case (Some u)
  have own: "set (map a_id (sort_key a_created_at (attempts_of_user userId s))) = own_ids userId s" by (simp add: own_ids_def)
  have empty: "own_ids userId s = {}" if "attempts_of_user userId s = []" using that by (simp add: own_ids_def)
  have nil: "sort_key a_created_at xs = [] \<longleftrightarrow> xs = []" for xs by (metis length_0_conv length_sort)
  show ?thesis
    by (cases "attempts_of_user userId s = []") (use Some empty own in \<open>simp_all add: exportForUser_def bnd_run Let_def nil\<close>)
qed (simp add: exportForUser_def bnd_run)

lemma own_ids_erased: "own_ids userId (erased userId now s) = own_ids userId s"
proof -
  have "a_id ` set (filter (\<lambda>a. a_user_id a = userId) (update_where p (\<lambda>a. a\<lparr>a_erased_at := Some now\<rparr>) xs)) = a_id ` set (filter (\<lambda>a. a_user_id a = userId) xs)" for p xs
    by (induction xs) auto
  moreover have "attempts (erased userId now s) = update_where (\<lambda>a. a_id a \<in> own_ids userId s) (\<lambda>a. a\<lparr>a_erased_at := Some now\<rparr>) (attempts s)"
    by (simp add: erased_def)
  ultimately show ?thesis unfolding own_ids_def [of _ "erased userId now s"] attempts_of_user_def by (simp add: own_ids_def [of userId s] attempts_of_user_def)
qed

lemma find_user_erased:
  "find_user userId s = Some u \<Longrightarrow> find_user userId (erased userId now s) =
     Some (u\<lparr>us_email := tombstone userId, us_status := ''erased'', us_erased_at := Some now\<rparr>)"
  by (simp add: find_user_def erased_def find_update_where_same)

lemma filter_update_other: "filter (\<lambda>x. \<not> p x) (update_where p f xs) = filter (\<lambda>x. \<not> p x) xs" if "\<And>x. p x \<Longrightarrow> p (f x)"
  using that by (induction xs) auto

section \<open>Properties\<close>


text \<open>Property. The export is complete and private: it writes nothing and contains an attempt, event, score, artifact,
  mastery value or activity state exactly when that row belongs to the learner.\<close>

theorem export_complete:
  assumes "exportForUser userId s = (Inr d, t)"
  shows "t = s \<and> find_user userId s = Some (de_user d) \<and>
    (\<forall>a. a \<in> set (de_attempts d) \<longleftrightarrow> a \<in> set (attempts s) \<and> a_user_id a = userId) \<and>
    (\<forall>e. e \<in> set (de_attempt_events d) \<longleftrightarrow> e \<in> set (events s) \<and> (\<exists>a \<in> set (attempts s). a_user_id a = userId \<and> a_id a = e_attempt_id e)) \<and>
    (\<forall>x. x \<in> set (de_attempt_scores d) \<longleftrightarrow> x \<in> set (scores s) \<and> (\<exists>a \<in> set (attempts s). a_user_id a = userId \<and> a_id a = sc_attempt_id x)) \<and>
    (\<forall>x. x \<in> set (de_artifacts d) \<longleftrightarrow> x \<in> set (artifacts s) \<and> (\<exists>a \<in> set (attempts s). a_user_id a = userId \<and> a_id a = ar_attempt_id x)) \<and>
    (\<forall>m. m \<in> set (de_skill_mastery d) \<longleftrightarrow> m \<in> set (masteries s) \<and> sm_user_id m = userId) \<and>
    (\<forall>l. l \<in> set (de_learner_activity_state d) \<longleftrightarrow> l \<in> set (learner_activities s) \<and> la_user_id l = userId)"
proof -
  obtain u where u: "find_user userId s = Some u" using assms by (auto simp: export_run split: option.splits)
  have own: "i \<in> own_ids userId s \<longleftrightarrow> (\<exists>a \<in> set (attempts s). a_user_id a = userId \<and> a_id a = i)" for i
    by (auto simp: own_ids_def attempts_of_user_def)
  from assms have "t = s" and d: "d = \<lparr>de_user = u, de_attempts = sort_key a_created_at (attempts_of_user userId s),
       de_attempt_events = filter (\<lambda>e. e_attempt_id e \<in> own_ids userId s) (events s),
       de_attempt_scores = filter (\<lambda>r. sc_attempt_id r \<in> own_ids userId s) (scores s),
       de_artifacts = filter (\<lambda>r. ar_attempt_id r \<in> own_ids userId s) (artifacts s),
       de_skill_mastery = filter (\<lambda>m. sm_user_id m = userId) (masteries s),
       de_learner_activity_state = filter (\<lambda>l. la_user_id l = userId) (learner_activities s)\<rparr>"
    unfolding export_run u by auto
  then show ?thesis using u by (simp add: own attempts_of_user_def)
qed

section \<open>Witnesses and findings\<close>

definition demo_user :: user_row where
  "demo_user = \<lparr>us_id = ''abcdefgh-1'', us_tenant_id = ''t'', us_email = ''x'', us_role = ''learner'', us_status = ''active'', us_created_at = 0, us_erased_at = None\<rparr>"

definition demo_people :: db where
  "demo_people = empty_db\<lparr>users := [demo_user]\<rparr>"


theorem export_complete_witness: "\<exists>d. fst (exportForUser ''abcdefgh-1'' demo_people) = Inr d \<and> de_attempts d = [] \<and> de_user d = demo_user"
proof -
  obtain d where d: "exportForUser ''abcdefgh-1'' demo_people = (Inr d, demo_people)" by (simp add: export_run find_user_def demo_people_def demo_user_def)
  have "attempts demo_people = []" "find_user ''abcdefgh-1'' demo_people = Some demo_user" by (simp_all add: demo_people_def empty_db_def find_user_def demo_user_def)
  with export_complete [OF d] have "set (de_attempts d) = {}" "de_user d = demo_user" by auto
  with d show ?thesis by simp
qed

text \<open>Two accounts of a tenant whose identifiers agree in their first eight characters cannot both be erased.\<close>

lemma second_erasure_fails:
  "fst (eraseForUser ''abcdefgh-2'' 9 (snd (eraseForUser ''abcdefgh-1'' 5 (demo_people\<lparr>users := [demo_user, demo_user\<lparr>us_id := ''abcdefgh-2'', us_email := ''y''\<rparr>]\<rparr>)))) =
     Inl (DbErr ''duplicate key value violates unique constraint'')"
  by (simp add: eraseForUser_def find_user_def demo_people_def demo_user_def empty_db_def bnd_run transaction_def andthen_def
    attempts_of_user_def anonymise_user_def tombstone_def)

text \<open>After an erasure the task state of an attempt can no longer be rebuilt from its log: the task of every
  event is unknown, and the row to insert violates the constraint on its key.\<close>

lemma amap_set_nonempty: "amap_set k v m \<noteq> []"
  by (cases "(k, v, m)" rule: amap_set.cases) simp_all

lemma derive_nonempty: "m \<noteq> [] \<Longrightarrow> foldl derive_step m bs \<noteq> []"
proof (induction bs arbitrary: m)
  case (Cons b bs)
  have "derive_step m b \<noteq> []" using Cons.prems by (auto simp: derive_step_def amap_set_nonempty split: prod.splits)
  with Cons.IH show ?case by simp
qed simp

lemma derive_redacted:
  assumes "\<forall>e \<in> set es. e_payload e = JObj []"
  shows "deriveTaskState (map body es) = [] \<or> (\<exists>d. deriveTaskState (map body es) = [(None, d)])"
    and "\<exists>e \<in> set es. e_type e \<in> set task_event_types \<Longrightarrow> deriveTaskState (map body es) \<noteq> []"
proof -
  have step: "derive_step m (body e) = (if e_type e \<in> set task_event_types then amap_set None (apply_task_event (e_type e) (JObj []) (e_occurred_at e) (ensure None m)) m else m)"
    if "e \<in> set es" for e m
    using that assms by (simp add: derive_step_def body_def task_of_def)
  have "foldl derive_step m (map body xs) = [] \<or> (\<exists>d. foldl derive_step m (map body xs) = [(None, d)])"
    if "m = [] \<or> (\<exists>d. m = [(None, d)])" "set xs \<subseteq> set es" for m xs
    using that
  proof (induction xs arbitrary: m)
    case (Cons e xs)
    then have "derive_step m (body e) = [] \<or> (\<exists>d. derive_step m (body e) = [(None, d)])" using step [of e m] by auto
    with Cons show ?case by simp
  qed simp
  from this [of "[]" es] show "deriveTaskState (map body es) = [] \<or> (\<exists>d. deriveTaskState (map body es) = [(None, d)])"
    by (simp add: deriveTaskState_def)
  assume "\<exists>e \<in> set es. e_type e \<in> set task_event_types"
  then obtain e xs ys where e: "es = xs @ e # ys" "e_type e \<in> set task_event_types" by (metis split_list)
  then have "derive_step m (body e) \<noteq> []" for m using step [of e m] by (simp add: amap_set_nonempty)
  then show "deriveTaskState (map body es) \<noteq> []" unfolding deriveTaskState_def e(1) by (simp add: derive_nonempty)
qed

lemma rebuild_fails_after_erasure:
  assumes "find_user userId s = Some u" and "us_erased_at u = None" and "eraseForUser userId now s = (Inr r, t)"
    and "a \<in> own_ids userId s" and "e \<in> set (events s)" and "e_attempt_id e = a" and "e_type e \<in> set task_event_types"
  shows "\<exists>x. rebuildForAttempt a t = (Inl x, t)"
proof -
  have t: "t = erased userId now s" using erase_run [OF assms(1,2), of now] assms(3) by (simp split: if_splits)
  have red: "\<forall>e \<in> set (replay a t). e_payload e = JObj []"
    using assms(4) by (auto simp: replay_def of_attempt_def t erased_def set_update_where redact_event_def)
  have "redact_event e \<in> set (replay a t)" "e_type (redact_event e) \<in> set task_event_types"
    using assms(4-7) by (auto simp: replay_def of_attempt_def t erased_def set_update_where redact_event_def)
  then have "deriveTaskState (map body (replay a t)) \<noteq> []" using derive_redacted(2) [OF red] by blast
  with derive_redacted(1) [OF red] obtain d where "deriveTaskState (map body (replay a t)) = [(None, d)]" by blast
  then show ?thesis by (simp add: rebuildForAttempt_def bnd_run andthen_def transaction_def insert_task_state_def)
qed

end
