(* ===== verification/WeightedKappa.thy ===== *)
theory WeightedKappa
  imports Schema
begin

text \<open>
  \<open>evaluation/calibration/weighted-kappa.ts\<close>: the agreement statistic that decides whether the grades of a
  rubric may be trusted. The tables \<open>observed\<close>, \<open>rowMarg\<close> and \<open>colMarg\<close> are lists updated by index, filled by
  one pass over the pairs; the two disagreement sums are accumulated by the double loop over the levels.
  Numbers are reals; \<open>None\<close> in a result stands for \<open>NaN\<close>. The lemmas relate the tables to the pairs and the
  sums to the textbook definition, and bound the statistic.
\<close>

section \<open>Model\<close>

type_synonym rating_pair = "real \<times> real"

record kappa_result =
  kr_kappa :: "real option"
  kr_exactMatch :: "real option"
  kr_meanAbsError :: "real option"
  kr_n :: nat

record tally =
  observed :: "nat list list"
  rowMarg :: "nat list"
  colMarg :: "nat list"
  exact :: nat
  absErr :: real

text \<open>\<open>new Map(levels.map((lv, i) => [lv, i]))\<close>: a level that is listed twice keeps its last index.\<close>

definition level_index :: "real list \<Rightarrow> real \<Rightarrow> nat option" where
  "level_index levels = map_of (rev (zip levels [0..<length levels]))"

definition empty_tally :: "nat \<Rightarrow> tally" where
  "empty_tally k = \<lparr>observed = replicate k (replicate k 0), rowMarg = replicate k 0, colMarg = replicate k 0, exact = 0, absErr = 0\<rparr>"

definition bump :: "nat \<Rightarrow> nat list \<Rightarrow> nat list" where
  "bump i xs = xs[i := xs ! i + 1]"

definition tally_pair :: "nat \<Rightarrow> nat \<Rightarrow> rating_pair \<Rightarrow> tally \<Rightarrow> tally" where
  "tally_pair gi ri p t =
     \<lparr>observed = (observed t)[gi := bump ri (observed t ! gi)], rowMarg = bump gi (rowMarg t), colMarg = bump ri (colMarg t),
      exact = (if fst p = snd p then exact t + 1 else exact t), absErr = absErr t + \<bar>fst p - snd p\<bar>\<rparr>"

fun tally_pairs :: "(real \<Rightarrow> nat option) \<Rightarrow> rating_pair list \<Rightarrow> tally \<Rightarrow> exn + tally" where
  "tally_pairs idx [] t = Inr t"
| "tally_pairs idx (p # ps) t =
     (case (idx (fst p), idx (snd p)) of
        (Some gi, Some ri) \<Rightarrow> tally_pairs idx ps (tally_pair gi ri p t)
      | _ \<Rightarrow> Inl (Err ''weightedKappa: rating has a level outside the scale''))"

definition weight :: "nat \<Rightarrow> nat \<Rightarrow> nat \<Rightarrow> real" where
  "weight maxDist i j = \<bar>real i - real j\<bar> / real maxDist"

definition disagreements :: "nat \<Rightarrow> nat \<Rightarrow> tally \<Rightarrow> real \<times> real" where
  "disagreements k n t =
     fold (\<lambda>i acc. fold (\<lambda>j (obs, expd).
         let w = weight (k - 1) i j
         in (obs + w * (real (observed t ! i ! j) / real n),
             expd + w * (real (rowMarg t ! i) / real n * (real (colMarg t ! j) / real n)))) [0..<k] acc)
       [0..<k] (0, 0)"

definition kappa_of :: "real \<times> real \<Rightarrow> real" where
  "kappa_of d = (if snd d = 0 then (if fst d = 0 then 1 else 0) else 1 - fst d / snd d)"

definition weightedKappa :: "rating_pair list \<Rightarrow> real list \<Rightarrow> exn + kappa_result" where
  "weightedKappa pairs levels =
     (let n = length pairs; k = length levels
      in if n = 0 then Inr \<lparr>kr_kappa = None, kr_exactMatch = None, kr_meanAbsError = None, kr_n = 0\<rparr>
         else if k < 2 then Inl (Err ''weightedKappa: need at least 2 levels'')
         else case tally_pairs (level_index levels) pairs (empty_tally k) of
           Inl e \<Rightarrow> Inl e
         | Inr t \<Rightarrow> Inr \<lparr>kr_kappa = Some (kappa_of (disagreements k n t)), kr_exactMatch = Some (real (exact t) / real n),
               kr_meanAbsError = Some (absErr t / real n), kr_n = n\<rparr>)"

section \<open>Tables and sums\<close>

lemma length_bump [simp]: "length (bump i xs) = length xs"
  by (simp add: bump_def)

lemma nth_bump: "j < length xs \<Longrightarrow> bump i xs ! j = xs ! j + (if i = j then 1 else 0)"
  by (simp add: bump_def nth_list_update)

text \<open>The indices of a list of pairs, when all levels are on the scale.\<close>

definition indices :: "(real \<Rightarrow> nat option) \<Rightarrow> rating_pair list \<Rightarrow> (nat \<times> nat) list" where
  "indices idx ps = map (\<lambda>p. (the (idx (fst p)), the (idx (snd p)))) ps"

definition on_scale :: "(real \<Rightarrow> nat option) \<Rightarrow> rating_pair list \<Rightarrow> bool" where
  "on_scale idx ps = (\<forall>p \<in> set ps. idx (fst p) \<noteq> None \<and> idx (snd p) \<noteq> None)"

lemma level_index_iff: "level_index levels x \<noteq> None \<longleftrightarrow> x \<in> set levels"
proof -
  have "fst ` set (zip levels [0..<length levels]) = set levels" by (simp add: set_map [symmetric] del: set_map)
  then show ?thesis by (simp add: level_index_def map_of_eq_None_iff)
qed

lemma level_index_Some: "level_index levels x = Some i \<Longrightarrow> i < length levels \<and> levels ! i = x"
  by (drule map_of_SomeD [where xs = "rev (zip levels [0..<length levels])", folded level_index_def]) (auto simp: in_set_zip)

definition tallies :: "nat \<Rightarrow> (nat \<times> nat) list \<Rightarrow> tally \<Rightarrow> bool" where
  "tallies k zs t = (length (observed t) = k \<and> length (rowMarg t) = k \<and> length (colMarg t) = k \<and>
     (\<forall>i < k. length (observed t ! i) = k \<and> rowMarg t ! i = count_list (map fst zs) i \<and> colMarg t ! i = count_list (map snd zs) i \<and>
       (\<forall>j < k. observed t ! i ! j = count_list zs (i, j))))"

lemma tallies_empty: "tallies k [] (empty_tally k)"
  by (simp add: tallies_def empty_tally_def)

lemma tallies_pair: "tallies k zs t \<Longrightarrow> gi < k \<Longrightarrow> ri < k \<Longrightarrow> tallies k (zs @ [(gi, ri)]) (tally_pair gi ri p t)"
  by (simp add: tallies_def tally_pair_def nth_bump nth_list_update)

lemma tally_pairs_ok:
  assumes "on_scale idx ps" and "\<And>x i. idx x = Some i \<Longrightarrow> i < k" and "tallies k zs t"
  shows "\<exists>u. tally_pairs idx ps t = Inr u \<and> tallies k (zs @ indices idx ps) u \<and>
    exact u = exact t + length (filter (\<lambda>p. fst p = snd p) ps) \<and> absErr u = absErr t + (\<Sum>p\<leftarrow>ps. \<bar>fst p - snd p\<bar>)"
  using assms(1,3)
proof (induction ps arbitrary: zs t)
  case Nil
  then show ?case by (simp add: indices_def)
next
  case (Cons p ps)
  then obtain gi ri where gr: "idx (fst p) = Some gi" "idx (snd p) = Some ri" by (auto simp: on_scale_def)
  have "tallies k (zs @ [(gi, ri)]) (tally_pair gi ri p t)" using Cons.prems(2) assms(2) gr by (intro tallies_pair) auto
  moreover have "on_scale idx ps" using Cons.prems(1) by (simp add: on_scale_def)
  ultimately obtain u where "tally_pairs idx ps (tally_pair gi ri p t) = Inr u" "tallies k ((zs @ [(gi, ri)]) @ indices idx ps) u"
      "exact u = exact (tally_pair gi ri p t) + length (filter (\<lambda>p. fst p = snd p) ps)"
      "absErr u = absErr (tally_pair gi ri p t) + (\<Sum>p\<leftarrow>ps. \<bar>fst p - snd p\<bar>)"
    using Cons.IH by blast
  then show ?case using gr by (simp add: indices_def tally_pair_def)
qed

lemma tally_pairs_err: "\<not> on_scale idx ps \<Longrightarrow> \<exists>e. tally_pairs idx ps t = Inl e"
  by (induction ps arbitrary: t) (auto simp: on_scale_def split: option.split)

lemma fold_sum2: "fold (\<lambda>j (a, b). (a + f j, b + g j)) js = (\<lambda>(a, b). (a + sum_list (map f js), b + sum_list (map (g :: 'a \<Rightarrow> real) js)))"
  by (induction js) (auto simp: algebra_simps fun_eq_iff)

lemma disagreements_sums:
  "disagreements k n t =
     ((\<Sum>i<k. \<Sum>j<k. weight (k - 1) i j * (real (observed t ! i ! j) / real n)),
      (\<Sum>i<k. \<Sum>j<k. weight (k - 1) i j * (real (rowMarg t ! i) / real n * (real (colMarg t ! j) / real n))))"
proof -
  have up: "sum_list (map f [0..<k]) = (\<Sum>i<k. f i)" for f :: "nat \<Rightarrow> real"
    by (simp add: sum_list_sum_nth atLeast0LessThan)
  have "disagreements k n t =
     fold (\<lambda>i acc. fold (\<lambda>j (a, b). (a + weight (k - 1) i j * (real (observed t ! i ! j) / real n),
       b + weight (k - 1) i j * (real (rowMarg t ! i) / real n * (real (colMarg t ! j) / real n)))) [0..<k] acc) [0..<k] (0, 0)"
    by (simp add: disagreements_def Let_def)
  also have "\<dots> = fold (\<lambda>i (a, b). (a + (\<Sum>j<k. weight (k - 1) i j * (real (observed t ! i ! j) / real n)),
       b + (\<Sum>j<k. weight (k - 1) i j * (real (rowMarg t ! i) / real n * (real (colMarg t ! j) / real n))))) [0..<k] (0, 0)"
    by (simp only: fold_sum2 up)
  finally show ?thesis by (simp only: fold_sum2 up) simp
qed

lemma sum_counts: "finite A \<Longrightarrow> set zs \<subseteq> A \<Longrightarrow> (\<Sum>a\<in>A. f a * real (count_list zs a)) = (\<Sum>z\<leftarrow>zs. f z)"
proof (induction zs)
  case (Cons z zs)
  have "(\<Sum>a\<in>A. f a * real (count_list (z # zs) a)) = (\<Sum>a\<in>A. f a * real (count_list zs a)) + (\<Sum>a\<in>A. if a = z then f a else 0)"
    by (simp add: sum.distrib [symmetric] algebra_simps) (rule sum.cong, auto simp: algebra_simps)
  then show ?case using Cons by (simp add: sum.delta)
qed simp

text \<open>The two sums of the textbook: the disagreement within the pairs, and between every rating of the grader and
  every reference rating.\<close>

definition gap :: "nat \<times> nat \<Rightarrow> real" where
  "gap z = \<bar>real (fst z) - real (snd z)\<bar>"

definition observed_gap :: "(nat \<times> nat) list \<Rightarrow> real" where
  "observed_gap zs = (\<Sum>z\<leftarrow>zs. gap z)"

definition chance_gap :: "(nat \<times> nat) list \<Rightarrow> real" where
  "chance_gap zs = (\<Sum>a\<leftarrow>zs. \<Sum>b\<leftarrow>zs. gap (fst a, snd b))"

lemma sum_list_const_div: "(\<Sum>z\<leftarrow>zs. f z / c) = (\<Sum>z\<leftarrow>zs. f z) / (c :: real)"
  by (induction zs) (simp_all add: add_divide_distrib)

lemma disagreements_textbook:
  assumes t: "tallies k zs t" and zs: "set zs \<subseteq> {..<k} \<times> {..<k}" and n: "n > 0"
  shows "disagreements k n t = (observed_gap zs / (real (k - 1) * real n), chance_gap zs / (real (k - 1) * (real n * real n)))"
proof -
  define m where "m = k - 1"
  then have m: "k - Suc 0 = m" by simp
  have rows: "set (map fst zs) \<subseteq> {..<k}" and cols: "set (map snd zs) \<subseteq> {..<k}" using zs by auto
  have w: "weight m i j = gap (i, j) / real m" for i j by (simp add: weight_def gap_def)
  have "(\<Sum>i<k. \<Sum>j<k. weight m i j * (real (observed t ! i ! j) / real n)) =
      (\<Sum>z\<in>{..<k} \<times> {..<k}. gap z * real (count_list zs z)) / (real m * real n)"
    using t by (simp add: sum.cartesian_product' sum_divide_distrib w tallies_def)
  then have obs: "fst (disagreements k n t) = observed_gap zs / (real m * real n)"
    using sum_counts [OF _ zs, of gap] by (simp add: disagreements_sums observed_gap_def m)
  have "(\<Sum>j<k. weight m i j * (real (rowMarg t ! i) / real n * (real (colMarg t ! j) / real n))) =
      (\<Sum>b\<leftarrow>zs. gap (i, snd b)) / (real m * (real n * real n)) * real (count_list (map fst zs) i)" if "i < k" for i
  proof -
    have "(\<Sum>j<k. weight m i j * (real (rowMarg t ! i) / real n * (real (colMarg t ! j) / real n))) =
        (\<Sum>j<k. gap (i, j) * real (count_list (map snd zs) j)) * (real (count_list (map fst zs) i) / (real m * (real n * real n)))"
      using t that by (simp add: sum_distrib_left sum_divide_distrib w tallies_def mult_ac)
    then show ?thesis using sum_counts [OF _ cols, of "\<lambda>j. gap (i, j)"] by (simp add: comp_def)
  qed
  then have "snd (disagreements k n t) =
      (\<Sum>i<k. (\<Sum>b\<leftarrow>zs. gap (i, snd b)) / (real m * (real n * real n)) * real (count_list (map fst zs) i))"
    by (simp add: disagreements_sums m)
  also have "\<dots> = chance_gap zs / (real m * (real n * real n))"
    using sum_counts [OF _ rows, of "\<lambda>i. (\<Sum>b\<leftarrow>zs. gap (i, snd b)) / (real m * (real n * real n))"]
    by (simp add: chance_gap_def comp_def sum_list_const_div)
  finally show ?thesis using obs by (simp add: prod_eq_iff m)
qed

section \<open>Bounds\<close>

text \<open>A distance of levels is the number of thresholds that separate them, and for one threshold the bound is a
  fact about two-by-two tables.\<close>

lemma gap_thresholds: "fst z < k \<Longrightarrow> snd z < k \<Longrightarrow> gap z = (\<Sum>t<k. of_bool ((fst z \<le> t) \<noteq> (snd z \<le> t)))"
proof -
  assume k: "fst z < k" "snd z < k"
  have "(\<Sum>t<k. of_bool ((fst z \<le> t) \<noteq> (snd z \<le> t))) = (\<Sum>t\<in>{min (fst z) (snd z)..<max (fst z) (snd z)}. (1 :: real))"
    using k by (intro sum.mono_neutral_cong_right) auto
  then show ?thesis by (auto simp: gap_def min_def max_def)
qed

lemma two_by_two:
  fixes n x y d :: real
  assumes "0 \<le> x" "x \<le> n" "0 \<le> y" "y \<le> n" "d \<le> x + y" "d \<le> 2 * n - (x + y)"
  shows "n * d \<le> 2 * (x * (n - y) + y * (n - x))"
proof -
  have "(x - y)\<^sup>2 \<ge> 0" by simp
  then have sq: "4 * (x * y) \<le> (x + y)\<^sup>2" by (simp add: power2_eq_square algebra_simps)
  have "n * d \<le> (x + y) * (2 * n - (x + y))"
  proof (cases "x + y \<le> n")
    case True
    have "n * d \<le> n * (x + y)" using assms by (intro mult_left_mono) auto
    also have "\<dots> \<le> (2 * n - (x + y)) * (x + y)" using True assms by (intro mult_right_mono) auto
    finally show ?thesis by (simp add: mult.commute)
  next
    case False
    have "n * d \<le> n * (2 * n - (x + y))" using assms by (intro mult_left_mono) auto
    also have "\<dots> \<le> (x + y) * (2 * n - (x + y))" using False assms by (intro mult_right_mono) auto
    finally show ?thesis .
  qed
  then show ?thesis using sq by (simp add: power2_eq_square algebra_simps)
qed

definition below :: "nat \<Rightarrow> nat list \<Rightarrow> real" where
  "below t xs = (\<Sum>x\<leftarrow>xs. of_bool (x \<le> t))"

lemma below_simps [simp]: "below t [] = 0" "below t (x # xs) = of_bool (x \<le> t) + below t xs"
  by (simp_all add: below_def)

lemma below_range: "0 \<le> below t xs \<and> below t xs \<le> real (length xs)"
  by (induction xs) auto

lemma split_one: "(\<Sum>z\<leftarrow>zs. of_bool ((x \<le> t) \<noteq> (snd z \<le> t))) =
    (if x \<le> t then real (length zs) - below t (map snd zs) else below t (map snd zs))"
  by (induction zs) auto

lemma split_chance: "(\<Sum>a\<leftarrow>as. \<Sum>z\<leftarrow>zs. of_bool ((fst a \<le> t) \<noteq> (snd z \<le> t))) =
    below t (map fst as) * (real (length zs) - below t (map snd zs)) +
    below t (map snd zs) * (real (length as) - below t (map fst (as :: (nat \<times> nat) list)))"
proof (induction as)
  case (Cons a as)
  have "(\<Sum>z\<leftarrow>zs. of_bool ((fst a \<le> t) \<noteq> (snd z \<le> t))) =
      (if fst a \<le> t then real (length zs) - below t (map snd zs) else below t (map snd zs))" by (rule split_one)
  then show ?case using Cons by (simp only: list.map sum_list.Cons below_simps) (simp add: algebra_simps)
qed simp

lemma split_observed:
  "(\<Sum>z\<leftarrow>zs. of_bool ((fst z \<le> t) \<noteq> (snd z \<le> t))) \<le> below t (map fst zs) + below t (map snd zs) \<and>
   (\<Sum>z\<leftarrow>zs. of_bool ((fst z \<le> t) \<noteq> (snd z \<le> t))) \<le> 2 * real (length zs) - (below t (map fst zs) + below t (map snd (zs :: (nat \<times> nat) list)))"
  by (induction zs) auto

lemma sum_list_swap: "(\<Sum>z\<leftarrow>zs. \<Sum>t<k. f z t) = (\<Sum>t<k. \<Sum>z\<leftarrow>zs. f z t :: real)"
  by (induction zs) (simp_all add: sum.distrib)

lemma sum_list_cong: "(\<And>z. z \<in> set zs \<Longrightarrow> f z = g z) \<Longrightarrow> (\<Sum>z\<leftarrow>zs. f z) = (\<Sum>z\<leftarrow>zs. g z :: real)"
  by (metis (mono_tags, lifting) map_eq_conv)

lemma observed_within_chance:
  assumes "set zs \<subseteq> {..<k} \<times> {..<k}"
  shows "real (length zs) * observed_gap zs \<le> 2 * chance_gap zs"
proof -
  have o: "observed_gap zs = (\<Sum>t<k. \<Sum>z\<leftarrow>zs. of_bool ((fst z \<le> t) \<noteq> (snd z \<le> t)))"
    unfolding observed_gap_def sum_list_swap [symmetric] using assms by (intro sum_list_cong gap_thresholds) auto
  have "(\<Sum>b\<leftarrow>zs. gap (fst a, snd b)) = (\<Sum>t<k. \<Sum>b\<leftarrow>zs. of_bool ((fst a \<le> t) \<noteq> (snd b \<le> t)))" if "a \<in> set zs" for a
    unfolding sum_list_swap [symmetric] using assms that
    by (intro sum_list_cong) (subst gap_thresholds [of _ k], auto)
  then have "chance_gap zs = (\<Sum>a\<leftarrow>zs. \<Sum>t<k. \<Sum>b\<leftarrow>zs. of_bool ((fst a \<le> t) \<noteq> (snd b \<le> t)))"
    unfolding chance_gap_def by (intro sum_list_cong)
  then have c: "chance_gap zs = (\<Sum>t<k. \<Sum>a\<leftarrow>zs. \<Sum>b\<leftarrow>zs. of_bool ((fst a \<le> t) \<noteq> (snd b \<le> t)))" by (simp only: sum_list_swap)
  have "real (length zs) * (\<Sum>z\<leftarrow>zs. of_bool ((fst z \<le> t) \<noteq> (snd z \<le> t))) \<le>
      2 * (\<Sum>a\<leftarrow>zs. \<Sum>b\<leftarrow>zs. of_bool ((fst a \<le> t) \<noteq> (snd b \<le> t)))" for t
    unfolding split_chance using below_range [of t "map fst zs"] below_range [of t "map snd zs"] split_observed [of t zs]
    by (intro two_by_two) auto
  then show ?thesis unfolding o c sum_distrib_left by (intro sum_mono)
qed

lemma gap_nonneg [simp]: "0 \<le> gap z"
  by (simp add: gap_def)

lemma observed_gap_0_iff: "observed_gap zs = 0 \<longleftrightarrow> (\<forall>z \<in> set zs. fst z = snd z)"
  unfolding observed_gap_def by (subst sum_list_nonneg_eq_0_iff) (auto simp: gap_def)

lemma gaps_nonneg: "0 \<le> observed_gap zs" "0 \<le> chance_gap zs"
  unfolding observed_gap_def chance_gap_def by (auto intro!: sum_list_nonneg)

text \<open>Where no disagreement is expected by chance there is none: the zero in \<open>kappa_of\<close> is never returned.\<close>

lemma no_chance_no_gap: "zs \<noteq> [] \<Longrightarrow> set zs \<subseteq> {..<k} \<times> {..<k} \<Longrightarrow> chance_gap zs = 0 \<Longrightarrow> observed_gap zs = 0"
  using observed_within_chance [of zs k] gaps_nonneg(1) [of zs] by (auto simp: mult_le_0_iff)

definition textbook_kappa :: "(nat \<times> nat) list \<Rightarrow> real" where
  "textbook_kappa zs = (if observed_gap zs = 0 then 1 else 1 - real (length zs) * observed_gap zs / chance_gap zs)"

lemma kappa_textbook:
  assumes "tallies k zs t" and "set zs \<subseteq> {..<k} \<times> {..<k}" and "zs \<noteq> []" and "2 \<le> k"
  shows "kappa_of (disagreements k (length zs) t) = textbook_kappa zs"
proof -
  define m where "m = real (k - 1)"
  have pos: "m > 0" "real (length zs) > 0" using assms(3,4) by (simp_all add: m_def)
  have "disagreements k (length zs) t = (observed_gap zs / (m * real (length zs)), chance_gap zs / (m * (real (length zs) * real (length zs))))"
    using disagreements_textbook [OF assms(1,2), of "length zs"] assms(3) by (simp add: m_def)
  then show ?thesis using pos no_chance_no_gap [OF assms(3,2)] by (simp add: kappa_of_def textbook_kappa_def field_simps)
qed

lemma textbook_bounds:
  assumes "set zs \<subseteq> {..<k} \<times> {..<k}" and "zs \<noteq> []"
  shows "-1 \<le> textbook_kappa zs \<and> textbook_kappa zs \<le> 1 \<and> (textbook_kappa zs = 1 \<longleftrightarrow> (\<forall>z \<in> set zs. fst z = snd z))"
proof (cases "observed_gap zs = 0")
  case True
  then show ?thesis using observed_gap_0_iff by (simp add: textbook_kappa_def)
next
  case False
  have c: "chance_gap zs > 0" using no_chance_no_gap [OF assms(2,1)] False gaps_nonneg(2) [of zs] by fastforce
  have "real (length zs) * observed_gap zs / chance_gap zs \<le> 2" using observed_within_chance [OF assms(1)] c by (simp add: divide_le_eq)
  moreover have "real (length zs) * observed_gap zs / chance_gap zs > 0"
    using c False gaps_nonneg(1) [of zs] assms(2) by (simp add: zero_less_divide_iff zero_less_mult_iff)
  ultimately show ?thesis using False observed_gap_0_iff [of zs] by (auto simp: textbook_kappa_def)
qed

lemma chance_gap_swap: "chance_gap (map prod.swap zs) = chance_gap zs"
proof -
  have swap: "(\<Sum>a\<leftarrow>as. \<Sum>b\<leftarrow>bs. f a b) = (\<Sum>b\<leftarrow>bs. \<Sum>a\<leftarrow>as. f a b)" for as bs :: "(nat \<times> nat) list" and f :: "_ \<Rightarrow> _ \<Rightarrow> real"
    by (induction as) (simp_all add: sum_list_addf)
  have "chance_gap (map prod.swap zs) = (\<Sum>a\<leftarrow>zs. \<Sum>b\<leftarrow>zs. gap (fst b, snd a))"
    by (simp add: chance_gap_def comp_def gap_def abs_minus_commute)
  also have "\<dots> = chance_gap zs" unfolding chance_gap_def by (rule swap)
  finally show ?thesis .
qed

lemma textbook_swap: "textbook_kappa (map prod.swap zs) = textbook_kappa zs"
proof -
  have "observed_gap (map prod.swap zs) = observed_gap zs"
    by (simp add: observed_gap_def comp_def gap_def abs_minus_commute)
  then show ?thesis by (simp add: textbook_kappa_def chance_gap_swap)
qed

section \<open>Properties\<close>

lemma weightedKappa_run:
  assumes "pairs \<noteq> []" and "2 \<le> length levels" and "\<forall>p \<in> set pairs. fst p \<in> set levels \<and> snd p \<in> set levels"
  shows "weightedKappa pairs levels = Inr \<lparr>kr_kappa = Some (textbook_kappa (indices (level_index levels) pairs)),
      kr_exactMatch = Some (real (length (filter (\<lambda>p. fst p = snd p) pairs)) / real (length pairs)),
      kr_meanAbsError = Some ((\<Sum>p\<leftarrow>pairs. \<bar>fst p - snd p\<bar>) / real (length pairs)), kr_n = length pairs\<rparr>"
    and "set (indices (level_index levels) pairs) \<subseteq> {..<length levels} \<times> {..<length levels}"
    and "(\<forall>z \<in> set (indices (level_index levels) pairs). fst z = snd z) \<longleftrightarrow> (\<forall>p \<in> set pairs. fst p = snd p)"
proof -
  let ?idx = "level_index levels" let ?zs = "indices ?idx pairs"
  have some: "\<exists>g r. ?idx (fst p) = Some g \<and> ?idx (snd p) = Some r" if "p \<in> set pairs" for p
    using assms(3) level_index_iff that by auto
  then have on: "on_scale ?idx pairs" by (auto simp: on_scale_def)
  show in_range: "set ?zs \<subseteq> {..<length levels} \<times> {..<length levels}"
    using some level_index_Some by (force simp: indices_def)
  obtain u where u: "tally_pairs ?idx pairs (empty_tally (length levels)) = Inr u" "tallies (length levels) ?zs u"
      "exact u = length (filter (\<lambda>p. fst p = snd p) pairs)" "absErr u = (\<Sum>p\<leftarrow>pairs. \<bar>fst p - snd p\<bar>)"
    using tally_pairs_ok [OF on _ tallies_empty [of "length levels"]] level_index_Some by (auto simp: empty_tally_def)
  have len: "length ?zs = length pairs" "?zs \<noteq> []" using assms(1) by (simp_all add: indices_def)
  show "weightedKappa pairs levels = Inr \<lparr>kr_kappa = Some (textbook_kappa ?zs),
      kr_exactMatch = Some (real (length (filter (\<lambda>p. fst p = snd p) pairs)) / real (length pairs)),
      kr_meanAbsError = Some ((\<Sum>p\<leftarrow>pairs. \<bar>fst p - snd p\<bar>) / real (length pairs)), kr_n = length pairs\<rparr>"
    using kappa_textbook [OF u(2) in_range len(2) assms(2)] u(1,3,4) assms(1,2) len(1) by (simp add: weightedKappa_def Let_def)
  have "the (?idx (fst p)) = the (?idx (snd p)) \<longleftrightarrow> fst p = snd p" if "p \<in> set pairs" for p
    using some [OF that] level_index_Some by (metis option.sel)
  then show "(\<forall>z \<in> set ?zs. fst z = snd z) \<longleftrightarrow> (\<forall>p \<in> set pairs. fst p = snd p)" by (simp add: indices_def)
qed

lemma weightedKappa_err: "\<not> on_scale (level_index levels) pairs \<Longrightarrow> \<exists>e. weightedKappa pairs levels = Inl e"
  using tally_pairs_err [of "level_index levels" pairs "empty_tally (length levels)"]
  by (auto simp: weightedKappa_def Let_def on_scale_def)

text \<open>C34. The table-driven computation is the textbook statistic: given at least one pair and two levels, the
  call answers exactly when every rating is on the scale, and the kappa is one minus the ratio of the mean
  level distance within the pairs to the mean level distance between all ratings of the grader and all
  reference ratings (1 where the pairs do not differ), with the exact share of matches and mean error.\<close>

theorem kappa_is_textbook:
  assumes "pairs \<noteq> []" and "2 \<le> length levels"
  shows "case weightedKappa pairs levels of
      Inl e \<Rightarrow> \<not> (\<forall>p \<in> set pairs. fst p \<in> set levels \<and> snd p \<in> set levels)
    | Inr r \<Rightarrow> (\<forall>p \<in> set pairs. fst p \<in> set levels \<and> snd p \<in> set levels) \<and>
        kr_kappa r = Some (textbook_kappa (indices (level_index levels) pairs)) \<and> kr_n r = length pairs \<and>
        kr_exactMatch r = Some (real (length (filter (\<lambda>p. fst p = snd p) pairs)) / real (length pairs)) \<and>
        kr_meanAbsError r = Some ((\<Sum>p\<leftarrow>pairs. \<bar>fst p - snd p\<bar>) / real (length pairs))"
proof (cases "\<forall>p \<in> set pairs. fst p \<in> set levels \<and> snd p \<in> set levels")
  case True
  then show ?thesis using weightedKappa_run(1) [OF assms] by simp
next
  case False
  then obtain e where "weightedKappa pairs levels = Inl e"
    using weightedKappa_err [of levels pairs] unfolding on_scale_def level_index_iff by blast
  then show ?thesis using False by simp
qed

text \<open>Property. The statistic means what the calibration reads from it: it always lies between -1 and 1, it is 1
  exactly when grader and reference agree on every pair, and exchanging grader and reference does not
  change it.\<close>

theorem kappa_bounded:
  assumes "pairs \<noteq> []" and "weightedKappa pairs levels = Inr r"
  shows "\<exists>\<kappa>. kr_kappa r = Some \<kappa> \<and> -1 \<le> \<kappa> \<and> \<kappa> \<le> 1 \<and> (\<kappa> = 1 \<longleftrightarrow> (\<forall>p \<in> set pairs. fst p = snd p)) \<and>
    (\<exists>q. weightedKappa (map prod.swap pairs) levels = Inr q \<and> kr_kappa q = Some \<kappa>)"
proof -
  have sc: "2 \<le> length levels" "\<forall>p \<in> set pairs. fst p \<in> set levels \<and> snd p \<in> set levels"
  proof -
    show k: "2 \<le> length levels" using assms by (auto simp: weightedKappa_def Let_def split: if_splits)
    show "\<forall>p \<in> set pairs. fst p \<in> set levels \<and> snd p \<in> set levels"
      using weightedKappa_err [of levels pairs] assms(2) unfolding on_scale_def level_index_iff by force
  qed
  let ?zs = "indices (level_index levels) pairs"
  note run = weightedKappa_run [OF assms(1) sc]
  have "weightedKappa (map prod.swap pairs) levels = Inr q \<longrightarrow> kr_kappa q = Some (textbook_kappa (map prod.swap ?zs))" for q
    using weightedKappa_run(1) [of "map prod.swap pairs" levels] assms(1) sc by (auto simp: indices_def comp_def)
  moreover obtain q where "weightedKappa (map prod.swap pairs) levels = Inr q"
    using weightedKappa_run(1) [of "map prod.swap pairs" levels] assms(1) sc by auto
  ultimately have "\<exists>q. weightedKappa (map prod.swap pairs) levels = Inr q \<and> kr_kappa q = Some (textbook_kappa ?zs)"
    using textbook_swap by auto
  then show ?thesis using textbook_bounds [OF run(2)] run(1,3) assms by (auto simp: indices_def)
qed

theorem kappa_is_textbook_witness:
  "\<exists>r. weightedKappa [(1, 2), (3, 3)] [1, 2, 3] = Inr r \<and> kr_kappa r = Some (textbook_kappa [(0, 1), (2, 2)])"
proof (cases "weightedKappa [(1, 2), (3, 3)] [1, 2, 3]")
  case (Inr r)
  then show ?thesis using kappa_is_textbook [of "[(1, 2), (3, 3)]" "[1, 2, 3]"] by (auto simp: indices_def level_index_def upt_rec numeral_2_eq_2)
qed (use kappa_is_textbook [of "[(1, 2), (3, 3)]" "[1, 2, 3]"] in simp)

theorem kappa_bounded_witness:
  "\<exists>r. weightedKappa [(1, 2), (3, 3)] [1, 2, 3] = Inr r \<and> (\<exists>\<kappa>. kr_kappa r = Some \<kappa> \<and> -1 \<le> \<kappa> \<and> \<kappa> < 1)"
proof -
  obtain r where r: "weightedKappa [(1, 2), (3, 3)] [1, 2, 3] = Inr r" using weightedKappa_run(1) [of "[(1, 2), (3, 3)]" "[1, 2, 3]"] by auto
  with kappa_bounded [OF _ r] show ?thesis by fastforce
qed

end
