(* ===== verification/T3Shell.thy ===== *)
theory T3Shell
  imports ValidatorRunner JsRegex
begin

text \<open>
  The boundary the project-mode validators stand on: \<open>evaluation/t3/shell-runner.ts\<close>,
  \<open>orchestrator-shell-runner.ts\<close>, \<open>json-util.ts\<close> and \<open>evaluation/grpc-validator-executor.ts\<close>. Commands run in a
  world the program does not control, of any type \<open>'w\<close>: what a command answers and how it changes the
  world, the clock and a sleep are parameters, gathered in records. \<open>JSON.parse\<close> and \<open>JSON.stringify\<close> are
  parameters too. A number that may be \<open>NaN\<close> is an option. The lemmas show that quoting is exact:
  the shell reads back the arguments that were quoted, whatever characters they hold.
\<close>

section \<open>JSON access\<close>

definition parseLooseJson :: "(string \<Rightarrow> json option) \<Rightarrow> string \<Rightarrow> json option" where
  "parseLooseJson parse s =
     (let t = dropWhile (\<lambda>c. c \<noteq> CHR ''['' \<and> c \<noteq> CHR ''{'') s in if t = [] then None else parse t)"

text \<open>\<open>asRecord\<close> gives the properties of an object and no properties otherwise; \<open>at_key\<close> reads one of them.\<close>

fun asRecord :: "json option \<Rightarrow> (string \<times> json) list" where
  "asRecord (Some (JObj fs)) = fs"
| "asRecord _ = []"

abbreviation at_key :: "(string \<times> json) list \<Rightarrow> string \<Rightarrow> json option" where
  "at_key fs k \<equiv> map_of fs k"

fun asArray :: "json option \<Rightarrow> json list" where
  "asArray (Some (JArr xs)) = xs"
| "asArray _ = []"

fun asString :: "json option \<Rightarrow> string \<Rightarrow> string" where
  "asString (Some (JStr s)) fallback = s"
| "asString _ fallback = fallback"

fun asNumber :: "json option \<Rightarrow> real option \<Rightarrow> real option" where
  "asNumber (Some (JNum x)) fallback = Some x"
| "asNumber _ fallback = fallback"

fun asBool :: "json option \<Rightarrow> bool" where
  "asBool (Some (JBool b)) = b"
| "asBool _ = False"

fun pickString :: "(string \<times> json) list \<Rightarrow> string list \<Rightarrow> string \<Rightarrow> string" where
  "pickString fs [] fallback = fallback"
| "pickString fs (k # ks) fallback = (case at_key fs k of
     Some (JStr v) \<Rightarrow> if length v > 0 then v else pickString fs ks fallback
   | _ \<Rightarrow> pickString fs ks fallback)"

section \<open>Shell runners\<close>

record shell_command =
  sc_argv :: "string list"
  sc_cwd :: "string option"
  sc_env :: "(string \<times> string) list"
  sc_timeoutMs :: "nat option"

record shell_result =
  sr_exitCode :: int
  sr_stdout :: string
  sr_stderr :: string
  sr_infraError :: "string option"
  sr_durationMs :: nat

record 'w clock =
  ck_now :: "'w \<Rightarrow> nat"
  ck_sleep :: "nat \<Rightarrow> 'w \<Rightarrow> 'w"

record 'w shell =
  sh_backend :: string
  sh_run :: "shell_command \<Rightarrow> ('w, exn, shell_result) io"

definition plain_command :: "string list \<Rightarrow> nat \<Rightarrow> shell_command" where
  "plain_command argv ms = \<lparr>sc_argv = argv, sc_cwd = None, sc_env = [], sc_timeoutMs = Some ms\<rparr>"

text \<open>\<open>'...'\<close> with every single quote of the text written as \<open>'\''\<close>.\<close>

definition shQuote :: "string \<Rightarrow> string" where
  "shQuote s = CHR 0x27 # concat (map (\<lambda>c. if c = CHR 0x27 then [CHR 0x27, CHR 0x5C, CHR 0x27, CHR 0x27] else [c]) s) @ [CHR 0x27]"

record exec_shell_request =
  es_environmentId :: string
  es_command :: string
  es_timeoutMs :: nat
  es_attemptId :: string

record exec_shell_response =
  er_exitCode :: "int option"
  er_stdout :: "string option"
  er_stderr :: "string option"
  er_errorMessage :: "string option"
  er_durationMs :: "nat option"

text \<open>The remote call and its deadline.\<close>

type_synonym 'w exec_shell_rpc = "exec_shell_request \<Rightarrow> nat \<Rightarrow> ('w, exn, exec_shell_response) io"

definition command_line :: "shell_command \<Rightarrow> string" where
  "command_line cmd =
     (let envPrefix = join '' '' (map (\<lambda>(k, v). k @ ''='' @ shQuote v) (sc_env cmd));
          argvStr = join '' '' (map shQuote (sc_argv cmd));
          cdPrefix = (if truthy (sc_cwd cmd) then ''cd '' @ shQuote (the (sc_cwd cmd)) @ '' && '' else [])
      in cdPrefix @ (if envPrefix \<noteq> [] then envPrefix @ '' '' else []) @ argvStr)"

fun exn_message :: "exn \<Rightarrow> string" where
  "exn_message (Err m) = m"
| "exn_message (RemoteErr m) = m"
| "exn_message (NotFound m) = m"
| "exn_message (BadRequest m) = m"
| "exn_message (Conflict m) = m"
| "exn_message (DbErr m) = m"
| "exn_message (Forbidden m) = m"
| "exn_message (Unauthorized m) = m"
| "exn_message (ProjectErr c m) = m"
| "exn_message (AttemptErr rs) = []"
| "exn_message NoResult = ''no result''"

definition runBound :: "'w clock \<Rightarrow> 'w exec_shell_rpc \<Rightarrow> string \<Rightarrow> string \<Rightarrow> shell_command \<Rightarrow> ('w, exn, shell_result) io" where
  "runBound ck rpc environmentId attemptId cmd =
     bnd (query (ck_now ck)) (\<lambda>start.
     try_catch
       (bnd (rpc \<lparr>es_environmentId = environmentId, es_command = command_line cmd,
                  es_timeoutMs = (case sc_timeoutMs cmd of None \<Rightarrow> 0 | Some ms \<Rightarrow> ms), es_attemptId = attemptId\<rparr>
                 ((case sc_timeoutMs cmd of None \<Rightarrow> 120000 | Some ms \<Rightarrow> ms) + 5000)) (\<lambda>response.
        bnd (query (ck_now ck)) (\<lambda>now.
        ret \<lparr>sr_exitCode = (case er_exitCode response of None \<Rightarrow> -1 | Some c \<Rightarrow> c),
             sr_stdout = (case er_stdout response of None \<Rightarrow> [] | Some t \<Rightarrow> t),
             sr_stderr = (case er_stderr response of None \<Rightarrow> [] | Some t \<Rightarrow> t),
             sr_infraError = (if truthy (er_errorMessage response) then er_errorMessage response else None),
             sr_durationMs = (case er_durationMs response of None \<Rightarrow> now - start | Some d \<Rightarrow> d)\<rparr>)))
       (\<lambda>err. bnd (query (ck_now ck)) (\<lambda>now.
          ret \<lparr>sr_exitCode = -1, sr_stdout = [], sr_stderr = [], sr_infraError = Some (exn_message err), sr_durationMs = now - start\<rparr>)))"

definition ORCHESTRATOR_BACKEND :: string where
  "ORCHESTRATOR_BACKEND = ''orchestrator-exec-shell''"

definition forAttempt :: "'w clock \<Rightarrow> 'w exec_shell_rpc \<Rightarrow> string \<Rightarrow> string \<Rightarrow> 'w shell" where
  "forAttempt ck rpc environmentId attemptId =
     \<lparr>sh_backend = ORCHESTRATOR_BACKEND, sh_run = runBound ck rpc environmentId attemptId\<rparr>"

section \<open>The remote executor\<close>

record t3_spec = validator_spec +
  ts_run :: "string option"
  ts_expect :: "json option"

record exec_validator_request =
  ev_environmentId :: string
  ev_validatorId :: string
  ev_validatorType :: string
  ev_run :: string
  ev_expectJson :: string
  ev_timeoutMs :: nat
  ev_attemptId :: string

record exec_validator_response =
  ep_status :: "validator_status option"
  ep_observedJson :: "string option"
  ep_durationMs :: "nat option"

record 'w validator_rpc =
  vr_execValidator :: "exec_validator_request \<Rightarrow> nat \<Rightarrow> ('w, exn, exec_validator_response) io"
  vr_checkRegression :: "string \<Rightarrow> string \<Rightarrow> nat \<Rightarrow> ('w, exn, bool \<times> string list) io"
  vr_parse :: "string \<Rightarrow> json option"
  vr_stringify :: "json \<Rightarrow> string"

definition executeNoRegression :: "'w clock \<Rightarrow> 'w validator_rpc \<Rightarrow> string \<Rightarrow> t3_spec \<Rightarrow> ('w, exn, exec_result) io" where
  "executeNoRegression ck rpc environmentId spec =
     bnd (query (ck_now ck)) (\<lambda>start.
     if \<not> truthy (ts_run spec)
     then ret \<lparr>xr_validatorId = vs_id spec, xr_status = VERROR, xr_observed = None, xr_expected = ts_expect spec, xr_durationMs = 0\<rparr>
     else try_catch
       (bnd (vr_checkRegression rpc environmentId (the (ts_run spec)) ((case vs_timeout_ms spec of None \<Rightarrow> 30000 | Some ms \<Rightarrow> ms) + 5000))
          (\<lambda>(regressionFound, regressedResources).
        bnd (query (ck_now ck)) (\<lambda>now.
        ret \<lparr>xr_validatorId = vs_id spec, xr_status = (if regressionFound then VFAIL else VPASS),
             xr_observed = Some (JObj [(''regressed_resources'', JArr (map JStr regressedResources))]),
             xr_expected = ts_expect spec, xr_durationMs = now - start\<rparr>)))
       (\<lambda>err. bnd (query (ck_now ck)) (\<lambda>now.
          ret \<lparr>xr_validatorId = vs_id spec, xr_status = VERROR, xr_observed = None, xr_expected = ts_expect spec, xr_durationMs = now - start\<rparr>)))"

definition grpc_execute :: "'w clock \<Rightarrow> 'w validator_rpc \<Rightarrow> string \<Rightarrow> string \<Rightarrow> t3_spec \<Rightarrow> ('w, exn, exec_result) io" where
  "grpc_execute ck rpc environmentId attemptId spec =
     (if vs_type spec = ''NO_REGRESSION'' then executeNoRegression ck rpc environmentId spec
      else bnd (query (ck_now ck)) (\<lambda>start.
        try_catch
          (bnd (vr_execValidator rpc
                  \<lparr>ev_environmentId = environmentId, ev_validatorId = vs_id spec, ev_validatorType = vs_type spec,
                   ev_run = (case ts_run spec of None \<Rightarrow> [] | Some r \<Rightarrow> r),
                   ev_expectJson = vr_stringify rpc (case ts_expect spec of None \<Rightarrow> JObj [] | Some j \<Rightarrow> j),
                   ev_timeoutMs = (case vs_timeout_ms spec of None \<Rightarrow> 0 | Some ms \<Rightarrow> ms), ev_attemptId = attemptId\<rparr>
                  ((case vs_timeout_ms spec of None \<Rightarrow> 30000 | Some ms \<Rightarrow> ms) + 5000)) (\<lambda>response.
           bnd (query (ck_now ck)) (\<lambda>now.
           ret \<lparr>xr_validatorId = vs_id spec,
                xr_status = (case ep_status response of None \<Rightarrow> VERROR | Some st \<Rightarrow> st),
                xr_observed = (if truthy (ep_observedJson response)
                  then (case vr_parse rpc (the (ep_observedJson response)) of
                          Some j \<Rightarrow> Some j | None \<Rightarrow> Some (JStr (the (ep_observedJson response))))
                  else None),
                xr_expected = ts_expect spec,
                xr_durationMs = (case ep_durationMs response of None \<Rightarrow> now - start | Some d \<Rightarrow> d)\<rparr>)))
          (\<lambda>err. bnd (query (ck_now ck)) (\<lambda>now.
             ret \<lparr>xr_validatorId = vs_id spec, xr_status = VERROR, xr_observed = None, xr_expected = ts_expect spec,
                  xr_durationMs = now - start\<rparr>))))"

section \<open>Quoting\<close>

text \<open>
  How the shell reads the part of its language that the runner writes: blanks separate words, between single
  quotes every character stands for itself, a backslash outside of them keeps the next character, \<open>&&\<close> ends a
  command. Every other character that means something to the shell makes the reading undefined.
\<close>

datatype shell_token = Word string | AndIf

datatype reader = Between | InWord string | Quoted string | Escaped string

definition plain :: "char \<Rightarrow> bool" where
  "plain c \<longleftrightarrow> is_word c \<or> c \<in> {CHR ''='', CHR ''-'', CHR ''.'', CHR ''/'', CHR '':'', CHR '',''}"

fun word_of :: "reader \<Rightarrow> string" where
  "word_of Between = []"
| "word_of (InWord w) = w"
| "word_of (Quoted w) = w"
| "word_of (Escaped w) = w"

fun flush :: "reader \<Rightarrow> shell_token list" where
  "flush (InWord w) = [Word w]"
| "flush _ = []"

definition before :: "shell_token list \<Rightarrow> shell_token list option \<Rightarrow> shell_token list option" where
  "before ts x = map_option (\<lambda>us. ts @ us) x"

lemma before_simps [simp]: "before [] x = x" "before ts (before us x) = before (ts @ us) x" "before ts (Some us) = Some (ts @ us)"
  by (cases x; simp add: before_def)+

fun sh_read :: "reader \<Rightarrow> string \<Rightarrow> shell_token list option" where
  "sh_read (Quoted w) [] = None"
| "sh_read (Escaped w) [] = None"
| "sh_read st [] = Some (flush st)"
| "sh_read (Quoted w) (c # cs) = (if c = CHR 0x27 then sh_read (InWord w) cs else sh_read (Quoted (w @ [c])) cs)"
| "sh_read (Escaped w) (c # cs) = sh_read (InWord (w @ [c])) cs"
| "sh_read st (c # cs) =
     (if c = CHR '' '' then before (flush st) (sh_read Between cs)
      else if c = CHR 0x27 then sh_read (Quoted (word_of st)) cs
      else if c = CHR 0x5C then sh_read (Escaped (word_of st)) cs
      else if c = CHR ''&'' then (case cs of [] \<Rightarrow> None | d # ds \<Rightarrow>
             if d = CHR ''&'' then before (flush st @ [AndIf]) (sh_read Between ds) else None)
      else if plain c then sh_read (InWord (word_of st @ [c])) cs else None)"

fun open_word :: "reader \<Rightarrow> bool" where
  "open_word Between = True"
| "open_word (InWord w) = True"
| "open_word _ = False"

lemma read_quoted: "sh_read (Quoted w) (concat (map (\<lambda>c. if c = CHR 0x27 then [CHR 0x27, CHR 0x5C, CHR 0x27, CHR 0x27] else [c]) s) @ CHR 0x27 # t) =
    sh_read (InWord (w @ s)) t"
  by (induction s arbitrary: w) simp_all

lemma read_shQuote [simp]: "open_word st \<Longrightarrow> sh_read st (shQuote s @ t) = sh_read (InWord (word_of st @ s)) t"
  by (cases st) (simp_all add: shQuote_def read_quoted)

lemma read_plain: "open_word st \<Longrightarrow> list_all plain w \<Longrightarrow> w \<noteq> [] \<Longrightarrow> sh_read st (w @ t) = sh_read (InWord (word_of st @ w)) t"
proof (induction w arbitrary: st)
  case (Cons c w)
  have "c \<noteq> CHR '' ''" "c \<noteq> CHR 0x27" "c \<noteq> CHR 0x5C" "c \<noteq> CHR ''&''"
    using Cons.prems(2) by (auto simp: plain_def is_word_def is_alnum_def is_digit_def is_upper_def is_lower_def char_code_def)
  then have step: "sh_read st ((c # w) @ t) = sh_read (InWord (word_of st @ [c])) (w @ t)" using Cons.prems by (cases st) simp_all
  show ?case
  proof (cases w)
    case Nil
    then show ?thesis using step by simp
  next
    case (Cons d ds)
    then show ?thesis using step Cons.IH [of "InWord (word_of st @ [c])"] Cons.prems by simp
  qed
qed simp

lemma read_words_then:
  assumes "\<And>x t. x \<in> set xs \<Longrightarrow> sh_read Between (f x @ t) = sh_read (InWord (g x)) t" and "xs \<noteq> []"
  shows "sh_read Between (join '' '' (map f xs) @ CHR '' '' # t) = before (map (\<lambda>x. Word (g x)) xs) (sh_read Between t)"
  using assms
proof (induction xs rule: induct_list012)
  case (3 x y ys)
  then have "sh_read Between (join '' '' (map f (y # ys)) @ CHR '' '' # t) = before (map (\<lambda>x. Word (g x)) (y # ys)) (sh_read Between t)"
    by simp
  then show ?case using 3(3) by simp
qed simp_all

lemma read_words:
  assumes "\<And>x t. x \<in> set xs \<Longrightarrow> sh_read Between (f x @ t) = sh_read (InWord (g x)) t"
  shows "sh_read Between (join '' '' (map f xs)) = Some (map (\<lambda>x. Word (g x)) xs)"
  using assms
proof (induction xs rule: induct_list012)
  case (2 x)
  then show ?case using 2 [of x "[]"] by simp
next
  case (3 x y ys)
  then have "sh_read Between (join '' '' (map f (y # ys))) = Some (map (\<lambda>x. Word (g x)) (y # ys))" by simp
  then show ?case using 3(3) by simp
qed simp_all

lemma read_cd: "sh_read Between (''cd '' @ shQuote d @ '' && '' @ t) = before [Word ''cd'', Word d, AndIf] (sh_read Between t)"
proof -
  have cd: "sh_read Between (''cd'' @ CHR '' '' # u) = before [Word ''cd''] (sh_read Between u)" for u
    using read_plain [of Between "''cd''" "CHR '' '' # u"] by (simp add: plain_def is_word_def is_alnum_def is_lower_def char_code_def)
  show ?thesis using cd [of "shQuote d @ '' && '' @ t"] by simp
qed

definition demo_command :: shell_command where
  "demo_command = \<lparr>sc_argv = [''echo'', [CHR 0x27, CHR '';'']], sc_cwd = Some ''my dir'', sc_env = [(''A'', ''$x'')], sc_timeoutMs = None\<rparr>"

text \<open>C35. Quoting is exact: reading the command line that is sent to the environment, the shell sees the change
  of directory, the variable settings and then precisely the arguments the validator passed, as one word
  each, whatever quotes, blanks, newlines or operators they contain.\<close>

theorem quoting_exact:
  assumes "\<forall>kv \<in> set (sc_env cmd). fst kv \<noteq> [] \<and> list_all plain (fst kv)"
  shows "sh_read Between (command_line cmd) = Some
    ((if truthy (sc_cwd cmd) then [Word ''cd'', Word (the (sc_cwd cmd)), AndIf] else []) @
     map (\<lambda>kv. Word (fst kv @ ''='' @ snd kv)) (sc_env cmd) @ map Word (sc_argv cmd))"
proof -
  have set: "sh_read Between ((case kv of (k, v) \<Rightarrow> k @ ''='' @ shQuote v) @ t) = sh_read (InWord (fst kv @ ''='' @ snd kv)) t"
    if "kv \<in> set (sc_env cmd)" for kv t
    using assms that read_plain [of Between "fst kv @ ''=''" "shQuote (snd kv) @ t"] by (simp add: case_prod_unfold plain_def)
  have argv: "sh_read Between (join '' '' (map shQuote (sc_argv cmd))) = Some (map Word (sc_argv cmd))"
    using read_words [of "sc_argv cmd" shQuote "\<lambda>w. w"] by (simp add: comp_def)
  define E where "E = join '' '' (map (\<lambda>(k, v). k @ ''='' @ shQuote v) (sc_env cmd))"
  define A where "A = join '' '' (map shQuote (sc_argv cmd))"
  have nonempty: "E = [] \<longleftrightarrow> sc_env cmd = []"
    by (cases "sc_env cmd" rule: list.exhaust; cases "tl (sc_env cmd)") (auto simp: E_def case_prod_unfold)
  have "sc_env cmd \<noteq> [] \<Longrightarrow> sh_read Between (E @ CHR '' '' # A) = before (map (\<lambda>kv. Word (fst kv @ ''='' @ snd kv)) (sc_env cmd)) (sh_read Between A)"
    unfolding E_def using read_words_then [of "sc_env cmd" "\<lambda>(k, v). k @ ''='' @ shQuote v" "\<lambda>kv. fst kv @ ''='' @ snd kv" A] set
    by (simp add: comp_def)
  then have rest: "sh_read Between ((if E \<noteq> [] then E @ '' '' else []) @ A) =
      Some (map (\<lambda>kv. Word (fst kv @ ''='' @ snd kv)) (sc_env cmd) @ map Word (sc_argv cmd))"
    using argv unfolding A_def by (simp add: nonempty)
  show ?thesis
  proof (cases "truthy (sc_cwd cmd)")
    case True
    then show ?thesis using read_cd [of "the (sc_cwd cmd)"] rest unfolding command_line_def Let_def E_def [symmetric] A_def [symmetric] by simp
  next
    case False
    then show ?thesis using rest unfolding command_line_def Let_def E_def [symmetric] A_def [symmetric] by simp
  qed
qed

theorem quoting_exact_witness:
  "sh_read Between (command_line demo_command) = Some [Word ''cd'', Word ''my dir'', AndIf, Word ''A=$x'', Word ''echo'', Word [CHR 0x27, CHR '';'']]"
  using quoting_exact [of demo_command]
  by (simp add: demo_command_def truthy_def plain_def is_word_def is_alnum_def is_upper_def char_code_def)

section \<open>Failures of the platform\<close>

text \<open>A call whose continuation and handler only read never throws, whatever the remote side does.\<close>

lemma handled_run:
  assumes "\<And>x w. \<exists>y w'. f x w = (Inr y, w')" and "\<And>e w. \<exists>y w'. h e w = (Inr y, w')"
  shows "\<exists>y w'. try_catch (bnd m f) h w = (Inr y, w')"
proof -
  obtain r w' where r: "m w = (r, w')" by fastforce
  show ?thesis
  proof (cases r)
    case (Inl e)
    then show ?thesis using r assms(2) [of e w'] by (auto simp: try_catch_def bnd_def)
  next
    case (Inr x)
    then show ?thesis using r assms(1) [of x w'] by (auto simp: try_catch_def bnd_def)
  qed
qed

lemma runBound_total: "\<exists>r w'. runBound ck rpc env a cmd w = (Inr r, w')"
  unfolding runBound_def bnd_Inr [OF query_run] by (rule handled_run) (simp_all add: bnd_def)

lemma grpc_execute_total: "\<exists>r w'. grpc_execute ck rpc env a spec w = (Inr r, w')"
proof (cases "vs_type spec = ''NO_REGRESSION''")
  case True
  have "\<exists>r w'. executeNoRegression ck rpc env spec w = (Inr r, w')"
  proof (cases "truthy (ts_run spec)")
    case True
    then have "executeNoRegression ck rpc env spec w = try_catch
       (bnd (vr_checkRegression rpc env (the (ts_run spec)) ((case vs_timeout_ms spec of None \<Rightarrow> 30000 | Some ms \<Rightarrow> ms) + 5000))
          (\<lambda>(regressionFound, regressedResources). bnd (query (ck_now ck)) (\<lambda>now.
        ret \<lparr>xr_validatorId = vs_id spec, xr_status = (if regressionFound then VFAIL else VPASS),
             xr_observed = Some (JObj [(''regressed_resources'', JArr (map JStr regressedResources))]),
             xr_expected = ts_expect spec, xr_durationMs = now - ck_now ck w\<rparr>)))
       (\<lambda>err. bnd (query (ck_now ck)) (\<lambda>now.
          ret \<lparr>xr_validatorId = vs_id spec, xr_status = VERROR, xr_observed = None, xr_expected = ts_expect spec, xr_durationMs = now - ck_now ck w\<rparr>)) w"
      by (simp add: executeNoRegression_def bnd_def)
    then show ?thesis by (simp only:) (rule handled_run, auto simp: bnd_def)
  qed (simp add: executeNoRegression_def bnd_def)
  then show ?thesis using True by (simp add: grpc_execute_def)
next
  case False
  show ?thesis unfolding grpc_execute_def if_not_P [OF False] bnd_Inr [OF query_run] by (rule handled_run) (simp_all add: bnd_def)
qed

end
