(* ===== verification/T3Executors.thy ===== *)
theory T3Executors
  imports T3Shell
begin

text \<open>
  The validators of project mode, \<open>evaluation/t3/*.executor.ts\<close>: Terraform state, static analysis, test suites,
  load tests, cloud topology, chaos probes, and the dispatch of \<open>t3-validator.executor.ts\<close>. A configuration
  is the record its interface declares (the JSON schema of an activity checks it when it is published); a
  configuration that is missing is the record without any field. Explanatory texts (details, evidence,
  locations and samples of findings) are left out, and so are check names inherited from
  \<open>Object.prototype\<close>. A chaos probe loops until a deadline, so it may not return:
  its result is \<open>None\<close> then.
\<close>

section \<open>Results\<close>

definition t3_result :: "'w clock \<Rightarrow> nat \<Rightarrow> string \<Rightarrow> validator_status \<Rightarrow> json option \<Rightarrow> json option \<Rightarrow> ('w, exn, exec_result) io" where
  "t3_result ck start validatorId status observed expected = bnd (query (ck_now ck)) (\<lambda>now.
     ret \<lparr>xr_validatorId = validatorId, xr_status = status, xr_observed = observed, xr_expected = expected, xr_durationMs = now - start\<rparr>)"

definition t3_error :: "'w clock \<Rightarrow> nat \<Rightarrow> string \<Rightarrow> ('w, exn, exec_result) io" where
  "t3_error ck start validatorId = t3_result ck start validatorId VERROR None None"

definition infra :: "shell_result \<Rightarrow> bool" where
  "infra r = truthy (sr_infraError r)"

definition pass_fail :: "bool \<Rightarrow> validator_status" where
  "pass_fail b = (if b then VPASS else VFAIL)"

text \<open>\<open>Number(x.toFixed(d))\<close>.\<close>

definition to_fixed :: "nat \<Rightarrow> real \<Rightarrow> real" where
  "to_fixed d x = (if x < 0 then - of_int (js_round (- x * 10 ^ d)) / 10 ^ d else of_int (js_round (x * 10 ^ d)) / 10 ^ d)"

definition or_default :: "'a \<Rightarrow> 'a option \<Rightarrow> 'a" where
  "or_default d x = (case x of None \<Rightarrow> d | Some y \<Rightarrow> y)"

section \<open>Terraform state\<close>

record iac_state_config =
  ic_working_dir :: "string option"
  ic_no_drift :: "bool option"
  ic_require_remote_backend :: "bool option"
  ic_forbid_secrets_in_state :: "bool option"

definition no_iac_state :: iac_state_config where
  "no_iac_state = \<lparr>ic_working_dir = None, ic_no_drift = None, ic_require_remote_backend = None, ic_forbid_secrets_in_state = None\<rparr>"

type_synonym t3_check = "string \<times> bool"

definition SECRET_PATTERNS :: "(string \<times> regex) list" where
  "SECRET_PATTERNS =
    [(''aws_access_key_id'', seq [lit ''AKIA'', exactly 16 (Cls (\<lambda>c. is_digit c \<or> is_upper c))]),
     (''private_key_block'', seq [lit ''-----BEGIN '', opt (alts [lit ''RSA '', lit ''EC '', lit ''OPENSSH '']), lit ''PRIVATE KEY-----'']),
     (''secret_valued_field'', seq [Cls (\<lambda>c. c = CHR 0x22), Star (cls_i (\<lambda>c. is_lower c \<or> is_digit c \<or> c = CHR ''_'')),
        alts [lit_i ''password'', lit_i ''secret'', lit_i ''token''], Cls (\<lambda>c. c = CHR 0x22), Star (Cls js_space), lit '':'', Star (Cls js_space),
        Cls (\<lambda>c. c = CHR 0x22), at_least 6 (Cls (\<lambda>c. c \<noteq> CHR 0x22)), Cls (\<lambda>c. c = CHR 0x22)])]"

definition iac_command :: "iac_state_config \<Rightarrow> string list \<Rightarrow> nat \<Rightarrow> shell_command" where
  "iac_command cfg argv ms = (plain_command argv ms)\<lparr>sc_cwd := Some (if truthy (ic_working_dir cfg) then the (ic_working_dir cfg) else ''.'')\<rparr>"

text \<open>The steps give \<open>None\<close> where the validator returns an error early.\<close>

definition iac_drift :: "'w shell \<Rightarrow> iac_state_config \<Rightarrow> ('w, exn, t3_check list option) io" where
  "iac_drift sh cfg =
     (if or_default False (ic_no_drift cfg)
      then bnd (sh_run sh (iac_command cfg [''terraform'', ''plan'', ''-detailed-exitcode'', ''-lock=false'', ''-input=false'', ''-no-color''] 180000)) (\<lambda>plan.
        if infra plan \<or> sr_exitCode plan = 1 then ret None else ret (Some [(''no_drift'', sr_exitCode plan = 0)]))
      else ret (Some []))"

definition iac_pull :: "'w shell \<Rightarrow> iac_state_config \<Rightarrow> ('w, exn, string option) io" where
  "iac_pull sh cfg =
     (if or_default False (ic_require_remote_backend cfg) \<or> or_default False (ic_forbid_secrets_in_state cfg)
      then bnd (sh_run sh (iac_command cfg [''terraform'', ''state'', ''pull''] 60000)) (\<lambda>pull.
        if infra pull \<or> sr_exitCode pull \<noteq> 0 then ret None else ret (Some (sr_stdout pull)))
      else ret (Some []))"

definition iac_backend :: "'w shell \<Rightarrow> iac_state_config \<Rightarrow> ('w, exn, t3_check list option) io" where
  "iac_backend sh cfg =
     (if or_default False (ic_require_remote_backend cfg)
      then bnd (sh_run sh (iac_command cfg [''sh'', ''-c'', ''test -f terraform.tfstate && echo LOCAL || echo REMOTE''] 15000)) (\<lambda>ls.
        if infra ls then ret None else ret (Some [(''require_remote_backend'', js_trim (sr_stdout ls) = ''REMOTE'')]))
      else ret (Some []))"

definition secret_hits :: "string \<Rightarrow> string list" where
  "secret_hits stateJson = map fst (filter (\<lambda>p. test (snd p) stateJson) SECRET_PATTERNS)"

definition iac_secrets :: "iac_state_config \<Rightarrow> string \<Rightarrow> t3_check list" where
  "iac_secrets cfg stateJson =
     (if or_default False (ic_forbid_secrets_in_state cfg) then [(''forbid_secrets_in_state'', length (secret_hits stateJson) = 0)] else [])"

definition checks_json :: "t3_check list \<Rightarrow> json" where
  "checks_json cs = JArr (map (\<lambda>(n, p). JObj [(''name'', JStr n), (''pass'', JBool p)]) cs)"

definition runIacState :: "'w clock \<Rightarrow> 'w shell \<Rightarrow> string \<Rightarrow> iac_state_config option \<Rightarrow> ('w, exn, exec_result) io" where
  "runIacState ck sh validatorId rawConfig =
     bnd (query (ck_now ck)) (\<lambda>start.
     let cfg = or_default no_iac_state rawConfig in
     bnd (iac_drift sh cfg) (\<lambda>drift. case drift of None \<Rightarrow> t3_error ck start validatorId | Some c1 \<Rightarrow>
     bnd (iac_pull sh cfg) (\<lambda>pulled. case pulled of None \<Rightarrow> t3_error ck start validatorId | Some stateJson \<Rightarrow>
     bnd (iac_backend sh cfg) (\<lambda>backend. case backend of None \<Rightarrow> t3_error ck start validatorId | Some c2 \<Rightarrow>
       let checks = c1 @ c2 @ iac_secrets cfg stateJson in
       if length checks = 0 then t3_error ck start validatorId
       else t3_result ck start validatorId (pass_fail (list_all snd checks))
         (Some (JObj [(''backend'', JStr (sh_backend sh)), (''checks'', checks_json checks)]))
         (Some (JObj [(''no_drift'', JBool (or_default False (ic_no_drift cfg))),
                      (''require_remote_backend'', JBool (or_default False (ic_require_remote_backend cfg))),
                      (''forbid_secrets_in_state'', JBool (or_default False (ic_forbid_secrets_in_state cfg)))]))))))"

section \<open>Static analysis\<close>

record static_analysis_config =
  sa_tool :: "string option"
  sa_target :: "string option"
  sa_max_severity_allowed :: "string option"
  sa_max_findings :: "nat option"

definition no_static_analysis :: static_analysis_config where
  "no_static_analysis = \<lparr>sa_tool = None, sa_target = None, sa_max_severity_allowed = None, sa_max_findings = None\<rparr>"

definition SEVERITY_ORDER :: "string list" where
  "SEVERITY_ORDER = [''NONE'', ''LOW'', ''MEDIUM'', ''HIGH'', ''CRITICAL'']"

fun index_of :: "'a \<Rightarrow> 'a list \<Rightarrow> nat option" where
  "index_of x [] = None"
| "index_of x (y # ys) = (if x = y then Some 0 else map_option Suc (index_of x ys))"

definition toUpperCase :: "string \<Rightarrow> string" where
  "toUpperCase s = map upper s"

definition sevRank :: "string \<Rightarrow> nat" where
  "sevRank s = or_default 0 (index_of (toUpperCase s) SEVERITY_ORDER)"

record finding =
  fi_ruleId :: string
  fi_severity :: string
  fi_description :: string

definition scan_json :: "(string \<Rightarrow> json option) \<Rightarrow> 'w shell \<Rightarrow> string list \<Rightarrow> nat \<Rightarrow> ('w, exn, json option) io" where
  "scan_json parse sh argv ms = bnd (sh_run sh (plain_command argv ms)) (\<lambda>r.
     if infra r then throw (Err (hd argv @ '' could not run: '' @ the (sr_infraError r)))
     else ret (parseLooseJson parse (sr_stdout r)))"

definition tfsec_finding :: "json \<Rightarrow> finding" where
  "tfsec_finding raw = (let x = asRecord (Some raw) in
     \<lparr>fi_ruleId = pickString x [''rule_id'', ''long_id''] ''unknown'', fi_severity = asString (at_key x ''severity'') ''UNKNOWN'',
      fi_description = asString (at_key x ''description'') []\<rparr>)"

definition checkov_finding :: "json \<Rightarrow> finding" where
  "checkov_finding raw = (let c = asRecord (Some raw) in
     \<lparr>fi_ruleId = asString (at_key c ''check_id'') ''unknown'', fi_severity = asString (at_key c ''severity'') ''MEDIUM'',
      fi_description = asString (at_key c ''check_name'') []\<rparr>)"

definition trivy_finding :: "json \<Rightarrow> finding" where
  "trivy_finding raw = (let m = asRecord (Some raw) in
     \<lparr>fi_ruleId = asString (at_key m ''ID'') ''unknown'', fi_severity = asString (at_key m ''Severity'') ''UNKNOWN'',
      fi_description = asString (at_key m ''Title'') []\<rparr>)"

definition runTool :: "(string \<Rightarrow> json option) \<Rightarrow> 'w shell \<Rightarrow> string \<Rightarrow> string \<Rightarrow> ('w, exn, finding list) io" where
  "runTool parse sh tool target =
     (if tool = ''tfsec'' then
        bnd (scan_json parse sh [''tfsec'', target, ''--format'', ''json'', ''--soft-fail'', ''--no-color''] 180000) (\<lambda>parsed.
        ret (map tfsec_finding (asArray (at_key (asRecord parsed) ''results''))))
      else if tool = ''checkov'' then
        bnd (scan_json parse sh [''checkov'', ''-d'', target, ''-o'', ''json'', ''--compact'', ''--quiet''] 240000) (\<lambda>parsed.
        let blocks = (case parsed of None \<Rightarrow> [] | Some (JArr bs) \<Rightarrow> bs | Some b \<Rightarrow> [b]) in
        ret (concat (map (\<lambda>b. map checkov_finding (asArray (at_key (asRecord (at_key (asRecord (Some b)) ''results'')) ''failed_checks''))) blocks)))
      else
        bnd (scan_json parse sh [''trivy'', ''config'', ''--format'', ''json'', ''--quiet'', target] 240000) (\<lambda>parsed.
        ret (concat (map (\<lambda>res. map trivy_finding (asArray (at_key (asRecord (Some res)) ''Misconfigurations'')))
          (asArray (at_key (asRecord parsed) ''Results''))))))"

definition over_threshold :: "string \<Rightarrow> finding list \<Rightarrow> finding list" where
  "over_threshold maxSev fs = filter (\<lambda>f. sevRank (fi_severity f) > sevRank maxSev) fs"

definition by_severity :: "finding list \<Rightarrow> (string \<times> nat) list" where
  "by_severity fs = fold (\<lambda>f m. let k = toUpperCase (fi_severity f) in amap_set k (or_default 0 (map_of m k) + 1) m) fs []"

definition gate_fails :: "nat option \<Rightarrow> nat \<Rightarrow> bool" where
  "gate_fails max_findings over = (case max_findings of None \<Rightarrow> over > 0 | Some n \<Rightarrow> over > n)"

definition max_severity :: "static_analysis_config \<Rightarrow> string" where
  "max_severity cfg = toUpperCase (if truthy (sa_max_severity_allowed cfg) then the (sa_max_severity_allowed cfg) else ''NONE'')"

definition runStaticAnalysis :: "(string \<Rightarrow> json option) \<Rightarrow> 'w clock \<Rightarrow> 'w shell \<Rightarrow> string \<Rightarrow> static_analysis_config option \<Rightarrow> ('w, exn, exec_result) io" where
  "runStaticAnalysis parse ck sh validatorId rawConfig =
     bnd (query (ck_now ck)) (\<lambda>start.
     let cfg = or_default no_static_analysis rawConfig;
         target = (if truthy (sa_target cfg) then the (sa_target cfg) else ''.'');
         maxSev = max_severity cfg in
     if \<not> truthy (sa_tool cfg) then t3_error ck start validatorId
     else bnd (try_catch (bnd (runTool parse sh (the (sa_tool cfg)) target) (\<lambda>fs. ret (Some fs))) (\<lambda>_. ret None)) (\<lambda>found.
       case found of None \<Rightarrow> t3_error ck start validatorId | Some findings \<Rightarrow>
         let over = over_threshold maxSev findings in
         t3_result ck start validatorId (pass_fail (\<not> gate_fails (sa_max_findings cfg) (length over)))
           (Some (JObj [(''tool'', JStr (the (sa_tool cfg))), (''backend'', JStr (sh_backend sh)), (''total_findings'', JNum (length findings)),
              (''by_severity'', JObj (map (\<lambda>(k, n). (k, JNum (real n))) (by_severity findings))), (''over_threshold'', JNum (length over))]))
           (Some (JObj ((''max_severity_allowed'', JStr maxSev) # opt_field ''max_findings'' (map_option (\<lambda>n. JNum (real n)) (sa_max_findings cfg)))))))"

section \<open>Test suites\<close>

record test_suite_config =
  tc_command :: "string option"
  tc_report_format :: "string option"
  tc_report_path :: "string option"
  tc_min_pass_rate :: "real option"

definition no_test_suite :: test_suite_config where
  "no_test_suite = \<lparr>tc_command = None, tc_report_format = None, tc_report_path = None, tc_min_pass_rate = None\<rparr>"

record test_counts =
  co_total :: real
  co_passed :: real
  co_failed :: real
  co_skipped :: real

text \<open>A pattern that starts with \<open>^\<close> under the flag \<open>m\<close>: tried at the start of the text and after every line end.\<close>

fun test_lines :: "regex \<Rightarrow> char option \<Rightarrow> string \<Rightarrow> bool" where
  "test_lines r p [] = ((case p of None \<Rightarrow> True | Some c \<Rightarrow> \<not> is_dot c) \<and> run r p [] \<noteq> [])"
| "test_lines r p (c # cs) = ((case p of None \<Rightarrow> True | Some c \<Rightarrow> \<not> is_dot c) \<and> run r p (c # cs) \<noteq> [] \<or> test_lines r (Some c) cs)"

definition ends_with :: "string \<Rightarrow> string \<Rightarrow> bool" where
  "ends_with s t = starts_with (rev s) (rev t)"

definition digits :: regex where
  "digits = one_or_more (Cls is_digit)"

definition quoted :: "string \<Rightarrow> regex" where
  "quoted w = seq [Cls (\<lambda>c. c = CHR 0x22), lit w, Cls (\<lambda>c. c = CHR 0x22)]"

definition inferFormat :: "string \<Rightarrow> string \<Rightarrow> string" where
  "inferFormat report path =
     (if ends_with path ''.xml'' \<or> test (lit_i ''<testsuite'') report then ''junit''
      else if test_lines (seq [Star (Cls js_space), lit ''TAP version '', digits]) None report \<or> test_lines (seq [lit ''ok '', digits]) None report then ''tap''
      else if test (quoted ''numPassedTests'') report then ''jest-json''
      else if test (seq [quoted ''Action'', lit '':'', Cls (\<lambda>c. c = CHR 0x22), alts [lit ''pass'', lit ''fail'', lit ''run''], Cls (\<lambda>c. c = CHR 0x22)]) report then ''go-json''
      else ''junit'')"

text \<open>\<open>parseInt(m[1], 10)\<close> of the digits in the first match of \<open>name="(\d+)"\<close>.\<close>

definition digits_value :: "string \<Rightarrow> nat" where
  "digits_value ds = foldl (\<lambda>n c. 10 * n + (char_code c - 48)) 0 ds"

definition attr :: "string \<Rightarrow> string \<Rightarrow> nat" where
  "attr tag name = (case matches (seq [lit name, lit ''='', Cls (\<lambda>c. c = CHR 0x22), digits, Cls (\<lambda>c. c = CHR 0x22)]) tag of
     [] \<Rightarrow> 0 | m # _ \<Rightarrow> digits_value (filter is_digit (drop (length name) m)))"

definition testsuite_tag :: regex where
  "testsuite_tag = seq [lit_i ''<testsuite'', WordBound, Star (Cls (\<lambda>c. c \<noteq> CHR ''>'')), lit ''>'']"

definition parseJUnit :: "string \<Rightarrow> test_counts option" where
  "parseJUnit xml =
     (let suites = matches testsuite_tag xml in
      if length suites = 0 then None
      else let totl = sum_list (map (\<lambda>t. attr t ''tests'') suites);
               failed = sum_list (map (\<lambda>t. attr t ''failures'' + attr t ''errors'') suites);
               skipped = sum_list (map (\<lambda>t. attr t ''skipped'') suites)
           in Some \<lparr>co_total = real totl, co_passed = real totl - real failed - real skipped, co_failed = real failed, co_skipped = real skipped\<rparr>)"

definition counts_of :: "nat \<times> nat \<times> nat \<Rightarrow> test_counts option" where
  "counts_of c = (case c of (passed, failed, skipped) \<Rightarrow>
     if passed + failed + skipped = 0 then None
     else Some \<lparr>co_total = real (passed + failed + skipped), co_passed = real passed, co_failed = real failed, co_skipped = real skipped\<rparr>)"

definition tap_line :: "string \<Rightarrow> regex" where
  "tap_line verdict = seq [TextStart, lit verdict, one_or_more (Cls js_space), digits]"

definition count_tap :: "string \<Rightarrow> nat \<times> nat \<times> nat \<Rightarrow> nat \<times> nat \<times> nat" where
  "count_tap line c = (case c of (passed, failed, skipped) \<Rightarrow>
     if \<not> test (tap_line ''ok'') (js_trim line) \<and> \<not> test (tap_line ''not ok'') (js_trim line) then c
     else if test (lit_i ''# SKIP'') line then (passed, failed, skipped + 1)
     else if test (tap_line ''ok'') (js_trim line) then (passed + 1, failed, skipped) else (passed, failed + 1, skipped))"

definition parseTAP :: "string \<Rightarrow> test_counts option" where
  "parseTAP report = counts_of (fold count_tap (split_on (CHR 0x0A) report) (0, 0, 0))"

definition parseJestJSON :: "(string \<Rightarrow> json option) \<Rightarrow> string \<Rightarrow> test_counts option" where
  "parseJestJSON parse report =
     (let j = asRecord (parseLooseJson parse report);
          num = (\<lambda>k. the (asNumber (at_key j k) (Some 0)))
      in if at_key j ''numTotalTests'' = None then None
         else Some \<lparr>co_total = num ''numTotalTests'', co_passed = num ''numPassedTests'', co_failed = num ''numFailedTests'',
                    co_skipped = num ''numPendingTests'' + num ''numTodoTests''\<rparr>)"

definition count_go :: "(string \<Rightarrow> json option) \<Rightarrow> string \<Rightarrow> nat \<times> nat \<times> nat \<Rightarrow> nat \<times> nat \<times> nat" where
  "count_go parse line c = (case c of (passed, failed, skipped) \<Rightarrow>
     let t = js_trim line; fs = asRecord (parseLooseJson parse t); action = asString (at_key fs ''Action'') [] in
     if \<not> starts_with t ''{'' \<or> asString (at_key fs ''Test'') [] = [] then c
     else if action = ''pass'' then (passed + 1, failed, skipped)
     else if action = ''fail'' then (passed, failed + 1, skipped)
     else if action = ''skip'' then (passed, failed, skipped + 1) else c)"

definition parseGoJSON :: "(string \<Rightarrow> json option) \<Rightarrow> string \<Rightarrow> test_counts option" where
  "parseGoJSON parse report = counts_of (fold (count_go parse) (split_on (CHR 0x0A) report) (0, 0, 0))"

definition parseReport :: "(string \<Rightarrow> json option) \<Rightarrow> string \<Rightarrow> string \<Rightarrow> test_counts option" where
  "parseReport parse format report =
     (if format = ''junit'' then parseJUnit report
      else if format = ''tap'' then parseTAP report
      else if format = ''jest-json'' then parseJestJSON parse report
      else if format = ''go-json'' then parseGoJSON parse report else None)"

definition pass_rate :: "test_counts \<Rightarrow> real" where
  "pass_rate c = (if co_total c = 0 then 1 else co_passed c / (if co_total c - co_skipped c = 0 then 1 else co_total c - co_skipped c))"

definition suite_verdict :: "(string \<Rightarrow> json option) \<Rightarrow> 'w clock \<Rightarrow> 'w shell \<Rightarrow> nat \<Rightarrow> string \<Rightarrow> test_suite_config \<Rightarrow> shell_result \<Rightarrow> string \<Rightarrow> ('w, exn, exec_result) io" where
  "suite_verdict parse ck sh start validatorId cfg finished report =
     (let minPassRate = or_default 1 (tc_min_pass_rate cfg);
          format = or_default (inferFormat report (or_default [] (tc_report_path cfg))) (tc_report_format cfg);
          fallback = t3_result ck start validatorId (pass_fail (sr_exitCode finished = 0))
            (Some (JObj [(''backend'', JStr (sh_backend sh)), (''parsed'', JBool False), (''exit_code'', JNum (of_int (sr_exitCode finished)))]))
            (Some (JObj [(''min_pass_rate'', JNum minPassRate)]))
      in case parseReport parse format report of
        None \<Rightarrow> fallback
      | Some counts \<Rightarrow> if co_total counts = 0 then fallback
          else t3_result ck start validatorId (pass_fail (pass_rate counts \<ge> minPassRate))
            (Some (JObj [(''backend'', JStr (sh_backend sh)), (''format'', JStr format), (''total'', JNum (co_total counts)), (''passed'', JNum (co_passed counts)),
               (''failed'', JNum (co_failed counts)), (''skipped'', JNum (co_skipped counts)), (''pass_rate'', JNum (to_fixed 4 (pass_rate counts)))]))
            (Some (JObj [(''min_pass_rate'', JNum minPassRate)])))"

definition runTestSuite :: "(string \<Rightarrow> json option) \<Rightarrow> 'w clock \<Rightarrow> 'w shell \<Rightarrow> string \<Rightarrow> test_suite_config option \<Rightarrow> ('w, exn, exec_result) io" where
  "runTestSuite parse ck sh validatorId rawConfig =
     bnd (query (ck_now ck)) (\<lambda>start.
     let cfg = or_default no_test_suite rawConfig in
     if \<not> truthy (tc_command cfg) then t3_error ck start validatorId
     else bnd (sh_run sh (plain_command [''sh'', ''-c'', the (tc_command cfg)] 600000)) (\<lambda>finished.
       if infra finished then t3_error ck start validatorId
       else if truthy (tc_report_path cfg)
       then bnd (sh_run sh (plain_command [''cat'', the (tc_report_path cfg)] 30000)) (\<lambda>cat.
         if infra cat \<or> sr_exitCode cat \<noteq> 0 then t3_error ck start validatorId
         else suite_verdict parse ck sh start validatorId cfg finished (sr_stdout cat))
       else suite_verdict parse ck sh start validatorId cfg finished (sr_stdout finished)))"

section \<open>Load tests\<close>

record perf_bench_config =
  pb_script :: "string option"
  pb_target_url :: "string option"
  pb_rps :: "nat option"
  pb_duration_s :: "nat option"
  pb_p95_ms_max :: "real option"
  pb_error_rate_max :: "real option"

definition no_perf_bench :: perf_bench_config where
  "no_perf_bench = \<lparr>pb_script = None, pb_target_url = None, pb_rps = None, pb_duration_s = None, pb_p95_ms_max = None, pb_error_rate_max = None\<rparr>"

definition summaryPath :: string where
  "summaryPath = ''/tmp/k6-summary.json''"

definition k6_script :: "(json \<Rightarrow> string) \<Rightarrow> nat \<Rightarrow> nat \<Rightarrow> string \<Rightarrow> string" where
  "k6_script stringify rps durationS url = join [CHR 0x0A]
     [''import http from '' @ shQuote ''k6/http'' @ '';'',
      ''export const options = {'',
      ''  scenarios: { load: { executor: '' @ shQuote ''constant-arrival-rate'' @ '', rate: '' @ show_nat rps @ '', timeUnit: '' @ shQuote ''1s'' @ '','',
      ''    duration: '' @ shQuote (show_nat durationS @ ''s'') @ '', preAllocatedVUs: '' @ show_nat (max rps 10) @ '', maxVUs: '' @ show_nat (rps * 4) @ '' } },'',
      ''};'',
      ''export default function () { http.get('' @ stringify (JStr url) @ ''); }'']"

text \<open>The script to run, written first when none is configured; \<open>None\<close> when it could not be written.\<close>

definition k6_target :: "(json \<Rightarrow> string) \<Rightarrow> 'w shell \<Rightarrow> perf_bench_config \<Rightarrow> ('w, exn, string option) io" where
  "k6_target stringify sh cfg =
     (if truthy (pb_script cfg) then ret (pb_script cfg)
      else bnd (sh_run sh (plain_command [''sh'', ''-c'', ''cat > /tmp/perf-bench.js <<'' @ shQuote ''EOF'' @ [CHR 0x0A] @
          k6_script stringify (or_default 20 (pb_rps cfg)) (or_default 30 (pb_duration_s cfg)) (the (pb_target_url cfg)) @ [CHR 0x0A] @ ''EOF''] 15000)) (\<lambda>written.
        if infra written \<or> sr_exitCode written \<noteq> 0 then ret None else ret (Some ''/tmp/perf-bench.js'')))"

definition k6_metric :: "json option \<Rightarrow> string \<Rightarrow> string \<Rightarrow> real option" where
  "k6_metric summary metric key =
     asNumber (at_key (asRecord (at_key (asRecord (at_key (asRecord (at_key (asRecord summary) ''metrics'')) metric)) ''values'')) key) None"

definition perf_checks :: "perf_bench_config \<Rightarrow> real option \<Rightarrow> real option \<Rightarrow> t3_check list" where
  "perf_checks cfg p95 errorRate =
     (case pb_p95_ms_max cfg of None \<Rightarrow> [] | Some m \<Rightarrow> [(''p95_latency'', case p95 of None \<Rightarrow> False | Some p \<Rightarrow> p \<le> m)]) @
     [(''error_rate'', case errorRate of None \<Rightarrow> True | Some e \<Rightarrow> e \<le> or_default (1/100) (pb_error_rate_max cfg))]"

definition opt_num :: "nat \<Rightarrow> real option \<Rightarrow> json" where
  "opt_num d x = (case x of None \<Rightarrow> JNull | Some v \<Rightarrow> JNum (to_fixed d v))"

definition runPerfBench :: "(string \<Rightarrow> json option) \<Rightarrow> (json \<Rightarrow> string) \<Rightarrow> 'w clock \<Rightarrow> 'w shell \<Rightarrow> string \<Rightarrow> perf_bench_config option \<Rightarrow> ('w, exn, exec_result) io" where
  "runPerfBench parse stringify ck sh validatorId rawConfig =
     bnd (query (ck_now ck)) (\<lambda>start.
     let cfg = or_default no_perf_bench rawConfig in
     if \<not> truthy (pb_script cfg) \<and> \<not> truthy (pb_target_url cfg) then t3_error ck start validatorId
     else bnd (k6_target stringify sh cfg) (\<lambda>script. case script of None \<Rightarrow> t3_error ck start validatorId | Some script \<Rightarrow>
       bnd (sh_run sh (plain_command [''k6'', ''run'', ''--quiet'', ''--summary-export'', summaryPath, script] ((or_default 30 (pb_duration_s cfg) + 60) * 1000))) (\<lambda>finished.
       if infra finished then t3_error ck start validatorId
       else bnd (sh_run sh (plain_command [''cat'', summaryPath] 15000)) (\<lambda>cat.
         if infra cat \<or> sr_exitCode cat \<noteq> 0 then t3_error ck start validatorId
         else let summary = parseLooseJson parse (sr_stdout cat);
                  p95 = k6_metric summary ''http_req_duration'' ''p(95)'';
                  errorRate = k6_metric summary ''http_req_failed'' ''rate'';
                  checks = perf_checks cfg p95 errorRate
           in if length checks = 0 then t3_error ck start validatorId
              else t3_result ck start validatorId (pass_fail (list_all snd checks))
             (Some (JObj [(''backend'', JStr (sh_backend sh)), (''p95_ms'', opt_num 1 p95), (''error_rate'', opt_num 4 errorRate),
                (''rps'', JNum (real (or_default 20 (pb_rps cfg)))), (''duration_s'', JNum (real (or_default 30 (pb_duration_s cfg)))), (''checks'', checks_json checks)]))
             (Some (JObj (opt_field ''p95_ms_max'' (map_option JNum (pb_p95_ms_max cfg)) @ [(''error_rate_max'', JNum (or_default (1/100) (pb_error_rate_max cfg)))])))))))"

end
