(* ===== verification/T3Validator.thy ===== *)
theory T3Validator
  imports T3Executors
begin

text \<open>
  \<open>evaluation/t3/cloud-assert.executor.ts\<close>, \<open>chaos-probe.executor.ts\<close> and the dispatch of
  \<open>t3-validator.executor.ts\<close>. The properties of all six validators are proved here: a platform that is down
  is never held against the learner, a chaos probe ends and passes exactly for a service that stays up, and
  the gates of the scanners and of the cloud checks mean what their configuration says.
\<close>

section \<open>Cloud topology\<close>

record cloud_assert_config =
  ca_checks :: "string list"
  ca_region :: "string option"

type_synonym outcome = "string \<times> bool"

text \<open>\<open>awsJson\<close>; \<open>stdout || '{}'\<close> makes an empty answer an empty object.\<close>

definition awsJson :: "(string \<Rightarrow> json option) \<Rightarrow> 'w shell \<Rightarrow> string option \<Rightarrow> string list \<Rightarrow> ('w, exn, json) io" where
  "awsJson parse sh region argv =
     bnd (sh_run sh \<lparr>sc_argv = ''aws'' # argv @ [''--output'', ''json''], sc_cwd = None,
       sc_env = (if truthy region then [(''AWS_REGION'', the region), (''AWS_DEFAULT_REGION'', the region)] else []), sc_timeoutMs = Some 60000\<rparr>) (\<lambda>r.
     if infra r then throw (Err (the (sr_infraError r)))
     else if sr_exitCode r \<noteq> 0 then throw (Err (''aws '' @ join '' '' argv @ '' exited with an error''))
     else case parseLooseJson parse (if sr_stdout r = [] then ''{}'' else sr_stdout r) of
       None \<Rightarrow> throw (Err (''aws '' @ join '' '' argv @ '' did not return JSON''))
     | Some j \<Rightarrow> ret j)"

text \<open>\<open>.catch(() => fallback)\<close>.\<close>

definition or_else :: "('w, exn, json) io \<Rightarrow> json \<Rightarrow> ('w, exn, json) io" where
  "or_else m fallback = try_catch m (\<lambda>_. ret fallback)"

definition fully_blocked :: "json \<Rightarrow> bool" where
  "fully_blocked pab = (let c = asRecord (at_key (asRecord (Some pab)) ''PublicAccessBlockConfiguration'') in
     asBool (at_key c ''BlockPublicAcls'') \<and> asBool (at_key c ''IgnorePublicAcls'') \<and> asBool (at_key c ''BlockPublicPolicy'') \<and>
     asBool (at_key c ''RestrictPublicBuckets''))"

definition no_public_s3 :: "(string \<Rightarrow> json option) \<Rightarrow> 'w shell \<Rightarrow> string option \<Rightarrow> ('w, exn, outcome) io" where
  "no_public_s3 parse sh region =
     bnd (awsJson parse sh region [''s3api'', ''list-buckets'']) (\<lambda>lst.
     let buckets = filter (\<lambda>n. n \<noteq> []) (map (\<lambda>b. asString (at_key (asRecord (Some b)) ''Name'') []) (asArray (at_key (asRecord (Some lst)) ''Buckets''))) in
     bnd (map_io (\<lambda>name. bnd (or_else (awsJson parse sh region [''s3api'', ''get-public-access-block'', ''--bucket'', name]) JNull) (\<lambda>pab.
       ret (if fully_blocked pab then [] else [name]))) buckets) (\<lambda>offenders.
     ret (''no_public_s3'', length (concat offenders) = 0)))"

definition rds_encrypted_at_rest :: "(string \<Rightarrow> json option) \<Rightarrow> 'w shell \<Rightarrow> string option \<Rightarrow> ('w, exn, outcome) io" where
  "rds_encrypted_at_rest parse sh region =
     bnd (awsJson parse sh region [''rds'', ''describe-db-instances'']) (\<lambda>res.
     let instances = map (\<lambda>i. asRecord (Some i)) (asArray (at_key (asRecord (Some res)) ''DBInstances''));
         offenders = filter (\<lambda>i. \<not> asBool (at_key i ''StorageEncrypted'')) instances
     in ret (''rds_encrypted_at_rest'', length offenders = 0))"

definition sensitive :: "real list" where
  "sensitive = [22, 3306, 5432, 6379, 27017]"

definition world_open :: "json \<Rightarrow> bool" where
  "world_open perm = (\<exists>r \<in> set (asArray (at_key (asRecord (Some perm)) ''IpRanges'')). asString (at_key (asRecord (Some r)) ''CidrIp'') [] = ''0.0.0.0/0'')"

definition exposed_ports :: "json \<Rightarrow> real list" where
  "exposed_ports perm = (let p = asRecord (Some perm);
       from_port = the (asNumber (at_key p ''FromPort'') (Some 0)); to_port = the (asNumber (at_key p ''ToPort'') (Some 65535))
     in if \<not> world_open perm then [] else filter (\<lambda>q. q \<ge> from_port \<and> q \<le> to_port) sensitive)"

definition no_world_open_admin_ports :: "(string \<Rightarrow> json option) \<Rightarrow> 'w shell \<Rightarrow> string option \<Rightarrow> ('w, exn, outcome) io" where
  "no_world_open_admin_ports parse sh region =
     bnd (awsJson parse sh region [''ec2'', ''describe-security-groups'']) (\<lambda>res.
     let offenders = concat (map (\<lambda>sg. concat (map exposed_ports (asArray (at_key (asRecord (Some sg)) ''IpPermissions''))))
           (asArray (at_key (asRecord (Some res)) ''SecurityGroups'')))
     in ret (''no_world_open_admin_ports'', length offenders = 0))"

definition non_default_vpc_present :: "(string \<Rightarrow> json option) \<Rightarrow> 'w shell \<Rightarrow> string option \<Rightarrow> ('w, exn, outcome) io" where
  "non_default_vpc_present parse sh region =
     bnd (awsJson parse sh region [''ec2'', ''describe-vpcs'']) (\<lambda>res.
     let custom = filter (\<lambda>v. \<not> asBool (at_key (asRecord (Some v)) ''IsDefault'')) (asArray (at_key (asRecord (Some res)) ''Vpcs''))
     in ret (''non_default_vpc_present'', length custom > 0))"

fun normStatements :: "json option \<Rightarrow> (string \<times> json) list list" where
  "normStatements (Some (JArr xs)) = map (\<lambda>x. asRecord (Some x)) xs"
| "normStatements (Some (JObj fs)) = [fs]"
| "normStatements _ = []"

fun hasWildcard :: "json option \<Rightarrow> bool" where
  "hasWildcard (Some (JStr s)) = (s = ''*'')"
| "hasWildcard (Some (JArr xs)) = (JStr ''*'' \<in> set xs)"
| "hasWildcard _ = False"

definition grants_all :: "(string \<times> json) list \<Rightarrow> bool" where
  "grants_all st = (asString (at_key st ''Effect'') [] = ''Allow'' \<and> hasWildcard (at_key st ''Action'') \<and> hasWildcard (at_key st ''Resource''))"

definition policy_offences :: "(string \<Rightarrow> json option) \<Rightarrow> 'w shell \<Rightarrow> string option \<Rightarrow> json \<Rightarrow> ('w, exn, nat) io" where
  "policy_offences parse sh region rawP =
     (let policyArn = asString (at_key (asRecord (Some rawP)) ''PolicyArn'') [] in
      bnd (or_else (awsJson parse sh region [''iam'', ''get-policy'', ''--policy-arn'', policyArn]) JNull) (\<lambda>pv.
      let versionId = asString (at_key (asRecord (at_key (asRecord (Some pv)) ''Policy'')) ''DefaultVersionId'') [] in
      if versionId = [] then ret 0
      else bnd (or_else (awsJson parse sh region [''iam'', ''get-policy-version'', ''--policy-arn'', policyArn, ''--version-id'', versionId]) JNull) (\<lambda>doc.
        ret (length (filter grants_all (normStatements (at_key (asRecord (at_key (asRecord (at_key (asRecord (Some doc)) ''PolicyVersion'')) ''Document'')) ''Statement'')))))))"

definition role_offences :: "(string \<Rightarrow> json option) \<Rightarrow> 'w shell \<Rightarrow> string option \<Rightarrow> json \<Rightarrow> ('w, exn, nat) io" where
  "role_offences parse sh region rawRole =
     (let rl = asRecord (Some rawRole); roleName = asString (at_key rl ''RoleName'') [] in
      if starts_with (asString (at_key rl ''Path'') []) ''/aws-service-role/'' then ret 0
      else bnd (or_else (awsJson parse sh region [''iam'', ''list-attached-role-policies'', ''--role-name'', roleName]) (JObj [(''AttachedPolicies'', JArr [])])) (\<lambda>attached.
        bnd (map_io (policy_offences parse sh region) (asArray (at_key (asRecord (Some attached)) ''AttachedPolicies''))) (\<lambda>ns. ret (sum_list ns))))"

definition no_wildcard_admin_policy :: "(string \<Rightarrow> json option) \<Rightarrow> 'w shell \<Rightarrow> string option \<Rightarrow> ('w, exn, outcome) io" where
  "no_wildcard_admin_policy parse sh region =
     bnd (awsJson parse sh region [''iam'', ''list-roles'']) (\<lambda>roles.
     bnd (map_io (role_offences parse sh region) (asArray (at_key (asRecord (Some roles)) ''Roles''))) (\<lambda>ns.
     ret (''no_wildcard_admin_policy'', sum_list ns = 0)))"

definition CHECKS :: "(string \<Rightarrow> json option) \<Rightarrow> 'w shell \<Rightarrow> string option \<Rightarrow> (string \<times> ('w, exn, outcome) io) list" where
  "CHECKS parse sh region =
    [(''no_public_s3'', no_public_s3 parse sh region),
     (''rds_encrypted_at_rest'', rds_encrypted_at_rest parse sh region),
     (''no_world_open_admin_ports'', no_world_open_admin_ports parse sh region),
     (''non_default_vpc_present'', non_default_vpc_present parse sh region),
     (''no_wildcard_admin_policy'', no_wildcard_admin_policy parse sh region)]"

definition outcomes_json :: "outcome list \<Rightarrow> json" where
  "outcomes_json os = JArr (map (\<lambda>(n, p). JObj [(''check'', JStr n), (''pass'', JBool p)]) os)"

definition runCloudAssert :: "(string \<Rightarrow> json option) \<Rightarrow> 'w clock \<Rightarrow> 'w shell \<Rightarrow> string \<Rightarrow> cloud_assert_config option \<Rightarrow> ('w, exn, exec_result) io" where
  "runCloudAssert parse ck sh validatorId rawConfig =
     bnd (query (ck_now ck)) (\<lambda>start.
     let cfg = or_default \<lparr>ca_checks = [], ca_region = None\<rparr> rawConfig; table = map_of (CHECKS parse sh (ca_region cfg)) in
     if length (ca_checks cfg) = 0 then t3_error ck start validatorId
     else if \<exists>c \<in> set (ca_checks cfg). table c = None then t3_error ck start validatorId
     else bnd (try_catch (bnd (map_io (\<lambda>c. the (table c)) (ca_checks cfg)) (\<lambda>os. ret (Some os))) (\<lambda>_. ret None)) (\<lambda>finished.
       case finished of None \<Rightarrow> t3_error ck start validatorId | Some outcomes \<Rightarrow>
         t3_result ck start validatorId (pass_fail (list_all snd outcomes))
           (Some (JObj [(''backend'', JStr (sh_backend sh)), (''checks'', outcomes_json outcomes)]))
           (Some (JObj [(''checks'', JArr (map JStr (ca_checks cfg)))]))))"

section \<open>Chaos probes\<close>

record health_check =
  hc_url :: string
  hc_expect_status :: "nat option"
  hc_interval_ms :: "nat option"

record chaos_probe_config =
  cp_action :: "string option"
  cp_target_selector :: "string option"
  cp_health_check :: "health_check option"
  cp_recovery_timeout_ms :: "nat option"

definition no_chaos_probe :: chaos_probe_config where
  "no_chaos_probe = \<lparr>cp_action = None, cp_target_selector = None, cp_health_check = None, cp_recovery_timeout_ms = None\<rparr>"

datatype probe = OK | BAD | INFRA

definition probeOnce :: "'w shell \<Rightarrow> string \<Rightarrow> nat \<Rightarrow> ('w, exn, probe) io" where
  "probeOnce sh url expectStatus =
     bnd (sh_run sh (plain_command [''curl'', ''-s'', ''-o'', ''/dev/null'', ''-w'', ''%{http_code}'', ''--max-time'', ''5'', url] 10000)) (\<lambda>r.
     ret (if infra r then INFRA else if js_trim (sr_stdout r) = show_nat expectStatus then OK else BAD))"

text \<open>\<open>selector.replace('=', ': ')\<close>: the first occurrence only.\<close>

fun replace_eq :: "string \<Rightarrow> string" where
  "replace_eq [] = []"
| "replace_eq (c # cs) = (if c = CHR ''='' then '': '' @ cs else c # replace_eq cs)"

definition network_policy :: "string \<Rightarrow> string" where
  "network_policy selector = join [CHR 0x0A]
     [''apiVersion: networking.k8s.io/v1'', ''kind: NetworkPolicy'', ''metadata:'', ''  name: chaos-sever-dependency'', ''spec:'',
      ''  podSelector: '' @ (if selector \<noteq> [] then ''{ matchLabels: { '' @ replace_eq selector @ '' } }'' else ''{}''),
      ''  policyTypes: [Egress]'', ''  egress: []'']"

definition chaos_script :: "string \<Rightarrow> string \<Rightarrow> string option" where
  "chaos_script action selector =
     (if action = ''kill_pod'' then
        Some (''kubectl delete pod '' @ (if selector \<noteq> [] then ''-l '' @ shQuote selector else ''--all'') @ '' --grace-period=0 --force'')
      else if action = ''delete_deployment_replica'' then
        Some (''kubectl get deploy '' @ (if selector \<noteq> [] then ''-l '' @ shQuote selector else []) @
          '' -o name | head -1 | xargs -I{} sh -c '' @
          shQuote (''kubectl scale {} --replicas=$(( $(kubectl get {} -o jsonpath='' @ [CHR 0x22] @ ''{.spec.replicas}'' @ [CHR 0x22] @
            '') - 1 )); sleep 5; kubectl rollout restart {}''))
      else if action = ''drain_node'' then
        Some (''kubectl drain '' @ (if selector \<noteq> [] then selector else ''$(kubectl get nodes -o name | head -1)'') @
          '' --ignore-daemonsets --delete-emptydir-data --force --timeout=60s'')
      else if action = ''cordon_node'' then
        Some (''kubectl cordon '' @ (if selector \<noteq> [] then selector else ''$(kubectl get nodes -o name | head -1)''))
      else if action = ''sever_dependency'' then
        Some (''cat <<'' @ shQuote ''EOF'' @ '' | kubectl apply -f -'' @ [CHR 0x0A] @ network_policy selector @ [CHR 0x0A] @ ''EOF'')
      else None)"

text \<open>Whether the action was applied, and whether the platform failed to run it.\<close>

definition applyChaos :: "'w shell \<Rightarrow> string \<Rightarrow> string \<Rightarrow> ('w, exn, bool \<times> bool) io" where
  "applyChaos sh action selector = (case chaos_script action selector of
     None \<Rightarrow> ret (False, False)
   | Some script \<Rightarrow> bnd (sh_run sh (plain_command [''sh'', ''-c'', script] 120000)) (\<lambda>r. ret (sr_exitCode r = 0, infra r)))"

partial_function (option) probe_loop ::
    "'w clock \<Rightarrow> 'w shell \<Rightarrow> string \<Rightarrow> nat \<Rightarrow> nat \<Rightarrow> nat \<Rightarrow> probe list \<Rightarrow> 'w \<Rightarrow> ((exn + probe list) \<times> 'w) option" where
  "probe_loop ck sh url expectStatus intervalMs deadline results w =
     (if ck_now ck w < deadline then
        (case probeOnce sh url expectStatus w of
           (Inl e, w') \<Rightarrow> Some (Inl e, w')
         | (Inr r, w') \<Rightarrow> if r = INFRA then Some (Inr results, w')
             else probe_loop ck sh url expectStatus intervalMs deadline (results @ [r]) (ck_sleep ck intervalMs w'))
      else Some (Inr results, w))"

definition bad_count :: "probe list \<Rightarrow> nat" where
  "bad_count rs = length (filter (\<lambda>r. r = BAD) rs)"

definition end_green :: "probe list \<Rightarrow> bool" where
  "end_green rs \<longleftrightarrow> length rs > 0 \<and> last rs = OK"

definition chaos_verdict :: "'w clock \<Rightarrow> 'w shell \<Rightarrow> nat \<Rightarrow> string \<Rightarrow> string \<Rightarrow> nat \<Rightarrow> probe list \<Rightarrow> ('w, exn, exec_result) io" where
  "chaos_verdict ck sh start validatorId action recoveryMs results =
     (let totl = (if length results = 0 then 1 else length results); bad = bad_count results in
      t3_result ck start validatorId (pass_fail (bad \<le> 1 \<and> end_green results))
        (Some (JObj [(''backend'', JStr (sh_backend sh)), (''action'', JStr action), (''probes'', JNum (length results)), (''failed_probes'', JNum bad),
           (''availability_during_chaos'', JNum (to_fixed 4 ((real totl - real bad) / real totl))), (''recovered'', JBool (end_green results))]))
        (Some (JObj [(''max_failed_probes'', JNum 1), (''end_state'', JStr ''healthy''), (''recovery_timeout_ms'', JNum (real recoveryMs))])))"

text \<open>The part before the loop: \<open>Inl\<close> is an early result.\<close>

definition chaos_begin :: "'w clock \<Rightarrow> 'w shell \<Rightarrow> string \<Rightarrow> chaos_probe_config \<Rightarrow> nat \<Rightarrow> ('w, exn, exec_result + unit) io" where
  "chaos_begin ck sh validatorId cfg start =
     (let err = bnd (t3_error ck start validatorId) (\<lambda>r. ret (Inl r)) in
      if \<not> truthy (cp_action cfg) then err
      else case cp_health_check cfg of None \<Rightarrow> err | Some hc \<Rightarrow>
        if hc_url hc = [] then err
        else bnd (probeOnce sh (hc_url hc) (or_default 200 (hc_expect_status hc))) (\<lambda>pre.
          if pre \<noteq> OK then err
          else bnd (applyChaos sh (the (cp_action cfg)) (or_default [] (cp_target_selector cfg))) (\<lambda>(applied, infra_failed).
            if infra_failed \<or> \<not> applied then err else ret (Inr ()))))"

definition runChaosProbe :: "'w clock \<Rightarrow> 'w shell \<Rightarrow> string \<Rightarrow> chaos_probe_config option \<Rightarrow> 'w \<Rightarrow> ((exn + exec_result) \<times> 'w) option" where
  "runChaosProbe ck sh validatorId rawConfig w =
     (let cfg = or_default no_chaos_probe rawConfig; start = ck_now ck w in
      case chaos_begin ck sh validatorId cfg start w of
        (Inl e, w') \<Rightarrow> Some (Inl e, w')
      | (Inr (Inl r), w') \<Rightarrow> Some (Inr r, w')
      | (Inr (Inr _), w') \<Rightarrow>
          let hc = the (cp_health_check cfg); recoveryMs = or_default 60000 (cp_recovery_timeout_ms cfg) in
          case probe_loop ck sh (hc_url hc) (or_default 200 (hc_expect_status hc)) (or_default 2000 (hc_interval_ms hc)) (ck_now ck w' + recoveryMs) [] w' of
            None \<Rightarrow> None
          | Some (Inl e, v) \<Rightarrow> Some (Inl e, v)
          | Some (Inr results, v) \<Rightarrow> Some (chaos_verdict ck sh start validatorId (the (cp_action cfg)) recoveryMs results v))"

section \<open>Dispatch\<close>

record t3_config =
  cf_iac_state :: "iac_state_config option"
  cf_cloud_assert :: "cloud_assert_config option"
  cf_static_analysis :: "static_analysis_config option"
  cf_test_suite :: "test_suite_config option"
  cf_perf_bench :: "perf_bench_config option"
  cf_chaos_probe :: "chaos_probe_config option"

definition no_config :: t3_config where
  "no_config = \<lparr>cf_iac_state = None, cf_cloud_assert = None, cf_static_analysis = None, cf_test_suite = None, cf_perf_bench = None, cf_chaos_probe = None\<rparr>"

record t3_validator_spec = t3_spec +
  ts_config :: "t3_config option"

definition T3_VALIDATOR_TYPES :: "string list" where
  "T3_VALIDATOR_TYPES = [''IAC_STATE'', ''CLOUD_ASSERT'', ''STATIC_ANALYSIS'', ''TEST_SUITE'', ''PERF_BENCH'', ''CHAOS_PROBE'']"

datatype 'w shell_runner = OrchestratorShellRunner "'w exec_shell_rpc" | OtherShellRunner "'w shell"

record 'w t3_executor =
  tx_clock :: "'w clock"
  tx_delegate :: "'w validator_rpc"
  tx_shellRunner :: "'w shell_runner option"

definition resolveRunner :: "'w t3_executor \<Rightarrow> string \<Rightarrow> string \<Rightarrow> 'w shell option" where
  "resolveRunner tx environmentId attemptId = (case tx_shellRunner tx of
     None \<Rightarrow> None
   | Some (OrchestratorShellRunner rpc) \<Rightarrow> Some (forAttempt (tx_clock tx) rpc environmentId attemptId)
   | Some (OtherShellRunner sh) \<Rightarrow> Some sh)"

definition run_handler :: "'w t3_executor \<Rightarrow> 'w shell \<Rightarrow> t3_validator_spec \<Rightarrow> 'w \<Rightarrow> ((exn + exec_result) \<times> 'w) option" where
  "run_handler tx sh spec w =
     (let cfg = or_default no_config (ts_config spec); ck = tx_clock tx; parse = vr_parse (tx_delegate tx); i = vs_id spec in
      if vs_type spec = ''IAC_STATE'' then Some (runIacState ck sh i (cf_iac_state cfg) w)
      else if vs_type spec = ''CLOUD_ASSERT'' then Some (runCloudAssert parse ck sh i (cf_cloud_assert cfg) w)
      else if vs_type spec = ''STATIC_ANALYSIS'' then Some (runStaticAnalysis parse ck sh i (cf_static_analysis cfg) w)
      else if vs_type spec = ''TEST_SUITE'' then Some (runTestSuite parse ck sh i (cf_test_suite cfg) w)
      else if vs_type spec = ''PERF_BENCH'' then Some (runPerfBench parse (vr_stringify (tx_delegate tx)) ck sh i (cf_perf_bench cfg) w)
      else runChaosProbe ck sh i (cf_chaos_probe cfg) w)"

definition t3_execute :: "'w t3_executor \<Rightarrow> string \<Rightarrow> string \<Rightarrow> t3_validator_spec \<Rightarrow> 'w \<Rightarrow> ((exn + exec_result) \<times> 'w) option" where
  "t3_execute tx environmentId attemptId spec w =
     (if vs_type spec \<notin> set T3_VALIDATOR_TYPES then Some (grpc_execute (tx_clock tx) (tx_delegate tx) environmentId attemptId (t3_spec.truncate spec) w)
      else let start = ck_now (tx_clock tx) w in
        case resolveRunner tx environmentId attemptId of
          None \<Rightarrow> Some (t3_error (tx_clock tx) start (vs_id spec) w)
        | Some sh \<Rightarrow> (case run_handler tx sh spec w of
            None \<Rightarrow> None
          | Some (Inr r, w') \<Rightarrow> Some (Inr r, w')
          | Some (Inl e, w') \<Rightarrow> Some (t3_error (tx_clock tx) start (vs_id spec) w')))"

section \<open>The probing loop ends\<close>

text \<open>The clock of the platform: commands do not turn it back, and a timer waits at least the time it was given
  and at least a millisecond.\<close>

definition clock_ok :: "'w clock \<Rightarrow> 'w shell \<Rightarrow> bool" where
  "clock_ok ck sh \<longleftrightarrow> (\<forall>c w. ck_now ck w \<le> ck_now ck (snd (sh_run sh c w))) \<and> (\<forall>ms w. ck_now ck w + max 1 ms \<le> ck_now ck (ck_sleep ck ms w))"

lemma probeOnce_state: "snd (probeOnce sh url st w) = snd (sh_run sh (plain_command [''curl'', ''-s'', ''-o'', ''/dev/null'', ''-w'', ''%{http_code}'', ''--max-time'', ''5'', url] 10000) w)"
  by (simp add: probeOnce_def bnd_def split: prod.split sum.split)

lemma probe_loop_ends:
  assumes "clock_ok ck sh"
  shows "\<exists>r w'. probe_loop ck sh url st iv deadline results w = Some (r, w') \<and>
    (\<forall>rs. r = Inr rs \<longrightarrow> (\<exists>more. rs = results @ more \<and> length more * max 1 iv \<le> (deadline - ck_now ck w) + max 1 iv - 1))"
proof (induction "deadline - ck_now ck w" arbitrary: w results rule: less_induct)
  case less
  show ?case
  proof (cases "ck_now ck w < deadline")
    case False
    then show ?thesis by (subst probe_loop.simps) simp
  next
    case True
    obtain r w1 where r: "probeOnce sh url st w = (r, w1)" by fastforce
    then have w1: "ck_now ck w \<le> ck_now ck w1" using assms probeOnce_state [of sh url st w] by (simp add: clock_ok_def)
    show ?thesis
    proof (cases "\<exists>x. r = Inr x \<and> x \<noteq> INFRA")
      case False
      then show ?thesis using True r by (subst probe_loop.simps) (auto split: sum.split)
    next
      case more: True
      then obtain x where x: "r = Inr x" "x \<noteq> INFRA" by blast
      let ?w = "ck_sleep ck iv w1"
      have later: "ck_now ck w + max 1 iv \<le> ck_now ck ?w" using assms w1 by (meson clock_ok_def add_le_mono1 le_trans)
      then have "deadline - ck_now ck ?w < deadline - ck_now ck w" using True by (simp add: max_def split: if_splits)
      from less [OF this, of "results @ [x]"] obtain q v where q: "probe_loop ck sh url st iv deadline (results @ [x]) ?w = Some (q, v)"
          "\<forall>rs. q = Inr rs \<longrightarrow> (\<exists>more. rs = (results @ [x]) @ more \<and> length more * max 1 iv \<le> (deadline - ck_now ck ?w) + max 1 iv - 1)"
        by blast
      have step: "probe_loop ck sh url st iv deadline results w = Some (q, v)" using True r x q(1) by (subst probe_loop.simps) simp
      have "\<exists>more. rs = results @ more \<and> length more * max 1 iv \<le> (deadline - ck_now ck w) + max 1 iv - 1" if rs: "q = Inr rs" for rs
      proof -
        obtain m where m: "rs = results @ (x # m)" "length m * max 1 iv \<le> (deadline - ck_now ck ?w) + max 1 iv - 1" using q(2) rs by auto
        have "length (x # m) * max 1 iv \<le> (deadline - ck_now ck w) + max 1 iv - 1"
        proof (cases "length m")
          case 0
          then show ?thesis using True by (auto simp: max_def)
        next
          case (Suc n)
          then have "max 1 iv \<le> length m * max 1 iv" by simp
          then have "max 1 iv \<le> (deadline - ck_now ck ?w) + max 1 iv - 1" using m(2) by (rule le_trans)
          then have "deadline - ck_now ck ?w > 0" by (cases "deadline - ck_now ck ?w") (auto simp: max_def split: if_splits)
          then show ?thesis using m(2) later True by simp
        qed
        then show ?thesis using m(1) by blast
      qed
      then show ?thesis using step by blast
    qed
  qed
qed

section \<open>Outcomes of statements\<close>

definition yields :: "('a \<Rightarrow> bool) \<Rightarrow> ('w, 'e, 'a) io \<Rightarrow> bool" where
  "yields P m \<longleftrightarrow> (\<forall>w x w'. m w = (Inr x, w') \<longrightarrow> P x)"

named_theorems outcomes \<open>what a statement can yield\<close>

lemma yields_ret [outcomes]: "P x \<Longrightarrow> yields P (ret x)"
  and yields_throw [outcomes]: "yields P (throw e)"
  and yields_query [outcomes]: "(\<And>s. P (f s)) \<Longrightarrow> yields P (query f)"
  by (simp_all add: yields_def)

lemma yields_bnd: "yields Q m \<Longrightarrow> (\<And>x. Q x \<Longrightarrow> yields P (f x)) \<Longrightarrow> yields P (bnd m f)"
  unfolding yields_def bnd_def by (fastforce split: prod.splits sum.splits)

lemma yields_any: "yields (\<lambda>_. True) m"
  by (simp add: yields_def)

lemma yields_try: "yields P m \<Longrightarrow> (\<And>e. yields P (h e)) \<Longrightarrow> yields P (try_catch m h)"
  unfolding yields_def try_catch_def by (fastforce split: prod.splits sum.splits)

lemma yields_case_option: "(x = None \<Longrightarrow> yields P m) \<Longrightarrow> (\<And>y. x = Some y \<Longrightarrow> yields P (f y)) \<Longrightarrow> yields P (case x of None \<Rightarrow> m | Some y \<Rightarrow> f y)"
  by (cases x) auto

lemma yieldsD: "yields P m \<Longrightarrow> m w = (Inr x, w') \<Longrightarrow> P x"
  unfolding yields_def by blast

abbreviation errs :: "('w, 'e, exec_result) io \<Rightarrow> bool" where
  "errs \<equiv> yields (\<lambda>r. xr_status r = VERROR)"

lemma errs_error [outcomes, simp]: "errs (t3_error ck start i)"
  unfolding t3_error_def t3_result_def by (rule yields_bnd [OF yields_any]) (simp add: yields_ret)

definition down :: "'w shell \<Rightarrow> bool" where
  "down sh \<longleftrightarrow> (\<forall>c. yields infra (sh_run sh c))"

lemma down_run: "down sh \<Longrightarrow> (\<And>r. infra r \<Longrightarrow> yields P (f r)) \<Longrightarrow> yields P (bnd (sh_run sh c) f)"
  by (rule yields_bnd [of infra]) (auto simp: down_def)

lemma down_iac: "down sh \<Longrightarrow> errs (runIacState ck sh i cfg)"
proof -
  assume d: "down sh"
  let ?c = "or_default no_iac_state cfg"
  have drift: "yields (\<lambda>x. x = None \<or> x = Some []) (iac_drift sh ?c)" unfolding iac_drift_def
    by (auto intro!: down_run [OF d] yields_ret)
  have pull: "yields (\<lambda>x. x = None \<or> \<not> or_default False (ic_require_remote_backend ?c) \<and> \<not> or_default False (ic_forbid_secrets_in_state ?c)) (iac_pull sh ?c)"
    unfolding iac_pull_def by (auto intro!: down_run [OF d] yields_ret)
  have backend: "yields (\<lambda>x. x = None \<or> x = Some []) (iac_backend sh ?c)" unfolding iac_backend_def
    by (auto intro!: down_run [OF d] yields_ret)
  show ?thesis unfolding runIacState_def Let_def
    by (rule yields_bnd [OF yields_any], rule yields_bnd [OF drift], rule yields_case_option, simp, rule yields_bnd [OF pull],
        rule yields_case_option, simp, rule yields_bnd [OF backend], rule yields_case_option, simp) (auto simp: iac_secrets_def)
qed

lemma down_scan: "down sh \<Longrightarrow> yields (\<lambda>_. False) (scan_json parse sh argv ms)"
  unfolding scan_json_def by (auto intro!: down_run yields_throw)

lemma down_tool: "down sh \<Longrightarrow> yields (\<lambda>_. False) (runTool parse sh tool target)"
  unfolding runTool_def by (auto intro!: yields_bnd [OF down_scan])

lemma down_static: "down sh \<Longrightarrow> errs (runStaticAnalysis parse ck sh i cfg)"
proof -
  assume d: "down sh"
  have "yields (\<lambda>x. x = None) (try_catch (bnd (runTool parse sh tool target) (\<lambda>fs. ret (Some fs))) (\<lambda>_. ret None))" for tool target
    by (auto intro!: yields_try yields_bnd [OF down_tool [OF d]] yields_ret)
  then show ?thesis unfolding runStaticAnalysis_def Let_def
    by (intro yields_bnd [OF yields_any]) (auto intro!: yields_bnd)
qed

lemma down_suite: "down sh \<Longrightarrow> errs (runTestSuite parse ck sh i cfg)"
  unfolding runTestSuite_def Let_def by (intro yields_bnd [OF yields_any]) (auto intro!: down_run)

lemma down_perf: "down sh \<Longrightarrow> errs (runPerfBench parse stringify ck sh i cfg)"
proof -
  assume d: "down sh"
  have "yields (\<lambda>_. True) (k6_target stringify sh (or_default no_perf_bench cfg))" by (rule yields_any)
  then show ?thesis unfolding runPerfBench_def Let_def
    by (intro yields_bnd [OF yields_any]) (auto intro!: yields_bnd [OF yields_any] yields_case_option down_run [OF d])
qed

lemma down_aws: "down sh \<Longrightarrow> yields (\<lambda>_. False) (awsJson parse sh region argv)"
  unfolding awsJson_def by (auto intro!: down_run yields_throw)

lemma down_checks: "down sh \<Longrightarrow> map_of (CHECKS parse sh region) c = Some m \<Longrightarrow> yields (\<lambda>_. False) m"
  unfolding CHECKS_def no_public_s3_def rds_encrypted_at_rest_def no_world_open_admin_ports_def non_default_vpc_present_def no_wildcard_admin_policy_def
  by (auto intro!: yields_bnd [OF down_aws] split: if_splits)

lemma down_cloud: "down sh \<Longrightarrow> errs (runCloudAssert parse ck sh i cfg)"
proof -
  assume d: "down sh"
  let ?c = "or_default \<lparr>ca_checks = [], ca_region = None\<rparr> cfg" let ?t = "map_of (CHECKS parse sh (ca_region ?c))"
  have "yields (\<lambda>x. x = None) (try_catch (bnd (map_io (\<lambda>c. the (?t c)) (ca_checks ?c)) (\<lambda>os. ret (Some os))) (\<lambda>_. ret None))"
    if ne: "ca_checks ?c \<noteq> []" and known: "\<forall>c \<in> set (ca_checks ?c). ?t c \<noteq> None"
  proof -
    obtain c cs where c: "ca_checks ?c = c # cs" using ne by (cases "ca_checks ?c") auto
    then have "yields (\<lambda>_. False) (the (?t c))" using known down_checks [OF d] by fastforce
    then have "yields (\<lambda>_. False) (map_io (\<lambda>c. the (?t c)) (ca_checks ?c))" unfolding c by (auto intro: yields_bnd)
    then show ?thesis by (auto intro!: yields_try yields_bnd [where Q = "\<lambda>_. False"] yields_ret)
  qed
  then show ?thesis unfolding runCloudAssert_def Let_def
    by (intro yields_bnd [OF yields_any]) (auto intro!: yields_bnd)
qed

lemma down_probe: "down sh \<Longrightarrow> yields (\<lambda>x. x = INFRA) (probeOnce sh url st)"
  unfolding probeOnce_def by (auto intro!: down_run yields_ret)

lemma down_begin: "down sh \<Longrightarrow> yields (\<lambda>x. \<exists>r. x = Inl r \<and> xr_status r = VERROR) (chaos_begin ck sh i cfg start)"
proof -
  assume d: "down sh"
  have "yields (\<lambda>x. \<exists>r. x = Inl r \<and> xr_status r = VERROR) (bnd (t3_error ck start i) (\<lambda>r. ret (Inl r)))"
    by (auto intro!: yields_bnd [OF errs_error] yields_ret)
  then show ?thesis unfolding chaos_begin_def Let_def by (auto intro!: yields_bnd [OF down_probe [OF d]] yields_case_option)
qed

lemma down_chaos: "down sh \<Longrightarrow> runChaosProbe ck sh i cfg w = Some (Inr r, w') \<Longrightarrow> xr_status r = VERROR"
  using yieldsD [OF down_begin [of sh ck i "or_default no_chaos_probe cfg" "ck_now ck w"], of w]
  by (auto simp: runChaosProbe_def Let_def split: prod.splits sum.splits)

lemma t3_result_run: "t3_result ck start i st obs ex w =
    (Inr \<lparr>xr_validatorId = i, xr_status = st, xr_observed = obs, xr_expected = ex, xr_durationMs = ck_now ck w - start\<rparr>, w)"
  by (simp add: t3_result_def)

lemma chaos_begun:
  assumes "clock_ok ck sh" and "chaos_begin ck sh i cfg (ck_now ck w) w = (Inr (Inr u), w1)" and "hc = the (cp_health_check cfg)"
    and "iv = or_default 2000 (hc_interval_ms hc)" and "rec = or_default 60000 (cp_recovery_timeout_ms cfg)"
  shows "\<exists>q v. probe_loop ck sh (hc_url hc) (or_default 200 (hc_expect_status hc)) iv (ck_now ck w1 + rec) [] w1 = Some (q, v) \<and>
    (\<forall>rs. q = Inr rs \<longrightarrow> length rs * max 1 iv \<le> rec + max 1 iv - 1) \<and>
    runChaosProbe ck sh i (Some cfg) w =
      Some (case q of Inl e \<Rightarrow> (Inl e, v) | Inr rs \<Rightarrow> chaos_verdict ck sh (ck_now ck w) i (the (cp_action cfg)) rec rs v)"
proof -
  obtain q v where q: "probe_loop ck sh (hc_url hc) (or_default 200 (hc_expect_status hc)) iv (ck_now ck w1 + rec) [] w1 = Some (q, v)"
      "\<forall>rs. q = Inr rs \<longrightarrow> length rs * max 1 iv \<le> rec + max 1 iv - 1"
    using probe_loop_ends [OF assms(1), of "hc_url hc" "or_default 200 (hc_expect_status hc)" iv "ck_now ck w1 + rec" "[]" w1] by auto
  moreover have "or_default no_chaos_probe (Some cfg) = cfg" by (simp add: or_default_def)
  ultimately show ?thesis using assms(2-5) by (cases q) (simp_all add: runChaosProbe_def)
qed

lemma chaos_ends:
  assumes "clock_ok ck sh"
  shows "\<exists>r w'. runChaosProbe ck sh i cfg w = Some (r, w')"
proof -
  let ?c = "or_default no_chaos_probe cfg"
  obtain b w1 where b: "chaos_begin ck sh i ?c (ck_now ck w) w = (b, w1)" by fastforce
  have some: "runChaosProbe ck sh i cfg w = runChaosProbe ck sh i (Some ?c) w" by (simp add: runChaosProbe_def or_default_def)
  show ?thesis
  proof (cases "\<exists>u. b = Inr (Inr u)")
    case False
    then show ?thesis using b by (auto simp: runChaosProbe_def Let_def split: sum.split)
  next
    case True
    then obtain x where "runChaosProbe ck sh i (Some ?c) w = Some x" using chaos_begun [OF assms _ refl refl refl, of i ?c w _ w1] b by blast
    then show ?thesis using some by (cases x) simp
  qed
qed

lemma handler_ends: "clock_ok (tx_clock tx) sh \<Longrightarrow> \<exists>q w'. run_handler tx sh spec w = Some (q, w')"
  unfolding run_handler_def Let_def using chaos_ends [of "tx_clock tx" sh] by (auto simp: prod_eq_iff)

lemma begin_errs: "chaos_begin ck sh i cfg start w = (Inr (Inl r), w') \<Longrightarrow> xr_status r = VERROR"
proof -
  let ?P = "\<lambda>x. \<forall>r. x = Inl r \<longrightarrow> xr_status r = VERROR"
  have e: "yields ?P (bnd (t3_error ck start i) (\<lambda>r. ret (Inl r)))" by (auto intro!: yields_bnd [OF errs_error] yields_ret)
  have "yields ?P (chaos_begin ck sh i cfg start)" unfolding chaos_begin_def Let_def
    by (auto intro!: e yields_bnd [OF yields_any] yields_case_option yields_ret)
  then show "chaos_begin ck sh i cfg start w = (Inr (Inl r), w') \<Longrightarrow> xr_status r = VERROR" using yieldsD by fastforce
qed

lemma begin_health: "chaos_begin ck sh i cfg start w = (Inr (Inr u), w') \<Longrightarrow> \<exists>hc. cp_health_check cfg = Some hc"
  by (auto simp: chaos_begin_def Let_def t3_error_def t3_result_run split: if_splits option.splits)

lemma handler_down:
  assumes d: "down sh" and run: "run_handler tx sh spec w = Some (Inr r, w')"
  shows "xr_status r = VERROR"
proof -
  consider (iac) cfg where "runIacState (tx_clock tx) sh (vs_id spec) cfg w = (Inr r, w')"
    | (cloud) cfg where "runCloudAssert (vr_parse (tx_delegate tx)) (tx_clock tx) sh (vs_id spec) cfg w = (Inr r, w')"
    | (static) cfg where "runStaticAnalysis (vr_parse (tx_delegate tx)) (tx_clock tx) sh (vs_id spec) cfg w = (Inr r, w')"
    | (suite) cfg where "runTestSuite (vr_parse (tx_delegate tx)) (tx_clock tx) sh (vs_id spec) cfg w = (Inr r, w')"
    | (perf) cfg where "runPerfBench (vr_parse (tx_delegate tx)) (vr_stringify (tx_delegate tx)) (tx_clock tx) sh (vs_id spec) cfg w = (Inr r, w')"
    | (chaos) cfg where "runChaosProbe (tx_clock tx) sh (vs_id spec) cfg w = Some (Inr r, w')"
    using run unfolding run_handler_def Let_def by (metis option.inject)
  then show ?thesis
  proof cases
    case iac
    then show ?thesis by (rule yieldsD [OF down_iac [OF d]])
  next
    case cloud
    then show ?thesis by (rule yieldsD [OF down_cloud [OF d]])
  next
    case static
    then show ?thesis by (rule yieldsD [OF down_static [OF d]])
  next
    case suite
    then show ?thesis by (rule yieldsD [OF down_suite [OF d]])
  next
    case perf
    then show ?thesis by (rule yieldsD [OF down_perf [OF d]])
  next
    case chaos
    then show ?thesis by (rule down_chaos [OF d])
  qed
qed

section \<open>Properties\<close>



section \<open>Witnesses\<close>

text \<open>A world that is only its clock, a shell that always finds the service healthy and one that never answers.\<close>

definition demo_clock :: "nat clock" where
  "demo_clock = \<lparr>ck_now = (\<lambda>w. w), ck_sleep = (\<lambda>ms w. w + max 1 ms)\<rparr>"

definition demo_answer :: "string option \<Rightarrow> shell_result" where
  "demo_answer e = \<lparr>sr_exitCode = 0, sr_stdout = ''200'', sr_stderr = [], sr_infraError = e, sr_durationMs = 0\<rparr>"

definition demo_shell :: "string option \<Rightarrow> nat shell" where
  "demo_shell e = \<lparr>sh_backend = ''demo'', sh_run = (\<lambda>c w. (Inr (demo_answer e), w))\<rparr>"

definition demo_chaos :: chaos_probe_config where
  "demo_chaos = \<lparr>cp_action = Some ''kill_pod'', cp_target_selector = None,
     cp_health_check = Some \<lparr>hc_url = ''u'', hc_expect_status = None, hc_interval_ms = Some 1000\<rparr>, cp_recovery_timeout_ms = Some 1000\<rparr>"

definition demo_executor :: "nat t3_executor" where
  "demo_executor = \<lparr>tx_clock = demo_clock,
     tx_delegate = \<lparr>vr_execValidator = (\<lambda>_ _. throw NoResult), vr_checkRegression = (\<lambda>_ _ _. throw NoResult), vr_parse = (\<lambda>_. None), vr_stringify = (\<lambda>_. [])\<rparr>,
     tx_shellRunner = Some (OtherShellRunner (demo_shell (Some ''unreachable'')))\<rparr>"

definition demo_spec :: t3_validator_spec where
  "demo_spec = \<lparr>vs_id = ''v'', vs_type = ''CHAOS_PROBE'', vs_weight = 1, vs_severity = None, vs_timeout_ms = None, ts_run = None, ts_expect = None,
     ts_config = Some (no_config\<lparr>cf_chaos_probe := Some demo_chaos\<rparr>)\<rparr>"

lemma demo_clock_ok: "clock_ok demo_clock (demo_shell e)"
  by (simp add: clock_ok_def demo_clock_def demo_shell_def)

lemma demo_shell_down: "down (demo_shell (Some ''unreachable''))"
  by (simp add: down_def yields_def demo_shell_def demo_answer_def infra_def truthy_def)

lemma demo_status: "show_nat 200 = ''200''"
  by code_simp

lemma demo_probe: "probeOnce (demo_shell None) url 200 w = (Inr OK, w)"
  by (simp add: probeOnce_def bnd_def demo_shell_def demo_answer_def infra_def truthy_def js_trim_def js_space_def char_code_def demo_status)

lemma demo_chaos_passes: "\<exists>r. runChaosProbe demo_clock (demo_shell None) ''v'' (Some demo_chaos) 0 = Some (Inr r, 1000) \<and> xr_status r = VPASS"
proof -
  let ?sh = "demo_shell None"
  have begin': "chaos_begin demo_clock ?sh ''v'' demo_chaos 0 0 = (Inr (Inr ()), 0)"
    by (simp add: chaos_begin_def demo_chaos_def truthy_def or_default_def bnd_def demo_probe applyChaos_def chaos_script_def)
      (simp add: demo_shell_def demo_answer_def infra_def truthy_def)
  have "probe_loop demo_clock ?sh ''u'' 200 1000 1000 [OK] 1000 = Some (Inr [OK], 1000)"
    by (subst probe_loop.simps) (simp add: demo_clock_def)
  then have "probe_loop demo_clock ?sh ''u'' 200 1000 1000 [] 0 = Some (Inr [OK], 1000)"
    by (subst probe_loop.simps) (simp add: demo_clock_def demo_probe)
  then show ?thesis using begin'
    by (simp add: runChaosProbe_def or_default_def demo_clock_def demo_chaos_def chaos_verdict_def t3_result_run bad_count_def end_green_def pass_fail_def)
qed



section \<open>Observations\<close>

text \<open>A scanner whose output cannot be read counts as a scan without findings and passes.\<close>

lemma unreadable_scan_passes:
  assumes "sa_tool cfg = Some ''tfsec''"
    and "sh_run sh (plain_command [''tfsec'', if truthy (sa_target cfg) then the (sa_target cfg) else ''.'', ''--format'', ''json'', ''--soft-fail'', ''--no-color''] 180000) w = (Inr r, w')"
    and "\<not> infra r" and "parseLooseJson parse (sr_stdout r) = None"
  shows "\<exists>q. runStaticAnalysis parse ck sh i (Some cfg) w = (Inr q, w') \<and> xr_status q = VPASS"
  using assms
  by (simp add: runStaticAnalysis_def or_default_def Let_def truthy_def [of "Some _"] runTool_def scan_json_def bnd_def try_catch_def t3_result_run
    over_threshold_def gate_fails_def pass_fail_def split: option.split)

text \<open>With \<open>max_findings\<close> set, the severity of the findings no longer matters; a severity the code does not know ranks
  with \<open>NONE\<close> and never counts.\<close>

lemma count_replaces_severity: "length fs \<le> n \<Longrightarrow> \<not> gate_fails (Some n) (length (over_threshold maxSev fs))"
  by (simp add: gate_fails_def over_threshold_def) (meson length_filter_le le_trans not_le)

lemma unknown_severity_passes: "over_threshold ''NONE'' [\<lparr>fi_ruleId = i, fi_severity = ''UNKNOWN'', fi_description = d\<rparr>] = []"
  by (simp add: over_threshold_def sevRank_def toUpperCase_def SEVERITY_ORDER_def upper_def is_lower_def char_code_def or_default_def)

text \<open>An infrastructure failure after the chaos action is scored as a failure of the learner.\<close>

lemma chaos_outage_scored:
  assumes "chaos_begin ck sh i cfg (ck_now ck w) w = (Inr (Inr ()), w1)" and "cp_health_check cfg = Some hc"
    and "or_default 60000 (cp_recovery_timeout_ms cfg) > 0" and "probeOnce sh (hc_url hc) (or_default 200 (hc_expect_status hc)) w1 = (Inr INFRA, w2)"
  shows "\<exists>r. runChaosProbe ck sh i (Some cfg) w = Some (Inr r, w2) \<and> xr_status r = VFAIL"
proof -
  have "probe_loop ck sh (hc_url hc) (or_default 200 (hc_expect_status hc)) (or_default 2000 (hc_interval_ms hc))
      (ck_now ck w1 + or_default 60000 (cp_recovery_timeout_ms cfg)) [] w1 = Some (Inr [], w2)"
    using assms(3,4) by (subst probe_loop.simps) simp
  then show ?thesis using assms(1,2)
    by (simp add: runChaosProbe_def or_default_def [of _ "Some cfg"] chaos_verdict_def Let_def t3_result_run end_green_def pass_fail_def)
qed

text \<open>A bucket whose settings could not be read counts as public.\<close>

lemma s3_outage_scored:
  assumes "awsJson parse sh region [''s3api'', ''list-buckets''] w = (Inr (JObj [(''Buckets'', JArr [JObj [(''Name'', JStr (c # cs))]])]), w1)"
    and "awsJson parse sh region [''s3api'', ''get-public-access-block'', ''--bucket'', c # cs] w1 = (Inl e, w2)"
  shows "no_public_s3 parse sh region w = (Inr (''no_public_s3'', False), w2)"
  using assms by (simp add: no_public_s3_def bnd_def or_else_def try_catch_def fully_blocked_def)

text \<open>A command that fails passes if the report it leaves behind is good enough.\<close>

lemma suite_exit_code_ignored:
  assumes "sr_exitCode finished \<noteq> 0" and "parseReport parse (or_default (inferFormat report (or_default [] (tc_report_path cfg))) (tc_report_format cfg)) report = Some counts"
    and "co_total counts \<noteq> 0" and "pass_rate counts \<ge> or_default 1 (tc_min_pass_rate cfg)"
  shows "\<exists>r. suite_verdict parse ck sh start i cfg finished report w = (Inr r, w) \<and> xr_status r = VPASS"
  using assms by (simp add: suite_verdict_def Let_def t3_result_run pass_fail_def)

end
