(* ===== verification/Curriculum.thy ===== *)
theory Curriculum
  imports Catalog "HOL-Library.Multiset"
begin

text \<open>
  \<open>curriculum/curriculum.repository.ts\<close>, the course tree, with the writes and look-ups of
  \<open>skill/skill.repository.ts\<close> that fill the skill catalogue and the listing \<open>listMasteryForUser\<close> of
  \<open>skill/mastery.service.ts\<close>. The keys and references of migration \<open>0001_curriculum_and_skills.sql\<close> are part of the
  inserts. The lemmas show that the tables stay well formed and that the tree a learner sees is
  exactly the rows of the course.
\<close>

section \<open>Model\<close>

definition put_courses :: "course_row list \<Rightarrow> db \<Rightarrow> db" where "put_courses rs s = s\<lparr>courses := rs\<rparr>"
definition put_modules :: "module_row list \<Rightarrow> db \<Rightarrow> db" where "put_modules rs s = s\<lparr>course_modules := rs\<rparr>"
definition put_topics :: "topic_row list \<Rightarrow> db \<Rightarrow> db" where "put_topics rs s = s\<lparr>topics := rs\<rparr>"
definition put_subtopics :: "subtopic_row list \<Rightarrow> db \<Rightarrow> db" where "put_subtopics rs s = s\<lparr>subtopics := rs\<rparr>"
definition put_skills :: "skill_row list \<Rightarrow> db \<Rightarrow> db" where "put_skills rs s = s\<lparr>skills := rs\<rparr>"

text \<open>An \<open>INSERT ... RETURNING *\<close> of a row that refers to another table.\<close>

definition insert_child :: "(db \<Rightarrow> 'r list) \<Rightarrow> ('r list \<Rightarrow> db \<Rightarrow> db) \<Rightarrow> ('r \<Rightarrow> string) \<Rightarrow> (db \<Rightarrow> bool) \<Rightarrow> 'r \<Rightarrow> 'r prog" where
  "insert_child get put key referred r = bnd (query referred) (\<lambda>ok.
     if \<not> ok then throw (DbErr ''insert violates foreign key constraint'')
     else andthen (insert_row get put key r) (ret r))"

definition same_course :: "string \<Rightarrow> string \<Rightarrow> course_row \<Rightarrow> bool" where
  "same_course tenantId slug c \<longleftrightarrow> co_tenant_id c = tenantId \<and> co_slug c = slug"

definition createCourse :: "string \<Rightarrow> string \<Rightarrow> string \<Rightarrow> string \<Rightarrow> course_row prog" where
  "createCourse newId tenantId slug title =
     bnd (query (\<lambda>s. find_row (same_course tenantId slug) (courses s))) (\<lambda>found. case found of
       Some c \<Rightarrow> andthen (modify (\<lambda>s. s\<lparr>courses := update_where (same_course tenantId slug) (\<lambda>c. c\<lparr>co_title := title\<rparr>) (courses s)\<rparr>))
         (ret (c\<lparr>co_title := title\<rparr>))
     | None \<Rightarrow> insert_child courses put_courses co_id (\<lambda>_. True)
         \<lparr>co_id = newId, co_tenant_id = tenantId, co_slug = slug, co_title = title, co_status = ''active''\<rparr>)"

definition createModule :: "string \<Rightarrow> string \<Rightarrow> string \<Rightarrow> nat \<Rightarrow> string option \<Rightarrow> module_row prog" where
  "createModule newId courseId title position slug =
     insert_child course_modules put_modules mo_id (\<lambda>s. courseId \<in> set (map co_id (courses s)))
       \<lparr>mo_id = newId, mo_course_id = courseId, mo_title = title, mo_position = position, mo_slug = slug\<rparr>"

definition createTopic :: "string \<Rightarrow> string \<Rightarrow> string \<Rightarrow> nat \<Rightarrow> string option \<Rightarrow> topic_row prog" where
  "createTopic newId moduleId title position slug =
     insert_child topics put_topics tp_id (\<lambda>s. moduleId \<in> set (map mo_id (course_modules s)))
       \<lparr>tp_id = newId, tp_module_id = moduleId, tp_title = title, tp_position = position, tp_slug = slug\<rparr>"

definition findTopicBySlug :: "string \<Rightarrow> db \<Rightarrow> topic_row option" where
  "findTopicBySlug slug s = find_row (\<lambda>t. tp_slug t = Some slug) (topics s)"

definition createSubtopic :: "string \<Rightarrow> string \<Rightarrow> string \<Rightarrow> nat \<Rightarrow> subtopic_row prog" where
  "createSubtopic newId topicId title position =
     insert_child subtopics put_subtopics st_id (\<lambda>s. topicId \<in> set (map tp_id (topics s)))
       \<lparr>st_id = newId, st_topic_id = topicId, st_title = title, st_position = position\<rparr>"

definition topic_skill_key :: "topic_skill_row \<Rightarrow> string \<times> string" where
  "topic_skill_key r = (tsk_topic_id r, tsk_skill_id r)"

definition mapTopicToSkill :: "string \<Rightarrow> string \<Rightarrow> real \<Rightarrow> string \<Rightarrow> unit prog" where
  "mapTopicToSkill topicId skillId coverageWeight bloomLevel =
     bnd (query (\<lambda>s. topicId \<in> set (map tp_id (topics s)) \<and> skillId \<in> set (map sk_id (skills s)))) (\<lambda>ok.
     if \<not> ok then throw (DbErr ''insert violates foreign key constraint'')
     else modify (\<lambda>s. s\<lparr>topic_skills := upsert (\<lambda>r. topic_skill_key r = (topicId, skillId))
       (\<lambda>r. r\<lparr>tsk_coverage_weight := coverageWeight, tsk_bloom_level := bloomLevel\<rparr>)
       \<lparr>tsk_topic_id = topicId, tsk_skill_id = skillId, tsk_coverage_weight = coverageWeight, tsk_bloom_level = bloomLevel\<rparr> (topic_skills s)\<rparr>))"

record topic_node =
  tn_topic :: topic_row
  tn_subtopics :: "subtopic_row list"
  tn_skills :: "(topic_skill_row \<times> skill_row) list"

record module_node =
  mn_module :: module_row
  mn_topics :: "topic_node list"

record course_tree =
  ct_course :: course_row
  ct_modules :: "module_node list"

definition modules_of :: "string \<Rightarrow> db \<Rightarrow> module_row list" where
  "modules_of courseId s = sort_key mo_position (filter (\<lambda>m. mo_course_id m = courseId) (course_modules s))"

definition topics_in :: "string list \<Rightarrow> db \<Rightarrow> topic_row list" where
  "topics_in moduleIds s = sort_key tp_position (filter (\<lambda>t. tp_module_id t \<in> set moduleIds) (topics s))"

definition subtopics_in :: "string list \<Rightarrow> db \<Rightarrow> subtopic_row list" where
  "subtopics_in topicIds s = sort_key st_position (filter (\<lambda>t. st_topic_id t \<in> set topicIds) (subtopics s))"

definition skills_in :: "string list \<Rightarrow> db \<Rightarrow> (topic_skill_row \<times> skill_row) list" where
  "skills_in topicIds s = filter (\<lambda>(ts, k). tsk_topic_id ts \<in> set topicIds)
     (inner_join (\<lambda>ts k. sk_id k = tsk_skill_id ts) (topic_skills s) (skills s))"

definition getCourseTree :: "string \<Rightarrow> string \<Rightarrow> db \<Rightarrow> course_tree option" where
  "getCourseTree tenantId courseSlug s =
     (case find_row (same_course tenantId courseSlug) (courses s) of
        None \<Rightarrow> None
      | Some course \<Rightarrow>
        let mods = modules_of (co_id course) s;
            tops = topics_in (map mo_id mods) s;
            subs = subtopics_in (map tp_id tops) s;
            sks = skills_in (map tp_id tops) s
        in Some \<lparr>ct_course = course, ct_modules = map (\<lambda>m. \<lparr>mn_module = m,
             mn_topics = map (\<lambda>t. \<lparr>tn_topic = t, tn_subtopics = filter (\<lambda>x. st_topic_id x = tp_id t) subs,
               tn_skills = filter (\<lambda>(ts, k). tsk_topic_id ts = tp_id t) sks\<rparr>) (filter (\<lambda>t. tp_module_id t = mo_id m) tops)\<rparr>) mods\<rparr>)"

definition listCourses :: "string \<Rightarrow> db \<Rightarrow> course_row list" where
  "listCourses tenantId s = filter (\<lambda>c. co_tenant_id c = tenantId) (courses s)"

definition listCoursesForActivityVersion :: "string \<Rightarrow> db \<Rightarrow> (string \<times> string \<times> string) list" where
  "listCoursesForActivityVersion activityVersionId s =
     remdups (map (\<lambda>(b, t, m, c). (co_id c, co_slug c, co_title c))
       (inner_join (\<lambda>b (t, m, c). tp_id t = at_topic_id b) (filter (\<lambda>b. at_activity_version_id b = activityVersionId) (activity_topics s))
         (inner_join (\<lambda>t (m, c). mo_id m = tp_module_id t) (topics s)
           (inner_join (\<lambda>m c. co_id c = mo_course_id m) (course_modules s) (courses s)))))"

subsection \<open>The skill catalogue\<close>

record create_skill_input =
  cs_slug :: string
  cs_name :: string
  cs_domain :: string
  cs_decayHalfLifeDays :: "real option"
  cs_domainOrder :: "nat option"
  cs_sequence :: "nat option"
  cs_courseSlug :: "string option"

text \<open>The defaults of the columns are those of migrations 0001, 0004 and 0005.\<close>

definition new_skill :: "string \<Rightarrow> create_skill_input \<Rightarrow> skill_row" where
  "new_skill newId input = \<lparr>sk_id = newId, sk_bkt_p_init = 15/100, sk_bkt_p_transit = 25/100, sk_bkt_p_slip = 10/100, sk_bkt_p_guess = 8/100,
     sk_decay_half_life_days = (case cs_decayHalfLifeDays input of None \<Rightarrow> 180 | Some d \<Rightarrow> d),
     sk_slug = cs_slug input, sk_name = cs_name input, sk_domain = cs_domain input, sk_status = ''active'',
     sk_domain_order = (case cs_domainOrder input of None \<Rightarrow> 0 | Some n \<Rightarrow> n), sk_sequence = (case cs_sequence input of None \<Rightarrow> 0 | Some n \<Rightarrow> n),
     sk_course_slug = (case cs_courseSlug input of None \<Rightarrow> ''devops-with-ai'' | Some c \<Rightarrow> c)\<rparr>"

definition createSkill :: "string \<Rightarrow> create_skill_input \<Rightarrow> skill_row prog" where
  "createSkill newId input = bnd (query (\<lambda>s. cs_slug input \<in> set (map sk_slug (skills s)))) (\<lambda>dup.
     if dup then throw (DbErr ''duplicate key value violates unique constraint'')
     else insert_child skills put_skills sk_id (\<lambda>_. True) (new_skill newId input))"

definition findBySlug :: "string \<Rightarrow> db \<Rightarrow> skill_row option" where
  "findBySlug slug s = find_row (\<lambda>k. sk_slug k = slug) (skills s)"

definition listByDomain :: "string \<Rightarrow> db \<Rightarrow> skill_row list" where
  "listByDomain domain s = filter (\<lambda>k. sk_domain k = domain \<and> sk_status k = ''active'') (skills s)"

definition listMasteryForUser :: "string \<Rightarrow> string \<Rightarrow> db \<Rightarrow> (skill_mastery_row \<times> skill_row) list" where
  "listMasteryForUser userId courseSlug s = sort_key (\<lambda>(sm, k). - sm_p_mastery sm)
     (filter (\<lambda>(sm, k). sm_user_id sm = userId \<and> sk_course_slug k = courseSlug)
       (inner_join (\<lambda>sm k. sk_id k = sm_skill_id sm) (masteries s) (skills s)))"

section \<open>Well-formed tables\<close>

definition curriculum_ok :: "db \<Rightarrow> bool" where
  "curriculum_ok s \<longleftrightarrow>
     distinct (map (\<lambda>c. (co_tenant_id c, co_slug c)) (courses s)) \<and> distinct (map co_id (courses s)) \<and>
     distinct (map mo_id (course_modules s)) \<and> distinct (map tp_id (topics s)) \<and> distinct (map st_id (subtopics s)) \<and>
     distinct (map sk_id (skills s)) \<and> distinct (map sk_slug (skills s)) \<and> distinct (map topic_skill_key (topic_skills s)) \<and>
     mo_course_id ` set (course_modules s) \<subseteq> co_id ` set (courses s) \<and>
     tp_module_id ` set (topics s) \<subseteq> mo_id ` set (course_modules s) \<and>
     st_topic_id ` set (subtopics s) \<subseteq> tp_id ` set (topics s) \<and>
     tsk_topic_id ` set (topic_skills s) \<subseteq> tp_id ` set (topics s) \<and> tsk_skill_id ` set (topic_skills s) \<subseteq> sk_id ` set (skills s)"

datatype curriculum_op =
    CreateCourse string string string string
  | CreateModule string string string nat "string option"
  | CreateTopic string string string nat "string option"
  | CreateSubtopic string string string nat
  | MapTopicToSkill string string real string
  | CreateSkill string create_skill_input

fun perform :: "curriculum_op \<Rightarrow> unit prog" where
  "perform (CreateCourse i t sl ti) = andthen (createCourse i t sl ti) (ret ())"
| "perform (CreateModule i c ti p sl) = andthen (createModule i c ti p sl) (ret ())"
| "perform (CreateTopic i m ti p sl) = andthen (createTopic i m ti p sl) (ret ())"
| "perform (CreateSubtopic i t ti p) = andthen (createSubtopic i t ti p) (ret ())"
| "perform (MapTopicToSkill t k w b) = mapTopicToSkill t k w b"
| "perform (CreateSkill i input) = andthen (createSkill i input) (ret ())"

lemma insert_child_state:
  "snd (insert_child get put key referred r s) = s \<or>
   referred s \<and> key r \<notin> key ` set (get s) \<and> snd (insert_child get put key referred r s) = put (get s @ [r]) s"
  by (auto simp: insert_child_def insert_row_def bnd_run andthen_def list_ex_iff)

lemma insert_child_keeps:
  assumes "ok s" and "referred s \<Longrightarrow> key r \<notin> key ` set (get s) \<Longrightarrow> ok (put (get s @ [r]) s)"
  shows "ok (snd (insert_child get put key referred r s))"
  using insert_child_state [of get put key referred r s] assms by metis

lemma snd_then_ret: "snd (andthen m (ret ()) s) = snd (m s)"
  by (auto simp: andthen_def bnd_def split: prod.split sum.split)

lemma curriculum_okD:
  assumes "curriculum_ok s"
  shows "distinct (map (\<lambda>c. (co_tenant_id c, co_slug c)) (courses s))" "distinct (map co_id (courses s))"
    "distinct (map mo_id (course_modules s))" "distinct (map tp_id (topics s))" "distinct (map st_id (subtopics s))"
    "distinct (map sk_id (skills s))" "distinct (map sk_slug (skills s))" "distinct (map topic_skill_key (topic_skills s))"
    "mo_course_id ` set (course_modules s) \<subseteq> co_id ` set (courses s)"
    "tp_module_id ` set (topics s) \<subseteq> mo_id ` set (course_modules s)"
    "st_topic_id ` set (subtopics s) \<subseteq> tp_id ` set (topics s)"
    "tsk_topic_id ` set (topic_skills s) \<subseteq> tp_id ` set (topics s)" "tsk_skill_id ` set (topic_skills s) \<subseteq> sk_id ` set (skills s)"
  using assms unfolding curriculum_ok_def by simp_all

lemma ok_createCourse: "curriculum_ok s \<Longrightarrow> curriculum_ok (snd (createCourse i t sl ti s))"
proof -
  assume ok: "curriculum_ok s"
  note d = curriculum_okD [OF ok]
  show ?thesis
  proof (cases "find_row (same_course t sl) (courses s)")
    case None
    then have new: "(t, sl) \<notin> (\<lambda>c. (co_tenant_id c, co_slug c)) ` set (courses s)" by (auto simp: find_row_None_iff same_course_def)
    then have "curriculum_ok (snd (insert_child courses put_courses co_id (\<lambda>_. True)
        \<lparr>co_id = i, co_tenant_id = t, co_slug = sl, co_title = ti, co_status = ''active''\<rparr> s))"
      by (intro insert_child_keeps [of curriculum_ok s, OF ok]) (use d in \<open>simp add: curriculum_ok_def put_courses_def subset_insertI2\<close>)
    then show ?thesis using None by (simp add: createCourse_def bnd_run)
  next
    case (Some c)
    have "map co_id (update_where p (\<lambda>c. c\<lparr>co_title := ti\<rparr>) xs) = map co_id xs"
      "map (\<lambda>c. (co_tenant_id c, co_slug c)) (update_where p (\<lambda>c. c\<lparr>co_title := ti\<rparr>) xs) = map (\<lambda>c. (co_tenant_id c, co_slug c)) xs" for p and xs :: "course_row list"
      by (induction xs) (auto simp: update_where_def)
    moreover from this(1) have "co_id ` set (update_where p (\<lambda>c. c\<lparr>co_title := ti\<rparr>) xs) = co_id ` set xs" for p and xs :: "course_row list" by (metis set_map)
    ultimately show ?thesis using Some d by (simp add: createCourse_def bnd_run curriculum_ok_def)
  qed
qed

lemma ok_createModule: "curriculum_ok s \<Longrightarrow> curriculum_ok (snd (createModule i c ti p sl s))"
proof -
  assume ok: "curriculum_ok s"
  note d = curriculum_okD [OF ok]
  show ?thesis unfolding createModule_def by (rule insert_child_keeps [of curriculum_ok s, OF ok]) (use d in \<open>simp add: curriculum_ok_def put_modules_def subset_insertI2\<close>)
qed

lemma ok_createTopic: "curriculum_ok s \<Longrightarrow> curriculum_ok (snd (createTopic i m ti p sl s))"
proof -
  assume ok: "curriculum_ok s"
  note d = curriculum_okD [OF ok]
  show ?thesis unfolding createTopic_def by (rule insert_child_keeps [of curriculum_ok s, OF ok]) (use d in \<open>simp add: curriculum_ok_def put_topics_def subset_insertI2\<close>)
qed

lemma ok_createSubtopic: "curriculum_ok s \<Longrightarrow> curriculum_ok (snd (createSubtopic i t ti p s))"
proof -
  assume ok: "curriculum_ok s"
  note d = curriculum_okD [OF ok]
  show ?thesis unfolding createSubtopic_def by (rule insert_child_keeps [of curriculum_ok s, OF ok]) (use d in \<open>simp add: curriculum_ok_def put_subtopics_def subset_insertI2\<close>)
qed

lemma ok_createSkill: "curriculum_ok s \<Longrightarrow> curriculum_ok (snd (createSkill i input s))"
proof -
  assume ok: "curriculum_ok s"
  note d = curriculum_okD [OF ok]
  show ?thesis
  proof (cases "cs_slug input \<in> set (map sk_slug (skills s))")
    case True
    then show ?thesis using ok by (simp add: createSkill_def bnd_run)
  next
    case False
    then have "curriculum_ok (snd (insert_child skills put_skills sk_id (\<lambda>_. True) (new_skill i input) s))"
      by (intro insert_child_keeps [of curriculum_ok s, OF ok]) (use d in \<open>simp add: curriculum_ok_def put_skills_def new_skill_def subset_insertI2\<close>)
    then show ?thesis using False by (simp add: createSkill_def bnd_run)
  qed
qed

lemma ok_mapTopicToSkill: "curriculum_ok s \<Longrightarrow> curriculum_ok (snd (mapTopicToSkill t k w b s))"
proof -
  assume ok: "curriculum_ok s"
  note d = curriculum_okD [OF ok]
  let ?p = "\<lambda>r. topic_skill_key r = (t, k)" let ?f = "\<lambda>r. r\<lparr>tsk_coverage_weight := w, tsk_bloom_level := b\<rparr>"
  have keys: "map topic_skill_key (update_where ?p ?f xs) = map topic_skill_key xs" "map tsk_topic_id (update_where ?p ?f xs) = map tsk_topic_id xs"
      "map tsk_skill_id (update_where ?p ?f xs) = map tsk_skill_id xs" for xs :: "topic_skill_row list"
    by (induction xs) (auto simp: update_where_def topic_skill_key_def)
  have refs: "tsk_topic_id ` set (update_where ?p ?f xs) = tsk_topic_id ` set xs" "tsk_skill_id ` set (update_where ?p ?f xs) = tsk_skill_id ` set xs"
    for xs :: "topic_skill_row list" by (metis keys(2) set_map) (metis keys(3) set_map)
  show ?thesis
  proof (cases "list_ex ?p (topic_skills s)")
    case True
    then show ?thesis using d keys refs ok by (simp add: mapTopicToSkill_def bnd_run curriculum_ok_def upsert_def)
  next
    case False
    then have "(t, k) \<notin> topic_skill_key ` set (topic_skills s)" by (auto simp: list_ex_iff)
    then show ?thesis using d False ok by (simp add: mapTopicToSkill_def bnd_run curriculum_ok_def upsert_def topic_skill_key_def)
  qed
qed

lemma ok_perform: "curriculum_ok s \<Longrightarrow> curriculum_ok (snd (perform op s))"
  by (cases op) (simp_all add: snd_then_ret ok_createCourse ok_createModule ok_createTopic ok_createSubtopic ok_createSkill ok_mapTopicToSkill)

section \<open>The tree\<close>

definition tree_topics :: "course_tree \<Rightarrow> topic_node list" where
  "tree_topics t = concat (map mn_topics (ct_modules t))"

lemma filter_insert: "a \<notin> B \<Longrightarrow> mset (filter (\<lambda>t. g t = a) ts) + mset (filter (\<lambda>t. g t \<in> B) ts) = mset (filter (\<lambda>t. g t \<in> insert a B) ts)"
  by (induction ts) auto

lemma mset_grouped:
  "distinct (map f ms) \<Longrightarrow> mset (concat (map (\<lambda>m. filter (\<lambda>t. g t = f m) ts) ms)) = mset (filter (\<lambda>t. g t \<in> f ` set ms) ts)"
proof (induction ms)
  case (Cons m ms)
  then have "f m \<notin> f ` set ms" by auto
  then show ?case using Cons filter_insert [of "f m" "f ` set ms" g ts] by simp
qed simp

lemma filter_restrict: "(\<And>x. x \<in> set xs \<Longrightarrow> P x \<Longrightarrow> Q x) \<Longrightarrow> mset (filter P (sort_key f (filter Q xs))) = mset (filter P xs)"
  by (induction xs) auto

lemma sorted_filter_sort: "sorted (map f (filter P (sort_key f xs)))"
  by (rule sorted_filter [OF sorted_sort_key])

lemma tree_run:
  assumes "getCourseTree tenantId courseSlug s = Some t" and "curriculum_ok s"
  defines "mods \<equiv> modules_of (co_id (ct_course t)) s"
  defines "tops \<equiv> topics_in (map mo_id mods) s"
  shows "ct_course t \<in> set (courses s) \<and> same_course tenantId courseSlug (ct_course t)" and "map mn_module (ct_modules t) = mods"
    and "map tn_topic (tree_topics t) = concat (map (\<lambda>m. filter (\<lambda>x. tp_module_id x = mo_id m) tops) mods)"
    and "\<And>n. n \<in> set (tree_topics t) \<Longrightarrow> tn_subtopics n = filter (\<lambda>x. st_topic_id x = tp_id (tn_topic n)) (subtopics_in (map tp_id tops) s) \<and>
      tn_skills n = filter (\<lambda>(ts, k). tsk_topic_id ts = tp_id (tn_topic n)) (skills_in (map tp_id tops) s)"
    and "\<And>m. m \<in> set (ct_modules t) \<Longrightarrow> map tn_topic (mn_topics m) = filter (\<lambda>x. tp_module_id x = mo_id (mn_module m)) tops"
  using assms(1) unfolding mods_def tops_def
  by (auto simp: getCourseTree_def Let_def tree_topics_def comp_def map_concat dest!: find_row_SomeD split: option.splits)

text \<open>Property. The course tree shows exactly the rows of the course: its modules in teaching order; below each module its
  topics in order, every topic of the course once and none of another course; below each topic its
  subtopics in order and the skills it is mapped to, again each exactly once.\<close>

theorem course_tree_exact:
  assumes "curriculum_ok s" and "getCourseTree tenantId courseSlug s = Some t"
  shows "same_course tenantId courseSlug (ct_course t) \<and>
    map mn_module (ct_modules t) = sort_key mo_position (filter (\<lambda>m. mo_course_id m = co_id (ct_course t)) (course_modules s)) \<and>
    mset (map tn_topic (tree_topics t)) =
      mset (filter (\<lambda>x. tp_module_id x \<in> mo_id ` {m \<in> set (course_modules s). mo_course_id m = co_id (ct_course t)}) (topics s)) \<and>
    (\<forall>m \<in> set (ct_modules t). sorted (map tp_position (map tn_topic (mn_topics m))) \<and> (\<forall>n \<in> set (mn_topics m). tp_module_id (tn_topic n) = mo_id (mn_module m))) \<and>
    (\<forall>n \<in> set (tree_topics t). sorted (map st_position (tn_subtopics n)) \<and>
       mset (tn_subtopics n) = mset (filter (\<lambda>x. st_topic_id x = tp_id (tn_topic n)) (subtopics s)) \<and>
       set (tn_skills n) = {(ts, k). ts \<in> set (topic_skills s) \<and> k \<in> set (skills s) \<and> sk_id k = tsk_skill_id ts \<and> tsk_topic_id ts = tp_id (tn_topic n)})"
proof -
  note d = curriculum_okD [OF assms(1)]
  define mods where "mods = modules_of (co_id (ct_course t)) s"
  define tops where "tops = topics_in (map mo_id mods) s"
  note run = tree_run [OF assms(2,1), folded mods_def, folded tops_def]
  have ids: "distinct (map mo_id mods)" using d(3) unfolding mods_def modules_of_def
    by (auto simp: distinct_map inj_on_def)
  have mods: "set mods = {m \<in> set (course_modules s). mo_course_id m = co_id (ct_course t)}" by (simp add: mods_def modules_of_def)
  have "mset (map tn_topic (tree_topics t)) = mset (filter (\<lambda>x. tp_module_id x \<in> mo_id ` set mods) tops)"
    unfolding run(3) by (rule mset_grouped [OF ids])
  also have "\<dots> = mset (filter (\<lambda>x. tp_module_id x \<in> mo_id ` set mods) (topics s))" by (simp add: tops_def topics_in_def)
  finally have topics: "mset (map tn_topic (tree_topics t)) = mset (filter (\<lambda>x. tp_module_id x \<in> mo_id ` set mods) (topics s))" .
  have under: "sorted (map tp_position (map tn_topic (mn_topics m))) \<and> (\<forall>n \<in> set (mn_topics m). tp_module_id (tn_topic n) = mo_id (mn_module m))"
    if "m \<in> set (ct_modules t)" for m
  proof -
    have eq: "map tn_topic (mn_topics m) = filter (\<lambda>x. tp_module_id x = mo_id (mn_module m)) tops" using run(5) that by blast
    then have "tn_topic ` set (mn_topics m) = {x \<in> set tops. tp_module_id x = mo_id (mn_module m)}" by (metis set_filter set_map)
    then show ?thesis unfolding eq tops_def topics_in_def by (auto intro!: sorted_filter_sort)
  qed
  have leaves: "sorted (map st_position (tn_subtopics n)) \<and> mset (tn_subtopics n) = mset (filter (\<lambda>x. st_topic_id x = tp_id (tn_topic n)) (subtopics s)) \<and>
      set (tn_skills n) = {(ts, k). ts \<in> set (topic_skills s) \<and> k \<in> set (skills s) \<and> sk_id k = tsk_skill_id ts \<and> tsk_topic_id ts = tp_id (tn_topic n)}"
    if n: "n \<in> set (tree_topics t)" for n
  proof -
    have "tn_topic n \<in> set (map tn_topic (tree_topics t))" using n by simp
    then have "tn_topic n \<in> set tops" unfolding run(3) by auto
    then have i: "tp_id (tn_topic n) \<in> set (map tp_id tops)" by simp
    have sub: "tn_subtopics n = filter (\<lambda>x. st_topic_id x = tp_id (tn_topic n)) (subtopics_in (map tp_id tops) s)"
      and sk: "tn_skills n = filter (\<lambda>(ts, k). tsk_topic_id ts = tp_id (tn_topic n)) (skills_in (map tp_id tops) s)" using run(4) n by blast+
    have "mset (tn_subtopics n) = mset (filter (\<lambda>x. st_topic_id x = tp_id (tn_topic n)) (subtopics s))"
      unfolding sub subtopics_in_def by (rule filter_restrict) (use i in simp)
    moreover have "sorted (map st_position (tn_subtopics n))" unfolding sub subtopics_in_def by (rule sorted_filter_sort)
    moreover have "set (tn_skills n) = {(ts, k). ts \<in> set (topic_skills s) \<and> k \<in> set (skills s) \<and> sk_id k = tsk_skill_id ts \<and> tsk_topic_id ts = tp_id (tn_topic n)}"
      using i unfolding sk skills_in_def inner_join_def by auto
    ultimately show ?thesis by blast
  qed
  show ?thesis using run(1,2) topics under leaves by (simp add: mods mods_def [unfolded modules_of_def])
qed

text \<open>Property. Whatever the import and the authoring tools write, in any order and however often, the curriculum stays
  well formed: a course exists once per tenant and slug (a repeated import renames it), skills have
  distinct slugs, a topic is mapped to a skill once, and no module, topic, subtopic or mapping
  refers to a row that is not there.\<close>

theorem curriculum_well_formed:
  assumes "curriculum_ok s"
  shows "curriculum_ok (fold (\<lambda>op s. snd (perform op s)) ops s)"
  using assms by (induction ops arbitrary: s) (simp_all add: ok_perform)

section \<open>Witnesses and observations\<close>

definition demo_ops :: "curriculum_op list" where
  "demo_ops = [CreateCourse ''c'' ''t'' ''devops'' ''DevOps'', CreateModule ''m'' ''c'' ''Core'' 1 None,
     CreateTopic ''x'' ''m'' ''Pods'' 2 (Some ''pods''), CreateTopic ''y'' ''m'' ''Nodes'' 1 (Some ''pods'')]"

definition demo_school :: db where
  "demo_school = fold (\<lambda>op s. snd (perform op s)) demo_ops empty_db"

lemma empty_curriculum: "curriculum_ok empty_db"
  by (simp add: curriculum_ok_def empty_db_def)

lemma demo_school_tables:
  "courses demo_school = [\<lparr>co_id = ''c'', co_tenant_id = ''t'', co_slug = ''devops'', co_title = ''DevOps'', co_status = ''active''\<rparr>]"
  "course_modules demo_school = [\<lparr>mo_id = ''m'', mo_course_id = ''c'', mo_title = ''Core'', mo_position = 1, mo_slug = None\<rparr>]"
  "topics demo_school = [\<lparr>tp_id = ''x'', tp_module_id = ''m'', tp_title = ''Pods'', tp_position = 2, tp_slug = Some ''pods''\<rparr>,
     \<lparr>tp_id = ''y'', tp_module_id = ''m'', tp_title = ''Nodes'', tp_position = 1, tp_slug = Some ''pods''\<rparr>]"
  by (simp_all add: demo_school_def demo_ops_def createCourse_def createModule_def createTopic_def insert_child_def insert_row_def bnd_run andthen_def
    put_courses_def put_modules_def put_topics_def empty_db_def)

theorem curriculum_well_formed_witness: "curriculum_ok demo_school"
  unfolding demo_school_def by (rule curriculum_well_formed [OF empty_curriculum])

lemma demo_school_ok: "curriculum_ok demo_school"
  using demo_school_tables by (simp add: curriculum_ok_def demo_school_def demo_ops_def createCourse_def createModule_def createTopic_def insert_child_def insert_row_def bnd_run andthen_def
    put_courses_def put_modules_def put_topics_def empty_db_def)

theorem course_tree_exact_witness:
  "\<exists>t. getCourseTree ''t'' ''devops'' demo_school = Some t \<and> map mo_id (map mn_module (ct_modules t)) = [''m'']"
proof -
  obtain t where t: "getCourseTree ''t'' ''devops'' demo_school = Some t" "co_id (ct_course t) = ''c''"
    by (simp add: getCourseTree_def Let_def demo_school_tables same_course_def)
  have "map mn_module (ct_modules t) = sort_key mo_position (filter (\<lambda>m. mo_course_id m = co_id (ct_course t)) (course_modules demo_school))"
    using course_tree_exact [OF demo_school_ok t(1)] by (elim conjE)
  then show ?thesis using t by (intro exI [of _ t]) (simp only: list.map filter.simps sort_key_simps, simp add: demo_school_tables del: map_map)
qed

text \<open>Nothing keeps the slugs of topics apart, also not within one module.\<close>

lemma topic_slug_twice: "length (filter (\<lambda>t. tp_module_id t = ''m'' \<and> tp_slug t = Some ''pods'') (topics demo_school)) = 2"
  by (simp add: demo_school_tables)

end
