(* ===== verification/Analytics.thy ===== *)
theory Analytics
  imports Catalog AttemptRepository "HOL-Library.Char_ord" "HOL-Library.List_Lexorder"
begin

text \<open>
  \<open>analytics/analytics-ingestion.service.ts\<close> and \<open>admin/analytics.service.ts\<close>. The event table carries a
  generated number that orders all events; the ingester copies the rows above its cursor to the warehouse in
  batches and then moves the cursor. Reading the source, writing to the warehouse and storing the cursor
  may each fail. Events are committed by other transactions between two passes, each with its number. The
  aggregate queries of the admin pages are functions of the tables.
\<close>

section \<open>Ingestion\<close>

type_synonym numbered_event = "nat \<times> event_row"

record warehouse_row =
  wr_attempt_id :: string
  wr_tenant_id :: string
  wr_activity_id :: string
  wr_course_id :: string
  wr_user_id :: string
  wr_seq :: nat
  wr_type :: attempt_event_type
  wr_actor :: event_actor
  wr_occurred_at :: time
  wr_payload :: json

record ingestion =
  ig_running :: bool
  ig_cursor :: "nat option"
  ig_warehouse :: "warehouse_row list"

record pass_env =
  pe_source_ok :: bool
  pe_insert_ok :: bool
  pe_cursor_ok :: bool

text \<open>The course of an activity version through the first topic that leads to one.\<close>

definition course_of :: "string \<Rightarrow> db \<Rightarrow> string option" where
  "course_of versionId s =
     (case inner_join (\<lambda>b (t, m). tp_id t = at_topic_id b) (filter (\<lambda>b. at_activity_version_id b = versionId) (activity_topics s))
             (inner_join (\<lambda>t m. mo_id m = tp_module_id t) (topics s) (course_modules s)) of
        [] \<Rightarrow> None
      | (_, _, m) # _ \<Rightarrow> Some (mo_course_id m))"

definition enrich :: "db \<Rightarrow> event_row \<Rightarrow> attempt_row \<Rightarrow> warehouse_row" where
  "enrich s e a = \<lparr>wr_attempt_id = e_attempt_id e, wr_tenant_id = a_tenant_id a, wr_activity_id = a_activity_id a,
     wr_course_id = (case course_of (a_activity_version_id a) s of None \<Rightarrow> [] | Some c \<Rightarrow> c),
     wr_user_id = a_user_id a, wr_seq = e_seq e, wr_type = e_type e, wr_actor = e_actor e, wr_occurred_at = e_occurred_at e, wr_payload = (if e_payload e = JNull then JObj [] else e_payload e)\<rparr>"

definition fetchBatch :: "nat \<Rightarrow> nat option \<Rightarrow> db \<Rightarrow> numbered_event list \<Rightarrow> (nat \<times> warehouse_row) list" where
  "fetchBatch batchSize cursor s evs =
     take batchSize (sort_key fst (map (\<lambda>((i, e), a). (i, enrich s e a))
       (inner_join (\<lambda>(i, e) a. a_id a = e_attempt_id e) (filter (\<lambda>(i, e). case cursor of None \<Rightarrow> True | Some c \<Rightarrow> i > c) evs) (attempts s))))"

definition tick :: "nat \<Rightarrow> pass_env \<Rightarrow> db \<Rightarrow> numbered_event list \<Rightarrow> ingestion \<Rightarrow> nat \<times> ingestion" where
  "tick batchSize env s evs ig =
     (if ig_running ig then (0, ig)
      else if \<not> pe_source_ok env then (0, ig)
      else let rows = fetchBatch batchSize (ig_cursor ig) s evs in
        if length rows = 0 then (0, ig)
        else if \<not> pe_insert_ok env then (0, ig)
        else let ig = ig\<lparr>ig_warehouse := ig_warehouse ig @ map snd rows\<rparr> in
          if \<not> pe_cursor_ok env then (0, ig)
          else (length rows, ig\<lparr>ig_cursor := Some (fst (last rows))\<rparr>))"

definition ingestedCount :: "ingestion \<Rightarrow> nat" where
  "ingestedCount ig = length (ig_warehouse ig)"

section \<open>Admin queries\<close>

record activity_health_row =
  ah_activity_id :: string
  ah_slug :: string
  ah_started :: nat
  ah_completed :: nat
  ah_abandoned :: nat
  ah_pass_rate :: "real option"
  ah_avg_hint_penalty :: "real option"
  ah_avg_reset_count :: "real option"

definition avg :: "real list \<Rightarrow> real option" where
  "avg xs = (if xs = [] then None else Some (sum_list xs / real (length xs)))"

definition count_in :: "attempt_status set \<Rightarrow> attempt_row list \<Rightarrow> nat" where
  "count_in st xs = length (filter (\<lambda>a. a_status a \<in> st) xs)"

definition health_of :: "activity_row \<Rightarrow> attempt_row list \<Rightarrow> activity_health_row" where
  "health_of a atts =
     (let scored = count_in {PASSED, FAILED, COMPLETED} atts; passed = count_in {PASSED, COMPLETED} atts in
      \<lparr>ah_activity_id = ac_id a, ah_slug = ac_slug a, ah_started = length atts, ah_completed = scored,
       ah_abandoned = count_in {ABANDONED, EXPIRED} atts,
       ah_pass_rate = (if scored > 0 then Some (real passed / real scored) else None),
       ah_avg_hint_penalty = avg (map a_hint_penalty_total atts), ah_avg_reset_count = avg (map (\<lambda>x. real (a_reset_count x)) atts)\<rparr>)"

definition getActivityHealth :: "string \<Rightarrow> db \<Rightarrow> activity_health_row list" where
  "getActivityHealth tenantId s = sort_key (\<lambda>r. - int (ah_started r))
     (map (\<lambda>a. health_of a (filter (\<lambda>x. a_activity_id x = ac_id a) (attempts s))) (filter (\<lambda>a. ac_tenant_id a = tenantId) (activities s)))"

record task_dropoff_row =
  td_task_key :: string
  td_reached :: nat
  td_passed :: nat
  td_dropoff_rate :: real

definition states_of_activity :: "string \<Rightarrow> db \<Rightarrow> task_state_row list" where
  "states_of_activity activityId s =
     map fst (filter (\<lambda>(t, a). a_activity_id a = activityId) (inner_join (\<lambda>t a. a_id a = ts_attempt_id t) (task_states s) (attempts s)))"

definition dropoff_of :: "string \<Rightarrow> task_state_row list \<Rightarrow> task_dropoff_row" where
  "dropoff_of key rows =
     (let reached = length (filter (\<lambda>t. ts_task_key t = key) rows);
          passed = length (filter (\<lambda>t. ts_task_key t = key \<and> ts_status t = T_PASSED) rows)
      in \<lparr>td_task_key = key, td_reached = reached, td_passed = passed,
          td_dropoff_rate = (if reached > 0 then 1 - real passed / real reached else 0)\<rparr>)"

definition getTaskDropoff :: "string \<Rightarrow> db \<Rightarrow> task_dropoff_row list" where
  "getTaskDropoff activityId s = (let rows = states_of_activity activityId s in map (\<lambda>k. dropoff_of k rows) (sort (uniq (map ts_task_key rows))))"

record validator_health_row =
  vh_validator_id :: string
  vh_total_runs :: nat
  vh_fail_rate :: real
  vh_error_rate :: real

definition results_of_activity :: "string \<Rightarrow> db \<Rightarrow> validator_result_row list" where
  "results_of_activity activityId s =
     map fst (filter (\<lambda>(r, n, a). a_activity_id a = activityId)
       (inner_join (\<lambda>r (n, a). vr_id n = vres_run_id r) (validator_results s)
         (inner_join (\<lambda>n a. a_id a = vr_attempt_id n) (validation_runs s) (attempts s))))"

definition share :: "('a \<Rightarrow> bool) \<Rightarrow> 'a list \<Rightarrow> real" where
  "share p xs = (if length xs > 0 then real (length (filter p xs)) / real (length xs) else 0)"

definition getValidatorHealth :: "string \<Rightarrow> db \<Rightarrow> validator_health_row list" where
  "getValidatorHealth activityId s =
     (let rows = results_of_activity activityId s in
      map (\<lambda>i. let rs = filter (\<lambda>r. vres_validator_id r = i) rows in
        \<lparr>vh_validator_id = i, vh_total_runs = length rs, vh_fail_rate = share (\<lambda>r. vres_status r = VFAIL) rs, vh_error_rate = share (\<lambda>r. vres_status r = VERROR) rs\<rparr>)
        (sort (uniq (map vres_validator_id rows))))"

section \<open>Exactly once\<close>

text \<open>
  Commits by other transactions and passes of the ingester, in any order. The tables that enrich an event are those
  of the moment of the pass; an event refers to an existing attempt. A pass that reaches the cursor stores it.
\<close>

definition known :: "db \<Rightarrow> numbered_event list \<Rightarrow> bool" where
  "known s evs \<longleftrightarrow> distinct (map a_id (attempts s)) \<and> (\<forall>(i, e) \<in> set evs. e_attempt_id e \<in> set (map a_id (attempts s)))"

definition ingestion_start :: ingestion where
  "ingestion_start = \<lparr>ig_running = False, ig_cursor = None, ig_warehouse = []\<rparr>"

inductive ingesting :: "nat \<Rightarrow> numbered_event list \<Rightarrow> ingestion \<Rightarrow> bool" for batchSize where
  start: "ingesting batchSize [] ingestion_start"
| commit: "ingesting batchSize evs ig \<Longrightarrow> ingesting batchSize (evs @ [ie]) ig"
| pass: "ingesting batchSize evs ig \<Longrightarrow> known s evs \<Longrightarrow> pe_cursor_ok env \<Longrightarrow> ingesting batchSize evs (snd (tick batchSize env s evs ig))"

text \<open>Where numbers become visible in their order, the warehouse is a prefix of the log, and the cursor marks its end.\<close>

definition numbered :: "numbered_event list \<Rightarrow> bool" where
  "numbered evs \<longleftrightarrow> sorted_wrt (<) (map fst evs)"

type_synonym content = "string \<times> nat \<times> attempt_event_type \<times> event_actor \<times> time \<times> json"

definition content_of_row :: "warehouse_row \<Rightarrow> content" where
  "content_of_row r = (wr_attempt_id r, wr_seq r, wr_type r, wr_actor r, wr_occurred_at r, wr_payload r)"

definition content_of_event :: "numbered_event \<Rightarrow> content" where
  "content_of_event ie = (let e = snd ie in
     (e_attempt_id e, e_seq e, e_type e, e_actor e, e_occurred_at e, if e_payload e = JNull then JObj [] else e_payload e))"

definition attempt_of :: "db \<Rightarrow> event_row \<Rightarrow> attempt_row" where
  "attempt_of s e = the (find_row (\<lambda>a. a_id a = e_attempt_id e) (attempts s))"

definition copied :: "db \<Rightarrow> numbered_event \<Rightarrow> warehouse_row" where
  "copied s ie = enrich s (snd ie) (attempt_of s (snd ie))"

definition caught_up_to :: "nat \<Rightarrow> numbered_event list \<Rightarrow> ingestion \<Rightarrow> bool" where
  "caught_up_to n evs ig \<longleftrightarrow> n \<le> length evs \<and> \<not> ig_running ig \<and> ig_cursor ig = (if n = 0 then None else Some (fst (evs ! (n - 1)))) \<and>
     map content_of_row (ig_warehouse ig) = map content_of_event (take n evs)"

lemma content_copied [simp]: "content_of_row (copied s ie) = content_of_event ie"
  by (simp add: content_of_row_def content_of_event_def copied_def enrich_def Let_def)

lemma filter_key: "distinct (map f xs) \<Longrightarrow> x \<in> set xs \<Longrightarrow> filter (\<lambda>y. f y = f x) xs = [x]"
proof (induction xs)
  case (Cons y ys)
  then show ?case by (cases "x = y") (auto simp: filter_empty_conv image_iff)
qed simp

lemma attempt_of_unique:
  assumes "distinct (map a_id (attempts s))" and "e_attempt_id e \<in> set (map a_id (attempts s))"
  shows "filter (\<lambda>a. a_id a = e_attempt_id e) (attempts s) = [attempt_of s e]"
proof -
  obtain a where a: "find_row (\<lambda>a. a_id a = e_attempt_id e) (attempts s) = Some a" "a \<in> set (attempts s)" "a_id a = e_attempt_id e"
    using assms(2) by (cases "find_row (\<lambda>a. a_id a = e_attempt_id e) (attempts s)") (fastforce simp: find_row_None_iff dest: find_row_SomeD)+
  then show ?thesis using filter_key [OF assms(1) a(2)] by (simp add: attempt_of_def)
qed

lemma join_attempts:
  assumes "distinct (map a_id (attempts s))"
  shows "\<forall>(i, e) \<in> set evs. e_attempt_id e \<in> set (map a_id (attempts s)) \<Longrightarrow>
    map (\<lambda>((i, e), a). (i, enrich s e a)) (inner_join (\<lambda>(i, e) a. a_id a = e_attempt_id e) evs (attempts s)) = map (\<lambda>ie. (fst ie, copied s ie)) evs"
proof (induction evs)
  case (Cons ie evs)
  obtain i e where ie: "ie = (i, e)" by (cases ie)
  have "filter (\<lambda>a. a_id a = e_attempt_id e) (attempts s) = [attempt_of s e]"
    using Cons.prems by (intro attempt_of_unique [OF assms]) (simp add: ie)
  then show ?case using Cons by (simp add: inner_join_def copied_def ie)
qed (simp add: inner_join_def)

lemma above_cursor:
  assumes num: "numbered evs" and n: "0 < n" "n \<le> length evs"
  shows "filter (\<lambda>(i, e). i > fst (evs ! (n - 1))) evs = drop n evs"
proof -
  have lt: "fst (evs ! i) < fst (evs ! j)" if "i < j" "j < length evs" for i j
    using num that by (auto simp: numbered_def sorted_wrt_iff_nth_less)
  have le: "fst (evs ! i) \<le> fst (evs ! (n - 1))" if "i < n" for i
  proof (cases "i = n - 1")
    case False
    then have "i < n - 1" "n - 1 < length evs" using that n by linarith+
    then show ?thesis using lt by (simp add: less_imp_le)
  qed simp
  have "\<not> fst x > fst (evs ! (n - 1))" if "x \<in> set (take n evs)" for x
    using le that by (fastforce simp: in_set_conv_nth not_less)
  then have "filter (\<lambda>x. fst x > fst (evs ! (n - 1))) (take n evs) = []" by (simp add: filter_empty_conv)
  moreover have "fst x > fst (evs ! (n - 1))" if "x \<in> set (drop n evs)" for x
    using lt n that by (auto simp: in_set_conv_nth)
  then have "filter (\<lambda>x. fst x > fst (evs ! (n - 1))) (drop n evs) = drop n evs" by (simp add: filter_id_conv)
  ultimately have "filter (\<lambda>x. fst x > fst (evs ! (n - 1))) (take n evs @ drop n evs) = drop n evs" by (simp only: filter_append append_Nil)
  then show ?thesis by (simp add: case_prod_unfold)
qed

lemma fetch_rest:
  assumes "numbered evs" and "known s evs" and "caught_up_to n evs ig"
  shows "fetchBatch b (ig_cursor ig) s evs = map (\<lambda>ie. (fst ie, copied s ie)) (take b (drop n evs))"
proof -
  have "filter (\<lambda>(i, e). case ig_cursor ig of None \<Rightarrow> True | Some c \<Rightarrow> i > c) evs = drop n evs"
    using assms above_cursor [of evs n] by (cases "n = 0") (auto simp: caught_up_to_def case_prod_unfold)
  moreover have "map (\<lambda>((i, e), a). (i, enrich s e a)) (inner_join (\<lambda>(i, e) a. a_id a = e_attempt_id e) (drop n evs) (attempts s)) =
      map (\<lambda>ie. (fst ie, copied s ie)) (drop n evs)"
    using assms(2) by (intro join_attempts) (auto simp: known_def dest: in_set_dropD)
  moreover have "sorted (map fst (map (\<lambda>ie. (fst ie, copied s ie)) (drop n evs)))"
    using assms(1) by (auto simp: numbered_def comp_def drop_map [symmetric] intro: sorted_wrt_drop dest: strict_sorted_imp_sorted)
  ultimately show ?thesis by (simp add: fetchBatch_def sort_key_id_if_sorted take_map)
qed

definition all_ok :: pass_env where
  "all_ok = \<lparr>pe_source_ok = True, pe_insert_ok = True, pe_cursor_ok = True\<rparr>"

definition advances :: "pass_env \<Rightarrow> bool" where
  "advances env \<longleftrightarrow> pe_source_ok env \<and> pe_insert_ok env"

lemma tick_caught_up:
  assumes "numbered evs" and "known s evs" and up: "caught_up_to n evs ig" and ok: "pe_cursor_ok env"
  shows "caught_up_to (if advances env then min (n + b) (length evs) else n) evs (snd (tick b env s evs ig))"
proof (cases "advances env \<and> take b (drop n evs) \<noteq> []")
  case True
  then have m: "n < length evs" "0 < b" by auto
  have idle: "\<not> ig_running ig" using up by (simp add: caught_up_to_def)
  let ?m = "min (n + b) (length evs)"
  have "n + (min (length evs - n) b - 1) = ?m - 1" using m by linarith
  then have "last (take b (drop n evs)) = evs ! (?m - 1)"
    using m by (subst last_conv_nth) simp_all
  moreover have "map content_of_event (take n evs) @ map content_of_event (take b (drop n evs)) = map content_of_event (take ?m evs)"
    using m by (simp add: take_add min_def flip: map_append)
  moreover have "snd (tick b env s evs ig) = ig\<lparr>ig_warehouse := ig_warehouse ig @ map (copied s) (take b (drop n evs)), ig_cursor := Some (fst (last (take b (drop n evs))))\<rparr>"
    using True ok m idle by (simp add: tick_def fetch_rest [OF assms(1-3)] advances_def Let_def last_map comp_def)
  moreover have "evs \<noteq> []" using m by auto
  ultimately show ?thesis using True up m by (simp add: caught_up_to_def comp_def)
next
  case False
  have "min (n + b) (length evs) = n" if "advances env" using False that up by (auto simp: caught_up_to_def)
  moreover have "snd (tick b env s evs ig) = ig"
    using False by (auto simp: tick_def fetch_rest [OF assms(1-3)] advances_def Let_def)
  ultimately show ?thesis using up by simp
qed

lemma ingesting_caught_up: "ingesting b evs ig \<Longrightarrow> numbered evs \<Longrightarrow> \<exists>n. caught_up_to n evs ig"
proof (induction rule: ingesting.induct)
  case start
  have "caught_up_to 0 [] ingestion_start" by (simp add: caught_up_to_def ingestion_start_def)
  then show ?case ..
next
  case (commit evs ig ie)
  then obtain n where "caught_up_to n evs ig" by (auto simp: numbered_def sorted_wrt_append)
  then have "caught_up_to n (evs @ [ie]) ig" by (auto simp: caught_up_to_def nth_append)
  then show ?case ..
next
  case (pass evs ig s env)
  then obtain n where "caught_up_to n evs ig" by blast
  then show ?case using tick_caught_up pass.hyps pass.prems by blast
qed

text \<open>Passes that meet no failure reach any event committed before the first of them.\<close>

lemma passes_advance:
  assumes "numbered evs" and "known s evs" and "caught_up_to n evs ig"
  shows "caught_up_to (min (n + k * b) (length evs)) evs (((\<lambda>g. snd (tick b all_ok s evs g)) ^^ k) ig)"
proof (induction k)
  case 0
  then show ?case using assms(3) by (simp add: caught_up_to_def min_def)
next
  case (Suc k)
  have "caught_up_to (min (min (n + k * b) (length evs) + b) (length evs)) evs (((\<lambda>g. snd (tick b all_ok s evs g)) ^^ Suc k) ig)"
    using tick_caught_up [OF assms(1,2) Suc, of all_ok b] by (simp add: all_ok_def advances_def)
  moreover have "min (min (n + k * b) (length evs) + b) (length evs) = min (n + Suc k * b) (length evs)" by simp
  ultimately show ?case by simp
qed


text \<open>Property. The ingester catches up: after enough passes without a failure, whatever failed before, every event committed
  so far is in the warehouse.\<close>

theorem ingestion_catches_up:
  assumes "ingesting b evs ig" and "numbered evs" and "known s evs" and "length evs \<le> k * b"
  shows "map content_of_row (ig_warehouse (((\<lambda>g. snd (tick b all_ok s evs g)) ^^ k) ig)) = map content_of_event evs"
proof -
  obtain n where "caught_up_to n evs ig" using ingesting_caught_up assms by blast
  from passes_advance [OF assms(2,3) this, of k b] show ?thesis using assms(4) by (simp add: caught_up_to_def)
qed

definition demo_numbered :: "numbered_event list" where
  "demo_numbered = map (\<lambda>i. (2 * i, \<lparr>e_attempt_id = ''a'', e_seq = i, e_occurred_at = 5, e_actor = SYSTEM, e_type = EV_ATTEMPT_CREATED, e_payload = JNull\<rparr>)) [1, 2, 3]"

definition demo_analytics :: db where
  "demo_analytics = empty_db\<lparr>attempts := [demo_attempt]\<rparr>"

lemma demo_analytics_known: "known demo_analytics demo_numbered" "numbered demo_numbered"
  by (simp_all add: known_def demo_analytics_def demo_numbered_def demo_attempt_def new_attempt_def numbered_def)

lemma demo_ingesting: "ingesting 2 demo_numbered (snd (tick 2 all_ok demo_analytics demo_numbered ingestion_start))"
proof -
  have "ingesting 2 ([] @ [demo_numbered ! 0] @ [demo_numbered ! 1] @ [demo_numbered ! 2]) ingestion_start"
    unfolding append_assoc [symmetric] by (intro ingesting.intros)
  then have "ingesting 2 demo_numbered ingestion_start" by (simp add: demo_numbered_def)
  then show ?thesis by (rule ingesting.pass) (simp_all add: demo_analytics_known all_ok_def)
qed

lemma demo_two_copied: "ingestedCount (snd (tick 2 all_ok demo_analytics demo_numbered ingestion_start)) = 2"
proof -
  have len: "length demo_numbered = 3" "advances all_ok" "pe_cursor_ok all_ok" by (simp_all add: demo_numbered_def advances_def all_ok_def)
  have "caught_up_to 0 demo_numbered ingestion_start" by (simp add: caught_up_to_def ingestion_start_def)
  from tick_caught_up [OF demo_analytics_known(2,1) this, of all_ok 2]
  have "caught_up_to 2 demo_numbered (snd (tick 2 all_ok demo_analytics demo_numbered ingestion_start))"
    by (simp add: len numeral_2_eq_2)
  then have "length (map content_of_row (ig_warehouse (snd (tick 2 all_ok demo_analytics demo_numbered ingestion_start)))) = length (map content_of_event (take 2 demo_numbered))"
    by (simp only: caught_up_to_def)
  then show ?thesis by (simp add: ingestedCount_def demo_numbered_def)
qed


theorem ingestion_catches_up_witness:
  "map content_of_row (ig_warehouse (((\<lambda>g. snd (tick 2 all_ok demo_analytics demo_numbered g)) ^^ 2)
     (snd (tick 2 all_ok demo_analytics demo_numbered ingestion_start)))) = map content_of_event demo_numbered"
  by (rule ingestion_catches_up [OF demo_ingesting demo_analytics_known(2,1)]) (simp add: demo_numbered_def)

text \<open>
  Numbers are drawn before the commit and appends are serialised per attempt only, so a number may become visible
  after a greater one. A pass in between moves the cursor past it, and no later pass fetches it.
\<close>

lemma late_number_lost: "i \<le> c \<Longrightarrow> (i, r) \<notin> set (fetchBatch b (Some c) s evs)"
  by (auto simp: fetchBatch_def inner_join_def dest!: in_set_takeD)

text \<open>A cursor that was not stored repeats the batch.\<close>

lemma unstored_cursor_repeats:
  assumes "\<not> pe_cursor_ok env"
  shows "ig_cursor (snd (tick b env s evs ig)) = ig_cursor ig"
  using assms by (simp add: tick_def Let_def)

section \<open>The numbers of the admin pages\<close>

lemma share_unit: "0 \<le> share p xs \<and> share p xs \<le> 1"
  by (simp add: share_def)

lemma share_disjoint: "(\<And>x. \<not> (p x \<and> q x)) \<Longrightarrow> share p xs + share q xs \<le> 1"
proof -
  assume d: "\<And>x. \<not> (p x \<and> q x)"
  have "length (filter p xs) + length (filter q xs) \<le> length xs"
    by (induction xs) (use d in auto)
  then show ?thesis by (simp add: share_def add_divide_distrib [symmetric] flip: of_nat_add)
qed

lemma failed_or_errored: "share (\<lambda>r. vres_status r = VFAIL) xs + share (\<lambda>r. vres_status r = VERROR) xs \<le> 1"
  by (rule share_disjoint) simp

lemma count_in_mono: "A \<subseteq> B \<Longrightarrow> count_in A xs \<le> count_in B xs"
  by (induction xs) (auto simp: count_in_def)

lemma count_in_disjoint: "A \<inter> B = {} \<Longrightarrow> count_in A xs + count_in B xs \<le> length xs"
  by (induction xs) (auto simp: count_in_def)

lemma health_row:
  shows "ah_completed (health_of a atts) + ah_abandoned (health_of a atts) \<le> ah_started (health_of a atts)"
    and "case ah_pass_rate (health_of a atts) of None \<Rightarrow> ah_completed (health_of a atts) = 0 | Some r \<Rightarrow> 0 \<le> r \<and> r \<le> 1"
  using count_in_disjoint [of "{PASSED, FAILED, COMPLETED}" "{ABANDONED, EXPIRED}" atts] count_in_mono [of "{PASSED, COMPLETED}" "{PASSED, FAILED, COMPLETED}" atts]
  by (simp_all add: health_of_def Let_def)

lemma dropoff_row: "td_passed (dropoff_of k rows) \<le> td_reached (dropoff_of k rows) \<and> 0 \<le> td_dropoff_rate (dropoff_of k rows) \<and> td_dropoff_rate (dropoff_of k rows) \<le> 1"
proof -
  have "length (filter (\<lambda>t. ts_task_key t = k \<and> ts_status t = T_PASSED) rows) \<le> length (filter (\<lambda>t. ts_task_key t = k) rows)"
    by (induction rows) auto
  then show ?thesis by (simp add: dropoff_of_def Let_def)
qed

text \<open>Property. What the admin pages show is consistent: an activity never has more completed and abandoned attempts than
  started ones and its pass rate is a share, absent exactly when nothing was scored; the drop-off of a task is a share; the
  fail and error rates of a validator are shares that together do not exceed one; the activities come by falling number of attempts.\<close>

theorem admin_figures_consistent:
  "(\<forall>r \<in> set (getActivityHealth tenantId s). ah_completed r + ah_abandoned r \<le> ah_started r \<and>
      (case ah_pass_rate r of None \<Rightarrow> ah_completed r = 0 | Some p \<Rightarrow> 0 \<le> p \<and> p \<le> 1)) \<and>
   sorted_wrt (\<lambda>r q. ah_started r \<ge> ah_started q) (getActivityHealth tenantId s) \<and>
   (\<forall>r \<in> set (getTaskDropoff activityId s). td_passed r \<le> td_reached r \<and> 0 \<le> td_dropoff_rate r \<and> td_dropoff_rate r \<le> 1) \<and>
   (\<forall>r \<in> set (getValidatorHealth activityId s). 0 \<le> vh_fail_rate r \<and> 0 \<le> vh_error_rate r \<and> vh_fail_rate r + vh_error_rate r \<le> 1)"
proof (intro conjI ballI)
  fix r assume "r \<in> set (getActivityHealth tenantId s)"
  then obtain a atts where "r = health_of a atts" by (auto simp: getActivityHealth_def)
  then show "ah_completed r + ah_abandoned r \<le> ah_started r"
    and "case ah_pass_rate r of None \<Rightarrow> ah_completed r = 0 | Some p \<Rightarrow> 0 \<le> p \<and> p \<le> 1" using health_row [of a atts] by (simp_all only:)
next
  have "sorted (map (\<lambda>r. - int (ah_started r)) (getActivityHealth tenantId s))" by (simp add: getActivityHealth_def)
  then show "sorted_wrt (\<lambda>r q. ah_started r \<ge> ah_started q) (getActivityHealth tenantId s)" by (simp add: sorted_map)
next
  fix r assume "r \<in> set (getTaskDropoff activityId s)"
  then obtain k rows where "r = dropoff_of k rows" by (auto simp: getTaskDropoff_def Let_def)
  then show "td_passed r \<le> td_reached r" "0 \<le> td_dropoff_rate r" "td_dropoff_rate r \<le> 1" using dropoff_row by simp_all
next
  fix r assume "r \<in> set (getValidatorHealth activityId s)"
  then obtain i where "r = (let rs = filter (\<lambda>r. vres_validator_id r = i) (results_of_activity activityId s) in
      \<lparr>vh_validator_id = i, vh_total_runs = length rs, vh_fail_rate = share (\<lambda>r. vres_status r = VFAIL) rs, vh_error_rate = share (\<lambda>r. vres_status r = VERROR) rs\<rparr>)"
    unfolding getValidatorHealth_def Let_def by auto
  then show "0 \<le> vh_fail_rate r" "0 \<le> vh_error_rate r" "vh_fail_rate r + vh_error_rate r \<le> 1"
    by (simp_all add: Let_def share_unit failed_or_errored)
qed

definition demo_health :: db where
  "demo_health = empty_db\<lparr>activities := [\<lparr>ac_id = ''act'', ac_tenant_id = ''t'', ac_slug = ''x'', ac_mode = ''GUIDED_LAB''\<rparr>],
     attempts := [demo_attempt\<lparr>a_status := PASSED\<rparr>, demo_attempt\<lparr>a_id := ''b'', a_status := FAILED\<rparr>, demo_attempt\<lparr>a_id := ''c'', a_status := EXPIRED\<rparr>]\<rparr>"

theorem admin_figures_consistent_witness:
  "\<exists>r. getActivityHealth ''t'' demo_health = [r] \<and> ah_started r = 3 \<and> ah_pass_rate r = Some (1/2) \<and> ah_completed r + ah_abandoned r \<le> ah_started r"
proof -
  obtain r where r: "getActivityHealth ''t'' demo_health = [r]" "ah_started r = 3" "ah_pass_rate r = Some (1/2)"
    by (simp add: getActivityHealth_def demo_health_def health_of_def demo_attempt_def new_attempt_def count_in_def)
  then show ?thesis using admin_figures_consistent [of "''t''" demo_health "''act''"] by simp
qed

end
