(* ===== verification/Codec.thy ===== *)
theory Codec
  imports Prelude
begin

text \<open>
  The text encodings of the language's library that the adapters use: UTF-8 and base64 (\<open>Buffer\<close>, \<open>atob\<close>) and
  \<open>encodeURIComponent\<close>. A text is a list of Unicode code points where its bytes matter, a byte a natural number
  below 256. The decoders are total like the library's: malformed UTF-8 becomes the replacement character, and
  characters outside the base64 alphabet are skipped.
\<close>

section \<open>Base64\<close>

type_synonym bytes = "nat list"

definition BASE64 :: string where
  "BASE64 = ''ABCDEFGHIJKLMNOPQRSTUVWXYZabcdefghijklmnopqrstuvwxyz0123456789+/''"

definition digit64 :: "nat \<Rightarrow> char" where
  "digit64 n = BASE64 ! (n mod 64)"

fun base64_encode :: "bytes \<Rightarrow> string" where
  "base64_encode (a # b # c # bs) =
     digit64 (a div 4) # digit64 (a mod 4 * 16 + b div 16) # digit64 (b mod 16 * 4 + c div 64) # digit64 (c mod 64) # base64_encode bs"
| "base64_encode [a, b] = [digit64 (a div 4), digit64 (a mod 4 * 16 + b div 16), digit64 (b mod 16 * 4), CHR ''='']"
| "base64_encode [a] = [digit64 (a div 4), digit64 (a mod 4 * 16), CHR ''='', CHR ''='']"
| "base64_encode [] = []"

fun index_in :: "string \<Rightarrow> char \<Rightarrow> nat option" where
  "index_in [] c = None"
| "index_in (x # xs) c = (if x = c then Some 0 else map_option Suc (index_in xs c))"

text \<open>The decoder reads both alphabets.\<close>

definition value64 :: "char \<Rightarrow> nat option" where
  "value64 c = (if c = CHR ''-'' then Some 62 else if c = CHR ''_'' then Some 63 else index_in BASE64 c)"

fun sextets :: "string \<Rightarrow> nat list" where
  "sextets [] = []"
| "sextets (c # cs) = (if c = CHR ''='' then [] else case value64 c of None \<Rightarrow> sextets cs | Some v \<Rightarrow> v # sextets cs)"

fun octets :: "nat list \<Rightarrow> bytes" where
  "octets (w # x # y # z # vs) = (w * 4 + x div 16) # (x mod 16 * 16 + y div 4) # (y mod 4 * 64 + z) # octets vs"
| "octets [w, x, y] = [w * 4 + x div 16, x mod 16 * 16 + y div 4]"
| "octets [w, x] = [w * 4 + x div 16]"
| "octets _ = []"

definition base64_decode :: "string \<Rightarrow> bytes" where
  "base64_decode cs = octets (sextets cs)"

definition is_byte :: "nat \<Rightarrow> bool" where
  "is_byte n \<longleftrightarrow> n < 256"

lemma BASE64_length [simp]: "length BASE64 = 64"
  by (simp add: BASE64_def)

lemma BASE64_distinct: "distinct BASE64"
  by (simp add: BASE64_def)

lemma index_in_nth: "distinct xs \<Longrightarrow> i < length xs \<Longrightarrow> index_in xs (xs ! i) = Some i"
proof (induction xs arbitrary: i)
  case (Cons x xs)
  then show ?case by (cases i) (auto simp: in_set_conv_nth)
qed simp

lemma BASE64_symbols: "c \<in> set BASE64 \<Longrightarrow> c \<noteq> CHR ''='' \<and> c \<noteq> CHR ''-'' \<and> c \<noteq> CHR ''_'' \<and> c \<noteq> CHR 0x0A \<and> c \<noteq> CHR 0x27"
  by (auto simp: BASE64_def)

lemma digit64_mem: "digit64 n \<in> set BASE64"
  by (simp add: digit64_def)

lemma value64_digit64: "n < 64 \<Longrightarrow> value64 (digit64 n) = Some n"
  using BASE64_symbols [OF digit64_mem [of n]] index_in_nth [OF BASE64_distinct, of n] by (simp add: value64_def digit64_def)

lemma sextets_digit64 [simp]: "n < 64 \<Longrightarrow> sextets (digit64 n # cs) = n # sextets cs"
  using BASE64_symbols [OF digit64_mem [of n]] by (simp add: value64_digit64)

lemma byte_parts [simp]:
  "a < 256 \<Longrightarrow> a div 4 < (64::nat)" "b < 256 \<Longrightarrow> a mod 4 * 16 + b div 16 < (64::nat)"
  "c < 256 \<Longrightarrow> b mod 16 * 4 + c div 64 < (64::nat)" "c mod 64 < (64::nat)" "a mod 4 * 16 < (64::nat)" "b mod 16 * 4 < (64::nat)"
  by linarith+

lemma high_digit: "y < k \<Longrightarrow> (x * k + y) div k = x" for x y k :: nat
  by simp

lemma low_digit: "y < k \<Longrightarrow> (x * k + y) mod k = y" for x y k :: nat
  by simp

lemmas digits = high_digit low_digit

lemma sextets_encode:
  "list_all is_byte bs \<Longrightarrow> octets (sextets (base64_encode bs)) = bs"
proof (induction bs rule: base64_encode.induct)
  case (1 a b c bs)
  then have lt: "a < 256" "b < 256" "c < 256" by (simp_all add: is_byte_def)
  then have "b div 16 < 16" "c div 64 < 4" by linarith+
  then have "a div 4 * 4 + (a mod 4 * 16 + b div 16) div 16 = a" "(a mod 4 * 16 + b div 16) mod 16 * 16 + (b mod 16 * 4 + c div 64) div 4 = b"
    "(b mod 16 * 4 + c div 64) mod 4 * 64 + c mod 64 = c" by (simp_all only: digits div_mult_mod_eq)
  then show ?case using 1 lt by (simp del: sextets.simps(2))
next
  case (2 a b)
  then have lt: "a < 256" "b < 256" by (simp_all add: is_byte_def)
  then have "b div 16 < 16" by linarith
  then have "a div 4 * 4 + (a mod 4 * 16 + b div 16) div 16 = a" "(a mod 4 * 16 + b div 16) mod 16 * 16 + (b mod 16 * 4) div 4 = b"
    by (simp_all only: digits div_mult_mod_eq) simp
  then show ?case using lt by (simp del: sextets.simps(2)) simp
next
  case (3 a)
  then have lt: "a < 256" by (simp add: is_byte_def)
  have "a div 4 * 4 + (a mod 4 * 16) div 16 = a" by simp
  then show ?case using lt by (simp del: sextets.simps(2)) simp
qed simp

text \<open>The decoder undoes the encoder.\<close>

lemma base64_roundtrip: "list_all is_byte bs \<Longrightarrow> base64_decode (base64_encode bs) = bs"
  by (simp add: base64_decode_def sextets_encode)

lemma base64_chars: "set (base64_encode bs) \<subseteq> insert (CHR ''='') (set BASE64)"
  by (induction bs rule: base64_encode.induct) (auto simp: digit64_mem)

section \<open>UTF-8\<close>

type_synonym codepoints = "nat list"

definition REPLACEMENT :: nat where
  "REPLACEMENT = 0xFFFD"

definition is_scalar :: "nat \<Rightarrow> bool" where
  "is_scalar c \<longleftrightarrow> c < 0xD800 \<or> 0xE000 \<le> c \<and> c < 0x110000"

definition utf8_char :: "nat \<Rightarrow> bytes" where
  "utf8_char c =
     (if c < 0x80 then [c]
      else if c < 0x800 then [0xC0 + c div 64, 0x80 + c mod 64]
      else if c < 0x10000 then [0xE0 + c div 4096, 0x80 + c div 64 mod 64, 0x80 + c mod 64]
      else [0xF0 + c div 262144, 0x80 + c div 4096 mod 64, 0x80 + c div 64 mod 64, 0x80 + c mod 64])"

definition utf8_encode :: "codepoints \<Rightarrow> bytes" where
  "utf8_encode t = concat (map (\<lambda>c. utf8_char (if is_scalar c then c else REPLACEMENT)) t)"

text \<open>What a leading byte announces: the continuation bytes, the range of the first of them, and its own bits.\<close>

definition lead :: "nat \<Rightarrow> (nat \<times> nat \<times> nat \<times> nat) option" where
  "lead b =
     (if 0xC2 \<le> b \<and> b \<le> 0xDF then Some (1, 0x80, 0xBF, b - 0xC0)
      else if b = 0xE0 then Some (2, 0xA0, 0xBF, 0)
      else if b = 0xED then Some (2, 0x80, 0x9F, 13)
      else if 0xE1 \<le> b \<and> b \<le> 0xEF then Some (2, 0x80, 0xBF, b - 0xE0)
      else if b = 0xF0 then Some (3, 0x90, 0xBF, 0)
      else if b = 0xF4 then Some (3, 0x80, 0x8F, 4)
      else if 0xF1 \<le> b \<and> b \<le> 0xF3 then Some (3, 0x80, 0xBF, b - 0xF0)
      else None)"

fun continue_with :: "nat \<Rightarrow> nat \<Rightarrow> nat \<Rightarrow> nat \<Rightarrow> bytes \<Rightarrow> nat option \<times> bytes" where
  "continue_with 0 lo hi acc bs = (Some acc, bs)"
| "continue_with (Suc n) lo hi acc [] = (None, [])"
| "continue_with (Suc n) lo hi acc (b # bs) =
     (if lo \<le> b \<and> b \<le> hi then continue_with n 0x80 0xBF (acc * 64 + (b - 0x80)) bs else (None, b # bs))"

lemma continue_with_length: "continue_with n lo hi acc bs = (r, bs') \<Longrightarrow> length bs' \<le> length bs"
  by (induction n lo hi acc bs rule: continue_with.induct) (auto split: if_splits)

function utf8_decode :: "bytes \<Rightarrow> codepoints" where
  "utf8_decode [] = []"
| "utf8_decode (b # bs) =
     (if b < 0x80 then b # utf8_decode bs
      else case lead b of
        None \<Rightarrow> REPLACEMENT # utf8_decode bs
      | Some (n, lo, hi, acc) \<Rightarrow> (case continue_with n lo hi acc bs of (r, rest) \<Rightarrow>
          (case r of None \<Rightarrow> REPLACEMENT | Some c \<Rightarrow> c) # utf8_decode rest))"
  by pat_completeness auto
termination
  by (relation "measure length") (auto dest!: continue_with_length [OF sym])

lemma utf8_char_bytes: "c < 0x110000 \<Longrightarrow> list_all is_byte (utf8_char c)"
  by (simp add: utf8_char_def is_byte_def) linarith

lemma utf8_encode_bytes: "list_all is_byte (utf8_encode t)"
proof -
  have "list_all is_byte (utf8_char (if is_scalar c then c else REPLACEMENT))" for c
    by (rule utf8_char_bytes) (simp add: is_scalar_def REPLACEMENT_def)
  then show ?thesis by (induction t) (simp_all add: utf8_encode_def)
qed

lemma six_bits: "m mod 64 \<le> (63::nat)"
  by (simp add: less_Suc_eq_le [symmetric])

lemma utf8_decode_one: "c < 0x80 \<Longrightarrow> utf8_decode (utf8_char c @ bs) = c # utf8_decode bs"
  by (simp add: utf8_char_def)

lemma utf8_decode_two: "\<not> c < 0x80 \<Longrightarrow> c < 0x800 \<Longrightarrow> utf8_decode (utf8_char c @ bs) = c # utf8_decode bs"
proof -
  assume c: "\<not> c < 0x80" "c < 0x800"
  then have "lead (0xC0 + c div 64) = Some (1, 0x80, 0xBF, c div 64)" by (simp add: lead_def) linarith
  moreover have "c div 64 * 64 + c mod 64 = c" by simp
  ultimately show ?thesis using c by (simp add: utf8_char_def six_bits)
qed

lemma by_sixes: "c div 4096 = c div 64 div 64" "c div 262144 = c div 64 div 64 div 64" for c :: nat
  by (simp_all add: div_mult2_eq [symmetric])

lemma sixes_join: "(n div 64) * 64 + n mod 64 = n" for n :: nat
  by simp

lemma lead_three:
  assumes c: "\<not> 4096 * w + 64 * y + z < 0x800" "4096 * w + 64 * y + z < 0x10000" "is_scalar (4096 * w + 64 * y + z)" and d: "y < 64" "z < 64"
  shows "\<exists>lo hi. lead (0xE0 + w) = Some (2, lo, hi, w) \<and> lo \<le> 0x80 + y \<and> 0x80 + y \<le> hi"
proof -
  consider "w = 0" | "w = 13" | "w \<noteq> 0" "w \<noteq> 13" by blast
  then show ?thesis
  proof cases
    case 1
    then have "0xA0 \<le> 0x80 + y" using c(1) d by linarith
    then show ?thesis using 1 d by (simp add: lead_def)
  next
    case 2
    then have "0x80 + y \<le> 0x9F" using c d unfolding is_scalar_def by linarith
    then show ?thesis using 2 by (simp add: lead_def)
  next
    case 3
    then have "1 \<le> w" "w \<le> 15" using c by linarith+
    then show ?thesis using 3 d by (simp add: lead_def)
  qed
qed

lemma lead_four:
  assumes c: "\<not> 262144 * w + 4096 * x + 64 * y + z < 0x10000" "262144 * w + 4096 * x + 64 * y + z < 0x110000" and d: "x < 64" "y < 64" "z < 64"
  shows "\<exists>lo hi. lead (0xF0 + w) = Some (3, lo, hi, w) \<and> lo \<le> 0x80 + x \<and> 0x80 + x \<le> hi"
proof -
  consider "w = 0" | "w = 4" | "w \<noteq> 0" "w \<noteq> 4" by blast
  then show ?thesis
  proof cases
    case 1
    then have "0x90 \<le> 0x80 + x" using c(1) d by linarith
    then show ?thesis using 1 d by (simp add: lead_def)
  next
    case 2
    then have "0x80 + x \<le> 0x8F" using c d by linarith
    then show ?thesis using 2 by (simp add: lead_def)
  next
    case 3
    then have "1 \<le> w" "w \<le> 3" using c by linarith+
    then show ?thesis using 3 d by (simp add: lead_def)
  qed
qed

lemma utf8_decode_three:
  assumes c: "\<not> c < 0x800" "c < 0x10000" "is_scalar c"
  shows "utf8_decode (utf8_char c @ bs) = c # utf8_decode bs"
proof -
  have "(c div 4096 * 64 + c div 64 mod 64) * 64 + c mod 64 = c" by (simp only: by_sixes sixes_join)
  moreover from this have "4096 * (c div 4096) + 64 * (c div 64 mod 64) + c mod 64 = c" by (simp add: algebra_simps)
  then obtain lo hi where "lead (0xE0 + c div 4096) = Some (2, lo, hi, c div 4096)" "lo \<le> 0x80 + c div 64 mod 64" "0x80 + c div 64 mod 64 \<le> hi"
    using lead_three [of "c div 4096" "c div 64 mod 64" "c mod 64"] c by auto
  ultimately show ?thesis using c by (simp add: utf8_char_def six_bits numeral_2_eq_2)
qed

lemma utf8_decode_four:
  assumes c: "\<not> c < 0x10000" "c < 0x110000"
  shows "utf8_decode (utf8_char c @ bs) = c # utf8_decode bs"
proof -
  have "((c div 262144 * 64 + c div 4096 mod 64) * 64 + c div 64 mod 64) * 64 + c mod 64 = c" by (simp only: by_sixes sixes_join)
  moreover from this have "262144 * (c div 262144) + 4096 * (c div 4096 mod 64) + 64 * (c div 64 mod 64) + c mod 64 = c" by (simp add: algebra_simps)
  then obtain lo hi where "lead (0xF0 + c div 262144) = Some (3, lo, hi, c div 262144)" "lo \<le> 0x80 + c div 4096 mod 64" "0x80 + c div 4096 mod 64 \<le> hi"
    using lead_four [of "c div 262144" "c div 4096 mod 64" "c div 64 mod 64" "c mod 64"] c by auto
  ultimately show ?thesis using c by (simp add: utf8_char_def six_bits numeral_3_eq_3)
qed

lemma utf8_decode_char: "is_scalar c \<Longrightarrow> utf8_decode (utf8_char c @ bs) = c # utf8_decode bs"
  using utf8_decode_one [of c bs] utf8_decode_two [of c bs] utf8_decode_three [of c bs] utf8_decode_four [of c bs]
  by (cases "c < 0x80"; cases "c < 0x800"; cases "c < 0x10000") (auto simp: is_scalar_def)

text \<open>Well-formed text survives.\<close>

lemma utf8_roundtrip: "list_all is_scalar t \<Longrightarrow> utf8_decode (utf8_encode t) = t"
proof (induction t)
  case (Cons c t)
  then show ?case by (simp add: utf8_encode_def utf8_decode_char)
qed (simp add: utf8_encode_def)

section \<open>Percent encoding\<close>

text \<open>\<open>encodeURIComponent\<close> of a text of 8-bit characters: the unreserved ones stand, every byte of the UTF-8 form of another is \<open>%XX\<close>.\<close>

definition UNRESERVED :: string where
  "UNRESERVED = ''ABCDEFGHIJKLMNOPQRSTUVWXYZabcdefghijklmnopqrstuvwxyz0123456789-_.!~*()'' @ [CHR 0x27]"

definition HEX :: string where
  "HEX = ''0123456789ABCDEF''"

definition percent :: "nat \<Rightarrow> string" where
  "percent b = [CHR ''%'', HEX ! (b div 16 mod 16), HEX ! (b mod 16)]"

definition encode_char :: "char \<Rightarrow> string" where
  "encode_char c = (if c \<in> set UNRESERVED then [c] else concat (map percent (utf8_char (of_char c))))"

definition encodeURIComponent :: "string \<Rightarrow> string" where
  "encodeURIComponent cs = concat (map encode_char cs)"

definition hex_value :: "char \<Rightarrow> nat" where
  "hex_value c = (case index_in HEX c of None \<Rightarrow> 0 | Some v \<Rightarrow> v)"

text \<open>How a server reads it back: bytes first, then characters.\<close>

fun percent_bytes :: "string \<Rightarrow> bytes" where
  "percent_bytes [] = []"
| "percent_bytes (c # cs) =
     (if c = CHR ''%'' then (case cs of h # l # cs' \<Rightarrow> (hex_value h * 16 + hex_value l) # percent_bytes cs' | _ \<Rightarrow> of_char c # percent_bytes cs)
      else of_char c # percent_bytes cs)"

lemma UNRESERVED_ascii: "c \<in> set UNRESERVED \<Longrightarrow> (of_char c :: nat) < 0x80 \<and> c \<noteq> CHR ''%''"
  by (auto simp: UNRESERVED_def)

lemma hex_value_HEX: "i < 16 \<Longrightarrow> hex_value (HEX ! i) = i"
proof -
  have "distinct HEX" "length HEX = 16" by (simp_all add: HEX_def)
  then show "i < 16 \<Longrightarrow> hex_value (HEX ! i) = i" by (simp add: hex_value_def index_in_nth)
qed

lemma percent_bytes_percent: "b < 256 \<Longrightarrow> percent_bytes (percent b @ cs) = b # percent_bytes cs"
proof -
  assume "b < 256"
  then have "b div 16 < 16" by linarith
  then show ?thesis by (simp add: percent_def hex_value_HEX)
qed

lemma percent_bytes_all: "list_all is_byte bs \<Longrightarrow> percent_bytes (concat (map percent bs) @ cs) = bs @ percent_bytes cs"
  by (induction bs) (simp_all add: percent_bytes_percent is_byte_def)

lemma char_code_bound: "(of_char c :: nat) < 256"
  by simp

lemma percent_bytes_char: "percent_bytes (encode_char c @ cs) = utf8_char (of_char c) @ percent_bytes cs"
proof (cases "c \<in> set UNRESERVED")
  case True
  then show ?thesis using UNRESERVED_ascii [OF True] by (simp add: encode_char_def utf8_char_def)
next
  case False
  have "list_all is_byte (utf8_char (of_char c))" by (rule utf8_char_bytes) (use char_code_bound [of c] in linarith)
  then show ?thesis using False by (simp add: encode_char_def percent_bytes_all)
qed

lemma percent_roundtrip: "utf8_decode (percent_bytes (encodeURIComponent cs)) = map of_char cs"
proof (induction cs)
  case (Cons c cs)
  have "is_scalar (of_char c)" using char_code_bound [of c] unfolding is_scalar_def by linarith
  then show ?case using Cons by (simp add: encodeURIComponent_def percent_bytes_char utf8_decode_char)
qed (simp add: encodeURIComponent_def)

lemma percent_chars: "b < 256 \<Longrightarrow> set (percent b) \<subseteq> insert (CHR ''%'') (set HEX)"
proof -
  assume "b < 256"
  then have "b div 16 mod 16 < length HEX" "b mod 16 < length HEX" by (simp_all add: HEX_def)
  then show ?thesis by (auto simp: percent_def)
qed

text \<open>No reserved character of a URL is left.\<close>

lemma encodeURIComponent_chars: "set (encodeURIComponent cs) \<subseteq> insert (CHR ''%'') (set UNRESERVED)"
proof -
  have hex: "set HEX \<subseteq> set UNRESERVED" by (simp add: HEX_def UNRESERVED_def)
  have bytes: "list_all is_byte (utf8_char (of_char c))" for c by (rule utf8_char_bytes) (use char_code_bound [of c] in linarith)
  have "set (encode_char c) \<subseteq> insert (CHR ''%'') (set UNRESERVED)" for c
  proof (cases "c \<in> set UNRESERVED")
    case False
    have "set (percent b) \<subseteq> insert (CHR ''%'') (set UNRESERVED)" if b: "b \<in> set (utf8_char (of_char c))" for b
      using percent_chars [of b] bytes [of c] hex b by (auto simp: list_all_iff is_byte_def)
    then show ?thesis using False by (auto simp: encode_char_def)
  qed (simp add: encode_char_def)
  then show ?thesis by (auto simp: encodeURIComponent_def)
qed

end
