(* ===== verification/WorkspaceFiles.thy ===== *)
theory WorkspaceFiles
  imports AttemptRepository JsRegex Codec
begin

text \<open>
  \<open>attempt/workspace-file.service.ts\<close>, the file interface of the editor: list, read and write files of the
  workspace by shell commands that the orchestrator runs in the attempt's environment. The orchestrator's \<open>execShell\<close> is a
  parameter that acts on a world of any type beside the database. File content is a list of code points.
\<close>

section \<open>Model\<close>

record exec_shell_call =
  xc_environmentId :: string
  xc_command :: string
  xc_timeoutMs :: "nat option"
  xc_attemptId :: string

record exec_shell_result =
  xr_exitCode :: int
  xr_stdout :: string
  xr_stderr :: string
  xr_errorMessage :: "string option"

type_synonym 'w exec_shell = "exec_shell_call \<Rightarrow> ('w, exn, exec_shell_result) io"

type_synonym ('w, 'a) dual = "(db \<times> 'w, exn, 'a) io"

definition on_db :: "'a prog \<Rightarrow> ('w, 'a) dual" where
  "on_db m = (\<lambda>(s, w). case m s of (r, s') \<Rightarrow> (r, s', w))"

definition on_world :: "('w, exn, 'a) io \<Rightarrow> ('w, 'a) dual" where
  "on_world m = (\<lambda>(s, w). case m w of (r, w') \<Rightarrow> (r, s, w'))"

datatype file_kind = File | Dir

record workspace_file_entry =
  wf_path :: string
  wf_type :: file_kind

definition homeDir :: string where
  "homeDir = ''/home/ubuntu''"

definition WORKSPACE_FILE_OP_MS :: nat where
  "WORKSPACE_FILE_OP_MS = 10000"

definition resolveRelativePath :: "string \<Rightarrow> exn + string" where
  "resolveRelativePath relativePath =
     (let segments = filter (\<lambda>x. length x > 0 \<and> x \<noteq> ''.'') (split_on (CHR ''/'') relativePath) in
      if list_ex (\<lambda>x. x = ''..'') segments then Inl (BadRequest (''invalid path: '' @ relativePath))
      else Inr (join ''/'' (homeDir # segments)))"

definition environmentIdFor :: "string \<Rightarrow> string prog" where
  "environmentIdFor attemptId =
     bnd (bnd (query (findById attemptId)) (\<lambda>row. findOrThrow row (''attempt '' @ attemptId @ '' not found''))) (\<lambda>attempt.
     case a_environment_id attempt of
       Some (c # cs) \<Rightarrow> ret (c # cs)
     | _ \<Rightarrow> throw (BadRequest (''attempt '' @ attemptId @ '' has no environment (status '' @ status_str (a_status attempt) @ '')'')))"

definition in_dquotes :: "string \<Rightarrow> string" where
  "in_dquotes p = [CHR 0x22] @ p @ [CHR 0x22]"

definition in_quotes :: "string \<Rightarrow> string" where
  "in_quotes p = [CHR 0x27] @ p @ [CHR 0x27]"

definition backslash :: string where
  "backslash = [CHR 0x5C]"

definition list_command :: "string \<Rightarrow> string" where
  "list_command dir = ''find '' @ in_dquotes dir @ '' -mindepth 1 -maxdepth 1 '' @ backslash @ ''( -type d -printf '' @ in_quotes (''%f/'' @ backslash @ ''n'') @
     '' -o -type f -printf '' @ in_quotes (''%f'' @ backslash @ ''n'') @ '' '' @ backslash @ '') 2>/dev/null | sort''"

definition read_command :: "string \<Rightarrow> string" where
  "read_command path = ''base64 '' @ in_dquotes path @ '' 2>&1''"

definition write_command :: "string \<Rightarrow> string \<Rightarrow> string" where
  "write_command path encoded = ''mkdir -p '' @ in_dquotes (''$(dirname '' @ in_dquotes path @ '')'') @ '' && echo '' @ in_quotes encoded @
     '' | base64 -d > '' @ in_dquotes path"

definition exec_in :: "'w exec_shell \<Rightarrow> string \<Rightarrow> string \<Rightarrow> string \<Rightarrow> ('w, exec_shell_result) dual" where
  "exec_in sh attemptId environmentId command =
     on_world (sh \<lparr>xc_environmentId = environmentId, xc_command = command, xc_timeoutMs = Some WORKSPACE_FILE_OP_MS, xc_attemptId = attemptId\<rparr>)"

definition failed_with :: "exec_shell_result \<Rightarrow> bool" where
  "failed_with r \<longleftrightarrow> truthy (xr_errorMessage r)"

definition entry_of :: "string \<Rightarrow> string \<Rightarrow> workspace_file_entry" where
  "entry_of relativeDir line =
     (let isDir = (line \<noteq> [] \<and> last line = CHR ''/''); name = (if isDir then butlast line else line) in
      \<lparr>wf_path = (if relativeDir \<noteq> [] \<and> relativeDir \<noteq> ''.'' then relativeDir @ ''/'' @ name else name), wf_type = (if isDir then Dir else File)\<rparr>)"

definition or_dot :: "string \<Rightarrow> string" where
  "or_dot d = (if d = [] then ''.'' else d)"

definition list_files :: "'w exec_shell \<Rightarrow> string \<Rightarrow> string \<Rightarrow> ('w, workspace_file_entry list) dual" where
  "list_files sh attemptId relativeDir =
     bnd (on_db (environmentIdFor attemptId)) (\<lambda>environmentId.
     bnd (call (resolveRelativePath (or_dot relativeDir))) (\<lambda>dir.
     bnd (exec_in sh attemptId environmentId (list_command dir)) (\<lambda>result.
     if failed_with result then throw (BadRequest (''listing '' @ or_dot relativeDir @ '': '' @ the (xr_errorMessage result)))
     else if xr_exitCode result \<noteq> 0 then ret []
     else ret (map (entry_of relativeDir) (filter (\<lambda>line. length line > 0) (split_on (CHR 0x0A) (xr_stdout result)))))))"

definition read_file :: "'w exec_shell \<Rightarrow> string \<Rightarrow> string \<Rightarrow> ('w, codepoints) dual" where
  "read_file sh attemptId relativePath =
     bnd (on_db (environmentIdFor attemptId)) (\<lambda>environmentId.
     bnd (call (resolveRelativePath relativePath)) (\<lambda>path.
     bnd (exec_in sh attemptId environmentId (read_command path)) (\<lambda>result.
     if failed_with result then throw (BadRequest (''reading '' @ relativePath @ '': '' @ the (xr_errorMessage result)))
     else if xr_exitCode result \<noteq> 0 then throw (BadRequest (relativePath @ '': not found or not readable''))
     else ret (utf8_decode (base64_decode (filter (\<lambda>c. c \<noteq> CHR 0x0A) (xr_stdout result)))))))"

definition write_file :: "'w exec_shell \<Rightarrow> string \<Rightarrow> string \<Rightarrow> codepoints \<Rightarrow> ('w, unit) dual" where
  "write_file sh attemptId relativePath content =
     bnd (on_db (environmentIdFor attemptId)) (\<lambda>environmentId.
     bnd (call (resolveRelativePath relativePath)) (\<lambda>path.
     bnd (exec_in sh attemptId environmentId (write_command path (base64_encode (utf8_encode content)))) (\<lambda>result.
     if failed_with result then throw (BadRequest (''writing '' @ relativePath @ '': '' @ the (xr_errorMessage result)))
     else if xr_exitCode result \<noteq> 0 then throw (BadRequest (''writing '' @ relativePath @ '': '' @ (if xr_stderr result = [] then ''unknown error'' else xr_stderr result)))
     else ret ())))"

section \<open>Paths\<close>

text \<open>How a system resolves a path: empty and \<open>.\<close> segments stay, \<open>..\<close> goes up.\<close>

definition walk :: "string list \<Rightarrow> string \<Rightarrow> string list" where
  "walk stack seg = (if seg = [] \<or> seg = ''.'' then stack else if seg = ''..'' then butlast stack else stack @ [seg])"

definition location :: "string \<Rightarrow> string list" where
  "location p = foldl walk [] (split_on (CHR ''/'') p)"

definition under_home :: "string \<Rightarrow> bool" where
  "under_home p \<longleftrightarrow> (\<exists>segs. location p = [''home'', ''ubuntu''] @ segs)"

lemma walk_down: "\<forall>x \<in> set segs. x \<noteq> [] \<and> x \<noteq> ''.'' \<and> x \<noteq> ''..'' \<Longrightarrow> foldl walk stack segs = stack @ segs"
  by (induction segs arbitrary: stack) (auto simp: walk_def)

lemma location_home:
  assumes "\<forall>x \<in> set segs. x \<noteq> [] \<and> x \<noteq> ''.'' \<and> x \<noteq> ''..'' \<and> CHR ''/'' \<notin> set x"
  shows "location (join ''/'' (homeDir # segs)) = [''home'', ''ubuntu''] @ segs"
proof -
  have "join ''/'' (homeDir # segs) = join ''/'' ([] # ''home'' # ''ubuntu'' # segs)"
    by (cases segs) (simp_all add: homeDir_def)
  moreover have "split_on (CHR ''/'') (join ''/'' ([] # ''home'' # ''ubuntu'' # segs)) = [] # ''home'' # ''ubuntu'' # segs"
    by (rule split_on_join) (use assms in auto)
  ultimately have "location (join ''/'' (homeDir # segs)) = foldl walk [] ([] # ''home'' # ''ubuntu'' # segs)"
    by (simp only: location_def)
  also have "\<dots> = foldl walk [''home'', ''ubuntu''] segs" by (simp add: walk_def)
  finally show ?thesis using assms walk_down by simp
qed

lemma resolve_segments:
  assumes "resolveRelativePath rel = Inr p"
  obtains segs where "p = join ''/'' (homeDir # segs)" and "\<forall>x \<in> set segs. x \<noteq> [] \<and> x \<noteq> ''.'' \<and> x \<noteq> ''..'' \<and> CHR ''/'' \<notin> set x"
proof -
  let ?segs = "filter (\<lambda>x. length x > 0 \<and> x \<noteq> ''.'') (split_on (CHR ''/'') rel)"
  have "p = join ''/'' (homeDir # ?segs)" "\<not> list_ex (\<lambda>x. x = ''..'') ?segs"
    using assms by (simp_all add: resolveRelativePath_def Let_def split: if_splits)
  moreover from this have "\<forall>x \<in> set ?segs. x \<noteq> [] \<and> x \<noteq> ''.'' \<and> x \<noteq> ''..'' \<and> CHR ''/'' \<notin> set x"
    using split_on_no_sep [of _ "CHR ''/''" rel] by (auto simp: list_ex_iff)
  ultimately show ?thesis using that by blast
qed

lemma resolve_under_home: "resolveRelativePath rel = Inr p \<Longrightarrow> under_home p"
  by (erule resolve_segments) (auto simp: under_home_def location_home)

lemma resolve_rejects: "(\<exists>p. resolveRelativePath rel = Inr p) \<longleftrightarrow> ''..'' \<notin> set (split_on (CHR ''/'') rel)"
  by (auto simp: resolveRelativePath_def Let_def list_ex_iff)

text \<open>The path of a listed entry names that entry again.\<close>

lemma filter_split_append:
  "CHR ''/'' \<notin> set name \<Longrightarrow> split_on (CHR ''/'') (dir @ CHR ''/'' # name) = split_on (CHR ''/'') dir @ [name]"
proof (induction dir)
  case Nil
  then show ?case by (simp add: split_on_plain)
next
  case (Cons c dir)
  then show ?case by (cases "split_on (CHR ''/'') dir") (auto simp: split_on_nonempty)
qed

lemma join_snoc: "join ''/'' (x # xs @ [name]) = join ''/'' (x # xs) @ CHR ''/'' # name"
  by (induction xs arbitrary: x) simp_all

lemma entry_resolves:
  assumes "resolveRelativePath (or_dot dir) = Inr p" and "CHR ''/'' \<notin> set name" and "name \<notin> {[], ''.'', ''..''}"
  shows "resolveRelativePath (wf_path (entry_of dir name)) = Inr (p @ ''/'' @ name)"
proof -
  have "last name \<noteq> CHR ''/''" using assms(2,3) last_in_set by force
  then have "wf_path (entry_of dir name) = (if dir \<noteq> [] \<and> dir \<noteq> ''.'' then dir @ ''/'' @ name else name)"
    by (simp add: entry_of_def Let_def)
  then show ?thesis using assms
    by (auto simp: join_snoc resolveRelativePath_def Let_def or_dot_def filter_split_append split_on_plain list_ex_iff split: if_splits)
qed

section \<open>What reaches the environment\<close>

datatype file_request = ListFiles string | ReadFile string | WriteFile string codepoints

fun serve :: "'w exec_shell \<Rightarrow> string \<Rightarrow> file_request \<Rightarrow> ('w, unit) dual" where
  "serve sh attemptId (ListFiles d) = andthen (list_files sh attemptId d) (ret ())"
| "serve sh attemptId (ReadFile p) = andthen (read_file sh attemptId p) (ret ())"
| "serve sh attemptId (WriteFile p c) = write_file sh attemptId p c"

text \<open>A shell that answers as it likes and keeps what it was asked.\<close>

definition recorder :: "(exec_shell_call \<Rightarrow> exn + exec_shell_result) \<Rightarrow> exec_shell_call list exec_shell" where
  "recorder answer c = (\<lambda>sent. (answer c, sent @ [c]))"

definition file_command :: "string \<Rightarrow> bool" where
  "file_command command \<longleftrightarrow> (\<exists>p. under_home p \<and>
     (command = list_command p \<or> command = read_command p \<or> (\<exists>content. command = write_command p (base64_encode (utf8_encode content)))))"

lemma on_world_recorder: "exec_in (recorder answer) i e cmd (s, sent) =
    (answer \<lparr>xc_environmentId = e, xc_command = cmd, xc_timeoutMs = Some WORKSPACE_FILE_OP_MS, xc_attemptId = i\<rparr>, s,
     sent @ [\<lparr>xc_environmentId = e, xc_command = cmd, xc_timeoutMs = Some WORKSPACE_FILE_OP_MS, xc_attemptId = i\<rparr>])"
  by (simp add: exec_in_def on_world_def recorder_def)

lemma environmentIdFor_cases:
  obtains err where "environmentIdFor i s = (Inl err, s)"
    | e a where "environmentIdFor i s = (Inr e, s)" and "findById i s = Some a" and "a_environment_id a = Some e" and "e \<noteq> []"
proof (cases "findById i s")
  case None
  then show ?thesis using that(1) by (simp add: environmentIdFor_def findOrThrow_def bnd_run)
next
  case (Some a)
  show ?thesis
  proof (cases "a_environment_id a = None \<or> a_environment_id a = Some []")
    case True
    then show ?thesis using that(1) Some by (auto simp: environmentIdFor_def findOrThrow_def bnd_run)
  next
    case False
    then obtain c cs where "a_environment_id a = Some (c # cs)" by (cases "the (a_environment_id a)") auto
    then show ?thesis using that(2) Some by (simp add: environmentIdFor_def findOrThrow_def bnd_run)
  qed
qed

text \<open>The three operations look up the environment, resolve the path, run one command and read its result.\<close>

lemma one_command:
  fixes k :: "exec_shell_result \<Rightarrow> (exec_shell_call list, 'a) dual"
  assumes "\<And>r st. snd (k r st) = st" and "\<And>p. resolveRelativePath rel = Inr p \<Longrightarrow> file_command (cmd p)"
    and run: "bnd (on_db (environmentIdFor i)) (\<lambda>e. bnd (call (resolveRelativePath rel)) (\<lambda>p. bnd (exec_in (recorder answer) i e (cmd p)) k)) (s, []) = (r, s', sent)"
  shows "s' = s \<and> (\<forall>c \<in> set sent. file_command (xc_command c) \<and> xc_attemptId c = i \<and>
    (\<exists>a. findById i s = Some a \<and> a_environment_id a = Some (xc_environmentId c)))"
proof (cases rule: environmentIdFor_cases [of i s])
  case (1 err)
  then show ?thesis using run by (simp add: bnd_run on_db_def)
next
  case (2 e a)
  show ?thesis
  proof (cases "resolveRelativePath rel")
    case (Inl err)
    then show ?thesis using run 2 by (simp add: bnd_run on_db_def)
  next
    case (Inr p)
    let ?c = "\<lparr>xc_environmentId = e, xc_command = cmd p, xc_timeoutMs = Some WORKSPACE_FILE_OP_MS, xc_attemptId = i\<rparr>"
    have "(s', sent) = (s, [?c])"
      using run 2 Inr assms(1) by (auto simp: bnd_run on_db_def on_world_recorder prod_eq_iff split: sum.splits)
    then show ?thesis using 2 assms(2) [OF Inr] by simp
  qed
qed

lemma andthen_ret: "andthen m (ret ()) st = (r, st') \<Longrightarrow> \<exists>r'. m st = (r', st')"
  by (auto simp: andthen_def bnd_run split: prod.splits sum.splits)

text \<open>Property. The file interface stays in the attempt's own home: whatever path a client sends and whatever the shell answers,
  the only commands that reach an environment are the three file commands on a path that resolves to a place below
  \<open>/home/ubuntu\<close>, they run in the environment of the given attempt, and the database is not changed.\<close>

theorem commands_confined:
  assumes "serve (recorder answer) attemptId request (s, []) = (r, s', sent)"
  shows "s' = s \<and> (\<forall>c \<in> set sent. file_command (xc_command c) \<and> xc_attemptId c = attemptId \<and>
    (\<exists>a. findById attemptId s = Some a \<and> a_environment_id a = Some (xc_environmentId c)))"
proof (cases request)
  case (ListFiles d)
  obtain r' where "list_files (recorder answer) attemptId d (s, []) = (r', s', sent)"
    using andthen_ret [of "list_files (recorder answer) attemptId d" "(s, [])" r "(s', sent)"] assms ListFiles by auto
  then show ?thesis unfolding list_files_def
    by (rule one_command [rotated 2]) (auto simp: file_command_def dest: resolve_under_home)
next
  case (ReadFile p)
  obtain r' where "read_file (recorder answer) attemptId p (s, []) = (r', s', sent)"
    using andthen_ret [of "read_file (recorder answer) attemptId p" "(s, [])" r "(s', sent)"] assms ReadFile by auto
  then show ?thesis unfolding read_file_def
    by (rule one_command [rotated 2]) (auto simp: file_command_def dest: resolve_under_home)
next
  case (WriteFile p content)
  then have "write_file (recorder answer) attemptId p content (s, []) = (r, s', sent)" using assms by simp
  then show ?thesis unfolding write_file_def
    by (rule one_command [rotated 2]) (auto simp: file_command_def dest: resolve_under_home)
qed

definition demo_workspace :: db where
  "demo_workspace = empty_db\<lparr>attempts := [demo_attempt\<lparr>a_environment_id := Some ''e''\<rparr>]\<rparr>"

lemma demo_workspace_environment: "environmentIdFor ''a'' demo_workspace = (Inr ''e'', demo_workspace)"
  by (simp add: environmentIdFor_def findById_def findOrThrow_def demo_workspace_def demo_attempt_def new_attempt_def bnd_run)

definition demo_done :: exec_shell_result where
  "demo_done = \<lparr>xr_exitCode = 0, xr_stdout = [], xr_stderr = [], xr_errorMessage = None\<rparr>"

definition demo_call :: exec_shell_call where
  "demo_call = \<lparr>xc_environmentId = ''e'', xc_command = list_command ''/home/ubuntu/x'', xc_timeoutMs = Some 10000, xc_attemptId = ''a''\<rparr>"

lemma demo_listing: "serve (recorder (\<lambda>_. Inr demo_done)) ''a'' (ListFiles ''./x/'') (demo_workspace, []) = (Inr (), demo_workspace, [demo_call])"
proof -
  have "resolveRelativePath (or_dot ''./x/'') = Inr ''/home/ubuntu/x''"
    by (simp add: resolveRelativePath_def or_dot_def homeDir_def)
  then show ?thesis
    by (simp add: list_files_def andthen_def bnd_run on_db_def demo_workspace_environment on_world_recorder demo_done_def failed_with_def truthy_def
        WORKSPACE_FILE_OP_MS_def demo_call_def)
qed

theorem commands_confined_witness:
  "demo_call \<in> set [demo_call] \<and> file_command (xc_command demo_call)"
  using commands_confined [OF demo_listing] by simp

section \<open>Writing and reading back\<close>

text \<open>
  What the shell utilities promise, for a path on which double quotes have no special effect: after the write command succeeded
  the file holds the decoded bytes, and the read command prints the bytes of a file in base64, broken into lines.
\<close>

definition plain_path :: "string \<Rightarrow> bool" where
  "plain_path p \<longleftrightarrow> set p \<inter> {CHR 0x22, CHR 0x24, CHR 0x60, CHR 0x5C, CHR 0x0A, CHR 0x00} = {}"

definition succeeded :: "exec_shell_result \<Rightarrow> bool" where
  "succeeded r \<longleftrightarrow> \<not> failed_with r \<and> xr_exitCode r = 0"

definition writes_files :: "'w exec_shell \<Rightarrow> ('w \<Rightarrow> string \<Rightarrow> string \<Rightarrow> bytes option) \<Rightarrow> bool" where
  "writes_files sh content_at \<longleftrightarrow> (\<forall>c p encoded w r w'. xc_command c = write_command p encoded \<longrightarrow> plain_path p \<longrightarrow>
     set encoded \<subseteq> insert (CHR ''='') (set BASE64) \<longrightarrow> sh c w = (Inr r, w') \<longrightarrow> succeeded r \<longrightarrow>
     content_at w' (xc_environmentId c) p = Some (base64_decode encoded))"

definition prints_files :: "'w exec_shell \<Rightarrow> ('w \<Rightarrow> string \<Rightarrow> string \<Rightarrow> bytes option) \<Rightarrow> bool" where
  "prints_files sh content_at \<longleftrightarrow> (\<forall>c p w bs. xc_command c = read_command p \<longrightarrow> plain_path p \<longrightarrow> content_at w (xc_environmentId c) p = Some bs \<longrightarrow>
     (\<exists>r. sh c w = (Inr r, w) \<and> succeeded r \<and> filter (\<lambda>ch. ch \<noteq> CHR 0x0A) (xr_stdout r) = base64_encode bs))"

lemma writes_filesD:
  "writes_files sh content_at \<Longrightarrow> xc_command c = write_command p encoded \<Longrightarrow> plain_path p \<Longrightarrow> set encoded \<subseteq> insert (CHR ''='') (set BASE64) \<Longrightarrow>
   sh c w = (Inr r, w') \<Longrightarrow> succeeded r \<Longrightarrow> content_at w' (xc_environmentId c) p = Some (base64_decode encoded)"
  unfolding writes_files_def by blast

lemma prints_filesD:
  "prints_files sh content_at \<Longrightarrow> xc_command c = read_command p \<Longrightarrow> plain_path p \<Longrightarrow> content_at w (xc_environmentId c) p = Some bs \<Longrightarrow>
   \<exists>r. sh c w = (Inr r, w) \<and> succeeded r \<and> filter (\<lambda>ch. ch \<noteq> CHR 0x0A) (xr_stdout r) = base64_encode bs"
  unfolding prints_files_def by blast

text \<open>C27. What the editor saves is what it loads: on a shell whose utilities behave as documented, reading a file directly
  after a write that was accepted succeeds and gives the written text, for any Unicode text and any path without the
  characters that double quotes do not protect.\<close>

theorem file_roundtrip:
  assumes sh: "writes_files sh content_at" "prints_files sh content_at"
    and path: "resolveRelativePath rel = Inr p" "plain_path p" and content: "list_all is_scalar content"
    and saved: "write_file sh i rel content (s, w) = (Inr (), s', w')"
  shows "read_file sh i rel (s', w') = (Inr content, s', w')"
proof (cases rule: environmentIdFor_cases [of i s])
  case (1 err)
  then show ?thesis using saved by (simp add: write_file_def bnd_run on_db_def)
next
  case (2 e a)
  let ?encoded = "base64_encode (utf8_encode content)"
  let ?call = "\<lambda>cmd. \<lparr>xc_environmentId = e, xc_command = cmd, xc_timeoutMs = Some WORKSPACE_FILE_OP_MS, xc_attemptId = i\<rparr>"
  obtain r where r: "sh (?call (write_command p ?encoded)) w = (Inr r, w')" "succeeded r" "s' = s"
    using saved 2 path by (auto simp: write_file_def bnd_run on_db_def exec_in_def on_world_def succeeded_def split: prod.splits sum.splits if_splits)
  then have "content_at w' e p = Some (base64_decode ?encoded)"
    using writes_filesD [OF sh(1) _ path(2) base64_chars, of "?call (write_command p ?encoded)"] by simp
  then have "content_at w' e p = Some (utf8_encode content)" by (simp add: base64_roundtrip utf8_encode_bytes)
  then obtain r' where r': "sh (?call (read_command p)) w' = (Inr r', w')" "succeeded r'" "filter (\<lambda>ch. ch \<noteq> CHR 0x0A) (xr_stdout r') = ?encoded"
    using prints_filesD [OF sh(2) _ path(2), of "?call (read_command p)"] by auto
  then show ?thesis
    using 2 path r content by (simp add: read_file_def bnd_run on_db_def exec_in_def on_world_def succeeded_def base64_roundtrip utf8_encode_bytes utf8_roundtrip)
qed

text \<open>A workspace with one file, on a shell that knows the two commands on it and refuses every other.\<close>

lemma quoted_inj: "x \<notin> set p \<Longrightarrow> x \<notin> set q \<Longrightarrow> p @ x # u = q @ x # v \<Longrightarrow> p = q \<and> u = v"
  by (induction p arbitrary: q) (auto simp: Cons_eq_append_conv)

lemma write_command_inj:
  assumes "plain_path p" and "plain_path q" and "CHR 0x27 \<notin> set e" and "CHR 0x27 \<notin> set f" and "write_command p e = write_command q f"
  shows "p = q \<and> e = f"
proof -
  have free: "CHR 0x22 \<notin> set p" "CHR 0x22 \<notin> set q" using assms(1,2) by (auto simp: plain_path_def)
  have "write_command p e = ''mkdir -p '' @ CHR 0x22 # ''$(dirname '' @ CHR 0x22 # (p @ CHR 0x22 # ('')'' @ CHR 0x22 # '' && echo '' @ CHR 0x27 # (e @ CHR 0x27 # ('' | base64 -d > '' @ in_dquotes p))))"
    for p e by (simp add: write_command_def in_dquotes_def in_quotes_def)
  then have "p @ CHR 0x22 # ('')'' @ CHR 0x22 # '' && echo '' @ CHR 0x27 # (e @ CHR 0x27 # ('' | base64 -d > '' @ in_dquotes p))) =
      q @ CHR 0x22 # ('')'' @ CHR 0x22 # '' && echo '' @ CHR 0x27 # (f @ CHR 0x27 # ('' | base64 -d > '' @ in_dquotes q)))"
    using assms(5) by (simp only: same_append_eq list.inject)
  from quoted_inj [OF free this] have "p = q \<and> e @ CHR 0x27 # ('' | base64 -d > '' @ in_dquotes p) = f @ CHR 0x27 # ('' | base64 -d > '' @ in_dquotes q)"
    unfolding same_append_eq list.inject simp_thms .
  then show ?thesis using quoted_inj [OF assms(3,4)] by blast
qed

lemma read_command_inj: "read_command p = read_command q \<Longrightarrow> p = q"
  by (simp add: read_command_def in_dquotes_def)

definition demo_text :: codepoints where
  "demo_text = [0x68, 0xE9, 0x20AC, 0x1F600]"

definition demo_encoded :: string where
  "demo_encoded = base64_encode (utf8_encode demo_text)"

definition demo_path :: string where
  "demo_path = ''/home/ubuntu/f''"

definition demo_disk :: "bool exec_shell" where
  "demo_disk c w =
     (if xc_command c = write_command demo_path demo_encoded then (Inr demo_done, True)
      else if xc_command c = read_command demo_path \<and> w then (Inr (demo_done\<lparr>xr_stdout := demo_encoded\<rparr>), w)
      else (Inr (demo_done\<lparr>xr_exitCode := 1\<rparr>), w))"

definition demo_content :: "bool \<Rightarrow> string \<Rightarrow> string \<Rightarrow> bytes option" where
  "demo_content w e p = (if w \<and> p = demo_path then Some (utf8_encode demo_text) else None)"

lemma demo_plain: "plain_path demo_path"
  by (simp add: plain_path_def demo_path_def)

lemma demo_encoded_chars: "CHR 0x27 \<notin> set demo_encoded" "CHR 0x0A \<notin> set demo_encoded"
  using base64_chars [of "utf8_encode demo_text"] BASE64_symbols by (auto simp: demo_encoded_def)

lemma demo_disk_writes: "writes_files demo_disk demo_content"
proof (unfold writes_files_def, intro allI impI)
  fix c :: exec_shell_call and p encoded w r w'
  assume a: "xc_command c = write_command p encoded" "plain_path p" "set encoded \<subseteq> insert (CHR ''='') (set BASE64)" "demo_disk c w = (Inr r, w')" "succeeded r"
  have "CHR 0x27 \<notin> set encoded" using a(3) BASE64_symbols by auto
  moreover have "write_command p encoded = write_command demo_path demo_encoded"
  proof (rule ccontr)
    assume "write_command p encoded \<noteq> write_command demo_path demo_encoded"
    moreover have "write_command p encoded \<noteq> read_command demo_path" by (simp add: write_command_def read_command_def)
    ultimately show False using a by (auto simp: demo_disk_def succeeded_def demo_done_def)
  qed
  ultimately have "p = demo_path \<and> encoded = demo_encoded"
    using write_command_inj a(2) demo_plain demo_encoded_chars(1) by blast
  then show "demo_content w' (xc_environmentId c) p = Some (base64_decode encoded)"
    using a by (simp add: demo_disk_def demo_content_def demo_encoded_def base64_roundtrip utf8_encode_bytes)
qed

lemma demo_disk_prints: "prints_files demo_disk demo_content"
proof (unfold prints_files_def, intro allI impI)
  fix c :: exec_shell_call and p w bs
  assume a: "xc_command c = read_command p" "plain_path p" "demo_content w (xc_environmentId c) p = Some bs"
  then have "w" "p = demo_path" "bs = utf8_encode demo_text" by (simp_all add: demo_content_def split: if_splits)
  moreover have "filter (\<lambda>ch. ch \<noteq> CHR 0x0A) demo_encoded = demo_encoded" using demo_encoded_chars(2) by (auto simp: filter_id_conv)
  moreover have "read_command demo_path \<noteq> write_command demo_path demo_encoded" by (simp add: write_command_def read_command_def)
  ultimately show "\<exists>r. demo_disk c w = (Inr r, w) \<and> succeeded r \<and> filter (\<lambda>ch. ch \<noteq> CHR 0x0A) (xr_stdout r) = base64_encode bs"
    using a by (simp add: demo_disk_def succeeded_def demo_done_def failed_with_def truthy_def demo_encoded_def)
qed

lemma demo_resolved: "resolveRelativePath ''f'' = Inr demo_path"
  by (simp add: resolveRelativePath_def homeDir_def demo_path_def)

lemma demo_saved: "write_file demo_disk ''a'' ''f'' demo_text (demo_workspace, False) = (Inr (), demo_workspace, True)"
  by (simp add: write_file_def bnd_run on_db_def demo_workspace_environment demo_resolved exec_in_def on_world_def demo_disk_def demo_encoded_def [symmetric]
      demo_done_def failed_with_def truthy_def)

theorem file_roundtrip_witness:
  "read_file demo_disk ''a'' ''f'' (demo_workspace, True) = (Inr demo_text, demo_workspace, True)"
  by (rule file_roundtrip [OF demo_disk_writes demo_disk_prints demo_resolved demo_plain _ demo_saved]) (simp add: demo_text_def is_scalar_def)

text \<open>
  The path stands in double quotes, where the shell still expands \<open>$\<close> and back quotes and where a double quote ends the word; the
  check of the segments does not exclude them. A name can so run a command, and leave the home directory.
\<close>

lemma path_not_escaped:
  "resolveRelativePath ''$(cd ..; cat x)'' = Inr ''/home/ubuntu/$(cd ..; cat x)''"
  "read_command ''/home/ubuntu/$(cd ..; cat x)'' = ''base64 '' @ in_dquotes ''/home/ubuntu/$(cd ..; cat x)'' @ '' 2>&1''"
  by (simp_all add: resolveRelativePath_def homeDir_def read_command_def)

end
