(* ===== verification/AttemptController.thy ===== *)
theory AttemptController
  imports Lifecycle WorkspaceFiles Admin
begin

text \<open>
  \<open>attempt/attempt.controller.ts\<close>: the learner's routes on attempts, each behind the token guard and, when it names an
  attempt, behind the ownership guard. \<open>handle_attempt\<close> is one request from its header to its answer; the operations it calls
  are those of the components. Times, fresh identifiers and the shell of the environments are arguments. The last
  part is \<open>common/all-exceptions.filter.ts\<close>, what the client is told when a handler throws.
\<close>

section \<open>Model: routes\<close>

datatype attempt_action = AProvision | AStart | ACheck | ASubmit | AConnect | AGetById | AGetEvaluation | AGetTasks
  | APreviewHint string | ARevealHint string | AGuidedFallback string
  | AListFiles "string option" | AReadFile string | AWriteFile string codepoints | ASubmitArtifact string string

datatype attempt_request = RCreate string "string option" | RList | ROn string attempt_action

datatype attempt_response = RowResponse attempt_row | RowsResponse "attempt_row list" | FoundResponse "attempt_row option"
  | ReportResponse check_report | SessionResponse connect_result | ScoreResponse "score_row option"
  | TasksResponse "task_state_row list" | PreviewResponse "hint_preview option" | HintResponse hint_reveal
  | TextResponse string | FilesResponse "workspace_file_entry list" | ContentResponse codepoints | OkResponse

text \<open>What a request is served with: the services, the token check, the digest of artifacts, the environments' shell, and
  the identifiers and times the handlers draw.\<close>

record 'w deployment =
  dp_services :: services
  dp_verify :: "string \<Rightarrow> jwt_claims option"
  dp_sha256 :: "string \<Rightarrow> string"
  dp_shell :: "'w exec_shell"
  dp_newId :: string
  dp_now :: time
  dp_later :: time

text \<open>\<open>getLatestScore\<close>: \<open>computed_at\<close> is set by the database on insertion, so the latest row is the last one.\<close>

definition getLatestScore :: "string \<Rightarrow> db \<Rightarrow> score_row option" where
  "getLatestScore attemptId s = find_row (\<lambda>r. sc_attempt_id r = attemptId) (rev (scores s))"

definition answer :: "('a \<Rightarrow> attempt_response) \<Rightarrow> 'a prog \<Rightarrow> ('w, attempt_response) dual" where
  "answer f m = bnd (on_db m) (\<lambda>x. ret (f x))"

definition ctl_create :: "'w deployment \<Rightarrow> auth_claims \<Rightarrow> string \<Rightarrow> string option \<Rightarrow> ('w, attempt_response) dual" where
  "ctl_create dp auth activityVersionId idempotencyKey =
     answer RowResponse (createAttempt (dp_services dp) \<lparr>cx_tenantId = cm_tenantId auth, cx_userId = cm_userId auth,
       cx_activityVersionId = activityVersionId, cx_idempotencyKey = idempotencyKey\<rparr> (dp_newId dp) (dp_now dp))"

definition ctl_list :: "auth_claims \<Rightarrow> ('w, attempt_response) dual" where
  "ctl_list auth = answer RowsResponse (query (listForUser (cm_userId auth) None))"

definition ctl_provision :: "'w deployment \<Rightarrow> string \<Rightarrow> ('w, attempt_response) dual" where
  "ctl_provision dp i = answer RowResponse (andthen (reactivate i (dp_now dp)) (provision (dp_services dp) i (dp_now dp) (dp_later dp)))"

definition ctl_connect :: "'w deployment \<Rightarrow> string \<Rightarrow> ('w, attempt_response) dual" where
  "ctl_connect dp i = answer SessionResponse (andthen (touch i (dp_now dp)) (connect (dp_services dp) i))"

definition ctl_writeFile :: "'w deployment \<Rightarrow> string \<Rightarrow> string \<Rightarrow> codepoints \<Rightarrow> ('w, attempt_response) dual" where
  "ctl_writeFile dp i path content =
     andthen (write_file (dp_shell dp) i path content) (andthen (on_db (touch i (dp_now dp))) (ret OkResponse))"

fun route :: "'w deployment \<Rightarrow> string \<Rightarrow> attempt_action \<Rightarrow> ('w, attempt_response) dual" where
  "route dp i AProvision = ctl_provision dp i"
| "route dp i AStart = answer RowResponse (markStarted i (dp_now dp))"
| "route dp i ACheck = answer ReportResponse (checkWork (dp_services dp) i (dp_newId dp) (dp_now dp))"
| "route dp i ASubmit = answer RowResponse (submit (dp_services dp) i (dp_newId dp) (dp_now dp))"
| "route dp i AConnect = ctl_connect dp i"
| "route dp i AGetById = answer FoundResponse (query (findById i))"
| "route dp i AGetEvaluation = answer ScoreResponse (query (getLatestScore i))"
| "route dp i AGetTasks = answer TasksResponse (query (getTaskStates i))"
| "route dp i (APreviewHint key) = answer PreviewResponse (preview i key)"
| "route dp i (ARevealHint key) = answer HintResponse (reveal i key (dp_now dp))"
| "route dp i (AGuidedFallback key) = answer TextResponse (guidedFallback i key (dp_now dp))"
| "route dp i (AListFiles dir) = bnd (list_files (dp_shell dp) i (case dir of None \<Rightarrow> ''.'' | Some d \<Rightarrow> d)) (\<lambda>fs. ret (FilesResponse fs))"
| "route dp i (AReadFile path) = bnd (read_file (dp_shell dp) i path) (\<lambda>c. ret (ContentResponse c))"
| "route dp i (AWriteFile path content) = ctl_writeFile dp i path content"
| "route dp i (ASubmitArtifact key content) = answer (\<lambda>_. OkResponse) (submit_artifact (dp_sha256 dp) i key content (dp_now dp))"

definition caller_of :: "auth_claims \<Rightarrow> caller_claims" where
  "caller_of auth = \<lparr>cc_userId = cm_userId auth, cc_tenantId = cm_tenantId auth\<rparr>"

definition handle_attempt :: "'w deployment \<Rightarrow> string option \<Rightarrow> attempt_request \<Rightarrow> ('w, attempt_response) dual" where
  "handle_attempt dp header req =
     bnd (on_db (auth_canActivate (dp_verify dp) False header)) (\<lambda>claims.
     case claims of
       None \<Rightarrow> throw (Unauthorized ''missing bearer token'')
     | Some auth \<Rightarrow> (case req of
         RCreate activityVersionId key \<Rightarrow> ctl_create dp auth activityVersionId key
       | RList \<Rightarrow> ctl_list auth
       | ROn i action \<Rightarrow> andthen (on_db (canActivate (Some i) (Some (caller_of auth)))) (route dp i action)))"

section \<open>Model: the exception filter\<close>

fun error_code_str :: "attempt_error_code \<Rightarrow> string" where
  "error_code_str ACTIVITY_NOT_PUBLISHED = ''ACTIVITY_NOT_PUBLISHED''"
| "error_code_str PREREQUISITE_NOT_MET = ''PREREQUISITE_NOT_MET''"
| "error_code_str COOLDOWN_ACTIVE = ''COOLDOWN_ACTIVE''"
| "error_code_str CONCURRENT_QUOTA_EXCEEDED = ''CONCURRENT_QUOTA_EXCEEDED''"
| "error_code_str INVALID_STATE_TRANSITION = ''INVALID_STATE_TRANSITION''"
| "error_code_str ATTEMPT_NOT_FOUND = ''ATTEMPT_NOT_FOUND''"
| "error_code_str NO_ENVIRONMENT = ''NO_ENVIRONMENT''"
| "error_code_str ATTEMPT_VANISHED = ''ATTEMPT_VANISHED''"

definition http_body :: "string \<Rightarrow> string \<Rightarrow> nat \<Rightarrow> json" where
  "http_body message error status = JObj [(''message'', JStr message), (''error'', JStr error), (''statusCode'', JNum (real status))]"

definition reasons_body :: "string \<Rightarrow> (string \<times> string) list \<Rightarrow> json" where
  "reasons_body message reasons = JObj [(''message'', JStr message),
     (''reasons'', JArr (map (\<lambda>(c, m). JObj [(''code'', JStr c), (''message'', JStr m)]) reasons))]"

text \<open>\<open>getStatus\<close>, \<open>getResponse\<close> and \<open>message\<close> of the exceptions that are \<open>HttpException\<close>s.\<close>

fun http_exception :: "exn \<Rightarrow> (nat \<times> json \<times> string) option" where
  "http_exception (NotFound m) = Some (404, http_body m ''Not Found'' 404, m)"
| "http_exception (BadRequest m) = Some (400, http_body m ''Bad Request'' 400, m)"
| "http_exception (Conflict m) = Some (409, http_body m ''Conflict'' 409, m)"
| "http_exception (Forbidden m) = Some (403, http_body m ''Forbidden'' 403, m)"
| "http_exception (Unauthorized m) = Some (401, http_body m ''Unauthorized'' 401, m)"
| "http_exception (AttemptErr rs) = Some (400, reasons_body (join ''; '' (map er_message rs)) (map (\<lambda>r. (error_code_str (er_code r), er_message r)) rs), ''Bad Request Exception'')"
| "http_exception (ProjectErr c m) = Some (400, reasons_body m [(c, m)], ''Bad Request Exception'')"
| "http_exception _ = None"

text \<open>The message of an exception that is not one.\<close>

fun raw_message :: "exn \<Rightarrow> string" where
  "raw_message (Err m) = m"
| "raw_message (DbErr m) = m"
| "raw_message (RemoteErr m) = m"
| "raw_message _ = ''no result''"

record http_reply =
  hr_status :: nat
  hr_body :: json

text \<open>\<open>AllExceptionsFilter.catch\<close>: the reply, and what is logged.\<close>

definition filter_catch :: "string \<Rightarrow> string \<Rightarrow> exn \<Rightarrow> http_reply \<times> string list" where
  "filter_catch meth url e = (case http_exception e of
     Some (status, response, message) \<Rightarrow>
       (\<lparr>hr_status = status, hr_body = JObj ([(''statusCode'', JNum (real status)), (''path'', JStr url),
            (''message'', case response of JStr m \<Rightarrow> JStr m | _ \<Rightarrow> (case jget response ''message'' of Some m \<Rightarrow> m | None \<Rightarrow> JStr message))] @
            (case response of JObj fs \<Rightarrow> [(''detail'', JObj fs)] | _ \<Rightarrow> []))\<rparr>,
        if 500 \<le> status then [meth @ '' '' @ url @ '' -> '' @ show_nat status @ '': '' @ message] else [])
   | None \<Rightarrow>
       (\<lparr>hr_status = 500, hr_body = JObj [(''statusCode'', JNum 500), (''path'', JStr url), (''message'', JStr ''Internal server error'')]\<rparr>,
        [meth @ '' '' @ url @ '' -> 500 (unhandled): '' @ raw_message e]))"

section \<open>The guards\<close>

definition no_token :: "string option \<Rightarrow> string" where
  "no_token header = (if \<exists>h. header = Some h \<and> starts_with h ''Bearer '' then ''invalid or expired token'' else ''missing bearer token'')"

lemma dual_db_run: "on_db m (s, w) = (fst (m s), snd (m s), w)"
  by (simp add: on_db_def split: prod.split)

lemma handle_attempt_run:
  "handle_attempt dp header req (s, w) = (case token_claims (dp_verify dp) header of
     None \<Rightarrow> (Inl (Unauthorized (no_token header)), s, w)
   | Some auth \<Rightarrow> (case req of
       RCreate av key \<Rightarrow> ctl_create dp auth av key (s, w)
     | RList \<Rightarrow> ctl_list auth (s, w)
     | ROn i action \<Rightarrow> if isOwnedByCaller (findById i s) (Some (caller_of auth)) then route dp i action (s, w)
         else (Inl (Forbidden ''attempt does not belong to caller''), s, w)))"
  by (simp add: handle_attempt_def bnd_run andthen_def dual_db_run auth_run no_token_def canActivate_def split: option.split attempt_request.split)


section \<open>What an operation on one attempt leaves alone\<close>

text \<open>Everything the database holds about other attempts and about the knowledge of other learners.\<close>

definition aside :: "string \<Rightarrow> string \<Rightarrow> db \<Rightarrow> attempt_row list \<times> event_row list \<times> skill_mastery_row list" where
  "aside i u s = (filter (\<lambda>r. a_id r \<noteq> i) (attempts s), filter (\<lambda>e. e_attempt_id e \<noteq> i) (events s),
     filter (\<lambda>m. sm_user_id m \<noteq> u) (masteries s))"

lemma filter_updated_out: "(\<And>x. p x \<Longrightarrow> \<not> q x \<and> \<not> q (f x)) \<Longrightarrow> filter q (update_where p f xs) = filter q xs"
  by (induction xs) auto

lemma filter_upsert: "(\<And>x. p x \<Longrightarrow> \<not> q x \<and> \<not> q (f x)) \<Longrightarrow> \<not> q new \<Longrightarrow> filter q (upsert p f new xs) = filter q xs"
  by (simp add: upsert_def filter_updated_out)

lemma aside_modify [keeps]:
  "(\<And>s. aside i u (f s) = aside i u s) \<Longrightarrow> preserves (\<lambda>s. aside i u s = v) (modify f)"
  by (simp add: preserves_def)

lemma aside_append [keeps]: "preserves (\<lambda>s. aside i u s = v) (appendTypedEvent i actor ty p t)"
  unfolding appendTypedEvent_def append_event_def by (intro keeps) (simp add: aside_def)

lemma aside_transition [keeps]: "preserves (\<lambda>s. aside i u s = v) (transition i n up now)"
  unfolding transition_def by (intro keeps) (auto simp: aside_def apply_updates_def intro!: filter_updated_out)

lemma aside_touch [keeps]: "preserves (\<lambda>s. aside i u s = v) (touch i now)"
  unfolding touch_def by (intro keeps) (simp add: aside_def filter_updated_out)

lemma aside_find [keeps]: "preserves (\<lambda>s. aside i u s = v) (find_attempt j)"
  unfolding find_attempt_def findOrThrow_def by (intro keeps)

lemma aside_invalid [keeps]: "preserves (\<lambda>s. aside i u s = v) (invalid_state j st ex)"
  by (simp add: preserves_def)

lemma aside_elo: "preserves (\<lambda>s. aside i u s = v) (recordEloMatch u k av oc)"
  unfolding recordEloMatch_def Let_def
  by (intro keeps) (auto simp: aside_def mastery_key_def intro!: filter_updated_out filter_upsert)


lemma aside_evidence: "re_userId inp = u \<Longrightarrow> preserves (\<lambda>s. aside i u s = v) (recordEvidence inp now)"
  unfolding recordEvidence_def Let_def takeFirstOrThrow_def
  by (intro keeps) (auto simp: aside_def mastery_key_def intro!: filter_upsert)

text \<open>The attempt stays its owner's.\<close>

definition mine :: "string \<Rightarrow> string \<Rightarrow> db \<Rightarrow> bool" where
  "mine i u s \<longleftrightarrow> (\<forall>r \<in> set (attempts s). a_id r = i \<longrightarrow> a_user_id r = u)"

lemma mine_modify [keeps]: "(\<And>s. attempts (f s) = attempts s) \<Longrightarrow> preserves (mine i u) (modify f)"
  by (simp add: preserves_def mine_def)

lemma mine_append [keeps]: "preserves (mine i u) (appendTypedEvent j actor ty p t)"
  unfolding appendTypedEvent_def append_event_def by (intro keeps) simp

lemma mine_transition [keeps]: "preserves (mine i u) (transition j n up now)"
  by (auto simp: preserves_def mine_def transition_def set_update_where apply_updates_def bnd_run andthen_def split: option.split)

lemma mine_find [keeps]: "preserves (mine i u) (find_attempt j)"
  unfolding find_attempt_def findOrThrow_def by (intro keeps)

lemma mine_invalid [keeps]: "preserves (mine i u) (invalid_state j st ex)"
  by (simp add: preserves_def)

lemma mine_elo: "preserves (mine i u) (recordEloMatch w k av oc)"
  and mine_evidence: "preserves (mine i u) (recordEvidence inp now)"
  unfolding recordEloMatch_def recordEvidence_def Let_def takeFirstOrThrow_def by (intro keeps; simp)+

definition confined :: "string \<Rightarrow> string \<Rightarrow> attempt_row list \<times> event_row list \<times> skill_mastery_row list \<Rightarrow> db \<Rightarrow> bool" where
  "confined i u v s \<longleftrightarrow> aside i u s = v \<and> mine i u s"

lemma confined_both: "preserves (\<lambda>s. aside i u s = v) m \<Longrightarrow> preserves (mine i u) m \<Longrightarrow> preserves (confined i u v) m"
  by (simp add: preserves_def confined_def)

lemma confined_steps [keeps]:
  "preserves (confined i u v) (appendTypedEvent i actor ty p t)"
  "preserves (confined i u v) (transition i n up now)"
  "preserves (confined i u v) (find_attempt i)"
  "preserves (confined i u v) (invalid_state i st ex)"
  by (intro confined_both keeps | simp add: preserves_def)+

lemma confined_settle:
  assumes "a_id att = i" and "a_user_id att = u"
  shows "preserves (confined i u v) (settle_attempt ex fp rb gr att ver rid now)"
  unfolding assms [symmetric]
  by (intro settle_keeps confined_steps confined_both aside_modify mine_modify aside_elo mine_elo aside_evidence mine_evidence) (simp_all add: aside_def)

lemma confined_evaluate: "preserves (confined i u v) (evaluate ex fp rb gr i rid now)"
proof (rule preservesI, rule evaluate_keeps)
  fix s :: db and att ver assume "confined i u v s" and "findById i s = Some att"
  then have "a_id att = i" "a_user_id att = u" by (auto simp: confined_def findById_def mine_def dest!: find_row_SomeD)
  then show "preserves (confined i u v) (settle_attempt ex fp rb gr att ver rid now)" by (rule confined_settle)
qed

lemma confined_submit: "preserves (confined i u v) (submit sv i rid now)"
  unfolding submit_def by (intro keeps confined_evaluate)

lemma aside_task_state [keeps]: "preserves (\<lambda>s. aside i u s = v) (upsert_task_state j k f)"
  unfolding upsert_task_state_def by (intro keeps) (simp add: aside_def)

lemma aside_taskSpec [keeps]: "preserves (\<lambda>s. aside i u s = v) (getTaskSpec j k)"
  unfolding getTaskSpec_def findOrThrow_def by (intro keeps)

lemma aside_rest: "rest (f s) = rest s \<and> events (f s) = events s \<Longrightarrow> aside i u (f s) = aside i u s"
  using restD [of "f s" s] by (simp add: aside_def)

lemma aside_reactivate: "preserves (\<lambda>s. aside i u s = v) (reactivate i now)"
  unfolding reactivate_def by (intro keeps)

lemma aside_provision: "preserves (\<lambda>s. aside i u s = v) (provision sv i now later)"
  unfolding provision_def provision_begin_def provision_complete_def applyT0Faults_def takeFirstOrThrow_def by (intro keeps)

lemma aside_markStarted: "preserves (\<lambda>s. aside i u s = v) (markStarted i now)"
  unfolding markStarted_def by (intro keeps)

lemma aside_connect: "preserves (\<lambda>s. aside i u s = v) (connect sv i)"
  unfolding connect_def by (intro keeps)

lemma aside_preview: "preserves (\<lambda>s. aside i u s = v) (preview i k)"
  unfolding preview_def by (intro keeps)

lemma aside_artifact: "preserves (\<lambda>s. aside i u s = v) (submit_artifact sha i k c now)"
  unfolding submit_artifact_def findOrThrow_def by (intro keeps) (simp_all add: aside_def)

lemma aside_reveal: "preserves (\<lambda>s. aside i u s = v) (reveal i k now)"
  unfolding reveal_def by (intro keeps) (simp add: aside_def filter_updated_out)

lemma aside_fallback: "preserves (\<lambda>s. aside i u s = v) (guidedFallback i k now)"
  unfolding guidedFallback_def Let_def findOrThrow_def by (intro keeps) (simp add: aside_def filter_updated_out)

lemma aside_check: "preserves (\<lambda>s. aside i u s = v) (checkWork sv i rid now)"
proof -
  have "preserves (\<lambda>s. aside i u s = v) (rebuildForAttempt i)"
  proof (rule rebuild_keeps, rule aside_modify)
    fix f :: "db \<Rightarrow> db" and s
    assume *: "\<And>s. rest ((f s)\<lparr>task_states := []\<rparr>) = rest (s\<lparr>task_states := []\<rparr>) \<and> events (f s) = events s"
    then have "rest ((f s)\<lparr>task_states := []\<rparr>) = rest (s\<lparr>task_states := []\<rparr>)" "events (f s) = events s" by blast+
    then show "aside i u (f s) = aside i u s" by (simp add: aside_def rest_tsD [of "f s" s])
  qed
  then show ?thesis
    unfolding checkWork_def findOrThrow_def by (intro keeps run_validation_keeps) (use aside_rest in blast)+
qed

section \<open>Requests\<close>

lemma frames_bnd: "frames obs m \<Longrightarrow> (\<And>x. frames obs (f x)) \<Longrightarrow> frames obs (bnd m f)"
  unfolding frames_iff_preserves by (intro allI preserves_bnd) blast+

lemma frames_simple: "frames obs (ret x)" "frames obs (throw e)" "frames obs (call c)"
  by (simp_all add: frames_def)

lemma frames_exec: "frames fst (exec_in sh i e cmd)"
  by (auto simp: frames_def exec_in_def on_world_def split: prod.split)

lemma frames_environment: "frames fst (on_db (environmentIdFor i))"
  by (auto simp: frames_def on_db_def environmentIdFor_def findOrThrow_def bnd_run split: option.split list.split)

lemma frames_files:
  "frames fst (list_files sh i d)" "frames fst (read_file sh i p)" "frames fst (write_file sh i p c)"
  unfolding list_files_def read_file_def write_file_def
  by (intro frames_bnd frames_environment frames_exec frames_simple, simp add: frames_def)+

lemma answer_run: "fst (snd (answer f m (s, w))) = snd (m s)"
  by (simp add: answer_def bnd_run dual_db_run split: sum.split)

lemma route_aside:
  assumes "mine i u s"
  shows "aside i u (fst (snd (route dp i action (s, w)))) = aside i u s"
proof -
  have keep: "aside i u (snd (m s)) = aside i u s" if "\<And>v. preserves (\<lambda>s. aside i u s = v) m" for m :: "'b prog"
    using that [of "aside i u s"] by (simp add: preserves_def)
  have touched: "aside i u (snd (touch i now t)) = aside i u t" for now t
    using aside_touch [of i u "aside i u t" now] by (simp add: preserves_def)
  have same: "fst (snd (bnd m (\<lambda>x. ret (f x)) (s, w))) = s" if "frames fst m" for m :: "('a, 'b) dual" and f :: "'b \<Rightarrow> attempt_response"
    using frames_bnd [OF that frames_simple(1)] by (auto simp: frames_def)
  show ?thesis
  proof (cases action)
    case AProvision
    then show ?thesis by (simp add: ctl_provision_def answer_run keep aside_reactivate aside_provision preserves_andthen)
  next
    case ASubmit
    have "confined i u (aside i u s) (snd (submit sv i rid now s))" for sv rid now
      using confined_submit [of i u "aside i u s" sv rid now] assms by (simp add: preserves_def confined_def)
    then show ?thesis using ASubmit by (simp add: answer_run confined_def)
  next
    case AConnect
    then show ?thesis by (simp add: ctl_connect_def answer_run keep aside_touch aside_connect preserves_andthen)
  next
    case (AWriteFile path content)
    obtain r s' w' where run: "write_file (dp_shell dp) i path content (s, w) = (r, s', w')" by (metis prod.exhaust)
    then have "s' = s" using framesD [OF frames_files(3)] by fastforce
    then show ?thesis using AWriteFile run touched
      by (cases r) (simp_all add: ctl_writeFile_def andthen_def bnd_run dual_db_run touch_def)
  qed (simp_all add: answer_run keep aside_markStarted aside_check aside_preview aside_reveal aside_fallback aside_artifact
         same frames_files)
qed

lemma create_user:
  assumes "create inp i now s = (Inr r, t)"
  shows "a_user_id r = ci_userId inp" "t = s \<and> r \<in> set (attempts s) \<or>
    t = s\<lparr>attempts := attempts s @ [r]\<rparr> \<and> a_id r = i \<and> findById i s = None"
proof -
  have "a_user_id r = ci_userId inp \<and> r \<in> set (attempts s) \<and> t = s \<or> insert_attempt (new_attempt inp i now) s = (Inr r, t)"
    using assms by (auto simp: create_def dest!: find_row_SomeD split: option.splits)
  then show "a_user_id r = ci_userId inp" "t = s \<and> r \<in> set (attempts s) \<or>
      t = s\<lparr>attempts := attempts s @ [r]\<rparr> \<and> a_id r = i \<and> findById i s = None"
    by (auto simp: insert_attempt_run list_ex_iff findById_def find_row_None_iff new_attempt_def split: if_splits)
qed

lemma create_err: "create inp i now s = (Inl e, t) \<Longrightarrow> t = s"
  by (auto elim!: create_cases)

lemma distinct_ids: "attempts_ok s \<Longrightarrow> a \<in> set (attempts s) \<Longrightarrow> b \<in> set (attempts s) \<Longrightarrow> a_id a = a_id b \<Longrightarrow> a = b"
  unfolding attempts_ok_def by (metis distinct_map inj_onD)

lemma unused_id: "\<exists>i. \<forall>a \<in> set (attempts s). a_id a \<noteq> i"
proof -
  have "\<exists>i. i \<notin> a_id ` set (attempts s)" by (rule ex_new_if_finite [OF infinite_UNIV_listI]) simp
  then obtain i where "i \<notin> a_id ` set (attempts s)" ..
  then show ?thesis by (intro exI [of _ i]) auto
qed

lemma create_aside:
  assumes ok: "attempts_ok s"
  shows "\<exists>i. (\<forall>a \<in> set (attempts s). a_user_id a \<noteq> cx_userId inp \<longrightarrow> a_id a \<noteq> i) \<and>
    aside i (cx_userId inp) (snd (createAttempt sv inp n now s)) = aside i (cx_userId inp) s"
proof (cases "\<exists>version r t. find_row (\<lambda>v. v_id v = cx_activityVersionId inp) (versions s) = Some version \<and>
    el_eligible (check (sv_quotaDisabled sv) (cx_userId inp) (cx_activityVersionId inp) now s) \<and>
    create (create_input_of inp version (findMostRecentCompletedAttempt (cx_userId inp) (v_activity_id version) s)) n now s = (Inr r, t)")
  case False
  have "snd (createAttempt sv inp n now s) = s"
    using False by (auto simp: createAttempt_run Let_def dest: create_err split: option.split prod.split sum.split)
  then show ?thesis using unused_id [of s] by auto
next
  case True
  then obtain version r t where found: "find_row (\<lambda>v. v_id v = cx_activityVersionId inp) (versions s) = Some version"
      "el_eligible (check (sv_quotaDisabled sv) (cx_userId inp) (cx_activityVersionId inp) now s)"
    and run: "create (create_input_of inp version (findMostRecentCompletedAttempt (cx_userId inp) (v_activity_id version) s)) n now s = (Inr r, t)"
    by blast
  have user: "a_user_id r = cx_userId inp" using create_user(1) [OF run] by (simp add: create_input_of_def)
  have "a_id a \<noteq> a_id r" if "a \<in> set (attempts s)" "a_user_id a \<noteq> cx_userId inp" for a
    using create_user(2) [OF run] that user distinct_ids [OF ok] by (auto simp: findById_def find_row_None_iff)
  moreover have "aside (a_id r) (cx_userId inp) t = aside (a_id r) (cx_userId inp) s"
    using create_user(2) [OF run] by (auto simp: aside_def)
  then have "aside (a_id r) (cx_userId inp) (snd (createAttempt sv inp n now s)) = aside (a_id r) (cx_userId inp) s"
    using found run by (simp add: createAttempt_run) (simp add: aside_def logged_def new_event_def)
  ultimately show ?thesis by blast
qed

lemma asideD:
  assumes "aside i u s' = aside i u s" and "a \<in> set (attempts s)" and "a_id a \<noteq> i"
  shows "a \<in> set (attempts s')" and "of_attempt (a_id a) (events s') = of_attempt (a_id a) (events s)"
    and "filter (\<lambda>m. sm_user_id m \<noteq> u) (masteries s') = filter (\<lambda>m. sm_user_id m \<noteq> u) (masteries s)"
proof -
  have "a \<in> set (filter (\<lambda>r. a_id r \<noteq> i) (attempts s'))" using assms by (simp add: aside_def)
  then show "a \<in> set (attempts s')" by simp
  have "of_attempt (a_id a) es = filter (\<lambda>e. e_attempt_id e = a_id a) (filter (\<lambda>e. e_attempt_id e \<noteq> i) es)" for es
    using assms(3) by (auto simp: of_attempt_def intro!: filter_cong)
  then show "of_attempt (a_id a) (events s') = of_attempt (a_id a) (events s)" using assms(1) unfolding aside_def by (metis prod.inject)
qed (use assms(1) in \<open>simp add: aside_def\<close>)

lemma handled_aside:
  assumes ok: "attempts_ok s" and auth: "token_claims (dp_verify dp) header = Some auth"
    and run: "handle_attempt dp header req (s, w) = (r, s', w')"
  shows "\<exists>i. (\<forall>a \<in> set (attempts s). a_user_id a \<noteq> cm_userId auth \<longrightarrow> a_id a \<noteq> i) \<and> aside i (cm_userId auth) s' = aside i (cm_userId auth) s"
proof -
  have fresh: "\<exists>i. \<forall>a \<in> set (attempts s). a_user_id a \<noteq> cm_userId auth \<longrightarrow> a_id a \<noteq> i"
    using unused_id [of s] by blast
  show ?thesis
  proof (cases req)
    case (RCreate av key)
    then have "s' = fst (snd (ctl_create dp auth av key (s, w)))" using run auth by (simp add: handle_attempt_run)
    then show ?thesis
      using create_aside [OF ok, of "\<lparr>cx_tenantId = cm_tenantId auth, cx_userId = cm_userId auth, cx_activityVersionId = av, cx_idempotencyKey = key\<rparr>"
          "dp_services dp" "dp_newId dp" "dp_now dp"]
      by (simp add: ctl_create_def answer_run)
  next
    case RList
    then have "s' = s" using run auth by (simp add: handle_attempt_run ctl_list_def answer_def bnd_run dual_db_run)
    then show ?thesis using fresh by simp
  next
    case (ROn i action)
    show ?thesis
    proof (cases "isOwnedByCaller (findById i s) (Some (caller_of auth))")
      case False
      then have "s' = s" using ROn run auth by (simp add: handle_attempt_run)
      then show ?thesis using fresh by simp
    next
      case True
      then obtain r where r: "findById i s = Some r" "a_user_id r = cm_userId auth"
        by (auto simp: isOwnedByCaller_def caller_of_def split: option.splits)
      then have "r \<in> set (attempts s)" "a_id r = i" by (auto simp: findById_def dest: find_row_SomeD)
      with r(2) have own: "\<forall>a \<in> set (attempts s). a_user_id a \<noteq> cm_userId auth \<longrightarrow> a_id a \<noteq> i" and "mine i (cm_userId auth) s"
        using distinct_ids [OF ok] by (auto simp: mine_def)
      moreover have "s' = fst (snd (route dp i action (s, w)))" using ROn True run auth by (simp add: handle_attempt_run)
      ultimately show ?thesis using route_aside [of i "cm_userId auth" s dp action w] by blast
    qed
  qed
qed

section \<open>Properties\<close>

text \<open>C8. Learners are isolated from each other: whatever a request with a valid token asks for, every attempt of
  another learner is still there unchanged, its event log is the same, and so is the recorded knowledge of every other
  learner.\<close>

theorem learners_isolated:
  assumes "attempts_ok s" and "token_claims (dp_verify dp) header = Some auth"
    and "handle_attempt dp header req (s, w) = (r, s', w')"
    and "a \<in> set (attempts s)" and "a_user_id a \<noteq> cm_userId auth"
  shows "a \<in> set (attempts s') \<and> of_attempt (a_id a) (events s') = of_attempt (a_id a) (events s) \<and>
    filter (\<lambda>m. sm_user_id m \<noteq> cm_userId auth) (masteries s') = filter (\<lambda>m. sm_user_id m \<noteq> cm_userId auth) (masteries s)"
proof -
  obtain i where "a_id a \<noteq> i" "aside i (cm_userId auth) s' = aside i (cm_userId auth) s"
    using handled_aside [OF assms(1-3)] assms(4,5) by blast
  then show ?thesis using asideD assms(4) by blast
qed

definition demo_learner :: "string \<Rightarrow> string \<Rightarrow> attempt_row" where
  "demo_learner i u = (new_attempt \<lparr>ci_tenantId = ''t'', ci_userId = u, ci_activityId = ''act'', ci_activityVersionId = ''av'',
     ci_mode = ''GUIDED_LAB'', ci_idempotencyKey = None, ci_retryOfAttemptId = None, ci_retryIndex = None\<rparr> i 0)\<lparr>a_status := READY\<rparr>"

definition demo_two :: db where
  "demo_two = empty_db\<lparr>attempts := [demo_learner ''a'' ''u'', demo_learner ''b'' ''v'']\<rparr>"

definition demo_deployment :: "unit deployment" where
  "demo_deployment = \<lparr>dp_services = demo_services,
     dp_verify = (\<lambda>_. Some \<lparr>jw_userId = Some ''u'', jw_tenantId = Some ''t'', jw_role = Some ''learner''\<rparr>),
     dp_sha256 = (\<lambda>x. x), dp_shell = (\<lambda>_ w. (Inl (RemoteErr ''down''), w)), dp_newId = ''n'', dp_now = 5, dp_later = 6\<rparr>"

definition demo_claims :: auth_claims where
  "demo_claims = \<lparr>cm_userId = ''u'', cm_tenantId = ''t'', cm_role = ROLE_LEARNER\<rparr>"

lemma demo_learner_token: "token_claims (dp_verify demo_deployment) (Some ''Bearer x'') = Some demo_claims"
  by (simp add: token_claims_def demo_deployment_def demo_claims_def Prelude.truthy_def isRole_def ROLE_VALUES_def)

theorem learners_isolated_witness:
  "\<exists>r s'. handle_attempt demo_deployment (Some ''Bearer x'') (ROn ''a'' AStart) (demo_two, ()) = (Inr r, s', ()) \<and>
     demo_learner ''b'' ''v'' \<in> set (attempts s')"
proof -
  have ok: "attempts_ok demo_two" by (simp add: attempts_ok_def demo_two_def demo_learner_def new_attempt_def idem_of_def)
  have "\<exists>r s'. handle_attempt demo_deployment (Some ''Bearer x'') (ROn ''a'' AStart) (demo_two, ()) = (Inr r, s', ())"
    by (simp add: handle_attempt_run demo_learner_token) (simp add: isOwnedByCaller_def caller_of_def demo_claims_def demo_two_def demo_learner_def new_attempt_def
        findById_def answer_def bnd_run dual_db_run markStarted_def andthen_def transition_def empty_db_def)
  then obtain r s' where run: "handle_attempt demo_deployment (Some ''Bearer x'') (ROn ''a'' AStart) (demo_two, ()) = (Inr r, s', ())" by blast
  have "demo_learner ''b'' ''v'' \<in> set (attempts s')"
    using learners_isolated [OF ok demo_learner_token run, of "demo_learner ''b'' ''v''"]
    by (simp add: demo_two_def demo_learner_def new_attempt_def demo_claims_def)
  with run show ?thesis by blast
qed

text \<open>Property. A request that names an attempt the caller does not own, or no attempt at all, is refused before anything
  happens: the answer is 403 whether or not the attempt exists, the database is unchanged and no command reaches an
  environment.\<close>

theorem foreign_attempt_refused:
  assumes "token_claims (dp_verify dp) header = Some auth"
    and "\<forall>a. findById i s = Some a \<longrightarrow> \<not> (a_user_id a = cm_userId auth \<and> a_tenant_id a = cm_tenantId auth)"
  shows "handle_attempt dp header (ROn i action) (s, w) = (Inl (Forbidden ''attempt does not belong to caller''), s, w)"
  using assms by (auto simp: handle_attempt_run isOwnedByCaller_def caller_of_def split: option.splits)

theorem foreign_attempt_refused_witness:
  "handle_attempt demo_deployment (Some ''Bearer x'') (ROn ''b'' (AReadFile ''notes'')) (demo_two, ()) =
     (Inl (Forbidden ''attempt does not belong to caller''), demo_two, ())"
  by (rule foreign_attempt_refused [OF demo_learner_token])
     (simp add: demo_two_def demo_learner_def new_attempt_def demo_claims_def findById_def)


end
