(* ===== verification/GrpcClients.thy ===== *)
theory GrpcClients
  imports WorkspaceFiles AttemptService ProjectService
begin

text \<open>
  The clients of the Environment Orchestrator: \<open>common/base-grpc-client.ts\<close> (credentials, token, deadline, error wrapping),
  \<open>attempt/grpc-orchestrator.client.ts\<close>, \<open>project/grpc-project-orchestrator.ts\<close>, and the in-memory
  \<open>attempt/fake-orchestrator.client.ts\<close> and \<open>project/fake-project-orchestrator.ts\<close>. The gRPC library is a
  parameter: a \<open>'w transport\<close> sends one message and acts on a world of any type. Messages are JSON values; an absent
  field has its protobuf default, as the loader's option \<open>defaults\<close> makes it.
\<close>

section \<open>Model: base-grpc-client.ts\<close>

datatype channel_credentials = Insecure | Ssl string string string

text \<open>\<open>config\<close> reads an environment variable, \<open>readFileSync\<close> a file or the message of its error. \<open>Ssl\<close> holds the contents of
  the certificate authority, the key and the certificate, in the order of \<open>createSsl\<close>.\<close>

definition buildChannelCredentials :: "(string \<Rightarrow> string option) \<Rightarrow> (string \<Rightarrow> string + string) \<Rightarrow> exn + channel_credentials" where
  "buildChannelCredentials config readFileSync =
     (if \<not> Prelude.truthy (config ''ORCHESTRATOR_TLS_CA'') then Inr Insecure
      else if \<not> Prelude.truthy (config ''ORCHESTRATOR_CLIENT_TLS_CERT'') \<or> \<not> Prelude.truthy (config ''ORCHESTRATOR_CLIENT_TLS_KEY'')
      then Inl (Err ''ORCHESTRATOR_TLS_CA is set but ORCHESTRATOR_CLIENT_TLS_CERT/_KEY are not -- mTLS requires all three, refusing to fall back to plaintext or one-way TLS'')
      else
        let unreadable = (\<lambda>m. Inl (Err (''mTLS is configured (ORCHESTRATOR_TLS_CA is set) but a cert file could not be read: '' @ m))) in
        case readFileSync (the (config ''ORCHESTRATOR_TLS_CA'')) of Inl m \<Rightarrow> unreadable m | Inr ca \<Rightarrow>
        (case readFileSync (the (config ''ORCHESTRATOR_CLIENT_TLS_CERT'')) of Inl m \<Rightarrow> unreadable m | Inr cert \<Rightarrow>
        (case readFileSync (the (config ''ORCHESTRATOR_CLIENT_TLS_KEY'')) of Inl m \<Rightarrow> unreadable m | Inr key \<Rightarrow>
         Inr (Ssl ca key cert))))"

record grpc_client =
  gl_address :: string
  gl_credentials :: channel_credentials
  gl_sharedSecret :: "string option"

definition onModuleInit :: "(string \<Rightarrow> string option) \<Rightarrow> (string \<Rightarrow> string + string) \<Rightarrow> exn + grpc_client" where
  "onModuleInit config readFileSync =
     (case buildChannelCredentials config readFileSync of
        Inl e \<Rightarrow> Inl e
      | Inr c \<Rightarrow> Inr \<lparr>gl_address = (case config ''ORCHESTRATOR_GRPC_ADDRESS'' of None \<Rightarrow> ''localhost:50051'' | Some a \<Rightarrow> a),
          gl_credentials = c, gl_sharedSecret = config ''ORCHESTRATOR_SHARED_SECRET''\<rparr>)"

text \<open>One message on the wire, and the error of the gRPC library.\<close>

record grpc_message =
  gm_address :: string
  gm_credentials :: channel_credentials
  gm_method :: string
  gm_request :: json
  gm_metadata :: "(string \<times> string) list"
  gm_deadlineMs :: nat

record service_error =
  se_code :: nat
  se_message :: string

type_synonym 'w transport = "grpc_message \<Rightarrow> ('w, exn, service_error + json) io"

definition DEFAULT_DEADLINE_MS :: nat where
  "DEFAULT_DEADLINE_MS = 30000"

definition grpc_message_of :: "grpc_client \<Rightarrow> string \<Rightarrow> json \<Rightarrow> nat \<Rightarrow> grpc_message" where
  "grpc_message_of client meth request deadlineMs =
     \<lparr>gm_address = gl_address client, gm_credentials = gl_credentials client, gm_method = meth, gm_request = request,
      gm_metadata = (if Prelude.truthy (gl_sharedSecret client) then [(''authorization'', ''Bearer '' @ the (gl_sharedSecret client))] else []),
      gm_deadlineMs = deadlineMs\<rparr>"

definition grpc_call :: "'w transport \<Rightarrow> grpc_client \<Rightarrow> string \<Rightarrow> json \<Rightarrow> nat \<Rightarrow> ('w, exn, json) io" where
  "grpc_call tp client meth request deadlineMs =
     bnd (tp (grpc_message_of client meth request deadlineMs)) (\<lambda>answer. case answer of
        Inl err \<Rightarrow> throw (Err (''gRPC '' @ meth @ '' failed: '' @ show_nat (se_code err) @ '' '' @ se_message err))
      | Inr response \<Rightarrow> ret response)"

section \<open>Model: grpc-orchestrator.client.ts\<close>

definition str_field :: "string \<Rightarrow> json \<Rightarrow> string" where
  "str_field k r = (case jget r k of Some (JStr x) \<Rightarrow> x | _ \<Rightarrow> [])"

definition bool_field :: "string \<Rightarrow> json \<Rightarrow> bool" where
  "bool_field k r = (case jget r k of Some (JBool b) \<Rightarrow> b | _ \<Rightarrow> False)"

definition int_field :: "string \<Rightarrow> json \<Rightarrow> int" where
  "int_field k r = (case jget r k of Some (JNum n) \<Rightarrow> \<lfloor>n\<rfloor> | _ \<Rightarrow> 0)"

fun TIER_MAP :: "env_tier \<Rightarrow> string" where
  "TIER_MAP T0_BROWSER = ''TIER_T0_BROWSER''"
| "TIER_MAP T1_SHARED_CONTAINER = ''TIER_T1_SHARED_CONTAINER''"
| "TIER_MAP T2_ISOLATED_MICROVM = ''TIER_T2_ISOLATED_MICROVM''"
| "TIER_MAP T3_CLOUD_ACCOUNT = ''TIER_T3_CLOUD_ACCOUNT''"

definition statusMap :: "(string \<times> provision_status) list" where
  "statusMap = [(''ENVIRONMENT_STATUS_PROVISIONING'', ENV_PROVISIONING), (''ENVIRONMENT_STATUS_READY'', ENV_READY),
     (''ENVIRONMENT_STATUS_PROVISION_FAILED'', ENV_PROVISION_FAILED)]"

text \<open>\<open>stringify\<close> is \<open>JSON.stringify\<close>, applied to the health gate by the caller.\<close>

definition provision_message :: "(json \<Rightarrow> string) \<Rightarrow> provision_request \<Rightarrow> json" where
  "provision_message stringify req = JObj
     [(''attemptId'', JStr (rq_attemptId req)), (''blueprintId'', JStr (rq_blueprintId req)),
      (''blueprintVersion'', JStr (rq_blueprintVersion req)), (''tier'', JStr (TIER_MAP (rq_tier req))),
      (''ttlMinutes'', JNum (real (rq_ttlMinutes req))), (''idleTimeoutMinutes'', JNum (real (rq_idleTimeoutMinutes req))),
      (''fixtures'', JArr (map (\<lambda>f. JObj [(''fixtureId'', JStr (fx_fixtureId f)), (''version'', JStr (fx_version f))]) (rq_fixtures req))),
      (''healthGateJson'', JStr (case rq_healthGate req of None \<Rightarrow> [] | Some g \<Rightarrow> stringify (JArr g)))]"

definition grpc_provision :: "(json \<Rightarrow> string) \<Rightarrow> 'w transport \<Rightarrow> grpc_client \<Rightarrow> provision_request \<Rightarrow> ('w, exn, provision_result) io" where
  "grpc_provision stringify tp client req =
     bnd (grpc_call tp client ''Provision'' (provision_message stringify req) 60000) (\<lambda>response.
     ret \<lparr>pr_environmentId = str_field ''environmentId'' response,
          pr_status = (case map_of statusMap (str_field ''status'' response) of None \<Rightarrow> ENV_PROVISION_FAILED | Some st \<Rightarrow> st)\<rparr>)"

definition grpc_destroy :: "'w transport \<Rightarrow> grpc_client \<Rightarrow> string \<Rightarrow> string \<Rightarrow> string \<Rightarrow> ('w, exn, bool) io" where
  "grpc_destroy tp client environmentId why attemptId =
     bnd (grpc_call tp client ''Destroy'' (JObj [(''environmentId'', JStr environmentId), (''reason'', JStr why), (''attemptId'', JStr attemptId)])
        DEFAULT_DEADLINE_MS) (\<lambda>response.
     ret (bool_field ''alreadyDestroyed'' response))"

definition grpc_connect :: "'w transport \<Rightarrow> grpc_client \<Rightarrow> string \<Rightarrow> string \<Rightarrow> ('w, exn, connect_result) io" where
  "grpc_connect tp client environmentId attemptId =
     bnd (grpc_call tp client ''Connect'' (JObj [(''environmentId'', JStr environmentId), (''attemptId'', JStr attemptId)])
        DEFAULT_DEADLINE_MS) (\<lambda>response.
     ret \<lparr>cn_terminalWsUrl = str_field ''terminalWsUrl'' response, cn_sessionToken = str_field ''sessionToken'' response\<rparr>)"

definition grpc_injectFault :: "'w transport \<Rightarrow> grpc_client \<Rightarrow> inject_fault_request \<Rightarrow> ('w, exn, inject_fault_result) io" where
  "grpc_injectFault tp client req =
     try_catch
       (bnd (grpc_call tp client ''InjectFault'' (JObj [(''environmentId'', JStr (if_environmentId req)), (''faultId'', JStr (if_faultId req)),
           (''params'', JObj (map (\<lambda>(k, v). (k, JStr v)) (if_params req))), (''attemptId'', JStr (if_attemptId req))])
           DEFAULT_DEADLINE_MS) (\<lambda>response.
        ret \<lparr>ir_applied = bool_field ''applied'' response, ir_symptomVerified = bool_field ''symptomVerified'' response\<rparr>))
       (\<lambda>_. ret \<lparr>ir_applied = False, ir_symptomVerified = False\<rparr>)"

definition grpc_execShell :: "'w transport \<Rightarrow> grpc_client \<Rightarrow> 'w exec_shell" where
  "grpc_execShell tp client req =
     bnd (grpc_call tp client ''ExecShell'' (JObj [(''environmentId'', JStr (xc_environmentId req)), (''command'', JStr (xc_command req)),
           (''timeoutMs'', JNum (case xc_timeoutMs req of None \<Rightarrow> 0 | Some t \<Rightarrow> real t)), (''attemptId'', JStr (xc_attemptId req))])
        ((case xc_timeoutMs req of None \<Rightarrow> DEFAULT_DEADLINE_MS | Some t \<Rightarrow> t) + 5000)) (\<lambda>response.
     ret \<lparr>xr_exitCode = int_field ''exitCode'' response, xr_stdout = str_field ''stdout'' response, xr_stderr = str_field ''stderr'' response,
          xr_errorMessage = (let m = str_field ''errorMessage'' response in if m = [] then None else Some m)\<rparr>)"

text \<open>The client as the attempt service sees it: its answers in a given state of the world.\<close>

definition grpc_orchestrator :: "(json \<Rightarrow> string) \<Rightarrow> 'w transport \<Rightarrow> grpc_client \<Rightarrow> 'w \<Rightarrow> orchestrator" where
  "grpc_orchestrator stringify tp client w = \<lparr>
     o_provision = (\<lambda>req. fst (grpc_provision stringify tp client req w)),
     o_destroy = (\<lambda>env why a. fst (grpc_destroy tp client env why a w)),
     o_connect = (\<lambda>env a. fst (grpc_connect tp client env a w)),
     o_injectFault = (\<lambda>req. fst (grpc_injectFault tp client req w))\<rparr>"

section \<open>Model: grpc-project-orchestrator.ts\<close>

datatype project_env_status = PE_PROVISIONING | PE_READY | PE_FAILED

record project_env_handle =
  ph_environmentId :: string
  ph_status :: project_env_status
  ph_editorUrl :: "string option"
  ph_terminalWsUrl :: "string option"

record project_snapshot_handle =
  ps_snapshotId :: string
  ps_capturedAt :: string

definition mapStatus :: "string option \<Rightarrow> project_env_status" where
  "mapStatus st =
     (if st = Some ''ENVIRONMENT_STATUS_READY'' then PE_READY
      else if st = Some ''ENVIRONMENT_STATUS_PROVISION_FAILED'' then PE_FAILED else PE_PROVISIONING)"

definition opt_str :: "string \<Rightarrow> json \<Rightarrow> string option" where
  "opt_str k r = (case jget r k of Some (JStr x) \<Rightarrow> Some x | _ \<Rightarrow> None)"

definition handle_of :: "json \<Rightarrow> project_env_handle" where
  "handle_of res = (let endpoints = (case jget res ''endpoints'' of Some e \<Rightarrow> e | None \<Rightarrow> JObj []) in
     \<lparr>ph_environmentId = str_field ''environmentId'' res, ph_status = mapStatus (opt_str ''status'' res),
      ph_editorUrl = opt_str ''editorUrl'' endpoints, ph_terminalWsUrl = opt_str ''terminalWsUrl'' endpoints\<rparr>)"

text \<open>The region and budget of a request, or of the environment variables; \<open>toNumber\<close> and \<open>showNumber\<close> are JavaScript's
  conversions, \<open>None\<close> standing for a number that is not finite.\<close>

definition t3_hints :: "(string \<Rightarrow> string option) \<Rightarrow> (string \<Rightarrow> real option) \<Rightarrow> (real \<Rightarrow> string) \<Rightarrow> string option \<Rightarrow> real option \<Rightarrow> string list" where
  "t3_hints config toNumber showNumber region budgetUsd =
     (let r = (case region of Some x \<Rightarrow> x | None \<Rightarrow> (case config ''T3_DEFAULT_REGION'' of Some x \<Rightarrow> x | None \<Rightarrow> []));
          b = (case budgetUsd of Some x \<Rightarrow> Some x | None \<Rightarrow> toNumber (case config ''T3_DEFAULT_BUDGET_USD'' of Some x \<Rightarrow> x | None \<Rightarrow> ''0''))
      in (if r = [] then [] else [''region='' @ r]) @
         (case b of Some x \<Rightarrow> if x > 0 then [''budget='' @ showNumber x] else [] | None \<Rightarrow> []))"

definition provisionForMilestone :: "'w transport \<Rightarrow> grpc_client \<Rightarrow> string list \<Rightarrow> string \<Rightarrow> ('w, exn, project_env_handle) io" where
  "provisionForMilestone tp client hints attemptId =
     bnd (grpc_call tp client ''Provision'' (JObj [(''attemptId'', JStr attemptId), (''tier'', JStr ''TIER_T3_CLOUD_ACCOUNT''),
        (''blueprintId'', JStr ''bp.project.default''), (''blueprintVersion'', JStr ''v1''), (''networkPolicy'', JStr (join '';'' hints))]) 120000)
     (\<lambda>res. ret (handle_of res))"

definition snapshotAndSuspend :: "'w transport \<Rightarrow> grpc_client \<Rightarrow> string \<Rightarrow> string \<Rightarrow> string \<Rightarrow> ('w, exn, project_snapshot_handle) io" where
  "snapshotAndSuspend tp client nowIso attemptId environmentId =
     bnd (grpc_call tp client ''Snapshot'' (JObj [(''environmentId'', JStr environmentId), (''attemptId'', JStr attemptId)]) 120000) (\<lambda>res.
     ret \<lparr>ps_snapshotId = str_field ''snapshotId'' res,
          ps_capturedAt = (case Option.bind (jget res ''manifest'') (opt_str ''capturedAt'') of Some t \<Rightarrow> t | None \<Rightarrow> nowIso)\<rparr>)"

definition grpc_restore :: "'w transport \<Rightarrow> grpc_client \<Rightarrow> string \<Rightarrow> string \<Rightarrow> ('w, exn, project_env_handle) io" where
  "grpc_restore tp client attemptId snapshotId =
     bnd (grpc_call tp client ''Restore'' (JObj [(''snapshotId'', JStr snapshotId), (''attemptId'', JStr attemptId)]) 120000) (\<lambda>res. ret (handle_of res))"

definition project_destroy :: "'w transport \<Rightarrow> grpc_client \<Rightarrow> string \<Rightarrow> string \<Rightarrow> ('w, exn, bool) io" where
  "project_destroy tp client attemptId environmentId =
     bnd (grpc_call tp client ''Destroy'' (JObj [(''environmentId'', JStr environmentId), (''attemptId'', JStr attemptId), (''reason'', JStr ''submit'')]) 60000)
     (\<lambda>res. ret (bool_field ''alreadyDestroyed'' res))"

text \<open>The client as the project service sees it: of the handle it reads the environment only.\<close>

definition grpc_project_orchestrator :: "'w transport \<Rightarrow> grpc_client \<Rightarrow> string list \<Rightarrow> string \<Rightarrow> 'w \<Rightarrow> project_orchestrator" where
  "grpc_project_orchestrator tp client hints nowIso w = \<lparr>
     po_provisionForMilestone = (\<lambda>a k. map_sum id ph_environmentId (fst (provisionForMilestone tp client hints a w))),
     po_snapshotAndSuspend = (\<lambda>a env. map_sum id (\<lambda>_. ()) (fst (snapshotAndSuspend tp client nowIso a env w)))\<rparr>"

section \<open>Model: the fakes\<close>

text \<open>\<open>FakeOrchestratorClient\<close>: \<open>overrides\<close> are the outcomes set by \<open>setFaultOverride\<close>, \<open>uuid\<close> the identifiers it draws.\<close>

definition fake_orchestrator :: "(string \<rightharpoonup> inject_fault_result) \<Rightarrow> string \<Rightarrow> orchestrator" where
  "fake_orchestrator overrides uuid = \<lparr>
     o_provision = (\<lambda>req. Inr \<lparr>pr_environmentId = ''fake-env-'' @ uuid, pr_status = ENV_READY\<rparr>),
     o_destroy = (\<lambda>env why a. Inr False),
     o_connect = (\<lambda>env a. Inr \<lparr>cn_terminalWsUrl = ''ws://fake-gateway.invalid/v1/env/'' @ env @ ''/terminal?session=fake-'' @ uuid,
        cn_sessionToken = ''fake-'' @ uuid\<rparr>),
     o_injectFault = (\<lambda>req. Inr (case overrides (if_faultId req) of None \<Rightarrow> \<lparr>ir_applied = True, ir_symptomVerified = True\<rparr> | Some r \<Rightarrow> r))\<rparr>"

definition fake_execShell :: "'w exec_shell" where
  "fake_execShell req = ret \<lparr>xr_exitCode = 1, xr_stdout = [], xr_stderr = ''fake orchestrator: no filesystem backing this environment'', xr_errorMessage = None\<rparr>"

text \<open>\<open>FakeProjectOrchestrator\<close>: its two maps, and one function per method; \<open>uuid\<close> is the identifier it draws.\<close>

record fake_project =
  fp_envs :: "string \<rightharpoonup> project_env_handle"
  fp_snapshots :: "string \<rightharpoonup> string"

definition fake_handle :: "string \<Rightarrow> project_env_handle" where
  "fake_handle environmentId = \<lparr>ph_environmentId = environmentId, ph_status = PE_READY,
     ph_editorUrl = Some (''https://fake-openvscode/'' @ environmentId),
     ph_terminalWsUrl = Some (''wss://fake-openvscode/'' @ environmentId @ ''/terminal'')\<rparr>"

definition fake_provisionForMilestone :: "string \<Rightarrow> (fake_project, exn, project_env_handle) io" where
  "fake_provisionForMilestone uuid =
     (let environmentId = ''fake-t3-'' @ uuid; handle = fake_handle environmentId in
      andthen (modify (\<lambda>f. f\<lparr>fp_envs := (fp_envs f)(environmentId \<mapsto> handle)\<rparr>)) (ret handle))"

definition fake_snapshotAndSuspend :: "string \<Rightarrow> string \<Rightarrow> string \<Rightarrow> (fake_project, exn, project_snapshot_handle) io" where
  "fake_snapshotAndSuspend uuid nowIso environmentId =
     (let snapshotId = ''fake-snap-'' @ uuid in
      andthen (modify (\<lambda>f. f\<lparr>fp_snapshots := (fp_snapshots f)(snapshotId \<mapsto> environmentId), fp_envs := (fp_envs f)(environmentId := None)\<rparr>))
      (ret \<lparr>ps_snapshotId = snapshotId, ps_capturedAt = nowIso\<rparr>))"

definition fake_restore :: "string \<Rightarrow> string \<Rightarrow> (fake_project, exn, project_env_handle) io" where
  "fake_restore uuid snapshotId =
     bnd (query (\<lambda>f. case fp_snapshots f snapshotId of Some e \<Rightarrow> e | None \<Rightarrow> ''fake-t3-'' @ uuid)) (\<lambda>environmentId.
     let handle = fake_handle environmentId in
     andthen (modify (\<lambda>f. f\<lparr>fp_envs := (fp_envs f)(environmentId \<mapsto> handle)\<rparr>)) (ret handle))"

definition fake_destroy :: "string \<Rightarrow> (fake_project, exn, bool) io" where
  "fake_destroy environmentId =
     bnd (query (\<lambda>f. fp_envs f environmentId \<noteq> None)) (\<lambda>existed.
     andthen (modify (\<lambda>f. f\<lparr>fp_envs := (fp_envs f)(environmentId := None)\<rparr>)) (ret (\<not> existed)))"

section \<open>What is sent\<close>

datatype orchestrator_rpc = RpcProvision provision_request | RpcDestroy string string string | RpcConnect string string
  | RpcInjectFault inject_fault_request | RpcExecShell exec_shell_call
  | RpcMilestone "string list" string | RpcSnapshot string string | RpcRestore string string | RpcRelease string string

fun issue :: "(json \<Rightarrow> string) \<Rightarrow> 'w transport \<Rightarrow> grpc_client \<Rightarrow> orchestrator_rpc \<Rightarrow> ('w, exn, unit) io" where
  "issue js tp cl (RpcProvision req) = andthen (grpc_provision js tp cl req) (ret ())"
| "issue js tp cl (RpcDestroy env why a) = andthen (grpc_destroy tp cl env why a) (ret ())"
| "issue js tp cl (RpcConnect env a) = andthen (grpc_connect tp cl env a) (ret ())"
| "issue js tp cl (RpcInjectFault req) = andthen (grpc_injectFault tp cl req) (ret ())"
| "issue js tp cl (RpcExecShell req) = andthen (grpc_execShell tp cl req) (ret ())"
| "issue js tp cl (RpcMilestone hints a) = andthen (provisionForMilestone tp cl hints a) (ret ())"
| "issue js tp cl (RpcSnapshot a env) = andthen (snapshotAndSuspend tp cl [] a env) (ret ())"
| "issue js tp cl (RpcRestore a snap) = andthen (grpc_restore tp cl a snap) (ret ())"
| "issue js tp cl (RpcRelease a env) = andthen (project_destroy tp cl a env) (ret ())"

text \<open>The attempt an operation is made for.\<close>

fun rpc_attempt :: "orchestrator_rpc \<Rightarrow> string" where
  "rpc_attempt (RpcProvision req) = rq_attemptId req"
| "rpc_attempt (RpcDestroy env why a) = a"
| "rpc_attempt (RpcConnect env a) = a"
| "rpc_attempt (RpcInjectFault req) = if_attemptId req"
| "rpc_attempt (RpcExecShell req) = xc_attemptId req"
| "rpc_attempt (RpcMilestone hints a) = a"
| "rpc_attempt (RpcSnapshot a env) = a"
| "rpc_attempt (RpcRestore a snap) = a"
| "rpc_attempt (RpcRelease a env) = a"

text \<open>A transport that answers as it likes and keeps the messages.\<close>

definition tape :: "(grpc_message \<Rightarrow> exn + (service_error + json)) \<Rightarrow> grpc_message list transport" where
  "tape answer m = (\<lambda>sent. (answer m, sent @ [m]))"

lemma grpc_call_tape:
  "grpc_call (tape answer) cl meth req ms sent =
     ((case answer (grpc_message_of cl meth req ms) of Inl e \<Rightarrow> Inl e
       | Inr (Inl err) \<Rightarrow> Inl (Err (''gRPC '' @ meth @ '' failed: '' @ show_nat (se_code err) @ '' '' @ se_message err))
       | Inr (Inr response) \<Rightarrow> Inr response),
      sent @ [grpc_message_of cl meth req ms])"
  by (simp add: grpc_call_def tape_def bnd_run split: sum.split)

lemma sends_one: "snd (andthen (bnd (grpc_call (tape answer) cl meth req ms) (\<lambda>x. ret (f x))) (ret ()) sent) = sent @ [grpc_message_of cl meth req ms]"
  by (simp add: andthen_def bnd_run grpc_call_tape split: sum.split)

lemma sends_caught:
  "snd (andthen (try_catch (bnd (grpc_call (tape answer) cl meth req ms) (\<lambda>x. ret (f x))) (\<lambda>_. ret y)) (ret ()) sent) = sent @ [grpc_message_of cl meth req ms]"
  by (simp add: andthen_def bnd_run try_catch_def grpc_call_tape split: sum.split)

lemmas clients = grpc_provision_def grpc_destroy_def grpc_connect_def grpc_injectFault_def grpc_execShell_def
  provisionForMilestone_def snapshotAndSuspend_def grpc_restore_def project_destroy_def

lemma issue_sends:
  obtains meth req ms where "snd (issue js (tape answer) cl op []) = [grpc_message_of cl meth req ms]"
    and "jget req ''attemptId'' = Some (JStr (rpc_attempt op))"
  by (cases op) (simp_all add: clients sends_one sends_caught provision_message_def)

section \<open>Properties\<close>

text \<open>C36. Calls to the orchestrator are never silently downgraded: when the certificate authority is configured, a client exists only
  if the three certificate files were read, and then every operation sends exactly one message, over a channel with that
  authority, key and certificate, carrying the bearer token when a shared secret is set, and naming the attempt it is made for. Without the certificate or the
  key, or with a file that cannot be read, start-up fails.\<close>

theorem calls_authenticated:
  assumes "Prelude.truthy (config ''ORCHESTRATOR_TLS_CA'')"
  shows "case onModuleInit config readFileSync of
     Inl e \<Rightarrow> \<exists>v \<in> {''ORCHESTRATOR_TLS_CA'', ''ORCHESTRATOR_CLIENT_TLS_CERT'', ''ORCHESTRATOR_CLIENT_TLS_KEY''}.
       \<not> Prelude.truthy (config v) \<or> (\<exists>m. readFileSync (the (config v)) = Inl m)
   | Inr cl \<Rightarrow> \<exists>ca cert key m. readFileSync (the (config ''ORCHESTRATOR_TLS_CA'')) = Inr ca \<and>
       readFileSync (the (config ''ORCHESTRATOR_CLIENT_TLS_CERT'')) = Inr cert \<and>
       readFileSync (the (config ''ORCHESTRATOR_CLIENT_TLS_KEY'')) = Inr key \<and>
       snd (issue js (tape answer) cl op []) = [m] \<and> gm_credentials m = Ssl ca key cert \<and>
       jget (gm_request m) ''attemptId'' = Some (JStr (rpc_attempt op)) \<and>
       (\<forall>secret. config ''ORCHESTRATOR_SHARED_SECRET'' = Some secret \<and> secret \<noteq> [] \<longrightarrow>
          map_of (gm_metadata m) ''authorization'' = Some (''Bearer '' @ secret))"
proof (cases "onModuleInit config readFileSync")
  case (Inl e)
  then show ?thesis using assms
    by (auto simp: onModuleInit_def buildChannelCredentials_def Let_def split: if_splits sum.splits)
next
  case (Inr cl)
  obtain meth req ms where "snd (issue js (tape answer) cl op []) = [grpc_message_of cl meth req ms]"
      "jget req ''attemptId'' = Some (JStr (rpc_attempt op))" by (rule issue_sends)
  moreover obtain ca cert key where "readFileSync (the (config ''ORCHESTRATOR_TLS_CA'')) = Inr ca"
      "readFileSync (the (config ''ORCHESTRATOR_CLIENT_TLS_CERT'')) = Inr cert"
      "readFileSync (the (config ''ORCHESTRATOR_CLIENT_TLS_KEY'')) = Inr key"
      "gl_credentials cl = Ssl ca key cert" "gl_sharedSecret cl = config ''ORCHESTRATOR_SHARED_SECRET''"
    using Inr assms by (auto simp: onModuleInit_def buildChannelCredentials_def Let_def split: if_splits sum.splits)
  ultimately show ?thesis using Inr by (simp add: grpc_message_of_def Prelude.truthy_def split: option.split)
qed

definition demo_config :: "string \<Rightarrow> string option" where
  "demo_config v = (if v = ''ORCHESTRATOR_GRPC_ADDRESS'' then None else Some v)"

theorem calls_authenticated_witness:
  "\<exists>cl m. onModuleInit demo_config Inr = Inr cl \<and>
     snd (issue (\<lambda>_. []) (tape (\<lambda>_. Inr (Inr (JObj [])))) cl (RpcConnect ''e'' ''a'') []) = [m] \<and>
     gm_credentials m = Ssl ''ORCHESTRATOR_TLS_CA'' ''ORCHESTRATOR_CLIENT_TLS_KEY'' ''ORCHESTRATOR_CLIENT_TLS_CERT'' \<and>
     map_of (gm_metadata m) ''authorization'' = Some ''Bearer ORCHESTRATOR_SHARED_SECRET''"
proof -
  have ca: "Prelude.truthy (demo_config ''ORCHESTRATOR_TLS_CA'')" by (simp add: demo_config_def Prelude.truthy_def)
  note th = calls_authenticated [of demo_config Inr "\<lambda>_. []" "\<lambda>_. Inr (Inr (JObj []))" "RpcConnect ''e'' ''a''", OF ca]
  have "\<exists>cl. onModuleInit demo_config Inr = Inr cl"
    by (simp add: onModuleInit_def buildChannelCredentials_def demo_config_def Prelude.truthy_def)
  with th show ?thesis by (auto simp: demo_config_def)
qed

text \<open>What the attempt service relies on: a fault injection is always answered, whatever the transport does.\<close>

definition fault_answer :: "'w transport \<Rightarrow> grpc_client \<Rightarrow> 'w \<Rightarrow> inject_fault_request \<Rightarrow> inject_fault_result" where
  "fault_answer tp cl w q = (case fst (grpc_injectFault tp cl q w) of Inr r \<Rightarrow> r | Inl _ \<Rightarrow> \<lparr>ir_applied = False, ir_symptomVerified = False\<rparr>)"

lemma grpc_inject_answers: "o_injectFault (grpc_orchestrator js tp cl w) = (\<lambda>q. Inr (fault_answer tp cl w q))"
  by (auto simp: grpc_orchestrator_def fault_answer_def grpc_injectFault_def try_catch_def split: prod.split sum.split)

text \<open>Property. Provisioning over gRPC ends: once the orchestrator has answered the Provision call, the attempt is READY exactly when the answer
  says \<open>ENVIRONMENT_STATUS_READY\<close>, with the environment the answer names, and PROVISION_FAILED on every other answer, a status this
  code does not know included. Fault injections that fail, time out or are not implemented never stop it; each is recorded.\<close>

theorem grpc_provision_ends:
  assumes "attempts_ok s" and "log_ok s" and "findById a s = Some r" and "a_status r = CREATED"
    and "find_row (\<lambda>v. v_id v = a_activity_version_id r) (versions s) = Some ver"
    and "sv_orchestrator sv = grpc_orchestrator js tp cl w"
    and "fst (tp (grpc_message_of cl ''Provision'' (provision_message js (provision_request_of a ver)) 60000) w) = Inr (Inr response)"
  shows "\<exists>r' t. provision sv a now later s = (Inr r', t) \<and> findById a t = Some r' \<and>
    (if str_field ''status'' response = ''ENVIRONMENT_STATUS_READY''
     then a_status r' = READY \<and> a_environment_id r' = Some (str_field ''environmentId'' response) \<and>
       length (filter (\<lambda>e. fst (snd e) = EV_FAULT_INJECTED) (log_of a t)) =
       length (filter (\<lambda>e. fst (snd e) = EV_FAULT_INJECTED) (log_of a s)) + length (t0_faults (v_spec ver))
     else a_status r' = PROVISION_FAILED)"
proof -
  let ?p = "JObj [(''blueprint_id'', case v_blueprint_id ver of None \<Rightarrow> JNull | Some b \<Rightarrow> JStr b)]"
  let ?s0 = "logged a SYSTEM EV_ENV_REQUESTED ?p now s" and ?u = "status_update PROVISIONING"
  let ?s1 = "transitioned r ?u now ?s0" and ?r1 = "apply_updates (status_update PROVISIONING) (a_version r) now r"
  let ?res = "\<lparr>pr_environmentId = str_field ''environmentId'' response,
    pr_status = (case map_of statusMap (str_field ''status'' response) of None \<Rightarrow> ENV_PROVISION_FAILED | Some st \<Rightarrow> st)\<rparr>"
  have run: "provision_begin a now s = (Inr ver, ?s1)" using assms by (simp add: provision_begin_run)
  have s1: "attempts_ok ?s1" "log_ok ?s1" "log_of a ?s1 = log_of a s @ [(SYSTEM, EV_ENV_REQUESTED, ?p, now)]"
    using assms by (simp_all add: attempts_ok_transitioned)
  have f: "findById a ?s1 = Some ?r1" using findById_transitioned [of ?s0 a r a ?u now] assms by simp
  have "o_provision (sv_orchestrator sv) (provision_request_of a ver) = Inr ?res"
    using assms(6,7) by (cases "tp (grpc_message_of cl ''Provision'' (provision_message js (provision_request_of a ver)) 60000) w")
      (simp add: grpc_orchestrator_def grpc_provision_def grpc_call_def bnd_run)
  then have whole: "provision sv a now later s = provision_complete sv a ver ?res later ?s1"
    using run by (simp add: provision_def)
  have status: "pr_status ?res = ENV_READY \<longleftrightarrow> str_field ''status'' response = ''ENVIRONMENT_STATUS_READY''"
    by (simp add: statusMap_def)
  have inj: "o_injectFault (sv_orchestrator sv) = (\<lambda>q. Inr (fault_answer tp cl w q))"
    using assms(6) grpc_inject_answers by metis
  have faults: "filter (\<lambda>e. fst (snd e) = EV_FAULT_INJECTED) (map (fault_entry flt a env later) fs) = map (fault_entry flt a env later) fs" for flt env fs
    by (rule filter_True) (auto simp: fault_entry_def)
  show ?thesis
  proof (cases "str_field ''status'' response = ''ENVIRONMENT_STATUS_READY''")
    case True
    then show ?thesis
      using provision_complete_ready [OF s1(1,2) f _ inj, of ?res ver later] whole status s1(3) by (auto simp: faults)
  next
    case False
    then show ?thesis
      using provision_complete_failed [OF s1(1,2) f, of ?res sv ver later] whole status by auto
  qed
qed

definition demo_transport :: "unit transport" where
  "demo_transport m = ret (if gm_method m = ''Provision''
     then Inr (JObj [(''environmentId'', JStr ''env-1''), (''status'', JStr ''ENVIRONMENT_STATUS_READY'')])
     else Inl \<lparr>se_code = 12, se_message = ''UNIMPLEMENTED''\<rparr>)"

definition demo_client :: grpc_client where
  "demo_client = \<lparr>gl_address = ''localhost:50051'', gl_credentials = Insecure, gl_sharedSecret = None\<rparr>"

theorem grpc_provision_ends_witness:
  "\<exists>r t. provision (demo_services\<lparr>sv_orchestrator := grpc_orchestrator (\<lambda>_. []) demo_transport demo_client ()\<rparr>) ''a'' 1 2
      (demo_catalog\<lparr>attempts := [demo_attempt]\<rparr>) = (Inr r, t) \<and> a_status r = READY \<and> a_environment_id r = Some ''env-1''"
proof -
  let ?s = "demo_catalog\<lparr>attempts := [demo_attempt]\<rparr>"
  have s: "attempts_ok ?s" "log_ok ?s" "findById ''a'' ?s = Some demo_attempt" "a_status demo_attempt = CREATED"
    "find_row (\<lambda>v. v_id v = a_activity_version_id demo_attempt) (versions ?s) = Some demo_version"
    by (simp_all add: attempts_ok_def log_ok_def demo_catalog_def demo_version_def empty_db_def of_attempt_def demo_attempt_def findById_def)
  have o: "sv_orchestrator (demo_services\<lparr>sv_orchestrator := grpc_orchestrator (\<lambda>_. []) demo_transport demo_client ()\<rparr>) =
      grpc_orchestrator (\<lambda>_. []) demo_transport demo_client ()" by simp
  have t: "fst (demo_transport (grpc_message_of demo_client ''Provision'' (provision_message (\<lambda>_. []) (provision_request_of ''a'' demo_version)) 60000) ()) =
      Inr (Inr (JObj [(''environmentId'', JStr ''env-1''), (''status'', JStr ''ENVIRONMENT_STATUS_READY'')]))"
    by (simp add: demo_transport_def grpc_message_of_def)
  from grpc_provision_ends [OF s o t, of 1 2] show ?thesis by (auto simp: str_field_def)
qed

text \<open>An environment the orchestrator reports as failed is nevertheless stored as the attempt's environment, so that the next
  failed gate finds one and requests no other.\<close>

definition demo_failing :: "unit transport" where
  "demo_failing m = ret (Inr (JObj [(''environmentId'', JStr ''env-1''), (''status'', JStr ''ENVIRONMENT_STATUS_PROVISION_FAILED'')]))"

lemma failed_environment_kept:
  assumes "findById a s = Some r" and "a_environment_id r = None" and "mp_environmentRequired plan"
  shows "map_option a_environment_id (findById a (snd (applyEnvLifecycle (grpc_project_orchestrator demo_failing cl hints nowIso ()) a plan False s))) = Some (Some ''env-1'')"
    and "ph_status (case fst (provisionForMilestone demo_failing cl hints a ()) of Inr h \<Rightarrow> h) = PE_FAILED"
  using assms
  by (auto simp: applyEnvLifecycle_def grpc_project_orchestrator_def provisionForMilestone_def grpc_call_def bnd_run demo_failing_def
      handle_of_def Let_def str_field_def opt_str_def mapStatus_def try_catch_def Prelude.truthy_def findById_def find_update_where_same)

datatype fake_action = FsProvision string | FsSuspend string string | FsRestore string string | FsDestroy string

fun fake_step :: "fake_action \<Rightarrow> (fake_project, exn, unit) io" where
  "fake_step (FsProvision u) = andthen (fake_provisionForMilestone u) (ret ())"
| "fake_step (FsSuspend u e) = andthen (fake_snapshotAndSuspend u [] e) (ret ())"
| "fake_step (FsRestore u sn) = andthen (fake_restore u sn) (ret ())"
| "fake_step (FsDestroy e) = andthen (fake_destroy e) (ret ())"

lemma snapshot_kept: "(\<forall>e'. st \<noteq> FsSuspend u e') \<Longrightarrow> preserves (\<lambda>f. fp_snapshots f (''fake-snap-'' @ u) = Some e) (fake_step st)"
  by (cases st) (auto simp: preserves_def andthen_def bnd_run fake_provisionForMilestone_def fake_snapshotAndSuspend_def fake_restore_def fake_destroy_def Let_def)

text \<open>Property. The stand-in for the cloud driver keeps its environments consistent: suspending an environment and restoring its snapshot, with any
  provisioning, restoring, destroying or suspending under other identifiers in between, gives the same environment back, ready; destroying it then reports
  that it existed, and destroying it again that it did not.\<close>

theorem fake_suspend_restore:
  assumes "\<forall>e'. FsSuspend u e' \<notin> set steps"
    and "snd (for_each steps fake_step (snd (fake_snapshotAndSuspend u nowIso e f))) = g"
  shows "\<exists>h. fake_restore v (''fake-snap-'' @ u) g = (Inr (fake_handle e), h) \<and> fp_envs h e = Some (fake_handle e) \<and>
    (\<exists>h'. fake_destroy e h = (Inr False, h') \<and> fst (fake_destroy e h') = Inr True)"
proof -
  have "preserves (\<lambda>f. fp_snapshots f (''fake-snap-'' @ u) = Some e) (for_each steps fake_step)"
    by (intro preserves_for_each snapshot_kept) (use assms(1) in metis)
  then have "fp_snapshots g (''fake-snap-'' @ u) = Some e"
    using assms(2) unfolding preserves_def by (auto simp: fake_snapshotAndSuspend_def Let_def)
  then show ?thesis by (simp add: fake_restore_def fake_destroy_def Let_def)
qed

theorem fake_suspend_restore_witness:
  "fst (fake_restore ''z'' ''fake-snap-1'' (snd (for_each [FsProvision ''2'', FsSuspend ''3'' ''fake-t3-2'']
     fake_step (snd (fake_snapshotAndSuspend ''1'' [] ''e'' \<lparr>fp_envs = Map.empty, fp_snapshots = Map.empty\<rparr>))))) = Inr (fake_handle ''e'')"
  using fake_suspend_restore [of "''1''" "[FsProvision ''2'', FsSuspend ''3'' ''fake-t3-2'']" "[]" "''e''"
      "\<lparr>fp_envs = Map.empty, fp_snapshots = Map.empty\<rparr>", OF _ refl, of "''z''"] by auto

end
