(* ===== verification/ForgejoClient.thy ===== *)
theory ForgejoClient
  imports GitService JsRegex Codec
begin

text \<open>
  \<open>project/forgejo.client.ts\<close>, the client of the Git host's REST interface, and the two records the Git service is built on, provided
  by this client. \<open>fetch\<close> is a parameter that acts on a world of any type; a time-out is an error of it. \<open>JSON.parse\<close> and
  \<open>JSON.stringify\<close> are parameters too. Names, paths and references are strings of 8-bit characters; the content of a file is a list of code points.
\<close>

section \<open>Model: requests\<close>

record fetch_request =
  fq_method :: string
  fq_url :: string
  fq_headers :: "(string \<times> string) list"
  fq_body :: "json option"

record fetch_response =
  fs_status :: nat
  fs_text :: string

datatype forgejo_error = ForgejoApiError nat string string string | ForgejoOther exn

type_synonym 'w fetch = "fetch_request \<Rightarrow> ('w, forgejo_error, fetch_response) io"

record forgejo_client =
  fj_baseUrl :: string
  fj_adminToken :: string

type_synonym json_parser = "string \<Rightarrow> json option"

text \<open>The message of a \<open>ForgejoApiError\<close>; its arrow is written \<open>->\<close> here.\<close>

fun forgejo_exn :: "forgejo_error \<Rightarrow> exn" where
  "forgejo_exn (ForgejoApiError status meth path payload) = Err (''Forgejo '' @ meth @ '' '' @ path @ '' -> '' @ show_nat status @ '': '' @ take 300 payload)"
| "forgejo_exn (ForgejoOther e) = e"

definition strip_slashes :: "string \<Rightarrow> string" where
  "strip_slashes s = rev (dropWhile (\<lambda>c. c = CHR ''/'') (rev s))"

definition forgejo_of_config :: "(string \<Rightarrow> string option) \<Rightarrow> forgejo_client" where
  "forgejo_of_config config = \<lparr>
     fj_baseUrl = strip_slashes (case config ''FORGEJO_BASE_URL'' of Some u \<Rightarrow> u | None \<Rightarrow> []),
     fj_adminToken = (case config ''FORGEJO_ADMIN_TOKEN'' of Some t \<Rightarrow> t | None \<Rightarrow> [])\<rparr>"

definition isConfigured :: "forgejo_client \<Rightarrow> bool" where
  "isConfigured fj \<longleftrightarrow> length (fj_baseUrl fj) > 0 \<and> length (fj_adminToken fj) > 0"

definition resp_ok :: "fetch_response \<Rightarrow> bool" where
  "resp_ok res \<longleftrightarrow> 200 \<le> fs_status res \<and> fs_status res \<le> 299"

definition enc :: "string \<Rightarrow> string" where
  "enc s = encodeURIComponent s"

text \<open>\<open>undefined\<close>, the result of an empty answer, is \<open>JNull\<close> here.\<close>

definition parse_body :: "json_parser \<Rightarrow> string \<Rightarrow> ('w, forgejo_error, json) io" where
  "parse_body parse payload =
     (if payload = [] then ret JNull
      else case parse payload of Some j \<Rightarrow> ret j | None \<Rightarrow> throw (ForgejoOther (Err ''Unexpected token in JSON'')))"

definition api :: "json_parser \<Rightarrow> 'w fetch \<Rightarrow> forgejo_client \<Rightarrow> string \<Rightarrow> string \<Rightarrow> json option \<Rightarrow> ('w, forgejo_error, json) io" where
  "api parse fetch fj meth path payload =
     bnd (fetch \<lparr>fq_method = meth, fq_url = fj_baseUrl fj @ ''/api/v1'' @ path,
        fq_headers = [(''authorization'', ''token '' @ fj_adminToken fj), (''content-type'', ''application/json''), (''accept'', ''application/json'')],
        fq_body = payload\<rparr>) (\<lambda>res.
     if \<not> resp_ok res then throw (ForgejoApiError (fs_status res) meth path (fs_text res))
     else parse_body parse (fs_text res))"

definition healthz :: "'w fetch \<Rightarrow> forgejo_client \<Rightarrow> ('w, forgejo_error, bool) io" where
  "healthz fetch fj = try_catch
     (bnd (fetch \<lparr>fq_method = ''GET'', fq_url = fj_baseUrl fj @ ''/api/healthz'', fq_headers = [], fq_body = None\<rparr>) (\<lambda>res. ret (resp_ok res)))
     (\<lambda>_. ret False)"

section \<open>Model: organisations, repositories, users\<close>

definition already_exists :: "forgejo_error \<Rightarrow> bool" where
  "already_exists e = (case e of ForgejoApiError status _ _ _ \<Rightarrow> status = 422 \<or> status = 409 | _ \<Rightarrow> False)"

definition jfield :: "string \<Rightarrow> json \<Rightarrow> string" where
  "jfield k j = (case jget j k of Some (JStr x) \<Rightarrow> x | _ \<Rightarrow> [])"

definition ensureOrg :: "json_parser \<Rightarrow> 'w fetch \<Rightarrow> forgejo_client \<Rightarrow> string \<Rightarrow> ('w, forgejo_error, unit) io" where
  "ensureOrg parse fetch fj orgName = try_catch
     (andthen (api parse fetch fj ''POST'' ''/orgs'' (Some (JObj [(''username'', JStr orgName), (''visibility'', JStr ''private'')]))) (ret ()))
     (\<lambda>e. if already_exists e then ret () else throw e)"

record forgejo_repo =
  fr_fullName :: string
  fr_cloneUrl :: string
  fr_htmlUrl :: string
  fr_defaultBranch :: string
  fr_empty :: bool

definition repo_path :: "string \<Rightarrow> string \<Rightarrow> string" where
  "repo_path orgName repoName = ''/repos/'' @ enc orgName @ ''/'' @ enc repoName"

definition getRepo :: "json_parser \<Rightarrow> 'w fetch \<Rightarrow> forgejo_client \<Rightarrow> string \<Rightarrow> string \<Rightarrow> ('w, forgejo_error, forgejo_repo) io" where
  "getRepo parse fetch fj orgName repoName =
     bnd (api parse fetch fj ''GET'' (repo_path orgName repoName) None) (\<lambda>r.
     ret \<lparr>fr_fullName = jfield ''full_name'' r, fr_cloneUrl = jfield ''clone_url'' r, fr_htmlUrl = jfield ''html_url'' r,
          fr_defaultBranch = jfield ''default_branch'' r, fr_empty = (jget r ''empty'' = Some (JBool True))\<rparr>)"

definition ensureRepo :: "json_parser \<Rightarrow> 'w fetch \<Rightarrow> forgejo_client \<Rightarrow> string \<Rightarrow> string \<Rightarrow> bool \<Rightarrow> string \<Rightarrow> string option \<Rightarrow> ('w, forgejo_error, forgejo_repo) io" where
  "ensureRepo parse fetch fj orgName repoName autoInit defaultBranch description =
     andthen (try_catch
       (andthen (api parse fetch fj ''POST'' (''/orgs/'' @ enc orgName @ ''/repos'') (Some (JObj [(''name'', JStr repoName), (''private'', JBool True),
          (''auto_init'', JBool autoInit), (''default_branch'', JStr defaultBranch),
          (''description'', JStr (case description of None \<Rightarrow> [] | Some d \<Rightarrow> d))]))) (ret ()))
       (\<lambda>e. if already_exists e then ret () else throw e))
     (getRepo parse fetch fj orgName repoName)"

record ensured_user =
  eu_username :: string
  eu_password :: string
  eu_created :: bool

definition BASE64URL :: "string \<Rightarrow> string" where
  "BASE64URL s = map (\<lambda>c. if c = CHR ''+'' then CHR ''-'' else if c = CHR ''/'' then CHR ''_'' else c) (filter (\<lambda>c. c \<noteq> CHR ''='') s)"

text \<open>\<open>cryptoRandom\<close>: \<open>bytes\<close> are the \<open>len\<close> bytes drawn.\<close>

definition cryptoRandom :: "nat \<Rightarrow> bytes \<Rightarrow> string" where
  "cryptoRandom len bs = take len (BASE64URL (base64_encode bs))"

definition ensureUser :: "json_parser \<Rightarrow> 'w fetch \<Rightarrow> forgejo_client \<Rightarrow> bytes \<Rightarrow> string \<Rightarrow> string \<Rightarrow> ('w, forgejo_error, ensured_user) io" where
  "ensureUser parse fetch fj random username email =
     (let password = cryptoRandom 24 random in
      try_catch
        (andthen (api parse fetch fj ''POST'' ''/admin/users'' (Some (JObj [(''username'', JStr username), (''email'', JStr email),
           (''password'', JStr password), (''must_change_password'', JBool False), (''source_id'', JNum 0), (''login_name'', JStr username)])))
         (ret \<lparr>eu_username = username, eu_password = password, eu_created = True\<rparr>))
        (\<lambda>e. if already_exists e
          then andthen (api parse fetch fj ''PATCH'' (''/admin/users/'' @ enc username) (Some (JObj [(''login_name'', JStr username), (''source_id'', JNum 0),
                 (''password'', JStr password), (''must_change_password'', JBool False)])))
               (ret \<lparr>eu_username = username, eu_password = password, eu_created = False\<rparr>)
          else throw e))"

definition addRepoCollaborator :: "json_parser \<Rightarrow> 'w fetch \<Rightarrow> forgejo_client \<Rightarrow> string \<Rightarrow> string \<Rightarrow> string \<Rightarrow> ('w, forgejo_error, unit) io" where
  "addRepoCollaborator parse fetch fj orgName repoName username =
     andthen (api parse fetch fj ''PUT'' (repo_path orgName repoName @ ''/collaborators/'' @ enc username) (Some (JObj [(''permission'', JStr ''write'')]))) (ret ())"

definition createUserScopedToken :: "json_parser \<Rightarrow> 'w fetch \<Rightarrow> forgejo_client \<Rightarrow> string \<Rightarrow> string \<Rightarrow> string \<Rightarrow> ('w, forgejo_error, string) io" where
  "createUserScopedToken parse fetch fj username password tokenName =
     (let url = fj_baseUrl fj @ ''/api/v1/users/'' @ enc username @ ''/tokens'';
          basic = base64_encode (utf8_encode (map of_char (username @ '':'' @ password))) in
      bnd (fetch \<lparr>fq_method = ''POST'', fq_url = url,
         fq_headers = [(''authorization'', ''Basic '' @ basic), (''content-type'', ''application/json''), (''accept'', ''application/json'')],
         fq_body = Some (JObj [(''name'', JStr tokenName), (''scopes'', JArr [JStr ''write:repository''])])\<rparr>) (\<lambda>res.
      if \<not> resp_ok res then throw (ForgejoApiError (fs_status res) ''POST'' url (fs_text res))
      else case parse (fs_text res) of
        Some j \<Rightarrow> ret (jfield ''sha1'' j)
      | None \<Rightarrow> throw (ForgejoOther (Err ''Unexpected token in JSON''))))"

definition deleteRepo :: "json_parser \<Rightarrow> 'w fetch \<Rightarrow> forgejo_client \<Rightarrow> string \<Rightarrow> string \<Rightarrow> ('w, forgejo_error, unit) io" where
  "deleteRepo parse fetch fj orgName repoName = andthen (api parse fetch fj ''DELETE'' (repo_path orgName repoName) None) (ret ())"

definition deleteOrg :: "json_parser \<Rightarrow> 'w fetch \<Rightarrow> forgejo_client \<Rightarrow> string \<Rightarrow> ('w, forgejo_error, unit) io" where
  "deleteOrg parse fetch fj orgName = andthen (api parse fetch fj ''DELETE'' (''/orgs/'' @ enc orgName) None) (ret ())"

section \<open>Model: files, history, diffs\<close>

definition contents_path :: "string \<Rightarrow> string \<Rightarrow> string \<Rightarrow> string" where
  "contents_path orgName repoName filePath =
     repo_path orgName repoName @ ''/contents/'' @ join ''/'' (map enc (split_on (CHR ''/'') filePath))"

definition putFile :: "json_parser \<Rightarrow> 'w fetch \<Rightarrow> forgejo_client \<Rightarrow> string \<Rightarrow> string \<Rightarrow> string \<Rightarrow> codepoints \<Rightarrow> string \<Rightarrow> string \<Rightarrow> string option \<Rightarrow> ('w, forgejo_error, string) io" where
  "putFile parse fetch fj orgName repoName filePath contentUtf8 branch message sha =
     (let encoded = base64_encode (utf8_encode contentUtf8); update = truthy sha in
      bnd (api parse fetch fj (if update then ''PUT'' else ''POST'') (contents_path orgName repoName filePath)
        (Some (JObj ([(''content'', JStr encoded), (''message'', JStr message), (''branch'', JStr branch)] @ (if update then [(''sha'', JStr (the sha))] else [])))))
      (\<lambda>res. ret (case jget res ''commit'' of Some c \<Rightarrow> jfield ''sha'' c | None \<Rightarrow> [])))"

definition getFileContent :: "json_parser \<Rightarrow> 'w fetch \<Rightarrow> forgejo_client \<Rightarrow> string \<Rightarrow> string \<Rightarrow> string \<Rightarrow> string option \<Rightarrow> ('w, forgejo_error, codepoints) io" where
  "getFileContent parse fetch fj orgName repoName filePath ref =
     bnd (api parse fetch fj ''GET'' (contents_path orgName repoName filePath @ (if truthy ref then ''?ref='' @ enc (the ref) else [])) None) (\<lambda>res.
     ret (if jget res ''encoding'' = Some (JStr ''base64'') then utf8_decode (base64_decode (jfield ''content'' res)) else map of_char (jfield ''content'' res)))"

record forgejo_commit =
  fc_sha :: string
  fc_message :: string
  fc_authorName :: string
  fc_authoredAt :: string
  fc_htmlUrl :: string

text \<open>\<open>URLSearchParams.toString\<close>.\<close>

definition form_char :: "char \<Rightarrow> string" where
  "form_char c = (if c = CHR '' '' then ''+'' else if c \<in> set ''~!()'' \<or> c = CHR 0x27 then percent (of_char c) else encode_char c)"

definition form_query :: "(string \<times> string) list \<Rightarrow> string" where
  "form_query ps = join ''&'' (map (\<lambda>(k, v). concat (map form_char k) @ ''='' @ concat (map form_char v)) ps)"

definition commit_of :: "json \<Rightarrow> forgejo_commit" where
  "commit_of r =
     (let commit = (case jget r ''commit'' of Some c \<Rightarrow> c | None \<Rightarrow> JNull); author = (case jget commit ''author'' of Some a \<Rightarrow> a | None \<Rightarrow> JNull) in
      \<lparr>fc_sha = jfield ''sha'' r, fc_message = jfield ''message'' commit, fc_authorName = jfield ''name'' author,
       fc_authoredAt = jfield ''date'' author, fc_htmlUrl = jfield ''html_url'' r\<rparr>)"

definition forgejo_listCommits :: "json_parser \<Rightarrow> 'w fetch \<Rightarrow> forgejo_client \<Rightarrow> string \<Rightarrow> string \<Rightarrow> string option \<Rightarrow> nat option \<Rightarrow> string option \<Rightarrow> ('w, forgejo_error, forgejo_commit list) io" where
  "forgejo_listCommits parse fetch fj orgName repoName sha limit path =
     (let params = (if truthy sha then [(''sha'', the sha)] else []) @ [(''limit'', show_nat (case limit of None \<Rightarrow> 30 | Some n \<Rightarrow> n))] @
        (if truthy path then [(''path'', the path)] else []) in
      bnd (api parse fetch fj ''GET'' (repo_path orgName repoName @ ''/commits?'' @ form_query params) None) (\<lambda>rows.
      case rows of JArr rs \<Rightarrow> ret (map commit_of rs) | _ \<Rightarrow> throw (ForgejoOther (Err ''rows.map is not a function''))))"

definition getCommitDiff :: "'w fetch \<Rightarrow> forgejo_client \<Rightarrow> string \<Rightarrow> string \<Rightarrow> string \<Rightarrow> ('w, forgejo_error, string) io" where
  "getCommitDiff fetch fj orgName repoName sha =
     (let url = fj_baseUrl fj @ ''/api/v1'' @ repo_path orgName repoName @ ''/git/commits/'' @ enc sha @ ''.diff'' in
      bnd (fetch \<lparr>fq_method = ''GET'', fq_url = url, fq_headers = [(''authorization'', ''token '' @ fj_adminToken fj)], fq_body = None\<rparr>) (\<lambda>res.
      if \<not> resp_ok res then throw (ForgejoApiError (fs_status res) ''GET'' url (fs_text res)) else ret (fs_text res)))"

fun in_range :: "string \<Rightarrow> forgejo_commit list \<Rightarrow> string list" where
  "in_range base [] = []"
| "in_range base (c # cs) = (if fc_sha c = base then [] else fc_sha c # in_range base cs)"

definition getDiff :: "json_parser \<Rightarrow> 'w fetch \<Rightarrow> forgejo_client \<Rightarrow> string \<Rightarrow> string \<Rightarrow> string \<Rightarrow> string \<Rightarrow> ('w, forgejo_error, string) io" where
  "getDiff parse fetch fj orgName repoName base headRef =
     bnd (forgejo_listCommits parse fetch fj orgName repoName (Some headRef) (Some 250) None) (\<lambda>commits.
     bnd (map_io (getCommitDiff fetch fj orgName repoName) (rev (in_range base commits))) (\<lambda>parts.
     ret (join [CHR 0x0A] parts)))"

section \<open>The client behind the Git service\<close>

definition as_exn :: "('w, forgejo_error, 'a) io \<Rightarrow> ('w, exn, 'a) io" where
  "as_exn m = (\<lambda>w. case m w of (Inl e, w') \<Rightarrow> (Inl (forgejo_exn e), w') | (Inr x, w') \<Rightarrow> (Inr x, w'))"

definition text_of :: "codepoints \<Rightarrow> string" where
  "text_of cps = map char_of cps"

definition forgejo_git_admin :: "json_parser \<Rightarrow> 'w fetch \<Rightarrow> forgejo_client \<Rightarrow> bytes \<Rightarrow> 'w git_admin" where
  "forgejo_git_admin parse fetch fj random = \<lparr>
     ga_isConfigured = isConfigured fj,
     ga_ensureUser = (\<lambda>u email. as_exn (bnd (ensureUser parse fetch fj random u email) (\<lambda>a. ret (eu_password a)))),
     ga_ensureOrg = (\<lambda>org. as_exn (ensureOrg parse fetch fj org)),
     ga_ensureRepo = (\<lambda>org repo description. as_exn (andthen (ensureRepo parse fetch fj org repo True ''main'' (Some description)) (ret ()))),
     ga_getFileContent = (\<lambda>org repo path. as_exn (bnd (getFileContent parse fetch fj org repo path (Some ''main'')) (\<lambda>c. ret (text_of c)))),
     ga_putFile = (\<lambda>org repo path content. as_exn (andthen
        (putFile parse fetch fj org repo path (map of_char content) ''main'' (''seed: '' @ path) None) (ret ()))),
     ga_addRepoCollaborator = (\<lambda>org repo u. as_exn (addRepoCollaborator parse fetch fj org repo u)),
     ga_createUserScopedToken = (\<lambda>u password tokenName. as_exn (createUserScopedToken parse fetch fj u password tokenName)),
     ga_getRepo = (\<lambda>org repo. as_exn (bnd (getRepo parse fetch fj org repo) (\<lambda>r. ret (fr_cloneUrl r, fr_htmlUrl r)))),
     ga_deleteRepo = (\<lambda>org repo. as_exn (deleteRepo parse fetch fj org repo))\<rparr>"

definition forgejo_git_host :: "json_parser \<Rightarrow> 'w fetch \<Rightarrow> forgejo_client \<Rightarrow> 'w \<Rightarrow> git_host" where
  "forgejo_git_host parse fetch fj w = \<lparr>
     gh_isConfigured = isConfigured fj,
     gh_listCommits = (\<lambda>org repo limit sha. map_sum id (map (\<lambda>c. \<lparr>gc_sha = fc_sha c, gc_message = fc_message c\<rparr>))
        (fst (as_exn (forgejo_listCommits parse fetch fj org repo sha limit None) w))),
     gh_getFileContent = (\<lambda>org repo path ref. map_sum id text_of (fst (as_exn (getFileContent parse fetch fj org repo path ref) w))),
     gh_getDiff = (\<lambda>org repo base headRef. fst (as_exn (getDiff parse fetch fj org repo base headRef) w))\<rparr>"

section \<open>Addresses\<close>

lemma enc_no_slash: "CHR ''/'' \<notin> set (enc s)"
  using encodeURIComponent_chars [of s] by (auto simp: enc_def UNRESERVED_def)

lemma enc_inj: "enc s = enc t \<longleftrightarrow> s = t"
proof
  assume "enc s = enc t"
  then have "map of_char s = (map of_char t :: nat list)" using percent_roundtrip unfolding enc_def by metis
  then have "map char_of (map of_char s :: nat list) = (map char_of (map of_char t :: nat list) :: string)" by simp
  then show "s = t" by (simp add: comp_def)
qed simp

lemma first_slash: "CHR ''/'' \<notin> set a \<Longrightarrow> CHR ''/'' \<notin> set b \<Longrightarrow> a @ CHR ''/'' # x = b @ CHR ''/'' # y \<Longrightarrow> a = b \<and> x = y"
proof (induction a arbitrary: b)
  case Nil
  then show ?case by (cases b) auto
next
  case (Cons c a)
  then show ?case by (cases b) auto
qed

lemma join_split: "join [d] (split_on d s) = s"
proof (induction s)
  case (Cons c s)
  then show ?case using split_on_nonempty [of d s] by (cases "split_on d s"; cases "tl (split_on d s)") auto
qed simp

lemma encoded_segments: "split_on (CHR ''/'') (join ''/'' (map enc (split_on (CHR ''/'') p))) = map enc (split_on (CHR ''/'') p)"
  by (rule split_on_join) (simp_all add: split_on_nonempty enc_no_slash)

text \<open>Two files have the same address only if they are the same file of the same repository.\<close>

lemma contents_path_inj: "contents_path org repo path = contents_path org' repo' path' \<longleftrightarrow> org = org' \<and> repo = repo' \<and> path = path'"
proof
  assume "contents_path org repo path = contents_path org' repo' path'"
  then have eq: "enc org @ CHR ''/'' # enc repo @ CHR ''/'' # ''contents/'' @ join ''/'' (map enc (split_on (CHR ''/'') path)) =
      enc org' @ CHR ''/'' # enc repo' @ CHR ''/'' # ''contents/'' @ join ''/'' (map enc (split_on (CHR ''/'') path'))"
    by (simp add: contents_path_def repo_path_def)
  have org: "enc org = enc org'" "enc repo @ CHR ''/'' # ''contents/'' @ join ''/'' (map enc (split_on (CHR ''/'') path)) =
      enc repo' @ CHR ''/'' # ''contents/'' @ join ''/'' (map enc (split_on (CHR ''/'') path'))"
    using first_slash [OF enc_no_slash enc_no_slash eq] by auto
  have repo: "enc repo = enc repo'" "''contents/'' @ join ''/'' (map enc (split_on (CHR ''/'') path)) = ''contents/'' @ join ''/'' (map enc (split_on (CHR ''/'') path'))"
    using first_slash [OF enc_no_slash enc_no_slash org(2)] by auto
  then have "join ''/'' (map enc (split_on (CHR ''/'') path)) = join ''/'' (map enc (split_on (CHR ''/'') path'))" by simp
  then have "map enc (split_on (CHR ''/'') path) = map enc (split_on (CHR ''/'') path')"
    using encoded_segments by metis
  moreover have "inj enc" by (simp add: inj_def enc_inj)
  ultimately have "split_on (CHR ''/'') path = split_on (CHR ''/'') path'" by (simp add: inj_map_eq_map)
  then have "path = path'" using join_split by metis
  then show "org = org' \<and> repo = repo' \<and> path = path'" using org(1) repo(1) by (simp add: enc_inj)
qed simp

text \<open>Dot segments are not escaped, so that a path with them leaves the address of the file when it is resolved.\<close>

lemma dots_kept: "contents_path ''o'' ''r'' ''../../../x'' = ''/repos/o/r/contents/../../../x''"
  by (simp add: contents_path_def repo_path_def enc_def encodeURIComponent_def encode_char_def UNRESERVED_def)

section \<open>Files\<close>

text \<open>What is relied on of the host: a content request that succeeds stores the given text for its address and branch, and a later request for the
  address at that branch returns it, possibly broken into lines.\<close>

definition unbroken :: "string \<Rightarrow> string" where
  "unbroken c = filter (\<lambda>x. x \<noteq> CHR 0x0A) c"

definition stores_content :: "'w fetch \<Rightarrow> ('w \<Rightarrow> string \<Rightarrow> string \<Rightarrow> string option) \<Rightarrow> bool" where
  "stores_content fetch stored \<longleftrightarrow> (\<forall>q w res w' b br j. fetch q w = (Inr res, w') \<and> resp_ok res \<and> fq_method q \<in> {''POST'', ''PUT''} \<and>
     fq_body q = Some j \<and> jget j ''content'' = Some (JStr b) \<and> jget j ''branch'' = Some (JStr br) \<longrightarrow> stored w' (fq_url q) br = Some b)"

definition returns_content :: "json_parser \<Rightarrow> 'w fetch \<Rightarrow> ('w \<Rightarrow> string \<Rightarrow> string \<Rightarrow> string option) \<Rightarrow> bool" where
  "returns_content parse fetch stored \<longleftrightarrow> (\<forall>q w u br b. fq_method q = ''GET'' \<and> fq_url q = u @ ''?ref='' @ enc br \<and> stored w u br = Some b \<longrightarrow>
     (\<exists>res j c. fetch q w = (Inr res, w) \<and> resp_ok res \<and> fs_text res \<noteq> [] \<and> parse (fs_text res) = Some j \<and>
        jget j ''encoding'' = Some (JStr ''base64'') \<and> jget j ''content'' = Some (JStr c) \<and> unbroken c = unbroken b))"

lemma returns_contentD:
  assumes "returns_content parse fetch stored" and "stored w u br = Some b" and "fq_method q = ''GET''" and "fq_url q = u @ ''?ref='' @ enc br"
  shows "\<exists>res j c. fetch q w = (Inr res, w) \<and> resp_ok res \<and> fs_text res \<noteq> [] \<and> parse (fs_text res) = Some j \<and>
    jget j ''encoding'' = Some (JStr ''base64'') \<and> jget j ''content'' = Some (JStr c) \<and> unbroken c = unbroken b"
  using assms unfolding returns_content_def by metis

lemma sextets_lines: "sextets (unbroken c) = sextets c"
  unfolding unbroken_def
proof (induction c)
  case (Cons d c)
  have "value64 (CHR 0x0A) = None" by (simp add: value64_def BASE64_def)
  then show ?case using Cons by (cases "d = CHR 0x0A"; cases "value64 d") auto
qed simp

lemma put_then_get:
  assumes st: "stores_content fetch stored" and re: "returns_content parse fetch stored" and sc: "list_all is_scalar content" and br: "branch \<noteq> []"
    and put: "putFile parse fetch fj org repo path content branch message sha w = (Inr commit, w')"
  shows "getFileContent parse fetch fj org repo path (Some branch) w' = (Inr content, w')"
proof -
  let ?u = "fj_baseUrl fj @ ''/api/v1'' @ contents_path org repo path"
  obtain q res where q: "fetch q w = (Inr res, w')" "resp_ok res" "fq_method q \<in> {''POST'', ''PUT''}" "fq_url q = ?u"
      "\<exists>j. fq_body q = Some j \<and> jget j ''content'' = Some (JStr (base64_encode (utf8_encode content))) \<and> jget j ''branch'' = Some (JStr branch)"
    using put by (auto simp: putFile_def api_def parse_body_def Let_def bnd_run split: prod.splits sum.splits if_splits option.splits)
  then have here: "stored w' ?u branch = Some (base64_encode (utf8_encode content))"
    using st unfolding stores_content_def by metis
  define q' where "q' = \<lparr>fq_method = ''GET'', fq_url = fj_baseUrl fj @ ''/api/v1'' @ contents_path org repo path @ ''?ref='' @ enc branch,
        fq_headers = [(''authorization'', ''token '' @ fj_adminToken fj), (''content-type'', ''application/json''), (''accept'', ''application/json'')],
        fq_body = None\<rparr>"
  have get: "fq_method q' = ''GET''" "fq_url q' = ?u @ ''?ref='' @ enc branch" by (simp_all add: q'_def)
  obtain res' j c where r: "fetch q' w' = (Inr res', w')" "resp_ok res'" "fs_text res' \<noteq> []" "parse (fs_text res') = Some j"
      "jget j ''encoding'' = Some (JStr ''base64'')" "jget j ''content'' = Some (JStr c)"
      "unbroken c = unbroken (base64_encode (utf8_encode content))"
    using returns_contentD [OF re, OF here get] by (elim exE conjE) (rule that)
  have "base64_decode c = utf8_encode content"
    using base64_roundtrip [OF utf8_encode_bytes, of content] sextets_lines [of c] sextets_lines [of "base64_encode (utf8_encode content)"] r(7)
    by (simp add: base64_decode_def)
  then show ?thesis
    using r br sc by (simp add: q'_def getFileContent_def api_def parse_body_def bnd_run truthy_def jfield_def utf8_roundtrip)
qed

lemma scalar_char: "is_scalar (of_char c)"
proof -
  have "(of_char c :: nat) < 256" by simp
  then have "(of_char c :: nat) < 0xD800" by linarith
  then show ?thesis by (simp add: is_scalar_def)
qed

section \<open>Properties\<close>

text \<open>Property. A file seeded into a learner's repository reads back as it was written: once the host has accepted the file, the Git service's
  reading of the same path on the default branch returns exactly the given text, for any path, slashes and special characters included, and any
  characters in the text, through the UTF-8, base64, percent and JSON encodings on the way.\<close>

theorem seeded_file_roundtrip:
  assumes "stores_content fetch stored" and "returns_content parse fetch stored"
    and "ga_putFile (forgejo_git_admin parse fetch fj random) org repo path content w = (Inr (), w')"
  shows "ga_getFileContent (forgejo_git_admin parse fetch fj random) org repo path w' = (Inr content, w')"
proof -
  obtain commit where put: "putFile parse fetch fj org repo path (map of_char content) ''main'' (''seed: '' @ path) None w = (Inr commit, w')"
    using assms(3) by (auto simp: forgejo_git_admin_def as_exn_def andthen_def bnd_run split: prod.splits sum.splits)
  have sc: "list_all is_scalar (map of_char content)" by (simp add: list_all_iff scalar_char)
  have "map char_of (map of_char content :: nat list) = content" by (simp add: comp_def)
  then show ?thesis
    using put_then_get [OF assms(1,2) sc _ put] by (simp add: forgejo_git_admin_def as_exn_def text_of_def)
qed

text \<open>A host that remembers the last file it was given.\<close>

type_synonym demo_host = "(string \<times> string \<times> string) option"

definition demo_fetch :: "demo_host fetch" where
  "demo_fetch q = (\<lambda>w.
     if fq_method q = ''GET'' then
       (case w of
          Some (u, br, b) \<Rightarrow> if fq_url q = u @ ''?ref='' @ enc br then (Inr \<lparr>fs_status = 200, fs_text = CHR ''!'' # b\<rparr>, w) else (Inr \<lparr>fs_status = 404, fs_text = []\<rparr>, w)
        | None \<Rightarrow> (Inr \<lparr>fs_status = 404, fs_text = []\<rparr>, w))
     else (case Option.bind (fq_body q) (\<lambda>j. jget j ''content'') of
        Some (JStr b) \<Rightarrow> (case Option.bind (fq_body q) (\<lambda>j. jget j ''branch'') of
          Some (JStr br) \<Rightarrow> (Inr \<lparr>fs_status = 201, fs_text = []\<rparr>, Some (fq_url q, br, b))
        | _ \<Rightarrow> (Inr \<lparr>fs_status = 422, fs_text = []\<rparr>, w))
      | _ \<Rightarrow> (Inr \<lparr>fs_status = 422, fs_text = []\<rparr>, w)))"

definition demo_stored :: "demo_host \<Rightarrow> string \<Rightarrow> string \<Rightarrow> string option" where
  "demo_stored w u br = (case w of Some (u', br', b) \<Rightarrow> if u = u' \<and> br = br' then Some b else None | None \<Rightarrow> None)"

definition demo_parse :: json_parser where
  "demo_parse t = Some (JObj [(''encoding'', JStr ''base64''), (''content'', JStr (tl t))])"

lemma demo_host_ok: "stores_content demo_fetch demo_stored" "returns_content demo_parse demo_fetch demo_stored"
proof -
  show "stores_content demo_fetch demo_stored"
    unfolding stores_content_def
  proof (intro allI impI, elim conjE)
    fix q w res w' b br j
    assume "demo_fetch q w = (Inr res, w')" "resp_ok res" "fq_method q \<in> {''POST'', ''PUT''}" "fq_body q = Some j"
      "jget j ''content'' = Some (JStr b)" "jget j ''branch'' = Some (JStr br)"
    then show "demo_stored w' (fq_url q) br = Some b" by (auto simp: demo_fetch_def demo_stored_def)
  qed
qed (auto simp: returns_content_def demo_stored_def demo_fetch_def demo_parse_def resp_ok_def split: option.splits if_splits)

theorem seeded_file_roundtrip_witness:
  "ga_getFileContent (forgejo_git_admin demo_parse demo_fetch \<lparr>fj_baseUrl = ''h'', fj_adminToken = ''t''\<rparr> []) ''o'' ''r'' ''docs/a b.md''
     (snd (ga_putFile (forgejo_git_admin demo_parse demo_fetch \<lparr>fj_baseUrl = ''h'', fj_adminToken = ''t''\<rparr> []) ''o'' ''r'' ''docs/a b.md'' ''hello'' None)) =
   (Inr ''hello'', snd (ga_putFile (forgejo_git_admin demo_parse demo_fetch \<lparr>fj_baseUrl = ''h'', fj_adminToken = ''t''\<rparr> []) ''o'' ''r'' ''docs/a b.md'' ''hello'' None))"
proof -
  let ?put = "ga_putFile (forgejo_git_admin demo_parse demo_fetch \<lparr>fj_baseUrl = ''h'', fj_adminToken = ''t''\<rparr> []) ''o'' ''r'' ''docs/a b.md'' ''hello'' None"
  have "fst ?put = Inr ()"
    by (simp add: forgejo_git_admin_def as_exn_def andthen_def bnd_run putFile_def api_def parse_body_def demo_fetch_def truthy_def resp_ok_def Let_def)
  then have "?put = (Inr (), snd ?put)" by (metis prod.collapse)
  then show ?thesis by (rule seeded_file_roundtrip [OF demo_host_ok])
qed

text \<open>The diffs of a range.\<close>

lemma in_range_takeWhile: "in_range base cs = takeWhile (\<lambda>s. s \<noteq> base) (map fc_sha cs)"
  by (induction cs) auto

lemma map_io_pure: "(\<And>x. x \<in> set xs \<Longrightarrow> f x w = (Inr (g x), w)) \<Longrightarrow> map_io f xs w = (Inr (map g xs), w)"
  by (induction xs) simp_all

text \<open>Property. The diff of a range is the diffs of the commits after the base, oldest first: when the host lists the newest 250 commits of a history in which the base
  has fewer than 250 successors, and answers the diff of each, \<open>getDiff\<close> is their concatenation and nothing else; when the base is further back
  or not in the history, it is the diffs of the newest 250 commits.\<close>

theorem getDiff_range:
  assumes "forgejo_listCommits parse fetch fj org repo (Some headRef) (Some 250) None w = (Inr (take 250 history), w)"
    and "\<And>sha. sha \<in> set (map fc_sha history) \<Longrightarrow> getCommitDiff fetch fj org repo sha w = (Inr (d sha), w)"
  shows "\<exists>n \<le> 250. getDiff parse fetch fj org repo base headRef w = (Inr (join [CHR 0x0A] (map d (rev (take n (map fc_sha history))))), w) \<and>
    base \<notin> set (take n (map fc_sha history)) \<and>
    (if base \<in> set (take 250 (map fc_sha history)) then map fc_sha history ! n = base else n = 250 \<or> n = length history)"
proof -
  let ?hs = "map fc_sha history"
  define n where "n = length (takeWhile (\<lambda>s. s \<noteq> base) (take 250 ?hs))"
  have "in_range base (take 250 history) = takeWhile (\<lambda>s. s \<noteq> base) (take 250 ?hs)" by (simp add: in_range_takeWhile take_map)
  also have "\<dots> = take n (take 250 ?hs)" unfolding n_def by (rule takeWhile_eq_take)
  finally have "in_range base (take 250 history) = take n (take 250 ?hs)" .
  moreover have le: "n \<le> 250" "n \<le> length (take 250 ?hs)"
    using length_takeWhile_le [of "\<lambda>s. s \<noteq> base" "take 250 ?hs"] by (auto simp: n_def)
  ultimately have shas: "in_range base (take 250 history) = take n ?hs" by (simp add: min_def)
  have "map_io (getCommitDiff fetch fj org repo) (rev (take n ?hs)) w = (Inr (map d (rev (take n ?hs))), w)"
    by (rule map_io_pure) (use assms(2) in_set_takeD in fastforce)
  then have run: "getDiff parse fetch fj org repo base headRef w = (Inr (join [CHR 0x0A] (map d (rev (take n ?hs)))), w)"
    using assms(1) shas by (simp add: getDiff_def)
  have "base \<notin> set (take n ?hs)"
    unfolding shas [symmetric] in_range_takeWhile by (auto dest: set_takeWhileD)
  moreover have "if base \<in> set (take 250 ?hs) then ?hs ! n = base else n = 250 \<or> n = length history"
  proof (cases "base \<in> set (take 250 ?hs)")
    case True
    then have "takeWhile (\<lambda>s. s \<noteq> base) (take 250 ?hs) \<noteq> take 250 ?hs" by (auto simp: takeWhile_eq_all_conv)
    then have "n \<noteq> length (take 250 ?hs)" unfolding n_def by (metis take_all_iff takeWhile_eq_take order_refl)
    then have "n < length (take 250 ?hs)" using le(2) by linarith
    then have "take 250 ?hs ! n = base" using nth_length_takeWhile [of "\<lambda>s. s \<noteq> base" "take 250 ?hs"] by (simp add: n_def)
    then show ?thesis using True \<open>n < length (take 250 ?hs)\<close> by simp
  next
    case False
    then have "takeWhile (\<lambda>s. s \<noteq> base) (take 250 ?hs) = take 250 ?hs" by (auto simp: takeWhile_eq_all_conv)
    then have "n = length (take 250 ?hs)" unfolding n_def by (simp only:)
    then show ?thesis using False by (simp add: min_def)
  qed
  ultimately show ?thesis using run le(1) by blast
qed

definition demo_rows :: "json list" where
  "demo_rows = map (\<lambda>s. JObj [(''sha'', JStr s)]) [''c3'', ''c2'', ''c1'']"

definition demo_history :: "unit fetch" where
  "demo_history q = ret \<lparr>fs_status = 200, fs_text = ''!''\<rparr>"

theorem getDiff_range_witness:
  "\<exists>n \<le> 250. getDiff (\<lambda>_. Some (JArr demo_rows)) demo_history \<lparr>fj_baseUrl = ''h'', fj_adminToken = ''t''\<rparr> ''o'' ''r'' ''c1'' ''main'' () =
     (Inr (join [CHR 0x0A] (map (\<lambda>_. ''!'') (rev (take n [''c3'', ''c2'', ''c1''])))), ()) \<and> [''c3'', ''c2'', ''c1''] ! n = ''c1''"
proof -
  let ?fj = "\<lparr>fj_baseUrl = ''h'', fj_adminToken = ''t''\<rparr>"
  have l: "forgejo_listCommits (\<lambda>_. Some (JArr demo_rows)) demo_history ?fj ''o'' ''r'' (Some ''main'') (Some 250) None () = (Inr (take 250 (map commit_of demo_rows)), ())"
    by (simp add: forgejo_listCommits_def api_def demo_history_def resp_ok_def parse_body_def Let_def demo_rows_def)
  have d: "getCommitDiff demo_history ?fj ''o'' ''r'' sha () = (Inr ''!'', ())" for sha
    by (simp add: getCommitDiff_def demo_history_def resp_ok_def Let_def)
  have shas: "map fc_sha (map commit_of demo_rows) = [''c3'', ''c2'', ''c1'']"
    by (simp add: demo_rows_def commit_of_def jfield_def Let_def)
  from getDiff_range [OF l, of "\<lambda>_. ''!''" "''c1''", OF d] show ?thesis unfolding shas by (simp; blast)
qed

section \<open>Credentials\<close>

datatype forgejo_call = FcHealthz | FcEnsureOrg string | FcEnsureRepo string string bool string "string option" | FcGetRepo string string
  | FcPutFile string string string codepoints string string "string option" | FcGetFile string string string "string option"
  | FcListCommits string string "string option" "nat option" "string option" | FcDiff string string string string
  | FcEnsureUser bytes string string | FcCollaborator string string string | FcDeleteRepo string string | FcDeleteOrg string
  | FcToken string string string

fun perform :: "json_parser \<Rightarrow> 'w fetch \<Rightarrow> forgejo_client \<Rightarrow> forgejo_call \<Rightarrow> ('w, forgejo_error, unit) io" where
  "perform p f fj FcHealthz = andthen (healthz f fj) (ret ())"
| "perform p f fj (FcEnsureOrg org) = ensureOrg p f fj org"
| "perform p f fj (FcEnsureRepo org repo b br d) = andthen (ensureRepo p f fj org repo b br d) (ret ())"
| "perform p f fj (FcGetRepo org repo) = andthen (getRepo p f fj org repo) (ret ())"
| "perform p f fj (FcPutFile org repo path c br m sha) = andthen (putFile p f fj org repo path c br m sha) (ret ())"
| "perform p f fj (FcGetFile org repo path r) = andthen (getFileContent p f fj org repo path r) (ret ())"
| "perform p f fj (FcListCommits org repo sha l path) = andthen (forgejo_listCommits p f fj org repo sha l path) (ret ())"
| "perform p f fj (FcDiff org repo b h) = andthen (getDiff p f fj org repo b h) (ret ())"
| "perform p f fj (FcEnsureUser r u e) = andthen (ensureUser p f fj r u e) (ret ())"
| "perform p f fj (FcCollaborator org repo u) = addRepoCollaborator p f fj org repo u"
| "perform p f fj (FcDeleteRepo org repo) = deleteRepo p f fj org repo"
| "perform p f fj (FcDeleteOrg org) = deleteOrg p f fj org"
| "perform p f fj (FcToken u pw t) = andthen (createUserScopedToken p f fj u pw t) (ret ())"

text \<open>A host that answers as it likes and keeps the requests.\<close>

definition logging :: "(fetch_request \<Rightarrow> forgejo_error + fetch_response) \<Rightarrow> fetch_request list fetch" where
  "logging ans q = (\<lambda>sent. (ans q, sent @ [q]))"

text \<open>A request to the host itself that shows the administrator's token in no other place than its authorization header.\<close>

definition admin_request :: "forgejo_client \<Rightarrow> fetch_request \<Rightarrow> bool" where
  "admin_request fj q \<longleftrightarrow> (\<exists>path. fq_url q = fj_baseUrl fj @ ''/api/'' @ path) \<and>
     (map_of (fq_headers q) ''authorization'' = Some (''token '' @ fj_adminToken fj) \<or> fq_headers q = [])"

definition only_admin :: "forgejo_client \<Rightarrow> fetch_request list \<Rightarrow> bool" where
  "only_admin fj sent \<longleftrightarrow> (\<forall>q \<in> set sent. admin_request fj q)"

lemma sends_parse [keeps]: "preserves (only_admin fj) (parse_body p t)"
  by (simp add: preserves_def parse_body_def split: option.split)

lemma sends_fetch [keeps]: "admin_request fj q \<Longrightarrow> preserves (only_admin fj) (logging ans q)"
  by (simp add: preserves_def logging_def only_admin_def)

lemma sends_api [keeps]: "preserves (only_admin fj) (api p (logging ans) fj meth path payload)"
  unfolding api_def by (intro keeps) (simp add: admin_request_def)

lemma sends_diff [keeps]: "preserves (only_admin fj) (getCommitDiff (logging ans) fj org repo sha)"
  unfolding getCommitDiff_def Let_def by (intro keeps) (simp add: admin_request_def)

lemma sends_list [keeps]: "preserves (only_admin fj) (forgejo_listCommits p (logging ans) fj org repo sha l path)"
proof -
  have "preserves (only_admin fj) (case rows of JArr rs \<Rightarrow> ret (map commit_of rs) | _ \<Rightarrow> throw e)" for rows e
    by (cases rows) (auto simp: preserves_def)
  then show ?thesis unfolding forgejo_listCommits_def Let_def by (intro keeps)
qed

lemma sends_health [keeps]: "preserves (only_admin fj) (healthz (logging ans) fj)"
  unfolding healthz_def by (intro keeps) (simp add: admin_request_def)

lemma perform_admin:
  assumes "\<And>u pw t. c \<noteq> FcToken u pw t"
  shows "preserves (only_admin fj) (perform p (logging ans) fj c)"
proof -
  note defs = ensureOrg_def ensureRepo_def getRepo_def putFile_def getFileContent_def getDiff_def ensureUser_def
    addRepoCollaborator_def deleteRepo_def deleteOrg_def Let_def
  show ?thesis
    using assms by (cases c; simp only: perform.simps defs; (intro keeps)?)
qed

text \<open>Property. Who the host is told to act as: every operation talks to the configured host only; all but the minting of a learner's token
  authenticate with the administrator's token in the authorization header, and the minting sends one request whose authorization is the learner's own
  name and password, in which the administrator's token has no part.\<close>

theorem credentials_sent:
  "case c of
     FcToken u pw t \<Rightarrow> \<exists>q encoded. snd (perform p (logging ans) fj c []) = [q] \<and> fq_url q = fj_baseUrl fj @ ''/api/v1/users/'' @ enc u @ ''/tokens'' \<and>
       map_of (fq_headers q) ''authorization'' = Some (''Basic '' @ encoded) \<and>
       utf8_decode (base64_decode encoded) = map of_char (u @ '':'' @ pw)
   | _ \<Rightarrow> only_admin fj (snd (perform p (logging ans) fj c []))"
proof (cases "\<exists>u pw t. c = FcToken u pw t")
  case True
  then obtain u pw t where c: "c = FcToken u pw t" by blast
  have "utf8_decode (base64_decode (base64_encode (utf8_encode (map of_char (u @ '':'' @ pw))))) = map of_char (u @ '':'' @ pw)"
    by (subst base64_roundtrip [OF utf8_encode_bytes], rule utf8_roundtrip) (auto simp: list_all_iff scalar_char is_scalar_def [of 58])
  moreover have "snd (perform p (logging ans) fj c []) = [\<lparr>fq_method = ''POST'', fq_url = fj_baseUrl fj @ ''/api/v1/users/'' @ enc u @ ''/tokens'',
      fq_headers = [(''authorization'', ''Basic '' @ base64_encode (utf8_encode (map of_char (u @ '':'' @ pw)))),
        (''content-type'', ''application/json''), (''accept'', ''application/json'')],
      fq_body = Some (JObj [(''name'', JStr t), (''scopes'', JArr [JStr ''write:repository''])])\<rparr>]"
    unfolding c by (simp add: createUserScopedToken_def logging_def andthen_def bnd_run Let_def split: sum.split option.split)
  ultimately show ?thesis unfolding c by auto
next
  case False
  then have "only_admin fj (snd (perform p (logging ans) fj c []))"
    using perform_admin [of c fj p ans] preservesD [of "only_admin fj" _ "[]"] by (metis only_admin_def list.set(1) empty_iff prod.collapse)
  then show ?thesis using False by (cases c) auto
qed

text \<open>More than 250 commits after the base are cut to the newest 250.\<close>

lemma getDiff_truncated:
  assumes "length history > 250" and "base \<notin> fc_sha ` set (take 250 history)"
  shows "length (in_range base (take 250 history)) = 250"
proof -
  have "takeWhile (\<lambda>s. s \<noteq> base) (map fc_sha (take 250 history)) = map fc_sha (take 250 history)"
    using assms(2) by (auto simp: takeWhile_eq_all_conv)
  then show ?thesis using assms(1) by (simp only: in_range_takeWhile length_map length_take)
qed

end
