(* ===== verification/ContentCi.thy ===== *)
theory ContentCi
  imports AttemptService JsRegex
begin

text \<open>
  \<open>scripts/content-ci.ts\<close>: the check an activity must pass before it is published. It provisions an environment, runs every validator
  on it untouched, applies the author's solution, runs the validators again several times, and destroys the environment. The
  orchestrator's calls, the clock and the files are parameters; the calls act on a world of any type. The
  console output is not modelled.
\<close>

section \<open>Model\<close>

record ci_validator =
  cv_id :: string
  cv_type :: string
  cv_run :: "string option"
  cv_expect :: "json option"

record ci_task =
  ct_key :: string
  ct_validators :: "ci_validator list"
  ct_solution_apply :: "string option"

record ci_seed =
  sd_fixture :: string
  sd_version :: "string option"

record ci_spec =
  cs_id :: string
  cs_tier :: string
  cs_blueprint :: string
  cs_seed :: "ci_seed list option"
  cs_tasks :: "ci_task list"
  cs_repo_path :: "string option"

text \<open>A call: the method, the message and the deadline in milliseconds.\<close>

record ci_call =
  cl_method :: string
  cl_request :: json
  cl_deadlineMs :: nat

type_synonym 'w ci_rpc = "ci_call \<Rightarrow> ('w, exn, json) io"

record ci_files =
  fl_load :: "string \<Rightarrow> exn + ci_spec"
  fl_exists :: "string \<Rightarrow> bool"
  fl_read :: "string \<Rightarrow> string"
  fl_stringify :: "json \<Rightarrow> string"

definition CI_TIER_MAP :: "(string \<times> string) list" where
  "CI_TIER_MAP = [(''BROWSER'', ''TIER_T0_BROWSER''), (''SHARED_CONTAINER'', ''TIER_T1_SHARED_CONTAINER''),
     (''ISOLATED_VM'', ''TIER_T2_ISOLATED_MICROVM''), (''CLOUD_ACCOUNT'', ''TIER_T3_CLOUD_ACCOUNT'')]"

definition T1_HOURLY_RATE_USD :: real where
  "T1_HOURLY_RATE_USD = 4/100"

definition field_str :: "string \<Rightarrow> json \<Rightarrow> string" where
  "field_str k r = (case jget r k of Some (JStr x) \<Rightarrow> x | _ \<Rightarrow> [])"

record ci_result =
  cr_id :: string
  cr_status :: string

definition validator_call :: "ci_files \<Rightarrow> string \<Rightarrow> string \<Rightarrow> ci_validator \<Rightarrow> ci_call" where
  "validator_call fl environmentId attemptId v = \<lparr>cl_method = ''ExecValidator'', cl_request = JObj [(''environmentId'', JStr environmentId),
     (''validatorId'', JStr (cv_id v)), (''validatorType'', JStr (cv_type v)), (''run'', JStr (case cv_run v of None \<Rightarrow> [] | Some r \<Rightarrow> r)),
     (''expectJson'', JStr (fl_stringify fl (case cv_expect v of None \<Rightarrow> JObj [] | Some e \<Rightarrow> e))), (''timeoutMs'', JNum 30000),
     (''attemptId'', JStr attemptId)], cl_deadlineMs = 60000\<rparr>"

definition runValidators :: "ci_files \<Rightarrow> 'w ci_rpc \<Rightarrow> string \<Rightarrow> string \<Rightarrow> ci_task list \<Rightarrow> ('w, exn, ci_result list) io" where
  "runValidators fl rpc environmentId attemptId tasks =
     map_io (\<lambda>v. bnd (rpc (validator_call fl environmentId attemptId v)) (\<lambda>response. ret \<lparr>cr_id = cv_id v, cr_status = field_str ''status'' response\<rparr>))
       (concat (map ct_validators tasks))"

text \<open>Paths are relative to \<open>ACTIVITIES_DIR\<close>.\<close>

definition solution_path :: "string \<Rightarrow> string \<Rightarrow> string" where
  "solution_path repoPath rel = repoPath @ ''/'' @ rel"

definition exit_zero :: "json \<Rightarrow> bool" where
  "exit_zero response \<longleftrightarrow> jget response ''exitCode'' = Some (JNum 0) \<or> jget response ''exitCode'' = Some (JStr ''0'')"

definition exit_text :: "json \<Rightarrow> string" where
  "exit_text response = (case jget response ''exitCode'' of
     Some (JStr t) \<Rightarrow> t
   | Some (JNum n) \<Rightarrow> (if n < 0 then ''-'' else []) @ show_nat (nat \<lfloor>\<bar>n\<bar>\<rfloor>)
   | _ \<Rightarrow> ''undefined'')"

definition applySolutions :: "ci_files \<Rightarrow> 'w ci_rpc \<Rightarrow> string \<Rightarrow> string \<Rightarrow> ci_task list \<Rightarrow> string \<Rightarrow> ('w, exn, unit) io" where
  "applySolutions fl rpc environmentId attemptId tasks repoPath =
     for_each tasks (\<lambda>task.
       if \<not> Prelude.truthy (ct_solution_apply task) then ret ()
       else let rel = the (ct_solution_apply task); scriptPath = solution_path repoPath rel in
         if \<not> fl_exists fl scriptPath then throw (Err (''solution_apply script not found: '' @ scriptPath))
         else bnd (rpc \<lparr>cl_method = ''ExecShell'', cl_request = JObj [(''environmentId'', JStr environmentId), (''command'', JStr (fl_read fl scriptPath)),
                (''timeoutMs'', JNum 90000), (''attemptId'', JStr attemptId)], cl_deadlineMs = 95000\<rparr>) (\<lambda>response.
              if field_str ''errorMessage'' response \<noteq> [] then throw (Err (''applying '' @ rel @ '' failed: '' @ field_str ''errorMessage'' response))
              else if \<not> exit_zero response then throw (Err (rel @ '' exited '' @ exit_text response @ '': stdout='' @ field_str ''stdout'' response @ '' stderr='' @ field_str ''stderr'' response))
              else ret ()))"

datatype solution_state = SolRunnable | SolNone string | SolPartial string

definition classifySolution :: "ci_files \<Rightarrow> ci_spec \<Rightarrow> solution_state" where
  "classifySolution fl spec =
     (if \<not> Prelude.truthy (cs_repo_path spec) then SolNone ''no reference_solution.repo_path authored''
      else
        let repoPath = the (cs_repo_path spec);
            declared = filter (\<lambda>t. Prelude.truthy (ct_solution_apply t)) (cs_tasks spec);
            missing = filter (\<lambda>rel. \<not> fl_exists fl (solution_path repoPath rel)) (map (\<lambda>t. the (ct_solution_apply t)) declared)
        in if length declared = 0 then SolNone ''reference_solution.repo_path declared but no task has solution_apply''
           else if length missing > 0 then SolPartial (''solution_apply script(s) missing on disk: '' @ join '', '' missing)
           else SolRunnable)"

text \<open>\<open>try { m } finally { d }\<close>: an error of \<open>d\<close> replaces the outcome of \<open>m\<close>.\<close>

definition try_finally :: "('s, 'e, 'a) io \<Rightarrow> ('s, 'e, 'b) io \<Rightarrow> ('s, 'e, 'a) io" where
  "try_finally m d = (\<lambda>s. case m s of (r, s') \<Rightarrow> (case d s' of (Inl e, s'') \<Rightarrow> (Inl e, s'') | (Inr _, s'') \<Rightarrow> (r, s'')))"

definition seed_fixtures :: "ci_spec \<Rightarrow> fixture_ref list" where
  "seed_fixtures spec = map (\<lambda>s. \<lparr>fx_fixtureId = sd_fixture s, fx_version = (case sd_version s of None \<Rightarrow> ''1'' | Some v \<Rightarrow> v)\<rparr>)
     (filter (\<lambda>s. sd_fixture s \<noteq> []) (case cs_seed spec of None \<Rightarrow> [] | Some xs \<Rightarrow> xs))"

definition ci_provision_call :: "ci_spec \<Rightarrow> string \<Rightarrow> ci_call" where
  "ci_provision_call spec attemptId = \<lparr>cl_method = ''Provision'', cl_request = JObj [(''attemptId'', JStr attemptId), (''blueprintId'', JStr (cs_blueprint spec)),
     (''blueprintVersion'', JStr ''1''), (''tier'', JStr (case map_of CI_TIER_MAP (cs_tier spec) of None \<Rightarrow> ''TIER_T1_SHARED_CONTAINER'' | Some t \<Rightarrow> t)),
     (''fixtures'', JArr (map (\<lambda>f. JObj [(''fixtureId'', JStr (fx_fixtureId f)), (''version'', JStr (fx_version f))]) (seed_fixtures spec))),
     (''ttlMinutes'', JNum 15), (''idleTimeoutMinutes'', JNum 10)], cl_deadlineMs = 60000\<rparr>"

definition destroy_call :: "string \<Rightarrow> string \<Rightarrow> ci_call" where
  "destroy_call environmentId attemptId = \<lparr>cl_method = ''Destroy'', cl_request = JObj [(''environmentId'', JStr environmentId), (''reason'', JStr ''admin''),
     (''attemptId'', JStr attemptId)], cl_deadlineMs = 60000\<rparr>"

text \<open>The statuses of one validator over the runs, as \<open>find\<close> sees them; again than one makes it flaky.\<close>

definition status_in :: "string \<Rightarrow> ci_result list \<Rightarrow> string option" where
  "status_in i r = map_option cr_status (find_row (\<lambda>x. cr_id x = i) r)"

definition flaky :: "ci_result list list \<Rightarrow> ci_validator \<Rightarrow> bool" where
  "flaky runs v \<longleftrightarrow> length (remdups (map (status_in (cv_id v)) runs)) > 1"

record ci_settings =
  ci_flakeRuns :: nat
  ci_budgetUsd :: real

definition estimatedCostUsd :: "int \<Rightarrow> real" where
  "estimatedCostUsd elapsedMs = of_int elapsedMs / (1000 * 60 * 60) * T1_HOURLY_RATE_USD"

text \<open>The body of the \<open>try\<close> block: the four verdicts.\<close>

definition verify_environment ::
    "ci_settings \<Rightarrow> ci_files \<Rightarrow> ('w \<Rightarrow> int) \<Rightarrow> 'w ci_rpc \<Rightarrow> ci_spec \<Rightarrow> string \<Rightarrow> string \<Rightarrow> string \<Rightarrow> int \<Rightarrow> ('w, exn, bool) io" where
  "verify_environment st fl now rpc spec repoPath environmentId attemptId startedAt =
     (let run = runValidators fl rpc environmentId attemptId (cs_tasks spec) in
      bnd run (\<lambda>nullResults.
      andthen (applySolutions fl rpc environmentId attemptId (cs_tasks spec) repoPath)
      (bnd run (\<lambda>goldenResults.
      bnd (map_io (\<lambda>_. run) [1..<ci_flakeRuns st]) (\<lambda>again.
      bnd (query now) (\<lambda>finishedAt.
      ret (\<not> list_ex (\<lambda>r. cr_status r = ''PASS'') nullResults \<and>
           \<not> list_ex (\<lambda>r. cr_status r \<noteq> ''PASS'') goldenResults \<and>
           \<not> list_ex (flaky (goldenResults # again)) (concat (map ct_validators (cs_tasks spec))) \<and>
           \<not> estimatedCostUsd (finishedAt - startedAt) > ci_budgetUsd st)))))))"

definition checkActivity ::
    "ci_settings \<Rightarrow> ci_files \<Rightarrow> ('w \<Rightarrow> int) \<Rightarrow> 'w ci_rpc \<Rightarrow> string \<Rightarrow> bool \<Rightarrow> string \<Rightarrow> ('w, exn, bool) io" where
  "checkActivity st fl now rpc file explicitlyRequested attemptId =
     bnd (call (fl_load fl file)) (\<lambda>spec.
     if classifySolution fl spec \<noteq> SolRunnable then ret (\<not> explicitlyRequested)
     else bnd (query now) (\<lambda>startedAt.
       bnd (rpc (ci_provision_call spec attemptId)) (\<lambda>provisionResp.
       if field_str ''status'' provisionResp \<noteq> ''ENVIRONMENT_STATUS_READY'' then ret False
       else let environmentId = field_str ''environmentId'' provisionResp in
         try_finally (verify_environment st fl now rpc spec (the (cs_repo_path spec)) environmentId attemptId startedAt)
           (rpc (destroy_call environmentId attemptId)))))"

definition parseSelectors :: "string list \<Rightarrow> string list" where
  "parseSelectors argv = filter (\<lambda>s. s \<noteq> []) (map js_trim (concat (map (split_on (CHR '','')) argv)))"

text \<open>The files of the selectors, or \<open>None\<close> when one of them matches no file.\<close>

fun select_files :: "string list \<Rightarrow> string list \<Rightarrow> string list \<Rightarrow> bool \<Rightarrow> string list option" where
  "select_files allFiles [] files missing = (if missing then None else Some files)"
| "select_files allFiles (sel # sels) files missing =
     (let matched = filter (\<lambda>f. str_includes f sel) allFiles in
      if length matched = 0 then select_files allFiles sels files True
      else select_files allFiles sels (files @ filter (\<lambda>m. m \<notin> set files) matched) missing)"

text \<open>The loop over the files; \<open>uuid\<close> draws the attempt identifier of each.\<close>

definition check_all :: "ci_settings \<Rightarrow> ci_files \<Rightarrow> ('w \<Rightarrow> int) \<Rightarrow> 'w ci_rpc \<Rightarrow> bool \<Rightarrow> (string \<Rightarrow> string) \<Rightarrow> string list \<Rightarrow> ('w, exn, bool) io" where
  "check_all st fl now rpc explicit uuid files =
     bnd (map_io (\<lambda>file. try_catch (checkActivity st fl now rpc file explicit (uuid file)) (\<lambda>_. ret False)) files) (\<lambda>oks.
     ret (list_all id oks))"

text \<open>The exit code.\<close>

definition ci_main ::
    "ci_settings \<Rightarrow> ci_files \<Rightarrow> ('w \<Rightarrow> int) \<Rightarrow> 'w ci_rpc \<Rightarrow> (string \<Rightarrow> string) \<Rightarrow> string list \<Rightarrow> string list \<Rightarrow> ('w, exn, nat) io" where
  "ci_main st fl now rpc uuid directory argv =
     (let selectors = parseSelectors argv; explicit = length selectors > 0;
          allFiles = filter (\<lambda>f. length f \<ge> 5 \<and> drop (length f - 5) f = ''.yaml'') directory in
      case (if \<not> explicit then Some allFiles else select_files allFiles selectors [] False) of
        None \<Rightarrow> ret 1
      | Some files \<Rightarrow> bnd (check_all st fl now rpc explicit uuid files) (\<lambda>allOk. ret (if allOk then 0 else 1)))"

section \<open>What a pass means\<close>

abbreviation validators_of :: "ci_spec \<Rightarrow> ci_validator list" where
  "validators_of spec \<equiv> concat (map ct_validators (cs_tasks spec))"

lemma map_io_ConsE:
  assumes "map_io f (x # xs) w = (Inr ys, w')"
  obtains z w1 zs where "f x w = (Inr z, w1)" and "map_io f xs w1 = (Inr zs, w')" and "ys = z # zs"
  using assms by (auto simp: bnd_run split: prod.splits sum.splits)

lemma map_io_ids:
  assumes "map_io (\<lambda>v. bnd (rpc (c v)) (\<lambda>x. ret \<lparr>cr_id = cv_id v, cr_status = g x\<rparr>)) vs w = (Inr rs, w')"
  shows "map cr_id rs = map cv_id vs"
  using assms
proof (induction vs arbitrary: w rs)
  case (Cons v vs)
  let ?f = "\<lambda>v. bnd (rpc (c v)) (\<lambda>x. ret \<lparr>cr_id = cv_id v, cr_status = g x\<rparr>)"
  obtain z w1 zs where z: "?f v w = (Inr z, w1)" "map_io ?f vs w1 = (Inr zs, w')" "rs = z # zs"
    by (rule map_io_ConsE [OF Cons.prems])
  have "cr_id z = cv_id v" using z(1) by (auto simp: bnd_run split: prod.splits sum.splits)
  then show ?case using Cons.IH [OF z(2)] z(3) by simp
qed simp

lemma runValidators_ids: "runValidators fl rpc e a (cs_tasks spec) w = (Inr rs, w') \<Longrightarrow> map cr_id rs = map cv_id (validators_of spec)"
  unfolding runValidators_def by (rule map_io_ids)

lemma map_io_all: "map_io f xs w = (Inr ys, w') \<Longrightarrow> (\<And>x u y u'. x \<in> set xs \<Longrightarrow> f x u = (Inr y, u') \<Longrightarrow> P y) \<Longrightarrow> y \<in> set ys \<Longrightarrow> P y"
proof (induction xs arbitrary: w ys)
  case (Cons x xs)
  obtain z w1 zs where "f x w = (Inr z, w1)" "map_io f xs w1 = (Inr zs, w')" "ys = z # zs"
    by (rule map_io_ConsE [OF Cons.prems(1)])
  then show ?case using Cons.IH [of w1 zs] Cons.prems(2,3) by (metis list.set_intros(1,2) set_ConsD)
qed simp

lemma status_in_distinct: "distinct (map cr_id r) \<Longrightarrow> x \<in> set r \<Longrightarrow> status_in (cr_id x) r = Some (cr_status x)"
proof (induction r)
  case (Cons y r)
  then show ?case by (auto simp: status_in_def)
qed simp

lemma one_status: "\<not> length (remdups (x # xs)) > 1 \<Longrightarrow> y \<in> set xs \<Longrightarrow> y = x"
proof -
  assume "\<not> length (remdups (x # xs)) > 1" "y \<in> set xs"
  then have "card (insert x (set xs)) \<le> 1" by (metis length_remdups_card_conv list.simps(15) not_less)
  moreover have "{x, y} \<subseteq> insert x (set xs)" using \<open>y \<in> set xs\<close> by simp
  ultimately have "card {x, y} \<le> 1" by (meson card_mono finite_insert List.finite_set le_trans)
  then show ?thesis by (cases "x = y") auto
qed

text \<open>When no validator is flaky and the first run passes, every run passes.\<close>

lemma stable_runs:
  assumes "distinct (map cv_id vs)" and "\<And>r. r \<in> set (golden # again) \<Longrightarrow> map cr_id r = map cv_id vs"
    and "\<not> list_ex (flaky (golden # again)) vs" and "\<forall>x \<in> set golden. cr_status x = ''PASS''" and "r \<in> set again" and "x \<in> set r"
  shows "cr_status x = ''PASS''"
proof -
  have ids: "map cr_id r = map cv_id vs" "map cr_id golden = map cv_id vs" using assms(2,5) by auto
  then have "cr_id x \<in> set (map cv_id vs)" using assms(6) by (metis image_eqI list.set_map)
  then obtain v where v: "v \<in> set vs" "cv_id v = cr_id x" by auto
  have "cv_id v \<in> set (map cr_id golden)" using v(1) ids(2) by simp
  then obtain g where g: "g \<in> set golden" "cr_id g = cr_id x" using v(2) by auto
  have "\<not> length (remdups (map (status_in (cr_id x)) (golden # again))) > 1"
    using assms(3) v by (auto simp: list_ex_iff flaky_def)
  then have "status_in (cr_id x) r = status_in (cr_id x) golden"
    using one_status [of "status_in (cr_id x) golden" "map (status_in (cr_id x)) again"] assms(5) by simp
  then show ?thesis
    using status_in_distinct [of r x] status_in_distinct [of golden g] ids assms(1,4,6) g by simp
qed

lemma verify_true:
  assumes "verify_environment st fl now rpc spec repo e a t0 w1 = (Inr True, w5)" and "distinct (map cv_id (validators_of spec))"
  obtains nulls w2 w3 runs where "runValidators fl rpc e a (cs_tasks spec) w1 = (Inr nulls, w2)" and "\<forall>r \<in> set nulls. cr_status r \<noteq> ''PASS''"
    and "applySolutions fl rpc e a (cs_tasks spec) repo w2 = (Inr (), w3)"
    and "map_io (\<lambda>_. runValidators fl rpc e a (cs_tasks spec)) [0..<max 1 (ci_flakeRuns st)] w3 = (Inr runs, w5)"
    and "\<forall>run \<in> set runs. map cr_id run = map cv_id (validators_of spec) \<and> (\<forall>r \<in> set run. cr_status r = ''PASS'')"
    and "estimatedCostUsd (now w5 - t0) \<le> ci_budgetUsd st"
proof -
  let ?run = "runValidators fl rpc e a (cs_tasks spec)"
  obtain nulls w2 w3 golden w4 again where r: "?run w1 = (Inr nulls, w2)" "applySolutions fl rpc e a (cs_tasks spec) repo w2 = (Inr (), w3)"
      "?run w3 = (Inr golden, w4)" "map_io (\<lambda>_. ?run) [1..<ci_flakeRuns st] w4 = (Inr again, w5)"
    and ok: "\<not> list_ex (\<lambda>r. cr_status r = ''PASS'') nulls" "\<not> list_ex (\<lambda>r. cr_status r \<noteq> ''PASS'') golden"
      "\<not> list_ex (flaky (golden # again)) (validators_of spec)" "\<not> estimatedCostUsd (now w5 - t0) > ci_budgetUsd st"
    using assms(1) by (auto simp: verify_environment_def Let_def bnd_run andthen_def split: prod.splits sum.splits)
  have "max 1 (ci_flakeRuns st) = Suc (max 1 (ci_flakeRuns st) - 1)" by simp
  then have up: "[0..<max 1 (ci_flakeRuns st)] = 0 # [1..<ci_flakeRuns st]" by (simp add: upt_rec max_def)
  have ids: "map cr_id run = map cv_id (validators_of spec)" if "run \<in> set (golden # again)" for run
  proof (cases "run = golden")
    case True
    then show ?thesis using runValidators_ids [OF r(3)] by simp
  next
    case False
    then have "run \<in> set again" using that by simp
    then show ?thesis by (rule map_io_all [OF r(4), rotated]) (rule runValidators_ids)
  qed
  have pass: "\<forall>x \<in> set golden. cr_status x = ''PASS''" using ok(2) by (auto simp: list_ex_iff)
  have all: "\<forall>run \<in> set (golden # again). map cr_id run = map cv_id (validators_of spec) \<and> (\<forall>r \<in> set run. cr_status r = ''PASS'')"
    using ids pass stable_runs [OF assms(2) ids ok(3) pass] by auto
  have io: "map_io (\<lambda>_. ?run) [0..<max 1 (ci_flakeRuns st)] w3 = (Inr (golden # again), w5)"
    unfolding up using r by simp
  show ?thesis
    by (rule that [OF r(1) _ r(2) io all]) (use ok in \<open>auto simp: list_ex_iff not_less\<close>)
qed

lemma runnable_iff:
  "classifySolution fl spec = SolRunnable \<longleftrightarrow> Prelude.truthy (cs_repo_path spec) \<and>
     (\<exists>t \<in> set (cs_tasks spec). Prelude.truthy (ct_solution_apply t)) \<and>
     (\<forall>t \<in> set (cs_tasks spec). Prelude.truthy (ct_solution_apply t) \<longrightarrow>
        fl_exists fl (solution_path (the (cs_repo_path spec)) (the (ct_solution_apply t))))"
  by (auto simp: classifySolution_def Let_def filter_empty_conv)

section \<open>Properties\<close>

text \<open>C28. What a passed check guarantees: when an explicitly requested activity passes, an environment became ready from the activity's own
  blueprint; on it untouched no validator passed; the author's solutions were applied without error; and in each of the runs after that, at least one and as many as configured,
  every validator of every task passed; all this within the cost budget. Validators are told apart by their identifiers.\<close>

theorem ci_pass_sound:
  assumes "checkActivity st fl now rpc file True a w = (Inr True, w')" and "fl_load fl file = Inr spec"
    and "distinct (map cv_id (validators_of spec))"
  shows "\<exists>resp w1 nulls w2 w3 runs w4.
    rpc (ci_provision_call spec a) w = (Inr resp, w1) \<and> field_str ''status'' resp = ''ENVIRONMENT_STATUS_READY'' \<and>
    runValidators fl rpc (field_str ''environmentId'' resp) a (cs_tasks spec) w1 = (Inr nulls, w2) \<and> (\<forall>r \<in> set nulls. cr_status r \<noteq> ''PASS'') \<and>
    applySolutions fl rpc (field_str ''environmentId'' resp) a (cs_tasks spec) (the (cs_repo_path spec)) w2 = (Inr (), w3) \<and>
    map_io (\<lambda>_. runValidators fl rpc (field_str ''environmentId'' resp) a (cs_tasks spec)) [0..<max 1 (ci_flakeRuns st)] w3 = (Inr runs, w4) \<and>
    (\<forall>run \<in> set runs. map cr_id run = map cv_id (validators_of spec) \<and> (\<forall>r \<in> set run. cr_status r = ''PASS'')) \<and>
    estimatedCostUsd (now w4 - now w) \<le> ci_budgetUsd st \<and> classifySolution fl spec = SolRunnable"
proof -
  have run: "classifySolution fl spec = SolRunnable"
    using assms(1,2) by (auto simp: checkActivity_def split: if_splits)
  obtain resp w1 where p: "rpc (ci_provision_call spec a) w = (Inr resp, w1)" "field_str ''status'' resp = ''ENVIRONMENT_STATUS_READY''"
      "try_finally (verify_environment st fl now rpc spec (the (cs_repo_path spec)) (field_str ''environmentId'' resp) a (now w))
         (rpc (destroy_call (field_str ''environmentId'' resp) a)) w1 = (Inr True, w')"
    using assms(1,2) run by (auto simp: checkActivity_def bnd_run Let_def split: prod.splits sum.splits if_splits)
  obtain w4 where v: "verify_environment st fl now rpc spec (the (cs_repo_path spec)) (field_str ''environmentId'' resp) a (now w) w1 = (Inr True, w4)"
    using p(3) by (auto simp: try_finally_def split: prod.splits sum.splits)
  show ?thesis by (rule verify_true [OF v assms(3)]) (use p(1,2) run in blast)
qed

definition demo_ci_rpc :: "bool ci_rpc" where
  "demo_ci_rpc c = (\<lambda>solved.
     if cl_method c = ''Provision'' then (Inr (JObj [(''status'', JStr ''ENVIRONMENT_STATUS_READY''), (''environmentId'', JStr ''e'')]), False)
     else if cl_method c = ''ExecShell'' then (Inr (JObj [(''exitCode'', JNum 0)]), True)
     else if cl_method c = ''ExecValidator'' then (Inr (JObj [(''status'', JStr (if solved then ''PASS'' else ''FAIL''))]), solved)
     else (Inr (JObj []), solved))"

definition demo_ci_spec :: ci_spec where
  "demo_ci_spec = \<lparr>cs_id = ''lab'', cs_tier = ''SHARED_CONTAINER'', cs_blueprint = ''bp'', cs_seed = None,
     cs_tasks = [\<lparr>ct_key = ''t1'', ct_validators = [\<lparr>cv_id = ''v1'', cv_type = ''SHELL_ASSERT'', cv_run = None, cv_expect = None\<rparr>], ct_solution_apply = Some ''s.sh''\<rparr>],
     cs_repo_path = Some ''sol''\<rparr>"

definition demo_ci_files :: ci_files where
  "demo_ci_files = \<lparr>fl_load = (\<lambda>_. Inr demo_ci_spec), fl_exists = (\<lambda>_. True), fl_read = (\<lambda>_. ''touch x''), fl_stringify = (\<lambda>_. ''{}'')\<rparr>"

definition demo_ci_settings :: ci_settings where
  "demo_ci_settings = \<lparr>ci_flakeRuns = 2, ci_budgetUsd = 8/100\<rparr>"

lemma demo_ci_run: "checkActivity demo_ci_settings demo_ci_files (\<lambda>_. 0) demo_ci_rpc ''lab.yaml'' True ''a'' False = (Inr True, True)"
  by (simp add: checkActivity_def demo_ci_files_def demo_ci_spec_def demo_ci_rpc_def classifySolution_def Prelude.truthy_def ci_provision_call_def destroy_call_def
      verify_environment_def runValidators_def applySolutions_def validator_call_def try_finally_def field_str_def exit_zero_def Let_def
      demo_ci_settings_def flaky_def status_in_def estimatedCostUsd_def bnd_run andthen_def numeral_2_eq_2)

theorem ci_pass_sound_witness:
  "\<exists>nulls w2. runValidators demo_ci_files demo_ci_rpc ''e'' ''a'' (cs_tasks demo_ci_spec) False = (Inr nulls, w2) \<and> (\<forall>r \<in> set nulls. cr_status r \<noteq> ''PASS'')"
proof -
  have l: "fl_load demo_ci_files ''lab.yaml'' = Inr demo_ci_spec" by (simp add: demo_ci_files_def)
  have d: "distinct (map cv_id (validators_of demo_ci_spec))" by (simp add: demo_ci_spec_def)
  from ci_pass_sound [OF demo_ci_run l d] show ?thesis
    by (auto simp: demo_ci_rpc_def ci_provision_call_def field_str_def)
qed

text \<open>Calls as they are made, answered depending on what was asked before.\<close>

definition ci_recorder :: "(ci_call list \<Rightarrow> ci_call \<Rightarrow> exn + json) \<Rightarrow> ci_call list ci_rpc" where
  "ci_recorder ans c = (\<lambda>sent. (ans sent c, sent @ [c]))"

lemma finally_last: "\<exists>before. snd (try_finally m (ci_recorder ans c) sent) = before @ [c]"
  by (cases "m sent") (auto simp: try_finally_def ci_recorder_def split: sum.split)

text \<open>Property. No environment of a check is left running: once the orchestrator reported the environment ready, the last call of the check is the
  destruction of that environment, for the attempt it was provisioned for, whatever the validators, the solution scripts or the
  orchestrator did in between, errors included; and an activity without a runnable solution makes no call at all.\<close>

theorem ci_environment_destroyed:
  assumes "fl_load fl file = Inr spec"
  shows "if classifySolution fl spec \<noteq> SolRunnable
    then checkActivity st fl now (ci_recorder ans) file explicitly a [] = (Inr (\<not> explicitly), [])
    else case ans [] (ci_provision_call spec a) of
      Inl e \<Rightarrow> checkActivity st fl now (ci_recorder ans) file explicitly a [] = (Inl e, [ci_provision_call spec a])
    | Inr resp \<Rightarrow> if field_str ''status'' resp = ''ENVIRONMENT_STATUS_READY''
        then \<exists>before. snd (checkActivity st fl now (ci_recorder ans) file explicitly a []) = before @ [destroy_call (field_str ''environmentId'' resp) a]
        else checkActivity st fl now (ci_recorder ans) file explicitly a [] = (Inr False, [ci_provision_call spec a])"
proof (cases "ans [] (ci_provision_call spec a)")
  case (Inr resp)
  have "ci_recorder ans (ci_provision_call spec a) [] = (Inr resp, [ci_provision_call spec a])" using Inr by (simp add: ci_recorder_def)
  then show ?thesis using assms Inr by (simp add: checkActivity_def Let_def finally_last)
qed (use assms in \<open>simp add: checkActivity_def ci_recorder_def\<close>)

theorem ci_environment_destroyed_witness:
  "\<exists>before. snd (checkActivity demo_ci_settings demo_ci_files (\<lambda>_. 0)
      (ci_recorder (\<lambda>_ c. if cl_method c = ''Provision'' then Inr (JObj [(''status'', JStr ''ENVIRONMENT_STATUS_READY''), (''environmentId'', JStr ''e'')])
         else Inl (RemoteErr ''down''))) ''lab.yaml'' False ''a'' []) = before @ [destroy_call ''e'' ''a'']"
proof -
  have l: "fl_load demo_ci_files ''lab.yaml'' = Inr demo_ci_spec" by (simp add: demo_ci_files_def)
  show ?thesis
    using ci_environment_destroyed [OF l, of demo_ci_settings "\<lambda>_. 0" "\<lambda>_ c. if cl_method c = ''Provision''
        then Inr (JObj [(''status'', JStr ''ENVIRONMENT_STATUS_READY''), (''environmentId'', JStr ''e'')]) else Inl (RemoteErr ''down'')" False "''a''"]
    by (simp add: classifySolution_def demo_ci_files_def demo_ci_spec_def Prelude.truthy_def ci_provision_call_def field_str_def)
qed

text \<open>An environment that is not ready is never destroyed.\<close>

lemma ci_failed_environment_kept:
  assumes "fl_load fl file = Inr spec" and "classifySolution fl spec = SolRunnable"
    and "ans [] (ci_provision_call spec a) = Inr (JObj [(''status'', JStr ''ENVIRONMENT_STATUS_PROVISION_FAILED''), (''environmentId'', JStr e)])"
  shows "checkActivity st fl now (ci_recorder ans) file explicitly a [] = (Inr False, [ci_provision_call spec a])"
  using assms by (simp add: checkActivity_def ci_recorder_def field_str_def)

text \<open>A fixture named for its second version is requested in its first one, where the attempt service asks for the second.\<close>

lemma ci_fixture_version:
  assumes "cs_seed spec = Some [\<lparr>sd_fixture = ''fx.app.v2'', sd_version = None\<rparr>]"
  shows "map fx_version (seed_fixtures spec) = [''1'']" and "fx_version (fixture_of ''fx.app.v2'') = ''2''"
  using assms by (simp_all add: seed_fixtures_def fixture_of_def version_suffix_def AttemptService.is_digit_def Let_def)

section \<open>The exit code\<close>

lemma select_files_spec:
  assumes "select_files allFiles sels files missing = Some fs"
  shows "\<not> missing \<and> set files \<subseteq> set fs \<and> (\<forall>sel \<in> set sels. (\<exists>f \<in> set allFiles. str_includes f sel) \<and> (\<forall>f \<in> set allFiles. str_includes f sel \<longrightarrow> f \<in> set fs))"
  using assms
proof (induction sels arbitrary: files missing)
  case (Cons sel sels)
  show ?case
  proof (cases "filter (\<lambda>f. str_includes f sel) allFiles = []")
    case True
    then show ?thesis using Cons by (auto simp: Let_def)
  next
    case False
    then have "\<exists>f \<in> set allFiles. str_includes f sel" by (auto simp: filter_empty_conv)
    moreover have "select_files allFiles sels (files @ filter (\<lambda>m. m \<notin> set files) (filter (\<lambda>f. str_includes f sel) allFiles)) missing = Some fs"
      using Cons.prems False by (simp add: Let_def)
    ultimately show ?thesis using Cons.IH by fastforce
  qed
qed (simp split: if_splits)

lemma map_io_each: "map_io g xs v = (Inr oks, v') \<Longrightarrow> list_all id oks \<Longrightarrow> x \<in> set xs \<Longrightarrow> \<exists>u u'. g x u = (Inr True, u')"
proof (induction xs arbitrary: v oks)
  case (Cons y xs)
  obtain z v1 zs where z: "g y v = (Inr z, v1)" "map_io g xs v1 = (Inr zs, v')" "oks = z # zs"
    by (rule map_io_ConsE [OF Cons.prems(1)])
  then show ?case using Cons.IH [OF z(2)] Cons.prems(2,3) by (cases "x = y") auto
qed simp

lemma map_io_total: "(\<And>x w. \<exists>b u. g x w = (Inr b, u)) \<Longrightarrow> \<exists>bs u. map_io g xs w = (Inr bs, u)"
proof (induction xs arbitrary: w)
  case (Cons x xs)
  obtain b u where b: "g x w = (Inr b, u)" using Cons.prems by blast
  obtain bs v where "map_io g xs u = (Inr bs, v)" using Cons by blast
  then show ?case using b by simp
qed simp

definition checked :: "ci_settings \<Rightarrow> ci_files \<Rightarrow> ('w \<Rightarrow> int) \<Rightarrow> 'w ci_rpc \<Rightarrow> bool \<Rightarrow> (string \<Rightarrow> string) \<Rightarrow> string \<Rightarrow> ('w, exn, bool) io" where
  "checked st fl now rpc explicit uuid file = try_catch (checkActivity st fl now rpc file explicit (uuid file)) (\<lambda>_. ret False)"

lemma check_all_checked: "check_all st fl now rpc explicit uuid files = bnd (map_io (checked st fl now rpc explicit uuid) files) (\<lambda>oks. ret (list_all id oks))"
  by (simp add: check_all_def checked_def [abs_def])

lemma check_all_ok:
  assumes "check_all st fl now rpc explicit uuid files w = (Inr True, w')" and "f \<in> set files"
  shows "\<exists>u u'. checkActivity st fl now rpc f explicit (uuid f) u = (Inr True, u')"
proof -
  obtain oks where "map_io (checked st fl now rpc explicit uuid) files w = (Inr oks, w')" "list_all id oks"
    using assms(1) by (auto simp: check_all_checked bnd_run split: prod.splits sum.splits)
  then obtain u u' where "checked st fl now rpc explicit uuid f u = (Inr True, u')" using map_io_each assms(2) by metis
  then show ?thesis by (auto simp: checked_def try_catch_def split: prod.splits sum.splits)
qed

lemma check_all_total: "\<exists>b u. check_all st fl now rpc explicit uuid files w = (Inr b, u)"
proof -
  have "\<exists>b u. checked st fl now rpc explicit uuid f w = (Inr b, u)" for f w
    by (auto simp: checked_def try_catch_def split: prod.split sum.split)
  then obtain oks u where "map_io (checked st fl now rpc explicit uuid) files w = (Inr oks, u)" using map_io_total by metis
  then show ?thesis by (simp add: check_all_checked)
qed

text \<open>Property. The exit code of the check is trustworthy: 0 for explicitly named activities means that
  every name matched a file and that every matching file was loaded, has a runnable solution and passed.\<close>

theorem ci_exit_zero:
  assumes "ci_main st fl now rpc uuid directory argv w = (Inr 0, w')" and "sel \<in> set (parseSelectors argv)"
  shows "(\<exists>f \<in> set directory. str_includes f sel) \<and>
    (\<forall>f \<in> set directory. str_includes f sel \<and> length f \<ge> 5 \<and> drop (length f - 5) f = ''.yaml'' \<longrightarrow>
       (\<exists>u u'. checkActivity st fl now rpc f True (uuid f) u = (Inr True, u')) \<and>
       (\<exists>spec. fl_load fl f = Inr spec \<and> classifySolution fl spec = SolRunnable))"
proof -
  let ?yaml = "\<lambda>f :: string. length f \<ge> 5 \<and> drop (length f - 5) f = ''.yaml''"
  let ?all = "filter ?yaml directory"
  have some: "length (parseSelectors argv) > 0" using assms(2) by (cases "parseSelectors argv") auto
  obtain fs where fs: "select_files ?all (parseSelectors argv) [] False = Some fs"
    and run: "check_all st fl now rpc True uuid fs w = (Inr True, w')"
    using assms(1) some by (auto simp: ci_main_def Let_def bnd_run split: option.splits prod.splits sum.splits if_splits)
  note spec = select_files_spec [OF fs]
  have passed: "\<exists>u u'. checkActivity st fl now rpc f True (uuid f) u = (Inr True, u')" if "f \<in> set directory" "str_includes f sel" "?yaml f" for f
    using check_all_ok [OF run, of f] spec assms(2) that by auto
  have loaded: "\<exists>spec. fl_load fl f = Inr spec \<and> classifySolution fl spec = SolRunnable"
    if "checkActivity st fl now rpc f True a u = (Inr True, u')" for f a u u'
    using that by (cases "fl_load fl f") (auto simp: checkActivity_def split: if_splits)
  have "\<exists>f \<in> set directory. str_includes f sel" using spec assms(2) by auto
  then show ?thesis using passed loaded by blast
qed

theorem ci_exit_zero_witness:
  "ci_main demo_ci_settings demo_ci_files (\<lambda>_. 0) demo_ci_rpc (\<lambda>_. ''a'') [''lab.yaml''] [''lab''] False = (Inr 0, True) \<and>
   (\<exists>spec. fl_load demo_ci_files ''lab.yaml'' = Inr spec \<and> classifySolution demo_ci_files spec = SolRunnable)"
proof -
  have s: "parseSelectors [''lab''] = [''lab'']" by (simp add: parseSelectors_def js_trim_def js_space_def char_code_def)
  have run: "ci_main demo_ci_settings demo_ci_files (\<lambda>_. 0) demo_ci_rpc (\<lambda>_. ''a'') [''lab.yaml''] [''lab''] False = (Inr 0, True)"
    by (simp add: ci_main_def s Let_def check_all_def demo_ci_run)
  show ?thesis using ci_exit_zero [OF run, of "''lab''"] run by (simp add: s)
qed

lemma ci_main_total: "\<exists>code u. ci_main st fl now rpc uuid directory argv w = (Inr code, u) \<and> code \<in> {0, 1}"
proof -
  have "\<exists>code u. bnd (check_all st fl now rpc explicit uuid files) (\<lambda>allOk. ret (if allOk then 0 else 1)) w = (Inr code, u) \<and> code \<in> {0, 1 :: nat}" for explicit files
    using check_all_total [of st fl now rpc explicit uuid files w] by auto
  then show ?thesis unfolding ci_main_def Let_def by (auto split: option.split)
qed

end
