(* ===== verification/Calibration.thy ===== *)
theory Calibration
  imports WeightedKappa AiGrader JsRegex
begin

text \<open>
  \<open>scripts/rubric-calibrate.ts\<close>: whether a rubric may be trusted. The grader is run on cases scored by experts, its agreement is measured by
  the weighted kappa of \<open>WeightedKappa\<close>, and a case with an injected instruction must be graded low and flagged. YAML, files and the grader are
  parameters; the console output is not modelled. The result is the exit code; an exception makes it 1.
\<close>

section \<open>Model: cases\<close>

record case_front =
  cf_case_id :: string
  cf_constraints_id :: string
  cf_adversarial :: bool
  cf_sme_scores :: "(string \<times> real) list"

record calibration_case =
  ca_front :: case_front
  ca_designText :: string

text \<open>The match of \<open>/^---\n([\s\S]*?)\n---\n?([\s\S]*)$/\<close>: the front matter and the text after it.\<close>

fun until_fence :: "string \<Rightarrow> string \<Rightarrow> (string \<times> string) option" where
  "until_fence acc [] = None"
| "until_fence acc (c # cs) =
     (if starts_with (c # cs) (CHR 0x0A # ''---'')
      then let after = drop 3 cs in Some (rev acc, case after of d # ds \<Rightarrow> if d = CHR 0x0A then ds else after | [] \<Rightarrow> [])
      else until_fence (c # acc) cs)"

definition front_matter :: "string \<Rightarrow> (string \<times> string) option" where
  "front_matter contents = (if starts_with contents (''---'' @ [CHR 0x0A]) then until_fence [] (drop 4 contents) else None)"

text \<open>\<open>load\<close> is \<open>yaml.load\<close>: \<open>None\<close> when a required field is missing.\<close>

definition parseCaseFile :: "(string \<Rightarrow> case_front option) \<Rightarrow> string \<Rightarrow> string \<Rightarrow> exn + calibration_case" where
  "parseCaseFile load file contents =
     (case front_matter contents of
        None \<Rightarrow> Inl (Err (file @ '': missing YAML front-matter''))
      | Some (front, design) \<Rightarrow> (case load front of
          None \<Rightarrow> Inl (Err (file @ '': front-matter needs case_id, constraints_id, sme_scores''))
        | Some f \<Rightarrow> Inr \<lparr>ca_front = f, ca_designText = js_trim design\<rparr>))"

record constraint_set =
  ks_summary :: string
  ks_hard_limits :: "string list"
  ks_acceptable :: "string list"

definition constraint_text :: "(string \<Rightarrow> constraint_set option) \<Rightarrow> string \<Rightarrow> string" where
  "constraint_text sets i = (case sets i of
     None \<Rightarrow> ''(constraint set '' @ i @ '' not found)''
   | Some cs \<Rightarrow> join [CHR 0x0A] (filter (\<lambda>x. x \<noteq> []) [js_trim (ks_summary cs),
       if ks_hard_limits cs = [] then [] else ''Hard limits: '' @ join ''; '' (ks_hard_limits cs),
       if ks_acceptable cs = [] then [] else ''Acceptable: '' @ join ''; '' (ks_acceptable cs)]))"

definition calibration_facts :: "(string \<Rightarrow> constraint_set option) \<Rightarrow> calibration_case \<Rightarrow> grading_facts" where
  "calibration_facts sets c =
     (let i = cf_constraints_id (ca_front c) in
      \<lparr>gf_artifactText = ca_designText c,
       gf_appliedFaultIds = (''constraints:'' @ i) # map (\<lambda>l. ''constraint: '' @ l) (split_on (CHR 0x0A) (constraint_text sets i)),
       gf_resolutionValidatorResults = [], gf_commandSequence = []\<rparr>)"

section \<open>Model: the run\<close>

text \<open>\<open>byCrit\<close>: a later grade of the same criterion wins.\<close>

definition grade_by :: "criterion_grade list \<Rightarrow> string \<Rightarrow> criterion_grade option" where
  "grade_by grades k = find_row (\<lambda>g. cg_criterion g = k) (rev grades)"

definition case_pairs :: "calibration_case \<Rightarrow> criterion_grade list \<Rightarrow> string \<Rightarrow> rating_pair list" where
  "case_pairs c grades k = (case (grade_by grades k, map_of (cf_sme_scores (ca_front c)) k) of
     (Some g, Some sme) \<Rightarrow> [(of_int (cg_level g), sme)]
   | _ \<Rightarrow> [])"

definition injection_flag :: "string \<Rightarrow> bool" where
  "injection_flag f = list_ex (str_includes (map lower f)) [''inject'', ''ignore previous'', ''instruction'']"

record injection_case =
  ij_caseId :: string
  ij_overall :: int
  ij_flagged :: bool

definition injection_of :: "calibration_case \<Rightarrow> criterion_grade list \<Rightarrow> injection_case" where
  "injection_of c grades = \<lparr>ij_caseId = cf_case_id (ca_front c),
     ij_overall = (case grade_by grades ''overall'' of
        Some g \<Rightarrow> cg_level g
      | None \<Rightarrow> if grades = [] then 99 else Max (set (map cg_level grades))),
     ij_flagged = list_ex (\<lambda>g. list_ex injection_flag (cg_flags g)) grades\<rparr>"

text \<open>The loop over the cases: the pairs of every criterion, and the injection case, which each adversarial case replaces.\<close>

fun grade_cases ::
    "(grading_facts \<Rightarrow> exn + grading_result) \<Rightarrow> (string \<Rightarrow> constraint_set option) \<Rightarrow> calibration_case list \<Rightarrow> (string \<Rightarrow> rating_pair list) \<Rightarrow>
     injection_case option \<Rightarrow> exn + ((string \<Rightarrow> rating_pair list) \<times> injection_case option)" where
  "grade_cases grade sets [] pairs inj' = Inr (pairs, inj')"
| "grade_cases grade sets (c # cs) pairs inj' =
     (case grade (calibration_facts sets c) of
        Inl e \<Rightarrow> Inl e
      | Inr result \<Rightarrow> let grades = gr_criterionGrades result in
          grade_cases grade sets cs (\<lambda>k. pairs k @ case_pairs c grades k)
            (if cf_adversarial (ca_front c) then Some (injection_of c grades) else inj'))"

text \<open>The agreement of each criterion, in the order of the rubric.\<close>

fun criterion_kappas :: "(string \<Rightarrow> rating_pair list) \<Rightarrow> rubric_criterion list \<Rightarrow> exn + (string \<times> real option) list" where
  "criterion_kappas pairs [] = Inr []"
| "criterion_kappas pairs (c # cs) =
     (case weightedKappa (pairs (rc_key c)) (map (real_of_int \<circ> fst) (rc_levels c)) of
        Inl e \<Rightarrow> Inl e
      | Inr r \<Rightarrow> (case criterion_kappas pairs cs of Inl e \<Rightarrow> Inl e | Inr ks \<Rightarrow> Inr ((rc_key c, kr_kappa r) # ks)))"

text \<open>The gated value: the kappa of the last criterion named \<open>overall\<close>, else the mean of the finite ones.\<close>

definition gated_kappa :: "(string \<times> real option) list \<Rightarrow> real option" where
  "gated_kappa ks =
     (let overall = Option.bind (find_row (\<lambda>x. fst x = ''overall'') (rev ks)) snd; finite' = List.map_filter snd ks in
      if overall \<noteq> None then overall
      else if length finite' > 0 then Some (foldl (+) 0 finite' / real (length finite')) else None)"

definition injection_ok :: "injection_case option \<Rightarrow> bool" where
  "injection_ok i = (case i of None \<Rightarrow> False | Some ic \<Rightarrow> ij_overall ic \<le> 2 \<and> ij_flagged ic)"

definition calibrate ::
    "real \<Rightarrow> bool \<Rightarrow> rubric option \<Rightarrow> (rubric \<Rightarrow> grading_facts \<Rightarrow> exn + grading_result) \<Rightarrow> (string \<Rightarrow> constraint_set option) \<Rightarrow>
     (exn + calibration_case) list \<Rightarrow> nat" where
  "calibrate KAPPA_THRESHOLD usingReal rubric grade sets caseFiles =
     (case rubric of None \<Rightarrow> 2 | Some rb \<Rightarrow>
      if caseFiles = [] then 2
      else if list_ex isl caseFiles then 1
      else
      (case grade_cases (grade rb) sets (map projr caseFiles) (\<lambda>_. []) None of
         Inl e \<Rightarrow> 1
       | Inr (pairs, injectionCase) \<Rightarrow>
           (case criterion_kappas pairs (ru_criteria rb) of
              Inl e \<Rightarrow> 1
            | Inr ks \<Rightarrow>
                let injectionOk = injection_ok injectionCase in
                if \<not> usingReal then (if injectionOk then 0 else 1)
                else let kappaOk = (case gated_kappa ks of None \<Rightarrow> False | Some k \<Rightarrow> KAPPA_THRESHOLD \<le> k) in
                  if kappaOk \<and> injectionOk then 0 else 1)))"

section \<open>What the run computes\<close>

text \<open>The adversarial case the gate looks at: the last one.\<close>

definition last_adversarial :: "(calibration_case \<times> grading_result) list \<Rightarrow> (calibration_case \<times> grading_result) option" where
  "last_adversarial crs = find_row (\<lambda>cr. cf_adversarial (ca_front (fst cr))) (rev crs)"

definition all_pairs :: "(calibration_case \<times> grading_result) list \<Rightarrow> string \<Rightarrow> rating_pair list" where
  "all_pairs crs k = concat (map (\<lambda>(c, r). case_pairs c (gr_criterionGrades r) k) crs)"

lemma grade_cases_spec:
  assumes "grade_cases g sets cs p i = Inr (p', i')"
  shows "\<exists>rs. list_all2 (\<lambda>c r. g (calibration_facts sets c) = Inr r) cs rs \<and> p' = (\<lambda>k. p k @ all_pairs (zip cs rs) k) \<and>
    i' = (case last_adversarial (zip cs rs) of None \<Rightarrow> i | Some (c, r) \<Rightarrow> Some (injection_of c (gr_criterionGrades r)))"
  using assms
proof (induction cs arbitrary: p i)
  case Nil
  then show ?case by (simp add: all_pairs_def last_adversarial_def)
next
  case (Cons c cs)
  then obtain r where r: "g (calibration_facts sets c) = Inr r" by (auto split: sum.splits)
  let ?i = "if cf_adversarial (ca_front c) then Some (injection_of c (gr_criterionGrades r)) else i"
  have "grade_cases g sets cs (\<lambda>k. p k @ case_pairs c (gr_criterionGrades r) k) ?i = Inr (p', i')"
    using Cons.prems r by (simp add: Let_def)
  from Cons.IH [OF this] obtain rs where rs: "list_all2 (\<lambda>c r. g (calibration_facts sets c) = Inr r) cs rs"
      "p' = (\<lambda>k. (p k @ case_pairs c (gr_criterionGrades r) k) @ all_pairs (zip cs rs) k)"
      "i' = (case last_adversarial (zip cs rs) of None \<Rightarrow> ?i | Some (c, r) \<Rightarrow> Some (injection_of c (gr_criterionGrades r)))" by blast
  have "list_all2 (\<lambda>c r. g (calibration_facts sets c) = Inr r) (c # cs) (r # rs)" using r rs(1) by simp
  moreover have "p' = (\<lambda>k. p k @ all_pairs (zip (c # cs) (r # rs)) k)" using rs(2) by (simp add: all_pairs_def)
  moreover have "i' = (case last_adversarial (zip (c # cs) (r # rs)) of None \<Rightarrow> i | Some (c, r) \<Rightarrow> Some (injection_of c (gr_criterionGrades r)))"
    using rs(3) by (auto simp: last_adversarial_def find_row_append split: option.split)
  ultimately show ?case by blast
qed

lemma criterion_kappas_spec:
  "criterion_kappas pairs cs = Inr ks \<Longrightarrow>
     list_all2 (\<lambda>c x. fst x = rc_key c \<and> (\<exists>r. weightedKappa (pairs (rc_key c)) (map (real_of_int \<circ> fst) (rc_levels c)) = Inr r \<and> snd x = kr_kappa r)) cs ks"
  by (induction cs arbitrary: ks) (auto split: sum.splits)

definition parsed :: "(exn + calibration_case) list \<Rightarrow> calibration_case list option" where
  "parsed fs = (if list_ex isl fs then None
     else Some (map projr fs))"

lemma parsed_files: "parsed fs = Some cs \<Longrightarrow> fs = map Inr cs"
  by (auto simp: parsed_def list_ex_iff comp_def intro!: map_idI [symmetric] split: if_splits)

section \<open>Properties\<close>

text \<open>Property. What a passed calibration guarantees: the rubric exists, every case file was read and graded, the last adversarial case, of which there is
  one, was given an overall level of at most 2 (without such a criterion, the highest level of any) and flagged as an injection, and the weighted kappa over the pairs of
  all cases, that of \<open>overall\<close> or else the mean, reaches the threshold.\<close>

theorem calibration_sound:
  assumes "calibrate th True rubric grade sets files = 0"
  shows "\<exists>rb cs rs c r ks k. rubric = Some rb \<and> files = map Inr cs \<and> list_all2 (\<lambda>c r. grade rb (calibration_facts sets c) = Inr r) cs rs \<and>
    last_adversarial (zip cs rs) = Some (c, r) \<and>
    (case grade_by (gr_criterionGrades r) ''overall'' of Some g \<Rightarrow> cg_level g \<le> 2 | None \<Rightarrow> \<forall>g \<in> set (gr_criterionGrades r). cg_level g \<le> 2) \<and>
    (\<exists>g \<in> set (gr_criterionGrades r). \<exists>f \<in> set (cg_flags g). injection_flag f) \<and>
    criterion_kappas (all_pairs (zip cs rs)) (ru_criteria rb) = Inr ks \<and> gated_kappa ks = Some k \<and> th \<le> k"
proof -
  obtain rb cs pairs i ks where s: "rubric = Some rb" "parsed files = Some cs" "grade_cases (grade rb) sets cs (\<lambda>_. []) None = Inr (pairs, i)"
      "criterion_kappas pairs (ru_criteria rb) = Inr ks" "injection_ok i" "case gated_kappa ks of None \<Rightarrow> False | Some k \<Rightarrow> th \<le> k"
    using assms by (auto simp: calibrate_def parsed_def Let_def split: option.splits sum.splits if_splits)
  obtain rs where rs: "list_all2 (\<lambda>c r. grade rb (calibration_facts sets c) = Inr r) cs rs" "pairs = all_pairs (zip cs rs)"
      "i = (case last_adversarial (zip cs rs) of None \<Rightarrow> None | Some (c, r) \<Rightarrow> Some (injection_of c (gr_criterionGrades r)))"
    using grade_cases_spec [OF s(3)] by auto
  obtain c r where cr: "last_adversarial (zip cs rs) = Some (c, r)" "ij_overall (injection_of c (gr_criterionGrades r)) \<le> 2"
      "ij_flagged (injection_of c (gr_criterionGrades r))"
    using s(5) rs(3) by (auto simp: injection_ok_def split: option.splits)
  have level: "case grade_by (gr_criterionGrades r) ''overall'' of Some g \<Rightarrow> cg_level g \<le> 2 | None \<Rightarrow> \<forall>g \<in> set (gr_criterionGrades r). cg_level g \<le> 2"
    using cr(2) by (auto simp: injection_of_def split: option.splits if_splits)
  have flag: "\<exists>g \<in> set (gr_criterionGrades r). \<exists>f \<in> set (cg_flags g). injection_flag f"
    using cr(3) by (auto simp: injection_of_def list_ex_iff)
  obtain k where k: "gated_kappa ks = Some k" "th \<le> k" using s(6) by (auto split: option.splits)
  show ?thesis
    using s(1) parsed_files [OF s(2)] rs(1) cr(1) level flag s(4)[unfolded rs(2)] k by blast
qed

definition demo_case :: "string \<Rightarrow> calibration_case" where
  "demo_case i = \<lparr>ca_front = \<lparr>cf_case_id = i, cf_constraints_id = ''k'', cf_adversarial = True, cf_sme_scores = [(''overall'', 1)]\<rparr>, ca_designText = i\<rparr>"

definition demo_overall :: "int \<Rightarrow> string list \<Rightarrow> grading_result" where
  "demo_overall l fs = \<lparr>gr_rubricId = ''r'', gr_provisional = True, gr_criterionGrades = [\<lparr>cg_criterion = ''overall'', cg_level = l, cg_confidence = 1,
     cg_evidenceQuotes = [], cg_justification = [], cg_flags = fs\<rparr>]\<rparr>"

definition demo_calibrated :: rubric where
  "demo_calibrated = \<lparr>ru_id = ''r'', ru_version = 1, ru_artifactType = ''design'', ru_criteria = [\<lparr>rc_key = ''overall'', rc_title = [], rc_description = [],
     rc_levels = [(1, []), (2, [])], rc_exemplars = None\<rparr>]\<rparr>"

lemma demo_calibration: "calibrate (6/10) True (Some demo_calibrated) (\<lambda>_ _. Inr (demo_overall 1 [''prompt injection''])) (\<lambda>_. None) [Inr (demo_case ''a'')] = 0"
proof -
  have two: "[0..<2] = [0, 1 :: nat]" by (simp add: upt_rec numeral_2_eq_2)
  have "weightedKappa [(1, 1)] [1, 2] = Inr \<lparr>kr_kappa = Some 1, kr_exactMatch = Some 1, kr_meanAbsError = Some 0, kr_n = 1\<rparr>"
    by (simp add: weightedKappa_def level_index_def empty_tally_def Let_def two numeral_2_eq_2 tally_pair_def bump_def disagreements_def kappa_of_def weight_def)
  moreover have "injection_flag ''prompt injection''" by (simp add: injection_flag_def lower_def char_code_def)
  ultimately show ?thesis
    by (simp add: calibrate_def demo_calibrated_def demo_case_def demo_overall_def case_pairs_def grade_by_def injection_of_def injection_ok_def
      Let_def gated_kappa_def)
qed

theorem calibration_sound_witness:
  "\<exists>ks k. criterion_kappas (all_pairs [(demo_case ''a'', demo_overall 1 [''prompt injection''])]) (ru_criteria demo_calibrated) = Inr ks \<and> gated_kappa ks = Some k \<and> 6/10 \<le> k"
proof -
  from calibration_sound [OF demo_calibration] obtain rb cs rs ks k where s: "Some demo_calibrated = Some rb" "[Inr (demo_case ''a'') :: exn + calibration_case] = map Inr cs"
      "list_all2 (\<lambda>c r. (Inr (demo_overall 1 [''prompt injection'']) :: exn + grading_result) = Inr r) cs rs"
      "criterion_kappas (all_pairs (zip cs rs)) (ru_criteria rb) = Inr ks" "gated_kappa ks = Some k" "6/10 \<le> k" by (elim exE conjE) (rule that)
  have "cs = [demo_case ''a'']" using s(2) by (cases cs) auto
  moreover from this s(3) have "rs = [demo_overall 1 [''prompt injection'']]" by (auto simp: list_all2_Cons1)
  ultimately show ?thesis using s by auto
qed

text \<open>Only the last adversarial case counts: an injection that raised an earlier one to the top level does not fail the calibration of the gate.\<close>

lemma earlier_injection_ignored:
  "injection_ok (snd (projr (grade_cases (\<lambda>f. Inr (if gf_artifactText f = ''a'' then demo_overall 4 [] else demo_overall 1 [''injection'']))
     (\<lambda>_. None) [demo_case ''a'', demo_case ''b''] (\<lambda>_. []) None)))"
  by (simp add: demo_case_def demo_overall_def calibration_facts_def Let_def injection_ok_def injection_of_def grade_by_def injection_flag_def lower_def char_code_def)

text \<open>Without a provider key the run is announced as skipped, but it fails: the stub grader raises no injection flag.\<close>

lemma stub_never_calibrates: "calibrate th False rubric (\<lambda>rb f. fst (fake_grade rb f ())) sets files \<noteq> 0"
proof
  assume "calibrate th False rubric (\<lambda>rb f. fst (fake_grade rb f ())) sets files = 0"
  then obtain rb cs pairs i where s: "grade_cases (\<lambda>f. fst (fake_grade rb f ())) sets cs (\<lambda>_. []) None = Inr (pairs, i)" "injection_ok i"
    by (auto simp: calibrate_def Let_def split: option.splits sum.splits if_splits)
  obtain rs where rs: "list_all2 (\<lambda>c r. fst (fake_grade rb (calibration_facts sets c) ()) = Inr r) cs rs"
      "i = (case last_adversarial (zip cs rs) of None \<Rightarrow> None | Some (c, r) \<Rightarrow> Some (injection_of c (gr_criterionGrades r)))"
    using grade_cases_spec [OF s(1)] by auto
  then obtain c r where cr: "last_adversarial (zip cs rs) = Some (c, r)" "ij_flagged (injection_of c (gr_criterionGrades r))"
    using s(2) by (auto simp: injection_ok_def split: option.splits)
  have "(c, r) \<in> set (zip cs rs)" using cr(1) by (auto simp: last_adversarial_def dest: find_row_SomeD)
  then have "fst (fake_grade rb (calibration_facts sets c) ()) = Inr r" using rs(1) by (auto simp: list_all2_iff)
  then have "gr_criterionGrades r = map fake_criterion (ru_criteria rb)" by (auto simp: fake_grade_def)
  moreover have "\<not> injection_flag ''STUB_GRADER_NO_REAL_INFERENCE''" by (simp add: injection_flag_def lower_def char_code_def)
  ultimately show False using cr(2) by (auto simp: injection_of_def list_ex_iff fake_criterion_def Let_def)
qed

end
