(* ===== verification/Dashboards.thy ===== *)
theory Dashboards
  imports Analytics Experiment Admin "HOL-Library.Multiset"
begin

text \<open>
  The read side of the analytics: \<open>analytics/analytics-query.service.ts\<close> (event roll-ups, from the warehouse or from the
  source tables), \<open>admin/cost-dashboard.service.ts\<close> (cost per learner, course, activity or tenant) and their routes in
  \<open>admin/admin.controller.ts\<close>. The order in which a store lists the groups of an aggregate is not specified and is a
  parameter. The tables of the schema \<open>env\<close> belong to the orchestrator: an argument that may be absent.
\<close>

section \<open>Model: analytics-query.service.ts\<close>

datatype rollup_grain = RollActivity | RollCourse | RollTenant | RollGlobal

record event_rollup_row =
  er_bucket :: string
  er_events :: nat
  er_milestones_gated :: nat
  er_defence_msgs :: nat
  er_distinct_attempts :: nat

text \<open>The order of the groups before they are sorted.\<close>

type_synonym group_order = "string list \<Rightarrow> string list"

definition before_now :: "time \<Rightarrow> int \<Rightarrow> real \<Rightarrow> time" where
  "before_now now unit n = now - unit * max 1 \<lfloor>n\<rfloor>"

definition HOUR_MS :: int where "HOUR_MS = 3600000"

definition DASHBOARD_DAY_MS :: int where "DASHBOARD_DAY_MS = 86400000"

type_synonym rollup_events = "(string \<times> attempt_event_type \<times> string) list"

definition rollup_row :: "rollup_events \<Rightarrow> string \<Rightarrow> event_rollup_row" where
  "rollup_row xs k =
     (let ys = map snd (filter (\<lambda>x. fst x = k) xs) in
      \<lparr>er_bucket = k, er_events = length ys, er_milestones_gated = length (filter (\<lambda>y. fst y = EV_MILESTONE_GATED) ys),
       er_defence_msgs = length (filter (\<lambda>y. fst y = EV_DEFENCE_MESSAGE) ys), er_distinct_attempts = length (uniq (map snd ys))\<rparr>)"

definition rollup_rows :: "group_order \<Rightarrow> rollup_events \<Rightarrow> event_rollup_row list" where
  "rollup_rows ord xs = sort_key (\<lambda>r. - int (er_events r)) (map (rollup_row xs) (ord (uniq (map fst xs))))"

fun groupCol :: "rollup_grain \<Rightarrow> warehouse_row \<Rightarrow> string" where
  "groupCol RollActivity r = wr_activity_id r"
| "groupCol RollCourse r = wr_course_id r"
| "groupCol RollTenant r = wr_tenant_id r"
| "groupCol RollGlobal r = []"

definition eventRollupClickHouse :: "group_order \<Rightarrow> string \<Rightarrow> rollup_grain \<Rightarrow> real \<Rightarrow> time \<Rightarrow> warehouse_row list \<Rightarrow> event_rollup_row list" where
  "eventRollupClickHouse ord tenantId grain hours now rows =
     rollup_rows ord (map (\<lambda>r. (groupCol grain r, wr_type r, wr_attempt_id r))
       (filter (\<lambda>r. wr_tenant_id r = tenantId \<and> wr_occurred_at r \<ge> before_now now HOUR_MS hours) rows))"

fun bucketExpr :: "rollup_grain \<Rightarrow> db \<Rightarrow> attempt_row \<Rightarrow> string" where
  "bucketExpr RollActivity s a = a_activity_id a"
| "bucketExpr RollCourse s a = (case course_of (a_activity_version_id a) s of None \<Rightarrow> [] | Some c \<Rightarrow> c)"
| "bucketExpr RollTenant s a = a_tenant_id a"
| "bucketExpr RollGlobal s a = []"

definition eventRollupPostgres :: "group_order \<Rightarrow> string \<Rightarrow> rollup_grain \<Rightarrow> real \<Rightarrow> time \<Rightarrow> db \<Rightarrow> numbered_event list \<Rightarrow> event_rollup_row list" where
  "eventRollupPostgres ord tenantId grain hours now s evs =
     rollup_rows ord (map (\<lambda>((i, e), a). (bucketExpr grain s a, e_type e, e_attempt_id e))
       (filter (\<lambda>((i, e), a). a_tenant_id a = tenantId \<and> e_occurred_at e \<ge> before_now now HOUR_MS hours)
         (inner_join (\<lambda>(i, e) a. a_id a = e_attempt_id e) evs (attempts s))))"

datatype analytics_store = ClickHouse | Postgres

definition analytics_store_of :: "string \<Rightarrow> analytics_store" where
  "analytics_store_of url = (if length url > 0 then ClickHouse else Postgres)"

definition eventRollup :: "string \<Rightarrow> group_order \<Rightarrow> group_order \<Rightarrow> string \<Rightarrow> rollup_grain \<Rightarrow> real \<Rightarrow> time \<Rightarrow> warehouse_row list \<Rightarrow> db \<Rightarrow> numbered_event list \<Rightarrow> event_rollup_row list" where
  "eventRollup url ch pg tenantId grain hours now rows s evs =
     (case analytics_store_of url of
        ClickHouse \<Rightarrow> eventRollupClickHouse ch tenantId grain hours now rows
      | Postgres \<Rightarrow> eventRollupPostgres pg tenantId grain hours now s evs)"

text \<open>The tenant stands in the text of the query, between single quotes.\<close>

definition replace_char :: "char \<Rightarrow> string \<Rightarrow> string \<Rightarrow> string" where
  "replace_char c by' s = concat (map (\<lambda>d. if d = c then by' else [d]) s)"

definition escapeCh :: "string \<Rightarrow> string" where
  "escapeCh s = replace_char (CHR 0x5C) [CHR 0x5C, CHR 0x5C] (replace_char (CHR 0x27) [CHR 0x27, CHR 0x27] s)"

section \<open>Model: cost-dashboard.service.ts\<close>

datatype cost_grain = CostLearner | CostCourse | CostActivity | CostTenant

record meter_row = usage_row +
  um_window_start :: time
  um_cloud_cost_usd :: real
  um_ai_cost_usd :: real

record cloud_account_row =
  ca_aws_account_id :: string
  ca_state :: string
  ca_region :: string
  ca_attempt_id :: "string option"
  ca_budget_usd :: "real option"
  ca_quarantine_reason :: "string option"

record env_schema =
  es_usage_meter :: "meter_row list"
  es_cloud_account :: "cloud_account_row list"

record cost_row =
  dc_bucket :: string
  dc_label :: string
  dc_attempts :: nat
  dc_compute_cost_usd :: real
  dc_cloud_cost_usd :: real
  dc_ai_cost_usd :: real
  dc_total_cost_usd :: real

text \<open>The answer is remembered, whatever it was.\<close>

definition hasEnvSchema :: "env_schema option \<Rightarrow> bool option \<Rightarrow> bool \<times> bool option" where
  "hasEnvSchema env present = (case present of Some b \<Rightarrow> (b, present) | None \<Rightarrow> (env \<noteq> None, Some (env \<noteq> None)))"

text \<open>Key and label of an attempt's group. A user, a tenant and an activity always exist, by foreign key; \<open>tenantName\<close> is the tenant table.\<close>

definition course_row_of :: "attempt_row \<Rightarrow> db \<Rightarrow> course_row option" where
  "course_row_of a s = Option.bind (course_of (a_activity_version_id a) s) (\<lambda>c. find_row (\<lambda>r. co_id r = c) (courses s))"

fun cost_group :: "(string \<Rightarrow> string) \<Rightarrow> cost_grain \<Rightarrow> db \<Rightarrow> attempt_row \<Rightarrow> string \<times> string" where
  "cost_group tenantName CostLearner s a = (a_user_id a, case find_row (\<lambda>u. us_id u = a_user_id a) (users s) of Some u \<Rightarrow> us_email u | None \<Rightarrow> [])"
| "cost_group tenantName CostCourse s a = (case course_row_of a s of Some c \<Rightarrow> (co_id c, co_slug c) | None \<Rightarrow> ([], ''no-course''))"
| "cost_group tenantName CostActivity s a = (a_activity_id a, case find_row (\<lambda>x. ac_id x = a_activity_id a) (activities s) of Some x \<Rightarrow> ac_slug x | None \<Rightarrow> [])"
| "cost_group tenantName CostTenant s a = (a_tenant_id a, tenantName (a_tenant_id a))"

definition metered :: "string \<Rightarrow> real \<Rightarrow> time \<Rightarrow> db \<Rightarrow> env_schema \<Rightarrow> (meter_row \<times> attempt_row) list" where
  "metered tenantId days now s env =
     filter (\<lambda>(m, a). a_tenant_id a = tenantId \<and> um_window_start m \<ge> before_now now DASHBOARD_DAY_MS days)
       (inner_join (\<lambda>m a. a_id a = um_attempt_id m) (es_usage_meter env) (attempts s))"

definition cost_sum :: "(meter_row \<Rightarrow> real) \<Rightarrow> (meter_row \<times> attempt_row) list \<Rightarrow> real" where
  "cost_sum f ms = sum_list (map (\<lambda>x. f (fst x)) ms)"

definition compute_cost :: "meter_row \<Rightarrow> real" where
  "compute_cost m = um_total_cost_usd m - um_cloud_cost_usd m - um_ai_cost_usd m"

definition cost_row_of :: "string \<times> string \<Rightarrow> (meter_row \<times> attempt_row) list \<Rightarrow> cost_row" where
  "cost_row_of k ms = \<lparr>dc_bucket = fst k, dc_label = snd k, dc_attempts = length (uniq (map (\<lambda>x. a_id (snd x)) ms)),
     dc_compute_cost_usd = round4 (cost_sum compute_cost ms), dc_cloud_cost_usd = round4 (cost_sum um_cloud_cost_usd ms),
     dc_ai_cost_usd = round4 (cost_sum um_ai_cost_usd ms), dc_total_cost_usd = round4 (cost_sum um_total_cost_usd ms)\<rparr>"

text \<open>The groups, the largest total first; the order of equal totals is a parameter.\<close>

definition cost_groups :: "(string \<Rightarrow> string) \<Rightarrow> cost_grain \<Rightarrow> db \<Rightarrow> (meter_row \<times> attempt_row) list \<Rightarrow> ((string \<times> string) \<times> meter_row \<times> attempt_row) list" where
  "cost_groups tenantName grain s ms = map (\<lambda>x. (cost_group tenantName grain s (snd x), x)) ms"

definition costByGrain ::
    "((string \<times> string) list \<Rightarrow> (string \<times> string) list) \<Rightarrow> (string \<Rightarrow> string) \<Rightarrow> string \<Rightarrow> cost_grain \<Rightarrow> real \<Rightarrow> time \<Rightarrow> db \<Rightarrow> env_schema option \<Rightarrow> bool option \<Rightarrow> cost_row list \<times> bool option" where
  "costByGrain ord tenantName tenantId grain days now s env present =
     (case hasEnvSchema env present of
        (False, p) \<Rightarrow> ([], p)
      | (True, p) \<Rightarrow>
          (let gs = cost_groups tenantName grain s (metered tenantId days now s (the env));
               of_key = (\<lambda>k. map snd (filter (\<lambda>g. fst g = k) gs))
           in (map (\<lambda>k. cost_row_of k (of_key k)) (sort_key (\<lambda>k. - cost_sum um_total_cost_usd (of_key k)) (ord (uniq (map fst gs)))), p)))"

record account_spend_row =
  as_aws_account_id :: string
  as_state :: string
  as_region :: string
  as_attempt_id :: "string option"
  as_budget_usd :: "real option"
  as_spend_usd :: real
  as_quarantined :: bool
  as_quarantine_reason :: "string option"

definition spend_of :: "real \<Rightarrow> time \<Rightarrow> env_schema \<Rightarrow> cloud_account_row \<Rightarrow> real" where
  "spend_of days now env ca = (case ca_attempt_id ca of
     None \<Rightarrow> 0
   | Some i \<Rightarrow> sum_list (map um_cloud_cost_usd (filter (\<lambda>m. um_attempt_id m = i \<and> um_window_start m \<ge> before_now now DASHBOARD_DAY_MS days) (es_usage_meter env))))"

definition account_row :: "real \<Rightarrow> time \<Rightarrow> env_schema \<Rightarrow> cloud_account_row \<Rightarrow> account_spend_row" where
  "account_row days now env ca = \<lparr>as_aws_account_id = ca_aws_account_id ca, as_state = ca_state ca, as_region = ca_region ca,
     as_attempt_id = ca_attempt_id ca, as_budget_usd = ca_budget_usd ca, as_spend_usd = round4 (spend_of days now env ca),
     as_quarantined = (ca_state ca = ''QUARANTINED''), as_quarantine_reason = ca_quarantine_reason ca\<rparr>"

definition accountSpend :: "real \<Rightarrow> time \<Rightarrow> env_schema option \<Rightarrow> bool option \<Rightarrow> account_spend_row list \<times> bool option" where
  "accountSpend days now env present =
     (case hasEnvSchema env present of
        (False, p) \<Rightarrow> ([], p)
      | (True, p) \<Rightarrow> (map (account_row days now (the env)) (sort_key (\<lambda>ca. - spend_of days now (the env) ca) (es_cloud_account (the env))), p))"

record budget_breach_row =
  bb_aws_account_id :: "string option"
  bb_attempt_id :: string
  bb_reason :: string
  bb_at :: time

definition breach_of :: "event_row \<Rightarrow> budget_breach_row" where
  "breach_of e = \<lparr>bb_aws_account_id = (case jget (e_payload e) ''cloud_account_id'' of Some (JStr x) \<Rightarrow> Some x | _ \<Rightarrow> None),
     bb_attempt_id = e_attempt_id e,
     bb_reason = (case jget (e_payload e) ''reason'' of Some (JStr x) \<Rightarrow> x | _ \<Rightarrow> (if e_type e = EV_ACCOUNT_NUKED then ''ACCOUNT_NUKED'' else ''ACCOUNT_QUARANTINED'')),
     bb_at = e_occurred_at e\<rparr>"

definition budgetBreachHistory :: "string \<Rightarrow> int \<Rightarrow> db \<Rightarrow> budget_breach_row list" where
  "budgetBreachHistory tenantId limit s =
     take (nat (max 1 (min limit 500))) (sort_key (\<lambda>r. - bb_at r) (map (\<lambda>(e, a). breach_of e)
       (filter (\<lambda>(e, a). a_tenant_id a = tenantId \<and> e_type e \<in> {EV_ACCOUNT_QUARANTINED, EV_ACCOUNT_NUKED})
         (inner_join (\<lambda>e a. a_id a = e_attempt_id e) (events s) (attempts s)))))"

section \<open>Model: the routes of admin.controller.ts\<close>

text \<open>\<open>Number\<close> is a parameter; \<open>None\<close> is NaN.\<close>

definition number_or_default :: "(string \<Rightarrow> real option) \<Rightarrow> string \<Rightarrow> real \<Rightarrow> real" where
  "number_or_default Number x d = (case Number x of None \<Rightarrow> d | Some v \<Rightarrow> if v = 0 then d else v)"

definition normalizeRollupGrain :: "string \<Rightarrow> rollup_grain" where
  "normalizeRollupGrain g = (if g = ''course'' then RollCourse else if g = ''tenant'' then RollTenant else if g = ''global'' then RollGlobal else RollActivity)"

definition normalizeCostGrain :: "string \<Rightarrow> cost_grain" where
  "normalizeCostGrain g = (if g = ''learner'' then CostLearner else if g = ''course'' then CostCourse else if g = ''tenant'' then CostTenant else CostActivity)"

definition or_str :: "string option \<Rightarrow> string \<Rightarrow> string" where
  "or_str x d = (case x of Some v \<Rightarrow> v | None \<Rightarrow> d)"

definition analyticsRollup where
  "analyticsRollup Number url ch pg auth grain hours now rows s evs =
     (analytics_store_of url, or_str grain ''activity'',
      eventRollup url ch pg (cm_tenantId auth) (normalizeRollupGrain (or_str grain ''activity'')) (number_or_default Number (or_str hours ''24'') 24) now rows s evs)"

definition costByGrain_route where
  "costByGrain_route Number ord tenantName auth grain days now s env present =
     costByGrain ord tenantName (cm_tenantId auth) (normalizeCostGrain (or_str grain ''activity'')) (number_or_default Number (or_str days ''30'') 30) now s env present"

definition costAccounts where
  "costAccounts Number days now env present = accountSpend (number_or_default Number (or_str days ''30'') 30) now env present"

definition budgetBreaches where
  "budgetBreaches Number auth limit s = budgetBreachHistory (cm_tenantId auth) \<lfloor>number_or_default Number (or_str limit ''50'') 50\<rfloor> s"

section \<open>The two stores agree\<close>

definition run_passes :: "nat \<Rightarrow> db \<Rightarrow> numbered_event list \<Rightarrow> pass_env list \<Rightarrow> ingestion \<Rightarrow> ingestion" where
  "run_passes b s evs envs ig = foldl (\<lambda>g env. snd (tick b env s evs g)) ig envs"

lemma tick_copies:
  assumes "numbered evs" and "known s evs" and "caught_up_to n evs ig" and "pe_cursor_ok env"
  shows "ig_warehouse (snd (tick b env s evs ig)) = ig_warehouse ig @ (if advances env then map (copied s) (take b (drop n evs)) else [])"
proof -
  have "\<not> ig_running ig" using assms(3) by (simp add: caught_up_to_def)
  then show ?thesis using assms(4) by (simp add: tick_def fetch_rest [OF assms(1-3)] advances_def Let_def comp_def)
qed

lemma passes_copied:
  assumes "numbered evs" and "known s evs" and "\<forall>env \<in> set envs. pe_cursor_ok env"
    and "caught_up_to n evs ig" and "ig_warehouse ig = map (copied s) (take n evs)"
  shows "ig_warehouse (run_passes b s evs envs ig) = map (copied s) (take (n + b * length (filter advances envs)) evs)"
  using assms(3-5)
proof (induction envs arbitrary: n ig)
  case Nil
  then show ?case by (simp add: run_passes_def)
next
  case (Cons env envs)
  let ?n = "if advances env then min (n + b) (length evs) else n" and ?g = "snd (tick b env s evs ig)"
  have up: "caught_up_to ?n evs ?g" using tick_caught_up [OF assms(1,2) Cons.prems(2)] Cons.prems(1) by simp
  have "ig_warehouse ?g = map (copied s) (take ?n evs)"
    using tick_copies [OF assms(1,2) Cons.prems(2), of env b] Cons.prems(1,3) by (simp add: min_def take_add flip: map_append)
  from Cons.IH [OF _ up this] Cons.prems(1) show ?case by (auto simp: run_passes_def min_def algebra_simps)
qed

lemma caught_up_start: "caught_up_to 0 evs ingestion_start"
  by (simp add: caught_up_to_def ingestion_start_def)

lemma join_known:
  assumes "known s evs"
  shows "inner_join (\<lambda>(i, e) a. a_id a = e_attempt_id e) evs (attempts s) = map (\<lambda>ie. (ie, attempt_of s (snd ie))) evs"
proof -
  have "filter (\<lambda>a. a_id a = e_attempt_id (snd ie)) (attempts s) = [attempt_of s (snd ie)]" if "ie \<in> set evs" for ie
    using assms that by (intro attempt_of_unique) (auto simp: known_def)
  then show ?thesis by (auto simp: inner_join_def case_prod_unfold intro!: arg_cong [of _ _ concat] cong: map_cong)
qed

lemma same_input:
  assumes "known s evs"
  shows "eventRollupClickHouse ord t g h now (map (copied s) evs) = eventRollupPostgres ord t g h now s evs"
proof -
  have col: "groupCol g (copied s ie) = bucketExpr g s (attempt_of s (snd ie))" for ie
    by (cases g) (simp_all add: copied_def enrich_def)
  show ?thesis unfolding eventRollupClickHouse_def eventRollupPostgres_def join_known [OF assms]
    by (simp add: filter_map comp_def case_prod_unfold col) (simp add: copied_def enrich_def)
qed

lemma mset_rollup: "(\<And>ks. mset (ord ks) = mset ks) \<Longrightarrow> mset (rollup_rows ord xs) = image_mset (rollup_row xs) (mset (uniq (map fst xs)))"
  by (simp add: rollup_rows_def)



section \<open>The tenant in the text of the query\<close>

text \<open>How the warehouse reads a string literal, from behind its opening quote: a doubled quote is a quote, a backslash starts an
  escape (\<open>esc\<close> gives the character it stands for), a single quote ends the literal.\<close>

fun ch_literal :: "(char \<Rightarrow> char) \<Rightarrow> string \<Rightarrow> (string \<times> string) option" where
  "ch_literal esc [] = None"
| "ch_literal esc [c] = (if c = CHR 0x27 then Some ([], []) else None)"
| "ch_literal esc (c # d # s) =
     (if c = CHR 0x5C then map_option (\<lambda>(l, r). (esc d # l, r)) (ch_literal esc s)
      else if c = CHR 0x27 then (if d = CHR 0x27 then map_option (\<lambda>(l, r). (c # l, r)) (ch_literal esc s) else Some ([], d # s))
      else map_option (\<lambda>(l, r). (c # l, r)) (ch_literal esc (d # s)))"

lemma escapeCh_Cons:
  "escapeCh (c # s) = (if c = CHR 0x27 then [CHR 0x27, CHR 0x27] else if c = CHR 0x5C then [CHR 0x5C, CHR 0x5C] else [c]) @ escapeCh s"
  by (simp add: escapeCh_def replace_char_def)

text \<open>Property. A tenant id cannot change the warehouse query: whatever characters it has, the literal the warehouse reads is exactly that id,
  and the rest of the query is the rest of the text.\<close>

theorem tenant_literal_exact:
  assumes "esc (CHR 0x5C) = CHR 0x5C" and "hd sqlRest \<noteq> CHR 0x27" and "sqlRest \<noteq> []"
  shows "ch_literal esc (escapeCh tenantId @ CHR 0x27 # sqlRest) = Some (tenantId, sqlRest)"
proof (induction tenantId)
  case Nil
  show ?case using assms(2,3) by (cases sqlRest) (simp_all add: escapeCh_def replace_char_def)
next
  case (Cons c s)
  have "ch_literal esc (c # x) = map_option (\<lambda>(l, r). (c # l, r)) (ch_literal esc x)" if "x \<noteq> []" "c \<noteq> CHR 0x27" "c \<noteq> CHR 0x5C" for x
    using that by (cases x) simp_all
  with Cons assms(1) show ?case by (simp add: escapeCh_Cons)
qed

theorem tenant_literal_exact_witness:
  "ch_literal id (escapeCh (CHR 0x27 # '' OR 1=1'') @ CHR 0x27 # ''  GROUP BY bucket'') = Some (CHR 0x27 # '' OR 1=1'', ''  GROUP BY bucket'')"
  by (rule tenant_literal_exact) simp_all

section \<open>Costs\<close>

lemma round4_sum: "\<bar>sum_list (map (\<lambda>x. round4 (f x)) xs) - sum_list (map f xs)\<bar> \<le> real (length xs) / 20000"
proof (induction xs)
  case (Cons x xs)
  have "\<bar>(round4 (f x) + sum_list (map (\<lambda>x. round4 (f x)) xs)) - (f x + sum_list (map f xs))\<bar> \<le>
      \<bar>round4 (f x) - f x\<bar> + \<bar>sum_list (map (\<lambda>x. round4 (f x)) xs) - sum_list (map f xs)\<bar>" by linarith
  also have "\<dots> \<le> 1/20000 + real (length xs) / 20000" using round4_close [of "f x"] Cons by linarith
  finally show ?case by (simp add: add_divide_distrib)
qed simp

lemma cost_parts: "cost_sum um_total_cost_usd ms = cost_sum compute_cost ms + cost_sum um_cloud_cost_usd ms + cost_sum um_ai_cost_usd ms"
  by (induction ms) (simp_all add: cost_sum_def compute_cost_def)

lemma sum_list_mset: "mset xs = mset ys \<Longrightarrow> sum_list (map f xs) = (sum_list (map f ys) :: real)"
  by (metis mset_map sum_mset_sum_list)

text \<open>Property. Blended cost is conserved: whatever the grain, the totals of the groups add up to what the usage meter recorded for
  the tenant in the window, up to the rounding of each row to four digits, and within a row compute, cloud and AI cost
  make up the total up to rounding.\<close>

theorem cost_conserved:
  assumes "\<And>ks. mset (ord ks) = mset ks" and "present \<noteq> Some False"
    and "rows = fst (costByGrain ord tenantName tenantId grain days now s (Some env) present)"
  shows "\<bar>sum_list (map dc_total_cost_usd rows) - cost_sum um_total_cost_usd (metered tenantId days now s env)\<bar> \<le> real (length rows) / 20000 \<and>
    (\<forall>r \<in> set rows. \<bar>dc_total_cost_usd r - (dc_compute_cost_usd r + dc_cloud_cost_usd r + dc_ai_cost_usd r)\<bar> \<le> 4 / 20000)"
proof -
  let ?ms = "metered tenantId days now s env"
  let ?gs = "cost_groups tenantName grain s ?ms"
  let ?of = "\<lambda>k. map snd (filter (\<lambda>g. fst g = k) ?gs)"
  let ?ks = "sort_key (\<lambda>k. - cost_sum um_total_cost_usd (?of k)) (ord (uniq (map fst ?gs)))"
  have rows: "rows = map (\<lambda>k. cost_row_of k (?of k)) ?ks"
    using assms(2,3) by (cases present) (auto simp: costByGrain_def hasEnvSchema_def Let_def split: bool.splits)
  have ks: "mset ?ks = mset (uniq (map fst ?gs))" by (simp add: assms(1))
  have "sum_list (map (\<lambda>k. cost_sum um_total_cost_usd (?of k)) ?ks) = sum_list (map (\<lambda>k. cost_sum um_total_cost_usd (?of k)) (uniq (map fst ?gs)))"
    by (rule sum_list_mset [OF ks])
  also have "\<dots> = sum_list (map (\<lambda>x. um_total_cost_usd (fst x)) (map snd ?gs))"
    unfolding cost_sum_def by (rule sum_groups) (simp_all add: uniq_def)
  also have "\<dots> = cost_sum um_total_cost_usd ?ms" by (simp add: cost_groups_def cost_sum_def comp_def)
  finally have total: "sum_list (map (\<lambda>k. cost_sum um_total_cost_usd (?of k)) ?ks) = cost_sum um_total_cost_usd ?ms" .
  have "map dc_total_cost_usd rows = map (\<lambda>k. round4 (cost_sum um_total_cost_usd (?of k))) ?ks" by (simp add: rows cost_row_of_def)
  moreover have "length rows = length ?ks" unfolding rows by (rule length_map)
  ultimately have "\<bar>sum_list (map dc_total_cost_usd rows) - cost_sum um_total_cost_usd ?ms\<bar> \<le> real (length rows) / 20000"
    using round4_sum [of "\<lambda>k. cost_sum um_total_cost_usd (?of k)" ?ks] by (simp only: total)
  moreover have "\<bar>dc_total_cost_usd r - (dc_compute_cost_usd r + dc_cloud_cost_usd r + dc_ai_cost_usd r)\<bar> \<le> 4 / 20000" if "r \<in> set rows" for r
  proof -
    obtain ms k where "r = cost_row_of k ms" using \<open>r \<in> set rows\<close> by (auto simp: rows)
    then have r: "dc_total_cost_usd r = round4 (cost_sum um_total_cost_usd ms)" "dc_compute_cost_usd r = round4 (cost_sum compute_cost ms)"
        "dc_cloud_cost_usd r = round4 (cost_sum um_cloud_cost_usd ms)" "dc_ai_cost_usd r = round4 (cost_sum um_ai_cost_usd ms)"
      by (simp_all add: cost_row_of_def)
    show ?thesis unfolding r
      using round4_close [of "cost_sum um_total_cost_usd ms"] round4_close [of "cost_sum compute_cost ms"] round4_close [of "cost_sum um_cloud_cost_usd ms"]
        round4_close [of "cost_sum um_ai_cost_usd ms"] cost_parts [of ms] by linarith
  qed
  ultimately show ?thesis by blast
qed

definition demo_meter :: env_schema where
  "demo_meter = \<lparr>es_usage_meter = [\<lparr>um_attempt_id = ''a'', um_total_cost_usd = 1/2, um_window_start = 5, um_cloud_cost_usd = 1/4, um_ai_cost_usd = 1/8\<rparr>],
     es_cloud_account = [\<lparr>ca_aws_account_id = ''123'', ca_state = ''IN_USE'', ca_region = ''r'', ca_attempt_id = Some ''z'', ca_budget_usd = None, ca_quarantine_reason = None\<rparr>]\<rparr>"

theorem cost_conserved_witness:
  "\<bar>sum_list (map dc_total_cost_usd (fst (costByGrain id id ''t'' CostTenant 30 6 demo_analytics (Some demo_meter) None))) -
     cost_sum um_total_cost_usd (metered ''t'' 30 6 demo_analytics demo_meter)\<bar> \<le>
   real (length (fst (costByGrain id id ''t'' CostTenant 30 6 demo_analytics (Some demo_meter) None))) / 20000"
  using cost_conserved [of id None _ id "''t''" CostTenant 30 6 demo_analytics demo_meter, OF _ _ refl] by simp

text \<open>Property. The breach history of a tenant is its own: at most five hundred rows, newest first, each of them an account event of an
  attempt of that tenant.\<close>

theorem breaches_scoped:
  assumes "rows = budgetBreachHistory tenantId limit s"
  shows "length rows \<le> 500 \<and> sorted_wrt (\<lambda>r r'. bb_at r \<ge> bb_at r') rows \<and>
    (\<forall>r \<in> set rows. \<exists>e \<in> set (events s). \<exists>a \<in> set (attempts s). r = breach_of e \<and> a_id a = e_attempt_id e \<and> a_tenant_id a = tenantId \<and>
       e_type e \<in> {EV_ACCOUNT_QUARANTINED, EV_ACCOUNT_NUKED})"
proof -
  let ?all = "map (\<lambda>(e, a). breach_of e) (filter (\<lambda>(e, a). a_tenant_id a = tenantId \<and> e_type e \<in> {EV_ACCOUNT_QUARANTINED, EV_ACCOUNT_NUKED})
      (inner_join (\<lambda>e a. a_id a = e_attempt_id e) (events s) (attempts s)))"
  have rows: "rows = take (nat (max 1 (min limit 500))) (sort_key (\<lambda>r. - bb_at r) ?all)" using assms by (simp add: budgetBreachHistory_def)
  have "sorted_wrt (\<lambda>r r'. bb_at r \<ge> bb_at r') (sort_key (\<lambda>r. - bb_at r) ?all)"
    using sorted_sort_key [of "\<lambda>r. - bb_at r" ?all] by (simp add: sorted_map)
  then have "sorted_wrt (\<lambda>r r'. bb_at r \<ge> bb_at r') rows" unfolding rows by (rule sorted_wrt_take)
  moreover have "length rows \<le> 500" unfolding rows by simp
  moreover have "\<exists>e \<in> set (events s). \<exists>a \<in> set (attempts s). r = breach_of e \<and> a_id a = e_attempt_id e \<and> a_tenant_id a = tenantId \<and>
      e_type e \<in> {EV_ACCOUNT_QUARANTINED, EV_ACCOUNT_NUKED}" if "r \<in> set rows" for r
    using that unfolding rows by (auto simp: inner_join_def dest!: in_set_takeD) blast+
  ultimately show ?thesis by blast
qed

theorem breaches_scoped_witness: "length (budgetBreachHistory ''t'' 10000 demo_analytics) \<le> 500"
  using breaches_scoped [OF refl, of "''t''" 10000 demo_analytics] by simp

text \<open>The spend of the vended accounts is not scoped: every caller of the route sees the accounts, and the attempts, of every tenant.\<close>

lemma accounts_unscoped:
  "map as_attempt_id (fst (costAccounts Number days now (Some demo_meter) None)) = [Some ''z'']"
  "find_row (\<lambda>a. a_id a = ''z'') (attempts demo_analytics) = None"
  by (simp_all add: costAccounts_def accountSpend_def hasEnvSchema_def demo_meter_def account_row_def demo_analytics_def demo_attempt_def find_row_None_iff)

text \<open>The grain that is echoed is not the one that was used.\<close>

lemma grain_echoed_raw: "analyticsRollup Number url ch pg auth (Some ''learner'') hours now rows s evs =
    (analytics_store_of url, ''learner'', eventRollup url ch pg (cm_tenantId auth) RollActivity (number_or_default Number (or_str hours ''24'') 24) now rows s evs)"
  by (simp add: analyticsRollup_def or_str_def normalizeRollupGrain_def)

end
