(* ===== verification/Authoring.thy ===== *)
theory Authoring
  imports LlmGateway Admin T3Shell AiGrader
begin

text \<open>
  \<open>authoring/authoring-assistant.service.ts\<close>: a first draft of an activity specification from a language model, extracted from its
  answer, parsed and linted for a human to approve. The database is only read. The lemmas show that a draft reported
  valid is one the content routes accept, and that drafting is charged to no learner, attempt or tenant.
\<close>

section \<open>Model\<close>

record draft_input =
  di_topic :: string
  di_mode :: string
  di_skillSlugs :: "string list option"
  di_solutionRepoNotes :: "string option"

record draft_result =
  dr_draftYaml :: string
  dr_parsed :: "authored_spec option"
  dr_valid :: bool
  dr_lintErrors :: "string list"
  dr_costUsd :: real

definition resolveSkills :: "string list \<Rightarrow> db \<Rightarrow> string set" where
  "resolveSkills slugs s = (if length slugs = 0 then known_slugs s else {k \<in> known_slugs s. k \<in> set slugs})"

definition FENCE :: string where
  "FENCE = [CHR 0x60, CHR 0x60, CHR 0x60]"

fun before_fence :: "string \<Rightarrow> string option" where
  "before_fence [] = None"
| "before_fence (c # s) = (if starts_with (c # s) FENCE then Some [] else map_option (\<lambda>b. c # b) (before_fence s))"

text \<open>
  \<open>/```(?:yaml|yml)?\s*\n([\s\S]*?)```/\<close> and \<open>trim\<close>: from an opening fence, an optional language name and a run of white space with
  a line break in it, up to the next fence. Where in that run the group starts does not matter, since the block is trimmed.
\<close>

definition fence_block :: "string \<Rightarrow> string option" where
  "fence_block s =
     (if \<not> starts_with s FENCE then None
      else let s1 = drop 3 s;
               s2 = (if starts_with s1 ''yaml'' then drop 4 s1 else if starts_with s1 ''yml'' then drop 3 s1 else s1)
           in if CHR 0x0A \<notin> set (takeWhile js_space s2) then None
              else map_option js_trim (before_fence (dropWhile js_space s2)))"

fun extractYaml :: "string \<Rightarrow> string option" where
  "extractYaml [] = None"
| "extractYaml (c # s) = (case fence_block (c # s) of Some b \<Rightarrow> Some b | None \<Rightarrow> extractYaml s)"

definition authoring_system :: "string list \<Rightarrow> string" where
  "authoring_system skillSlugs = join newline
     [''You are an internal content-authoring assistant for a hands-on'',
      ''practice platform. Produce a FIRST DRAFT of an activity spec in'',
      ''YAML that conforms to contracts/activity_spec.schema.json. A human'',
      ''editor will review, fix, and publish it -- your job is to save'',
      ''them the blank-page cost, not to be final.'',
      [],
      ''Rules:'',
      ''- Output ONE fenced '' @ FENCE @ ''yaml block and nothing else.'',
      ''- Include: id, version:1, mode, status: DRAFT, meta'',
      ''  (difficulty_level, estimated_minutes), curriculum, skills'',
      ''  (with one primary), environment (blueprint, cost_budget_usd),'',
      ''  tasks (each with key, title, instructions_md, validators, hints),'',
      ''  completion, scoring.'',
      ''- Validators: use the typed catalogue (SHELL_ASSERT, SHELL_JSON,'',
      ''  FILE_EXISTS, FILE_CONTENT, FILE_PARSE, K8S_ASSERT). Every'',
      ''  validator needs an authored on_fail message.'',
      ''- Hints: a 3-level ladder, increasing directness, with penalties.'',
      ''- Do NOT invent skill slugs -- use only: '' @ join '', '' skillSlugs]"

definition authoring_user :: "draft_input \<Rightarrow> string" where
  "authoring_user inp = join (newline @ newline) (filter (\<lambda>x. x \<noteq> [])
     [''Topic: '' @ di_topic inp,
      ''Mode: '' @ di_mode inp,
      (if truthy (di_solutionRepoNotes inp)
       then ''Solution-repo notes (what a correct solution does):'' @ newline @ ''<untrusted-learner-content>'' @ the (di_solutionRepoNotes inp) @ ''</untrusted-learner-content>''
       else []),
      ''Draft the activity spec now.''])"

definition authoring_request :: "draft_input \<Rightarrow> llm_request" where
  "authoring_request inp = \<lparr>rq_taskClass = Authoring, rq_promptVersion = ''authoring.system.v1'',
     rq_system = authoring_system (case di_skillSlugs inp of None \<Rightarrow> [] | Some x \<Rightarrow> x), rq_user = authoring_user inp,
     rq_scope = \<lparr>sp_attemptId = None, sp_userId = None, sp_tenantId = None\<rparr>, rq_maxOutputTokens = Some 2048, rq_noCache = False\<rparr>"

fun degraded_str :: "degrade_reason \<Rightarrow> string" where
  "degraded_str Budget_exhausted = ''budget_exhausted''"
| "degraded_str All_providers_down = ''all_providers_down''"

definition rejected :: "string \<Rightarrow> string \<Rightarrow> real \<Rightarrow> draft_result" where
  "rejected yaml err cost = \<lparr>dr_draftYaml = yaml, dr_parsed = None, dr_valid = False, dr_lintErrors = [err], dr_costUsd = cost\<rparr>"

definition draft_of :: "admin_env \<Rightarrow> string set \<Rightarrow> llm_response \<Rightarrow> draft_result" where
  "draft_of ax knownSkills res = (case rs_degraded res of
     Some why \<Rightarrow> rejected [] (''llm gateway degraded: '' @ degraded_str why) (rs_costUsd res)
   | None \<Rightarrow>
       if \<not> truthy (extractYaml (rs_text res)) then rejected (rs_text res) (''model did not return a '' @ FENCE @ ''yaml block'') (rs_costUsd res)
       else let yamlBlock = the (extractYaml (rs_text res)) in
         (case ax_parseYaml ax yamlBlock of
            Inl e \<Rightarrow> rejected yamlBlock (''YAML parse error: '' @ exn_message e) (rs_costUsd res)
          | Inr parsed \<Rightarrow>
              let lintResult = lint (ax_schema ax) parsed knownSkills in
              \<lparr>dr_draftYaml = yamlBlock, dr_parsed = Some parsed, dr_valid = lr_valid lintResult,
               dr_lintErrors = map (\<lambda>i. li_path i @ '': '' @ li_message i) (lr_issues lintResult), dr_costUsd = rs_costUsd res\<rparr>))"

definition draft_activity ::
    "admin_env \<Rightarrow> (string \<Rightarrow> string \<times> string list) \<Rightarrow> (string \<Rightarrow> string) \<Rightarrow> llm_provider list \<Rightarrow> draft_input \<Rightarrow> time \<Rightarrow> db \<Rightarrow> gateway \<Rightarrow> draft_result \<times> gateway \<times> time" where
  "draft_activity ax redact sha providers inp start s gw =
     (let knownSkills = resolveSkills (case di_skillSlugs inp of None \<Rightarrow> [] | Some x \<Rightarrow> x) s in
      case llm_call redact sha providers (authoring_request inp) start gw of
        (res, gw', now) \<Rightarrow> (draft_of ax knownSkills res, gw', now))"

section \<open>Properties\<close>

lemma resolveSkills_known: "resolveSkills slugs s \<subseteq> known_slugs s"
  by (auto simp: resolveSkills_def)

lemma no_flags: "concat (map (\<lambda>x. if p x then [] else [f x]) xs) = [] \<longleftrightarrow> (\<forall>x \<in> set xs. p x)"
  by (induction xs) auto

lemma lint_valid_iff:
  "lr_valid (lint schema spec K) \<longleftrightarrow> schema spec = [] \<and> (\<forall>x \<in> set (au_skills spec). xs_skill x \<in> K) \<and>
     (\<forall>h. au_prerequisites_hard spec = Some h \<longrightarrow> set h \<subseteq> K) \<and> (\<forall>h. au_prerequisites_soft spec = Some h \<longrightarrow> set h \<subseteq> K)"
proof -
  have "lr_valid (lint schema spec K) \<longleftrightarrow> schema spec = [] \<and> (\<forall>x \<in> set (au_skills spec). xs_skill x \<in> K) \<and>
      (\<forall>slug \<in> set ((case au_prerequisites_hard spec of None \<Rightarrow> [] | Some h \<Rightarrow> h) @ (case au_prerequisites_soft spec of None \<Rightarrow> [] | Some h \<Rightarrow> h)). slug \<in> K)"
    unfolding lint_def Let_def by (simp only: if_distrib [of lr_valid] lint_result.simps length_0_conv append_is_Nil_conv no_flags) simp
  then show ?thesis by (cases "au_prerequisites_hard spec"; cases "au_prerequisites_soft spec") auto
qed

lemma lint_mono: "lr_valid (lint schema spec K) \<Longrightarrow> K \<subseteq> K' \<Longrightarrow> lr_valid (lint schema spec K')"
  unfolding lint_valid_iff by (meson subset_iff)

lemma valid_without_issues:
  assumes "lr_valid (lint schema spec K)"
  shows "lr_issues (lint schema spec K) = []"
proof (cases "schema spec = []")
  case True
  with assms show ?thesis unfolding lint_def Let_def by (simp only: simp_thms if_False if_True lint_result.simps length_0_conv)
next
  case False
  with assms show ?thesis unfolding lint_def Let_def by (simp only: simp_thms if_False if_True lint_result.simps)
qed

lemma valid_draft:
  assumes "dr_valid (draft_of ax K res)"
  shows "\<exists>spec yaml. ax_parseYaml ax yaml = Inr spec \<and> lr_valid (lint (ax_schema ax) spec K) \<and> extractYaml (rs_text res) = Some yaml \<and>
     draft_of ax K res = \<lparr>dr_draftYaml = yaml, dr_parsed = Some spec, dr_valid = True, dr_lintErrors = [], dr_costUsd = rs_costUsd res\<rparr>"
proof (cases "rs_degraded res")
  case None
  show ?thesis
  proof (cases "truthy (extractYaml (rs_text res))")
    case True
    then obtain yaml where yaml: "extractYaml (rs_text res) = Some yaml" by (auto simp: truthy_def split: option.splits)
    show ?thesis
    proof (cases "ax_parseYaml ax yaml")
      case (Inr spec)
      have "draft_of ax K res = \<lparr>dr_draftYaml = yaml, dr_parsed = Some spec, dr_valid = lr_valid (lint (ax_schema ax) spec K),
          dr_lintErrors = map (\<lambda>i. li_path i @ '': '' @ li_message i) (lr_issues (lint (ax_schema ax) spec K)), dr_costUsd = rs_costUsd res\<rparr>"
        using True yaml by (simp add: draft_of_def None Inr Let_def)
      with assms have "lr_valid (lint (ax_schema ax) spec K)" "draft_of ax K res = \<lparr>dr_draftYaml = yaml, dr_parsed = Some spec, dr_valid = True, dr_lintErrors = [], dr_costUsd = rs_costUsd res\<rparr>"
        by (simp_all add: valid_without_issues)
      with yaml Inr show ?thesis by blast
    qed (use assms True yaml in \<open>simp add: draft_of_def None rejected_def\<close>)
  qed (use assms in \<open>simp add: draft_of_def None rejected_def\<close>)
qed (use assms in \<open>simp add: draft_of_def rejected_def\<close>)

text \<open>Property. A draft reported valid is one the platform accepts: its text is the fenced block of the model's answer, and parsing and linting it
  in the content routes, against all skills that exist, succeeds with the very specification that was shown; no error is reported.\<close>

theorem valid_draft_accepted:
  assumes "draft_activity ax redact sha providers inp start s gw = (d, gw', now)" and "dr_valid d"
  shows "\<exists>spec. dr_parsed d = Some spec \<and> lintAndParse ax (dr_draftYaml d) s = (Inr spec, s) \<and> dr_lintErrors d = []"
proof -
  let ?K = "resolveSkills (case di_skillSlugs inp of None \<Rightarrow> [] | Some x \<Rightarrow> x) s"
  obtain res where d: "d = draft_of ax ?K res" using assms(1) by (auto simp: draft_activity_def Let_def split: prod.splits)
  obtain spec yaml where spec: "ax_parseYaml ax yaml = Inr spec" "lr_valid (lint (ax_schema ax) spec ?K)"
      "d = \<lparr>dr_draftYaml = yaml, dr_parsed = Some spec, dr_valid = True, dr_lintErrors = [], dr_costUsd = rs_costUsd res\<rparr>"
    using valid_draft assms(2) unfolding d by blast
  have "lr_valid (lint (ax_schema ax) spec (known_slugs s))" using lint_mono [OF spec(2) resolveSkills_known] .
  then show ?thesis using spec(1,3) by (simp add: lintAndParse_run)
qed

text \<open>Property. Drafting is charged to the platform only: whatever the model answers, the spending recorded for attempts, learners and tenants
  stays what it was, and no budget of theirs can refuse a draft.\<close>

theorem draft_charges_platform:
  assumes "draft_activity ax redact sha providers inp start s gw = (d, gw', now)"
  shows "lg_attempt (gw_budget gw') = lg_attempt (gw_budget gw) \<and> lg_user (gw_budget gw') = lg_user (gw_budget gw) \<and>
    lg_tenant (gw_budget gw') = lg_tenant (gw_budget gw) \<and>
    checkOrThrow (gw_budget gw) est (rq_scope (authoring_request inp)) start \<in> {Inr (), Inl GlobalScope}"
proof -
  let ?req = "authoring_request inp" and ?ps = providers
  obtain res where run: "llm_call redact sha ?ps ?req start gw = (res, gw', now)"
    using assms by (auto simp: draft_activity_def Let_def split: prod.splits)
  have sc: "sp_attemptId (rq_scope ?req) = None" "sp_userId (rq_scope ?req) = None" "sp_tenantId (rq_scope ?req) = None" by (simp_all add: authoring_request_def)
  have frame: "lg_attempt l = lg_attempt (gw_budget gw) \<and> lg_user l = lg_user (gw_budget gw) \<and> lg_tenant l = lg_tenant (gw_budget gw)"
    if "tried redact ?ps ?req (gw_budget gw) start = (r, l, n)" for r l n
    using try_providers_frame [OF that [unfolded tried_def Let_def]] by (simp add: same_counters_def)
  have "checkOrThrow (gw_budget gw) est (rq_scope ?req) start \<in> {Inr (), Inl GlobalScope}"
    by (simp add: checkOrThrow_def breaches_def sc truthy_def)
  with run show ?thesis
  proof (cases rule: llm_call_cases)
    case (answered cache l name out)
    with frame [OF answered(3)] sc show ?thesis
      using \<open>checkOrThrow (gw_budget gw) est (rq_scope ?req) start \<in> _\<close> by (simp add: charge_def charge_scope_def truthy_def)
  qed (use frame \<open>checkOrThrow (gw_budget gw) est (rq_scope ?req) start \<in> _\<close> in auto)
qed

definition demo_draft :: draft_input where
  "demo_draft = \<lparr>di_topic = ''pods'', di_mode = ''GUIDED_LAB'', di_skillSlugs = None, di_solutionRepoNotes = None\<rparr>"

text \<open>A provider that answers with a fenced block.\<close>

definition demo_yaml :: string where
  "demo_yaml = FENCE @ ''yaml'' @ newline @ ''id: lab'' @ newline @ FENCE"

definition demo_author :: llm_provider where
  "demo_author = \<lparr>lp_name = ''p'', lp_healthy = Inr True, lp_complete = (\<lambda>_ _ _ _. (Inr \<lparr>co_text = demo_yaml, co_model = ''m'', co_inputTokens = 0, co_outputTokens = 0\<rparr>, 7))\<rparr>"

lemma demo_extracted: "extractYaml demo_yaml = Some ''id: lab''"
  by (simp add: demo_yaml_def FENCE_def newline_def fence_block_def js_space_def char_code_def js_trim_def)

text \<open>A redactor that blanks every prompt: the estimate is then that of the output alone.\<close>

definition demo_blank :: "string \<Rightarrow> string \<times> string list" where
  "demo_blank = (\<lambda>_. ([], []))"

lemma demo_affordable:
  "checkOrThrow (gw_budget demo_gateway) (estimate demo_blank (authoring_request demo_draft)) (rq_scope (authoring_request demo_draft)) 1 = Inr ()"
  by (simp add: checkOrThrow_def demo_gateway_def authoring_request_def estimate_def estimateCostUsd_def estimateTokens_def demo_blank_def
      maxOutputTokensFor_def BUDGET_DEFAULTS_def roll_def DAY_def breaches_def truthy_def Let_def)

lemma demo_answered:
  assumes "llm_call demo_blank id [demo_author] (authoring_request demo_draft) 1 demo_gateway = (res, gw', now)"
  shows "rs_degraded res = None \<and> rs_text res = demo_yaml"
proof -
  have look: "looked_up demo_blank id (authoring_request demo_draft) 1 demo_gateway = (None, gw_cache demo_gateway)"
    by (simp add: looked_up_def authoring_request_def demo_gateway_def cache_get_def evictExpired_def Let_def)
  have first: "tried demo_blank [demo_author] (authoring_request demo_draft) l 1 =
      (Some (''p'', \<lparr>co_text = demo_yaml, co_model = ''m'', co_inputTokens = 0, co_outputTokens = 0\<rparr>), l, 8)" for l
    unfolding tried_def Let_def by (simp add: orderByHealth_def is_healthy_def demo_author_def)
  from assms show ?thesis
    by (cases rule: llm_call_cases) (use look first demo_affordable in \<open>auto simp: degraded_response_def\<close>)
qed

lemma demo_drafted:
  assumes "draft_activity demo_admin demo_blank id [demo_author] demo_draft 1 demo_content demo_gateway = (d, gw', now)"
  shows "dr_valid d"
proof -
  obtain res gw2 now2 where run: "llm_call demo_blank id [demo_author] (authoring_request demo_draft) 1 demo_gateway = (res, gw2, now2)" by (metis prod_cases3)
  have parse: "ax_parseYaml demo_admin ''id: lab'' = Inr demo_authored" by (simp add: demo_admin_def)
  have "dr_valid (draft_of demo_admin (known_slugs demo_content) res)"
    using demo_answered [OF run] demo_lint by (simp add: draft_of_def demo_extracted truthy_def parse Let_def)
  then show ?thesis using assms run by (simp add: draft_activity_def resolveSkills_def demo_draft_def)
qed

theorem valid_draft_accepted_witness:
  "\<exists>spec. lintAndParse demo_admin ''id: lab'' demo_content = (Inr spec, demo_content)"
proof -
  obtain d gw' now where run: "draft_activity demo_admin demo_blank id [demo_author] demo_draft 1 demo_content demo_gateway = (d, gw', now)" by (metis prod_cases3)
  obtain res gw2 now2 where call: "llm_call demo_blank id [demo_author] (authoring_request demo_draft) 1 demo_gateway = (res, gw2, now2)" by (metis prod_cases3)
  have "dr_draftYaml d = ''id: lab''"
    using run call demo_answered [OF call]
    by (auto simp: draft_activity_def draft_of_def demo_extracted truthy_def rejected_def Let_def split: sum.splits)
  with valid_draft_accepted [OF run demo_drafted [OF run]] show ?thesis by auto
qed

theorem draft_charges_platform_witness:
  "lg_tenant (gw_budget (fst (snd (draft_activity demo_admin demo_blank id [demo_author] demo_draft 1 demo_content demo_gateway)))) ''t'' = None"
proof -
  obtain d gw' now where run: "draft_activity demo_admin demo_blank id [demo_author] demo_draft 1 demo_content demo_gateway = (d, gw', now)" by (metis prod_cases3)
  show ?thesis using draft_charges_platform [OF run] unfolding run by (simp add: demo_gateway_def)
qed

end
